(* ===== verification/Prelude.thy ===== *)
theory Prelude
  imports Main "HOL-Library.Word"
begin

text \<open>
  Shared vocabulary of the development: the machine types of the C sources, the outcome of
  code that can hit undefined behaviour or a failed \<open>assert\<close>, byte buffers with the
  \<open>memcpy\<close> family, and the little-endian wire integers. The lemma collections
  \<open>buffer_simps\<close> (writes into buffers) and \<open>wire_simps\<close> (integers on the wire) carry the
  component proofs.
\<close>

named_theorems buffer_simps "lengths and contents of buffers after a write"
named_theorems wire_simps "little-endian integers on the wire"

unbundle bit_operations_syntax

section \<open>Machine types\<close>

type_synonym byte = "8 word"
type_synonym u16 = "16 word"
type_synonym u32 = "32 word"
type_synonym bytes = "byte list"

section \<open>Outcomes\<close>

text \<open>
  What the C code does beyond returning: a read or write outside an object, the use of an
  indeterminate value, a failed \<open>assert\<close>, the use of a freed or null pointer. Code that can do one of these returns \<open>fault + 'a\<close>.
  \<open>Unfinished\<close> is the value of a loop that is still running after the rounds it was given.
\<close>

datatype fault = OutOfBounds | Indeterminate | AssertFailed | Dangling | Unfinished

type_synonym 'a outcome = "fault + 'a"

definition bind_ok :: "'a outcome \<Rightarrow> ('a \<Rightarrow> 'b outcome) \<Rightarrow> 'b outcome" where
  "bind_ok x f = (case x of Inl e \<Rightarrow> Inl e | Inr a \<Rightarrow> f a)"

lemma bind_ok_simps [simp]:
  "bind_ok (Inl e) f = Inl e"
  "bind_ok (Inr a) f = f a"
  by (simp_all add: bind_ok_def)

lemma bind_ok_Inr_iff: "bind_ok x f = Inr b \<longleftrightarrow> (\<exists>a. x = Inr a \<and> f a = Inr b)"
  by (cases x) simp_all

section \<open>Buffers\<close>

text \<open>
  A buffer is the list of its bytes. \<open>put_at buf off bs\<close> is \<open>memcpy(buf + off, bs, |bs|)\<close> and
  \<open>region buf off n\<close> reads \<open>n\<close> bytes at \<open>off\<close>.
\<close>

definition put_at :: "'a list \<Rightarrow> nat \<Rightarrow> 'a list \<Rightarrow> 'a list" where
  "put_at buf off bs = take off buf @ bs @ drop (off + length bs) buf"

definition region :: "'a list \<Rightarrow> nat \<Rightarrow> nat \<Rightarrow> 'a list" where
  "region buf off n = take n (drop off buf)"

text \<open>\<open>memmove(buf, buf + off, n)\<close>: the bytes at \<open>off\<close> come to the front, the rest stay.\<close>

definition move_front :: "'a list \<Rightarrow> nat \<Rightarrow> nat \<Rightarrow> 'a list" where
  "move_front buf off n = put_at buf 0 (region buf off n)"

lemma length_put_at [buffer_simps, simp]:
  "off + length bs \<le> length buf \<Longrightarrow> length (put_at buf off bs) = length buf"
  by (simp add: put_at_def)

lemma put_at_Nil [buffer_simps, simp]: "put_at buf off [] = buf"
  by (simp add: put_at_def)

lemma length_region [buffer_simps, simp]: "length (region buf off n) = min n (length buf - off)"
  by (simp add: region_def)

lemma length_move_front [buffer_simps, simp]:
  "length (move_front buf off n) = length buf"
  by (simp add: move_front_def put_at_def)

lemma nth_put_at:
  assumes "off \<le> length buf" and "i < length (put_at buf off bs)"
  shows "put_at buf off bs ! i =
    (if i < off then buf ! i else if i < off + length bs then bs ! (i - off) else buf ! i)"
  using assms by (auto simp: put_at_def nth_append)

lemma region_put_at [buffer_simps]:
  "off \<le> length buf \<Longrightarrow> region (put_at buf off bs) off (length bs) = bs"
  by (simp add: put_at_def region_def)

lemma take_put_at [buffer_simps]: "n \<le> off \<Longrightarrow> off \<le> length buf \<Longrightarrow> take n (put_at buf off bs) = take n buf"
  by (simp add: put_at_def min_absorb1)

lemma take_end_put_at [buffer_simps]:
  "off \<le> length buf \<Longrightarrow> take (off + length bs) (put_at buf off bs) = take off buf @ bs"
  by (simp add: put_at_def)

lemma put_at_put_at [buffer_simps]:
  "off \<le> length buf \<Longrightarrow>
   put_at (put_at buf off xs) (off + length xs) ys = put_at buf off (xs @ ys)"
  by (simp add: put_at_def add.commute add.left_commute)

lemma region_add: "region xs off (a + b) = region xs off a @ region xs (off + a) b"
  by (simp add: region_def take_add add.commute)

lemma region_append_right [buffer_simps]: "length xs = off \<Longrightarrow> region (xs @ ys) off n = take n ys"
  by (simp add: region_def)

lemma region_all [buffer_simps]: "length xs = n \<Longrightarrow> region xs 0 n = xs"
  by (simp add: region_def)

lemma list_update_eq_put_at: "i < length xs \<Longrightarrow> xs[i := x] = put_at xs i [x]"
  by (simp add: put_at_def upd_conv_take_nth_drop)

lemma take_Suc_update: "i < length xs \<Longrightarrow> take (Suc i) (xs[i := x]) = take i xs @ [x]"
  by (simp add: take_Suc_conv_app_nth)

section \<open>Little-endian integers\<close>

lemma unat_u16_less: "unat (b :: u16) < 65536"
  using unsigned_less [of b] by simp

definition le16 :: "u16 \<Rightarrow> bytes" where
  "le16 h = [ucast (h AND 0xFF), ucast (drop_bit 8 h)]"

definition le32 :: "u32 \<Rightarrow> bytes" where
  "le32 h = [ucast (h AND 0xFF), ucast (drop_bit 8 h AND 0xFF),
             ucast (drop_bit 16 h AND 0xFF), ucast (drop_bit 24 h AND 0xFF)]"

definition of_le16 :: "bytes \<Rightarrow> u16" where
  "of_le16 b = push_bit 8 (ucast (b ! 1)) OR ucast (b ! 0)"

definition of_le32 :: "bytes \<Rightarrow> u32" where
  "of_le32 b = ((push_bit 24 (ucast (b ! 3)) OR push_bit 16 (ucast (b ! 2)))
                OR push_bit 8 (ucast (b ! 1))) OR ucast (b ! 0)"

lemma length_le16 [wire_simps, simp]: "length (le16 h) = 2"
  by (simp add: le16_def)

lemma length_le32 [wire_simps, simp]: "length (le32 h) = 4"
  by (simp add: le32_def)

lemma and_0xFF_eq_take_bit: "h AND 0xFF = take_bit 8 (h :: 'a::len word)"
proof -
  have "(0xFF :: 'a word) = mask 8"
    by (simp add: mask_numeral)
  then show ?thesis
    by (simp only: take_bit_eq_mask)
qed

lemma ucast_and_0xFF [wire_simps, simp]: "(ucast (h AND 0xFF :: 'a::len word) :: byte) = ucast h"
  unfolding and_0xFF_eq_take_bit by (rule bit_word_eqI) (auto simp: bit_simps)

lemma of_le16_le16 [wire_simps, simp]: "of_le16 (le16 h) = h"
  by (rule bit_word_eqI)
    (auto simp: of_le16_def le16_def bit_simps not_le less_diff_conv2)

lemma of_le32_le32 [wire_simps, simp]: "of_le32 (le32 h) = h"
proof (rule bit_word_eqI)
  fix n assume n: "n < LENGTH(32)"
  then consider "n < 8" | "8 \<le> n" "n < 16" | "16 \<le> n" "n < 24" | "24 \<le> n" "n < 32"
    by fastforce
  then show "bit (of_le32 (le32 h)) n = bit h n"
    by cases (auto simp: of_le32_def le32_def bit_simps)
qed

lemma of_le32_append [wire_simps, simp]: "of_le32 (le32 h @ xs) = h"
  using of_le32_le32[of h] by (simp add: of_le32_def le32_def)

lemma of_le16_append [wire_simps, simp]: "of_le16 (le16 h @ xs) = h"
  using of_le16_le16[of h] by (simp add: of_le16_def le16_def)

end
