(* ===== verification/Helper.thy ===== *)
theory Helper
  imports Prelude "HOL-Library.Char_ord"
begin

text \<open>
  \<open>lib/helper.c\<close> and the inline conversions of \<open>include/ipmitool/helper.h\<close>: the IPMI checksum,
  hexadecimal dumps and their parser, byte order, and the value/string tables. C strings are
  lists of the characters before the terminating NUL; an array parameter of type \<open>uint8_t *\<close>
  is the list of the bytes it points to. Log output is not modelled.
\<close>

section \<open>Checksum\<close>

text \<open>\<open>ipmi_csum(d, s)\<close> adds \<open>s\<close> bytes modulo 256 and returns the two's complement.\<close>

fun csum_loop :: "byte \<Rightarrow> bytes \<Rightarrow> nat \<Rightarrow> byte" where
  "csum_loop c d 0 = c"
| "csum_loop c [] (Suc s) = c"
| "csum_loop c (x # d) (Suc s) = csum_loop (c + x) d s"

definition ipmi_csum :: "bytes \<Rightarrow> nat \<Rightarrow> byte" where
  "ipmi_csum d s = - csum_loop 0 d s"

lemma csum_loop_eq: "csum_loop c d s = c + sum_list (take s d)"
  by (induction c d s rule: csum_loop.induct) (simp_all add: add.assoc)

lemma ipmi_csum_eq: "ipmi_csum d s = - sum_list (take s d)"
  by (simp add: ipmi_csum_def csum_loop_eq)

text \<open>A message closed by its checksum verifies, and only that checksum byte closes it.\<close>

lemma ipmi_csum_closes_iff:
  "ipmi_csum (d @ [c]) (Suc (length d)) = 0 \<longleftrightarrow> c = ipmi_csum d (length d)"
proof -
  have "- (sum_list d + c) = 0 \<longleftrightarrow> c = - sum_list d"
    by (simp only: neg_equal_0_iff_equal eq_neg_iff_add_eq_0 add.commute [of c])
  then show ?thesis
    by (simp add: ipmi_csum_eq)
qed

lemma ipmi_csum_update:
  assumes "i < s" "s \<le> length d"
  shows "ipmi_csum (d[i := x]) s = ipmi_csum d s + (d ! i - x)"
proof -
  have split: "take s d = take i d @ d ! i # drop (Suc i) (take s d)"
    using assms id_take_nth_drop [of i "take s d"] by (simp add: min_def)
  have "take s (d[i := x]) = (take s d)[i := x]"
    by (simp add: take_update_swap)
  also have "\<dots> = take i d @ x # drop (Suc i) (take s d)"
    using assms by (simp add: upd_conv_take_nth_drop min_def)
  finally have "sum_list (take s (d[i := x])) =
      sum_list (take i d) + (x + sum_list (drop (Suc i) (take s d)))"
    by simp
  moreover have "sum_list (take s d) =
      sum_list (take i d) + (d ! i + sum_list (drop (Suc i) (take s d)))"
    using arg_cong [OF split, of sum_list] by simp
  ultimately show ?thesis
    unfolding ipmi_csum_eq by simp
qed

section \<open>Hexadecimal text\<close>

definition hex_digit :: "nat \<Rightarrow> char" where
  "hex_digit n = ''0123456789abcdef'' ! n"

text \<open>\<open>%2.2x\<close> of a byte: two lower-case digits.\<close>

definition hex_byte :: "byte \<Rightarrow> string" where
  "hex_byte b = [hex_digit (unat b div 16), hex_digit (unat b mod 16)]"

definition BUF2STR_MAXIMUM_OUTPUT_SIZE :: nat where
  "BUF2STR_MAXIMUM_OUTPUT_SIZE = 3 * 1024 + 1"

text \<open>
  \<open>snprintf(cur, left, "%2.2x", b)\<close> into the static array \<open>str\<close>: at most \<open>left - 1\<close> characters
  and a NUL. The returned size is 2 whatever fits.
\<close>

definition snprintf_hex :: "string \<Rightarrow> nat \<Rightarrow> nat \<Rightarrow> byte \<Rightarrow> string" where
  "snprintf_hex str cur left b =
     (if left = 0 then str else put_at str cur (take (left - 1) (hex_byte b) @ [CHR 0x00]))"

text \<open>\<open>strncpy(dst, src, n)\<close>: \<open>n\<close> characters, padded with NULs.\<close>

definition strncpy_at :: "string \<Rightarrow> nat \<Rightarrow> string \<Rightarrow> nat \<Rightarrow> string" where
  "strncpy_at str cur src n = put_at str cur (take n (src @ replicate n (CHR 0x00)))"

text \<open>
  The loop of \<open>buf2str_extended\<close> over the bytes still to print; \<open>cur\<close> and \<open>left\<close> are the C
  variables. The count \<open>left - sz\<close> passed to \<open>strncpy\<close> is computed in \<open>int\<close>: below zero it
  becomes a huge \<open>size_t\<close>, a write outside the static array.
\<close>

fun buf2str_loop :: "bytes \<Rightarrow> string option \<Rightarrow> string \<Rightarrow> nat \<Rightarrow> nat \<Rightarrow> (string \<times> nat) outcome" where
  "buf2str_loop [] sep str cur left = Inr (str, cur)"
| "buf2str_loop (b # bs) sep str cur left =
     (let str1 = snprintf_hex str cur left b in
      if 2 \<ge> left then Inr (str1, cur)
      else
        let cur1 = cur + 2; left1 = left - 2 in
        case sep of
          None \<Rightarrow> buf2str_loop bs sep str1 cur1 left1
        | Some sp \<Rightarrow>
            if bs = [] then buf2str_loop bs sep str1 cur1 left1
            else if length sp \<ge> left1 then Inr (str1, cur1)
            else if left1 < 2 then Inl OutOfBounds
            else buf2str_loop bs sep (strncpy_at str1 cur1 sp (left1 - 2))
                   (cur1 + length sp) (left1 - length sp))"

text \<open>
  \<open>buf2str_extended\<close> over the static array \<open>str\<close>, whose former content is an argument; the
  result is the new content, read up to its first NUL by the caller.
\<close>

definition buf2str_extended :: "string \<Rightarrow> bytes option \<Rightarrow> string option \<Rightarrow> string outcome" where
  "buf2str_extended str buf sep =
     (case buf of
        None \<Rightarrow> Inr (put_at str 0 (''<NULL>'' @ [CHR 0x00]))
      | Some bs \<Rightarrow> bind_ok (buf2str_loop bs sep str 0 BUF2STR_MAXIMUM_OUTPUT_SIZE)
          (\<lambda>(str', cur). Inr (put_at str' cur [CHR 0x00])))"

definition c_string :: "string \<Rightarrow> string" where
  "c_string = takeWhile (\<lambda>c. c \<noteq> CHR 0x00)"

definition buf2str :: "string \<Rightarrow> bytes option \<Rightarrow> string outcome" where
  "buf2str str buf = buf2str_extended str buf None"

definition mac2str :: "string \<Rightarrow> bytes \<Rightarrow> string outcome" where
  "mac2str str buf = buf2str_extended str (Some (take 6 buf)) (Some '':'')"

text \<open>The \<open>ctype.h\<close> classes of the C locale.\<close>

definition isxdigit :: "char \<Rightarrow> bool" where
  "isxdigit c \<longleftrightarrow> c \<in> set ''0123456789abcdefABCDEF''"

definition isspace :: "char \<Rightarrow> bool" where
  "isspace c \<longleftrightarrow> c \<in> {CHR 0x20, CHR 0x09, CHR 0x0A, CHR 0x0B, CHR 0x0C, CHR 0x0D}"

definition hex_value :: "char \<Rightarrow> byte" where
  "hex_value c =
     (if of_char c < (0x41 :: nat) then of_char c - 0x30
      else ((of_char c OR 0x20) - 0x61) + 10)"

text \<open>
  The loop of \<open>ipmi_parse_hex\<close>: \<open>out\<close> is the output buffer, \<open>q\<close> the number of bytes stored,
  \<open>b\<close> and \<open>shift\<close> the C variables (\<open>shift\<close> is 4 or 0). The flag is false when a character
  is not hexadecimal; the bytes stored before it stay in the buffer.
\<close>

fun parse_hex_loop :: "string \<Rightarrow> bytes \<Rightarrow> nat \<Rightarrow> nat \<Rightarrow> byte \<Rightarrow> nat \<Rightarrow> bool \<times> bytes" where
  "parse_hex_loop [] out sz q b shift = (True, out)"
| "parse_hex_loop (c # cs) out sz q b shift =
     (if \<not> isxdigit c then (False, out)
      else if q < sz then
        let b' = b + push_bit shift (hex_value c) in
        if shift \<noteq> 0 then parse_hex_loop cs out sz q b' 0
        else parse_hex_loop cs (out[q := b']) sz (Suc q) 0 4
      else parse_hex_loop cs out sz q b shift)"

definition ipmi_parse_hex :: "string \<Rightarrow> bytes option \<Rightarrow> nat \<Rightarrow> int \<times> bytes option" where
  "ipmi_parse_hex str out sz =
     (let len = length str in
      if len = 0 then (0, out)
      else if len mod 2 \<noteq> 0 then (-1, out)
      else case out of
        None \<Rightarrow> (-2, None)
      | Some buf \<Rightarrow>
          (case parse_hex_loop str buf sz 0 0 4 of
             (ok, buf') \<Rightarrow> (if ok then int (len div 2) else -3, Some buf')))"

section \<open>Byte order\<close>

definition buf2long :: "bytes \<Rightarrow> u32" where
  "buf2long buf = push_bit 24 (ucast (buf ! 3)) OR push_bit 16 (ucast (buf ! 2))
                  OR push_bit 8 (ucast (buf ! 1)) OR ucast (buf ! 0)"

definition buf2short :: "bytes \<Rightarrow> u16" where
  "buf2short buf = push_bit 8 (ucast (buf ! 1)) OR ucast (buf ! 0)"

definition ipmi16toh :: "bytes \<Rightarrow> u16" where
  "ipmi16toh b = of_le16 b"

definition htoipmi16 :: "u16 \<Rightarrow> bytes" where
  "htoipmi16 h = le16 h"

definition ipmi24toh :: "bytes \<Rightarrow> u32" where
  "ipmi24toh b = push_bit 16 (ucast (b ! 2)) OR push_bit 8 (ucast (b ! 1)) OR ucast (b ! 0)"

definition htoipmi24 :: "u32 \<Rightarrow> bytes" where
  "htoipmi24 h = [ucast (h AND 0xFF), ucast (drop_bit 8 h AND 0xFF), ucast (drop_bit 16 h AND 0xFF)]"

definition ipmi32toh :: "bytes \<Rightarrow> u32" where
  "ipmi32toh b = of_le32 b"

definition htoipmi32 :: "u32 \<Rightarrow> bytes" where
  "htoipmi32 h = le32 h"

text \<open>\<open>array_byteswap\<close> exchanges \<open>buffer[i]\<close> with \<open>buffer[max - i]\<close> for \<open>i < length / 2\<close>.\<close>

definition swap_at :: "bytes \<Rightarrow> nat \<Rightarrow> nat \<Rightarrow> bytes" where
  "swap_at buf i j = (buf[i := buf ! j])[j := buf ! i]"

definition array_byteswap :: "bytes \<Rightarrow> nat \<Rightarrow> bytes" where
  "array_byteswap buf len =
     fold (\<lambda>i b. swap_at b i (len - 1 - i)) [0 ..< len div 2] buf"

text \<open>Host byte order: \<open>big\<close> is \<open>WORDS_BIGENDIAN\<close>.\<close>

definition array_ntoh :: "bool \<Rightarrow> bytes \<Rightarrow> nat \<Rightarrow> bytes" where
  "array_ntoh big buf len = (if big then buf else array_byteswap buf len)"

definition array_letoh :: "bool \<Rightarrow> bytes \<Rightarrow> nat \<Rightarrow> bytes" where
  "array_letoh big buf len = (if big then array_byteswap buf len else buf)"

section \<open>Value and string tables\<close>

record valstr =
  vs_val :: u32
  vs_str :: "string option"

record oemvalstr =
  ovs_oem :: u32
  ovs_val :: u16
  ovs_str :: "string option"

fun find_val_idx_from :: "nat \<Rightarrow> u32 \<Rightarrow> valstr list \<Rightarrow> int" where
  "find_val_idx_from i v [] = -1"
| "find_val_idx_from i v (e # es) =
     (case vs_str e of
        None \<Rightarrow> -1
      | Some _ \<Rightarrow> if vs_val e = v then int i else find_val_idx_from (Suc i) v es)"

definition find_val_idx :: "u32 \<Rightarrow> valstr list option \<Rightarrow> int" where
  "find_val_idx v vs = (case vs of None \<Rightarrow> -1 | Some es \<Rightarrow> find_val_idx_from 0 v es)"

text \<open>\<open>%02X\<close>: upper-case digits, at least two.\<close>

fun upper_hex :: "nat \<Rightarrow> string" where
  "upper_hex n = (if n < 16 then [''0123456789ABCDEF'' ! n]
                  else upper_hex (n div 16) @ [''0123456789ABCDEF'' ! (n mod 16)])"

declare upper_hex.simps [simp del]

definition unknown_val_str :: "u32 \<Rightarrow> string" where
  "unknown_val_str v =
     (let h = upper_hex (unat v) in
      take 31 (''Unknown (0x'' @ (if length h < 2 then CHR ''0'' # h else h) @ '')''))"

definition specific_val2str :: "u32 \<Rightarrow> valstr list option \<Rightarrow> valstr list option \<Rightarrow> string" where
  "specific_val2str v specific generic =
     (let i = find_val_idx v specific in
      if 0 \<le> i then the (vs_str (the specific ! nat i))
      else let j = find_val_idx v generic in
        if 0 \<le> j then the (vs_str (the generic ! nat j))
        else unknown_val_str v)"

definition val2str :: "u32 \<Rightarrow> valstr list option \<Rightarrow> string" where
  "val2str v vs = specific_val2str v None vs"

definition IPMI_OEM_PICMG :: u32 where
  "IPMI_OEM_PICMG = 12634"

fun oemval2str :: "u32 \<Rightarrow> u32 \<Rightarrow> oemvalstr list \<Rightarrow> string" where
  "oemval2str oem v [] = unknown_val_str v"
| "oemval2str oem v (e # es) =
     (if ovs_oem e = 0xffffff then unknown_val_str v
      else case ovs_str e of
        None \<Rightarrow> unknown_val_str v
      | Some s \<Rightarrow>
          if (ovs_oem e = oem \<or> ovs_oem e = IPMI_OEM_PICMG) \<and> ucast (ovs_val e) = v then s
          else oemval2str oem v es)"

text \<open>\<open>strcasecmp\<close> in the C locale; an unknown name yields the terminator's value.\<close>

definition to_lower :: "char \<Rightarrow> char" where
  "to_lower c = (if c \<in> set ''ABCDEFGHIJKLMNOPQRSTUVWXYZ'' then char_of (of_char c + (32 :: nat)) else c)"

fun str2val32 :: "string \<Rightarrow> valstr list \<Rightarrow> u32" where
  "str2val32 s [] = 0"
| "str2val32 s (e # es) =
     (case vs_str e of
        None \<Rightarrow> vs_val e
      | Some t \<Rightarrow> if List.map to_lower t = List.map to_lower s then vs_val e else str2val32 s es)"

text \<open>
  \<open>eval_ccode\<close> maps a return value of the \<open>_ipmi_*\<close> functions to 0 or -1; the messages it
  prints are the log.
\<close>

definition eval_ccode :: "int \<Rightarrow> int" where
  "eval_ccode ccode = (if ccode = 0 then 0 else if ccode < 0 then -1 else -1)"

section \<open>Facts about the dumps and their parser\<close>

lemma length_hex_byte [simp]: "length (hex_byte b) = 2"
  by (simp add: hex_byte_def)

lemma hex_digit_props:
  assumes "n < 16"
  shows "isxdigit (hex_digit n)" "hex_digit n \<noteq> CHR 0x00" "hex_value (hex_digit n) = of_nat n"
proof -
  have "\<forall>k \<in> set [0 ..< 16]. isxdigit (hex_digit k) \<and> hex_digit k \<noteq> CHR 0x00
      \<and> hex_value (hex_digit k) = of_nat k"
    by (simp add: upt_rec hex_digit_def isxdigit_def hex_value_def)
  then show "isxdigit (hex_digit n)" "hex_digit n \<noteq> CHR 0x00" "hex_value (hex_digit n) = of_nat n"
    using assms by simp_all
qed

lemma unat_byte_less: "unat (b :: byte) < 256"
  using unsigned_less [of b] by simp

lemma hex_nibbles:
  "push_bit 4 (of_nat (unat b div 16)) + of_nat (unat b mod 16) = (b :: byte)"
proof -
  have "of_nat (unat b div 16) * 16 + of_nat (unat b mod 16)
      = (of_nat (unat b div 16 * 16 + unat b mod 16) :: byte)"
    by (simp only: of_nat_add of_nat_mult of_nat_numeral)
  also have "\<dots> = b"
    by (simp only: div_mult_mod_eq) simp
  finally show ?thesis
    by (simp add: push_bit_eq_mult)
qed

lemma parse_hex_step:
  "q < sz \<Longrightarrow> parse_hex_loop (hex_byte b @ cs) out sz q 0 4 = parse_hex_loop cs (out[q := b]) sz (Suc q) 0 4"
  using unat_byte_less [of b]
  by (simp add: hex_byte_def hex_digit_props Let_def hex_nibbles)

lemma parse_hex_loop_dump:
  "q + length bs \<le> sz \<Longrightarrow> q + length bs \<le> length out \<Longrightarrow>
   parse_hex_loop (concat (List.map hex_byte bs)) out sz q 0 4 = (True, put_at out q bs)"
proof (induction bs arbitrary: q out)
  case Nil
  then show ?case by simp
next
  case (Cons b bs)
  then show ?case
    using put_at_put_at [of q out "[b]" bs]
    by (simp add: parse_hex_step list_update_eq_put_at)
qed

lemma length_concat_hex [simp]: "length (concat (List.map hex_byte bs)) = 2 * length bs"
  by (induction bs) simp_all

lemma ipmi_parse_hex_dump:
  assumes "bs \<noteq> []" "length bs \<le> sz" "length bs \<le> length out"
  shows "ipmi_parse_hex (concat (List.map hex_byte bs)) (Some out) sz =
    (int (length bs), Some (put_at out 0 bs))"
  using assms by (simp add: ipmi_parse_hex_def parse_hex_loop_dump)

lemma snprintf_hex_fits:
  "2 < left \<Longrightarrow> snprintf_hex str cur left b = put_at str cur (hex_byte b @ [CHR 0x00])"
  by (simp add: snprintf_hex_def)

lemma buf2str_loop_plain:
  assumes "2 * length bs < left" "cur + left \<le> length str"
  shows "\<exists>str'. buf2str_loop bs None str cur left = Inr (str', cur + 2 * length bs)
    \<and> length str' = length str
    \<and> take (cur + 2 * length bs) str' = take cur str @ concat (List.map hex_byte bs)"
  using assms
proof (induction bs arbitrary: str cur left)
  case Nil
  then show ?case by simp
next
  case (Cons b bs)
  let ?s = "put_at str cur (hex_byte b @ [CHR 0x00])"
  have len: "length ?s = length str"
    using Cons.prems by simp
  have "2 * length bs < left - 2" "cur + 2 + (left - 2) \<le> length ?s"
    using Cons.prems len by simp_all
  then obtain str' where *: "buf2str_loop bs None ?s (cur + 2) (left - 2)
      = Inr (str', cur + 2 + 2 * length bs)" "length str' = length ?s"
    "take (cur + 2 + 2 * length bs) str' = take (cur + 2) ?s @ concat (List.map hex_byte bs)"
    using Cons.IH by blast
  have "take (cur + 2) ?s = take cur str @ hex_byte b"
    using Cons.prems by (simp add: put_at_def)
  then show ?case
    using * len Cons.prems by (simp add: snprintf_hex_fits Let_def)
qed

lemma hex_byte_no_nul: "c \<in> set (hex_byte b) \<Longrightarrow> c \<noteq> CHR 0x00"
proof -
  have hi: "unat b div 16 < 16" and lo: "unat b mod 16 < 16"
    using unat_byte_less [of b] by simp_all
  show "c \<in> set (hex_byte b) \<Longrightarrow> c \<noteq> CHR 0x00"
    using hex_digit_props(2) [OF hi] hex_digit_props(2) [OF lo] by (auto simp: hex_byte_def)
qed

lemma c_string_hex:
  "c_string (concat (List.map hex_byte bs) @ CHR 0x00 # r) = concat (List.map hex_byte bs)"
  unfolding c_string_def by (subst takeWhile_append2) (auto dest: hex_byte_no_nul)

lemma buf2str_plain:
  assumes "2 * length bs < BUF2STR_MAXIMUM_OUTPUT_SIZE" "length str = BUF2STR_MAXIMUM_OUTPUT_SIZE"
  shows "\<exists>str'. buf2str str (Some bs) = Inr str' \<and> length str' = length str
    \<and> c_string str' = concat (List.map hex_byte bs)"
proof -
  obtain str' where *: "buf2str_loop bs None str 0 BUF2STR_MAXIMUM_OUTPUT_SIZE
      = Inr (str', 2 * length bs)" "length str' = length str"
    "take (2 * length bs) str' = concat (List.map hex_byte bs)"
    using buf2str_loop_plain [of bs BUF2STR_MAXIMUM_OUTPUT_SIZE 0 str] assms by auto
  then show ?thesis
    using assms by (simp add: buf2str_def buf2str_extended_def put_at_def c_string_hex)
qed

section \<open>Facts about the byte swap\<close>

lemma length_swap_at [simp]: "length (swap_at b i j) = length b"
  by (simp add: swap_at_def)

lemma nth_swap_at:
  "i < length b \<Longrightarrow> j < length b \<Longrightarrow>
   swap_at b i j ! m = (if m = j then b ! i else if m = i then b ! j else b ! m)"
  by (simp add: swap_at_def nth_list_update)

lemma length_fold_swap [simp]:
  "length (fold (\<lambda>i b. swap_at b i (n - Suc i)) is b) = length b"
  by (induction "is" arbitrary: b) simp_all

lemma nth_fold_swap:
  assumes "k \<le> length buf div 2" "j < length buf"
  shows "fold (\<lambda>i b. swap_at b i (length buf - Suc i)) [0 ..< k] buf ! j =
    (if j < k \<or> length buf - k \<le> j then buf ! (length buf - Suc j) else buf ! j)"
  using assms
proof (induction k arbitrary: j)
  case 0
  then show ?case by simp
next
  case (Suc k)
  let ?n = "length buf"
  define b where "b = fold (\<lambda>i b. swap_at b i (?n - Suc i)) [0 ..< k] buf"
  have k: "k < ?n div 2" "k < ?n" "?n - Suc k < ?n" "length b = ?n"
    using Suc.prems by (simp_all add: b_def)
  have b: "b ! m = (if m < k \<or> ?n - k \<le> m then buf ! (?n - Suc m) else buf ! m)" if "m < ?n" for m
    using Suc.IH [OF _ that] Suc.prems(1) by (simp add: b_def)
  have "fold (\<lambda>i b. swap_at b i (?n - Suc i)) [0 ..< Suc k] buf ! j = swap_at b k (?n - Suc k) ! j"
    by (simp add: b_def)
  also have "\<dots> = (if j = ?n - Suc k then b ! k else if j = k then b ! (?n - Suc k) else b ! j)"
    using k by (simp add: nth_swap_at)
  finally have step: "fold (\<lambda>i b. swap_at b i (?n - Suc i)) [0 ..< Suc k] buf ! j = \<dots>" .
  consider "j = ?n - Suc k" | "j = k" "j \<noteq> ?n - Suc k" | "j \<noteq> k" "j \<noteq> ?n - Suc k"
    by blast
  then show ?case
  proof cases
    case 1
    then show ?thesis
      unfolding step using k b [of k] by auto
  next
    case 2
    then show ?thesis
      unfolding step using k b [of "?n - Suc k"] by auto
  next
    case 3
    then have "j < Suc k \<or> ?n - Suc k \<le> j \<longleftrightarrow> j < k \<or> ?n - k \<le> j"
      using k by linarith
    then show ?thesis
      unfolding step using 3 b [OF Suc.prems(2)] by (simp only: if_False)
  qed
qed

lemma array_byteswap_rev: "array_byteswap buf (length buf) = rev buf"
proof (rule nth_equalityI)
  fix j assume j: "j < length (array_byteswap buf (length buf))"
  then have j': "j < length buf"
    by (simp add: array_byteswap_def del: upt_Suc)
  have mid: "buf ! j = buf ! (length buf - Suc j)"
    if "\<not> (j < length buf div 2 \<or> length buf - length buf div 2 \<le> j)"
  proof -
    have "j = length buf - Suc j"
      using that j' by linarith
    then show ?thesis by simp
  qed
  show "array_byteswap buf (length buf) ! j = rev buf ! j"
    using nth_fold_swap [of "length buf div 2" buf j] j' mid
    by (auto simp: array_byteswap_def rev_nth)
qed (simp add: array_byteswap_def)

end
