(* ===== verification/HelperNum.thy ===== *)
theory HelperNum
  imports Helper
begin

text \<open>
  The string-to-number conversions of \<open>lib/helper.c\<close>: \<open>str2long\<close>, \<open>str2ulong\<close>, the narrowing
  conversions built on them, and the argument checks built on \<open>str2uchar\<close>. \<open>strtol\<close> and
  \<open>strtoul\<close> are modelled with base 0 in the C locale with a 64-bit \<open>long\<close>. A pointer
  argument that may be \<open>NULL\<close> is an option; an output parameter is returned beside the code.
\<close>

section \<open>\<open>strtol\<close> and \<open>strtoul\<close> with base 0\<close>

definition digit_val :: "char \<Rightarrow> nat option" where
  "digit_val c =
     (let n = of_char c :: nat in
      if 48 \<le> n \<and> n \<le> 57 then Some (n - 48)
      else if 97 \<le> n \<and> n \<le> 122 then Some (n - 87)
      else if 65 \<le> n \<and> n \<le> 90 then Some (n - 55)
      else None)"

definition is_digit_in :: "nat \<Rightarrow> char \<Rightarrow> bool" where
  "is_digit_in base c = (case digit_val c of None \<Rightarrow> False | Some d \<Rightarrow> d < base)"

fun scan_digits :: "nat \<Rightarrow> nat \<Rightarrow> string \<Rightarrow> nat \<times> string" where
  "scan_digits base acc [] = (acc, [])"
| "scan_digits base acc (c # cs) =
     (if is_digit_in base c then scan_digits base (acc * base + the (digit_val c)) cs
      else (acc, c # cs))"

text \<open>The base prefix: \<open>0x\<close> counts only when a hexadecimal digit follows it.\<close>

fun split_base :: "string \<Rightarrow> nat \<times> string" where
  "split_base (z # x # d # cs) =
     (if z = CHR ''0'' then
        (if x \<in> {CHR ''x'', CHR ''X''} \<and> is_digit_in 16 d then (16, d # cs) else (8, z # x # d # cs))
      else (10, z # x # d # cs))"
| "split_base (z # cs) = (if z = CHR ''0'' then 8 else 10, z # cs)"
| "split_base [] = (10, [])"

fun split_sign :: "string \<Rightarrow> bool \<times> string" where
  "split_sign [] = (False, [])"
| "split_sign (c # cs) =
     (if c = CHR ''-'' then (True, cs) else if c = CHR ''+'' then (False, cs) else (False, c # cs))"

text \<open>\<open>None\<close>: no digit was found, and \<open>end_ptr\<close> is the start of the string.\<close>

definition strto_scan :: "string \<Rightarrow> (bool \<times> nat \<times> string) option" where
  "strto_scan s =
     (case split_sign (dropWhile isspace s) of (neg, t) \<Rightarrow>
      case split_base t of (base, u) \<Rightarrow>
      (case u of
         [] \<Rightarrow> None
       | c # _ \<Rightarrow>
           if is_digit_in base c then
             (case scan_digits base 0 u of (n, rest) \<Rightarrow> Some (neg, n, rest))
           else None))"

text \<open>Value, rest of the string at \<open>end_ptr\<close>, and whether \<open>errno\<close> was set to \<open>ERANGE\<close>.\<close>

definition strtol0 :: "string \<Rightarrow> int \<times> string \<times> bool" where
  "strtol0 s =
     (case strto_scan s of
        None \<Rightarrow> (0, s, False)
      | Some (neg, n, rest) \<Rightarrow>
          let v = (if neg then - int n else int n) in
          if v < - (2 ^ 63) then (- (2 ^ 63), rest, True)
          else if v > 2 ^ 63 - 1 then (2 ^ 63 - 1, rest, True)
          else (v, rest, False))"

definition strtoul0 :: "string \<Rightarrow> int \<times> string \<times> bool" where
  "strtoul0 s =
     (case strto_scan s of
        None \<Rightarrow> (0, s, False)
      | Some (neg, n, rest) \<Rightarrow>
          if int n > 2 ^ 64 - 1 then (2 ^ 64 - 1, rest, True)
          else ((if neg then - int n else int n) mod 2 ^ 64, rest, False))"

section \<open>The conversions\<close>

definition str2long :: "string option \<Rightarrow> int option \<Rightarrow> int \<times> int option" where
  "str2long str lng =
     (case (str, lng) of
        (Some s, Some _) \<Rightarrow>
          (case strtol0 s of (v, rest, erange) \<Rightarrow>
             if rest \<noteq> [] then (-2, Some v) else if erange then (-3, Some v) else (0, Some v))
      | _ \<Rightarrow> (-1, lng))"

definition str2ulong :: "string option \<Rightarrow> int option \<Rightarrow> int \<times> int option" where
  "str2ulong str ulng =
     (case (str, ulng) of
        (Some s, Some _) \<Rightarrow>
          (case strtoul0 s of (v, rest, erange) \<Rightarrow>
             if rest \<noteq> [] then (-2, Some v) else if erange then (-3, Some v) else (0, Some v))
      | _ \<Rightarrow> (-1, ulng))"

text \<open>
  The narrowing conversions share their shape: they clear the result when the wide
  conversion fails, and leave it alone when the value is out of range. The bounds are the
  \<open>stdint.h\<close> limits of the target type.
\<close>

definition narrow :: "(string option \<Rightarrow> int option \<Rightarrow> int \<times> int option) \<Rightarrow> int \<Rightarrow> int
    \<Rightarrow> string option \<Rightarrow> int option \<Rightarrow> int \<times> int option" where
  "narrow wide lo hi str ptr =
     (case (str, ptr) of
        (Some s, Some _) \<Rightarrow>
          (case wide (Some s) (Some 0) of (rc, v) \<Rightarrow>
             if rc \<noteq> 0 then (rc, Some 0)
             else if the v < lo \<or> the v > hi then (-3, ptr)
             else (0, v))
      | _ \<Rightarrow> (-1, ptr))"

definition str2int :: "string option \<Rightarrow> int option \<Rightarrow> int \<times> int option" where
  "str2int = narrow str2long (- (2 ^ 31)) (2 ^ 31 - 1)"

definition str2uint :: "string option \<Rightarrow> int option \<Rightarrow> int \<times> int option" where
  "str2uint = narrow str2ulong 0 (2 ^ 32 - 1)"

definition str2short :: "string option \<Rightarrow> int option \<Rightarrow> int \<times> int option" where
  "str2short = narrow str2long (- (2 ^ 15)) (2 ^ 15 - 1)"

definition str2ushort :: "string option \<Rightarrow> int option \<Rightarrow> int \<times> int option" where
  "str2ushort = narrow str2ulong 0 (2 ^ 16 - 1)"

definition str2char :: "string option \<Rightarrow> int option \<Rightarrow> int \<times> int option" where
  "str2char = narrow str2long (- (2 ^ 7)) (2 ^ 7 - 1)"

definition str2uchar :: "string option \<Rightarrow> int option \<Rightarrow> int \<times> int option" where
  "str2uchar = narrow str2ulong 0 (2 ^ 8 - 1)"

section \<open>Checked arguments\<close>

definition IPMI_UID_MIN :: int where "IPMI_UID_MIN = 1"
definition IPMI_UID_MAX :: int where "IPMI_UID_MAX = 63"

definition is_fru_id :: "string option \<Rightarrow> int option \<Rightarrow> int \<times> int option" where
  "is_fru_id str ptr =
     (if str = None \<or> ptr = None then (-1, ptr)
      else case str2uchar str ptr of (rc, v) \<Rightarrow> (if rc = 0 then 0 else -1, v))"

definition is_ipmi_channel_num :: "string option \<Rightarrow> int option \<Rightarrow> int \<times> int option" where
  "is_ipmi_channel_num str ptr =
     (if str = None \<or> ptr = None then (-1, ptr)
      else case str2uchar str ptr of (rc, v) \<Rightarrow>
        (if rc = 0 \<and> (the v \<le> 0xB \<or> (the v \<ge> 0xE \<and> the v \<le> 0xF)) then 0 else -1, v))"

definition is_ipmi_user_id :: "string option \<Rightarrow> int option \<Rightarrow> int \<times> int option" where
  "is_ipmi_user_id str ptr =
     (if str = None \<or> ptr = None then (-1, ptr)
      else case str2uchar str ptr of (rc, v) \<Rightarrow>
        (if rc = 0 \<and> the v \<ge> IPMI_UID_MIN \<and> the v \<le> IPMI_UID_MAX then 0 else -1, v))"

definition is_ipmi_user_priv_limit :: "string option \<Rightarrow> int option \<Rightarrow> int \<times> int option" where
  "is_ipmi_user_priv_limit str ptr =
     (if str = None \<or> ptr = None then (-1, ptr)
      else case str2uchar str ptr of (rc, v) \<Rightarrow>
        (if rc \<noteq> 0 \<or> ((the v < 1 \<or> the v > 5) \<and> the v \<noteq> 0xF) then -1 else 0, v))"

text \<open>
  \<open>args2buf\<close> converts at most \<open>len\<close> of the arguments into the buffer, and stops at the first
  one that is not a byte; the bytes before it are already stored.
\<close>

fun args2buf_loop :: "string list \<Rightarrow> bytes \<Rightarrow> nat \<Rightarrow> nat \<Rightarrow> bool \<times> bytes" where
  "args2buf_loop [] out i len = (True, out)"
| "args2buf_loop (a # as) out i len =
     (if i < len then
        (case str2uchar (Some a) (Some 0) of (rc, v) \<Rightarrow>
           if rc \<noteq> 0 then (False, out)
           else args2buf_loop as (out[i := of_int (the v)]) (Suc i) len)
      else (True, out))"

definition args2buf :: "nat \<Rightarrow> string list \<Rightarrow> bytes \<Rightarrow> nat \<Rightarrow> bool \<times> bytes" where
  "args2buf argc argv out len = args2buf_loop (take argc argv) out 0 len"

section \<open>Facts\<close>

lemmas conv_defs = str2int_def str2uint_def str2short_def str2ushort_def str2char_def str2uchar_def

lemma narrow_ok_iff:
  assumes "snd (wide (Some s) (Some 0)) \<noteq> None"
  shows "narrow wide lo hi (Some s) (Some p) = (0, Some v) \<longleftrightarrow>
   wide (Some s) (Some 0) = (0, Some v) \<and> lo \<le> v \<and> v \<le> hi"
proof -
  obtain rc w where w: "wide (Some s) (Some 0) = (rc, Some w)"
    using assms by (cases "wide (Some s) (Some 0)") auto
  show ?thesis
    by (auto simp: narrow_def w)
qed

lemma str2ulong_result: "snd (str2ulong (Some s) (Some 0)) \<noteq> None"
  by (simp add: str2ulong_def split: prod.split)

lemma str2long_result: "snd (str2long (Some s) (Some 0)) \<noteq> None"
  by (simp add: str2long_def split: prod.split)

lemma str2uchar_ok_iff:
  "str2uchar (Some s) (Some p) = (0, Some v) \<longleftrightarrow>
   strtoul0 s = (v, [], False) \<and> 0 \<le> v \<and> v \<le> 255"
  unfolding str2uchar_def narrow_ok_iff [where wide = str2ulong and s = s, OF str2ulong_result]
  by (auto simp: str2ulong_def split: prod.splits if_splits)

lemma str2uchar_range:
  "str2uchar (Some s) (Some p) = (0, v) \<Longrightarrow> \<exists>n. v = Some n \<and> 0 \<le> n \<and> n \<le> 255"
  by (auto simp: str2uchar_def narrow_def str2ulong_def split: prod.splits if_splits)

text \<open>Decimal text of a number, to state what the conversions accept.\<close>

fun decimal :: "nat \<Rightarrow> string" where
  "decimal n = (if n < 10 then [char_of (n + 48)] else decimal (n div 10) @ [char_of (n mod 10 + 48)])"

declare decimal.simps [simp del]

lemma digit_val_char: "d < 10 \<Longrightarrow> digit_val (char_of (d + 48)) = Some d"
  by (simp add: digit_val_def of_char_of)

lemma scan_digits_append:
  "\<forall>c \<in> set xs. is_digit_in base c \<Longrightarrow>
   scan_digits base acc (xs @ ys) = scan_digits base (fst (scan_digits base acc xs)) ys"
  by (induction xs arbitrary: acc) auto

lemma decimal_digits: "c \<in> set (decimal n) \<Longrightarrow> is_digit_in 10 c"
proof (induction n rule: decimal.induct)
  case (1 n)
  show ?case
  proof (cases "n < 10")
    case True
    then show ?thesis
      using 1 by (subst (asm) decimal.simps) (auto simp: is_digit_in_def digit_val_char)
  next
    case False
    then have "c \<in> set (decimal (n div 10)) \<or> c = char_of (n mod 10 + 48)"
      using 1 by (subst (asm) decimal.simps) auto
    then show ?thesis
      using 1 False by (auto simp: is_digit_in_def digit_val_char)
  qed
qed

lemma scan_decimal: "scan_digits 10 0 (decimal n) = (n, [])"
proof (induction n rule: decimal.induct)
  case (1 n)
  show ?case
  proof (cases "n < 10")
    case True
    then show ?thesis
      by (subst decimal.simps) (simp add: is_digit_in_def digit_val_char)
  next
    case False
    then have "scan_digits 10 0 (decimal n) =
        scan_digits 10 (n div 10) [char_of (n mod 10 + 48)]"
      using 1 decimal_digits
      by (subst decimal.simps) (simp add: scan_digits_append)
    also have "\<dots> = (n, [])"
      by (simp add: is_digit_in_def digit_val_char)
    finally show ?thesis .
  qed
qed

lemma decimal_head:
  assumes "0 < n"
  shows "\<exists>c cs. decimal n = c # cs \<and> is_digit_in 10 c \<and> c \<noteq> CHR ''0''"
  using assms
proof (induction n rule: decimal.induct)
  case (1 n)
  show ?case
  proof (cases "n < 10")
    case True
    have "digit_val (CHR ''0'') = Some 0"
      by (simp add: digit_val_def)
    then have "char_of (n + 48) \<noteq> (CHR ''0'' :: char)"
      using digit_val_char [OF True] 1 by (metis less_numeral_extra(3) option.inject)
    then show ?thesis
      using True by (subst decimal.simps) (simp add: is_digit_in_def digit_val_char)
  next
    case False
    then have "0 < n div 10"
      by simp
    with False obtain c cs where "decimal (n div 10) = c # cs" "is_digit_in 10 c" "c \<noteq> CHR ''0''"
      using "1.IH" by blast
    then show ?thesis
      using False by (subst decimal.simps) simp
  qed
qed

lemma digit_not_special:
  assumes "is_digit_in 10 c"
  shows "\<not> isspace c" "c \<noteq> CHR ''-''" "c \<noteq> CHR ''+''"
  using assms by (auto simp: is_digit_in_def digit_val_def isspace_def)

lemma strto_scan_decimal:
  assumes "0 < n"
  shows "strto_scan (decimal n) = Some (False, n, [])"
proof -
  obtain c cs where d: "decimal n = c # cs" "is_digit_in 10 c" "c \<noteq> CHR ''0''"
    using decimal_head [OF assms] by blast
  have "split_base (c # cs) = (10, c # cs)"
    using d(3) by (cases "(c # cs)" rule: split_base.cases) auto
  then show ?thesis
    using d scan_decimal [of n] digit_not_special [OF d(2)]
    by (simp add: strto_scan_def)
qed

lemma strtoul0_decimal:
  assumes "n < 2 ^ 64"
  shows "strtoul0 (decimal n) = (int n, [], False)"
proof (cases "n = 0")
  case True
  have "decimal 0 = ''0''"
    by code_simp
  then show ?thesis
    using True
    by (simp add: strtoul0_def strto_scan_def isspace_def is_digit_in_def digit_val_def)
next
  case False
  then show ?thesis
    using assms strto_scan_decimal [of n]
    by (simp add: strtoul0_def)
qed

end
