(* ===== verification/HelperProps.thy ===== *)
theory HelperProps
  imports HelperNum
begin

text \<open>
  The correctness properties of the helper routines: what the checksum detects, the round trip
  between the hexadecimal dump and its parser, the byte order conversions, and which command
  line arguments are accepted.
\<close>

text \<open>A message closed by its checksum verifies, and stops verifying when any single byte of it,
  the checksum included, is replaced by another value.\<close>

theorem ipmi_csum_detects:
  assumes "i \<le> length d" "x \<noteq> (d @ [ipmi_csum d (length d)]) ! i"
  shows "ipmi_csum (d @ [ipmi_csum d (length d)]) (Suc (length d)) = 0
    \<and> ipmi_csum ((d @ [ipmi_csum d (length d)])[i := x]) (Suc (length d)) \<noteq> 0"
proof -
  have "ipmi_csum (d @ [ipmi_csum d (length d)]) (Suc (length d)) = 0"
    by (simp only: ipmi_csum_closes_iff)
  moreover have "(d @ [ipmi_csum d (length d)]) ! i - x \<noteq> 0"
    using assms(2) by simp
  ultimately show ?thesis
    using ipmi_csum_update [of i "Suc (length d)" "d @ [ipmi_csum d (length d)]" x] assms(1)
    by (simp del: right_minus_eq)
qed

theorem ipmi_csum_detects_witness:
  "ipmi_csum [0x20, 0x18, 0xC8] 3 = 0 \<and> ipmi_csum [0x20, 0x19, 0xC8] 3 \<noteq> 0"
proof -
  have c: "ipmi_csum [0x20, 0x18] (Suc (Suc 0)) = 0xC8"
    by (simp add: ipmi_csum_eq)
  show ?thesis
    using ipmi_csum_detects [where d = "[0x20, 0x18]" and i = 1 and x = "0x19"]
    by (simp add: c numeral_2_eq_2 numeral_3_eq_3)
qed

text \<open>The hexadecimal dump that \<open>buf2str\<close> leaves in its static buffer, read as a C string and
  given back to \<open>ipmi_parse_hex\<close>, yields the dumped bytes and their number.\<close>

theorem buf2str_parse_hex:
  assumes "bs \<noteq> []" "2 * length bs < BUF2STR_MAXIMUM_OUTPUT_SIZE"
    and "length str = BUF2STR_MAXIMUM_OUTPUT_SIZE" "length bs \<le> sz" "length bs \<le> length out"
  shows "\<exists>str'. buf2str str (Some bs) = Inr str' \<and>
    ipmi_parse_hex (c_string str') (Some out) sz = (int (length bs), Some (put_at out 0 bs))"
  using buf2str_plain [OF assms(2,3)] ipmi_parse_hex_dump [OF assms(1,4,5)] by auto

theorem buf2str_parse_hex_witness:
  "\<exists>str'. buf2str (replicate BUF2STR_MAXIMUM_OUTPUT_SIZE (CHR ''?'')) (Some [0x0A, 0xFF]) = Inr str' \<and>
    ipmi_parse_hex (c_string str') (Some [0, 0, 0]) 3 = (2, Some [0x0A, 0xFF, 0])"
  using buf2str_parse_hex [of "[0x0A, 0xFF]" "replicate BUF2STR_MAXIMUM_OUTPUT_SIZE (CHR ''?'')" 3 "[0, 0, 0]"]
  by (simp add: BUF2STR_MAXIMUM_OUTPUT_SIZE_def put_at_def)

text \<open>on a little-endian host \<open>array_ntoh\<close> reverses the array and \<open>array_letoh\<close> leaves it alone,
  on a big-endian host the other way round, and applying either twice restores the array.\<close>

theorem array_byte_order:
  "array_ntoh big buf (length buf) = (if big then buf else rev buf) \<and>
   array_letoh big buf (length buf) = (if big then rev buf else buf) \<and>
   array_byteswap (array_byteswap buf (length buf)) (length buf) = buf"
  using array_byteswap_rev [of "rev buf"]
  by (simp_all add: array_ntoh_def array_letoh_def array_byteswap_rev)

lemma ipmi24_low: "ipmi24toh (htoipmi24 h) = take_bit 24 h"
proof (rule bit_word_eqI)
  fix n assume n: "n < LENGTH(32)"
  then consider "n < 8" | "8 \<le> n" "n < 16" | "16 \<le> n" "n < 24" | "24 \<le> n" "n < 32"
    by fastforce
  then show "bit (ipmi24toh (htoipmi24 h)) n = bit (take_bit 24 h) n"
    by cases (auto simp: ipmi24toh_def htoipmi24_def bit_simps)
qed

text \<open>the little-endian conversions of 16, 24 and 32 bit integers are inverses: what
  \<open>htoipmi\<close> writes \<open>ipmi\<dots>toh\<close> reads back, for 24 bits up to the upper byte.\<close>

theorem ipmi_le_roundtrip:
  "ipmi16toh (htoipmi16 h2) = h2 \<and> ipmi32toh (htoipmi32 h4) = h4 \<and>
   ipmi24toh (htoipmi24 h3) = take_bit 24 h3"
  by (simp add: ipmi16toh_def htoipmi16_def ipmi32toh_def htoipmi32_def ipmi24_low)

lemma str2ulong_decimal: "n < 2 ^ 64 \<Longrightarrow> str2ulong (Some (decimal n)) (Some p) = (0, Some (int n))"
  by (simp add: str2ulong_def strtoul0_decimal)

lemma uchar_decimal:
  "n < 2 ^ 64 \<Longrightarrow> str2uchar (Some (decimal n)) (Some p) =
    (if n \<le> 255 then (0, Some (int n)) else (-3, Some p))"
  by (simp add: str2uchar_def narrow_def str2ulong_decimal)

text \<open>on the decimal text of a number \<open>str2uchar\<close> stores exactly the numbers up to 255 and
  reports a range error otherwise, leaving the target untouched.\<close>

theorem str2uchar_decimal:
  assumes "n < 2 ^ 64"
  shows "str2uchar (Some (decimal n)) (Some p) = (if n \<le> 255 then (0, Some (int n)) else (-3, Some p))"
  using assms by (rule uchar_decimal)

theorem str2uchar_decimal_witness: "str2uchar (Some (decimal 256)) (Some 7) = (-3, Some 7)"
  using str2uchar_decimal [of 256 7] by simp

text \<open>the checked arguments: the decimal text of a channel number is accepted exactly for 0 to 11,
  14 and 15, of a user ID for 1 to 63, of a privilege limit for 1 to 5 and 15.\<close>

theorem checked_arguments:
  assumes "n < 2 ^ 64"
  shows "(fst (is_ipmi_channel_num (Some (decimal n)) (Some p)) = 0 \<longleftrightarrow> n \<le> 11 \<or> n = 14 \<or> n = 15)
    \<and> (fst (is_ipmi_user_id (Some (decimal n)) (Some p)) = 0 \<longleftrightarrow> 1 \<le> n \<and> n \<le> 63)
    \<and> (fst (is_ipmi_user_priv_limit (Some (decimal n)) (Some p)) = 0 \<longleftrightarrow> 1 \<le> n \<and> n \<le> 5 \<or> n = 15)"
  using assms
  by (auto simp: is_ipmi_channel_num_def is_ipmi_user_id_def is_ipmi_user_priv_limit_def uchar_decimal
      IPMI_UID_MIN_def IPMI_UID_MAX_def)

theorem checked_arguments_witness:
  "fst (is_ipmi_channel_num (Some (decimal 12)) (Some 0)) \<noteq> 0
   \<and> fst (is_ipmi_user_id (Some (decimal 63)) (Some 0)) = 0
   \<and> fst (is_ipmi_user_priv_limit (Some (decimal 15)) (Some 0)) = 0"
  using checked_arguments [of 12 0] checked_arguments [of 63 0] checked_arguments [of 15 0] by simp

lemma args_loop_decimals:
  assumes "\<forall>n \<in> set ns. n < 256" "i + length ns \<le> len" "len \<le> length out"
  shows "args2buf_loop (List.map decimal ns @ rest) out i len =
    args2buf_loop rest (put_at out i (List.map word_of_nat ns)) (i + length ns) len"
  using assms
proof (induction ns arbitrary: i out)
  case (Cons n ns)
  have "put_at (out[i := word_of_nat n]) (Suc i) (List.map word_of_nat ns) =
      put_at out i (word_of_nat n # List.map word_of_nat ns)"
    using Cons.prems put_at_put_at [of i out "[word_of_nat n]" "List.map word_of_nat ns"]
    by (simp add: list_update_eq_put_at)
  then show ?case
    using Cons.prems Cons.IH [of "Suc i" "out[i := word_of_nat n]"] by (simp add: uchar_decimal)
qed simp

text \<open>raw bytes given as decimal arguments are stored in order at the front of the buffer; when an
  argument is no byte the conversion fails with the bytes before it stored.\<close>

theorem args2buf_decimals:
  assumes "\<forall>n \<in> set ns. n < 256" "length ns < len" "len \<le> length out" "255 < m" "m < 2 ^ 64"
  shows "args2buf (length ns) (List.map decimal ns) out len =
      (True, put_at out 0 (List.map word_of_nat ns))
    \<and> args2buf (Suc (length ns) + length rest) (List.map decimal (ns @ [m]) @ rest) out len =
      (False, put_at out 0 (List.map word_of_nat ns))"
  using args_loop_decimals [of ns 0 len out "[]"] args_loop_decimals [of ns 0 len out "decimal m # rest"] assms
  by (simp add: args2buf_def uchar_decimal)

theorem args2buf_decimals_witness:
  "args2buf 2 [decimal 6, decimal 255] [0, 0, 0] 3 = (True, [6, 255, 0])
   \<and> args2buf 3 [decimal 6, decimal 255, decimal 300] [0, 0, 0] 3 = (False, [6, 255, 0])"
proof -
  have lens: "length [6, 255 :: nat] = 2" "Suc (length [6, 255 :: nat]) + length ([] :: string list) = 3"
    by simp_all
  have "(300 :: nat) < 2 ^ 64"
    by simp
  from args2buf_decimals [of "[6, 255]" 3 "[0, 0, 0]", OF _ _ _ _ this, of "[]"]
  show ?thesis
    unfolding lens by (simp add: put_at_def)
qed

end
