(* ===== verification/Ipmi.thy ===== *)
theory Ipmi
  imports Helper
begin

text \<open>
  The data every transport shares: requests and responses of \<open>include/ipmitool/ipmi.h\<close>, the
  interface handle of \<open>include/ipmitool/ipmi_intf.h\<close>, and the bridging level and message size
  limits of \<open>src/plugins/ipmi_intf.c\<close>. A request's \<open>data_len\<close> is the length of its data.
\<close>

record ipmi_rq =
  rq_netfn :: "6 word"
  rq_lun :: "2 word"
  rq_cmd :: byte
  rq_target_cmd :: byte
  rq_data :: bytes

text \<open>
  \<open>struct ipmi_session_params\<close>; \<open>username\<close> is the C string in its 17-byte array.
\<close>

record ipmi_session_params =
  hostname :: "string option"
  username :: bytes
  authcode_set :: bytes
  authtype_set :: byte
  privlvl :: byte
  cipher_suite_id :: byte
  sol_escape_char :: byte
  has_password :: bool
  port :: int
  retry :: int
  timeout :: u32
  kg :: bytes
  lookupbit :: byte

text \<open>\<open>struct ipmi_intf\<close>; \<open>oem\<close> is the name of the selected OEM handle, if any.\<close>

record ipmi_intf =
  fd :: int
  opened :: bool
  intf_abort :: bool
  noanswer :: bool
  manufacturer_id :: u32
  ssn_params :: ipmi_session_params
  oem :: "string option"
  my_addr :: u32
  target_addr :: u32
  target_channel :: byte
  transit_addr :: u32
  transit_channel :: byte
  max_request_data_size :: u16
  max_response_data_size :: u16
  target_ipmb_addr :: byte

text \<open>
  The setters of the session parameters. C strings are byte lists without the final 0;
  \<open>username\<close> keeps at most 16 characters, so its 17-byte array stays terminated, and the
  password fills the first 20 bytes of \<open>authcode_set\<close> and leaves the last byte alone.
\<close>

definition IPMI_AUTHCODE_BUFFER_SIZE :: nat where "IPMI_AUTHCODE_BUFFER_SIZE = 20"

definition on_params :: "(ipmi_session_params \<Rightarrow> ipmi_session_params) \<Rightarrow> ipmi_intf \<Rightarrow> ipmi_intf" where
  "on_params f i = i\<lparr>ssn_params := f (ssn_params i)\<rparr>"

definition ipmi_intf_session_set_hostname :: "ipmi_intf \<Rightarrow> string option \<Rightarrow> ipmi_intf" where
  "ipmi_intf_session_set_hostname i h = on_params (\<lambda>p. p\<lparr>hostname := h\<rparr>) i"

definition ipmi_intf_session_set_username :: "ipmi_intf \<Rightarrow> bytes option \<Rightarrow> ipmi_intf" where
  "ipmi_intf_session_set_username i u =
     on_params (\<lambda>p. p\<lparr>username := (case u of None \<Rightarrow> [] | Some n \<Rightarrow> take 16 n)\<rparr>) i"

definition ipmi_intf_session_set_password :: "ipmi_intf \<Rightarrow> bytes option \<Rightarrow> ipmi_intf" where
  "ipmi_intf_session_set_password i pw =
     on_params (\<lambda>p. let cleared = put_at (authcode_set p) 0 (replicate IPMI_AUTHCODE_BUFFER_SIZE 0) in
       case pw of None \<Rightarrow> p\<lparr>authcode_set := cleared, has_password := False\<rparr>
       | Some w \<Rightarrow> p\<lparr>authcode_set := put_at cleared 0 (take IPMI_AUTHCODE_BUFFER_SIZE w),
                    has_password := True\<rparr>) i"

definition ipmi_intf_session_set_privlvl :: "ipmi_intf \<Rightarrow> byte \<Rightarrow> ipmi_intf" where
  "ipmi_intf_session_set_privlvl i l = on_params (\<lambda>p. p\<lparr>privlvl := l\<rparr>) i"

definition ipmi_intf_session_set_lookupbit :: "ipmi_intf \<Rightarrow> byte \<Rightarrow> ipmi_intf" where
  "ipmi_intf_session_set_lookupbit i l = on_params (\<lambda>p. p\<lparr>lookupbit := l\<rparr>) i"

definition ipmi_intf_session_set_cipher_suite_id :: "ipmi_intf \<Rightarrow> byte \<Rightarrow> ipmi_intf" where
  "ipmi_intf_session_set_cipher_suite_id i c = on_params (\<lambda>p. p\<lparr>cipher_suite_id := c\<rparr>) i"

definition ipmi_intf_session_set_sol_escape_char :: "ipmi_intf \<Rightarrow> byte \<Rightarrow> ipmi_intf" where
  "ipmi_intf_session_set_sol_escape_char i c = on_params (\<lambda>p. p\<lparr>sol_escape_char := c\<rparr>) i"

definition ipmi_intf_session_set_kgkey :: "ipmi_intf \<Rightarrow> bytes \<Rightarrow> ipmi_intf" where
  "ipmi_intf_session_set_kgkey i k = on_params (\<lambda>p. p\<lparr>kg := put_at (kg p) 0 (take 21 k)\<rparr>) i"

definition ipmi_intf_session_set_port :: "ipmi_intf \<Rightarrow> int \<Rightarrow> ipmi_intf" where
  "ipmi_intf_session_set_port i n = on_params (\<lambda>p. p\<lparr>port := n\<rparr>) i"

definition ipmi_intf_session_set_authtype :: "ipmi_intf \<Rightarrow> byte \<Rightarrow> ipmi_intf" where
  "ipmi_intf_session_set_authtype i t =
     on_params (\<lambda>p. p\<lparr>authtype_set := t\<rparr>)
       (if t = 0 then ipmi_intf_session_set_password i None else i)"

definition ipmi_intf_session_set_timeout :: "ipmi_intf \<Rightarrow> u32 \<Rightarrow> ipmi_intf" where
  "ipmi_intf_session_set_timeout i n = on_params (\<lambda>p. p\<lparr>timeout := n\<rparr>) i"

definition ipmi_intf_session_set_retry :: "ipmi_intf \<Rightarrow> int \<Rightarrow> ipmi_intf" where
  "ipmi_intf_session_set_retry i n = on_params (\<lambda>p. p\<lparr>retry := n\<rparr>) i"

definition IPMI_NETFN_APP :: "6 word" where "IPMI_NETFN_APP = 6"
definition IPMI_NETFN_STORAGE :: "6 word" where "IPMI_NETFN_STORAGE = 0xa"
definition IPMI_NETFN_TRANSPORT :: "6 word" where "IPMI_NETFN_TRANSPORT = 0xc"
definition IPMI_NETFN_PICMG :: "6 word" where "IPMI_NETFN_PICMG = 0x2C"
definition IPMI_GET_CHANNEL_AUTH_CAP :: byte where "IPMI_GET_CHANNEL_AUTH_CAP = 0x38"

definition IPMI_BMC_SLAVE_ADDR :: byte where "IPMI_BMC_SLAVE_ADDR = 0x20"
definition IPMI_REMOTE_SWID :: byte where "IPMI_REMOTE_SWID = 0x81"
definition IPMI_DEFAULT_PAYLOAD_SIZE :: int where "IPMI_DEFAULT_PAYLOAD_SIZE = 25"

lemmas addr_defs = IPMI_BMC_SLAVE_ADDR_def IPMI_REMOTE_SWID_def

text \<open>\<open>ipmi_oem_active\<close> of \<open>lib/ipmi_oem.c\<close> compares the whole name.\<close>

definition ipmi_oem_active :: "ipmi_intf \<Rightarrow> string \<Rightarrow> bool" where
  "ipmi_oem_active i oemtype =
     (case oem i of None \<Rightarrow> False | Some name \<Rightarrow> name = oemtype)"

definition ipmi_intf_get_bridging_level :: "ipmi_intf \<Rightarrow> nat" where
  "ipmi_intf_get_bridging_level i =
     (if target_addr i \<noteq> 0 \<and> target_addr i \<noteq> my_addr i then
        (if transit_addr i \<noteq> 0 \<and>
            (transit_addr i \<noteq> target_addr i \<or> transit_channel i \<noteq> target_channel i)
         then 2 else 1)
      else 0)"

text \<open>The sizes are computed in an \<open>int16_t\<close>; a negative result becomes 0.\<close>

definition int16 :: "int \<Rightarrow> int" where
  "int16 x = sint (word_of_int x :: u16)"

definition ipmi_intf_get_max_request_data_size :: "ipmi_intf \<Rightarrow> u16" where
  "ipmi_intf_get_max_request_data_size i =
     (let bl = ipmi_intf_get_bridging_level i;
          size0 = int16 (uint (max_request_data_size i));
          size1 = (if size0 = 0 then IPMI_DEFAULT_PAYLOAD_SIZE + (if bl \<noteq> 0 then 8 else 0) else size0);
          size2 = (if bl \<noteq> 0 then
                     (let s = min (int16 (size1 - 8)) IPMI_DEFAULT_PAYLOAD_SIZE in
                      if bl = 2 then int16 (s - 8) else s)
                   else size1)
      in if size2 < 0 then 0 else word_of_int size2)"

definition ipmi_intf_get_max_response_data_size :: "ipmi_intf \<Rightarrow> u16" where
  "ipmi_intf_get_max_response_data_size i =
     (let bl = ipmi_intf_get_bridging_level i;
          size0 = int16 (uint (max_response_data_size i));
          size1 = (if size0 = 0 then IPMI_DEFAULT_PAYLOAD_SIZE + (if bl \<noteq> 0 then 7 else 0) else size0);
          size2 = (if bl \<noteq> 0 then
                     (let s = min (int16 (size1 - 8)) IPMI_DEFAULT_PAYLOAD_SIZE in
                      if bl = 2 then int16 (s - 8) else s)
                   else size1)
      in if size2 < 0 then 0 else word_of_int size2)"

text \<open>
  The setters refuse sizes below the default and otherwise go through the transport's own
  setter when it has one (\<open>setter\<close> is the function pointer).
\<close>

definition ipmi_intf_set_max_request_data_size ::
    "(ipmi_intf \<Rightarrow> u16 \<Rightarrow> ipmi_intf) option \<Rightarrow> ipmi_intf \<Rightarrow> u16 \<Rightarrow> ipmi_intf" where
  "ipmi_intf_set_max_request_data_size setter i sz =
     (if uint sz < IPMI_DEFAULT_PAYLOAD_SIZE then i
      else case setter of
        Some f \<Rightarrow> f i sz
      | None \<Rightarrow> i\<lparr>max_request_data_size := sz\<rparr>)"

definition ipmi_intf_set_max_response_data_size ::
    "(ipmi_intf \<Rightarrow> u16 \<Rightarrow> ipmi_intf) option \<Rightarrow> ipmi_intf \<Rightarrow> u16 \<Rightarrow> ipmi_intf" where
  "ipmi_intf_set_max_response_data_size setter i sz =
     (if uint sz < IPMI_DEFAULT_PAYLOAD_SIZE - 1 then i
      else case setter of
        Some f \<Rightarrow> f i sz
      | None \<Rightarrow> i\<lparr>max_response_data_size := sz\<rparr>)"

lemma bridging_level_le: "ipmi_intf_get_bridging_level i \<le> 2"
  by (simp add: ipmi_intf_get_bridging_level_def)

lemma bridging_level_cases:
  obtains "ipmi_intf_get_bridging_level i = 0" | "ipmi_intf_get_bridging_level i = 1"
    | "ipmi_intf_get_bridging_level i = 2"
  using bridging_level_le [of i] by linarith

lemma int16_small: "- 32768 \<le> x \<Longrightarrow> x < 32768 \<Longrightarrow> int16 x = x"
  by (simp add: int16_def int_word_sint)

lemma uint_u16_small: "0 \<le> x \<Longrightarrow> x < 65536 \<Longrightarrow> uint (word_of_int x :: u16) = x"
  by (simp add: uint_word_of_int)

text \<open>A bridged request never gets more room than the default payload.\<close>

lemma max_request_data_size_bridged:
  assumes bl: "ipmi_intf_get_bridging_level i \<noteq> 0"
    and m: "uint (max_request_data_size i) < 32768"
  shows "uint (ipmi_intf_get_max_request_data_size i) =
    max 0 (min 25 ((if max_request_data_size i = 0 then 33 else uint (max_request_data_size i)) - 8)
           - (if ipmi_intf_get_bridging_level i = 2 then 8 else 0))"
proof -
  let ?bl = "ipmi_intf_get_bridging_level i"
  define s1 where "s1 = (if max_request_data_size i = 0 then 33 else uint (max_request_data_size i))"
  have s0: "int16 (uint (max_request_data_size i)) = uint (max_request_data_size i)"
    using m uint_ge_0 [of "max_request_data_size i"] by (intro int16_small) linarith+
  have s1: "0 < s1" "s1 < 32768"
    using m uint_ge_0 [of "max_request_data_size i"] 
    by (auto simp: s1_def less_le uint_0_iff)
  define s where "s = min (s1 - 8) 25"
  have s: "- 8 < s" "s \<le> 25"
    using s1 by (auto simp: s_def)
  have sz1: "(if int16 (uint (max_request_data_size i)) = 0
      then IPMI_DEFAULT_PAYLOAD_SIZE + (if ?bl \<noteq> 0 then 8 else 0)
      else int16 (uint (max_request_data_size i))) = s1"
    using bl by (simp add: s0 s1_def IPMI_DEFAULT_PAYLOAD_SIZE_def uint_0_iff)
  have sz2: "min (int16 (s1 - 8)) IPMI_DEFAULT_PAYLOAD_SIZE = s"
    using s1 by (simp add: int16_small s_def IPMI_DEFAULT_PAYLOAD_SIZE_def)
  have "ipmi_intf_get_max_request_data_size i =
      (let z = if ?bl = 2 then int16 (s - 8) else s in if z < 0 then 0 else word_of_int z)"
    unfolding ipmi_intf_get_max_request_data_size_def Let_def sz1 sz2 using bl by simp
  also have "\<dots> = word_of_int (max 0 (s - (if ?bl = 2 then 8 else 0)))"
    using s by (simp add: Let_def int16_small max_def)
  finally show ?thesis
    using s by (simp add: uint_u16_small s_def s1_def min.commute)
qed

text \<open>A local interface with nothing bridged and three attempts, for concrete evaluations.\<close>

definition sample_params :: ipmi_session_params where
  "sample_params = \<lparr>hostname = None, username = [], authcode_set = replicate 21 0, authtype_set = 0,
     privlvl = 4, cipher_suite_id = 3, sol_escape_char = 0x7E, has_password = False, port = 623, retry = 3, timeout = 1, kg = replicate 21 0, lookupbit = 0\<rparr>"

definition sample_intf :: ipmi_intf where
  "sample_intf = \<lparr>fd = 3, opened = True, intf_abort = False, noanswer = False, manufacturer_id = 0,
     ssn_params = sample_params, oem = None, my_addr = 0x20, target_addr = 0x20, target_channel = 0,
     transit_addr = 0, transit_channel = 0, max_request_data_size = 0, max_response_data_size = 0,
     target_ipmb_addr = 0\<rparr>"

definition sample_rq :: ipmi_rq where
  "sample_rq = \<lparr>rq_netfn = 6, rq_lun = 0, rq_cmd = 1, rq_target_cmd = 0, rq_data = []\<rparr>"

lemma sample_intf_simps [simp]:
  "opened sample_intf" "retry (ssn_params sample_intf) = 3"
  "ipmi_intf_get_bridging_level sample_intf = 0"
  by (simp_all add: sample_intf_def sample_params_def ipmi_intf_get_bridging_level_def)

end
