(* ===== verification/SerialBasic.thy ===== *)
theory SerialBasic
  imports Ipmi
begin

text \<open>
  \<open>src/plugins/serial/serial_basic.c\<close>: the Basic Mode serial transport. Messages are framed by
  start and stop characters with an escape for the special bytes; requests carry IPMB headers
  and, when bridged, one or two encapsulated Send Message requests.

  The device is the sequence of answers the kernel gives to the successive \<open>poll\<close>/\<open>read\<close>
  pairs (\<open>events\<close>, exhausted means every later \<open>poll\<close> times out), so flushing the port is only
  recorded; what is written is recorded in \<open>out\<close>, and \<open>clocks\<close> are the answers of \<open>clock()\<close> in
  seconds. \<open>junk\<close> is what the stack holds where a local array is declared. The static variables
  \<open>seq\<close> and \<open>is_system\<close> are fields of the state.
\<close>

section \<open>Constants, tables and contexts\<close>

definition BM_START :: byte where "BM_START = 0xA0"
definition BM_STOP :: byte where "BM_STOP = 0xA5"
definition BM_HANDSHAKE :: byte where "BM_HANDSHAKE = 0xA6"
definition BM_ESCAPE :: byte where "BM_ESCAPE = 0xAA"

definition SERIAL_BM_MAX_MSG_SIZE :: nat where "SERIAL_BM_MAX_MSG_SIZE = 47"
definition SERIAL_BM_MAX_RQ_SIZE :: u16 where "SERIAL_BM_MAX_RQ_SIZE = 33"
definition SERIAL_BM_MAX_RS_SIZE :: u16 where "SERIAL_BM_MAX_RS_SIZE = 32"
definition SERIAL_BM_MAX_BUFFER_SIZE :: nat where "SERIAL_BM_MAX_BUFFER_SIZE = 250"

definition bm_characters :: "(byte \<times> byte) list" where
  "bm_characters = [(BM_START, 0xB0), (BM_STOP, 0xB5), (BM_HANDSHAKE, 0xB6), (BM_ESCAPE, 0xBA),
     (0x1B, 0x3B)]"

lemmas bm_consts = BM_START_def BM_STOP_def BM_HANDSHAKE_def BM_ESCAPE_def

datatype msg_state = MSG_NONE | MSG_IN_PROGRESS | MSG_DONE

text \<open>\<open>struct serial_bm_parse_ctx\<close>; \<open>pc_msg\<close> is the array \<open>ctx->msg\<close> points to.\<close>

record parse_ctx =
  pc_state :: msg_state
  pc_msg :: bytes
  pc_msg_len :: nat
  pc_max_len :: nat
  pc_escape :: bool

record recv_ctx =
  rc_buffer :: bytes
  rc_size :: nat
  rc_max :: nat

record request_ctx =
  cx_rsSA :: byte
  cx_netFn :: byte
  cx_rqSA :: byte
  cx_rqSeq :: byte
  cx_cmd :: byte

datatype ser_event = PollFail | PollTimeout | ReadFail | Rx bytes

datatype ser_action = Flush | Write bytes

record bm_state =
  bm_seq :: byte
  bm_is_system :: bool
  bm_events :: "ser_event list"
  bm_out :: "ser_action list"
  bm_clocks :: "int list"
  bm_junk :: bytes

definition serial_bm_setup :: "ipmi_intf \<Rightarrow> ipmi_intf" where
  "serial_bm_setup i = i\<lparr>max_request_data_size := SERIAL_BM_MAX_RQ_SIZE,
     max_response_data_size := SERIAL_BM_MAX_RS_SIZE\<rparr>"

section \<open>Sequence numbers\<close>

definition alloc_seq :: "byte \<Rightarrow> byte" where
  "alloc_seq s = (let s' = s + 1 in if s' = 64 then 0 else s')"

definition serial_bm_alloc_seq :: "bm_state \<Rightarrow> byte \<times> bm_state" where
  "serial_bm_alloc_seq st = (alloc_seq (bm_seq st), st\<lparr>bm_seq := alloc_seq (bm_seq st)\<rparr>)"

section \<open>Escaping and framing\<close>

definition serial_bm_get_escaped_char :: "byte \<Rightarrow> byte" where
  "serial_bm_get_escaped_char c =
     (case find (\<lambda>p. fst p = c) bm_characters of Some p \<Rightarrow> snd p | None \<Rightarrow> c)"

definition serial_bm_get_unescaped_char :: "byte \<Rightarrow> byte" where
  "serial_bm_get_unescaped_char c =
     (case find (\<lambda>p. snd p = c) bm_characters of Some p \<Rightarrow> fst p | None \<Rightarrow> c)"

definition bm_escaped :: "byte \<Rightarrow> bytes" where
  "bm_escaped c = (let t = serial_bm_get_escaped_char c in if t \<noteq> c then [0xAA, t] else [t])"

text \<open>The bytes written between start and stop character, and the size of the \<open>alloca\<close> buffer.\<close>

definition bm_frame :: "bytes \<Rightarrow> bytes" where
  "bm_frame msg = [0xA0] @ concat (List.map bm_escaped msg) @ [0xA5]"

definition bm_frame_size :: "bytes \<Rightarrow> nat" where
  "bm_frame_size msg =
     length msg + length (filter (\<lambda>c. serial_bm_get_escaped_char c \<noteq> c) msg) + 2"

text \<open>\<open>write_rc\<close> is the answer of \<open>write(2)\<close>; no caller looks at the result.\<close>

definition serial_bm_send_msg :: "int \<Rightarrow> bytes \<Rightarrow> bm_state \<Rightarrow> int \<times> bm_state" where
  "serial_bm_send_msg write_rc msg st =
     (if write_rc \<le> 0 then -1 else 0,
      st\<lparr>bm_out := bm_out st @ [Write (take (bm_frame_size msg) (bm_frame msg))]\<rparr>)"

definition serial_bm_flush :: "bm_state \<Rightarrow> bm_state" where
  "serial_bm_flush st = st\<lparr>bm_out := bm_out st @ [Flush]\<rparr>"

section \<open>The frame parser\<close>

definition pc_push :: "byte \<Rightarrow> parse_ctx \<Rightarrow> parse_ctx" where
  "pc_push b ctx = ctx\<lparr>pc_msg := (pc_msg ctx)[pc_msg_len ctx := b], pc_msg_len := Suc (pc_msg_len ctx)\<rparr>"

fun serial_bm_parse :: "bytes \<Rightarrow> nat \<Rightarrow> parse_ctx \<Rightarrow> int \<times> parse_ctx" where
  "serial_bm_parse [] i ctx = (int i, ctx)"
| "serial_bm_parse (d # ds) i ctx =
     (if d = BM_START then
        serial_bm_parse ds (Suc i) (ctx\<lparr>pc_state := MSG_IN_PROGRESS, pc_escape := False, pc_msg_len := 0\<rparr>)
      else if pc_state ctx \<noteq> MSG_IN_PROGRESS then serial_bm_parse ds (Suc i) ctx
      else if pc_escape ctx then
        (let tmp = serial_bm_get_unescaped_char d in
         if tmp = d then serial_bm_parse ds (Suc i) (ctx\<lparr>pc_state := MSG_NONE\<rparr>)
         else if pc_msg_len ctx \<ge> pc_max_len ctx then
           serial_bm_parse ds (Suc i) (ctx\<lparr>pc_state := MSG_NONE\<rparr>)
         else serial_bm_parse ds (Suc i) ((pc_push tmp ctx)\<lparr>pc_escape := False\<rparr>))
      else if d = BM_ESCAPE then serial_bm_parse ds (Suc i) (ctx\<lparr>pc_escape := True\<rparr>)
      else if d = BM_STOP then (int (i + 1), ctx\<lparr>pc_state := MSG_DONE\<rparr>)
      else if d = BM_HANDSHAKE then serial_bm_parse ds (Suc i) ctx
      else if pc_msg_len ctx \<ge> pc_max_len ctx then (-1, ctx)
      else serial_bm_parse ds (Suc i) (pc_push d ctx))"

definition serial_bm_parse_buffer :: "bytes \<Rightarrow> parse_ctx \<Rightarrow> int \<times> parse_ctx" where
  "serial_bm_parse_buffer data ctx = serial_bm_parse data 0 ctx"

section \<open>Receiving a message\<close>

text \<open>
  The body of the receive loop after a successful \<open>read\<close>. \<open>buffer_size\<close> and \<open>max_buffer_size\<close> are
  \<open>size_t\<close>: past the maximum the count given to \<open>read\<close> wraps to a huge number. The comparison
  of the parser's result with \<open>buffer_size\<close> is unsigned, so \<open>-1\<close> is larger than any size, and
  subtracting it adds one.
\<close>

definition bm_recv_step :: "bytes \<Rightarrow> recv_ctx \<Rightarrow> parse_ctx \<Rightarrow> (recv_ctx \<times> parse_ctx) outcome" where
  "bm_recv_step bs rcv pc =
     (if rc_size rcv > rc_max rcv then Inl OutOfBounds
      else
        let got = take (rc_max rcv - rc_size rcv) bs;
            buf = put_at (rc_buffer rcv) (rc_size rcv) got;
            sz = rc_size rcv + length got;
            (rv, pc') = serial_bm_parse_buffer (take sz buf) pc
        in if rv < 0 then Inr (rcv\<lparr>rc_buffer := buf, rc_size := sz + 1\<rparr>, pc')
           else Inr (rcv\<lparr>rc_buffer := (if rv < int sz then move_front buf (nat rv) (sz - nat rv) else buf),
                        rc_size := sz - nat rv\<rparr>, pc'))"

text \<open>
  The loop of \<open>serial_bm_recv_msg\<close>: the result is the return value, the events left, and both
  contexts.
\<close>

fun bm_recv_loop :: "ser_event list \<Rightarrow> recv_ctx \<Rightarrow> parse_ctx
    \<Rightarrow> (int \<times> ser_event list \<times> recv_ctx \<times> parse_ctx) outcome" where
  "bm_recv_loop [] rcv pc = Inr (0, [], rcv, pc)"
| "bm_recv_loop (PollFail # es) rcv pc = Inr (0, es, rcv, pc)"
| "bm_recv_loop (PollTimeout # es) rcv pc = Inr (0, es, rcv, pc)"
| "bm_recv_loop (ReadFail # es) rcv pc = Inr (-1, es, rcv, pc)"
| "bm_recv_loop (Rx bs # es) rcv pc =
     (case bm_recv_step bs rcv pc of
        Inl f \<Rightarrow> Inl f
      | Inr (rcv', pc') \<Rightarrow>
          if pc_state pc' = MSG_DONE then Inr (int (pc_msg_len pc'), es, rcv', pc')
          else bm_recv_loop es rcv' pc')"

text \<open>
  \<open>msg_len\<close> and \<open>escape\<close> of the fresh parse context are indeterminate in C; the start character
  sets both before anything reads them.
\<close>

definition fresh_parse_ctx :: "bytes \<Rightarrow> nat \<Rightarrow> parse_ctx" where
  "fresh_parse_ctx msg max_len =
     \<lparr>pc_state = MSG_NONE, pc_msg = msg, pc_msg_len = 0, pc_max_len = max_len, pc_escape = False\<rparr>"

definition serial_bm_recv_msg :: "ser_event list \<Rightarrow> recv_ctx \<Rightarrow> bytes \<Rightarrow> nat
    \<Rightarrow> (int \<times> ser_event list \<times> recv_ctx \<times> bytes) outcome" where
  "serial_bm_recv_msg es rcv msg max_len =
     bind_ok (bm_recv_loop es rcv (fresh_parse_ctx msg max_len))
       (\<lambda>(n, es', rcv', pc). Inr (n, es', rcv', pc_msg pc))"

section \<open>Building a request\<close>

text \<open>\<open>struct ipmb_msg_hdr\<close> and \<open>struct ipmi_send_message_rq\<close> (a channel byte and a header).\<close>

record ipmb_hdr =
  h_rsSA :: byte
  h_netFn :: byte
  h_csum1 :: byte
  h_rqSA :: byte
  h_rqSeq :: byte
  h_cmd :: byte

record send_message_rq =
  sm_channel :: byte
  sm_msg :: ipmb_hdr

definition hdr_bytes :: "ipmb_hdr \<Rightarrow> bytes" where
  "hdr_bytes h = [h_rsSA h, h_netFn h, h_csum1 h, h_rqSA h, h_rqSeq h, h_cmd h]"

definition sm_bytes :: "send_message_rq \<Rightarrow> bytes" where
  "sm_bytes r = sm_channel r # hdr_bytes (sm_msg r)"

text \<open>\<open>(netfn << 2) | lun\<close>, and the first checksum \<open>-(rsSA + netFn)\<close>.\<close>

definition netfn_lun :: "ipmi_rq \<Rightarrow> byte" where
  "netfn_lun req = push_bit 2 (ucast (rq_netfn req)) OR ucast (rq_lun req)"

definition mk_hdr :: "byte \<Rightarrow> byte \<Rightarrow> byte \<Rightarrow> byte \<Rightarrow> byte \<Rightarrow> ipmb_hdr" where
  "mk_hdr rs nf rq sq cm =
     \<lparr>h_rsSA = rs, h_netFn = nf, h_csum1 = - (rs + nf), h_rqSA = rq, h_rqSeq = sq, h_cmd = cm\<rparr>"

definition bm_inner_rq :: "ipmi_intf \<Rightarrow> ipmi_rq \<Rightarrow> byte \<Rightarrow> send_message_rq" where
  "bm_inner_rq i req sq =
     \<lparr>sm_channel = target_channel i OR 0x40,
      sm_msg = mk_hdr (ucast (target_addr i)) (netfn_lun req) (ucast (my_addr i)) sq (rq_cmd req)\<rparr>"

definition bm_outer_rq :: "ipmi_intf \<Rightarrow> byte \<Rightarrow> send_message_rq" where
  "bm_outer_rq i sq =
     \<lparr>sm_channel = transit_channel i OR 0x40,
      sm_msg = mk_hdr (ucast (transit_addr i)) 0x18 (ucast (my_addr i)) sq 0x34\<rparr>"

text \<open>
  The system interface asks for the response on LUN 2, does not track it, and restores the
  BMC's address when the first hop is not the primary channel.
\<close>

definition bm_system_rq :: "send_message_rq \<Rightarrow> send_message_rq" where
  "bm_system_rq r =
     (let m = (sm_msg r)\<lparr>h_rqSeq := h_rqSeq (sm_msg r) OR 2\<rparr>;
          ch = sm_channel r AND NOT 0x40
      in \<lparr>sm_channel = ch, sm_msg = (if ch \<noteq> 0 then m\<lparr>h_rqSA := IPMI_BMC_SLAVE_ADDR\<rparr> else m)\<rparr>)"

definition ctx_of :: "ipmb_hdr \<Rightarrow> request_ctx" where
  "ctx_of h = \<lparr>cx_rsSA = h_rsSA h, cx_netFn = h_netFn h, cx_rqSA = h_rqSA h,
     cx_rqSeq = h_rqSeq h, cx_cmd = h_cmd h\<rparr>"

text \<open>
  The wire content of a request. \<open>outer\<close> and \<open>inner\<close> are the Send Message requests after the
  system adjustment, which applies to the outermost one: with a single bridge that is the
  inner request itself. The checksums are those the code computes: over \<open>data_len + 3\<close> bytes
  from \<open>rqSA\<close> for the innermost message and over 4 bytes for every enclosing one.
\<close>

definition bm_content :: "nat \<Rightarrow> bool \<Rightarrow> ipmi_intf \<Rightarrow> ipmi_rq \<Rightarrow> byte \<Rightarrow> bytes \<times> ipmb_hdr \<times> ipmb_hdr option" where
  "bm_content bl sys i req sq =
     (let data = rq_data req; n = length data + 3 in
      if bl = 0 then
        let hdr = mk_hdr IPMI_BMC_SLAVE_ADDR (netfn_lun req) IPMI_REMOTE_SWID sq (rq_cmd req);
            m = hdr_bytes hdr @ data
        in (m @ [ipmi_csum (drop 3 m) n], hdr, None)
      else
        let hdr = mk_hdr IPMI_BMC_SLAVE_ADDR 0x18 IPMI_REMOTE_SWID sq 0x34 in
        if bl = 2 then
          let inner = bm_inner_rq i req sq;
              outer = (if sys then bm_system_rq (bm_outer_rq i sq) else bm_outer_rq i sq);
              m = hdr_bytes hdr @ sm_bytes outer @ sm_bytes inner @ data
          in (m @ [ipmi_csum (drop 17 m) n, ipmi_csum (drop 10 m) 4, ipmi_csum (drop 3 m) 4],
              hdr, Some (sm_msg outer))
        else
          let inner = (if sys then bm_system_rq (bm_inner_rq i req sq) else bm_inner_rq i req sq);
              m = hdr_bytes hdr @ sm_bytes inner @ data
          in (m @ [ipmi_csum (drop 10 m) n, ipmi_csum (drop 3 m) 4], hdr, Some (sm_msg inner)))"

record built_msg =
  bt_level :: nat
  bt_msg :: bytes
  bt_len :: nat
  bt_ctx0 :: request_ctx
  bt_ctx1 :: "request_ctx option"

text \<open>
  \<open>serial_bm_build_msg\<close>: \<open>None\<close> is the result -1, which leaves the caller's \<open>msg_len\<close>
  unassigned; the content is written to the front of the caller's array \<open>msg\<close>.
\<close>

definition serial_bm_build_msg :: "ipmi_intf \<Rightarrow> ipmi_rq \<Rightarrow> bytes \<Rightarrow> nat \<Rightarrow> bm_state
    \<Rightarrow> built_msg option \<times> bm_state" where
  "serial_bm_build_msg i req msg max_len st =
     (let bl = ipmi_intf_get_bridging_level i in
      if length (rq_data req) + 7 + bl * 8 > max_len then (None, st)
      else
        let (sq0, st1) = serial_bm_alloc_seq st; sq = push_bit 2 sq0;
            (content, hdr, hop) = bm_content bl (bm_is_system st) i req sq
        in (Some \<lparr>bt_level = bl, bt_msg = put_at msg 0 content, bt_len = length content,
                  bt_ctx0 = ctx_of hdr, bt_ctx1 = map_option ctx_of hop\<rparr>, st1))"

section \<open>Waiting for a response\<close>

text \<open>The header fields of the response that answers a request.\<close>

definition swap_netFn :: "request_ctx \<Rightarrow> byte" where
  "swap_netFn c = ((cx_netFn c OR 4) AND NOT 3) OR (cx_rqSeq c AND 3)"

definition swap_rqSeq :: "request_ctx \<Rightarrow> byte" where
  "swap_rqSeq c = (cx_rqSeq c AND NOT 3) OR (cx_netFn c AND 3)"

text \<open>The checks of \<open>serial_bm_wait_response\<close> on a received message of \<open>n\<close> bytes.\<close>

definition bm_response_ok :: "request_ctx \<Rightarrow> bytes \<Rightarrow> nat \<Rightarrow> bool" where
  "bm_response_ok c msg n \<longleftrightarrow>
     8 \<le> n \<and> ipmi_csum msg 3 = 0 \<and> ipmi_csum (drop 3 msg) (n - 3) = 0 \<and>
     msg ! 0 = cx_rqSA c \<and> msg ! 1 = swap_netFn c \<and> msg ! 3 = cx_rsSA c \<and>
     msg ! 4 = swap_rqSeq c \<and> msg ! 5 = cx_cmd c"

lemma bm_recv_loop_consumes:
  "bm_recv_loop es rcv pc = Inr (n, es', rcv', pc') \<Longrightarrow> 0 < n \<Longrightarrow> length es' < length es"
  by (induction es rcv pc rule: bm_recv_loop.induct)
    (auto split: sum.splits if_splits prod.splits intro: less_SucI)

lemma serial_bm_recv_msg_consumes:
  "serial_bm_recv_msg es rcv msg mx = Inr (n, es', rcv', msg') \<Longrightarrow> 0 < n \<Longrightarrow> length es' < length es"
  by (auto simp: serial_bm_recv_msg_def bind_ok_Inr_iff dest: bm_recv_loop_consumes)

function (sequential) serial_bm_wait_response :: "ser_event list \<Rightarrow> request_ctx \<Rightarrow> recv_ctx \<Rightarrow> bytes \<Rightarrow> nat
    \<Rightarrow> (int \<times> ser_event list \<times> recv_ctx \<times> bytes) outcome" where
  "serial_bm_wait_response es c rcv msg mx =
     (case serial_bm_recv_msg es rcv msg mx of
        Inl f \<Rightarrow> Inl f
      | Inr (n, es', rcv', msg') \<Rightarrow>
          if \<not> 0 < n then Inr (n, es', rcv', msg')
          else if bm_response_ok c msg' (nat n) then
            Inr (n - 7, es', rcv', move_front msg' 6 (nat n - 7))
          else serial_bm_wait_response es' c rcv' msg' mx)"
  by pat_completeness auto
termination
  by (relation "measure (\<lambda>(es, _). length es)") (auto dest: serial_bm_recv_msg_consumes)

declare serial_bm_wait_response.simps [simp del]

lemma serial_bm_wait_response_consumes:
  "serial_bm_wait_response es c rcv msg mx = Inr (n, es', rcv', msg') \<Longrightarrow> 0 < n \<Longrightarrow> length es' < length es"
proof (induction es c rcv msg mx rule: serial_bm_wait_response.induct)
  case (1 es c rcv msg mx)
  obtain k e r m where recv: "serial_bm_recv_msg es rcv msg mx = Inr (k, e, r, m)"
    using "1.prems" by (cases "serial_bm_recv_msg es rcv msg mx")
      (auto simp: serial_bm_wait_response.simps [of es])
  have k: "0 < k"
    using "1.prems" recv by (auto simp: serial_bm_wait_response.simps [of es] split: if_splits)
  have e: "length e < length es"
    using serial_bm_recv_msg_consumes [OF recv k] .
  show ?case
  proof (cases "bm_response_ok c m (nat k)")
    case True
    then show ?thesis
      using "1.prems" recv k e by (simp add: serial_bm_wait_response.simps [of es])
  next
    case False
    then have "length es' < length e"
      using "1.IH" [OF recv] "1.prems" recv k by (simp add: serial_bm_wait_response.simps [of es])
    with e show ?thesis by simp
  qed
qed

section \<open>The receive message queue\<close>

definition bm_get_message_rq :: "byte \<Rightarrow> bytes" where
  "bm_get_message_rq sq =
     (let h = [IPMI_BMC_SLAVE_ADDR, 0x18]; h1 = h @ [ipmi_csum h 2];
          t = [IPMI_REMOTE_SWID, sq, 0x33]
      in h1 @ t @ [ipmi_csum t 3])"

text \<open>\<open>clock()\<close>, in microseconds (\<open>CLOCKS_PER_SEC\<close> is 1000000).\<close>

definition bm_clock :: "bm_state \<Rightarrow> int \<times> bm_state" where
  "bm_clock st = (case bm_clocks st of [] \<Rightarrow> (0, st) | t # ts \<Rightarrow> (t, st\<lparr>bm_clocks := ts\<rparr>))"

text \<open>
  One iteration of \<open>serial_bm_get_message\<close>; the result \<open>None\<close> means another iteration.
  \<open>struct ipmi_get_message_rp\<close> has 7 bytes: completion, channel, netFn, csum1, rsSA, rqSeq, cmd.
  The length \<open>rv - sizeof(*rp) - 1\<close> given to \<open>memcpy\<close> is unsigned: when the reply is shorter
  than 8 bytes it is a huge number and the copy leaves the arrays.
\<close>

definition bm_get_message_once :: "bm_state \<Rightarrow> request_ctx \<Rightarrow> recv_ctx \<Rightarrow> bytes \<Rightarrow> bytes
    \<Rightarrow> (int option \<times> bm_state \<times> recv_ctx \<times> bytes \<times> bytes) outcome" where
  "bm_get_message_once st c rcv msg data =
     (let (sq0, st1) = serial_bm_alloc_seq st; sq = push_bit 2 sq0;
          tmp = \<lparr>cx_rsSA = IPMI_BMC_SLAVE_ADDR, cx_netFn = 0x18, cx_rqSA = IPMI_REMOTE_SWID,
                 cx_rqSeq = sq, cx_cmd = 0x33\<rparr>;
          rqm = bm_get_message_rq sq;
          st2 = snd (serial_bm_send_msg 1 rqm (serial_bm_flush st1))
      in bind_ok (serial_bm_wait_response (bm_events st2) tmp rcv (put_at data 0 rqm) (length data))
        (\<lambda>(rv, es', rcv', d).
          let st3 = st2\<lparr>bm_events := es'\<rparr> in
          if \<not> 0 < rv then Inr (Some rv, st3, rcv', msg, d)
          else if d ! 0 = 0 then
            (if d ! 2 = swap_netFn c \<and> d ! 4 = cx_rsSA c \<and> d ! 5 = swap_rqSeq c \<and> d ! 6 = cx_cmd c then
              (if rv < 8 then Inl OutOfBounds
               else Inr (Some (rv - 8), st3, rcv', put_at msg 0 (take (nat rv - 8) (drop 7 d)), d))
             else Inr (None, st3, rcv', msg, d))
          else if d ! 0 \<noteq> 0x80 then Inr (Some 0, st3, rcv', msg, d)
          else Inr (None, st3, rcv', msg, d)))"

lemma bm_get_message_once_consumes:
  "bm_get_message_once st c rcv msg data = Inr (None, st', r) \<Longrightarrow>
   length (bm_events st') < length (bm_events st)"
  by (auto simp: bm_get_message_once_def serial_bm_alloc_seq_def serial_bm_send_msg_def
      serial_bm_flush_def Let_def bind_ok_Inr_iff split: if_splits
      dest: serial_bm_wait_response_consumes)

lemma bm_events_clock [simp]: "bm_events (snd (bm_clock st)) = bm_events st"
  by (simp add: bm_clock_def split: list.split)

function bm_get_message_loop :: "bm_state \<Rightarrow> ipmi_intf \<Rightarrow> request_ctx \<Rightarrow> recv_ctx \<Rightarrow> bytes \<Rightarrow> bytes \<Rightarrow> int
    \<Rightarrow> (int \<times> bm_state \<times> recv_ctx \<times> bytes) outcome" where
  "bm_get_message_loop st i c rcv msg data start =
     (case bm_get_message_once st c rcv msg data of
        Inl f \<Rightarrow> Inl f
      | Inr (Some rv, st', rcv', msg', d) \<Rightarrow> Inr (rv, st', rcv', msg')
      | Inr (None, st', rcv', msg', d) \<Rightarrow>
          (if (fst (bm_clock st') - start) div 1000000 < uint (timeout (ssn_params i))
           then bm_get_message_loop (snd (bm_clock st')) i c rcv' msg' d start
           else Inr (0, snd (bm_clock st'), rcv', msg')))"
  by pat_completeness auto
termination
  by (relation "measure (\<lambda>(st, _). length (bm_events st))")
    (auto dest: bm_get_message_once_consumes)

declare bm_get_message_loop.simps [simp del]

definition serial_bm_get_message :: "bm_state \<Rightarrow> ipmi_intf \<Rightarrow> request_ctx \<Rightarrow> recv_ctx \<Rightarrow> bytes
    \<Rightarrow> (int \<times> bm_state \<times> recv_ctx \<times> bytes) outcome" where
  "serial_bm_get_message st i c rcv msg =
     (let (start, st0) = bm_clock st in bm_get_message_loop st0 i c rcv msg (bm_junk st) start)"

section \<open>Sending a request\<close>

record ser_rsp =
  rsp_ccode :: byte
  rsp_data :: bytes

text \<open>
  The response handed to the caller: \<open>off\<close> is where \<open>resp\<close> points in the message array and \<open>rv\<close>
  the remaining length. A negative \<open>data_len\<close> becomes a huge \<open>memcpy\<close> length.
\<close>

definition bm_deliver :: "nat \<Rightarrow> bytes \<Rightarrow> nat \<Rightarrow> int \<Rightarrow> ser_rsp outcome" where
  "bm_deliver bl msg off rv =
     (if bl = 2 \<and> msg ! off = 0 then
        (if rv < 9 then Inl OutOfBounds
         else Inr \<lparr>rsp_ccode = msg ! (off + 7), rsp_data = region msg (off + 8) (nat rv - 9)\<rparr>)
      else if rv < 1 then Inl OutOfBounds
      else Inr \<lparr>rsp_ccode = msg ! off, rsp_data = region msg (off + 1) (nat rv - 1)\<rparr>)"

datatype attempt = Retry | NoResponse | Response ser_rsp

text \<open>What follows the bridging step: the size check of a double bridge, then delivery.\<close>

definition bm_finish :: "nat \<Rightarrow> bool \<Rightarrow> bytes \<Rightarrow> nat \<Rightarrow> int \<Rightarrow> attempt outcome" where
  "bm_finish bl checked msg off rv =
     (if checked \<and> msg ! off = 0 \<and> bl = 2 \<and> rv < 8 then Inr NoResponse
      else bind_ok (bm_deliver bl msg off rv) (\<lambda>r. Inr (Response r)))"

text \<open>
  One iteration of the retry loop of \<open>serial_bm_send_request\<close>: build, flush, send, wait, then
  the bridging step. When building fails \<open>msg_len\<close> is indeterminate and the code reads it.
\<close>

definition bm_attempt :: "ipmi_intf \<Rightarrow> ipmi_rq \<Rightarrow> bm_state \<Rightarrow> recv_ctx \<Rightarrow> bytes
    \<Rightarrow> (attempt \<times> bm_state \<times> recv_ctx \<times> bytes) outcome" where
  "bm_attempt i req st rcv msg =
     (case serial_bm_build_msg i req msg (length msg) st of
        (None, st1) \<Rightarrow> Inl Indeterminate
      | (Some b, st1) \<Rightarrow>
          let st2 = snd (serial_bm_send_msg 1 (take (bt_len b) (bt_msg b)) (serial_bm_flush st1)) in
          bind_ok (serial_bm_wait_response (bm_events st2) (bt_ctx0 b) rcv (bt_msg b) (length msg))
          (\<lambda>(rv, es, rcv1, m).
            let st3 = st2\<lparr>bm_events := es\<rparr> in
            if rv < 0 then Inr (NoResponse, st3, rcv1, m)
            else if rv = 0 then Inr (Retry, st3, rcv1, m)
            else case bt_ctx1 b of
              None \<Rightarrow> bind_ok (bm_finish (bt_level b) False m 0 rv) (\<lambda>a. Inr (a, st3, rcv1, m))
            | Some c1 \<Rightarrow>
              if m ! 0 \<noteq> 0 then bind_ok (bm_finish (bt_level b) False m 0 rv) (\<lambda>a. Inr (a, st3, rcv1, m))
              else if bm_is_system st then
                bind_ok (serial_bm_get_message st3 i c1 rcv1 m)
                (\<lambda>(rv2, st4, rcv2, m2).
                  if rv2 < 0 then Inr (NoResponse, st4, rcv2, m2)
                  else if rv2 = 0 then Inr (Retry, st4, rcv2, m2)
                  else bind_ok (bm_finish (bt_level b) True m2 0 rv2) (\<lambda>a. Inr (a, st4, rcv2, m2)))
              else if rv = 1 then
                bind_ok (serial_bm_wait_response es c1 rcv1 m (length m))
                (\<lambda>(rv2, es2, rcv2, m2).
                  let st4 = st3\<lparr>bm_events := es2\<rparr> in
                  if rv2 < 0 then Inr (NoResponse, st4, rcv2, m2)
                  else if rv2 = 0 then Inr (Retry, st4, rcv2, m2)
                  else bind_ok (bm_finish (bt_level b) True m2 0 rv2) (\<lambda>a. Inr (a, st4, rcv2, m2)))
              else bind_ok (bm_finish (bt_level b) True m 7 (rv - 8)) (\<lambda>a. Inr (a, st3, rcv1, m))))"

fun bm_retry_loop :: "nat \<Rightarrow> ipmi_intf \<Rightarrow> ipmi_rq \<Rightarrow> bm_state \<Rightarrow> recv_ctx \<Rightarrow> bytes
    \<Rightarrow> (ser_rsp option \<times> bm_state) outcome" where
  "bm_retry_loop 0 i req st rcv msg = Inr (None, st)"
| "bm_retry_loop (Suc n) i req st rcv msg =
     (case bm_attempt i req st rcv msg of
        Inl f \<Rightarrow> Inl f
      | Inr (Response r, st', rcv', msg') \<Rightarrow> Inr (Some r, st')
      | Inr (NoResponse, st', rcv', msg') \<Rightarrow> Inr (None, st')
      | Inr (Retry, st', rcv', msg') \<Rightarrow> bm_retry_loop n i req st' rcv' msg')"

text \<open>
  \<open>open_rc\<close> is the answer of \<open>intf->open\<close>, called when the interface is not open. The message
  array and the receive buffer hold indeterminate bytes at first.
\<close>

definition serial_bm_send_request :: "ipmi_intf \<Rightarrow> int \<Rightarrow> bytes \<Rightarrow> ipmi_rq \<Rightarrow> bm_state
    \<Rightarrow> (ser_rsp option \<times> bm_state) outcome" where
  "serial_bm_send_request i open_rc rbuf req st =
     (if \<not> opened i \<and> open_rc < 0 then Inr (None, st)
      else bm_retry_loop (nat (retry (ssn_params i))) i req st
        \<lparr>rc_buffer = rbuf, rc_size = 0, rc_max = SERIAL_BM_MAX_BUFFER_SIZE\<rparr> (bm_junk st))"

end
