(* ===== verification/SerialTerm.thy ===== *)
theory SerialTerm
  imports SerialBasic HelperNum
begin

text \<open>
  \<open>src/plugins/serial/serial_terminal.c\<close>: the Terminal Mode serial transport. Messages are lines of
  hexadecimal text in brackets, without addresses and checksums of their own; a bridged request carries one
  or two Send Message requests, built as in Basic Mode, whose structures and functions for them are the same.

  \<open>tm_in\<close> are the answers to the successive pairs of \<open>poll\<close> and \<open>read\<close>, which asks for one character:
  \<open>None\<close> when one of the two fails, times out or gives nothing, as every later pair does. Flushing and sleeping are only
  recorded. \<open>tm_junk\<close> is what the stack holds where a local array of 256 bytes is declared.
\<close>

section \<open>The state\<close>

definition IPMI_SERIAL_MAX_RESPONSE :: nat where "IPMI_SERIAL_MAX_RESPONSE = 256"

definition ipmi_serial_term_setup :: "ipmi_intf \<Rightarrow> ipmi_intf" where
  "ipmi_serial_term_setup i = i\<lparr>max_request_data_size := 37, max_response_data_size := 36\<rparr>"

text \<open>\<open>struct serial_term_request_ctx\<close>; the address of the first context is never set and never read.\<close>

record term_ctx =
  tc_netFn :: byte
  tc_sa :: byte
  tc_seq :: byte
  tc_cmd :: byte

datatype term_action = TermFlush | TermSleep | TermWrite string

record term_state =
  tm_seq :: byte
  tm_is_system :: bool
  tm_in :: "char option list"
  tm_out :: "term_action list"
  tm_clocks :: "int list"
  tm_junk :: bytes

definition term_do :: "term_action list \<Rightarrow> term_state \<Rightarrow> term_state" where
  "term_do as st = st\<lparr>tm_out := tm_out st @ as\<rparr>"

definition serial_term_alloc_seq :: "term_state \<Rightarrow> byte \<times> term_state" where
  "serial_term_alloc_seq st = (alloc_seq (tm_seq st), st\<lparr>tm_seq := alloc_seq (tm_seq st)\<rparr>)"

section \<open>Opening and closing\<close>

definition term_rates :: "int list" where
  "term_rates = [2400, 9600, 19200, 38400, 57600, 115200, 230400, 460800]"

text \<open>The device file is a name, and behind colons the baud rate and a flag.\<close>

definition behind_colon :: "string \<Rightarrow> string option" where
  "behind_colon s = (case dropWhile (\<lambda>c. c \<noteq> CHR '':'') s of [] \<Rightarrow> None | _ # r \<Rightarrow> Some r)"

definition before_colon :: "string \<Rightarrow> string" where
  "before_colon s = takeWhile (\<lambda>c. c \<noteq> CHR '':'') s"

text \<open>
  \<open>file\<close> gives the descriptor for the name of a device, or a negative number. The descriptor stays open when
  the baud rate is not one of the table.
\<close>

definition ipmi_serial_term_open :: "(string \<Rightarrow> int) \<Rightarrow> string option \<Rightarrow> ipmi_intf \<Rightarrow> term_state
    \<Rightarrow> int \<times> ipmi_intf \<times> term_state" where
  "ipmi_serial_term_open file devfile i st =
     (case devfile of
        None \<Rightarrow> (-1, i, st)
      | Some dev \<Rightarrow>
          let flags = Option.bind (behind_colon dev) behind_colon;
              sys = (case flags of Some (c # _) \<Rightarrow> c = CHR ''S'' \<or> c = CHR ''s'' | _ \<Rightarrow> False);
              (rc, rate) = (case behind_colon dev of
                 None \<Rightarrow> (0, Some 9600) | Some r \<Rightarrow> str2uint (Some (before_colon r)) (Some 9600));
              st' = st\<lparr>tm_is_system := sys\<rparr>
          in if rc \<noteq> 0 then (-1, i, st')
             else
               let fd' = file (before_colon dev); i' = i\<lparr>fd := fd'\<rparr> in
               if fd' < 0 then (-1, i', st')
               else if \<not> list_ex (\<lambda>r. rate = Some r) term_rates then (-1, i', st')
               else (0, (on_params (\<lambda>p. p\<lparr>timeout := (if timeout p = 0 then 5 else timeout p),
                            retry := (if retry p = 0 then 5 else retry p)\<rparr>) i')\<lparr>opened := True\<rparr>, st'))"

definition ipmi_serial_term_close :: "ipmi_intf \<Rightarrow> ipmi_intf" where
  "ipmi_serial_term_close i = i\<lparr>fd := (if opened i then -1 else fd i), opened := False\<rparr>"

section \<open>Reading lines\<close>

definition term_eol :: "char \<Rightarrow> bool" where
  "term_eol c \<longleftrightarrow> c = CHR 0x0A \<or> c = CHR 0x0D"

text \<open>Characters up to the end of a line, at most \<open>n\<close>; no line on an error, or when there are more.\<close>

fun term_line :: "nat \<Rightarrow> char option list \<Rightarrow> string option \<times> char option list" where
  "term_line 0 es = (None, es)"
| "term_line (Suc n) [] = (None, [])"
| "term_line (Suc n) (None # es) = (None, es)"
| "term_line (Suc n) (Some c # es) =
     (if term_eol c then (Some [c], es)
      else case term_line n es of (r, es') \<Rightarrow> (map_option ((#) c) r, es'))"

text \<open>The first character of the buffer is cleared before anything is read, even when it has no room for one.\<close>

definition serial_read_line :: "nat \<Rightarrow> char option list \<Rightarrow> (string option \<times> char option list) outcome" where
  "serial_read_line len es = (if len = 0 then Inl OutOfBounds else Inr (term_line len es))"

lemma term_line_consumes: "term_line n es = (Some l, es') \<Longrightarrow> length es' < length es"
  by (induction n es arbitrary: l es' rule: term_line.induct)
    (auto split: if_split_asm prod.split_asm simp: less_Suc_eq)

text \<open>The loop of \<open>recv_response\<close>: lines are collected in an array of 768 until one ends with a bracket. The text is
  returned without the end of its last line.\<close>

function term_collect :: "string \<Rightarrow> char option list \<Rightarrow> (string option \<times> char option list) outcome" where
  "term_collect acc es =
     (case serial_read_line (IPMI_SERIAL_MAX_RESPONSE * 3 - length acc) es of
        Inl f \<Rightarrow> Inl f
      | Inr (None, es') \<Rightarrow> Inr (None, es')
      | Inr (Some l, es') \<Rightarrow>
          let acc' = acc @ l; n = length acc' in
          if 2 \<le> n \<and> acc' ! (n - 2) = CHR '']'' \<and> term_eol (acc' ! (n - 1)) then Inr (Some (take (n - 1) acc'), es')
          else term_collect acc' es')"
  by pat_completeness auto

termination
  by (relation "measure (\<lambda>(_, es). length es)") (auto simp: serial_read_line_def dest: term_line_consumes split: if_split_asm)

declare term_collect.simps [simp del]

section \<open>A response\<close>

text \<open>What stands behind the last opening bracket, up to a closing one; the text is a C string.\<close>

definition term_body :: "string \<Rightarrow> string option" where
  "term_body text =
     (let s = c_string text; p = rev (takeWhile (\<lambda>c. c \<noteq> CHR ''['') (rev s)) in
      if CHR ''['' \<notin> set s \<or> CHR '']'' \<notin> set p then None else Some (takeWhile (\<lambda>c. c \<noteq> CHR '']'') p))"

text \<open>
  Two digits make a byte, which is stored at once; between bytes there may be white space. \<open>h\<close> is a first
  digit, \<open>len\<close> the size of the array.
\<close>

fun term_parse :: "nat \<Rightarrow> string \<Rightarrow> char option \<Rightarrow> bytes \<Rightarrow> nat \<Rightarrow> int \<times> bytes" where
  "term_parse len [] h data i = (int i, data)"
| "term_parse len (c # cs) h data i =
     (if len \<le> i then (-1, data)
      else if isxdigit c then
        (case h of
           None \<Rightarrow> term_parse len cs (Some c) data i
         | Some d \<Rightarrow> term_parse len cs None (data[i := push_bit 4 (hex_value d) + hex_value c]) (i + 1))
      else if h \<noteq> None \<or> \<not> isspace c then (-1, data)
      else term_parse len cs h data i)"

text \<open>
  The comparison with the text of an error is one of the whole strings: behind it there is nothing left to convert, and
  \<open>strtoul\<close> gives 0 without an error. The result is the number of bytes, 0 or -1.
\<close>

definition recv_response :: "bytes \<Rightarrow> nat \<Rightarrow> term_state \<Rightarrow> (int \<times> bytes \<times> term_state) outcome" where
  "recv_response data len st =
     bind_ok (term_collect [] (tm_in st)) (\<lambda>(text, es).
       let st1 = st\<lparr>tm_in := es\<rparr> in
       Inr (case Option.bind text term_body of
          None \<Rightarrow> (-1, data, st1)
        | Some p \<Rightarrow>
            if p = ''ERR '' then (0, data, term_do [TermWrite (replicate 4 (CHR 0x0D)), TermSleep, TermFlush] st1)
            else (case term_parse len p None data 0 of (n, d) \<Rightarrow> (n, d, st1))))"

section \<open>Building and sending a request\<close>

definition term_ctx_of :: "ipmb_hdr \<Rightarrow> term_ctx" where
  "term_ctx_of h = \<lparr>tc_netFn = h_netFn h, tc_sa = h_rsSA h, tc_seq = h_rqSeq h, tc_cmd = h_cmd h\<rparr>"

definition term_content :: "nat \<Rightarrow> bool \<Rightarrow> ipmi_intf \<Rightarrow> ipmi_rq \<Rightarrow> byte \<Rightarrow> bytes \<times> term_ctx \<times> term_ctx option" where
  "term_content bl sys i req sq =
     (let data = rq_data req; n = length data + 3 in
      if bl = 0 then
        ([netfn_lun req, sq, rq_cmd req] @ data, \<lparr>tc_netFn = netfn_lun req, tc_sa = 0, tc_seq = sq, tc_cmd = rq_cmd req\<rparr>, None)
      else
        let ctx = \<lparr>tc_netFn = 0x18, tc_sa = 0, tc_seq = sq, tc_cmd = 0x34\<rparr> in
        if bl = 2 then
          let inner = bm_inner_rq i req sq;
              outer = (if sys then bm_system_rq (bm_outer_rq i sq) else bm_outer_rq i sq);
              m = [0x18, sq, 0x34] @ sm_bytes outer @ sm_bytes inner @ data
          in (m @ [ipmi_csum (drop 14 m) n, ipmi_csum (drop 7 m) 4], ctx, Some (term_ctx_of (sm_msg outer)))
        else
          let inner = (if sys then bm_system_rq (bm_inner_rq i req sq) else bm_inner_rq i req sq);
              m = [0x18, sq, 0x34] @ sm_bytes inner @ data
          in (m @ [ipmi_csum (drop 7 m) n], ctx, Some (term_ctx_of (sm_msg inner))))"

text \<open>\<open>None\<close> is the result -1, which leaves the length unassigned; \<open>msg\<close> is the array of 256 bytes.\<close>

definition serial_term_build_msg :: "ipmi_intf \<Rightarrow> ipmi_rq \<Rightarrow> nat \<Rightarrow> term_state
    \<Rightarrow> (nat \<times> bytes \<times> term_ctx \<times> term_ctx option) option \<times> term_state" where
  "serial_term_build_msg i req max_len st =
     (let bl = ipmi_intf_get_bridging_level i in
      if length (rq_data req) + 3 + bl * 8 > max_len then (None, st)
      else
        let (sq, st1) = serial_term_alloc_seq st
        in (Some (bl, term_content bl (tm_is_system st) i req (push_bit 2 sq)), st1))"

definition term_frame :: "bytes \<Rightarrow> string" where
  "term_frame m = ''['' @ concat (List.map hex_byte m) @ '']'' @ [CHR 0x0D, CHR 0x0A]"

text \<open>No caller looks at whether \<open>write\<close> succeeds.\<close>

definition serial_term_send_msg :: "bytes \<Rightarrow> term_state \<Rightarrow> term_state" where
  "serial_term_send_msg m st = term_do [TermWrite (term_frame m)] st"

definition serial_flush :: "term_state \<Rightarrow> term_state" where
  "serial_flush st = term_do [TermFlush] st"

section \<open>Waiting for a response\<close>

definition term_answers :: "term_ctx \<Rightarrow> bytes \<Rightarrow> int \<Rightarrow> bool" where
  "term_answers c msg n \<longleftrightarrow>
     4 \<le> n \<and> msg ! 0 = tc_netFn c OR 4 \<and> msg ! 1 AND NOT 3 = tc_seq c \<and> msg ! 2 = tc_cmd c"

lemma term_collect_consumes: "term_collect acc es = Inr (Some t, es') \<Longrightarrow> length es' < length es"
proof (induction acc es rule: term_collect.induct)
  case (1 acc es)
  obtain l es1 where r: "serial_read_line (IPMI_SERIAL_MAX_RESPONSE * 3 - length acc) es = Inr (Some l, es1)"
    using "1.prems" by (auto simp: term_collect.simps [of acc] split: sum.split_asm option.split_asm)
  then have less: "length es1 < length es"
    by (auto simp: serial_read_line_def dest: term_line_consumes split: if_split_asm)
  show ?case
    using "1.prems" "1.IH" [OF r refl refl refl refl] r less
    by (auto simp: term_collect.simps [of acc] Let_def split: if_split_asm)
qed

lemma recv_response_consumes:
  assumes "recv_response data len st = Inr (n, d, st')" "0 < n"
  shows "length (tm_in st') < length (tm_in st)"
proof -
  obtain tx es where c: "term_collect [] (tm_in st) = Inr (tx, es)"
    using assms(1) by (auto simp: recv_response_def bind_ok_Inr_iff)
  then have "tm_in st' = es \<and> tx \<noteq> None"
    using assms by (cases tx) (auto simp: recv_response_def term_do_def Let_def split: option.split_asm if_split_asm prod.split_asm)
  then show ?thesis
    using c term_collect_consumes by auto
qed

text \<open>An answer is moved over its header; the loop goes on with every other message that is not empty.\<close>

function serial_term_wait_response :: "term_ctx \<Rightarrow> bytes \<Rightarrow> term_state \<Rightarrow> (int \<times> bytes \<times> term_state) outcome" where
  "serial_term_wait_response c msg st =
     (case recv_response msg (length msg) st of
        Inl f \<Rightarrow> Inl f
      | Inr (n, m, st') \<Rightarrow>
          if \<not> 0 < n then Inr (0, m, st')
          else if term_answers c m n then Inr (n - 3, move_front m 3 (nat n - 3), st')
          else serial_term_wait_response c m st')"
  by pat_completeness auto

termination
  by (relation "measure (\<lambda>(_, _, st). length (tm_in st))") (auto dest: recv_response_consumes)

declare serial_term_wait_response.simps [simp del]

section \<open>The receive message queue\<close>

definition term_clock :: "term_state \<Rightarrow> int \<times> term_state" where
  "term_clock st = (case tm_clocks st of [] \<Rightarrow> (0, st) | t # ts \<Rightarrow> (t, st\<lparr>tm_clocks := ts\<rparr>))"

text \<open>
  One request for a message of the queue; \<open>None\<close> means another. \<open>struct ipmi_get_message_rp\<close> has seven bytes, and
  the length given to \<open>memcpy\<close> is unsigned: it leaves the arrays when the reply is shorter than eight.
\<close>

definition term_get_message_once :: "term_ctx \<Rightarrow> bytes \<Rightarrow> bytes \<Rightarrow> term_state
    \<Rightarrow> (int option \<times> bytes \<times> bytes \<times> term_state) outcome" where
  "term_get_message_once c msg data st =
     (let (sq0, st1) = serial_term_alloc_seq st; sq = push_bit 2 sq0;
          tmp = \<lparr>tc_netFn = 0x18, tc_sa = 0, tc_seq = sq, tc_cmd = 0x33\<rparr>
      in bind_ok (serial_term_wait_response tmp data (serial_term_send_msg [0x18, sq, 0x33] (serial_flush st1))) (\<lambda>(rv, d, st2).
           if \<not> 0 < rv then Inr (Some rv, msg, d, st2)
           else if d ! 0 = 0 then
             (if d ! 2 = ((tc_netFn c AND NOT 3) OR (tc_seq c AND 3)) OR 4 \<and> d ! 4 = tc_sa c
                 \<and> d ! 5 = tc_seq c AND NOT 3 \<and> d ! 6 = tc_cmd c then
                (if rv < 8 then Inl OutOfBounds
                 else Inr (Some (rv - 8), put_at msg 0 (region d 7 (nat rv - 8)), d, st2))
              else Inr (None, msg, d, st2))
           else if d ! 0 \<noteq> 0x80 then Inr (Some 0, msg, d, st2)
           else Inr (None, msg, d, st2)))"

lemma serial_term_wait_consumes:
  "serial_term_wait_response c msg st = Inr (n, m, st') \<Longrightarrow> 0 < n \<Longrightarrow> length (tm_in st') < length (tm_in st)"
proof (induction c msg st rule: serial_term_wait_response.induct)
  case (1 c msg st)
  obtain k m1 st1 where r: "recv_response msg (length msg) st = Inr (k, m1, st1)"
    using "1.prems" by (auto simp: serial_term_wait_response.simps [of c msg st] split: sum.split_asm)
  then have k: "0 < k"
    using "1.prems" by (auto simp: serial_term_wait_response.simps [of c msg st] split: if_split_asm)
  show ?case
    using "1.prems" "1.IH" [OF r refl refl] k r recv_response_consumes [OF r k]
    by (auto simp: serial_term_wait_response.simps [of c msg st] split: if_split_asm)
qed

lemma term_get_message_consumes:
  assumes "term_get_message_once c msg data st = Inr (None, m, d, st')"
  shows "length (tm_in st') < length (tm_in st)"
  using assms
  by (auto simp: term_get_message_once_def serial_term_alloc_seq_def serial_term_send_msg_def serial_flush_def term_do_def bind_ok_Inr_iff Let_def
      split: if_split_asm dest!: serial_term_wait_consumes)

lemma tm_in_clock [simp]: "tm_in (snd (term_clock st)) = tm_in st"
  by (simp add: term_clock_def split: list.split)

function term_get_message_loop :: "ipmi_intf \<Rightarrow> term_ctx \<Rightarrow> int \<Rightarrow> bytes \<Rightarrow> bytes \<Rightarrow> term_state
    \<Rightarrow> (int \<times> bytes \<times> term_state) outcome" where
  "term_get_message_loop i c start msg data st =
     (case term_get_message_once c msg data st of
        Inl f \<Rightarrow> Inl f
      | Inr (Some rv, m, d, st') \<Rightarrow> Inr (rv, m, st')
      | Inr (None, m, d, st') \<Rightarrow>
          if (fst (term_clock st') - start) div 1000000 < uint (timeout (ssn_params i))
          then term_get_message_loop i c start m d (snd (term_clock st'))
          else Inr (0, m, snd (term_clock st')))"
  by pat_completeness auto

termination
  by (relation "measure (\<lambda>(_, _, _, _, _, st). length (tm_in st))") (auto dest: term_get_message_consumes)

declare term_get_message_loop.simps [simp del]

definition serial_term_get_message :: "ipmi_intf \<Rightarrow> term_ctx \<Rightarrow> bytes \<Rightarrow> term_state \<Rightarrow> (int \<times> bytes \<times> term_state) outcome" where
  "serial_term_get_message i c msg st =
     (let (start, st') = term_clock st in term_get_message_loop i c start msg (tm_junk st) st')"

section \<open>Sending a command\<close>

text \<open>
  Handing on a response is written as in Basic Mode: \<open>bm_finish\<close>, with \<open>off\<close> where the response starts and \<open>rv\<close> its
  length. An attempt builds, sends, waits, and takes the answer out of the Send Message response, from the queue of the
  system interface or from a message of its own. When building fails the length is indeterminate and is read.
\<close>

definition term_bridged :: "ipmi_intf \<Rightarrow> term_ctx \<Rightarrow> int \<Rightarrow> bytes \<Rightarrow> term_state \<Rightarrow> (int \<times> nat \<times> bytes \<times> term_state) outcome" where
  "term_bridged i c rv m st =
     (if tm_is_system st then bind_ok (serial_term_get_message i c m st) (\<lambda>(rv', m', st'). Inr (rv', 0, m', st'))
      else if rv = 1 then bind_ok (serial_term_wait_response c m st) (\<lambda>(rv', m', st'). Inr (rv', 0, m', st'))
      else Inr (rv - 8, 7, m, st))"

definition term_attempt :: "ipmi_intf \<Rightarrow> ipmi_rq \<Rightarrow> bytes \<Rightarrow> term_state \<Rightarrow> (attempt \<times> bytes \<times> term_state) outcome" where
  "term_attempt i req msg st =
     (case serial_term_build_msg i req (length msg) st of
        (None, st1) \<Rightarrow> Inl Indeterminate
      | (Some (bl, content, c0, hop), st1) \<Rightarrow>
          bind_ok (serial_term_wait_response c0 (put_at msg 0 content) (serial_term_send_msg content (serial_flush st1))) (\<lambda>(rv, m, st2).
            if rv < 0 then Inr (NoResponse, m, st2)
            else if rv = 0 then Inr (Retry, m, st2)
            else case hop of
              None \<Rightarrow> bind_ok (bm_finish bl False m 0 rv) (\<lambda>a. Inr (a, m, st2))
            | Some c1 \<Rightarrow>
                if m ! 0 \<noteq> 0 then bind_ok (bm_finish bl False m 0 rv) (\<lambda>a. Inr (a, m, st2))
                else bind_ok (term_bridged i c1 rv m st2) (\<lambda>(rv', off, m', st3).
                  if off = 0 \<and> rv' < 0 then Inr (NoResponse, m', st3)
                  else if off = 0 \<and> rv' = 0 then Inr (Retry, m', st3)
                  else bind_ok (bm_finish bl True m' off rv') (\<lambda>a. Inr (a, m', st3)))))"

fun term_retry_loop :: "nat \<Rightarrow> ipmi_intf \<Rightarrow> ipmi_rq \<Rightarrow> bytes \<Rightarrow> term_state \<Rightarrow> (ser_rsp option \<times> term_state) outcome" where
  "term_retry_loop 0 i req msg st = Inr (None, st)"
| "term_retry_loop (Suc n) i req msg st =
     (case term_attempt i req msg st of
        Inl f \<Rightarrow> Inl f
      | Inr (Response r, m, st') \<Rightarrow> Inr (Some r, st')
      | Inr (NoResponse, m, st') \<Rightarrow> Inr (None, st')
      | Inr (Retry, m, st') \<Rightarrow> term_retry_loop n i req m st')"

text \<open>\<open>file\<close> and \<open>devfile\<close> are those of the opening, which is made when the interface is not open.\<close>

definition ipmi_serial_term_send_cmd :: "(string \<Rightarrow> int) \<Rightarrow> string option \<Rightarrow> ipmi_rq \<Rightarrow> ipmi_intf \<times> term_state
    \<Rightarrow> (ser_rsp option \<times> ipmi_intf \<times> term_state) outcome" where
  "ipmi_serial_term_send_cmd file devfile req = (\<lambda>(i, st).
     let (rc, i', st') = (if opened i then (0, i, st) else ipmi_serial_term_open file devfile i st) in
     if rc < 0 then Inr (None, i', st')
     else bind_ok (term_retry_loop (nat (retry (ssn_params i'))) i' req (tm_junk st') st') (\<lambda>(r, st2). Inr (r, i', st2)))"

end
