(* ===== verification/SeqCounter.thy ===== *)
theory SeqCounter
  imports Prelude
begin

text \<open>
  The contract of the request sequence numbers: several transports keep a counter in a static
  variable that runs through 0 to 63 and is shifted into the upper six bits of the \<open>rqSeq\<close>
  byte. A request is told apart from the ones before it only by this number, so what matters
  is that 64 successive numbers are different.
\<close>

locale seq_counter =
  fixes next_seq :: "byte \<Rightarrow> byte"
  assumes next_seq: "unat s < 64 \<Longrightarrow> unat (next_seq s) = (unat s + 1) mod 64"
begin

lemma next_seq_less: "unat s < 64 \<Longrightarrow> unat (next_seq s) < 64"
  by (simp add: next_seq)

lemma iterate: "unat s < 64 \<Longrightarrow> unat ((next_seq ^^ k) s) = (unat s + k) mod 64"
proof (induction k)
  case (Suc k)
  then have "unat ((next_seq ^^ k) s) < 64"
    by simp
  then show ?case
    using Suc by (simp add: next_seq mod_Suc_eq)
qed simp

lemma distinct_window:
  assumes "unat s < 64" "j < 64" "k < 64" "(next_seq ^^ j) s = (next_seq ^^ k) s"
  shows "j = k"
proof -
  have fold: "x mod 64 = (if x < 64 then x else x - 64)" if "x < 128" for x :: nat
    using that by (simp add: mod_if)
  have "(unat s + j) mod 64 = (unat s + k) mod 64"
    using assms iterate by metis
  then show ?thesis
    using assms(1-3) fold [of "unat s + j"] fold [of "unat s + k"] by (auto split: if_splits)
qed

lemma shifted_inject:
  fixes s t :: byte
  assumes "unat s < 64" "unat t < 64" "push_bit 2 s = push_bit 2 t"
  shows "s = t"
proof -
  have four: "unat (push_bit 2 x) = unat x * 4" if "unat x < 64" for x :: byte
    using that by (simp add: push_bit_eq_mult unat_word_ariths)
  have "unat s * 4 = unat t * 4"
    using four [OF assms(1)] four [OF assms(2)] assms(3) by simp
  then show ?thesis
    by (simp add: word_unat_eq_iff)
qed

end

end
