(* ===== verification/Ipmb.thy ===== *)
theory Ipmb
  imports Helper
begin

text \<open>
  The format of an IPMB message, which all transports share: an address and network function
  closed by the first checksum, then the requester's part closed by the second one. A Send
  Message request carries another IPMB message after its header and channel byte.
\<close>

definition ipmb_valid :: "bytes \<Rightarrow> bool" where
  "ipmb_valid m \<longleftrightarrow> 7 \<le> length m \<and> ipmi_csum m 3 = 0 \<and> ipmi_csum (drop 3 m) (length m - 3) = 0"

definition ipmb_unwrap :: "bytes \<Rightarrow> bytes" where
  "ipmb_unwrap m = butlast (drop 7 m)"

lemma sum_valid:
  assumes "ipmb_valid m"
  shows "sum_list m = 0"
proof -
  have "sum_list (take 3 m) = 0" "sum_list (drop 3 m) = 0"
    using assms by (simp_all add: ipmb_valid_def ipmi_csum_eq)
  then show ?thesis
    by (metis add_0 append_take_drop_id sum_list_append)
qed

lemma ipmb_valid_parts:
  assumes "a + b + c = 0" "length body = Suc n" "3 \<le> n" "sum_list body = 0"
  shows "ipmb_valid (a # b # c # body)"
  using assms by (simp add: ipmb_valid_def ipmi_csum_eq add.assoc eval_nat_numeral)

end
