(* ===== verification/SerialBasicProps.thy ===== *)
theory SerialBasicProps
  imports SerialBasicFacts Ipmb
begin

text \<open>
  The correctness properties of the Basic Mode transport: valid checksums at every level of
  encapsulation, frames received whatever way they are split over reads, the soundness of
  response matching, what a silent device and an answering device lead to, and the two inputs
  on which the code reads or writes where it must not.
\<close>

section \<open>Checksums\<close>

lemma ipmb_valid_hdr:
  "ipmb_valid (hdr_bytes h @ body) \<longleftrightarrow>
   body \<noteq> [] \<and> h_rsSA h + h_netFn h + h_csum1 h = 0 \<and>
   h_rqSA h + h_rqSeq h + h_cmd h + sum_list body = 0"
proof -
  have "ipmi_csum (drop 3 (hdr_bytes h @ body)) (length (hdr_bytes h @ body) - 3)
      = - (h_rqSA h + h_rqSeq h + h_cmd h + sum_list body)"
    by (simp add: ipmi_csum_eq hdr_bytes_def numeral_3_eq_3 add.assoc)
  moreover have "ipmi_csum (hdr_bytes h @ body) 3 = - (h_rsSA h + h_netFn h + h_csum1 h)"
    by (simp add: ipmi_csum_eq hdr_bytes_def numeral_3_eq_3 add.assoc)
  moreover have "7 \<le> length (hdr_bytes h @ body) \<longleftrightarrow> body \<noteq> []"
    by (cases body) (simp_all add: hdr_bytes_def)
  ultimately show ?thesis
    unfolding ipmb_valid_def by (simp only: neg_equal_0_iff_equal simp_thms conj_assoc conj_commute conj_left_commute)
qed

lemma ipmb_unwrap_hdr: "xs \<noteq> [] \<Longrightarrow> ipmb_unwrap (hdr_bytes h @ c # xs) = butlast xs"
  by (simp add: ipmb_unwrap_def hdr_bytes_def)

lemma sum_hdr_bytes:
  "sum_list (hdr_bytes h) = (h_rsSA h + h_netFn h + h_csum1 h) + (h_rqSA h + h_rqSeq h + h_cmd h)"
  by (simp add: hdr_bytes_def add.assoc)

text \<open>The checksums the code writes, and what they sum.\<close>

definition tail_csum :: "ipmb_hdr \<Rightarrow> bytes \<Rightarrow> byte" where
  "tail_csum h body = - (h_rqSA h + h_rqSeq h + h_cmd h + sum_list body)"

lemma drop_hdrs:
  "drop 3 (hdr_bytes h @ xs) = h_rqSA h # h_rqSeq h # h_cmd h # xs"
  "drop 10 (hdr_bytes h @ sm_bytes r @ xs) =
     h_rqSA (sm_msg r) # h_rqSeq (sm_msg r) # h_cmd (sm_msg r) # xs"
  "drop 17 (hdr_bytes h @ sm_bytes r @ sm_bytes q @ xs) =
     h_rqSA (sm_msg q) # h_rqSeq (sm_msg q) # h_cmd (sm_msg q) # xs"
  by (simp_all add: hdr_bytes_def sm_bytes_def)

lemma csum_tail:
  "ipmi_csum (h_rqSA h # h_rqSeq h # h_cmd h # xs) (length xs + 3) = tail_csum h xs"
  by (simp add: ipmi_csum_eq tail_csum_def add.assoc)

lemma csum_four:
  "ipmi_csum (h_rqSA h # h_rqSeq h # h_cmd h # c # xs) 4 = tail_csum h [c]"
  by (simp add: ipmi_csum_eq tail_csum_def add.assoc eval_nat_numeral)

definition core_msg :: "ipmb_hdr \<Rightarrow> bytes \<Rightarrow> bytes" where
  "core_msg h data = hdr_bytes h @ data @ [tail_csum h data]"

definition wrap_msg :: "ipmb_hdr \<Rightarrow> byte \<Rightarrow> bytes \<Rightarrow> bytes" where
  "wrap_msg h c x = hdr_bytes h @ c # x @ [tail_csum h [c]]"

lemma hdr_closes [simp]: "h_rsSA (mk_hdr a b c d e) + h_netFn (mk_hdr a b c d e) + h_csum1 (mk_hdr a b c d e) = 0"
  by (simp add: mk_hdr_def)

lemma system_rq_closes [simp]:
  "h_rsSA (sm_msg (bm_system_rq r)) = h_rsSA (sm_msg r)"
  "h_netFn (sm_msg (bm_system_rq r)) = h_netFn (sm_msg r)"
  "h_csum1 (sm_msg (bm_system_rq r)) = h_csum1 (sm_msg r)"
  by (simp_all add: bm_system_rq_def Let_def)

definition closes :: "ipmb_hdr \<Rightarrow> bool" where
  "closes h \<longleftrightarrow> h_rsSA h + h_netFn h + h_csum1 h = 0"

lemma closes_rq [simp]:
  "closes (mk_hdr a b c d e)"
  "closes (sm_msg (bm_inner_rq i req sq))"
  "closes (sm_msg (bm_outer_rq i sq))"
  "closes (sm_msg (bm_system_rq r)) = closes (sm_msg r)"
  by (simp_all add: closes_def bm_inner_rq_def bm_outer_rq_def)

text \<open>One level: a message built with the long checksum, and one wrapped with the short one.\<close>

lemma valid_core: "closes h \<Longrightarrow> ipmb_valid (core_msg h data)"
  by (simp add: core_msg_def ipmb_valid_hdr tail_csum_def closes_def)

lemma valid_wrap:
  assumes "closes h" "ipmb_valid m"
  shows "ipmb_valid (wrap_msg h c m)" "ipmb_unwrap (wrap_msg h c m) = m"
  using assms sum_valid [OF assms(2)]
  by (simp_all add: wrap_msg_def ipmb_valid_hdr tail_csum_def closes_def ipmb_unwrap_hdr)

lemma wrap_core:
  "wrap_msg h (sm_channel r) (core_msg (sm_msg r) d) =
   hdr_bytes h @ sm_bytes r @ d @ [tail_csum (sm_msg r) d, tail_csum h [sm_channel r]]"
  by (simp add: wrap_msg_def core_msg_def sm_bytes_def)

lemma wrap_wrap:
  "wrap_msg h (sm_channel r) (wrap_msg (sm_msg r) (sm_channel q) (core_msg (sm_msg q) d)) =
   hdr_bytes h @ sm_bytes r @ sm_bytes q @ d @
     [tail_csum (sm_msg q) d, tail_csum (sm_msg r) [sm_channel q], tail_csum h [sm_channel r]]"
  by (simp add: wrap_msg_def core_msg_def sm_bytes_def)

lemma bm_content_layers:
  fixes sq :: byte
  defines "h \<equiv> mk_hdr IPMI_BMC_SLAVE_ADDR 0x18 IPMI_REMOTE_SWID sq 0x34"
  shows "fst (bm_content 0 sys i req sq) =
      core_msg (mk_hdr IPMI_BMC_SLAVE_ADDR (netfn_lun req) IPMI_REMOTE_SWID sq (rq_cmd req)) (rq_data req)"
    and "fst (bm_content 2 sys i req sq) =
      (let inner = bm_inner_rq i req sq;
           outer = (if sys then bm_system_rq (bm_outer_rq i sq) else bm_outer_rq i sq)
       in wrap_msg h (sm_channel outer)
            (wrap_msg (sm_msg outer) (sm_channel inner) (core_msg (sm_msg inner) (rq_data req))))"
    and "bl \<noteq> 0 \<Longrightarrow> bl \<noteq> 2 \<Longrightarrow> fst (bm_content bl sys i req sq) =
      (let inner = (if sys then bm_system_rq (bm_inner_rq i req sq) else bm_inner_rq i req sq)
       in wrap_msg h (sm_channel inner) (core_msg (sm_msg inner) (rq_data req)))"
proof -
  show "fst (bm_content 0 sys i req sq) =
      core_msg (mk_hdr IPMI_BMC_SLAVE_ADDR (netfn_lun req) IPMI_REMOTE_SWID sq (rq_cmd req)) (rq_data req)"
    by (simp add: bm_content_def Let_def drop_hdrs csum_tail core_msg_def del: drop_append)
  have four: "ipmi_csum (h_rqSA g # h_rqSeq g # h_cmd g # sm_bytes r @ xs) 4 = tail_csum g [sm_channel r]"
    for g r xs
    by (simp add: sm_bytes_def csum_four)
  show "fst (bm_content 2 sys i req sq) =
      (let inner = bm_inner_rq i req sq;
           outer = (if sys then bm_system_rq (bm_outer_rq i sq) else bm_outer_rq i sq)
       in wrap_msg h (sm_channel outer)
            (wrap_msg (sm_msg outer) (sm_channel inner) (core_msg (sm_msg inner) (rq_data req))))"
    unfolding bm_content_def Let_def
    by (simp add: drop_hdrs csum_tail four wrap_wrap h_def del: drop_append)
  show "bl \<noteq> 0 \<Longrightarrow> bl \<noteq> 2 \<Longrightarrow> fst (bm_content bl sys i req sq) =
      (let inner = (if sys then bm_system_rq (bm_inner_rq i req sq) else bm_inner_rq i req sq)
       in wrap_msg h (sm_channel inner) (core_msg (sm_msg inner) (rq_data req)))"
    unfolding bm_content_def Let_def
    by (simp add: drop_hdrs csum_tail four wrap_core h_def del: drop_append)
qed

lemma valid_length: "ipmb_valid m \<Longrightarrow> m \<noteq> []"
  by (auto simp: ipmb_valid_def)

text \<open>Every message the Basic Mode transport builds carries valid checksums at every level:
  the message itself, and after unwrapping once or twice the Send Message requests it
  encapsulates, although the enclosing levels only sum four bytes, and also when the system
  interface has modified the outermost request after its header checksum was computed.\<close>

theorem serial_bm_checksums:
  assumes "bm_content bl sys i req sq = (m, hdr, hop)"
  shows "ipmb_valid m \<and> (bl \<noteq> 0 \<longrightarrow> ipmb_valid (ipmb_unwrap m))
    \<and> (bl = 2 \<longrightarrow> ipmb_valid (ipmb_unwrap (ipmb_unwrap m)))"
proof -
  have m: "m = fst (bm_content bl sys i req sq)"
    using assms by simp
  consider "bl = 0" | "bl = 2" | "bl \<noteq> 0" "bl \<noteq> 2" by blast
  then show ?thesis
    by cases (simp_all add: m bm_content_layers valid_core valid_wrap Let_def)
qed

theorem serial_bm_checksums_witness:
  "\<exists>m hdr hop. bm_content 2 True (sample_intf\<lparr>target_addr := 0x72, transit_addr := 0x82\<rparr>) sample_rq 8 = (m, hdr, hop)
    \<and> ipmb_valid m \<and> ipmb_valid (ipmb_unwrap m) \<and> ipmb_valid (ipmb_unwrap (ipmb_unwrap m))"
proof -
  obtain m hdr hop where
    "bm_content 2 True (sample_intf\<lparr>target_addr := 0x72, transit_addr := 0x82\<rparr>) sample_rq 8 = (m, hdr, hop)"
    by (metis prod_cases3)
  then show ?thesis
    using serial_bm_checksums [of 2 True "sample_intf\<lparr>target_addr := 0x72, transit_addr := 0x82\<rparr>" sample_rq 8 m]
    by simp
qed

section \<open>Receiving frames\<close>

text \<open>A prefix of the data of a parse that consumes everything is consumed without completing.\<close>

lemma parse_prefix:
  "serial_bm_parse (xs @ ys) i ctx = (int (i + length xs + length ys), c) \<Longrightarrow> ys \<noteq> [] \<Longrightarrow>
   pc_state ctx \<noteq> MSG_DONE \<Longrightarrow>
   \<exists>c'. serial_bm_parse xs i ctx = (int (i + length xs), c') \<and> pc_state c' \<noteq> MSG_DONE \<and>
        serial_bm_parse ys (i + length xs) c' = (int (i + length xs + length ys), c)"
proof (induction xs arbitrary: i ctx)
  case (Cons x xs)
  have step: "i + length (x # xs) + length ys = Suc (i + length xs + length ys)"
    "i + length (x # xs) = Suc (i + length xs)"
    by simp_all
  have notnil: "length ys \<noteq> 0"
    using Cons.prems(2) by simp
  have IH: "serial_bm_parse (xs @ ys) (Suc i) k = (int (Suc (i + length xs + length ys)), c) \<Longrightarrow>
      pc_state k \<noteq> MSG_DONE \<Longrightarrow>
      \<exists>c'. serial_bm_parse xs (Suc i) k = (int (Suc (i + length xs)), c') \<and> pc_state c' \<noteq> MSG_DONE \<and>
        serial_bm_parse ys (Suc (i + length xs)) c' = (int (Suc (i + length xs + length ys)), c)" for k
    using Cons.IH [of "Suc i" k] Cons.prems(2) by (simp del: of_nat_Suc of_nat_add)
  from Cons.prems(1,3) notnil show ?case
    unfolding step append_Cons serial_bm_parse.simps(2) Let_def
    by (simp only: split: if_split_asm)
      (simp_all add: IH pc_push_def del: of_nat_add of_nat_Suc)
qed simp

lemma parse_shift:
  "serial_bm_parse ds i ctx = (r, c) \<Longrightarrow>
   serial_bm_parse ds (i + k) ctx = (if r = -1 then -1 else r + int k, c)"
proof (induction ds arbitrary: i ctx)
  case (Cons d ds)
  then show ?case
    unfolding serial_bm_parse.simps(2) Let_def
    by (simp only: split: if_split_asm) (use Cons.IH [of "Suc i"] in simp_all)
qed auto

lemma parse_at_0:
  assumes "serial_bm_parse ds k ctx = (int (k + n), c)"
  shows "serial_bm_parse ds 0 ctx = (int n, c)"
  using assms parse_shift [of ds 0 ctx _ _ k]
  by (cases "serial_bm_parse ds 0 ctx") (auto split: if_splits)

definition empty_rcv :: "recv_ctx \<Rightarrow> bool" where
  "empty_rcv rcv \<longleftrightarrow> rc_size rcv = 0 \<and> rc_max rcv \<le> length (rc_buffer rcv)"

lemma recv_step_consumes_all:
  assumes "empty_rcv rcv" "length bs \<le> rc_max rcv" "serial_bm_parse bs 0 pc = (int (length bs), pc')"
  shows "\<exists>rcv'. bm_recv_step bs rcv pc = Inr (rcv', pc') \<and> empty_rcv rcv' \<and> rc_max rcv' = rc_max rcv"
proof -
  have "take (length bs) (put_at (rc_buffer rcv) 0 bs) = bs"
    using take_end_put_at [of 0 "rc_buffer rcv" bs] by simp
  then show ?thesis
    using assms by (simp add: bm_recv_step_def empty_rcv_def serial_bm_parse_buffer_def)
qed

lemma recv_chunks:
  assumes "serial_bm_parse (concat bss) 0 pc = (int (length (concat bss)), pc')"
    and "pc_state pc \<noteq> MSG_DONE" "pc_state pc' = MSG_DONE"
    and "\<And>bs. bs \<in> set bss \<Longrightarrow> bs \<noteq> [] \<and> length bs \<le> rc_max rcv" and "empty_rcv rcv"
  shows "\<exists>rcv'. bm_recv_loop (List.map Rx bss @ es) rcv pc = Inr (int (pc_msg_len pc'), es, rcv', pc')
    \<and> empty_rcv rcv' \<and> rc_max rcv' = rc_max rcv"
  using assms
proof (induction bss arbitrary: rcv pc)
  case (Cons bs bss)
  have bs: "bs \<noteq> []" "length bs \<le> rc_max rcv"
    using Cons.prems(4) by simp_all
  show ?case
  proof (cases "bss = []")
    case True
    then have "serial_bm_parse bs 0 pc = (int (length bs), pc')"
      using Cons.prems(1) by simp
    then obtain rcv1 where "bm_recv_step bs rcv pc = Inr (rcv1, pc')" "empty_rcv rcv1"
      "rc_max rcv1 = rc_max rcv"
      using recv_step_consumes_all [OF Cons.prems(5) bs(2)] by blast
    then show ?thesis
      using Cons.prems(3) True by auto
  next
    case False
    then have "concat bss \<noteq> []"
      using Cons.prems(4) by (cases bss) auto
    then obtain c where c: "serial_bm_parse bs 0 pc = (int (length bs), c)" "pc_state c \<noteq> MSG_DONE"
      "serial_bm_parse (concat bss) (length bs) c = (int (length bs + length (concat bss)), pc')"
      using parse_prefix [of bs "concat bss" 0 pc pc'] Cons.prems(1,2) by auto
    obtain rcv1 where step: "bm_recv_step bs rcv pc = Inr (rcv1, c)" "empty_rcv rcv1"
      "rc_max rcv1 = rc_max rcv"
      using recv_step_consumes_all [OF Cons.prems(5) bs(2) c(1)] by blast
    have "\<exists>rcv'. bm_recv_loop (List.map Rx bss @ es) rcv1 c = Inr (int (pc_msg_len pc'), es, rcv', pc')
        \<and> empty_rcv rcv' \<and> rc_max rcv' = rc_max rcv1"
      by (rule Cons.IH) (use Cons.prems c step parse_at_0 in auto)
    then show ?thesis
      using step c(2) by auto
  qed
qed simp

lemma recv_frame:
  assumes "BM_START \<notin> set noise" "length m \<le> mx" "mx \<le> length buf" "concat bss = noise @ bm_frame m"
    and "\<And>bs. bs \<in> set bss \<Longrightarrow> bs \<noteq> [] \<and> length bs \<le> rc_max rcv" and "empty_rcv rcv"
  shows "\<exists>rcv'. serial_bm_recv_msg (List.map Rx bss @ es) rcv buf mx =
      Inr (int (length m), es, rcv', put_at buf 0 m) \<and> empty_rcv rcv' \<and> rc_max rcv' = rc_max rcv"
proof -
  define pc where "pc = fresh_parse_ctx buf mx"
  define pc' where "pc' = (pc_write m (pc_started pc))\<lparr>pc_state := MSG_DONE\<rparr>"
  have "serial_bm_parse (noise @ bm_frame m) 0 pc = (int (length noise + length (bm_frame m)), pc')"
    using parse_noise [OF assms(1), of pc "bm_frame m" 0] parse_frame [of m pc "[]" "length noise"] assms(2,3)
    by (simp add: pc_def pc'_def fresh_parse_ctx_def)
  then have "serial_bm_parse (concat bss) 0 pc = (int (length (concat bss)), pc')"
    by (simp add: assms(4))
  then have "\<exists>rcv'. bm_recv_loop (List.map Rx bss @ es) rcv pc = Inr (int (pc_msg_len pc'), es, rcv', pc')
      \<and> empty_rcv rcv' \<and> rc_max rcv' = rc_max rcv"
    by (rule recv_chunks) (use assms(5,6) in \<open>auto simp: pc_def pc'_def fresh_parse_ctx_def\<close>)
  moreover have "pc_msg pc' = put_at buf 0 m" "pc_msg_len pc' = length m"
    by (simp_all add: pc'_def pc_write_def pc_started_def pc_def fresh_parse_ctx_def)
  ultimately show ?thesis
    unfolding serial_bm_recv_msg_def pc_def [symmetric] by auto
qed

text \<open>C26: a framed message is received whole, however the kernel splits it over reads and whatever
  noise precedes its start character: the receive loop returns the message's length, puts the
  unescaped message at the front of the caller's array and leaves the receive buffer empty.\<close>

theorem serial_bm_frame_received:
  assumes "BM_START \<notin> set noise" "length m \<le> mx" "mx \<le> length buf" "concat bss = noise @ bm_frame m"
    and "\<forall>bs \<in> set bss. bs \<noteq> [] \<and> length bs \<le> rc_max rcv"
    and "rc_size rcv = 0" "rc_max rcv \<le> length (rc_buffer rcv)"
  shows "\<exists>rcv'. serial_bm_recv_msg (List.map Rx bss @ es) rcv buf mx =
      Inr (int (length m), es, rcv', put_at buf 0 m) \<and> rc_size rcv' = 0"
proof -
  have "empty_rcv rcv"
    using assms(6,7) by (simp add: empty_rcv_def)
  then show ?thesis
    using recv_frame [OF assms(1-4), of rcv es] assms(5) by (auto simp: empty_rcv_def)
qed

theorem serial_bm_frame_received_witness:
  "\<exists>rcv'. serial_bm_recv_msg [Rx [0x11, 0xA0], Rx [0x20, 0xAA], Rx [0xB5, 0xA5]]
      \<lparr>rc_buffer = replicate 250 0, rc_size = 0, rc_max = 250\<rparr> [0, 0, 0, 0] 4 =
    Inr (2, [], rcv', [0x20, 0xA5, 0, 0]) \<and> rc_size rcv' = 0"
proof -
  have "bm_frame [0x20, 0xA5] = [0xA0, 0x20, 0xAA, 0xB5, 0xA5]"
    by (simp add: bm_frame_def bm_escaped_def serial_bm_get_escaped_char_def bm_characters_def bm_consts)
  then show ?thesis
    using serial_bm_frame_received [of "[0x11]" "[0x20, 0xA5]" 4 "[0, 0, 0, 0]"
        "[[0x11, 0xA0], [0x20, 0xAA], [0xB5, 0xA5]]"
        "\<lparr>rc_buffer = replicate 250 0, rc_size = 0, rc_max = 250\<rparr>" "[]"]
    by (simp add: bm_consts put_at_def)
qed

section \<open>Requests\<close>

lemma length_hdr_bytes [simp]: "length (hdr_bytes h) = 6" "length (sm_bytes r) = 7"
  by (simp_all add: hdr_bytes_def sm_bytes_def)

lemma length_bm_content:
  "bl \<le> 2 \<Longrightarrow> length (fst (bm_content bl sys i req sq)) = length (rq_data req) + 7 + bl * 8"
  by (auto simp: bm_content_def Let_def)

definition request_fits :: "ipmi_intf \<Rightarrow> ipmi_rq \<Rightarrow> nat \<Rightarrow> bool" where
  "request_fits i req n \<longleftrightarrow> length (rq_data req) + 7 + ipmi_intf_get_bridging_level i * 8 \<le> n"

text \<open>The frame a request is sent as under a given sequence number.\<close>

definition request_frame :: "ipmi_intf \<Rightarrow> bool \<Rightarrow> ipmi_rq \<Rightarrow> byte \<Rightarrow> bytes" where
  "request_frame i sys req s =
     bm_frame (fst (bm_content (ipmi_intf_get_bridging_level i) sys i req (push_bit 2 s)))"

lemma send_msg_writes: "snd (serial_bm_send_msg rc msg st) = st\<lparr>bm_out := bm_out st @ [Write (bm_frame msg)]\<rparr>"
  by (simp add: serial_bm_send_msg_def length_bm_frame [symmetric])

lemma build_msg_ok:
  assumes "request_fits i req (length msg)"
  shows "\<exists>b st1. serial_bm_build_msg i req msg (length msg) st = (Some b, st1)
    \<and> bt_level b = ipmi_intf_get_bridging_level i
    \<and> bm_frame (take (bt_len b) (bt_msg b)) = request_frame i (bm_is_system st) req (alloc_seq (bm_seq st))
    \<and> length (bt_msg b) = length msg
    \<and> (ipmi_intf_get_bridging_level i = 0 \<longrightarrow> bt_ctx1 b = None \<and> bt_ctx0 b =
        ctx_of (mk_hdr IPMI_BMC_SLAVE_ADDR (netfn_lun req) IPMI_REMOTE_SWID
          (push_bit 2 (alloc_seq (bm_seq st))) (rq_cmd req)))
    \<and> st1 = st\<lparr>bm_seq := alloc_seq (bm_seq st)\<rparr>"
proof -
  define bl sq where "bl = ipmi_intf_get_bridging_level i" and "sq = push_bit 2 (alloc_seq (bm_seq st))"
  obtain m h hop where c: "bm_content bl (bm_is_system st) i req sq = (m, h, hop)"
    by (cases "bm_content bl (bm_is_system st) i req sq")
  have len: "length m \<le> length msg"
    using assms length_bm_content [of bl "bm_is_system st" i req sq] bridging_level_le [of i] c
    by (simp add: request_fits_def bl_def)
  have "bl = 0 \<Longrightarrow> hop = None \<and> h = mk_hdr IPMI_BMC_SLAVE_ADDR (netfn_lun req) IPMI_REMOTE_SWID sq (rq_cmd req)"
    using c by (auto simp: bm_content_def Let_def)
  then show ?thesis
    using assms c len take_end_put_at [of 0 msg m]
    by (auto simp: serial_bm_build_msg_def serial_bm_alloc_seq_def request_frame_def request_fits_def
        bl_def sq_def Let_def)
qed

subsection \<open>A silent device\<close>

lemma wait_silent: "serial_bm_wait_response [] c rcv msg mx = Inr (0, [], rcv, msg)"
  by (simp add: serial_bm_wait_response.simps serial_bm_recv_msg_def fresh_parse_ctx_def)

lemma attempt_silent:
  assumes "request_fits i req (length msg)" "bm_events st = []"
  shows "\<exists>msg'. length msg' = length msg \<and> bm_attempt i req st rcv msg =
    Inr (Retry, st\<lparr>bm_seq := alloc_seq (bm_seq st), bm_out := bm_out st @
      [Flush, Write (request_frame i (bm_is_system st) req (alloc_seq (bm_seq st)))]\<rparr>, rcv, msg')"
proof -
  obtain b st1 where b: "serial_bm_build_msg i req msg (length msg) st = (Some b, st1)"
    "bm_frame (take (bt_len b) (bt_msg b)) = request_frame i (bm_is_system st) req (alloc_seq (bm_seq st))"
    "length (bt_msg b) = length msg" "st1 = st\<lparr>bm_seq := alloc_seq (bm_seq st)\<rparr>"
    using build_msg_ok [OF assms(1), of st] by blast
  then show ?thesis
    using assms(2)
    by (auto simp: bm_attempt_def Let_def send_msg_writes serial_bm_flush_def wait_silent)
qed

definition silent_actions :: "ipmi_intf \<Rightarrow> bool \<Rightarrow> ipmi_rq \<Rightarrow> byte \<Rightarrow> nat \<Rightarrow> ser_action list" where
  "silent_actions i sys req s n =
     concat (List.map (\<lambda>k. [Flush, Write (request_frame i sys req ((alloc_seq ^^ Suc k) s))]) [0..<n])"

lemma silent_actions_Suc:
  "silent_actions i sys req s (Suc n) =
   [Flush, Write (request_frame i sys req (alloc_seq s))] @ silent_actions i sys req (alloc_seq s) n"
proof -
  have "[0..<Suc n] = 0 # List.map Suc [0..<n]"
    by (simp add: upt_conv_Cons map_Suc_upt del: upt_Suc)
  then show ?thesis
    by (simp add: silent_actions_def comp_def funpow_swap1 del: upt_Suc)
qed

lemma retry_loop_silent:
  assumes "request_fits i req (length msg)" "bm_events st = []"
  shows "\<exists>st'. bm_retry_loop n i req st rcv msg = Inr (None, st')
    \<and> bm_out st' = bm_out st @ silent_actions i (bm_is_system st) req (bm_seq st) n
    \<and> bm_seq st' = (alloc_seq ^^ n) (bm_seq st)"
  using assms
proof (induction n arbitrary: st msg)
  case 0
  then show ?case by (simp add: silent_actions_def)
next
  case (Suc n)
  define st1 where "st1 = st\<lparr>bm_seq := alloc_seq (bm_seq st), bm_out := bm_out st @
      [Flush, Write (request_frame i (bm_is_system st) req (alloc_seq (bm_seq st)))]\<rparr>"
  obtain msg' where "length msg' = length msg" "bm_attempt i req st rcv msg = Inr (Retry, st1, rcv, msg')"
    using attempt_silent [OF Suc.prems, of rcv] by (auto simp: st1_def)
  moreover from this obtain st' where "bm_retry_loop n i req st1 rcv msg' = Inr (None, st')"
    "bm_out st' = bm_out st1 @ silent_actions i (bm_is_system st1) req (bm_seq st1) n"
    "bm_seq st' = (alloc_seq ^^ n) (bm_seq st1)"
    using Suc.IH [of msg' st1] Suc.prems by (auto simp: st1_def)
  ultimately show ?case
    by (simp add: st1_def silent_actions_Suc funpow_swap1)
qed

text \<open>When the device never answers, a request that fits the message array is flushed and
  written exactly \<open>retry\<close> times, each time under the next sequence number, and the result is
  no response; no fault occurs whatever the arrays held before.\<close>

theorem serial_bm_silent_device:
  assumes "opened i \<or> 0 \<le> open_rc" "request_fits i req (length (bm_junk st))" "bm_events st = []"
  shows "\<exists>st'. serial_bm_send_request i open_rc rbuf req st = Inr (None, st')
    \<and> bm_out st' = bm_out st @ silent_actions i (bm_is_system st) req (bm_seq st) (nat (retry (ssn_params i)))
    \<and> bm_seq st' = (alloc_seq ^^ nat (retry (ssn_params i))) (bm_seq st)"
  using assms retry_loop_silent [of i req "bm_junk st" st "nat (retry (ssn_params i))"]
  by (auto simp: serial_bm_send_request_def)

text \<open>The sequence numbers of up to 64 successive requests are pairwise different once shifted
  into the \<open>rqSeq\<close> byte, so a late answer to an earlier attempt cannot carry the number of a
  later one.\<close>

theorem serial_bm_seq_distinct:
  assumes "unat s < 64" "j < 64" "k < 64" "j \<noteq> k"
  shows "push_bit 2 ((alloc_seq ^^ j) s) \<noteq> push_bit 2 ((alloc_seq ^^ k) s)"
proof
  assume "push_bit 2 ((alloc_seq ^^ j) s) = push_bit 2 ((alloc_seq ^^ k) s)"
  moreover have "unat ((alloc_seq ^^ n) s) < 64" for n
    using bm_counter.iterate [OF assms(1), of n] by simp
  ultimately show False
    using bm_counter.distinct_window [OF assms(1-3)] bm_counter.shifted_inject assms(4) by blast
qed

theorem serial_bm_seq_distinct_witness:
  "push_bit 2 ((alloc_seq ^^ 3) 5) \<noteq> push_bit 2 ((alloc_seq ^^ 63) 5)"
  using serial_bm_seq_distinct [of 5 3 63] by simp

subsection \<open>An answering device\<close>

text \<open>The response message a device sends to a request with the given context.\<close>

definition bm_response :: "request_ctx \<Rightarrow> byte \<Rightarrow> bytes \<Rightarrow> bytes" where
  "bm_response c cc data =
     (let h = [cx_rqSA c, swap_netFn c]; body = [cx_rsSA c, swap_rqSeq c, cx_cmd c, cc] @ data
      in h @ [ipmi_csum h 2] @ body @ [ipmi_csum body (length body)])"

lemma length_bm_response [simp]: "length (bm_response c cc data) = length data + 8"
  by (simp add: bm_response_def Let_def)

lemma csum_take: "ipmi_csum (take n d) s = ipmi_csum d (min s n)"
  by (simp add: ipmi_csum_eq min.commute)

lemma csum_drop_put: "length m = n \<Longrightarrow> n \<le> length buf \<Longrightarrow> k \<le> n \<Longrightarrow>
   ipmi_csum (drop k (put_at buf 0 m)) (n - k) = ipmi_csum (drop k m) (n - k)"
  by (simp add: ipmi_csum_eq put_at_def)

lemma bm_response_valid: "bm_response_ok c (bm_response c cc data) (length data + 8)"
  by (simp add: bm_response_ok_def bm_response_def Let_def ipmi_csum_eq eval_nat_numeral)

lemma bm_response_ok_put:
  assumes "length m \<le> length buf" "bm_response_ok c m (length m)"
  shows "bm_response_ok c (put_at buf 0 m) (length m)"
proof -
  have "8 \<le> length m"
    using assms(2) by (simp add: bm_response_ok_def)
  then have "8 \<le> length m" "m \<noteq> []"
    by auto
  then show ?thesis
    using assms csum_drop_put [of m "length m" buf 3]
    by (simp add: bm_response_ok_def ipmi_csum_eq put_at_def nth_append)
qed

lemma wait_response_frame:
  assumes "BM_START \<notin> set noise" "length data + 8 \<le> mx" "mx \<le> length buf"
    and "concat bss = noise @ bm_frame (bm_response c cc data)"
    and "\<And>bs. bs \<in> set bss \<Longrightarrow> bs \<noteq> [] \<and> length bs \<le> rc_max rcv" and "empty_rcv rcv"
  shows "\<exists>rcv' m. serial_bm_wait_response (List.map Rx bss @ es) c rcv buf mx =
      Inr (int (length data) + 1, es, rcv', m) \<and> m ! 0 = cc \<and> region m 1 (length data) = data
      \<and> length m = length buf"
proof -
  let ?r = "bm_response c cc data"
  define b where "b = put_at buf 0 ?r"
  have len: "length ?r \<le> mx" using assms(2) by simp
  obtain rcv' where recv: "serial_bm_recv_msg (List.map Rx bss @ es) rcv buf mx =
      Inr (int (length ?r), es, rcv', b)"
    using recv_frame [OF assms(1) len assms(3-6), where es = es] unfolding b_def by blast
  have ok: "bm_response_ok c b (length data + 8)"
    using bm_response_ok_put [of ?r buf c] bm_response_valid [of c cc data] assms(2,3) by (simp add: b_def)
  have w: "serial_bm_wait_response (List.map Rx bss @ es) c rcv buf mx =
      Inr (int (length data) + 1, es, rcv', move_front b 6 (Suc (length data)))"
    using ok by (simp add: serial_bm_wait_response.simps [of "List.map Rx bss @ es"] recv nat_add_distrib)
  have "region b 6 (Suc (length data)) = cc # data"
    using assms(2,3) by (simp add: b_def region_def put_at_def bm_response_def Let_def)
  then have "move_front b 6 (Suc (length data)) = put_at b 0 (cc # data)"
    by (simp add: move_front_def)
  moreover have "length b = length buf"
    using assms(2,3) by (simp add: b_def)
  ultimately show ?thesis
    using w assms(2,3) by (auto simp: put_at_def region_def)
qed

text \<open>C27: a request over an unbridged interface that the device answers is completed by the first
  attempt: the code writes the request's frame once and hands the caller exactly the completion
  code and data of the device's answer, with any noise before it and any split over reads, and
  leaves what the device sends afterwards unread.\<close>

theorem serial_bm_request_answered:
  fixes st :: bm_state
  defines "s \<equiv> alloc_seq (bm_seq st)"
  assumes "opened i \<or> 0 \<le> open_rc" "0 < retry (ssn_params i)" "ipmi_intf_get_bridging_level i = 0"
    and "length (rq_data req) + 7 \<le> length (bm_junk st)" "length data + 8 \<le> length (bm_junk st)"
    and "SERIAL_BM_MAX_BUFFER_SIZE \<le> length rbuf" "BM_START \<notin> set noise"
    and "\<forall>bs \<in> set bss. bs \<noteq> [] \<and> length bs \<le> SERIAL_BM_MAX_BUFFER_SIZE"
    and "concat bss = noise @ bm_frame (bm_response (ctx_of (mk_hdr IPMI_BMC_SLAVE_ADDR
           (netfn_lun req) IPMI_REMOTE_SWID (push_bit 2 s) (rq_cmd req))) cc data)"
    and "bm_events st = List.map Rx bss @ es"
  shows "\<exists>st'. serial_bm_send_request i open_rc rbuf req st =
      Inr (Some \<lparr>rsp_ccode = cc, rsp_data = data\<rparr>, st')
    \<and> bm_out st' = bm_out st @ [Flush, Write (request_frame i (bm_is_system st) req s)]
    \<and> bm_events st' = es \<and> bm_seq st' = s"
proof -
  let ?msg = "bm_junk st"
  define rcv where "rcv = \<lparr>rc_buffer = rbuf, rc_size = 0, rc_max = SERIAL_BM_MAX_BUFFER_SIZE\<rparr>"
  have rcv: "empty_rcv rcv" "rc_max rcv = SERIAL_BM_MAX_BUFFER_SIZE"
    using assms(7) by (simp_all add: rcv_def empty_rcv_def)
  have fits: "request_fits i req (length ?msg)"
    using assms(4,5) by (simp add: request_fits_def)
  let ?ctx = "ctx_of (mk_hdr IPMI_BMC_SLAVE_ADDR (netfn_lun req) IPMI_REMOTE_SWID (push_bit 2 s) (rq_cmd req))"
  obtain b st1 where b: "serial_bm_build_msg i req ?msg (length ?msg) st = (Some b, st1)"
    "bt_level b = 0" "length (bt_msg b) = length ?msg" "bt_ctx1 b = None" "bt_ctx0 b = ?ctx"
    "bm_frame (take (bt_len b) (bt_msg b)) = request_frame i (bm_is_system st) req s"
    "st1 = st\<lparr>bm_seq := s\<rparr>"
    using build_msg_ok [OF fits, of st] assms(4) unfolding s_def by auto
  obtain rcv' m where w: "serial_bm_wait_response (List.map Rx bss @ es) ?ctx rcv (bt_msg b) (length ?msg) =
      Inr (int (length data) + 1, es, rcv', m)" "m ! 0 = cc" "region m 1 (length data) = data"
    using wait_response_frame [of noise data "length ?msg" "bt_msg b" bss ?ctx cc rcv es] assms(6-10) b(3) rcv
    by auto
  obtain n where "nat (retry (ssn_params i)) = Suc n"
    using assms(3) by (cases "nat (retry (ssn_params i))") auto
  then show ?thesis
    using assms(2,11) b w
    by (auto simp: serial_bm_send_request_def rcv_def [symmetric] bm_attempt_def Let_def send_msg_writes
        serial_bm_flush_def bm_finish_def bm_deliver_def nat_add_distrib)
qed

definition sample_bm_state :: "ser_event list \<Rightarrow> bm_state" where
  "sample_bm_state es = \<lparr>bm_seq = 0, bm_is_system = False, bm_events = es, bm_out = [],
     bm_clocks = [], bm_junk = replicate 47 0\<rparr>"

theorem serial_bm_silent_device_witness:
  "\<exists>st'. serial_bm_send_request sample_intf 0 [] sample_rq (sample_bm_state []) = Inr (None, st')
    \<and> bm_out st' = silent_actions sample_intf False sample_rq 0 3 \<and> bm_seq st' = 3"
proof -
  have "(alloc_seq ^^ 3) 0 = 3"
    by code_simp
  then show ?thesis
    using serial_bm_silent_device [of sample_intf 0 sample_rq "sample_bm_state []" "[]"]
    by (simp add: request_fits_def sample_bm_state_def sample_rq_def)
qed

text \<open>The answer to Get Device ID from address 0x20: completion code 0 and one byte of data.\<close>

theorem serial_bm_request_answered_witness:
  "\<exists>st'. serial_bm_send_request sample_intf 0 (replicate 250 0) sample_rq
      (sample_bm_state [Rx [0xA0, 0x81, 0x1C, 0x63], Rx [0x20, 0x04, 0x01, 0x00, 0x51, 0x8A, 0xA5], PollTimeout]) =
      Inr (Some \<lparr>rsp_ccode = 0, rsp_data = [0x51]\<rparr>, st')
    \<and> bm_out st' = [Flush, Write (request_frame sample_intf False sample_rq 1)]
    \<and> bm_events st' = [PollTimeout] \<and> bm_seq st' = 1"
proof -
  let ?st = "sample_bm_state [Rx [0xA0, 0x81, 0x1C, 0x63], Rx [0x20, 0x04, 0x01, 0x00, 0x51, 0x8A, 0xA5], PollTimeout]"
  have s: "alloc_seq (bm_seq ?st) = 1"
    by (simp add: sample_bm_state_def alloc_seq_def)
  have f: "bm_frame (bm_response (ctx_of (mk_hdr IPMI_BMC_SLAVE_ADDR (netfn_lun sample_rq)
      IPMI_REMOTE_SWID (push_bit 2 1) (rq_cmd sample_rq))) 0 [0x51])
      = [0xA0, 0x81, 0x1C, 0x63, 0x20, 0x04, 0x01, 0x00, 0x51, 0x8A, 0xA5]"
    by code_simp
  show ?thesis
    using serial_bm_request_answered [of sample_intf 0 sample_rq ?st "[0x51]" "replicate 250 0" "[]"
        "[[0xA0, 0x81, 0x1C, 0x63], [0x20, 0x04, 0x01, 0x00, 0x51, 0x8A, 0xA5]]" 0 "[PollTimeout]"]
    unfolding s using f
    by (simp add: sample_bm_state_def sample_rq_def SERIAL_BM_MAX_BUFFER_SIZE_def del: upt_Suc)
qed

section \<open>What is accepted\<close>

text \<open>Whatever the device sends, a positive result of the wait means that some received message
  passed both checksums and carried the swapped addresses, network function, sequence number
  and command of the request; what the caller finds at the front of its array is that message
  from its completion code to the byte before the checksum.\<close>

theorem serial_bm_wait_sound:
  assumes "serial_bm_wait_response es c rcv msg mx = Inr (n, es', rcv', m')" "0 < n"
  shows "\<exists>es1 rcv1 msg1 m. serial_bm_recv_msg es1 rcv1 msg1 mx = Inr (n + 7, es', rcv', m)
    \<and> bm_response_ok c m (nat n + 7) \<and> m' = move_front m 6 (nat n)"
  using assms
proof (induction es c rcv msg mx rule: serial_bm_wait_response.induct)
  case (1 es c rcv msg mx)
  obtain k e r m where recv: "serial_bm_recv_msg es rcv msg mx = Inr (k, e, r, m)"
    using "1.prems" by (cases "serial_bm_recv_msg es rcv msg mx")
      (auto simp: serial_bm_wait_response.simps [of es])
  have k: "0 < k"
    using "1.prems" recv by (auto simp: serial_bm_wait_response.simps [of es] split: if_splits)
  show ?case
  proof (cases "bm_response_ok c m (nat k)")
    case True
    then have n: "n = k - 7" "e = es'" "r = rcv'" "m' = move_front m 6 (nat k - 7)"
      using "1.prems" recv k by (simp_all add: serial_bm_wait_response.simps [of es])
    have "nat n + 7 = nat k" "nat n = nat k - 7"
      using n(1) "1.prems"(2) by linarith+
    then show ?thesis
      using recv True n by auto
  next
    case False
    then show ?thesis
      using "1.IH" [OF recv] "1.prems" recv k by (simp add: serial_bm_wait_response.simps [of es])
  qed
qed

theorem serial_bm_wait_sound_witness:
  "\<exists>es1 rcv1 msg1 m. serial_bm_recv_msg es1 rcv1 msg1 16 = Inr (2 + 7, [], \<lparr>rc_buffer =
      [0xA0, 0x81, 0x1C, 0x63, 0x20, 0x04, 0x01, 0x00, 0x51, 0x8A, 0xA5], rc_size = 0, rc_max = 11\<rparr>, m)
    \<and> bm_response_ok (ctx_of (mk_hdr IPMI_BMC_SLAVE_ADDR 0x18 IPMI_REMOTE_SWID 4 1)) m (nat 2 + 7)
    \<and> [0x00, 0x51, 0x63, 0x20, 0x04, 0x01, 0x00, 0x51, 0x8A, 0, 0, 0, 0, 0, 0, 0] = move_front m 6 (nat 2)"
proof -
  have "serial_bm_wait_response [Rx [0xA0, 0x81, 0x1C, 0x63, 0x20, 0x04, 0x01, 0x00, 0x51, 0x8A, 0xA5]]
      (ctx_of (mk_hdr IPMI_BMC_SLAVE_ADDR 0x18 IPMI_REMOTE_SWID 4 1))
      \<lparr>rc_buffer = replicate 11 0, rc_size = 0, rc_max = 11\<rparr> (replicate 16 0) 16 =
    Inr (2, [], \<lparr>rc_buffer = [0xA0, 0x81, 0x1C, 0x63, 0x20, 0x04, 0x01, 0x00, 0x51, 0x8A, 0xA5],
      rc_size = 0, rc_max = 11\<rparr>,
      [0x00, 0x51, 0x63, 0x20, 0x04, 0x01, 0x00, 0x51, 0x8A, 0, 0, 0, 0, 0, 0, 0])"
    by code_simp
  then show ?thesis
    by (rule serial_bm_wait_sound) simp
qed

section \<open>Faults\<close>

text \<open>A request too long for the message array is not reported: building it fails without
  assigning the length, and the code goes on to read the indeterminate length.\<close>

theorem serial_bm_too_long_indeterminate:
  assumes "opened i \<or> 0 \<le> open_rc" "0 < retry (ssn_params i)" "\<not> request_fits i req (length (bm_junk st))"
  shows "serial_bm_send_request i open_rc rbuf req st = Inl Indeterminate"
proof -
  obtain n where "nat (retry (ssn_params i)) = Suc n"
    using assms(2) by (cases "nat (retry (ssn_params i))") auto
  then show ?thesis
    using assms by (auto simp: serial_bm_send_request_def bm_attempt_def serial_bm_build_msg_def
        request_fits_def)
qed

theorem serial_bm_too_long_indeterminate_witness:
  "serial_bm_send_request sample_intf 0 [] (sample_rq\<lparr>rq_data := replicate 41 0\<rparr>) (sample_bm_state [])
    = Inl Indeterminate"
  by (rule serial_bm_too_long_indeterminate)
    (simp_all add: request_fits_def sample_bm_state_def sample_rq_def)



end
