(* ===== verification/SerialTermProps.thy ===== *)
theory SerialTermProps
  imports SerialTerm SerialBasicProps
begin

text \<open>
  The properties of the Terminal Mode transport: lines of a device are read back whatever stands before them,
  a request gets its answer, requests that are bridged carry valid messages, and what becomes of a line that
  fills the buffer and of an error the device reports.
\<close>

section \<open>Bridged requests\<close>

text \<open>Behind the header of three bytes and the channel stand the message for the next hop, and in it that for the last one.\<close>

lemma term_content_layers:
  "bl \<noteq> 0 \<Longrightarrow> bl \<noteq> 2 \<Longrightarrow> fst (term_content bl sys i req sq) =
    (let inner = (if sys then bm_system_rq (bm_inner_rq i req sq) else bm_inner_rq i req sq)
     in [0x18, sq, 0x34, sm_channel inner] @ core_msg (sm_msg inner) (rq_data req))"
  "fst (term_content 2 sys i req sq) =
    (let inner = bm_inner_rq i req sq; outer = (if sys then bm_system_rq (bm_outer_rq i sq) else bm_outer_rq i sq)
     in [0x18, sq, 0x34, sm_channel outer] @ wrap_msg (sm_msg outer) (sm_channel inner) (core_msg (sm_msg inner) (rq_data req)))"
proof -
  have seven: "drop 7 (a # b # c # sm_bytes r @ xs) = h_rqSA (sm_msg r) # h_rqSeq (sm_msg r) # h_cmd (sm_msg r) # xs"
    and fourteen: "drop 14 (a # b # c # sm_bytes r @ sm_bytes q @ xs) = h_rqSA (sm_msg q) # h_rqSeq (sm_msg q) # h_cmd (sm_msg q) # xs"
    for a b c r q and xs :: bytes
    by (simp_all add: sm_bytes_def hdr_bytes_def)
  have three: "drop 3 (hdr_bytes g) = [h_rqSA g, h_rqSeq g, h_cmd g]" for g
    by (simp add: hdr_bytes_def)
  have four: "ipmi_csum (h_rqSA g # h_rqSeq g # h_cmd g # sm_bytes r @ xs) 4 = tail_csum g [sm_channel r]" for g r xs
    by (simp add: sm_bytes_def csum_four)
  show "bl \<noteq> 0 \<Longrightarrow> bl \<noteq> 2 \<Longrightarrow> fst (term_content bl sys i req sq) =
    (let inner = (if sys then bm_system_rq (bm_inner_rq i req sq) else bm_inner_rq i req sq)
     in [0x18, sq, 0x34, sm_channel inner] @ core_msg (sm_msg inner) (rq_data req))"
    by (simp add: term_content_def Let_def seven drop_hdrs(1) csum_tail core_msg_def sm_bytes_def [of "bm_inner_rq i req sq"]
        sm_bytes_def [of "bm_system_rq (bm_inner_rq i req sq)"] del: drop_append)
  show "fst (term_content 2 sys i req sq) =
    (let inner = bm_inner_rq i req sq; outer = (if sys then bm_system_rq (bm_outer_rq i sq) else bm_outer_rq i sq)
     in [0x18, sq, 0x34, sm_channel outer] @ wrap_msg (sm_msg outer) (sm_channel inner) (core_msg (sm_msg inner) (rq_data req)))"
    unfolding term_content_def Let_def
    by (simp add: seven fourteen csum_tail four del: drop_append) (simp add: wrap_msg_def core_msg_def sm_bytes_def three csum_tail csum_four)
qed

lemma serial_term_bridged_valid:
  assumes "term_content bl sys i req sq = (m, ctx, hop)" "bl \<noteq> 0"
  shows "ipmb_valid (drop 4 m) \<and> (bl = 2 \<longrightarrow> ipmb_valid (ipmb_unwrap (drop 4 m)))"
proof -
  have "m = fst (term_content bl sys i req sq)"
    using assms by simp
  then show ?thesis
    using assms(2) by (cases "bl = 2") (simp_all add: term_content_layers valid_core valid_wrap Let_def)
qed

section \<open>Reading lines\<close>

lemma term_line_whole:
  "\<forall>c \<in> set s. \<not> term_eol c \<Longrightarrow> term_eol e \<Longrightarrow> length s < n \<Longrightarrow>
   term_line n (List.map Some (s @ [e]) @ es) = (Some (s @ [e]), es)"
proof (induction s arbitrary: n)
  case Nil
  then show ?case by (cases n) simp_all
next
  case (Cons c s)
  then show ?case by (cases n) simp_all
qed

lemma term_collect_line:
  assumes "\<forall>c \<in> set l. \<not> term_eol c" "term_eol e" "length acc + length l < 768"
  shows "term_collect acc (List.map Some (l @ [e]) @ es) =
    (let a = acc @ l in if a \<noteq> [] \<and> last a = CHR '']'' then Inr (Some a, es) else term_collect (a @ [e]) es)"
proof -
  have line: "serial_read_line (IPMI_SERIAL_MAX_RESPONSE * 3 - length acc) (List.map Some (l @ [e]) @ es) = Inr (Some (l @ [e]), es)"
    using assms term_line_whole [of l e "768 - length acc" es] by (simp add: serial_read_line_def IPMI_SERIAL_MAX_RESPONSE_def)
  define a where "a = acc @ l"
  define b where "b = acc @ l @ [e]"
  have b: "b = a @ [e]"
    by (simp add: a_def b_def)
  have "(2 \<le> length b \<and> b ! (length b - 2) = CHR '']'' \<and> term_eol (b ! (length b - 1))) \<longleftrightarrow> a \<noteq> [] \<and> last a = CHR '']''"
    using assms(2) by (cases "a = []") (auto simp: b nth_append last_conv_nth Suc_le_eq)
  moreover have "take (length b - 1) b = a"
    by (simp add: b)
  ultimately show ?thesis
    unfolding term_collect.simps [of acc] line a_def [symmetric] Let_def
    by (simp add: b_def [symmetric]) (simp add: b)
qed

text \<open>Text without a closing bracket is passed over, line by line.\<close>

lemma term_collect_noise:
  assumes "CHR '']'' \<notin> set acc" "CHR '']'' \<notin> set noise" "term_eol e" "length acc + length noise < 768"
  shows "term_collect acc (List.map Some (noise @ [e]) @ es) = term_collect (acc @ noise @ [e]) es"
  using assms
proof (induction noise arbitrary: acc rule: length_induct)
  case (1 noise)
  show ?case
  proof (cases "\<exists>c \<in> set noise. term_eol c")
    case False
    then have "\<not> (acc @ noise \<noteq> [] \<and> last (acc @ noise) = CHR '']'')"
      using 1(2,3) last_in_set [of "acc @ noise"] by fastforce
    then show ?thesis
      using False 1(4,5) term_collect_line [of noise e acc es] by (auto simp: Let_def)
  next
    case True
    then obtain l x r where n: "noise = l @ x # r" "term_eol x" "\<forall>c \<in> set l. \<not> term_eol c"
      by (auto dest!: split_list_first_prop)
    then have "\<not> (acc @ l \<noteq> [] \<and> last (acc @ l) = CHR '']'')"
      using 1(2,3) last_in_set [of "acc @ l"] by fastforce
    then have "term_collect acc (List.map Some (noise @ [e]) @ es) = term_collect (acc @ l @ [x]) (List.map Some (r @ [e]) @ es)"
      using n 1(5) term_collect_line [of l x acc "List.map Some (r @ [e]) @ es"] by (auto simp: Let_def)
    also have "\<dots> = term_collect ((acc @ l @ [x]) @ r @ [e]) es"
      using 1(2-5) n by (intro 1(1) [rule_format]) (auto simp: term_eol_def)
    finally show ?thesis
      by (simp add: n)
  qed
qed

lemma term_collect_frame:
  assumes "CHR '']'' \<notin> set noise" "\<forall>c \<in> set f. \<not> term_eol c" "term_eol e" "length noise + length f + 1 < 768"
  shows "term_collect [] (List.map Some (noise @ f @ [CHR '']'', e]) @ es) = Inr (Some (noise @ f @ '']''), es)"
proof -
  have nb: "\<not> term_eol (CHR '']'')"
    by (simp add: term_eol_def)
  show ?thesis
  proof (cases "\<exists>c \<in> set noise. term_eol c")
    case False
    then show ?thesis
      using assms(2-4) nb term_collect_line [of "noise @ f @ '']''" e "[]" es] by (auto simp: Let_def)
  next
    case True
    then obtain l x r where n: "noise = l @ x # r" "term_eol x" "\<forall>c \<in> set r. \<not> term_eol c"
      by (auto dest!: split_list_last_prop)
    have "term_collect [] (List.map Some (l @ [x]) @ List.map Some (r @ f @ [CHR '']'', e]) @ es) =
        term_collect (l @ [x]) (List.map Some ((r @ f @ '']'') @ [e]) @ es)"
      using assms(1,4) n(1,2) by (subst term_collect_noise) auto
    also have "\<dots> = Inr (Some (noise @ f @ '']''), es)"
      using assms(2-4) n nb by (subst term_collect_line) (auto simp: Let_def)
    finally show ?thesis
      by (simp add: n)
  qed
qed

section \<open>The text of a response\<close>

definition hex_text :: "bytes \<Rightarrow> string" where
  "hex_text d = concat (List.map hex_byte d)"

lemma hex_text_digits: "c \<in> set (hex_text d) \<Longrightarrow> isxdigit c"
proof -
  have "unat x div 16 < 16" for x :: byte
    using unat_byte_less [of x] by simp
  then show "c \<in> set (hex_text d) \<Longrightarrow> isxdigit c"
    by (auto simp: hex_text_def hex_byte_def hex_digit_props(1))
qed

lemma isxdigit_plain: "isxdigit c \<Longrightarrow> \<not> term_eol c \<and> c \<noteq> CHR ''['' \<and> c \<noteq> CHR '']'' \<and> c \<noteq> CHR 0x00 \<and> c \<noteq> CHR ''R''"
  by (auto simp: isxdigit_def term_eol_def)

lemma length_hex_text [simp]: "length (hex_text d) = 2 * length d"
  by (induction d) (simp_all add: hex_text_def)

lemma term_body_frame:
  assumes "CHR 0x00 \<notin> set (noise @ b)" "CHR ''['' \<notin> set b" "CHR '']'' \<notin> set b"
  shows "term_body (noise @ ''['' @ b @ '']'') = Some b"
proof -
  have "c_string (noise @ ''['' @ b @ '']'') = noise @ ''['' @ b @ '']''"
    using assms(1) by (auto simp: c_string_def takeWhile_eq_all_conv)
  moreover have "takeWhile (\<lambda>c. c \<noteq> CHR ''['') (rev (noise @ ''['' @ b @ '']'')) = rev (b @ '']'')"
    using assms(2) by (simp add: takeWhile_append takeWhile_eq_all_conv)
  moreover have "takeWhile (\<lambda>c. c \<noteq> CHR '']'') (b @ '']'') = b"
    using assms(3) by (simp add: takeWhile_append takeWhile_eq_all_conv)
  ultimately show ?thesis
    by (simp add: term_body_def Let_def)
qed

lemma term_parse_hex:
  "i + length d \<le> len \<Longrightarrow> len \<le> length data \<Longrightarrow>
   term_parse len (hex_text d) None data i = (int (i + length d), put_at data i d)"
proof (induction d arbitrary: data i)
  case Nil
  then show ?case by (simp add: hex_text_def)
next
  case (Cons b d)
  have "term_parse len (hex_text (b # d)) None data i = term_parse len (hex_text d) None (data[i := b]) (i + 1)"
    using Cons.prems unat_byte_less [of b] by (simp add: hex_text_def hex_byte_def hex_digit_props hex_nibbles)
  also have "\<dots> = (int (i + 1 + length d), put_at (data[i := b]) (i + 1) d)"
    using Cons.prems by (intro Cons.IH) simp_all
  also have "put_at (data[i := b]) (i + 1) d = put_at data i (b # d)"
    using Cons.prems put_at_put_at [of i data "[b]" d] by (simp add: list_update_eq_put_at)
  finally show ?case
    by simp
qed

text \<open>A line of the device: what stands before it, the message, and the end of the line.\<close>

definition term_sent :: "string \<times> bytes \<times> char \<Rightarrow> string" where
  "term_sent = (\<lambda>(noise, d, e). noise @ ''['' @ hex_text d @ '']'' @ [e])"

definition term_readable :: "string \<times> bytes \<times> char \<Rightarrow> bool" where
  "term_readable = (\<lambda>(noise, d, e). CHR '']'' \<notin> set noise \<and> CHR 0x00 \<notin> set noise \<and> term_eol e
     \<and> length d \<le> 256 \<and> length noise + 2 * length d + 2 < 768)"

lemma recv_response_body:
  assumes "CHR '']'' \<notin> set noise" "CHR 0x00 \<notin> set (noise @ b)" "CHR ''['' \<notin> set b" "CHR '']'' \<notin> set b"
    and "\<forall>c \<in> set b. \<not> term_eol c" "term_eol e" "length noise + length b + 2 < 768"
    and "tm_in st = List.map Some (noise @ ''['' @ b @ [CHR '']'', e]) @ es"
  shows "recv_response data len st = Inr (if b = ''ERR '' then
      (0, data, term_do [TermWrite (replicate 4 (CHR 0x0D)), TermSleep, TermFlush] (st\<lparr>tm_in := es\<rparr>))
    else (case term_parse len b None data 0 of (n, d) \<Rightarrow> (n, d, st\<lparr>tm_in := es\<rparr>)))"
proof -
  have "term_collect [] (tm_in st) = Inr (Some (noise @ ''['' @ b @ '']''), es)"
    using assms(1,5-8) term_collect_frame [of noise "CHR ''['' # b" e es] by (simp add: term_eol_def)
  then show ?thesis
    using term_body_frame [OF assms(2-4)] by (simp add: recv_response_def Let_def)
qed

lemma recv_response_sent:
  assumes "term_readable f" "f = (noise, d, e)" "length data = 256" "tm_in st = List.map Some (term_sent f) @ es"
  shows "recv_response data 256 st = Inr (int (length d), put_at data 0 d, st\<lparr>tm_in := es\<rparr>)"
proof -
  have h: "isxdigit c" if "c \<in> set (hex_text d)" for c
    using that by (rule hex_text_digits)
  have "hex_text d \<noteq> ''ERR ''"
    using h [of "CHR ''R''"] isxdigit_plain by fastforce
  then show ?thesis
    using assms h isxdigit_plain recv_response_body [of noise "hex_text d" e st es data 256] term_parse_hex [of 0 d 256 data]
    by (auto simp: term_readable_def term_sent_def)
qed

section \<open>Waiting for an answer\<close>

lemma term_answers_put:
  assumes "length d \<le> length msg"
  shows "term_answers c (put_at msg 0 d) (int (length d)) = term_answers c d (int (length d))"
  using assms by (auto simp: term_answers_def put_at_def nth_append)

lemma term_wait_answered:
  assumes "\<forall>f \<in> set fs. term_readable f \<and> fst (snd f) \<noteq> [] \<and> \<not> term_answers c (fst (snd f)) (int (length (fst (snd f))))"
    and "term_readable (noise, h @ b, e)" "length h = 3" "b \<noteq> []" "term_answers c (h @ b) (int (length (h @ b)))"
    and "length msg = 256" "tm_in st = List.map Some (concat (List.map term_sent (fs @ [(noise, h @ b, e)]))) @ es"
  shows "\<exists>m. serial_term_wait_response c msg st = Inr (int (length b), m, st\<lparr>tm_in := es\<rparr>)
    \<and> length m = 256 \<and> take (length b) m = b"
  using assms(1,6,7)
proof (induction fs arbitrary: msg st)
  case Nil
  have fit: "length (h @ b) \<le> 256"
    using assms(2) by (simp add: term_readable_def)
  have "recv_response msg (length msg) st = Inr (int (length (h @ b)), put_at msg 0 (h @ b), st\<lparr>tm_in := es\<rparr>)"
    using Nil assms(2) recv_response_sent [of "(noise, h @ b, e)" noise "h @ b" e msg st es] by simp
  moreover have "take (length b) (move_front (put_at msg 0 (h @ b)) 3 (length b)) = b"
    using fit assms(3) Nil(2) by (simp add: move_front_def put_at_def region_def)
  ultimately show ?case
    using fit assms(3-5) Nil(2) term_answers_put [of "h @ b" msg c]
    by (simp add: serial_term_wait_response.simps [of c msg st] nat_add_distrib)
next
  case (Cons f fs)
  obtain nz d e' where f: "f = (nz, d, e')"
    by (cases f)
  let ?rest = "List.map Some (concat (List.map term_sent (fs @ [(noise, h @ b, e)]))) @ es"
  have fit: "length d \<le> 256"
    using Cons.prems(1) f by (simp add: term_readable_def)
  have "recv_response msg (length msg) st = Inr (int (length d), put_at msg 0 d, st\<lparr>tm_in := ?rest\<rparr>)"
    using Cons.prems f recv_response_sent [of f nz d e' msg st ?rest] by simp
  moreover have "\<exists>m. serial_term_wait_response c (put_at msg 0 d) (st\<lparr>tm_in := ?rest\<rparr>) = Inr (int (length b), m, st\<lparr>tm_in := es\<rparr>)
    \<and> length m = 256 \<and> take (length b) m = b"
    using Cons.IH [of "put_at msg 0 d" "st\<lparr>tm_in := ?rest\<rparr>"] Cons.prems(1,2) fit by simp
  ultimately show ?case
    using Cons.prems(1,2) f fit term_answers_put [of d msg c]
    by (simp add: serial_term_wait_response.simps [of c msg st])
qed

section \<open>A request\<close>

text \<open>The context of a request that is not bridged.\<close>

definition term_plain_ctx :: "ipmi_rq \<Rightarrow> byte \<Rightarrow> term_ctx" where
  "term_plain_ctx req sq = \<lparr>tc_netFn = netfn_lun req, tc_sa = 0, tc_seq = push_bit 2 sq, tc_cmd = rq_cmd req\<rparr>"

text \<open>C28: a request over an unbridged interface is written once, as a line of hexadecimal text, and gets the completion code
  and exactly the data of the first line of the device that answers it, whatever other lines and text come before;
  what the device sends afterwards stays unread.\<close>

theorem serial_term_request_answered:
  assumes "opened i" "0 < retry (ssn_params i)" "ipmi_intf_get_bridging_level i = 0"
    and "length (tm_junk st) = 256" "length (rq_data req) \<le> 253" "s = alloc_seq (tm_seq st)" "c = term_plain_ctx req s"
    and "\<forall>f \<in> set fs. term_readable f \<and> fst (snd f) \<noteq> [] \<and> \<not> term_answers c (fst (snd f)) (int (length (fst (snd f))))"
    and "term_readable (noise, [nf, q, cm, cc] @ data, e)" "nf = netfn_lun req OR 4" "q AND NOT 3 = push_bit 2 s" "cm = rq_cmd req"
    and "tm_in st = List.map Some (concat (List.map term_sent (fs @ [(noise, [nf, q, cm, cc] @ data, e)]))) @ es"
  shows "\<exists>st'. ipmi_serial_term_send_cmd file dev req (i, st) = Inr (Some \<lparr>rsp_ccode = cc, rsp_data = data\<rparr>, i, st')
    \<and> tm_out st' = tm_out st @ [TermFlush, TermWrite (term_frame ([netfn_lun req, push_bit 2 s, rq_cmd req] @ rq_data req))]
    \<and> tm_in st' = es \<and> tm_seq st' = s"
proof -
  let ?m = "[netfn_lun req, push_bit 2 s, rq_cmd req] @ rq_data req"
  let ?st = "serial_term_send_msg ?m (serial_flush (st\<lparr>tm_seq := s\<rparr>))"
  have built: "serial_term_build_msg i req (length (tm_junk st)) st = (Some (0, ?m, c, None), st\<lparr>tm_seq := s\<rparr>)"
    using assms(3-7) by (simp add: serial_term_build_msg_def serial_term_alloc_seq_def term_content_def term_plain_ctx_def Let_def)
  have ans: "term_answers c ([nf, q, cm] @ cc # data) (int (length ([nf, q, cm] @ cc # data)))"
    using assms(7,10-12) by (simp add: term_answers_def term_plain_ctx_def)
  have "\<exists>m. serial_term_wait_response c (put_at (tm_junk st) 0 ?m) ?st = Inr (int (length (cc # data)), m, ?st\<lparr>tm_in := es\<rparr>)
    \<and> length m = 256 \<and> take (length (cc # data)) m = cc # data"
    using assms(4,5,8,9,13) ans
    by (intro term_wait_answered [of fs c noise "[nf, q, cm]" "cc # data" e]) (simp_all add: serial_term_send_msg_def serial_flush_def term_do_def)
  then obtain m where w: "serial_term_wait_response c (put_at (tm_junk st) 0 ?m) ?st = Inr (int (length (cc # data)), m, ?st\<lparr>tm_in := es\<rparr>)"
    "length m = 256" "take (length (cc # data)) m = cc # data"
    by blast
  have "m ! 0 = cc" "region m 1 (length data) = data"
    using w(3) by (cases m; simp add: region_def)+
  then have "term_attempt i req (tm_junk st) st = Inr (Response \<lparr>rsp_ccode = cc, rsp_data = data\<rparr>, m, ?st\<lparr>tm_in := es\<rparr>)"
    using w(1) by (simp add: term_attempt_def built bm_finish_def bm_deliver_def nat_add_distrib)
  moreover obtain n where "nat (retry (ssn_params i)) = Suc n"
    using assms(2) by (cases "nat (retry (ssn_params i))") auto
  ultimately show ?thesis
    using assms(1) by (simp add: ipmi_serial_term_send_cmd_def serial_term_send_msg_def serial_flush_def term_do_def)
qed

definition sample_term_state :: "string \<Rightarrow> term_state" where
  "sample_term_state input = \<lparr>tm_seq = 63, tm_is_system = False, tm_in = List.map Some input, tm_out = [], tm_clocks = [],
     tm_junk = replicate 256 0\<rparr>"

text \<open>Get Device ID with an echo of the request before the answer.\<close>

theorem serial_term_request_answered_witness:
  "\<exists>st'. ipmi_serial_term_send_cmd (\<lambda>_. 3) None sample_rq (sample_intf,
      sample_term_state (''[180001]'' @ [CHR 0x0D, CHR 0x0A] @ ''[1c00010051]'' @ [CHR 0x0D, CHR 0x0A])) =
      Inr (Some \<lparr>rsp_ccode = 0, rsp_data = [0x51]\<rparr>, sample_intf, st')
    \<and> tm_out st' = [TermFlush, TermWrite (''[180001]'' @ [CHR 0x0D, CHR 0x0A])] \<and> tm_in st' = [Some (CHR 0x0A)] \<and> tm_seq st' = 0"
proof -
  define st where "st = sample_term_state (''[180001]'' @ [CHR 0x0D, CHR 0x0A] @ ''[1c00010051]'' @ [CHR 0x0D, CHR 0x0A])"
  define fs where "fs = [([] :: string, [0x18, 0, 1] :: bytes, CHR 0x0D)]"
  have nf: "netfn_lun sample_rq = 0x18" "rq_cmd sample_rq = 1" "rq_data sample_rq = []"
    by (simp_all add: netfn_lun_def sample_rq_def)
  have hex: "hex_text [0x18, 0, 1] = ''180001''" "hex_text [0x1C, 0, 1, 0, 0x51] = ''1c00010051''"
    by (simp_all add: hex_text_def hex_byte_def hex_digit_def)
  have input: "tm_in st = List.map Some (concat (List.map term_sent (fs @ [([CHR 0x0A], [0x1C, 0, 1, 0] @ [0x51], CHR 0x0D)]))) @ [Some (CHR 0x0A)]"
    by (simp add: st_def fs_def sample_term_state_def term_sent_def hex)
  have frame: "term_frame [0x18, 0, 1] = ''[180001]'' @ [CHR 0x0D, CHR 0x0A]"
    using hex by (simp add: term_frame_def hex_text_def)
  have fs: "\<forall>f \<in> set fs. term_readable f \<and> fst (snd f) \<noteq> [] \<and> \<not> term_answers (term_plain_ctx sample_rq 0) (fst (snd f)) (int (length (fst (snd f))))"
    by (simp add: fs_def term_readable_def term_eol_def term_answers_def)
  have ans: "term_readable ([CHR 0x0A], [0x1C, 0, 1, 0] @ [0x51], CHR 0x0D)"
    by (simp add: term_readable_def term_eol_def)
  have st: "length (tm_junk st) = 256" "0 = alloc_seq (tm_seq st)" "tm_out st = []"
    by (simp_all add: st_def sample_term_state_def alloc_seq_def)
  show ?thesis
    using serial_term_request_answered [OF _ _ _ st(1) _ st(2) refl fs ans _ _ _ input, of sample_intf "\<lambda>_. 3" None]
    unfolding st_def [symmetric] by (simp add: nf frame st(3))
qed

section \<open>Lines the code does not expect\<close>

text \<open>C33: the code is meant to clear the line of a device that reports an error, \<open>[ERR xx]\<close>, and to send the request
  again; it compares the whole text with the one of an error without a code, so that only this one is recognised. A report with
  a code is an invalid response, after which nothing is written.\<close>

theorem serial_term_error_unrecognised:
  assumes "CHR 0x00 \<notin> set code" "CHR ''['' \<notin> set code" "CHR '']'' \<notin> set code" "\<forall>c \<in> set code. \<not> term_eol c" "term_eol e"
    and "length code < 700" "0 < len" "tm_in st = List.map Some (''[ERR '' @ code @ [CHR '']'', e]) @ es"
  shows "recv_response data len st = Inr (if code = [] then
      (0, data, term_do [TermWrite (replicate 4 (CHR 0x0D)), TermSleep, TermFlush] (st\<lparr>tm_in := es\<rparr>))
    else (-1, data, st\<lparr>tm_in := es\<rparr>))"
proof -
  have "term_parse len (''ERR '' @ code) None data 0 = (-1, data)"
    using assms(7) by (simp add: isxdigit_def)
  then show ?thesis
    using assms recv_response_body [of "[]" "''ERR '' @ code" e st es data len] by (auto simp: term_eol_def)
qed

theorem serial_term_error_unrecognised_witness:
  "recv_response [] 256 (sample_term_state (''[ERR C0]'' @ [CHR 0x0D])) = Inr (-1, [], sample_term_state [])
    \<and> recv_response [] 256 (sample_term_state (''[ERR ]'' @ [CHR 0x0D])) =
        Inr (0, [], term_do [TermWrite (replicate 4 (CHR 0x0D)), TermSleep, TermFlush] (sample_term_state []))"
  using serial_term_error_unrecognised [of "''C0''" "CHR 0x0D" 256 "sample_term_state (''[ERR C0]'' @ [CHR 0x0D])" "[]" "[]"]
    serial_term_error_unrecognised [of "[]" "CHR 0x0D" 256 "sample_term_state (''[ERR ]'' @ [CHR 0x0D])" "[]" "[]"]
  by (simp add: sample_term_state_def term_eol_def)

text \<open>C34: text without a closing bracket whose last line ends exactly with the buffer makes the next call of
  \<open>serial_read_line\<close> clear the character behind it, whatever the device sends then, and so does the command.\<close>

theorem serial_term_full_buffer:
  assumes "CHR '']'' \<notin> set tx" "length tx = 767" "term_eol e" "tm_in st = List.map Some (tx @ [e]) @ es"
  shows "recv_response data len st = Inl OutOfBounds \<and> serial_term_wait_response c data st = Inl OutOfBounds"
proof -
  have "term_collect [] (tm_in st) = term_collect (tx @ [e]) es"
    using assms term_collect_noise [of "[]" tx e es] by simp
  also have "\<dots> = Inl OutOfBounds"
    using assms(2) by (simp add: term_collect.simps [of "tx @ [e]"] serial_read_line_def IPMI_SERIAL_MAX_RESPONSE_def)
  finally have "recv_response data l st = Inl OutOfBounds" for l
    by (simp add: recv_response_def)
  then show ?thesis
    by (simp add: serial_term_wait_response.simps [of c data st])
qed

theorem serial_term_full_buffer_witness:
  "recv_response [] 256 (sample_term_state (replicate 767 (CHR ''x'') @ [CHR 0x0A])) = Inl OutOfBounds"
  using serial_term_full_buffer [of "replicate 767 (CHR ''x'')" "CHR 0x0A"
      "sample_term_state (replicate 767 (CHR ''x'') @ [CHR 0x0A])" "[]" "[]" 256 "term_plain_ctx sample_rq 0"]
  by (simp add: sample_term_state_def term_eol_def)

end
