(* ===== verification/LanplusTypes.thy ===== *)
theory LanplusTypes
  imports Ipmi
begin

text \<open>
  The data of the RMCP+ transport: the algorithm numbers of \<open>ipmi_constants.h\<close>, the sizes and
  offsets of \<open>lanplus.h\<close>, the session state (\<open>struct ipmi_session\<close> of \<open>ipmi_intf.h\<close>) and the
  response structure (\<open>struct ipmi_rs\<close> of \<open>ipmi.h\<close>).
\<close>

section \<open>Constants\<close>

definition IPMI_AUTH_RAKP_NONE :: byte where "IPMI_AUTH_RAKP_NONE = 0"
definition IPMI_AUTH_RAKP_HMAC_SHA1 :: byte where "IPMI_AUTH_RAKP_HMAC_SHA1 = 1"
definition IPMI_AUTH_RAKP_HMAC_MD5 :: byte where "IPMI_AUTH_RAKP_HMAC_MD5 = 2"
definition IPMI_AUTH_RAKP_HMAC_SHA256 :: byte where "IPMI_AUTH_RAKP_HMAC_SHA256 = 3"
definition IPMI_INTEGRITY_NONE :: byte where "IPMI_INTEGRITY_NONE = 0"
definition IPMI_INTEGRITY_HMAC_SHA1_96 :: byte where "IPMI_INTEGRITY_HMAC_SHA1_96 = 1"
definition IPMI_INTEGRITY_HMAC_MD5_128 :: byte where "IPMI_INTEGRITY_HMAC_MD5_128 = 2"
definition IPMI_INTEGRITY_MD5_128 :: byte where "IPMI_INTEGRITY_MD5_128 = 3"
definition IPMI_INTEGRITY_HMAC_SHA256_128 :: byte where "IPMI_INTEGRITY_HMAC_SHA256_128 = 4"
definition IPMI_CRYPT_NONE :: byte where "IPMI_CRYPT_NONE = 0"
definition IPMI_CRYPT_AES_CBC_128 :: byte where "IPMI_CRYPT_AES_CBC_128 = 1"
definition IPMI_CRYPT_XRC4_128 :: byte where "IPMI_CRYPT_XRC4_128 = 2"
definition IPMI_CRYPT_XRC4_40 :: byte where "IPMI_CRYPT_XRC4_40 = 3"

lemmas alg_defs = IPMI_AUTH_RAKP_NONE_def IPMI_AUTH_RAKP_HMAC_SHA1_def IPMI_AUTH_RAKP_HMAC_MD5_def
  IPMI_AUTH_RAKP_HMAC_SHA256_def IPMI_INTEGRITY_NONE_def IPMI_INTEGRITY_HMAC_SHA1_96_def
  IPMI_INTEGRITY_HMAC_MD5_128_def IPMI_INTEGRITY_MD5_128_def IPMI_INTEGRITY_HMAC_SHA256_128_def
  IPMI_CRYPT_NONE_def IPMI_CRYPT_AES_CBC_128_def IPMI_CRYPT_XRC4_128_def IPMI_CRYPT_XRC4_40_def

definition IPMI_SHA1_AUTHCODE_SIZE :: nat where "IPMI_SHA1_AUTHCODE_SIZE = 12"
definition IPMI_HMAC_MD5_AUTHCODE_SIZE :: nat where "IPMI_HMAC_MD5_AUTHCODE_SIZE = 16"
definition IPMI_HMAC_SHA256_AUTHCODE_SIZE :: nat where "IPMI_HMAC_SHA256_AUTHCODE_SIZE = 16"
definition IPMI_SHA_DIGEST_LENGTH :: nat where "IPMI_SHA_DIGEST_LENGTH = 20"
definition IPMI_MD5_DIGEST_LENGTH :: nat where "IPMI_MD5_DIGEST_LENGTH = 16"
definition IPMI_SHA256_DIGEST_LENGTH :: nat where "IPMI_SHA256_DIGEST_LENGTH = 32"
definition IPMI_LANPLUS_OFFSET_AUTHTYPE :: nat where "IPMI_LANPLUS_OFFSET_AUTHTYPE = 4"
definition IPMI_SESSION_AUTHTYPE_RMCP_PLUS :: byte where "IPMI_SESSION_AUTHTYPE_RMCP_PLUS = 6"
definition IPMI_MAX_PAYLOAD_SIZE :: nat where "IPMI_MAX_PAYLOAD_SIZE = 65535"

lemmas size_defs = IPMI_SHA1_AUTHCODE_SIZE_def IPMI_HMAC_MD5_AUTHCODE_SIZE_def
  IPMI_HMAC_SHA256_AUTHCODE_SIZE_def IPMI_SHA_DIGEST_LENGTH_def IPMI_MD5_DIGEST_LENGTH_def
  IPMI_SHA256_DIGEST_LENGTH_def IPMI_LANPLUS_OFFSET_AUTHTYPE_def

section \<open>The session\<close>

datatype LANPLUS_SESSION_STATE = LANPLUS_STATE_PRESESSION | LANPLUS_STATE_OPEN_SESSION_SENT
  | LANPLUS_STATE_OPEN_SESSION_RECEIEVED | LANPLUS_STATE_RAKP_1_SENT | LANPLUS_STATE_RAKP_2_RECEIVED
  | LANPLUS_STATE_RAKP_3_SENT | LANPLUS_STATE_ACTIVE | LANPLUS_STATE_CLOSE_SENT

text \<open>\<open>struct ipmi_session\<close> with its \<open>v2_data\<close> and \<open>sol_data\<close>; key buffers keep their full length.\<close>

record ipmi_session =
  out_seq :: u32
  authcode :: bytes
  ssn_timeout :: u32
  session_state :: LANPLUS_SESSION_STATE
  requested_auth_alg :: byte
  requested_integrity_alg :: byte
  requested_crypt_alg :: byte
  auth_alg :: byte
  integrity_alg :: byte
  crypt_alg :: byte
  max_priv_level :: byte
  console_id :: u32
  bmc_id :: u32
  console_rand :: bytes
  bmc_rand :: bytes
  bmc_guid :: bytes
  requested_role :: byte
  rakp2_return_code :: byte
  sik :: bytes
  sik_len :: nat
  k1 :: bytes
  k1_len :: nat
  k2 :: bytes
  k2_len :: nat
  sol_sequence_number :: byte

section \<open>Responses\<close>

definition IPMI_BUF_SIZE :: nat where "IPMI_BUF_SIZE = 1024"

definition IPMI_PAYLOAD_TYPE_IPMI :: byte where "IPMI_PAYLOAD_TYPE_IPMI = 0x00"
definition IPMI_PAYLOAD_TYPE_SOL :: byte where "IPMI_PAYLOAD_TYPE_SOL = 0x01"
definition IPMI_PAYLOAD_TYPE_RMCP_OPEN_REQUEST :: byte where "IPMI_PAYLOAD_TYPE_RMCP_OPEN_REQUEST = 0x10"
definition IPMI_PAYLOAD_TYPE_RMCP_OPEN_RESPONSE :: byte where "IPMI_PAYLOAD_TYPE_RMCP_OPEN_RESPONSE = 0x11"
definition IPMI_PAYLOAD_TYPE_RAKP_1 :: byte where "IPMI_PAYLOAD_TYPE_RAKP_1 = 0x12"
definition IPMI_PAYLOAD_TYPE_RAKP_2 :: byte where "IPMI_PAYLOAD_TYPE_RAKP_2 = 0x13"
definition IPMI_PAYLOAD_TYPE_RAKP_3 :: byte where "IPMI_PAYLOAD_TYPE_RAKP_3 = 0x14"
definition IPMI_PAYLOAD_TYPE_RAKP_4 :: byte where "IPMI_PAYLOAD_TYPE_RAKP_4 = 0x15"

lemmas payload_types = IPMI_PAYLOAD_TYPE_IPMI_def IPMI_PAYLOAD_TYPE_SOL_def
  IPMI_PAYLOAD_TYPE_RMCP_OPEN_REQUEST_def IPMI_PAYLOAD_TYPE_RMCP_OPEN_RESPONSE_def
  IPMI_PAYLOAD_TYPE_RAKP_1_def IPMI_PAYLOAD_TYPE_RAKP_2_def IPMI_PAYLOAD_TYPE_RAKP_3_def
  IPMI_PAYLOAD_TYPE_RAKP_4_def

record ipmi_response_part =
  ir_rq_addr :: byte
  ir_netfn :: byte
  ir_rq_lun :: byte
  ir_rs_addr :: byte
  ir_rq_seq :: byte
  ir_rs_lun :: byte
  ir_cmd :: byte

record open_response_part =
  or_tag :: byte
  or_code :: byte
  or_max_priv_level :: byte
  or_console_id :: u32
  or_bmc_id :: u32
  or_auth_alg :: byte
  or_integrity_alg :: byte
  or_crypt_alg :: byte

record rakp2_part =
  r2_tag :: byte
  r2_code :: byte
  r2_console_id :: u32
  r2_bmc_rand :: bytes
  r2_bmc_guid :: bytes
  r2_auth_code :: bytes

record rakp4_part =
  r4_tag :: byte
  r4_code :: byte
  r4_console_id :: u32
  r4_check_value :: bytes

record sol_part =
  sp_seq :: byte
  sp_acked :: byte
  sp_accepted :: byte
  sp_is_nack :: bool
  sp_unavailable :: bool
  sp_inactive :: bool
  sp_overrun :: bool
  sp_break :: bool

text \<open>
  The union \<open>payload\<close> of \<open>struct ipmi_rs\<close> is the member written last; reading another one is
  the fault \<open>Indeterminate\<close>. The authentication code arrays hold the bytes copied into them.
\<close>

datatype rs_payload = PNone | PIpmi ipmi_response_part | POpen open_response_part
  | PRakp2 rakp2_part | PRakp4 rakp4_part | PSol sol_part

record ipmi_rs =
  rs_ccode :: byte
  rs_data :: bytes
  rs_data_len :: int
  rs_authtype :: byte
  rs_seq :: u32
  rs_id :: u32
  rs_bEncrypted :: bool
  rs_bAuthenticated :: bool
  rs_payloadtype :: byte
  rs_msglen :: u16
  rs_payload :: rs_payload

end
