(* ===== verification/LanplusCrypt.thy ===== *)
theory LanplusCrypt
  imports LanplusTypes
begin

text \<open>
  The cryptography of the RMCP+ transport: \<open>src/plugins/lanplus/lanplus_crypt.c\<close> and the
  wrappers of \<open>lanplus_crypt_impl.c\<close>. The primitives themselves (HMAC and AES of OpenSSL) are
  parameters, fields of the record \<open>crypto\<close>. The host is little-endian and SHA-256 is available
  (\<open>HAVE_CRYPTO_SHA256\<close>). An argument \<open>mem\<close> says whether \<open>malloc\<close> succeeds.
\<close>

section \<open>The library\<close>

datatype evp_md = EVP_sha1 | EVP_md5 | EVP_sha256

text \<open>\<open>HMAC(md, key, data)\<close>; AES-128-CBC without padding as \<open>(iv, key, data)\<close>, \<open>None\<close> on failure.\<close>

record crypto =
  cr_hmac :: "evp_md \<Rightarrow> bytes \<Rightarrow> bytes \<Rightarrow> bytes"
  cr_encrypt :: "bytes \<Rightarrow> bytes \<Rightarrow> bytes \<Rightarrow> bytes option"
  cr_decrypt :: "bytes \<Rightarrow> bytes \<Rightarrow> bytes \<Rightarrow> bytes option"

fun digest_length :: "evp_md \<Rightarrow> nat" where
  "digest_length EVP_sha1 = 20"
| "digest_length EVP_md5 = 16"
| "digest_length EVP_sha256 = 32"

text \<open>
  The documented behaviour the transport relies on: digests have their fixed length, and AES
  in CBC mode maps a multiple of the block size to the same length and back.
\<close>

definition crypto_ok :: "crypto \<Rightarrow> bool" where
  "crypto_ok cr \<longleftrightarrow>
     (\<forall>md k d. length (cr_hmac cr md k d) = digest_length md) \<and>
     (\<forall>iv k d. length iv = 16 \<longrightarrow> length k = 16 \<longrightarrow> length d mod 16 = 0 \<longrightarrow> d \<noteq> [] \<longrightarrow>
       (\<exists>c. cr_encrypt cr iv k d = Some c \<and> length c = length d \<and> cr_decrypt cr iv k c = Some d))"

definition lanplus_HMAC :: "crypto \<Rightarrow> byte \<Rightarrow> bytes \<Rightarrow> bytes \<Rightarrow> bytes outcome" where
  "lanplus_HMAC cr mac key d =
     (if mac = IPMI_AUTH_RAKP_HMAC_SHA1 \<or> mac = IPMI_INTEGRITY_HMAC_SHA1_96 then Inr (cr_hmac cr EVP_sha1 key d)
      else if mac = IPMI_AUTH_RAKP_HMAC_MD5 \<or> mac = IPMI_INTEGRITY_HMAC_MD5_128 then Inr (cr_hmac cr EVP_md5 key d)
      else if mac = IPMI_AUTH_RAKP_HMAC_SHA256 \<or> mac = IPMI_INTEGRITY_HMAC_SHA256_128 then
        Inr (cr_hmac cr EVP_sha256 key d)
      else Inl AssertFailed)"

text \<open>The written bytes; none when the library fails.\<close>

definition lanplus_encrypt_aes_cbc_128 :: "crypto \<Rightarrow> bytes \<Rightarrow> bytes \<Rightarrow> bytes \<Rightarrow> bytes outcome" where
  "lanplus_encrypt_aes_cbc_128 cr iv key input =
     (if length input = 0 then Inr []
      else if length input mod 16 \<noteq> 0 then Inl AssertFailed
      else Inr (case cr_encrypt cr iv key input of None \<Rightarrow> [] | Some c \<Rightarrow> c))"

definition lanplus_decrypt_aes_cbc_128 :: "crypto \<Rightarrow> bytes \<Rightarrow> bytes \<Rightarrow> bytes \<Rightarrow> bytes outcome" where
  "lanplus_decrypt_aes_cbc_128 cr iv key input =
     (if length input = 0 then Inr []
      else if length input mod 16 \<noteq> 0 then Inl AssertFailed
      else Inr (case cr_decrypt cr iv key input of None \<Rightarrow> [] | Some d \<Rightarrow> d))"

section \<open>The RAKP codes\<close>

text \<open>\<open>memcmp(a, b, n) == 0\<close>; \<open>a\<close> holds the bytes written into its array so far.\<close>

definition memcmp_eq :: "bytes \<Rightarrow> bytes \<Rightarrow> nat \<Rightarrow> bool outcome" where
  "memcmp_eq a b n =
     (if length a < n \<or> length b < n then Inl Indeterminate else Inr (take n a = take n b))"

definition supported_auth :: "ipmi_session \<Rightarrow> bool" where
  "supported_auth s \<longleftrightarrow> auth_alg s \<in>
     {IPMI_AUTH_RAKP_HMAC_SHA1, IPMI_AUTH_RAKP_HMAC_MD5, IPMI_AUTH_RAKP_HMAC_SHA256}"

definition user_field :: "ipmi_intf \<Rightarrow> bytes" where
  "user_field i = (let u = username (ssn_params i) in of_nat (length u) # take (unat (of_nat (length u) :: byte)) u)"

definition rakp2_input :: "ipmi_intf \<Rightarrow> ipmi_session \<Rightarrow> bytes" where
  "rakp2_input i s =
     le32 (console_id s) @ le32 (bmc_id s) @ console_rand s @ bmc_rand s @ bmc_guid s @
     [if ipmi_oem_active i ''i82571spt'' then requested_role s AND NOT 0x10 else requested_role s] @
     user_field i"

definition lanplus_rakp2_hmac_matches :: "crypto \<Rightarrow> bool \<Rightarrow> ipmi_intf \<Rightarrow> ipmi_session \<Rightarrow> bytes \<Rightarrow> bool outcome" where
  "lanplus_rakp2_hmac_matches cr mem i s bmc_mac =
     (if auth_alg s = IPMI_AUTH_RAKP_NONE then Inr True
      else if \<not> supported_auth s then Inl AssertFailed
      else if \<not> mem then Inr True
      else bind_ok (lanplus_HMAC cr (auth_alg s) (take 20 (authcode s)) (rakp2_input i s))
        (\<lambda>mac. memcmp_eq bmc_mac mac (length mac)))"

definition rakp4_input :: "ipmi_session \<Rightarrow> bytes" where
  "rakp4_input s = console_rand s @ le32 (bmc_id s) @ bmc_guid s"

text \<open>The compared length, after the assertion on the digest's length.\<close>

definition rakp4_cmp_length :: "bool \<Rightarrow> ipmi_session \<Rightarrow> nat \<Rightarrow> nat outcome" where
  "rakp4_cmp_length intel s n =
     (if intel then
        (if integrity_alg s = IPMI_INTEGRITY_HMAC_SHA1_96 then
           (if n = IPMI_SHA_DIGEST_LENGTH then Inr IPMI_SHA1_AUTHCODE_SIZE else Inl AssertFailed)
         else if integrity_alg s = IPMI_INTEGRITY_HMAC_MD5_128 then
           (if n = IPMI_MD5_DIGEST_LENGTH then Inr IPMI_HMAC_MD5_AUTHCODE_SIZE else Inl AssertFailed)
         else Inl AssertFailed)
      else
        (if auth_alg s = IPMI_AUTH_RAKP_HMAC_SHA1 then
           (if n = IPMI_SHA_DIGEST_LENGTH then Inr IPMI_SHA1_AUTHCODE_SIZE else Inl AssertFailed)
         else if auth_alg s = IPMI_AUTH_RAKP_HMAC_MD5 then
           (if n = IPMI_MD5_DIGEST_LENGTH then Inr IPMI_HMAC_MD5_AUTHCODE_SIZE else Inl AssertFailed)
         else if auth_alg s = IPMI_AUTH_RAKP_HMAC_SHA256 then
           (if n = IPMI_SHA256_DIGEST_LENGTH then Inr IPMI_HMAC_SHA256_AUTHCODE_SIZE else Inl AssertFailed)
         else Inl AssertFailed))"

definition lanplus_rakp4_hmac_matches :: "crypto \<Rightarrow> bool \<Rightarrow> ipmi_intf \<Rightarrow> ipmi_session \<Rightarrow> bytes \<Rightarrow> bool outcome" where
  "lanplus_rakp4_hmac_matches cr mem i s bmc_mac =
     (let intel = ipmi_oem_active i ''intelplus'';
          alg = (if intel then integrity_alg s else auth_alg s)
      in if intel \<and> integrity_alg s = IPMI_INTEGRITY_NONE then Inr True
         else if intel \<and> integrity_alg s \<notin> {IPMI_INTEGRITY_HMAC_SHA1_96, IPMI_INTEGRITY_HMAC_MD5_128} then
           Inl AssertFailed
         else if \<not> intel \<and> auth_alg s = IPMI_AUTH_RAKP_NONE then Inr True
         else if \<not> intel \<and> \<not> supported_auth s then Inl AssertFailed
         else if \<not> mem then Inr True
         else bind_ok (lanplus_HMAC cr alg (take (sik_len s) (sik s)) (rakp4_input s)) (\<lambda>mac.
           bind_ok (rakp4_cmp_length intel s (length mac)) (\<lambda>n.
             if length mac < n then Inl AssertFailed else memcmp_eq bmc_mac mac n)))"

definition rakp3_input :: "ipmi_intf \<Rightarrow> ipmi_session \<Rightarrow> bytes" where
  "rakp3_input i s =
     bmc_rand s @ le32 (console_id s) @
     [if ipmi_oem_active i ''intelplus'' \<or> ipmi_oem_active i ''i82571spt'' then privlvl (ssn_params i)
      else requested_role s] @
     user_field i"

text \<open>The result is the return code and the code written to the output buffer.\<close>

definition lanplus_generate_rakp3_authcode :: "crypto \<Rightarrow> bool \<Rightarrow> ipmi_intf \<Rightarrow> ipmi_session
    \<Rightarrow> (int \<times> bytes) outcome" where
  "lanplus_generate_rakp3_authcode cr mem i s =
     (if auth_alg s = IPMI_AUTH_RAKP_NONE then Inr (0, [])
      else if \<not> supported_auth s then Inl AssertFailed
      else if \<not> mem then Inr (1, [])
      else bind_ok (lanplus_HMAC cr (auth_alg s) (take 20 (authcode s)) (rakp3_input i s))
        (\<lambda>mac. Inr (0, mac)))"

section \<open>Keys\<close>

definition sik_input :: "ipmi_intf \<Rightarrow> ipmi_session \<Rightarrow> bytes" where
  "sik_input i s =
     console_rand s @ bmc_rand s @
     [if ipmi_oem_active i ''i82571spt'' then requested_role s AND NOT 0x10 else requested_role s] @
     user_field i"

text \<open>The assertions on the length of a digest made with the authentication algorithm.\<close>

definition auth_digest_ok :: "byte \<Rightarrow> nat \<Rightarrow> bool" where
  "auth_digest_ok alg n \<longleftrightarrow>
     alg = IPMI_AUTH_RAKP_HMAC_SHA1 \<and> n = IPMI_SHA_DIGEST_LENGTH \<or>
     alg = IPMI_AUTH_RAKP_HMAC_MD5 \<and> n = IPMI_MD5_DIGEST_LENGTH \<or>
     alg = IPMI_AUTH_RAKP_HMAC_SHA256 \<and> n = IPMI_SHA256_DIGEST_LENGTH"

definition lanplus_generate_sik :: "crypto \<Rightarrow> bool \<Rightarrow> ipmi_intf \<Rightarrow> ipmi_session \<Rightarrow> (int \<times> ipmi_session) outcome" where
  "lanplus_generate_sik cr mem i s =
     (let s0 = s\<lparr>sik := replicate 32 0, sik_len := 0\<rparr>;
          key = (if kg (ssn_params i) ! 0 \<noteq> 0 then kg (ssn_params i) else authcode s)
      in if auth_alg s = IPMI_AUTH_RAKP_NONE then Inr (0, s0)
         else if \<not> supported_auth s then Inl AssertFailed
         else if \<not> mem then Inr (1, s0)
         else bind_ok (lanplus_HMAC cr (auth_alg s) (take 20 key) (sik_input i s)) (\<lambda>mac.
           if auth_digest_ok (auth_alg s) (length mac)
           then Inr (0, s0\<lparr>sik := put_at (sik s0) 0 mac, sik_len := length mac\<rparr>)
           else Inl AssertFailed))"

definition lanplus_generate_k1 :: "crypto \<Rightarrow> ipmi_session \<Rightarrow> (int \<times> ipmi_session) outcome" where
  "lanplus_generate_k1 cr s =
     (if auth_alg s = IPMI_AUTH_RAKP_NONE then Inr (0, s\<lparr>k1 := put_at (k1 s) 0 (replicate 20 1)\<rparr>)
      else bind_ok (lanplus_HMAC cr (auth_alg s) (take (sik_len s) (sik s)) (replicate 20 1)) (\<lambda>mac.
        if auth_digest_ok (auth_alg s) (length mac)
        then Inr (0, s\<lparr>k1 := put_at (k1 s) 0 mac, k1_len := length mac\<rparr>)
        else Inl AssertFailed))"

definition lanplus_generate_k2 :: "crypto \<Rightarrow> ipmi_session \<Rightarrow> (int \<times> ipmi_session) outcome" where
  "lanplus_generate_k2 cr s =
     (if auth_alg s = IPMI_AUTH_RAKP_NONE then Inr (0, s\<lparr>k2 := put_at (k2 s) 0 (replicate 20 2)\<rparr>)
      else bind_ok (lanplus_HMAC cr (auth_alg s) (take (sik_len s) (sik s)) (replicate 20 2)) (\<lambda>mac.
        if auth_digest_ok (auth_alg s) (length mac)
        then Inr (0, s\<lparr>k2 := put_at (k2 s) 0 mac, k2_len := length mac\<rparr>)
        else Inl AssertFailed))"

section \<open>Payload encryption\<close>

definition conf_pad :: "nat \<Rightarrow> nat" where
  "conf_pad n = (let m = (n + 1) mod 16 in if m \<noteq> 0 then 16 - m else 0)"

definition conf_trailer :: "nat \<Rightarrow> bytes" where
  "conf_trailer p = List.map (\<lambda>i. of_nat (i + 1)) [0..<p] @ [of_nat p]"

text \<open>
  \<open>None\<close> is the return code 1; otherwise the bytes stored at \<open>output\<close> and \<open>bytes_written\<close>,
  which is 16 bits wide. Without encryption nothing is stored. \<open>rnd\<close> is the answer of
  \<open>lanplus_rand\<close>, 16 bytes unless it fails.
\<close>

definition lanplus_encrypt_payload :: "crypto \<Rightarrow> bool \<Rightarrow> bytes option \<Rightarrow> byte \<Rightarrow> bytes \<Rightarrow> bytes
    \<Rightarrow> (bytes \<times> u16) option outcome" where
  "lanplus_encrypt_payload cr mem rnd alg key input =
     (if alg = IPMI_CRYPT_NONE then Inr (Some ([], of_nat (length input)))
      else if alg \<noteq> IPMI_CRYPT_AES_CBC_128 then Inl AssertFailed
      else if length input > IPMI_MAX_PAYLOAD_SIZE then Inl AssertFailed
      else if \<not> mem then Inr None
      else case rnd of None \<Rightarrow> Inr None
      | Some iv \<Rightarrow>
          bind_ok (lanplus_encrypt_aes_cbc_128 cr iv (take 16 key) (input @ conf_trailer (conf_pad (length input))))
            (\<lambda>c. Inr (Some (iv @ c, of_nat (16 + length c)))))"

text \<open>
  The check of the padding bytes from position \<open>ps + i\<close> on: past the decrypted bytes the
  allocated block (\<open>sz\<close> bytes) is indeterminate, and past the block the read is out of bounds.
\<close>

fun check_pad :: "bytes \<Rightarrow> nat \<Rightarrow> nat \<Rightarrow> nat \<Rightarrow> nat \<Rightarrow> unit outcome" where
  "check_pad d sz ps i 0 = Inr ()"
| "check_pad d sz ps i (Suc k) =
     (if ps + i < length d then
        (if unat (d ! (ps + i)) \<noteq> i + 1 then Inl AssertFailed else check_pad d sz ps (Suc i) k)
      else if ps + i < sz then Inl Indeterminate else Inl OutOfBounds)"

text \<open>
  \<open>None\<close> is the return code 1 (no memory); otherwise the bytes stored at \<open>output\<close> and the
  payload size. An input shorter than the initialization vector makes the length wrap; the
  library refuses it, and no decrypted byte is a failed assertion.
\<close>

definition lanplus_decrypt_payload :: "crypto \<Rightarrow> bool \<Rightarrow> byte \<Rightarrow> bytes \<Rightarrow> bytes
    \<Rightarrow> (bytes \<times> u16) option outcome" where
  "lanplus_decrypt_payload cr mem alg key input =
     (if alg = IPMI_CRYPT_NONE then Inr (Some (input, of_nat (length input)))
      else if alg \<noteq> IPMI_CRYPT_AES_CBC_128 then Inl AssertFailed
      else if \<not> mem then Inr None
      else if length input < 16 then Inl AssertFailed
      else bind_ok (lanplus_decrypt_aes_cbc_128 cr (take 16 input) (take 16 key) (drop 16 input)) (\<lambda>d.
        if d = [] then Inl AssertFailed
        else
          let pad = last d; ps = (of_nat (length d) - ucast pad - 1 :: u16)
          in bind_ok (check_pad d (length input) (unat ps) 0 (unat pad)) (\<lambda>_. Inr (Some (d, ps)))))"

section \<open>The packet authentication code\<close>

definition integrity_code_length :: "byte \<Rightarrow> nat outcome" where
  "integrity_code_length alg =
     (if alg = IPMI_INTEGRITY_HMAC_SHA1_96 then Inr IPMI_SHA1_AUTHCODE_SIZE
      else if alg = IPMI_INTEGRITY_HMAC_MD5_128 then Inr IPMI_HMAC_MD5_AUTHCODE_SIZE
      else if alg = IPMI_INTEGRITY_HMAC_SHA256_128 then Inr IPMI_HMAC_SHA256_AUTHCODE_SIZE
      else Inl AssertFailed)"

text \<open>
  A packet shorter than header and code gives a negative HMAC length and a pointer before the
  packet.
\<close>

definition lanplus_has_valid_auth_code :: "crypto \<Rightarrow> ipmi_rs \<Rightarrow> ipmi_session \<Rightarrow> bool outcome" where
  "lanplus_has_valid_auth_code cr rs s =
     (if rs_authtype rs \<noteq> IPMI_SESSION_AUTHTYPE_RMCP_PLUS \<or> session_state s \<noteq> LANPLUS_STATE_ACTIVE
        \<or> \<not> rs_bAuthenticated rs \<or> integrity_alg s = IPMI_INTEGRITY_NONE
      then Inr True
      else bind_ok (integrity_code_length (integrity_alg s)) (\<lambda>n.
        let len = nat (rs_data_len rs) in
        if rs_data_len rs < int (IPMI_LANPLUS_OFFSET_AUTHTYPE + n) then Inl OutOfBounds
        else bind_ok (lanplus_HMAC cr (integrity_alg s) (take (k1_len s) (k1 s))
               (region (rs_data rs) IPMI_LANPLUS_OFFSET_AUTHTYPE (len - IPMI_LANPLUS_OFFSET_AUTHTYPE - n)))
          (\<lambda>mac. if length mac < n then Inl AssertFailed
                 else memcmp_eq (region (rs_data rs) (len - n) n) mac n)))"

end
