(* ===== verification/ReqTable.thy ===== *)
theory ReqTable
  imports Ipmi
begin

text \<open>
  The list of requests that wait for their response, a singly linked list on the heap with
  pointers to its first and last entry (\<open>ipmi_req_entries\<close> and its operations in
  \<open>src/plugins/lanplus/lanplus.c\<close>; \<open>src/plugins/lan/lan.c\<close> has the same list). The heap is a
  map from addresses to entries and \<open>malloc\<close> takes the next unused address; following a null
  or freed pointer is the fault \<open>Dangling\<close>. The locale states what the transport relies on,
  over an abstract list of requests; the interpretation discharges it for the heap version.
\<close>

section \<open>The heap representation\<close>

text \<open>\<open>struct ipmi_rq_entry\<close>: \<open>e_msg\<close> is the message built for the request, once there is one.\<close>

record rq_entry =
  e_req :: ipmi_rq
  e_rq_seq :: byte
  e_msg :: "bytes option"
  e_bridging :: nat
  e_next :: "nat option"

record rq_table =
  t_heap :: "nat \<Rightarrow> rq_entry option"
  t_head :: "nat option"
  t_tail :: "nat option"
  t_brk :: nat

definition empty_table :: rq_table where
  "empty_table = \<lparr>t_heap = (\<lambda>_. None), t_head = None, t_tail = None, t_brk = 0\<rparr>"

definition set_entry :: "nat \<Rightarrow> rq_entry \<Rightarrow> rq_table \<Rightarrow> rq_table" where
  "set_entry a e t = t\<lparr>t_heap := (t_heap t)(a := Some e)\<rparr>"

definition free_entry :: "nat \<Rightarrow> rq_table \<Rightarrow> rq_table" where
  "free_entry a t = t\<lparr>t_heap := (t_heap t)(a := None)\<rparr>"

definition deref :: "rq_table \<Rightarrow> nat option \<Rightarrow> rq_entry outcome" where
  "deref t p = (case p of None \<Rightarrow> Inl Dangling
     | Some a \<Rightarrow> (case t_heap t a of None \<Rightarrow> Inl Dangling | Some e \<Rightarrow> Inr e))"

definition matches :: "byte \<Rightarrow> byte \<Rightarrow> rq_entry \<Rightarrow> bool" where
  "matches sq cm e \<longleftrightarrow> e_rq_seq e = sq \<and> rq_cmd (e_req e) = cm"

text \<open>\<open>malloc\<close> succeeds; the result is the new entry's address.\<close>

definition ipmi_req_add_entry :: "ipmi_rq \<Rightarrow> byte \<Rightarrow> rq_table \<Rightarrow> (nat \<times> rq_table) outcome" where
  "ipmi_req_add_entry req sq t =
     (let a = t_brk t;
          e = \<lparr>e_req = req, e_rq_seq = sq, e_msg = None, e_bridging = 0, e_next = None\<rparr>;
          t1 = (set_entry a e t)\<lparr>t_brk := Suc a\<rparr>
      in if t_head t = None then Inr (a, t1\<lparr>t_head := Some a, t_tail := Some a\<rparr>)
         else bind_ok (deref t1 (t_tail t)) (\<lambda>l.
           Inr (a, (set_entry (the (t_tail t)) (l\<lparr>e_next := Some a\<rparr>) t1)\<lparr>t_tail := Some a\<rparr>)))"

text \<open>
  Walking the list: the result is the matching entry's address with the address before it (the
  C variables \<open>e\<close> and \<open>p\<close>). The walk takes at most one step per allocated address; a longer
  walk is a cycle, in which the C loop does not end.
\<close>

fun walk :: "nat \<Rightarrow> byte \<Rightarrow> byte \<Rightarrow> rq_table \<Rightarrow> nat option \<Rightarrow> nat option \<Rightarrow> (nat option \<times> nat option) outcome" where
  "walk fuel sq cm t p None = Inr (p, None)"
| "walk 0 sq cm t p (Some a) = Inl Dangling"
| "walk (Suc fuel) sq cm t p (Some a) =
     bind_ok (deref t (Some a)) (\<lambda>e.
       if matches sq cm e then Inr (p, Some a) else walk fuel sq cm t (Some a) (e_next e))"

text \<open>The lookup also gives up on an entry that points to itself.\<close>

fun lookup_walk :: "nat \<Rightarrow> byte \<Rightarrow> byte \<Rightarrow> rq_table \<Rightarrow> nat option \<Rightarrow> nat option outcome" where
  "lookup_walk fuel sq cm t None = Inr None"
| "lookup_walk 0 sq cm t (Some a) = Inl Dangling"
| "lookup_walk (Suc fuel) sq cm t (Some a) =
     bind_ok (deref t (Some a)) (\<lambda>e.
       if matches sq cm e then Inr (Some a)
       else if e_next e = Some a then Inr None
       else lookup_walk fuel sq cm t (e_next e))"

definition ipmi_req_lookup_entry :: "byte \<Rightarrow> byte \<Rightarrow> rq_table \<Rightarrow> nat option outcome" where
  "ipmi_req_lookup_entry sq cm t = lookup_walk (t_brk t) sq cm t (t_head t)"

definition ipmi_req_remove_entry :: "byte \<Rightarrow> byte \<Rightarrow> rq_table \<Rightarrow> rq_table outcome" where
  "ipmi_req_remove_entry sq cm t =
     bind_ok (walk (t_brk t) sq cm t (t_head t) (t_head t)) (\<lambda>(p, e).
       case e of None \<Rightarrow> Inr t
       | Some a \<Rightarrow>
           bind_ok (deref t e) (\<lambda>ee. bind_ok (deref t p) (\<lambda>pe.
             let t1 = set_entry (the p) (pe\<lparr>e_next := (if e_next pe = e_next ee then None else e_next ee)\<rparr>) t;
                 t2 = (if t_head t1 = e then t1\<lparr>t_head := (if t_head t1 \<noteq> p then p else e_next ee)\<rparr> else t1);
                 t3 = (if t_tail t2 = e then t2\<lparr>t_tail := (if t_tail t2 \<noteq> p then p else None)\<rparr> else t2)
             in Inr (free_entry a t3))))"

fun clear_walk :: "nat \<Rightarrow> rq_table \<Rightarrow> nat option \<Rightarrow> rq_table outcome" where
  "clear_walk fuel t None = Inr t"
| "clear_walk 0 t (Some a) = Inl Dangling"
| "clear_walk (Suc fuel) t (Some a) = bind_ok (deref t (Some a)) (\<lambda>e. clear_walk fuel (free_entry a t) (e_next e))"

definition ipmi_req_clear_entries :: "rq_table \<Rightarrow> rq_table outcome" where
  "ipmi_req_clear_entries t =
     bind_ok (clear_walk (t_brk t) t (t_head t)) (\<lambda>t'. Inr (t'\<lparr>t_head := None, t_tail := None\<rparr>))"

section \<open>The contract\<close>

text \<open>What the table holds: the addresses and requests in list order.\<close>

fun collect :: "nat \<Rightarrow> rq_table \<Rightarrow> nat option \<Rightarrow> (nat \<times> rq_entry) list" where
  "collect fuel t None = []"
| "collect 0 t (Some a) = []"
| "collect (Suc fuel) t (Some a) =
     (case t_heap t a of None \<Rightarrow> [] | Some e \<Rightarrow> (a, e\<lparr>e_next := None\<rparr>) # collect fuel t (e_next e))"

definition pending :: "rq_table \<Rightarrow> (nat \<times> rq_entry) list" where
  "pending t = collect (t_brk t) t (t_head t)"

definition new_entry :: "ipmi_rq \<Rightarrow> byte \<Rightarrow> rq_entry" where
  "new_entry req sq = \<lparr>e_req = req, e_rq_seq = sq, e_msg = None, e_bridging = 0, e_next = None\<rparr>"

fun drop_first :: "('a \<Rightarrow> bool) \<Rightarrow> 'a list \<Rightarrow> 'a list" where
  "drop_first P [] = []"
| "drop_first P (x # xs) = (if P x then xs else x # drop_first P xs)"

locale request_table =
  fixes ok :: "'t \<Rightarrow> bool"
    and reqs :: "'t \<Rightarrow> (nat \<times> rq_entry) list"
    and add :: "ipmi_rq \<Rightarrow> byte \<Rightarrow> 't \<Rightarrow> (nat \<times> 't) outcome"
    and lookup :: "byte \<Rightarrow> byte \<Rightarrow> 't \<Rightarrow> nat option outcome"
    and remove :: "byte \<Rightarrow> byte \<Rightarrow> 't \<Rightarrow> 't outcome"
    and clear :: "'t \<Rightarrow> 't outcome"
  assumes add: "ok t \<Longrightarrow> \<exists>a t'. add req sq t = Inr (a, t') \<and> ok t' \<and> a \<notin> fst ` set (reqs t)
      \<and> reqs t' = reqs t @ [(a, new_entry req sq)]"
    and lookup: "ok t \<Longrightarrow> lookup sq cm t = Inr (map_option fst (find (\<lambda>(a, e). matches sq cm e) (reqs t)))"
    and remove: "ok t \<Longrightarrow> \<exists>t'. remove sq cm t = Inr t' \<and> ok t'
      \<and> reqs t' = drop_first (\<lambda>(a, e). matches sq cm e) (reqs t)"
    and clear: "ok t \<Longrightarrow> \<exists>t'. clear t = Inr t' \<and> ok t' \<and> reqs t' = []"
begin

definition awaits :: "byte \<Rightarrow> byte \<Rightarrow> 't \<Rightarrow> bool" where
  "awaits sq cm t \<longleftrightarrow> (\<exists>(a, e) \<in> set (reqs t). matches sq cm e)"

lemma find_pending:
  "find P xs = None \<longleftrightarrow> (\<forall>x \<in> set xs. \<not> P x)"
  by (induction xs) auto

lemma find_app: "find P (xs @ ys) = (case find P xs of None \<Rightarrow> find P ys | Some x \<Rightarrow> Some x)"
  by (induction xs) auto

lemma lookup_None_iff: "ok t \<Longrightarrow> lookup sq cm t = Inr None \<longleftrightarrow> \<not> awaits sq cm t"
  by (auto simp: lookup awaits_def find_pending)

text \<open>A request that is added is found under its own number and command, unless an older one has both.\<close>

lemma lookup_added:
  assumes "ok t" "\<not> awaits sq (rq_cmd req) t" "add req sq t = Inr (a, t')"
  shows "lookup sq (rq_cmd req) t' = Inr (Some a)"
proof -
  have t': "ok t'" "reqs t' = reqs t @ [(a, new_entry req sq)]"
    using add [OF assms(1), of req sq] assms(3) by auto
  have "find (\<lambda>(a, e). matches sq (rq_cmd req) e) (reqs t) = None"
    using assms(2) by (auto simp: find_pending awaits_def)
  then show ?thesis
    using t' by (simp add: lookup find_app matches_def new_entry_def)
qed

lemma lookup_others:
  assumes "ok t" "(sq', cm') \<noteq> (sq, rq_cmd req)" "add req sq t = Inr (a, t')"
  shows "lookup sq' cm' t' = lookup sq' cm' t"
proof -
  have t': "ok t'" "reqs t' = reqs t @ [(a, new_entry req sq)]"
    using add [OF assms(1), of req sq] assms(3) by auto
  have "\<not> matches sq' cm' (new_entry req sq)"
    using assms(2) by (auto simp: matches_def new_entry_def)
  then show ?thesis
    using t' assms(1) by (simp add: lookup find_app split: option.split)
qed

lemma drop_first_app: "\<forall>x \<in> set xs. \<not> P x \<Longrightarrow> drop_first P (xs @ ys) = xs @ drop_first P ys"
  by (induction xs) auto

lemma drop_first_id: "\<forall>x \<in> set xs. \<not> P x \<Longrightarrow> drop_first P xs = xs"
  by (induction xs) auto

lemma find_drop_first:
  "(\<And>x. P x \<Longrightarrow> \<not> Q x) \<Longrightarrow> find Q (drop_first P xs) = find Q xs"
  by (induction xs) auto

text \<open>Removing what was added restores the table, and removing one request hides no other.\<close>

lemma remove_added:
  assumes "ok t" "\<not> awaits sq (rq_cmd req) t" "add req sq t = Inr (a, t')"
    "remove sq (rq_cmd req) t' = Inr t''"
  shows "reqs t'' = reqs t"
proof -
  have t': "ok t'" "reqs t' = reqs t @ [(a, new_entry req sq)]"
    using add [OF assms(1), of req sq] assms(3) by auto
  have "\<forall>x \<in> set (reqs t). \<not> (\<lambda>(a, e). matches sq (rq_cmd req) e) x"
    using assms(2) by (auto simp: awaits_def)
  then show ?thesis
    using remove [OF t'(1), of sq "rq_cmd req"] assms(4) t'(2)
    by (simp add: drop_first_app matches_def new_entry_def)
qed

lemma lookup_removed_others:
  assumes "ok t" "(sq', cm') \<noteq> (sq, cm)" "remove sq cm t = Inr t'"
  shows "lookup sq' cm' t' = lookup sq' cm' t"
proof -
  have "find (\<lambda>(a, e). matches sq' cm' e) (drop_first (\<lambda>(a, e). matches sq cm e) xs)
      = find (\<lambda>(a, e). matches sq' cm' e) xs" for xs :: "(nat \<times> rq_entry) list"
    by (rule find_drop_first) (use assms(2) in \<open>auto simp: matches_def\<close>)
  then show ?thesis
    using remove [OF assms(1), of sq cm] assms(1,3) by (auto simp: lookup)
qed

lemma remove_unknown: "ok t \<Longrightarrow> \<not> awaits sq cm t \<Longrightarrow> remove sq cm t = Inr t' \<Longrightarrow> reqs t' = reqs t"
  using remove [of t sq cm] by (auto simp: awaits_def drop_first_id)

end

section \<open>The heap list keeps the contract\<close>

text \<open>The addresses on the way from one pointer to another.\<close>

fun seg :: "(nat \<Rightarrow> rq_entry option) \<Rightarrow> nat option \<Rightarrow> nat list \<Rightarrow> nat option \<Rightarrow> bool" where
  "seg h p [] q \<longleftrightarrow> p = q"
| "seg h p (a # as) q \<longleftrightarrow> p = Some a \<and> (\<exists>e. h a = Some e \<and> seg h (e_next e) as q)"

definition table_inv :: "rq_table \<Rightarrow> nat list \<Rightarrow> bool" where
  "table_inv t as \<longleftrightarrow> seg (t_heap t) (t_head t) as None \<and> distinct as \<and> set as \<subseteq> {..<t_brk t}
     \<and> (as \<noteq> [] \<longrightarrow> t_tail t = Some (last as))"

definition table_ok :: "rq_table \<Rightarrow> bool" where
  "table_ok t \<longleftrightarrow> (\<exists>as. table_inv t as)"

definition view :: "(nat \<Rightarrow> rq_entry option) \<Rightarrow> nat \<Rightarrow> nat \<times> rq_entry" where
  "view h a = (a, (the (h a))\<lparr>e_next := None\<rparr>)"

lemma seg_append: "seg h p (xs @ ys) q \<longleftrightarrow> (\<exists>r. seg h p xs r \<and> seg h r ys q)"
  by (induction xs arbitrary: p) auto

lemma seg_upd: "a \<notin> set as \<Longrightarrow> seg (h(a := x)) p as q = seg h p as q"
  by (induction as arbitrary: p) auto

lemma seg_alloc: "seg h p as q \<Longrightarrow> a \<in> set as \<Longrightarrow> \<exists>e. h a = Some e"
  by (induction as arbitrary: p) auto

lemma seg_relink:
  "seg h p (xs @ [b]) q \<Longrightarrow> b \<notin> set xs \<Longrightarrow> seg (h(b := Some e)) p (xs @ [b]) (e_next e)"
  by (auto simp: seg_append seg_upd)

lemma view_upd: "a \<noteq> b \<Longrightarrow> view (h(b := x)) a = view h a"
  by (simp add: view_def)

lemma view_relink: "h b = Some e \<Longrightarrow> view (h(b := Some (e\<lparr>e_next := n\<rparr>))) a = view h a"
  by (cases "a = b") (simp_all add: view_def)

lemma length_le_brk:
  assumes "table_inv t as"
  shows "length as \<le> t_brk t"
  using assms card_mono [of "{..<t_brk t}" "set as"] by (simp add: table_inv_def distinct_card)

lemma collect_seg:
  "seg (t_heap t) p as None \<Longrightarrow> length as \<le> n \<Longrightarrow> collect n t p = List.map (view (t_heap t)) as"
proof (induction as arbitrary: p n)
  case (Cons a as)
  then obtain m e where "n = Suc m" "p = Some a" "t_heap t a = Some e" "seg (t_heap t) (e_next e) as None"
    by (cases n) auto
  with Cons show ?case
    by (simp add: view_def)
qed (simp split: nat.splits)

lemma pending_inv: "table_inv t as \<Longrightarrow> pending t = List.map (view (t_heap t)) as"
  using length_le_brk by (auto simp: pending_def table_inv_def collect_seg)

lemma matches_next [simp]: "matches sq cm (e\<lparr>e_next := n\<rparr>) = matches sq cm e"
  by (simp add: matches_def)

definition hit :: "byte \<Rightarrow> byte \<Rightarrow> rq_table \<Rightarrow> nat \<Rightarrow> bool" where
  "hit sq cm t a \<longleftrightarrow> matches sq cm (the (t_heap t a))"

lemma hit_view: "(\<lambda>(a, e). matches sq cm e) (view (t_heap t) a) = hit sq cm t a"
  by (simp add: view_def hit_def)

lemma walk_miss:
  "seg (t_heap t) q as None \<Longrightarrow> length as \<le> n \<Longrightarrow> \<forall>a \<in> set as. \<not> hit sq cm t a \<Longrightarrow>
   \<exists>p'. walk n sq cm t p q = Inr (p', None) \<and> lookup_walk n sq cm t q = Inr None"
proof (induction as arbitrary: p q n)
  case (Cons a as)
  then obtain m e where "n = Suc m" "q = Some a" "t_heap t a = Some e" "seg (t_heap t) (e_next e) as None"
    by (cases n) auto
  with Cons show ?case
    by (simp add: deref_def hit_def)
qed simp

lemma walk_hit:
  "seg (t_heap t) q (xs @ a # ys) None \<Longrightarrow> length (xs @ a # ys) \<le> n \<Longrightarrow> distinct (xs @ a # ys) \<Longrightarrow>
   \<forall>x \<in> set xs. \<not> hit sq cm t x \<Longrightarrow> hit sq cm t a \<Longrightarrow>
   walk n sq cm t p q = Inr (if xs = [] then p else Some (last xs), Some a)
   \<and> lookup_walk n sq cm t q = Inr (Some a)"
proof (induction xs arbitrary: p q n)
  case Nil
  then obtain m e where "n = Suc m" "q = Some a" "t_heap t a = Some e"
    by (cases n) auto
  with Nil show ?case
    by (simp add: deref_def hit_def)
next
  case (Cons x xs)
  then obtain m e where *: "n = Suc m" "q = Some x" "t_heap t x = Some e"
    "seg (t_heap t) (e_next e) (xs @ a # ys) None"
    by (cases n) auto
  have "e_next e \<noteq> Some x"
    using * Cons.prems(3) by (cases xs) auto
  moreover have "walk m sq cm t (Some x) (e_next e) = Inr (if xs = [] then Some x else Some (last xs), Some a)
      \<and> lookup_walk m sq cm t (e_next e) = Inr (Some a)"
    using Cons * by auto
  ultimately show ?case
    using * Cons.prems(4) by (simp add: deref_def hit_def)
qed

lemma table_cases:
  assumes "table_inv t as"
  obtains (miss) "\<forall>a \<in> set as. \<not> hit sq cm t a"
  | (hit) xs a ys where "as = xs @ a # ys" "\<forall>x \<in> set xs. \<not> hit sq cm t x" "hit sq cm t a"
proof (cases "\<exists>a \<in> set as. hit sq cm t a")
  case True
  then show thesis
    using split_list_first_prop [of as "hit sq cm t"] that(2) by blast
qed (use that in blast)

lemma find_map_view:
  "find (\<lambda>(a, e). matches sq cm e) (List.map (view (t_heap t)) as) =
   map_option (view (t_heap t)) (find (hit sq cm t) as)"
  by (induction as) (simp_all add: hit_view)

lemma find_hit: "\<forall>x \<in> set xs. \<not> P x \<Longrightarrow> P a \<Longrightarrow> find P (xs @ a # ys) = Some a"
  by (induction xs) auto

lemma find_miss: "\<forall>x \<in> set xs. \<not> P x \<Longrightarrow> find P xs = None"
  by (induction xs) auto

lemma lookup_refines:
  assumes "table_inv t as"
  shows "ipmi_req_lookup_entry sq cm t = Inr (find (hit sq cm t) as)"
  using assms
proof (cases rule: table_cases [where sq = sq and cm = cm])
  case miss
  then show ?thesis
    using walk_miss [of t "t_head t" as "t_brk t" sq cm] assms length_le_brk [OF assms]
    by (auto simp: table_inv_def ipmi_req_lookup_entry_def find_miss)
next
  case (hit xs a ys)
  then show ?thesis
    using walk_hit [of t "t_head t" xs a ys "t_brk t" sq cm] assms length_le_brk [OF assms]
    by (simp add: table_inv_def ipmi_req_lookup_entry_def find_hit)
qed

lemma add_refines:
  assumes "table_inv t as"
  shows "\<exists>t'. ipmi_req_add_entry req sq t = Inr (t_brk t, t') \<and> table_inv t' (as @ [t_brk t])
    \<and> pending t' = pending t @ [(t_brk t, new_entry req sq)]"
proof -
  let ?a = "t_brk t"
  define e where "e = new_entry req sq"
  have fresh: "?a \<notin> set as"
    using assms by (auto simp: table_inv_def)
  have "\<exists>t'. ipmi_req_add_entry req sq t = Inr (?a, t') \<and> table_inv t' (as @ [?a])
      \<and> (\<forall>b \<in> set as. view (t_heap t') b = view (t_heap t) b) \<and> view (t_heap t') ?a = (?a, e)"
  proof (cases as rule: rev_cases)
    case Nil
    then show ?thesis
      using assms by (simp add: table_inv_def ipmi_req_add_entry_def set_entry_def view_def e_def
          new_entry_def Let_def)
  next
    case (snoc bs b)
    let ?h = "(t_heap t)(?a := Some e)"
    obtain l where l: "t_heap t b = Some l"
      using assms seg_alloc [of "t_heap t" "t_head t" as None b] snoc by (auto simp: table_inv_def)
    have b: "b \<noteq> ?a" "b \<notin> set bs"
      using fresh assms snoc by (auto simp: table_inv_def)
    obtain y where "t_head t = Some y" "t_tail t = Some b"
      using assms snoc by (cases bs) (auto simp: table_inv_def)
    then have add: "ipmi_req_add_entry req sq t = Inr (?a, t\<lparr>t_heap := ?h(b := Some (l\<lparr>e_next := Some ?a\<rparr>)),
        t_tail := Some ?a, t_brk := Suc ?a\<rparr>)"
      using l b by (simp add: ipmi_req_add_entry_def deref_def set_entry_def e_def new_entry_def Let_def)
    have "seg ?h (t_head t) (bs @ [b]) None"
      using assms snoc fresh by (simp add: table_inv_def seg_upd)
    then have "seg (?h(b := Some (l\<lparr>e_next := Some ?a\<rparr>))) (t_head t) (bs @ [b]) (Some ?a)"
      using seg_relink [of ?h "t_head t" bs b None "l\<lparr>e_next := Some ?a\<rparr>"] b by simp
    moreover have "seg (?h(b := Some (l\<lparr>e_next := Some ?a\<rparr>))) (Some ?a) [?a] None"
      using b by (simp add: e_def new_entry_def)
    ultimately have "seg (?h(b := Some (l\<lparr>e_next := Some ?a\<rparr>))) (t_head t) (as @ [?a]) None"
      using snoc by (simp only: seg_append) blast
    then show ?thesis
      using add assms fresh snoc b l
      by (auto simp: table_inv_def view_def e_def new_entry_def)
  qed
  then show ?thesis
    using pending_inv [OF assms] pending_inv by (auto simp: e_def)
qed

lemma remove_refines:
  assumes "table_inv t as"
  shows "\<exists>t'. ipmi_req_remove_entry sq cm t = Inr t' \<and> table_inv t' (drop_first (hit sq cm t) as)
    \<and> pending t' = drop_first (\<lambda>(a, e). matches sq cm e) (pending t)"
proof -
  have len: "length as \<le> t_brk t"
    using length_le_brk [OF assms] .
  have inv: "seg (t_heap t) (t_head t) as None" "distinct as" "set as \<subseteq> {..<t_brk t}"
    "as \<noteq> [] \<Longrightarrow> t_tail t = Some (last as)"
    using assms by (simp_all add: table_inv_def)
  have views: "drop_first (\<lambda>(a, e). matches sq cm e) (List.map (view (t_heap t)) bs) =
      List.map (view (t_heap t)) (drop_first (hit sq cm t) bs)" for bs
    by (induction bs) (simp_all add: hit_view)
  have "\<exists>t'. ipmi_req_remove_entry sq cm t = Inr t' \<and> table_inv t' (drop_first (hit sq cm t) as)
      \<and> (\<forall>b \<in> set (drop_first (hit sq cm t) as). view (t_heap t') b = view (t_heap t) b)"
    using assms
  proof (cases rule: table_cases [where sq = sq and cm = cm])
    case miss
    then have "drop_first (hit sq cm t) as = as"
      by (induction as) auto
    then show ?thesis
      using walk_miss [of t "t_head t" as "t_brk t" sq cm "t_head t"] assms inv len miss
      by (auto simp: ipmi_req_remove_entry_def)
  next
    case (hit xs a ys)
    have drop: "drop_first (hit sq cm t) as = xs @ ys"
      using hit(2,3) unfolding hit(1) by (induction xs) auto
    obtain ee where ee: "t_heap t a = Some ee"
      using seg_alloc [OF inv(1), of a] hit(1) by auto
    have w: "walk (t_brk t) sq cm t (t_head t) (t_head t) =
        Inr (if xs = [] then t_head t else Some (last xs), Some a)"
      using walk_hit [of t "t_head t" xs a ys "t_brk t" sq cm "t_head t"] inv(1,2) len hit by simp
    have ys: "seg (t_heap t) (e_next ee) ys None"
      using inv(1) ee by (auto simp: hit(1) seg_append)
    show ?thesis
    proof (cases xs rule: rev_cases)
      case Nil
      then have "t_head t = Some a"
        using inv(1) hit(1) by simp
      then show ?thesis
        using w ee ys inv Nil drop
        by (auto simp: ipmi_req_remove_entry_def deref_def set_entry_def free_entry_def table_inv_def
            seg_upd hit(1) view_def Let_def split: if_splits)
    next
      case (snoc zs b)
      obtain pe where pe: "t_heap t b = Some pe"
        using seg_alloc [OF inv(1), of b] hit(1) snoc by auto
      have next_pe: "e_next pe = Some a" and front: "seg (t_heap t) (t_head t) (zs @ [b]) (Some a)"
        using inv(1) pe by (auto simp: hit(1) snoc seg_append)
      have ab: "a \<noteq> b" "b \<notin> set zs" "a \<notin> set zs" "a \<notin> set ys" "b \<notin> set ys"
        using inv(2) by (auto simp: hit(1) snoc)
      have next_ee: "e_next ee \<noteq> Some a"
        using ys ab(4) by (cases ys) auto
      have head: "t_head t \<noteq> Some a"
        using front ab by (cases zs) auto
      let ?h = "((t_heap t)(b := Some (pe\<lparr>e_next := e_next ee\<rparr>)))(a := None)"
      have rm: "ipmi_req_remove_entry sq cm t = Inr (t\<lparr>t_heap := ?h,
          t_tail := (if t_tail t = Some a then Some b else t_tail t)\<rparr>)"
        using w ee pe next_pe next_ee head ab snoc
        by (simp add: ipmi_req_remove_entry_def deref_def set_entry_def free_entry_def Let_def)
      have "seg ?h (t_head t) (zs @ [b]) (e_next ee)"
        using seg_relink [OF front ab(2), of "pe\<lparr>e_next := e_next ee\<rparr>"] ab by (simp add: seg_upd)
      moreover have "seg ?h (e_next ee) ys None"
        using ys ab by (simp add: seg_upd)
      ultimately have "seg ?h (t_head t) (xs @ ys) None"
        unfolding snoc by (simp only: seg_append) blast
      moreover have "t_tail t = Some (if ys = [] then a else last ys)"
        using inv(4) hit(1) by simp
      moreover have "ys \<noteq> [] \<Longrightarrow> last ys \<noteq> a"
        using ab(4) last_in_set by metis
      ultimately show ?thesis
        using rm inv(2,3) drop ab pe snoc hit(1) by (auto simp: table_inv_def view_def)
    qed
  qed
  then show ?thesis
    using pending_inv [OF assms] pending_inv views by (metis (no_types, lifting) map_cong)
qed

lemma clear_refines:
  assumes "table_inv t as"
  shows "\<exists>t'. ipmi_req_clear_entries t = Inr t' \<and> table_inv t' []"
proof -
  have clear: "\<exists>t'. clear_walk n u p = Inr t'"
    if "seg (t_heap u) p bs None" "distinct bs" "length bs \<le> n" for n u p bs
    using that
  proof (induction bs arbitrary: n u p)
    case (Cons b bs)
    then obtain m e where "n = Suc m" "p = Some b" "t_heap u b = Some e" "seg (t_heap u) (e_next e) bs None"
      by (cases n) auto
    moreover have "t_heap (free_entry b u) = (t_heap u)(b := None)"
      by (simp add: free_entry_def)
    moreover have "b \<notin> set bs" "distinct bs" "length bs \<le> m"
      using Cons.prems \<open>n = Suc m\<close> by simp_all
    ultimately have "seg (t_heap (free_entry b u)) (e_next e) bs None" "distinct bs" "length bs \<le> m"
      using seg_upd [of b bs "t_heap u" None "e_next e" None] by simp_all
    then show ?case
      using Cons.IH \<open>n = Suc m\<close> \<open>p = Some b\<close> \<open>t_heap u b = Some e\<close> by (simp add: deref_def)
  qed simp
  then obtain t' where "clear_walk (t_brk t) t (t_head t) = Inr t'"
    using clear [of t "t_head t" as "t_brk t"] assms length_le_brk [OF assms]
    unfolding table_inv_def by blast
  then show ?thesis
    by (simp add: ipmi_req_clear_entries_def table_inv_def)
qed

interpretation lp: request_table table_ok pending ipmi_req_add_entry ipmi_req_lookup_entry
  ipmi_req_remove_entry ipmi_req_clear_entries
proof
  fix t :: rq_table and sq cm :: byte and req :: ipmi_rq
  assume "table_ok t"
  then obtain as where inv: "table_inv t as"
    by (auto simp: table_ok_def)
  show "\<exists>a t'. ipmi_req_add_entry req sq t = Inr (a, t') \<and> table_ok t' \<and>
      a \<notin> fst ` set (pending t) \<and> pending t' = pending t @ [(a, new_entry req sq)]"
  proof -
    have "t_brk t \<notin> fst ` set (pending t)"
      using inv by (auto simp: table_inv_def pending_inv [OF inv] view_def)
    then show ?thesis
      using add_refines [OF inv, of req sq] unfolding table_ok_def by blast
  qed
  show "ipmi_req_lookup_entry sq cm t =
      Inr (map_option fst (find (\<lambda>(a, e). matches sq cm e) (pending t)))"
    by (simp add: lookup_refines [OF inv] pending_inv [OF inv] find_map_view option.map_comp comp_def view_def
        option.map_ident)
  show "\<exists>t'. ipmi_req_remove_entry sq cm t = Inr t' \<and> table_ok t' \<and>
      pending t' = drop_first (\<lambda>(a, e). matches sq cm e) (pending t)"
    using remove_refines [OF inv, of sq cm] by (auto simp: table_ok_def)
  show "\<exists>t'. ipmi_req_clear_entries t = Inr t' \<and> table_ok t' \<and> pending t' = []"
    using clear_refines [OF inv] pending_inv by (fastforce simp: table_ok_def)
qed

lemma empty_table_ok: "table_ok empty_table" "pending empty_table = []"
  by (auto simp: table_ok_def table_inv_def empty_table_def pending_def intro: exI [of _ "[]"])

section \<open>Changing an entry in place\<close>

text \<open>
  The transport follows the pointer that a lookup returned and changes the entry behind it.
\<close>

lemma lookup_deref:
  assumes "table_ok t" "ipmi_req_lookup_entry sq cm t = Inr (Some a)"
  obtains e where "deref t (Some a) = Inr e" "matches sq cm e" "(a, e\<lparr>e_next := None\<rparr>) \<in> set (pending t)"
    "find (\<lambda>(a, e). matches sq cm e) (pending t) = Some (a, e\<lparr>e_next := None\<rparr>)"
proof -
  obtain as where inv: "table_inv t as"
    using assms(1) by (auto simp: table_ok_def)
  have a: "find (hit sq cm t) as = Some a"
    using assms(2) lookup_refines [OF inv] by simp
  then have in_as: "a \<in> set as" "hit sq cm t a"
    by (auto simp: find_Some_iff)
  then obtain e where e: "t_heap t a = Some e"
    using inv seg_alloc by (fastforce simp: table_inv_def)
  show ?thesis
    using in_as e a
    by (intro that [of e]) (auto simp: deref_def hit_def pending_inv [OF inv] view_def image_iff find_map_view)
qed

lemma seg_update: "h a = Some e \<Longrightarrow> e_next e' = e_next e \<Longrightarrow> seg (h(a := Some e')) p as q = seg h p as q"
  by (induction as arbitrary: p) auto

lemma set_entry_refines:
  assumes "table_ok t" "deref t (Some a) = Inr e" "e_next e' = e_next e"
  shows "table_ok (set_entry a e' t)"
    "pending (set_entry a e' t) = List.map (\<lambda>(b, x). if b = a then (b, e'\<lparr>e_next := None\<rparr>) else (b, x)) (pending t)"
proof -
  obtain as where inv: "table_inv t as"
    using assms(1) by (auto simp: table_ok_def)
  have e: "t_heap t a = Some e"
    using assms(2) by (simp add: deref_def split: option.splits)
  have inv': "table_inv (set_entry a e' t) as"
    using inv seg_update [of "t_heap t" a e e', OF e assms(3)] by (simp add: table_inv_def set_entry_def)
  then show "table_ok (set_entry a e' t)"
    by (auto simp: table_ok_def)
  show "pending (set_entry a e' t) = List.map (\<lambda>(b, x). if b = a then (b, e'\<lparr>e_next := None\<rparr>) else (b, x)) (pending t)"
    unfolding pending_inv [OF inv] pending_inv [OF inv'] by (simp add: set_entry_def view_def)
qed

section \<open>Properties\<close>

text \<open>C20: the pointer operations on the list of pending requests are those of a list: from any well
  formed list, adding appends, looking up returns the first request with the number and command,
  removing drops exactly that one, clearing empties the list; none of them follows a dangling
  pointer, and all leave the list well formed.\<close>

theorem request_table_refines_list:
  assumes "table_ok t"
  shows "(\<exists>a t'. ipmi_req_add_entry req sq t = Inr (a, t') \<and> table_ok t'
      \<and> pending t' = pending t @ [(a, new_entry req sq)])
    \<and> ipmi_req_lookup_entry sq cm t = Inr (map_option fst (find (\<lambda>(a, e). matches sq cm e) (pending t)))
    \<and> (\<exists>t'. ipmi_req_remove_entry sq cm t = Inr t' \<and> table_ok t'
      \<and> pending t' = drop_first (\<lambda>(a, e). matches sq cm e) (pending t))
    \<and> (\<exists>t'. ipmi_req_clear_entries t = Inr t' \<and> table_ok t' \<and> pending t' = [])"
  using lp.add [OF assms] lp.lookup [OF assms] lp.remove [OF assms] lp.clear [OF assms] by blast

theorem request_table_refines_list_witness:
  "\<exists>a t'. ipmi_req_add_entry sample_rq 5 empty_table = Inr (a, t') \<and> table_ok t'
     \<and> pending t' = [(a, new_entry sample_rq 5)]"
  using request_table_refines_list [OF empty_table_ok(1), of sample_rq 5] empty_table_ok(2) by auto

text \<open>A pending request is found from the moment it is added until it is removed: if no pending
  request has its number and command, the lookup after adding returns the new entry; removing it
  restores the list as it was; and neither operation changes what a lookup with another number
  or command returns.\<close>

theorem request_table_add_remove:
  assumes "table_ok t" "ipmi_req_lookup_entry sq (rq_cmd req) t = Inr None"
    "ipmi_req_add_entry req sq t = Inr (a, t1)" "ipmi_req_remove_entry sq (rq_cmd req) t1 = Inr t2"
    "(sq', cm') \<noteq> (sq, rq_cmd req)"
  shows "ipmi_req_lookup_entry sq (rq_cmd req) t1 = Inr (Some a) \<and> pending t2 = pending t
    \<and> ipmi_req_lookup_entry sq' cm' t1 = ipmi_req_lookup_entry sq' cm' t
    \<and> ipmi_req_lookup_entry sq' cm' t2 = ipmi_req_lookup_entry sq' cm' t"
proof -
  have free: "\<not> lp.awaits sq (rq_cmd req) t"
    using assms(1,2) lp.lookup_None_iff by simp
  have ok1: "table_ok t1"
    using lp.add [OF assms(1), of req sq] assms(3) by auto
  show ?thesis
    using lp.lookup_added [OF assms(1) free assms(3)] lp.remove_added [OF assms(1) free assms(3,4)]
      lp.lookup_others [OF assms(1,5,3)] lp.lookup_removed_others [OF ok1 assms(5,4)] by simp
qed

theorem request_table_add_remove_witness:
  "\<exists>a t1 t2. ipmi_req_add_entry sample_rq 5 empty_table = Inr (a, t1)
     \<and> ipmi_req_remove_entry 5 1 t1 = Inr t2
     \<and> ipmi_req_lookup_entry 5 1 t1 = Inr (Some a) \<and> pending t2 = []"
proof -
  obtain a t1 where add: "ipmi_req_add_entry sample_rq 5 empty_table = Inr (a, t1)" "table_ok t1"
    using lp.add [OF empty_table_ok(1)] by blast
  obtain t2 where rm: "ipmi_req_remove_entry 5 (rq_cmd sample_rq) t1 = Inr t2"
    using lp.remove [OF add(2)] by blast
  have "ipmi_req_lookup_entry 5 (rq_cmd sample_rq) empty_table = Inr None"
    by (simp add: ipmi_req_lookup_entry_def empty_table_def)
  from request_table_add_remove [OF empty_table_ok(1) this add(1) rm, of 6 1]
  show ?thesis
    using add rm empty_table_ok(2) by (auto simp: sample_rq_def)
qed

end
