(* ===== verification/LanplusMsg.thy ===== *)
theory LanplusMsg
  imports LanplusCrypt ReqTable
begin

text \<open>
  The packets of the RMCP+ transport (\<open>src/plugins/lanplus/lanplus.c\<close>): the functions that read
  a received packet into the response structure, and those that build the wire form of a
  payload and wrap it into a session packet with its encryption and authentication code. A
  message buffer is the list of the bytes written so far; the theory proves that they fit the
  allocated size. Memory is available; the random source may fail.
\<close>

section \<open>Cipher suites\<close>

text \<open>\<open>lanplus_get_requested_ciphers\<close>: the algorithms of a cipher suite, \<open>None\<close> for the result 1.\<close>

definition lanplus_get_requested_ciphers :: "byte \<Rightarrow> (byte \<times> byte \<times> byte) option" where
  "lanplus_get_requested_ciphers suite =
     (let sha1 = IPMI_AUTH_RAKP_HMAC_SHA1; md5 = IPMI_AUTH_RAKP_HMAC_MD5; sha256 = IPMI_AUTH_RAKP_HMAC_SHA256;
          none = IPMI_INTEGRITY_NONE; plain = IPMI_CRYPT_NONE; aes = IPMI_CRYPT_AES_CBC_128
      in if suite = 0 then Some (IPMI_AUTH_RAKP_NONE, none, plain)
         else if suite = 1 then Some (sha1, none, plain)
         else if suite = 2 then Some (sha1, IPMI_INTEGRITY_HMAC_SHA1_96, plain)
         else if suite = 3 then Some (sha1, IPMI_INTEGRITY_HMAC_SHA1_96, aes)
         else if suite = 4 then Some (sha1, IPMI_INTEGRITY_HMAC_SHA1_96, IPMI_CRYPT_XRC4_128)
         else if suite = 5 then Some (sha1, IPMI_INTEGRITY_HMAC_SHA1_96, IPMI_CRYPT_XRC4_40)
         else if suite = 6 then Some (md5, none, plain)
         else if suite = 7 then Some (md5, IPMI_INTEGRITY_HMAC_MD5_128, plain)
         else if suite = 8 then Some (md5, IPMI_INTEGRITY_HMAC_MD5_128, aes)
         else if suite = 9 then Some (md5, IPMI_INTEGRITY_HMAC_MD5_128, IPMI_CRYPT_XRC4_128)
         else if suite = 10 then Some (md5, IPMI_INTEGRITY_HMAC_MD5_128, IPMI_CRYPT_XRC4_40)
         else if suite = 11 then Some (md5, IPMI_INTEGRITY_MD5_128, plain)
         else if suite = 12 then Some (md5, IPMI_INTEGRITY_MD5_128, aes)
         else if suite = 13 then Some (md5, IPMI_INTEGRITY_MD5_128, IPMI_CRYPT_XRC4_128)
         else if suite = 14 then Some (md5, IPMI_INTEGRITY_MD5_128, IPMI_CRYPT_XRC4_40)
         else if suite = 15 then Some (sha256, none, plain)
         else if suite = 16 then Some (sha256, IPMI_INTEGRITY_HMAC_SHA256_128, plain)
         else if suite = 17 then Some (sha256, IPMI_INTEGRITY_HMAC_SHA256_128, aes)
         else None)"

section \<open>Reading a packet\<close>

text \<open>
  The readers take the response whose \<open>rs_data\<close> holds the packet (1024 bytes) and an offset,
  and return the response with the fields filled in, and the offset after what they read.
\<close>

definition read_session_data_v2x :: "ipmi_rs \<Rightarrow> nat \<Rightarrow> ipmi_rs \<times> nat" where
  "read_session_data_v2x rs off =
     (let d = rs_data rs in
      (rs\<lparr>rs_authtype := d ! off,
          rs_bEncrypted := d ! (off + 1) AND 0x80 \<noteq> 0,
          rs_bAuthenticated := d ! (off + 1) AND 0x40 \<noteq> 0,
          rs_payloadtype := d ! (off + 1) AND 0x3F,
          rs_id := of_le32 (drop (off + 2) d),
          rs_seq := of_le32 (drop (off + 6) d),
          rs_msglen := of_le16 (drop (off + 10) d)\<rparr>, off + 12))"

definition read_session_data_v15 :: "ipmi_rs \<Rightarrow> nat \<Rightarrow> ipmi_rs \<times> nat" where
  "read_session_data_v15 rs off =
     (let d = rs_data rs in
      (rs\<lparr>rs_payloadtype := IPMI_PAYLOAD_TYPE_IPMI, rs_authtype := d ! off,
          rs_bEncrypted := False, rs_bAuthenticated := False,
          rs_msglen := ucast (d ! (off + 9))\<rparr>, off + 10))"

definition read_session_data :: "ipmi_rs \<Rightarrow> nat \<Rightarrow> ipmi_rs \<times> nat" where
  "read_session_data rs off =
     (let rs1 = rs\<lparr>rs_authtype := rs_data rs ! off\<rparr> in
      if rs_authtype rs1 = IPMI_SESSION_AUTHTYPE_RMCP_PLUS then read_session_data_v2x rs1 off
      else read_session_data_v15 rs1 off)"

definition read_ipmi_response :: "ipmi_rs \<Rightarrow> nat \<Rightarrow> ipmi_rs \<times> nat" where
  "read_ipmi_response rs off =
     (let d = rs_data rs in
      (rs\<lparr>rs_payload := PIpmi \<lparr>ir_rq_addr = d ! off, ir_netfn = drop_bit 2 (d ! (off + 1)),
            ir_rq_lun = d ! (off + 1) AND 3, ir_rs_addr = d ! (off + 3),
            ir_rq_seq = drop_bit 2 (d ! (off + 4)), ir_rs_lun = d ! (off + 4) AND 3,
            ir_cmd = d ! (off + 5)\<rparr>,
          rs_ccode := d ! (off + 6)\<rparr>, off + 7))"

definition read_sol_packet :: "ipmi_rs \<Rightarrow> nat \<Rightarrow> ipmi_rs \<times> nat" where
  "read_sol_packet rs off =
     (let d = rs_data rs; f = d ! (off + 3) in
      (rs\<lparr>rs_payload := PSol \<lparr>sp_seq = d ! off AND 0x0F, sp_acked = d ! (off + 1) AND 0x0F,
            sp_accepted = d ! (off + 2), sp_is_nack = f AND 0x40 \<noteq> 0, sp_unavailable = f AND 0x20 \<noteq> 0,
            sp_inactive = f AND 0x10 \<noteq> 0, sp_overrun = f AND 0x08 \<noteq> 0, sp_break = f AND 0x04 \<noteq> 0\<rparr>\<rparr>,
       off + 4))"

definition read_open_session_response :: "ipmi_rs \<Rightarrow> nat \<Rightarrow> ipmi_rs" where
  "read_open_session_response rs off =
     (let d = rs_data rs; ok = (d ! (off + 1) = 0) in
      rs\<lparr>rs_payload := POpen \<lparr>or_tag = d ! off, or_code = d ! (off + 1), or_max_priv_level = d ! (off + 2),
           or_console_id = of_le32 (drop (off + 4) d),
           or_bmc_id = (if ok then of_le32 (drop (off + 8) d) else 0),
           or_auth_alg = (if ok then d ! (off + 16) else 0),
           or_integrity_alg = (if ok then d ! (off + 24) else 0),
           or_crypt_alg = (if ok then d ! (off + 32) else 0)\<rparr>\<rparr>)"

text \<open>The number of code bytes an authentication algorithm has in RAKP 2 and in RAKP 4.\<close>

definition rakp_code_length :: "nat \<Rightarrow> nat \<Rightarrow> nat \<Rightarrow> byte \<Rightarrow> nat outcome" where
  "rakp_code_length sha1 md5 sha256 alg =
     (if alg = IPMI_AUTH_RAKP_NONE then Inr 0
      else if alg = IPMI_AUTH_RAKP_HMAC_SHA1 then Inr sha1
      else if alg = IPMI_AUTH_RAKP_HMAC_MD5 then Inr md5
      else if alg = IPMI_AUTH_RAKP_HMAC_SHA256 then Inr sha256
      else Inl AssertFailed)"

definition read_rakp2_message :: "ipmi_rs \<Rightarrow> nat \<Rightarrow> byte \<Rightarrow> ipmi_rs outcome" where
  "read_rakp2_message rs off alg =
     (let d = rs_data rs in
      bind_ok (rakp_code_length IPMI_SHA_DIGEST_LENGTH IPMI_MD5_DIGEST_LENGTH IPMI_SHA256_DIGEST_LENGTH alg)
      (\<lambda>n. Inr (rs\<lparr>rs_payload := PRakp2 \<lparr>r2_tag = d ! off, r2_code = d ! (off + 1),
             r2_console_id = of_le32 (drop (off + 4) d), r2_bmc_rand = region d (off + 8) 16,
             r2_bmc_guid = region d (off + 24) 16, r2_auth_code = region d (off + 40) n\<rparr>\<rparr>)))"

definition read_rakp4_message :: "ipmi_rs \<Rightarrow> nat \<Rightarrow> byte \<Rightarrow> ipmi_rs outcome" where
  "read_rakp4_message rs off alg =
     (let d = rs_data rs in
      bind_ok (rakp_code_length IPMI_SHA1_AUTHCODE_SIZE IPMI_HMAC_MD5_AUTHCODE_SIZE IPMI_HMAC_SHA256_AUTHCODE_SIZE alg)
      (\<lambda>n. Inr (rs\<lparr>rs_payload := PRakp4 \<lparr>r4_tag = d ! off, r4_code = d ! (off + 1),
             r4_console_id = of_le32 (drop (off + 4) d), r4_check_value = region d (off + 8) n\<rparr>\<rparr>)))"

section \<open>Payloads\<close>

record sol_tx =
  tx_data :: bytes
  tx_seq :: byte
  tx_acked :: byte
  tx_accepted :: byte
  tx_is_nack :: bool
  tx_ring :: bool
  tx_break :: bool
  tx_cts :: bool
  tx_dcd :: bool
  tx_flush_in :: bool
  tx_flush_out :: bool

text \<open>
  \<open>struct ipmi_v2_payload\<close>: the type and the union member that goes with it; the characters of
  a SOL packet are its \<open>character_count\<close> first ones.
\<close>

datatype v2_body = BIpmi ipmi_rq byte | BOpenRequest bytes | BRakp1 bytes | BRakp3 bytes
  | BSol sol_tx | BOther byte

record v2_payload =
  pl_length :: u16
  pl_body :: v2_body

fun payload_type :: "v2_body \<Rightarrow> byte" where
  "payload_type (BIpmi req sq) = IPMI_PAYLOAD_TYPE_IPMI"
| "payload_type (BOpenRequest m) = IPMI_PAYLOAD_TYPE_RMCP_OPEN_REQUEST"
| "payload_type (BRakp1 m) = IPMI_PAYLOAD_TYPE_RAKP_1"
| "payload_type (BRakp3 m) = IPMI_PAYLOAD_TYPE_RAKP_3"
| "payload_type (BSol tx) = IPMI_PAYLOAD_TYPE_SOL"
| "payload_type (BOther t) = t"

text \<open>An IPMB header with its checksum, and the body closed by the second checksum.\<close>

definition ipmb_head :: "byte \<Rightarrow> byte \<Rightarrow> bytes" where
  "ipmb_head addr nf = [addr, nf, ipmi_csum [addr, nf] 2]"

definition close_csum :: "bytes \<Rightarrow> bytes" where
  "close_csum body = body @ [ipmi_csum body (length body)]"

text \<open>
  The number of Send Message wrappers: \<open>bridge\<close> is the static flag \<open>bridgePossible\<close>, and
  \<open>ourAddress\<close> is the low byte of the interface's address.
\<close>

definition our_address :: "ipmi_intf \<Rightarrow> byte" where
  "our_address i = (let a = ucast (my_addr i) in if a = 0 then IPMI_BMC_SLAVE_ADDR else a)"

definition bridged_request :: "bool \<Rightarrow> ipmi_intf \<Rightarrow> nat" where
  "bridged_request bridge i =
     (if target_addr i = ucast (our_address i) \<or> \<not> bridge then 0
      else if transit_addr i \<noteq> ucast (our_address i) \<and> transit_addr i \<noteq> 0 then 2 else 1)"

definition lp_netfn_lun :: "ipmi_rq \<Rightarrow> byte" where
  "lp_netfn_lun req = push_bit 2 (ucast (rq_netfn req)) OR (ucast (rq_lun req) AND 3)"

text \<open>The message and what it adds to the payload length.\<close>

definition getIpmiPayloadWireRep :: "bool \<Rightarrow> ipmi_intf \<Rightarrow> ipmi_rq \<Rightarrow> byte \<Rightarrow> byte \<Rightarrow> bytes \<times> u16" where
  "getIpmiPayloadWireRep bridge i req rq_seq curr_seq =
     (let b = bridged_request bridge i;
          inner = ipmb_head (if b \<noteq> 0 then ucast (target_addr i) else IPMI_BMC_SLAVE_ADDR) (lp_netfn_lun req) @
            close_csum ([if b < 2 then IPMI_REMOTE_SWID else ucast (my_addr i), push_bit 2 rq_seq, rq_cmd req]
              @ rq_data req);
          send = (\<lambda>ch m. close_csum ([IPMI_REMOTE_SWID, push_bit 2 curr_seq, 0x34, 0x40 OR ch] @ m))
      in if b = 0 then (inner, 0)
         else if b = 1 then (ipmb_head IPMI_BMC_SLAVE_ADDR 0x18 @ send (target_channel i) inner, 8)
         else (ipmb_head IPMI_BMC_SLAVE_ADDR 0x18 @ send (transit_channel i)
                 (ipmb_head (ucast (transit_addr i)) 0x18 @ send (target_channel i) inner), 16))"

definition flag :: "bool \<Rightarrow> byte \<Rightarrow> byte" where
  "flag b x = (if b then x else 0)"

definition getSolPayloadWireRep :: "sol_tx \<Rightarrow> bytes" where
  "getSolPayloadWireRep tx =
     [tx_seq tx, tx_acked tx, tx_accepted tx,
      flag (tx_is_nack tx) 0x40 OR flag (tx_ring tx) 0x20 OR flag (tx_break tx) 0x10 OR flag (tx_cts tx) 0x08
        OR flag (tx_dcd tx) 0x04 OR flag (tx_flush_in tx) 0x02 OR flag (tx_flush_out tx) 0x01] @ tx_data tx"

text \<open>What the message buffer, cleared before, holds from the payload offset on.\<close>

definition fit :: "nat \<Rightarrow> bytes \<Rightarrow> bytes" where
  "fit n xs = take n (xs @ replicate n 0)"

definition payload_wire :: "bool \<Rightarrow> ipmi_intf \<Rightarrow> v2_payload \<Rightarrow> byte \<Rightarrow> (bytes \<times> u16) outcome" where
  "payload_wire bridge i p curr_seq =
     (case pl_body p of
        BIpmi req sq \<Rightarrow> (let (m, extra) = getIpmiPayloadWireRep bridge i req sq curr_seq in Inr (m, pl_length p + extra))
      | BSol tx \<Rightarrow> Inr (getSolPayloadWireRep tx, of_nat (length (tx_data tx)) + 4)
      | BOpenRequest m \<Rightarrow> Inr (take (unat (pl_length p)) m, pl_length p)
      | BRakp1 m \<Rightarrow> Inr (take (unat (pl_length p)) m, pl_length p)
      | BRakp3 m \<Rightarrow> Inr (take (unat (pl_length p)) m, pl_length p)
      | BOther t \<Rightarrow> Inl AssertFailed)"

section \<open>The session packet\<close>

definition integrity_digest_ok :: "byte \<Rightarrow> nat \<Rightarrow> bool" where
  "integrity_digest_ok alg n \<longleftrightarrow>
     alg = IPMI_INTEGRITY_HMAC_SHA1_96 \<and> n = IPMI_SHA_DIGEST_LENGTH \<or>
     alg = IPMI_INTEGRITY_HMAC_MD5_128 \<and> n = IPMI_MD5_DIGEST_LENGTH \<or>
     alg = IPMI_INTEGRITY_HMAC_SHA256_128 \<and> n = IPMI_SHA256_DIGEST_LENGTH"

definition v2x_header :: "ipmi_session \<Rightarrow> byte \<Rightarrow> u16 \<Rightarrow> bytes" where
  "v2x_header s ptype plen =
     (let active = (session_state s = LANPLUS_STATE_ACTIVE) in
      [0x06, 0x00, 0xFF, 0x07] @ [0x06] @
      [ptype OR flag (active \<and> crypt_alg s \<noteq> IPMI_CRYPT_NONE) 0x80
             OR flag (active \<and> integrity_alg s \<noteq> IPMI_INTEGRITY_NONE) 0x40] @
      (if active then le32 (bmc_id s) @ le32 (out_seq s) else replicate 8 0) @ le16 plen)"

text \<open>The payload as sent: encrypted in an active session; the return code of the encryption is ignored.\<close>

definition v2x_payload :: "crypto \<Rightarrow> bytes option \<Rightarrow> ipmi_session \<Rightarrow> bytes \<Rightarrow> u16 \<Rightarrow> (bytes \<times> u16) outcome" where
  "v2x_payload cr rnd s wire plen =
     (let clear = fit (unat plen) wire in
      if session_state s = LANPLUS_STATE_ACTIVE then
        bind_ok (lanplus_encrypt_payload cr True rnd (crypt_alg s) (k2 s) clear) (\<lambda>r.
          case r of None \<Rightarrow> Inr (clear, plen)
          | Some (out, n) \<Rightarrow> Inr (if crypt_alg s = IPMI_CRYPT_NONE then clear else fit (unat n) out, n))
      else Inr (clear, plen))"

definition integrity_pad :: "bool \<Rightarrow> nat \<Rightarrow> nat" where
  "integrity_pad icts n = (let b = 12 + n + (if icts then 0 else 2) in if b mod 4 \<noteq> 0 then 4 - b mod 4 else 0)"

definition v2x_trailer :: "crypto \<Rightarrow> ipmi_intf \<Rightarrow> ipmi_session \<Rightarrow> bytes \<Rightarrow> nat \<Rightarrow> bytes outcome" where
  "v2x_trailer cr i s front n =
     (if session_state s = LANPLUS_STATE_ACTIVE \<and> integrity_alg s \<noteq> IPMI_INTEGRITY_NONE then
        let pad = integrity_pad (ipmi_oem_active i ''icts'') n;
            t = replicate pad 0xFF @ [of_nat pad, 0x07]
        in bind_ok (lanplus_HMAC cr (integrity_alg s) (take (k1_len s) (k1 s)) (drop 4 (front @ t))) (\<lambda>mac.
           if \<not> integrity_digest_ok (integrity_alg s) (length mac) then Inl AssertFailed
           else bind_ok (integrity_code_length (integrity_alg s)) (\<lambda>c. Inr (t @ take c mac)))
      else Inr [])"

text \<open>The bytes allocated for a message whose payload length is \<open>n\<close>.\<close>

definition v2x_alloc :: "u16 \<Rightarrow> nat" where
  "v2x_alloc n = 4 + 10 + 2 + unat n + 32 + 1 + 1 + 32"

definition next_out_seq :: "u32 \<Rightarrow> u32" where
  "next_out_seq n = (if n + 1 = 0 then 1 else n + 1)"

text \<open>The session and payload after the call, and the message.\<close>

definition ipmi_lanplus_build_v2x_msg :: "crypto \<Rightarrow> bytes option \<Rightarrow> bool \<Rightarrow> ipmi_intf \<Rightarrow> ipmi_session
    \<Rightarrow> v2_payload \<Rightarrow> byte \<Rightarrow> (ipmi_session \<times> v2_payload \<times> bytes) outcome" where
  "ipmi_lanplus_build_v2x_msg cr rnd bridge i s p curr_seq =
     bind_ok (payload_wire bridge i p curr_seq) (\<lambda>(wire, n).
     bind_ok (v2x_payload cr rnd s wire n) (\<lambda>(pay, n').
       let front = v2x_header s (payload_type (pl_body p)) n' @ pay in
       bind_ok (v2x_trailer cr i s front (unat n')) (\<lambda>t.
         Inr (s\<lparr>out_seq := next_out_seq (out_seq s)\<rparr>, p\<lparr>pl_length := n'\<rparr>, front @ t))))"

definition v15_packet :: "ipmi_session \<Rightarrow> ipmi_rq \<Rightarrow> bytes" where
  "v15_packet s req =
     [0x06, 0x00, 0xFF, 0x07] @ [0x00] @ le32 (out_seq s) @ [0, 0, 0, 0] @
     [of_nat (length (rq_data req) + 7)] @
     ipmb_head IPMI_BMC_SLAVE_ADDR (push_bit 2 (ucast (rq_netfn req))) @
     close_csum ([IPMI_REMOTE_SWID, 0, rq_cmd req] @ rq_data req)"

end
