(* ===== verification/LanplusPoll.thy ===== *)
theory LanplusPoll
  imports LanplusMsg
begin

text \<open>
  Receiving in the RMCP+ transport (\<open>src/plugins/lanplus/lanplus.c\<close>): the transport's state,
  reading a datagram into the static response, and polling for the packet that answers a
  request. The network is a list of what the socket delivers. A store or a copy outside the
  response's \<open>data\<close> array is the fault \<open>OutOfBounds\<close>.
\<close>

section \<open>The state\<close>

text \<open>
  What a read of the socket meets: nothing until the time is up, an error of \<open>recv\<close>, or a
  datagram. When the list is used up the socket stays silent.
\<close>

datatype net_event = NetNone | NetErr | NetPkt bytes

text \<open>
  The session behind the interface (\<open>st_live\<close> says whether the pointer to it is set), the static variables of the file (\<open>st_sol_seq\<close> and
  \<open>st_sol_count\<close> are those of \<open>check_sol_packet_for_new_data\<close>, \<open>st_curr_seq\<close> the one of
  \<open>ipmi_lanplus_build_v2x_ipmi_cmd\<close>) and the environment: the events of the socket, the
  datagrams sent and the characters handed to the SOL input handler so far, and the answers of
  \<open>send\<close> (fails), of the clock (time exceeded) and of \<open>lanplus_rand\<close>, with \<open>False\<close>, \<open>True\<close> and
  16 zero bytes when the list is used up.
\<close>

record lp_state =
  st_intf :: ipmi_intf
  st_live :: bool
  st_ssn :: ipmi_session
  st_bridge :: bool
  st_reqs :: rq_table
  st_rsp :: ipmi_rs
  st_curr_seq :: byte
  st_sol_seq :: byte
  st_sol_count :: byte
  st_net :: "net_event list"
  st_sent :: "bytes list"
  st_console :: "bytes list"
  st_send_fails :: "bool list"
  st_late :: "bool list"
  st_rand :: "bytes option list"

definition RMCP_CLASS_ASF :: byte where "RMCP_CLASS_ASF = 0x06"
definition RMCP_CLASS_IPMI :: byte where "RMCP_CLASS_IPMI = 0x07"

text \<open>A poll returns a null pointer, the pointer 1 (read one more packet), or the static response.\<close>

datatype poll_result = PNull | PAgain | PRsp

section \<open>Reading a datagram\<close>

text \<open>\<open>recv\<close> delivers at most 1024 bytes; the terminating 0 is stored behind them.\<close>

definition store_packet :: "bytes \<Rightarrow> ipmi_rs \<Rightarrow> (bool \<times> ipmi_rs) outcome" where
  "store_packet pkt rsp =
     (if pkt = [] then Inr (False, rsp)
      else if IPMI_BUF_SIZE \<le> length pkt then Inl OutOfBounds
      else Inr (True, rsp\<lparr>rs_data := put_at (rs_data rsp) 0 (pkt @ [0]), rs_data_len := int (length pkt)\<rparr>))"

definition on_packet :: "bytes \<Rightarrow> net_event list \<Rightarrow> lp_state \<Rightarrow> (bool \<times> lp_state) outcome" where
  "on_packet pkt rest st =
     bind_ok (store_packet pkt (st_rsp st)) (\<lambda>(got, r). Inr (got, st\<lparr>st_net := rest, st_rsp := r\<rparr>))"

text \<open>After an error of the first read a second one is tried.\<close>

definition ipmi_lan_recv_packet :: "lp_state \<Rightarrow> (bool \<times> lp_state) outcome" where
  "ipmi_lan_recv_packet st =
     (case st_net st of
        [] \<Rightarrow> Inr (False, st)
      | NetNone # rest \<Rightarrow> Inr (False, st\<lparr>st_net := rest\<rparr>)
      | NetPkt p # rest \<Rightarrow> on_packet p rest st
      | NetErr # rest \<Rightarrow>
          (case rest of
             [] \<Rightarrow> Inr (False, st\<lparr>st_net := []\<rparr>)
           | NetPkt p # rest' \<Rightarrow> on_packet p rest' st
           | e # rest' \<Rightarrow> Inr (False, st\<lparr>st_net := rest'\<rparr>)))"

text \<open>The entities byte of the pong is looked at without regard to the datagram's length.\<close>

definition ipmi_handle_pong :: "ipmi_rs \<Rightarrow> int" where
  "ipmi_handle_pong rsp = (if rs_data rsp ! 20 AND 0x80 \<noteq> 0 then 1 else 0)"

section \<open>Polling\<close>

text \<open>\<open>memmove(rsp->data, rsp->data + offset, n)\<close> with \<open>n\<close> as the new \<open>data_len\<close>.\<close>

definition shift_data :: "ipmi_rs \<Rightarrow> nat \<Rightarrow> nat \<Rightarrow> ipmi_rs outcome" where
  "shift_data rsp off n =
     (if n = 0 then Inr (rsp\<lparr>rs_data_len := 0\<rparr>)
      else if IPMI_BUF_SIZE < off + n then Inl OutOfBounds
      else Inr (rsp\<lparr>rs_data := move_front (rs_data rsp) off n, rs_data_len := int n\<rparr>))"

text \<open>
  The payload is decrypted in place when the packet of an active session says it is encrypted;
  the result is the payload size. \<open>malloc\<close> succeeds.
\<close>

definition open_payload :: "crypto \<Rightarrow> ipmi_session \<Rightarrow> nat \<Rightarrow> ipmi_rs \<Rightarrow> (ipmi_rs \<times> nat) outcome" where
  "open_payload cr s off rsp =
     (let n = unat (rs_msglen rsp) in
      if session_state s = LANPLUS_STATE_ACTIVE \<and> rs_authtype rsp = IPMI_SESSION_AUTHTYPE_RMCP_PLUS
         \<and> rs_bEncrypted rsp then
        (if IPMI_BUF_SIZE < off + n then Inl OutOfBounds
         else bind_ok (lanplus_decrypt_payload cr True (crypt_alg s) (k2 s) (region (rs_data rsp) off n)) (\<lambda>r.
           case r of None \<Rightarrow> Inl Indeterminate
           | Some (d, m) \<Rightarrow> Inr (rsp\<lparr>rs_data := put_at (rs_data rsp) off d\<rparr>, unat m)))
      else Inr (rsp, n))"

text \<open>A bridged response lowers the level of its request, and the last level restores the command.\<close>

definition unbridge :: "rq_entry \<Rightarrow> rq_entry" where
  "unbridge e = e\<lparr>e_bridging := e_bridging e - 1,
     e_req := (if e_bridging e = 1 then (e_req e)\<lparr>rq_cmd := rq_target_cmd (e_req e)\<rparr> else e_req e)\<rparr>"

text \<open>
  One round of the loop over an IPMI response and the responses embedded in it; \<open>n\<close> is the
  payload size at \<open>off\<close>, and seven bytes of header and the checksum are taken off for the data.
  The result \<open>None\<close> is another round, for the response embedded in the data.
\<close>

definition ipmi_seq :: "ipmi_rs \<Rightarrow> nat \<Rightarrow> byte" where
  "ipmi_seq rsp off = drop_bit 2 (rs_data rsp ! (off + 4))"

definition ipmi_cmd :: "ipmi_rs \<Rightarrow> nat \<Rightarrow> byte" where
  "ipmi_cmd rsp off = rs_data rsp ! (off + 5)"

definition is_bridged :: "rq_entry \<Rightarrow> ipmi_rs \<Rightarrow> bool" where
  "is_bridged e rsp \<longleftrightarrow> e_bridging e > 0 \<and> rs_ccode rsp = 0"

definition poll_ipmi_round :: "lp_state \<Rightarrow> nat \<Rightarrow> nat \<Rightarrow> (poll_result option \<times> lp_state) outcome" where
  "poll_ipmi_round st off n =
     (let (r, off') = read_ipmi_response (st_rsp st) off;
          sq = ipmi_seq (st_rsp st) off; cm = ipmi_cmd (st_rsp st) off
      in bind_ok (ipmi_req_lookup_entry sq cm (st_reqs st)) (\<lambda>found.
         case found of None \<Rightarrow> Inr (Some PAgain, st\<lparr>st_rsp := r\<rparr>)
         | Some a \<Rightarrow> bind_ok (deref (st_reqs st) (Some a)) (\<lambda>e.
             let t = (if is_bridged e r then set_entry a (unbridge e) (st_reqs st) else st_reqs st)
             in if is_bridged e r \<and> n \<le> 8 then Inr (Some PAgain, st\<lparr>st_reqs := t, st_rsp := r\<rparr>)
                else bind_ok (ipmi_req_remove_entry sq cm t) (\<lambda>t'.
                  bind_ok (shift_data r off' (n - 8)) (\<lambda>r'.
                    Inr (if is_bridged e r then None else Some PRsp, st\<lparr>st_reqs := t', st_rsp := r'\<rparr>))))))"

lemma poll_ipmi_round_cases:
  assumes "poll_ipmi_round st off n = Inr (res, st')"
    and "r = fst (read_ipmi_response (st_rsp st) off)"
    and "sq = ipmi_seq (st_rsp st) off" "cm = ipmi_cmd (st_rsp st) off"
  obtains (unknown) "ipmi_req_lookup_entry sq cm (st_reqs st) = Inr None" "res = Some PAgain" "st' = st\<lparr>st_rsp := r\<rparr>"
    | (waits) a e where "ipmi_req_lookup_entry sq cm (st_reqs st) = Inr (Some a)" "deref (st_reqs st) (Some a) = Inr e"
      "is_bridged e r" "n \<le> 8" "res = Some PAgain"
      "st' = st\<lparr>st_reqs := set_entry a (unbridge e) (st_reqs st), st_rsp := r\<rparr>"
    | (taken) a e t' r' where "ipmi_req_lookup_entry sq cm (st_reqs st) = Inr (Some a)"
      "deref (st_reqs st) (Some a) = Inr e" "is_bridged e r \<longrightarrow> 8 < n"
      "ipmi_req_remove_entry sq cm (if is_bridged e r then set_entry a (unbridge e) (st_reqs st) else st_reqs st) = Inr t'"
      "shift_data r (off + 7) (n - 8) = Inr r'" "res = (if is_bridged e r then None else Some PRsp)"
      "st' = st\<lparr>st_reqs := t', st_rsp := r'\<rparr>"
proof -
  have off: "read_ipmi_response (st_rsp st) off = (r, off + 7)"
    by (simp add: assms(2) read_ipmi_response_def Let_def)
  note def = assms(1) [unfolded poll_ipmi_round_def off Let_def prod.case, folded assms(3,4)]
  show ?thesis
  proof (cases "ipmi_req_lookup_entry sq cm (st_reqs st)")
    case (Inr found)
    show ?thesis
    proof (cases found)
      case None
      then show ?thesis
        using def Inr by (intro unknown) simp_all
    next
      case (Some a)
      with def Inr obtain e where e: "deref (st_reqs st) (Some a) = Inr e"
        by (auto simp: bind_ok_Inr_iff)
      show ?thesis
      proof (cases "is_bridged e r \<and> n \<le> 8")
        case True
        then show ?thesis
          using def Inr Some e by (intro waits [of a e]) simp_all
      next
        case False
        let ?t = "if is_bridged e r then set_entry a (unbridge e) (st_reqs st) else st_reqs st"
        obtain t' r' where "ipmi_req_remove_entry sq cm ?t = Inr t'" "shift_data r (off + 7) (n - 8) = Inr r'"
          "res = (if is_bridged e r then None else Some PRsp)" "st' = st\<lparr>st_reqs := t', st_rsp := r'\<rparr>"
          using def Inr Some e False by (auto simp: bind_ok_Inr_iff split: if_split_asm)
        then show ?thesis
          using Inr Some e False by (intro taken [of a e t' r']) auto
      qed
    qed
  qed (use def in simp)
qed

lemma poll_ipmi_round_embedded: "poll_ipmi_round st off n = Inr (None, st') \<Longrightarrow> 8 < n"
  by (erule poll_ipmi_round_cases [OF _ refl refl refl]) (auto split: if_split_asm)

function poll_ipmi :: "lp_state \<Rightarrow> nat \<Rightarrow> nat \<Rightarrow> (poll_result \<times> lp_state) outcome" where
  "poll_ipmi st off n =
     (case poll_ipmi_round st off n of
        Inl f \<Rightarrow> Inl f
      | Inr (Some res, st') \<Rightarrow> Inr (res, st')
      | Inr (None, st') \<Rightarrow> poll_ipmi st' 0 (n - 8))"
  by pat_completeness auto

termination
  by (relation "measure (\<lambda>(st, off, n). n)") (auto dest: poll_ipmi_round_embedded)

declare poll_ipmi.simps [simp del]

text \<open>What is done with the payload, by its type.\<close>

definition poll_payload :: "lp_state \<Rightarrow> nat \<Rightarrow> nat \<Rightarrow> (poll_result \<times> lp_state) outcome" where
  "poll_payload st off n =
     (let rsp = st_rsp st; s = st_ssn st in
      if rs_payloadtype rsp = IPMI_PAYLOAD_TYPE_IPMI then poll_ipmi st off n
      else if rs_payloadtype rsp = IPMI_PAYLOAD_TYPE_RMCP_OPEN_RESPONSE then
        (if session_state s \<noteq> LANPLUS_STATE_OPEN_SESSION_SENT then Inr (PAgain, st)
         else Inr (PRsp, st\<lparr>st_rsp := read_open_session_response rsp off\<rparr>))
      else if rs_payloadtype rsp = IPMI_PAYLOAD_TYPE_RAKP_2 then
        (if session_state s \<noteq> LANPLUS_STATE_RAKP_1_SENT then Inr (PAgain, st)
         else bind_ok (read_rakp2_message rsp off (auth_alg s)) (\<lambda>r. Inr (PRsp, st\<lparr>st_rsp := r\<rparr>)))
      else if rs_payloadtype rsp = IPMI_PAYLOAD_TYPE_RAKP_4 then
        (if session_state s \<noteq> LANPLUS_STATE_RAKP_3_SENT then Inr (PAgain, st)
         else bind_ok (read_rakp4_message rsp off (auth_alg s)) (\<lambda>r. Inr (PRsp, st\<lparr>st_rsp := r\<rparr>)))
      else if rs_payloadtype rsp = IPMI_PAYLOAD_TYPE_SOL then
        (if session_state s \<noteq> LANPLUS_STATE_ACTIVE then Inr (PAgain, st)
         else let (r, off') = read_sol_packet rsp off
              in bind_ok (shift_data r off' (n - 4)) (\<lambda>r'. Inr (PRsp, st\<lparr>st_rsp := r'\<rparr>)))
      else Inr (PAgain, st))"

text \<open>A packet with an IPMI session header: session id, authentication code, decryption, payload.\<close>

definition poll_session :: "crypto \<Rightarrow> lp_state \<Rightarrow> (poll_result \<times> lp_state) outcome" where
  "poll_session cr st =
     (let (r, off) = read_session_data (st_rsp st) 4; s = st_ssn st; st1 = st\<lparr>st_rsp := r\<rparr> in
      if session_state s = LANPLUS_STATE_ACTIVE \<and> rs_authtype r = IPMI_SESSION_AUTHTYPE_RMCP_PLUS
         \<and> rs_id r \<noteq> console_id s then Inr (PAgain, st1)
      else bind_ok (lanplus_has_valid_auth_code cr r s) (\<lambda>valid.
        if \<not> valid then Inr (PNull, st1)
        else bind_ok (open_payload cr s off r) (\<lambda>(r', n). poll_payload (st\<lparr>st_rsp := r'\<rparr>) off n)))"

definition ipmi_lan_poll_single :: "crypto \<Rightarrow> lp_state \<Rightarrow> (poll_result \<times> lp_state) outcome" where
  "ipmi_lan_poll_single cr st =
     bind_ok (ipmi_lan_recv_packet st) (\<lambda>(got, st').
       if \<not> got then Inr (PNull, st')
       else if rs_data (st_rsp st') ! 3 = RMCP_CLASS_ASF then
         Inr (if ipmi_handle_pong (st_rsp st') \<le> 0 then PNull else PRsp, st')
       else if rs_data (st_rsp st') ! 3 \<noteq> RMCP_CLASS_IPMI then Inr (PAgain, st')
       else poll_session cr st')"

section \<open>What a poll changes\<close>

text \<open>A poll changes the table, the response and the rest of the network's events only.\<close>

definition polled :: "lp_state \<Rightarrow> lp_state \<Rightarrow> bool" where
  "polled st st' \<longleftrightarrow> st_ssn st' = st_ssn st \<and> st_intf st' = st_intf st \<and> st_live st' = st_live st \<and> st_bridge st' = st_bridge st
     \<and> st_sent st' = st_sent st \<and> st_curr_seq st' = st_curr_seq st \<and> st_sol_seq st' = st_sol_seq st
     \<and> st_sol_count st' = st_sol_count st \<and> st_console st' = st_console st
     \<and> st_send_fails st' = st_send_fails st \<and> st_late st' = st_late st \<and> st_rand st' = st_rand st"

lemma polled_simps [simp]:
  "polled st st" "polled st (st\<lparr>st_rsp := r\<rparr>)" "polled st (st\<lparr>st_net := n\<rparr>)"
  "polled st (st\<lparr>st_reqs := t, st_rsp := r\<rparr>)" "polled st (st\<lparr>st_net := n, st_rsp := r\<rparr>)"
  by (simp_all add: polled_def)

lemma polled_trans: "polled st st1 \<Longrightarrow> polled st1 st2 \<Longrightarrow> polled st st2"
  by (simp add: polled_def)

lemma polled_rsp [simp]: "polled (st\<lparr>st_rsp := r\<rparr>) st' \<longleftrightarrow> polled st st'"
  by (simp add: polled_def)

lemma poll_ipmi_round_polled:
  "poll_ipmi_round st off n = Inr (res, st') \<Longrightarrow> polled st st' \<and> st_net st' = st_net st"
  by (erule poll_ipmi_round_cases [OF _ refl refl refl]) simp_all

lemma poll_ipmi_polled: "poll_ipmi st off n = Inr (res, st') \<Longrightarrow> polled st st' \<and> st_net st' = st_net st"
proof (induction st off n rule: poll_ipmi.induct)
  case (1 st off n)
  then consider st1 where "poll_ipmi_round st off n = Inr (Some res, st1)" "st' = st1"
    | st1 where "poll_ipmi_round st off n = Inr (None, st1)" "poll_ipmi st1 0 (n - 8) = Inr (res, st')"
    by (subst (asm) (2) poll_ipmi.simps) (auto split: sum.splits option.splits prod.splits)
  then show ?case
  proof cases
    case 1
    then show ?thesis
      using poll_ipmi_round_polled by blast
  next
    case 2
    then show ?thesis
      using "1.IH" [OF 2(1) refl refl 2(2)] poll_ipmi_round_polled [OF 2(1)] polled_trans by metis
  qed
qed

lemma poll_payload_polled:
  assumes "poll_payload st off n = Inr (res, st')"
  shows "polled st st' \<and> st_net st' = st_net st"
proof (cases "rs_payloadtype (st_rsp st) = IPMI_PAYLOAD_TYPE_IPMI")
  case True
  then show ?thesis
    using assms poll_ipmi_polled by (simp add: poll_payload_def Let_def)
next
  case False
  then show ?thesis
    using assms
    by (auto simp: poll_payload_def bind_ok_Inr_iff Let_def split: if_split_asm prod.splits)
qed

lemma poll_session_polled:
  assumes "poll_session cr st = Inr (res, st')"
  shows "polled st st' \<and> st_net st' = st_net st"
proof -
  obtain r off where r: "read_session_data (st_rsp st) 4 = (r, off)"
    by fastforce
  show ?thesis
  proof (cases "st' = st\<lparr>st_rsp := r\<rparr>")
    case False
    then obtain r' n where "poll_payload (st\<lparr>st_rsp := r'\<rparr>) off n = Inr (res, st')"
      using assms by (auto simp: poll_session_def r bind_ok_Inr_iff Let_def split: if_split_asm)
    then show ?thesis
      using poll_payload_polled by fastforce
  qed simp
qed

lemma on_packet_polled:
  "on_packet p rest st = Inr (got, st') \<Longrightarrow> polled st st' \<and> st_net st' = rest"
  by (auto simp: on_packet_def bind_ok_Inr_iff)

lemma recv_packet_polled:
  assumes "ipmi_lan_recv_packet st = Inr (got, st')"
  shows "polled st st' \<and> set (st_net st') \<subseteq> set (st_net st) \<and> length (st_net st') \<le> length (st_net st)
    \<and> (got \<longrightarrow> length (st_net st') < length (st_net st))"
  using assms
  by (auto simp: ipmi_lan_recv_packet_def dest!: on_packet_polled split: list.splits net_event.splits)

lemma poll_single_polled:
  assumes "ipmi_lan_poll_single cr st = Inr (res, st')"
  shows "polled st st' \<and> set (st_net st') \<subseteq> set (st_net st) \<and> length (st_net st') \<le> length (st_net st)
    \<and> (res \<noteq> PNull \<longrightarrow> length (st_net st') < length (st_net st))"
proof -
  obtain got st1 where st1: "ipmi_lan_recv_packet st = Inr (got, st1)"
    using assms by (auto simp: ipmi_lan_poll_single_def bind_ok_Inr_iff)
  note rp = recv_packet_polled [OF st1]
  show ?thesis
  proof (cases "\<not> got \<or> rs_data (st_rsp st1) ! 3 \<noteq> RMCP_CLASS_IPMI")
    case True
    then show ?thesis
      using assms st1 rp by (auto simp: ipmi_lan_poll_single_def split: if_split_asm)
  next
    case False
    then have "poll_session cr st1 = Inr (res, st')"
      using assms st1 by (simp add: ipmi_lan_poll_single_def RMCP_CLASS_ASF_def RMCP_CLASS_IPMI_def)
    then show ?thesis
      using poll_session_polled rp polled_trans False by fastforce
  qed
qed

section \<open>The poll loop\<close>

text \<open>Every packet that is not for us takes an event of the socket, so the loop ends.\<close>

function ipmi_lan_poll_recv :: "crypto \<Rightarrow> lp_state \<Rightarrow> (poll_result \<times> lp_state) outcome" where
  "ipmi_lan_poll_recv cr st =
     (case ipmi_lan_poll_single cr st of
        Inl f \<Rightarrow> Inl f
      | Inr (res, st') \<Rightarrow> if res = PAgain then ipmi_lan_poll_recv cr st' else Inr (res, st'))"
  by pat_completeness auto

termination
  by (relation "measure (\<lambda>(cr, st). length (st_net st))") (auto dest: poll_single_polled)

declare ipmi_lan_poll_recv.simps [simp del]

text \<open>A returned result is the one of the last packet looked at.\<close>

lemma poll_recv_last:
  assumes "ipmi_lan_poll_recv cr st = Inr (res, st')"
  obtains st1 where "polled st st1" "set (st_net st1) \<subseteq> set (st_net st)" "length (st_net st1) \<le> length (st_net st)"
    "ipmi_lan_poll_single cr st1 = Inr (res, st')" "res \<noteq> PAgain"
  using assms
proof (induction cr st arbitrary: thesis rule: ipmi_lan_poll_recv.induct)
  case (1 cr st)
  obtain r st1 where r: "ipmi_lan_poll_single cr st = Inr (r, st1)"
    using "1.prems"(2) by (subst (asm) ipmi_lan_poll_recv.simps) (auto split: sum.splits)
  show ?case
  proof (cases "r = PAgain")
    case True
    then have again: "ipmi_lan_poll_recv cr st1 = Inr (res, st')"
      using "1.prems"(2) r by (subst (asm) ipmi_lan_poll_recv.simps) simp
    show ?thesis
    proof (rule "1.IH" [OF r refl True _ again])
      fix st2 assume st2: "polled st1 st2" "set (st_net st2) \<subseteq> set (st_net st1)" "length (st_net st2) \<le> length (st_net st1)"
        "ipmi_lan_poll_single cr st2 = Inr (res, st')" "res \<noteq> PAgain"
      show thesis
        using poll_single_polled [OF r] st2 polled_trans [of st st1 st2] by (intro "1.prems"(1) [of st2]) auto
    qed
  next
    case False
    then have "ipmi_lan_poll_single cr st = Inr (res, st')" "res \<noteq> PAgain"
      using "1.prems"(2) r by (subst (asm) ipmi_lan_poll_recv.simps, auto)+
    then show ?thesis
      by (intro "1.prems"(1) [of st]) auto
  qed
qed

lemma poll_recv_polled:
  assumes "ipmi_lan_poll_recv cr st = Inr (res, st')"
  shows "polled st st' \<and> length (st_net st') \<le> length (st_net st) \<and> res \<noteq> PAgain"
proof -
  obtain st1 where "polled st st1" "length (st_net st1) \<le> length (st_net st)"
    "ipmi_lan_poll_single cr st1 = Inr (res, st')" "res \<noteq> PAgain"
    by (rule poll_recv_last [OF assms])
  then show ?thesis
    using poll_single_polled polled_trans by fastforce
qed

lemma poll_recv_silent [simp]: "st_net st = [] \<Longrightarrow> ipmi_lan_poll_recv cr st = Inr (PNull, st)"
  by (subst ipmi_lan_poll_recv.simps) (simp add: ipmi_lan_poll_single_def ipmi_lan_recv_packet_def)

end
