(* ===== verification/LanplusSend.thy ===== *)
theory LanplusSend
  imports LanplusPoll
begin

text \<open>
  Sending in the RMCP+ transport (\<open>src/plugins/lanplus/lanplus.c\<close>): building a command with its
  entry in the list of pending requests, the retry loop around every payload, and the flow
  control of Serial over LAN. The interface is open (\<open>ipmi_lanplus_send_payload\<close> opens it first
  when it is not, see the theory of the session) and memory is available.
\<close>

definition on_ssn :: "(ipmi_session \<Rightarrow> ipmi_session) \<Rightarrow> lp_state \<Rightarrow> lp_state" where
  "on_ssn f st = st\<lparr>st_ssn := f (st_ssn st)\<rparr>"

section \<open>The environment\<close>

text \<open>\<open>send\<close>: whether it succeeded.\<close>

definition ipmi_lan_send_packet :: "bytes \<Rightarrow> lp_state \<Rightarrow> bool \<times> lp_state" where
  "ipmi_lan_send_packet m st =
     (case st_send_fails st of
        True # rest \<Rightarrow> (False, st\<lparr>st_send_fails := rest\<rparr>)
      | fs \<Rightarrow> (True, st\<lparr>st_sent := st_sent st @ [m], st_send_fails := tl fs\<rparr>))"

text \<open>Whether the timeout of the session has passed since the last transmission.\<close>

definition timed_out :: "lp_state \<Rightarrow> bool \<times> lp_state" where
  "timed_out st = (st_late st = [] \<or> hd (st_late st), st\<lparr>st_late := tl (st_late st)\<rparr>)"

text \<open>The answer of \<open>lanplus_rand\<close>, which is asked for 16 bytes.\<close>

definition lanplus_rand :: "lp_state \<Rightarrow> bytes option \<times> lp_state" where
  "lanplus_rand st = (if st_rand st = [] then Some (replicate 16 0) else hd (st_rand st), st\<lparr>st_rand := tl (st_rand st)\<rparr>)"

section \<open>Building\<close>

text \<open>The message builder on the state: encryption with AES uses up a random answer.\<close>

definition build_v2x :: "crypto \<Rightarrow> v2_payload \<Rightarrow> byte \<Rightarrow> lp_state \<Rightarrow> (bytes \<times> v2_payload \<times> lp_state) outcome" where
  "build_v2x cr p sq st =
     (let (rnd, st1) = (if session_state (st_ssn st) = LANPLUS_STATE_ACTIVE \<and> crypt_alg (st_ssn st) \<noteq> IPMI_CRYPT_NONE
                        then lanplus_rand st else (None, st))
      in bind_ok (ipmi_lanplus_build_v2x_msg cr rnd (st_bridge st) (st_intf st) (st_ssn st) p sq) (\<lambda>(s, p', m).
           Inr (m, p', st1\<lparr>st_ssn := s\<rparr>)))"

text \<open>The sequence number of a command: a retry keeps it, and 63 is followed by 0.\<close>

definition next_curr_seq :: "bool \<Rightarrow> byte \<Rightarrow> byte" where
  "next_curr_seq isRetry sq = (let n = (if isRetry then sq else sq + 1) in if 64 \<le> n then 0 else n)"

definition is_bridge_command :: "lp_state \<Rightarrow> bool" where
  "is_bridge_command st \<longleftrightarrow> target_addr (st_intf st) \<noteq> my_addr (st_intf st) \<and> st_bridge st"

text \<open>A bridged request waits for the Send Message command first.\<close>

definition bridge_entry :: "ipmi_intf \<Rightarrow> rq_entry \<Rightarrow> rq_entry" where
  "bridge_entry i e = e\<lparr>e_req := (e_req e)\<lparr>rq_target_cmd := rq_cmd (e_req e), rq_cmd := 0x34\<rparr>,
     e_bridging := (if transit_addr i \<noteq> 0 \<and> transit_addr i \<noteq> my_addr i then 2 else 1)\<rparr>"

text \<open>The result is the entry's address and its message.\<close>

definition ipmi_lanplus_build_v2x_ipmi_cmd :: "crypto \<Rightarrow> ipmi_rq \<Rightarrow> bool \<Rightarrow> lp_state \<Rightarrow> (nat \<times> bytes \<times> lp_state) outcome" where
  "ipmi_lanplus_build_v2x_ipmi_cmd cr req isRetry st =
     (let sq = next_curr_seq isRetry (st_curr_seq st) in
      bind_ok (ipmi_req_add_entry req sq (st_reqs st)) (\<lambda>(a, t). bind_ok (deref t (Some a)) (\<lambda>e.
        let e1 = (if is_bridge_command st then bridge_entry (st_intf st) e else e);
            p = \<lparr>pl_length = of_nat (length (rq_data req) + 7), pl_body = BIpmi req sq\<rparr>
        in bind_ok (build_v2x cr p sq (st\<lparr>st_curr_seq := sq\<rparr>)) (\<lambda>(m, p', st1).
             Inr (a, m, st1\<lparr>st_reqs := set_entry a (e1\<lparr>e_msg := Some m\<rparr>) t\<rparr>)))))"

definition ipmi_lanplus_build_v15_ipmi_cmd :: "ipmi_rq \<Rightarrow> lp_state \<Rightarrow> (nat \<times> bytes \<times> lp_state) outcome" where
  "ipmi_lanplus_build_v15_ipmi_cmd req st =
     bind_ok (ipmi_req_add_entry req 0 (st_reqs st)) (\<lambda>(a, t). bind_ok (deref t (Some a)) (\<lambda>e.
       let m = v15_packet (st_ssn st) req in
       Inr (a, m, st\<lparr>st_reqs := set_entry a (e\<lparr>e_rq_seq := 0, e_msg := Some m\<rparr>) t\<rparr>)))"

text \<open>The state in which a handshake payload may be sent, and the one after sending it.\<close>

definition may_send :: "v2_body \<Rightarrow> LANPLUS_SESSION_STATE \<Rightarrow> bool" where
  "may_send b s \<longleftrightarrow>
     (case b of
        BIpmi req sq \<Rightarrow> True
      | BOpenRequest m \<Rightarrow> s = LANPLUS_STATE_PRESESSION \<or> s = LANPLUS_STATE_OPEN_SESSION_SENT
      | BRakp1 m \<Rightarrow> s = LANPLUS_STATE_OPEN_SESSION_RECEIEVED
      | BRakp3 m \<Rightarrow> s = LANPLUS_STATE_RAKP_2_RECEIVED
      | BSol tx \<Rightarrow> s = LANPLUS_STATE_ACTIVE
      | BOther t \<Rightarrow> False)"

definition state_after :: "v2_body \<Rightarrow> LANPLUS_SESSION_STATE option" where
  "state_after b =
     (case b of
        BOpenRequest m \<Rightarrow> Some LANPLUS_STATE_OPEN_SESSION_SENT
      | BRakp1 m \<Rightarrow> Some LANPLUS_STATE_RAKP_1_SENT
      | BRakp3 m \<Rightarrow> Some LANPLUS_STATE_RAKP_3_SENT
      | _ \<Rightarrow> None)"

text \<open>
  One transmission of a payload: the success of \<open>send\<close>, the variable \<open>entry\<close> and the payload.
\<close>

definition transmit :: "crypto \<Rightarrow> bool \<Rightarrow> nat option \<Rightarrow> v2_payload \<Rightarrow> lp_state
    \<Rightarrow> (bool \<times> nat option \<times> v2_payload \<times> lp_state) outcome" where
  "transmit cr isRetry entry p st =
     (if \<not> may_send (pl_body p) (session_state (st_ssn st)) then Inl AssertFailed
      else case pl_body p of
        BIpmi req sq \<Rightarrow>
          bind_ok (if rq_netfn req = IPMI_NETFN_APP \<and> rq_cmd req = IPMI_GET_CHANNEL_AUTH_CAP \<and> bmc_id (st_ssn st) = 0
                   then ipmi_lanplus_build_v15_ipmi_cmd req st else ipmi_lanplus_build_v2x_ipmi_cmd cr req isRetry st)
            (\<lambda>(a, m, st1). let (ok, st2) = ipmi_lan_send_packet m st1 in Inr (ok, Some a, p, st2))
      | _ \<Rightarrow>
          bind_ok (build_v2x cr p 0 st) (\<lambda>(m, p', st1).
            let (ok, st2) = ipmi_lan_send_packet m st1 in Inr (ok, entry, p', st2)))"

section \<open>Serial over LAN packets\<close>

definition is_sol_packet :: "ipmi_rs \<Rightarrow> bool" where
  "is_sol_packet rsp \<longleftrightarrow> rs_authtype rsp = IPMI_SESSION_AUTHTYPE_RMCP_PLUS \<and> rs_payloadtype rsp = IPMI_PAYLOAD_TYPE_SOL"

definition sol_packet :: "ipmi_rs \<Rightarrow> sol_part outcome" where
  "sol_packet rsp = (case rs_payload rsp of PSol s \<Rightarrow> Inr s | _ \<Rightarrow> Inl Indeterminate)"

definition sol_response_acks_packet :: "ipmi_rs \<Rightarrow> v2_payload \<Rightarrow> bool outcome" where
  "sol_response_acks_packet rsp p =
     (case pl_body p of
        BSol tx \<Rightarrow> if is_sol_packet rsp then bind_ok (sol_packet rsp) (\<lambda>s. Inr (sp_acked s = tx_seq tx)) else Inr False
      | _ \<Rightarrow> Inr False)"

text \<open>\<open>sol_input_handler\<close> is given the response: its \<open>data_len\<close> first bytes are the characters.\<close>

definition sol_input :: "lp_state \<Rightarrow> lp_state" where
  "sol_input st = st\<lparr>st_console := st_console st @ [take (nat (rs_data_len (st_rsp st))) (rs_data (st_rsp st))]\<rparr>"

section \<open>The retry loop\<close>

text \<open>
  Duplicate request codes (0xCF) are skipped; every response takes an event, so this ends.
\<close>

lemma poll_recv_takes:
  assumes "ipmi_lan_poll_recv cr st = Inr (PRsp, st')"
  shows "length (st_net st') < length (st_net st)"
proof -
  obtain st1 where "polled st st1" "set (st_net st1) \<subseteq> set (st_net st)" "length (st_net st1) \<le> length (st_net st)"
    "ipmi_lan_poll_single cr st1 = Inr (PRsp, st')" "PRsp \<noteq> PAgain"
    by (rule poll_recv_last [OF assms])
  then show ?thesis
    using poll_single_polled by fastforce
qed

function poll_answer :: "crypto \<Rightarrow> lp_state \<Rightarrow> (bool \<times> lp_state) outcome" where
  "poll_answer cr st =
     (case ipmi_lan_poll_recv cr st of
        Inl f \<Rightarrow> Inl f
      | Inr (res, st') \<Rightarrow>
          if res \<noteq> PRsp then Inr (False, st')
          else if rs_ccode (st_rsp st') = 0xCF then poll_answer cr st' else Inr (True, st'))"
  by pat_completeness auto

termination
  by (relation "measure (\<lambda>(cr, st). length (st_net st))") (auto dest: poll_recv_takes)

declare poll_answer.simps [simp del]

text \<open>
  Waiting after a transmission: whether the loop is left, whether \<open>rsp\<close> is a response, and the
  state. \<open>sol\<close> is \<open>ipmi_lanplus_recv_sol\<close>; \<open>rsp\<close> is the variable's value before. When there is
  no answer the entry is removed through the pointer kept from the last transmission.
\<close>

definition await :: "crypto \<Rightarrow> (lp_state \<Rightarrow> (bool \<times> lp_state) outcome) \<Rightarrow> v2_payload \<Rightarrow> nat option \<Rightarrow> bool
    \<Rightarrow> lp_state \<Rightarrow> (bool \<times> bool \<times> lp_state) outcome" where
  "await cr sol p entry rsp st =
     (case pl_body p of
        BSol tx \<Rightarrow>
          if tx_seq tx = 0 then Inr (True, rsp, st)
          else bind_ok (sol st) (\<lambda>(got, st1).
            if \<not> (got \<and> is_sol_packet (st_rsp st1)) then Inr (True, got, st1)
            else bind_ok (sol_response_acks_packet (st_rsp st1) p) (\<lambda>acks.
              if acks then Inr (True, True, st1)
              else if rs_data_len (st_rsp st1) \<noteq> 0
                then Inr (True, True, (sol_input st1)\<lparr>st_rsp := (st_rsp st1)\<lparr>rs_data_len := 0\<rparr>\<rparr>)
              else Inr (False, True, st1)))
      | b \<Rightarrow>
          bind_ok (poll_answer cr st) (\<lambda>(got, st1).
            if got then Inr (True, True, st1)
            else if (\<exists>req sq. b = BIpmi req sq) \<and> entry \<noteq> None then
              bind_ok (deref (st_reqs st1) entry) (\<lambda>e.
              bind_ok (ipmi_req_remove_entry (e_rq_seq e) (rq_cmd (e_req e)) (st_reqs st1)) (\<lambda>t.
                Inr (False, False, st1\<lparr>st_reqs := t\<rparr>)))
            else Inr (False, False, st1)))"

text \<open>The end of the loop restores the session's timeout.\<close>

definition finish :: "u32 \<Rightarrow> bool \<Rightarrow> v2_payload \<Rightarrow> lp_state \<Rightarrow> (bool \<times> v2_payload \<times> lp_state) outcome" where
  "finish saved rsp p st = Inr (rsp, p, on_ssn (\<lambda>s. s\<lparr>ssn_timeout := saved\<rparr>) st)"

text \<open>
  The loop of \<open>ipmi_lanplus_send_payload\<close> with \<open>k\<close> attempts left. The handshake payloads use up
  all attempts at once. A failure of \<open>send\<close> returns at once and leaves the timeout as it is.
\<close>

fun send_loop :: "crypto \<Rightarrow> (lp_state \<Rightarrow> (bool \<times> lp_state) outcome) \<Rightarrow> u32 \<Rightarrow> nat \<Rightarrow> bool \<Rightarrow> bool \<Rightarrow> nat option
    \<Rightarrow> bool \<Rightarrow> v2_payload \<Rightarrow> lp_state \<Rightarrow> (bool \<times> v2_payload \<times> lp_state) outcome" where
  "send_loop cr sol saved 0 isRetry xmit entry rsp p st = finish saved rsp p st"
| "send_loop cr sol saved (Suc k) isRetry xmit entry rsp p st =
     bind_ok (if xmit then transmit cr isRetry entry p st else Inr (True, entry, p, st)) (\<lambda>(ok, entry1, p1, st1).
       if \<not> ok then Inr (False, p1, st1)
       else if noanswer (st_intf st1) then finish saved rsp p1 st1
       else
         let st2 = (case state_after (pl_body p1) of None \<Rightarrow> st1
                    | Some s \<Rightarrow> on_ssn (\<lambda>n. n\<lparr>session_state := s\<rparr>) st1);
             k1 = (if state_after (pl_body p1) = None then k else 0)
         in bind_ok (await cr sol p1 entry1 rsp st2) (\<lambda>(stop, rsp1, st3).
              if stop then finish saved rsp1 p1 st3
              else
                let (late, st4) = timed_out st3;
                    st5 = (if late then on_ssn (\<lambda>s. s\<lparr>ssn_timeout := ssn_timeout s + 1\<rparr>) st4 else st4)
                in send_loop cr sol saved k1 True late entry1 rsp1 p1 st5))"

definition send_opened :: "crypto \<Rightarrow> (lp_state \<Rightarrow> (bool \<times> lp_state) outcome) \<Rightarrow> v2_payload \<Rightarrow> lp_state
    \<Rightarrow> (bool \<times> v2_payload \<times> lp_state) outcome" where
  "send_opened cr sol p st =
     send_loop cr sol (ssn_timeout (st_ssn st)) (nat (retry (ssn_params (st_intf st)))) False True None False p st"

section \<open>Receiving Serial over LAN\<close>

definition ack_payload :: "byte \<Rightarrow> int \<Rightarrow> v2_payload" where
  "ack_payload sq n = \<lparr>pl_length = 0, pl_body = BSol \<lparr>tx_data = [], tx_seq = 0, tx_acked = sq,
     tx_accepted = word_of_int n, tx_is_nack = False, tx_ring = False, tx_break = False, tx_cts = False,
     tx_dcd = False, tx_flush_in = False, tx_flush_out = False\<rparr>\<rparr>"

text \<open>An acknowledgement never waits, so it does not receive.\<close>

definition ack_sol_packet :: "crypto \<Rightarrow> lp_state \<Rightarrow> lp_state outcome" where
  "ack_sol_packet cr st =
     (if is_sol_packet (st_rsp st) then
        bind_ok (sol_packet (st_rsp st)) (\<lambda>s.
          if sp_seq s \<noteq> 0 then
            bind_ok (send_opened cr (\<lambda>_. Inl Dangling) (ack_payload (sp_seq s) (rs_data_len (st_rsp st))) st)
              (\<lambda>(_, _, st'). Inr st')
          else Inr st)
      else Inr st)"

text \<open>
  The new characters of a packet: those after the ones that came with the same sequence number
  before. The result is \<open>new_data_size\<close>; \<open>data_len\<close> is kept in the last count as one byte.
\<close>

definition check_sol_packet_for_new_data :: "lp_state \<Rightarrow> (int \<times> lp_state) outcome" where
  "check_sol_packet_for_new_data st =
     (let rsp = st_rsp st in
      if is_sol_packet rsp then
        bind_ok (sol_packet rsp) (\<lambda>s.
          let repeated = (sp_seq s = st_sol_seq st);
              n = (if repeated then rs_data_len rsp - int (unat (st_sol_count st)) else 0);
              rsp1 = (if repeated
                then rsp\<lparr>rs_data := (if n > 0 then move_front (rs_data rsp) (nat (rs_data_len rsp - n)) (nat n)
                                    else rs_data rsp), rs_data_len := n\<rparr>
                else rsp)
          in Inr (n, if sp_seq s \<noteq> 0
               then st\<lparr>st_rsp := rsp1, st_sol_seq := sp_seq s, st_sol_count := word_of_int (rs_data_len rsp)\<rparr>
               else st\<lparr>st_rsp := rsp1\<rparr>))
      else Inr (0, st))"

definition ipmi_lanplus_recv_sol :: "crypto \<Rightarrow> lp_state \<Rightarrow> (bool \<times> lp_state) outcome" where
  "ipmi_lanplus_recv_sol cr st =
     bind_ok (ipmi_lan_poll_recv cr st) (\<lambda>(res, st1).
       if res = PRsp \<and> rs_authtype (st_rsp st1) \<noteq> 0 then
         bind_ok (ack_sol_packet cr st1) (\<lambda>st2.
         bind_ok (check_sol_packet_for_new_data st2) (\<lambda>(n, st3). Inr (True, st3)))
       else Inr (res = PRsp, st1))"

section \<open>Sending Serial over LAN\<close>

text \<open>The number of characters to send again.\<close>

definition is_sol_partial_ack :: "ipmi_intf \<Rightarrow> v2_payload \<Rightarrow> bool \<Rightarrow> ipmi_rs \<Rightarrow> nat outcome" where
  "is_sol_partial_ack i p got rsp =
     (if got \<and> is_sol_packet rsp then
        bind_ok (sol_response_acks_packet rsp p) (\<lambda>acks. bind_ok (sol_packet rsp) (\<lambda>s.
          case pl_body p of
            BSol tx \<Rightarrow>
              Inr (if acks \<and> unat (sp_accepted s) < length (tx_data tx) then
                     (if ipmi_oem_active i ''intelplus'' \<and> sp_accepted s = 0 then 0
                      else length (tx_data tx) - unat (sp_accepted s))
                   else 0)
          | _ \<Rightarrow> Inr 0))
      else Inr 0)"

definition set_sol_packet_sequence_number :: "ipmi_session \<Rightarrow> sol_tx \<Rightarrow> ipmi_session \<times> sol_tx" where
  "set_sol_packet_sequence_number s tx =
     (let n = (if 0x0F < sol_sequence_number s then 1 else sol_sequence_number s)
      in (s\<lparr>sol_sequence_number := n + 1\<rparr>, tx\<lparr>tx_seq := n\<rparr>))"

text \<open>One packet: the number is taken, the payload length is that of the characters.\<close>

definition sol_round :: "crypto \<Rightarrow> sol_tx \<Rightarrow> lp_state \<Rightarrow> (bool \<times> sol_tx \<times> nat \<times> lp_state) outcome" where
  "sol_round cr tx st =
     (let (s, tx1) = set_sol_packet_sequence_number (st_ssn st) tx;
          p = \<lparr>pl_length = of_nat (length (tx_data tx)), pl_body = BSol tx1\<rparr>
      in bind_ok (send_opened cr (ipmi_lanplus_recv_sol cr) p (st\<lparr>st_ssn := s\<rparr>)) (\<lambda>(got, p', st1).
         bind_ok (is_sol_partial_ack (st_intf st1) p got (st_rsp st1)) (\<lambda>n. Inr (got, tx1, n, st1))))"

text \<open>
  The characters that were not accepted are sent again while the BMC accepts a part; \<open>fuel\<close>
  bounds the rounds. Each round that goes on takes an event of the socket.
\<close>

fun sol_resend :: "nat \<Rightarrow> crypto \<Rightarrow> bool \<Rightarrow> sol_tx \<Rightarrow> nat \<Rightarrow> lp_state \<Rightarrow> (bool \<times> sol_tx \<times> lp_state) outcome option" where
  "sol_resend fuel cr got tx n st =
     (if \<not> got \<or> n = 0 then Some (Inr (got, tx, st))
      else (case sol_packet (st_rsp st) of
        Inl f \<Rightarrow> Some (Inl f)
      | Inr s \<Rightarrow>
          if sp_unavailable s \<or> sp_is_nack s then Some (Inr (got, tx, st))
          else (case fuel of
            0 \<Rightarrow> None
          | Suc k \<Rightarrow>
              let st1 = (if rs_data_len (st_rsp st) \<noteq> 0 then sol_input st else st);
                  tx1 = tx\<lparr>tx_data := region (tx_data tx) (unat (sp_accepted s)) n\<rparr>
              in (case sol_round cr tx1 st1 of
                   Inl f \<Rightarrow> Some (Inl f)
                 | Inr (got', tx', n', st') \<Rightarrow> sol_resend k cr got' tx' n' st'))))"

declare sol_resend.simps [simp del]

definition ipmi_lanplus_send_sol :: "crypto \<Rightarrow> sol_tx \<Rightarrow> lp_state \<Rightarrow> (bool \<times> sol_tx \<times> lp_state) outcome option" where
  "ipmi_lanplus_send_sol cr tx st =
     (case sol_round cr (tx\<lparr>tx_acked := 0, tx_accepted := 0\<rparr>) st of
        Inl f \<Rightarrow> Some (Inl f)
      | Inr (got, tx', n, st') \<Rightarrow> sol_resend (Suc (length (st_net st'))) cr got tx' n st')"

text \<open>A command: its payload length is set when it is built.\<close>

definition ipmi_lanplus_send_ipmi_cmd :: "crypto \<Rightarrow> ipmi_rq \<Rightarrow> lp_state \<Rightarrow> (bool \<times> lp_state) outcome" where
  "ipmi_lanplus_send_ipmi_cmd cr req st =
     bind_ok (send_opened cr (ipmi_lanplus_recv_sol cr) \<lparr>pl_length = 0, pl_body = BIpmi req 0\<rparr> st)
       (\<lambda>(got, p, st'). Inr (got, st'))"

end
