(* ===== verification/LanplusTakes.thy ===== *)
theory LanplusTakes
  imports LanplusSend
begin

text \<open>
  How the operations of the RMCP+ transport use up the events of the socket: none adds one, and
  every response takes one. The loops that go on only with a response end by this measure.
\<close>

lemma timed_out_net: "timed_out st = (b, st') \<Longrightarrow> st_net st' = st_net st"
  by (auto simp: timed_out_def)

lemma send_packet_net [simp]: "st_net (snd (ipmi_lan_send_packet m st)) = st_net st"
  by (auto simp: ipmi_lan_send_packet_def split: list.splits bool.splits)

lemma build_v2x_net: "build_v2x cr p sq st = Inr (m, p', st') \<Longrightarrow> st_net st' = st_net st"
  by (auto simp: build_v2x_def bind_ok_Inr_iff lanplus_rand_def split: if_split_asm)

lemma transmit_net:
  assumes "transmit cr b entry p st = Inr (ok, entry', p', st')"
  shows "st_net st' = st_net st"
proof (cases "\<exists>req sq. pl_body p = BIpmi req sq")
  case True
  then obtain req sq where p: "pl_body p = BIpmi req sq"
    by blast
  then obtain a m st1 where m: "st' = snd (ipmi_lan_send_packet m st1)"
    "(if rq_netfn req = IPMI_NETFN_APP \<and> rq_cmd req = IPMI_GET_CHANNEL_AUTH_CAP \<and> bmc_id (st_ssn st) = 0
      then ipmi_lanplus_build_v15_ipmi_cmd req st else ipmi_lanplus_build_v2x_ipmi_cmd cr req b st) = Inr (a, m, st1)"
    using assms by (auto simp: transmit_def bind_ok_Inr_iff case_prod_beta split: if_split_asm)
  have "st_net st1 = st_net st"
    using m(2) by (auto simp: ipmi_lanplus_build_v15_ipmi_cmd_def ipmi_lanplus_build_v2x_ipmi_cmd_def bind_ok_Inr_iff
        Let_def split: if_split_asm dest!: build_v2x_net)
  then show ?thesis
    using m(1) by simp
next
  case False
  then obtain m p1 st1 where "st' = snd (ipmi_lan_send_packet m st1)" "build_v2x cr p 0 st = Inr (m, p1, st1)"
    using assms
    by (cases "pl_body p") (auto simp: transmit_def bind_ok_Inr_iff case_prod_beta split: if_split_asm)
  then show ?thesis
    using build_v2x_net by simp
qed

text \<open>What a receiver may do with the events of the socket: drop some, and at least one for a response.\<close>

definition takes :: "(lp_state \<Rightarrow> (bool \<times> lp_state) outcome) \<Rightarrow> bool" where
  "takes f \<longleftrightarrow> (\<forall>st got st'. f st = Inr (got, st') \<longrightarrow>
     length (st_net st') \<le> length (st_net st) \<and> (got \<longrightarrow> length (st_net st') < length (st_net st)))"

lemma takesD:
  "takes f \<Longrightarrow> f st = Inr (got, st') \<Longrightarrow>
   length (st_net st') \<le> length (st_net st) \<and> (got \<longrightarrow> length (st_net st') < length (st_net st))"
  by (simp add: takes_def)

lemma poll_recv_le: "ipmi_lan_poll_recv cr st = Inr (res, st') \<Longrightarrow> length (st_net st') \<le> length (st_net st)"
  using poll_recv_polled by blast

lemma poll_answer_takes: "takes (poll_answer cr)"
proof -
  have "length (st_net st') \<le> length (st_net st) \<and> (got \<longrightarrow> length (st_net st') < length (st_net st))"
    if "poll_answer cr st = Inr (got, st')" for st got st'
    using that
  proof (induction cr st rule: poll_answer.induct)
    case (1 cr st)
    obtain res st1 where r: "ipmi_lan_poll_recv cr st = Inr (res, st1)"
      using "1.prems" by (subst (asm) poll_answer.simps) (auto split: sum.splits)
    show ?case
    proof (cases "res = PRsp \<and> rs_ccode (st_rsp st1) = 0xCF")
      case True
      then have "poll_answer cr st1 = Inr (got, st')"
        using "1.prems" r by (subst (asm) poll_answer.simps) simp
      then show ?thesis
        using "1.IH" [OF r refl] True poll_recv_le [OF r] by fastforce
    next
      case False
      then show ?thesis
        using "1.prems" r poll_recv_le [OF r] poll_recv_takes [of cr st st1]
        by (subst (asm) poll_answer.simps) (auto split: if_split_asm)
    qed
  qed
  then show ?thesis
    by (simp add: takes_def)
qed

lemma await_takes:
  assumes "takes sol" "await cr sol p entry rsp st = Inr (stop, rsp', st')"
  shows "length (st_net st') \<le> length (st_net st) \<and> (rsp' \<longrightarrow> rsp \<or> length (st_net st') < length (st_net st))"
proof (cases "\<exists>tx. pl_body p = BSol tx")
  case True
  then obtain tx where tx: "pl_body p = BSol tx"
    by blast
  show ?thesis
  proof (cases "tx_seq tx = 0")
    case False
    then obtain got st1 where s: "sol st = Inr (got, st1)" "st_net st' = st_net st1" "rsp' \<longrightarrow> got"
      using assms(2) tx by (auto simp: await_def bind_ok_Inr_iff sol_input_def split: if_split_asm)
    then show ?thesis
      using takesD [OF assms(1) s(1)] by auto
  qed (use assms(2) tx in \<open>simp add: await_def\<close>)
next
  case False
  then obtain got st1 where s: "poll_answer cr st = Inr (got, st1)" "st_net st' = st_net st1" "rsp' \<longrightarrow> got"
    using assms(2) by (cases "pl_body p") (auto simp: await_def bind_ok_Inr_iff split: if_split_asm)
  then show ?thesis
    using takesD [OF poll_answer_takes s(1)] by auto
qed

lemma send_loop_takes:
  assumes "takes sol" "send_loop cr sol saved k isRetry xmit entry rsp p st = Inr (rsp', p', st')"
  shows "length (st_net st') \<le> length (st_net st) \<and> (rsp' \<longrightarrow> rsp \<or> length (st_net st') < length (st_net st))"
  using assms(2)
proof (induction k arbitrary: isRetry xmit entry rsp p st rule: less_induct)
  case (less k)
  show ?case
  proof (cases k)
    case 0
    then show ?thesis
      using less.prems by (auto simp: finish_def on_ssn_def)
  next
    case (Suc j)
    obtain ok e1 p1 st1 where t: "(if xmit then transmit cr isRetry entry p st else Inr (True, entry, p, st)) = Inr (ok, e1, p1, st1)"
      using less.prems Suc by (auto simp: bind_ok_Inr_iff)
    have n1: "st_net st1 = st_net st"
      using t transmit_net by (auto split: if_split_asm)
    show ?thesis
    proof (cases "ok \<and> \<not> noanswer (st_intf st1)")
      case False
      then show ?thesis
        using less.prems Suc t n1 by (auto simp: finish_def on_ssn_def split: if_split_asm)
    next
      case True
      define st2 where "st2 = (case state_after (pl_body p1) of None \<Rightarrow> st1
        | Some s \<Rightarrow> on_ssn (\<lambda>n. n\<lparr>session_state := s\<rparr>) st1)"
      have n2: "st_net st2 = st_net st"
        using n1 by (simp add: st2_def on_ssn_def split: option.split)
      obtain stop rsp1 st3 where a: "await cr sol p1 e1 rsp st2 = Inr (stop, rsp1, st3)"
        using less.prems Suc t True by (auto simp: bind_ok_Inr_iff Let_def st2_def)
      note n3 = await_takes [OF assms(1) a]
      show ?thesis
      proof (cases stop)
        case True
        then show ?thesis
          using less.prems Suc t \<open>ok \<and> _\<close> a n2 n3 by (auto simp: Let_def st2_def finish_def on_ssn_def)
      next
        case False
        define k1 where "k1 = (if state_after (pl_body p1) = None then j else 0)"
        obtain late st4 where c: "timed_out st3 = (late, st4)"
          by fastforce
        define st5 where "st5 = (if late then on_ssn (\<lambda>s. s\<lparr>ssn_timeout := ssn_timeout s + 1\<rparr>) st4 else st4)"
        have n5: "st_net st5 = st_net st3"
          using timed_out_net [OF c] by (simp add: st5_def on_ssn_def)
        have "send_loop cr sol saved k1 True late e1 rsp1 p1 st5 = Inr (rsp', p', st')"
          using less.prems Suc t \<open>ok \<and> _\<close> a False c by (auto simp: Let_def st2_def k1_def st5_def)
        moreover have "k1 < k"
          using Suc by (simp add: k1_def)
        ultimately show ?thesis
          using less.IH [of k1] n2 n3 n5 by fastforce
      qed
    qed
  qed
qed

lemma send_opened_takes:
  "takes sol \<Longrightarrow> send_opened cr sol p st = Inr (rsp, p', st') \<Longrightarrow>
   length (st_net st') \<le> length (st_net st) \<and> (rsp \<longrightarrow> length (st_net st') < length (st_net st))"
  unfolding send_opened_def by (drule send_loop_takes) auto

lemma ack_takes: "ack_sol_packet cr st = Inr st' \<Longrightarrow> length (st_net st') \<le> length (st_net st)"
  using send_opened_takes [of "\<lambda>_. Inl Dangling" cr]
  by (fastforce simp: ack_sol_packet_def bind_ok_Inr_iff takes_def split: if_split_asm)

lemma check_new_net: "check_sol_packet_for_new_data st = Inr (n, st') \<Longrightarrow> st_net st' = st_net st"
  by (auto simp: check_sol_packet_for_new_data_def bind_ok_Inr_iff Let_def split: if_split_asm)

lemma recv_sol_takes: "takes (ipmi_lanplus_recv_sol cr)"
proof -
  have "length (st_net st') \<le> length (st_net st) \<and> (got \<longrightarrow> length (st_net st') < length (st_net st))"
    if h: "ipmi_lanplus_recv_sol cr st = Inr (got, st')" for st got st'
  proof -
    obtain res st1 where r: "ipmi_lan_poll_recv cr st = Inr (res, st1)"
      using h by (auto simp: ipmi_lanplus_recv_sol_def bind_ok_Inr_iff)
    have "length (st_net st') \<le> length (st_net st1)" "got \<longrightarrow> res = PRsp"
      using h r ack_takes check_new_net
      by (auto simp: ipmi_lanplus_recv_sol_def bind_ok_Inr_iff split: if_split_asm)
    then show ?thesis
      using poll_recv_le [OF r] poll_recv_takes [of cr st st1] r by fastforce
  qed
  then show ?thesis
    by (simp add: takes_def)
qed

end
