(* ===== verification/LanplusCryptProps.thy ===== *)
theory LanplusCryptProps
  imports LanplusCrypt
begin

text \<open>
  The properties of the RMCP+ cryptography under the documented behaviour of the library
  (\<open>crypto_ok\<close>): encryption is undone by decryption, the session keys are complete, and what
  happens when memory runs out while a code is checked.
\<close>

section \<open>Encryption\<close>

lemma crypto_ok_hmac: "crypto_ok cr \<Longrightarrow> length (cr_hmac cr md k d) = digest_length md"
  by (simp add: crypto_ok_def)

lemma crypto_ok_aes:
  assumes "crypto_ok cr" "length iv = 16" "length k = 16" "length d mod 16 = 0" "d \<noteq> []"
  obtains c where "cr_encrypt cr iv k d = Some c" "length c = length d" "cr_decrypt cr iv k c = Some d"
  using assms unfolding crypto_ok_def by meson

lemma length_conf_trailer [simp]: "length (conf_trailer p) = p + 1"
  by (simp add: conf_trailer_def)

lemma conf_pad_less: "conf_pad n < 16"
  by (simp add: conf_pad_def Let_def)

lemma conf_pad_block: "(n + (conf_pad n + 1)) mod 16 = 0"
proof -
  have "(n + 1 + conf_pad n) mod 16 = ((n + 1) mod 16 + conf_pad n) mod 16"
    by (simp add: mod_simps)
  also have "\<dots> = 0"
    by (simp add: conf_pad_def Let_def)
  finally show ?thesis
    by (simp add: add.commute add.left_commute)
qed

lemma check_pad_ok:
  "(\<And>j. i \<le> j \<Longrightarrow> j < i + k \<Longrightarrow> ps + j < length d \<and> unat (d ! (ps + j)) = j + 1) \<Longrightarrow>
   check_pad d sz ps i k = Inr ()"
  by (induction k arbitrary: i) auto

lemma unat_small_byte: "n < 256 \<Longrightarrow> unat (of_nat n :: byte) = n"
  by (simp add: unat_of_nat)

lemma decrypt_padded:
  assumes "crypto_ok cr" "length iv = 16" "16 \<le> length key" "length input < 65000"
    and "cr_encrypt cr iv (take 16 key) (input @ conf_trailer (conf_pad (length input))) = Some c"
  shows "lanplus_decrypt_payload cr True IPMI_CRYPT_AES_CBC_128 key (iv @ c) =
    Inr (Some (input @ conf_trailer (conf_pad (length input)), of_nat (length input)))"
proof -
  let ?p = "conf_pad (length input)"
  let ?d = "input @ conf_trailer ?p"
  have len: "length ?d mod 16 = 0" and ne: "?d \<noteq> []"
    using conf_pad_block [of "length input"] by (simp_all add: conf_trailer_def)
  have key: "length (take 16 key) = 16"
    using assms(3) by simp
  obtain c' where "cr_encrypt cr iv (take 16 key) ?d = Some c'" "length c' = length ?d"
    "cr_decrypt cr iv (take 16 key) c' = Some ?d"
    using crypto_ok_aes [OF assms(1,2) key len ne] by blast
  then have c: "length c = length ?d" "cr_decrypt cr iv (take 16 key) c = Some ?d"
    using assms(5) by auto
  have p: "?p < 16" "last ?d = (of_nat ?p :: byte)"
    using conf_pad_less by (auto simp: conf_trailer_def)
  have ps: "(of_nat (length ?d) - ucast (last ?d) - 1 :: u16) = of_nat (length input)"
  proof -
    have "(ucast (of_nat ?p :: byte) :: u16) = of_nat ?p"
      using p(1) by (simp add: word_unat_eq_iff unsigned_ucast_eq unsigned_of_nat take_bit_nat_eq_self)
    then show ?thesis
      using p(2) by simp
  qed
  have "check_pad ?d (length (iv @ c)) (length input) 0 ?p = Inr ()"
  proof (rule check_pad_ok)
    fix j assume "j < 0 + ?p"
    then show "length input + j < length ?d \<and> unat (?d ! (length input + j)) = j + 1"
      using p(1) unat_small_byte [of "Suc j"] by (simp add: conf_trailer_def nth_append)
  qed
  then show ?thesis
    using c len ne assms(2,4) ps p unat_small_byte [of ?p]
    by (simp add: lanplus_decrypt_payload_def lanplus_decrypt_aes_cbc_128_def alg_defs Let_def
        unat_of_nat)
qed

lemma aes_payload_roundtrip:
  assumes "crypto_ok cr" "length iv = 16" "16 \<le> length key" "length input < 65000"
  shows "\<exists>out n d m. lanplus_encrypt_payload cr True (Some iv) IPMI_CRYPT_AES_CBC_128 key input = Inr (Some (out, n))
    \<and> unat n = length out \<and> length out mod 16 = 0
    \<and> lanplus_decrypt_payload cr True IPMI_CRYPT_AES_CBC_128 key out = Inr (Some (d, m))
    \<and> unat m = length input \<and> take (unat m) d = input"
proof -
  let ?d = "input @ conf_trailer (conf_pad (length input))"
  have len: "length ?d mod 16 = 0" and ne: "?d \<noteq> []"
    using conf_pad_block [of "length input"] by (simp_all add: conf_trailer_def)
  have key: "length (take 16 key) = 16"
    using assms(3) by simp
  obtain c where c: "cr_encrypt cr iv (take 16 key) ?d = Some c" "length c = length ?d"
    using crypto_ok_aes [OF assms(1,2) key len ne] by blast
  have small: "16 + length c < 65536"
    using c(2) assms(4) conf_pad_less [of "length input"] by simp
  have "lanplus_encrypt_payload cr True (Some iv) IPMI_CRYPT_AES_CBC_128 key input =
      Inr (Some (iv @ c, of_nat (16 + length c)))"
    using c(1) len ne assms(4)
    by (simp add: lanplus_encrypt_payload_def lanplus_encrypt_aes_cbc_128_def alg_defs
        IPMI_MAX_PAYLOAD_SIZE_def)
  moreover have "unat (of_nat (16 + length c) :: u16) = length (iv @ c)"
    using small assms(2) by (simp add: unat_of_nat del: of_nat_add)
  moreover have "length (iv @ c) mod 16 = 0"
    using len assms(2) unfolding c(2) length_append [of iv] by presburger
  moreover have "unat (of_nat (length input) :: u16) = length input"
    using assms(4) by (simp add: unat_of_nat)
  ultimately show ?thesis
    using decrypt_padded [OF assms c(1)] by (auto simp del: of_nat_add)
qed

text \<open>What is encrypted for a session is decrypted to the same payload: for any payload that fits
  the 16-bit length, encryption stores the initialization vector and whole AES blocks and reports
  exactly their length, and decrypting them with the same key passes the padding check and
  reports exactly the payload's length, with the payload at the front.\<close>

theorem lanplus_payload_roundtrip:
  assumes "crypto_ok cr" "length iv = 16" "16 \<le> length key" "length input < 65000"
  shows "\<exists>out n d m. lanplus_encrypt_payload cr True (Some iv) IPMI_CRYPT_AES_CBC_128 key input = Inr (Some (out, n))
    \<and> unat n = length out \<and> length out mod 16 = 0
    \<and> lanplus_decrypt_payload cr True IPMI_CRYPT_AES_CBC_128 key out = Inr (Some (d, m))
    \<and> unat m = length input \<and> take (unat m) d = input"
  by (rule aes_payload_roundtrip [OF assms])

text \<open>A library that meets the documented behaviour: a keyed sum as digest, and no change as cipher.\<close>

definition plain_crypto :: crypto where
  "plain_crypto = \<lparr>cr_hmac = (\<lambda>md k d. replicate (digest_length md) (sum_list (k @ d))),
     cr_encrypt = (\<lambda>iv k d. Some d), cr_decrypt = (\<lambda>iv k d. Some d)\<rparr>"

lemma plain_crypto_ok: "crypto_ok plain_crypto"
  by (simp add: crypto_ok_def plain_crypto_def)

theorem lanplus_payload_roundtrip_witness:
  "\<exists>out n d m. lanplus_encrypt_payload plain_crypto True (Some (replicate 16 7)) IPMI_CRYPT_AES_CBC_128
      (replicate 16 1) [0x20, 0x18, 0xC8] = Inr (Some (out, n))
    \<and> unat n = length out \<and> length out mod 16 = 0
    \<and> lanplus_decrypt_payload plain_crypto True IPMI_CRYPT_AES_CBC_128 (replicate 16 1) out = Inr (Some (d, m))
    \<and> unat m = length [0x20, 0x18, 0xC8 :: byte] \<and> take (unat m) d = [0x20, 0x18, 0xC8]"
  by (rule lanplus_payload_roundtrip [OF plain_crypto_ok]) simp_all

section \<open>Keys\<close>

definition auth_md :: "byte \<Rightarrow> evp_md" where
  "auth_md alg = (if alg = IPMI_AUTH_RAKP_HMAC_SHA1 then EVP_sha1
     else if alg = IPMI_AUTH_RAKP_HMAC_MD5 then EVP_md5 else EVP_sha256)"

lemma hmac_auth: "supported_auth s \<Longrightarrow> lanplus_HMAC cr (auth_alg s) k d = Inr (cr_hmac cr (auth_md (auth_alg s)) k d)"
  by (auto simp: supported_auth_def lanplus_HMAC_def auth_md_def alg_defs)

lemma auth_digest: "supported_auth s \<Longrightarrow> auth_digest_ok (auth_alg s) (digest_length (auth_md (auth_alg s)))"
  by (auto simp: supported_auth_def auth_digest_ok_def auth_md_def alg_defs size_defs)

lemma digest_length_le: "digest_length md \<le> 32" "16 \<le> digest_length md"
  by (cases md; simp)+

lemma keys_generated:
  assumes "crypto_ok cr" "supported_auth s" "length (k1 s) = 32" "length (k2 s) = 32"
  shows "\<exists>s1 s2 s3. lanplus_generate_sik cr True i s = Inr (0, s1)
    \<and> lanplus_generate_k1 cr s1 = Inr (0, s2) \<and> lanplus_generate_k2 cr s2 = Inr (0, s3)
    \<and> take (sik_len s3) (sik s3) = cr_hmac cr (auth_md (auth_alg s))
        (take 20 (if kg (ssn_params i) ! 0 \<noteq> 0 then kg (ssn_params i) else authcode s)) (sik_input i s)
    \<and> take (k1_len s3) (k1 s3) = cr_hmac cr (auth_md (auth_alg s)) (take (sik_len s3) (sik s3)) (replicate 20 1)
    \<and> take (k2_len s3) (k2 s3) = cr_hmac cr (auth_md (auth_alg s)) (take (sik_len s3) (sik s3)) (replicate 20 2)
    \<and> 16 \<le> k2_len s3 \<and> k2_len s3 \<le> length (k2 s3)"
proof -
  let ?md = "auth_md (auth_alg s)"
  let ?key = "take 20 (if kg (ssn_params i) ! 0 \<noteq> 0 then kg (ssn_params i) else authcode s)"
  define m where "m = cr_hmac cr ?md ?key (sik_input i s)"
  define s1 where "s1 = s\<lparr>sik := put_at (replicate 32 0) 0 m, sik_len := length m\<rparr>"
  have some: "auth_alg s \<noteq> IPMI_AUTH_RAKP_NONE"
    using assms(2) by (auto simp: supported_auth_def alg_defs)
  have md: "length (cr_hmac cr ?md k d) = digest_length ?md" for k d
    using crypto_ok_hmac [OF assms(1)] .
  have dig: "auth_digest_ok (auth_alg s) (digest_length ?md)"
    using auth_digest [OF assms(2)] .
  have s1: "lanplus_generate_sik cr True i s = Inr (0, s1)"
    using some assms(2) md dig by (simp add: lanplus_generate_sik_def hmac_auth m_def s1_def)
  have sik: "take (sik_len s1) (sik s1) = m"
    using digest_length_le [of ?md] md by (simp add: s1_def m_def put_at_def)
  define m1 where "m1 = cr_hmac cr ?md m (replicate 20 1)"
  define s2 where "s2 = s1\<lparr>k1 := put_at (k1 s1) 0 m1, k1_len := length m1\<rparr>"
  have sup1: "supported_auth s1" and alg1: "auth_alg s1 = auth_alg s"
    using assms(2) by (simp_all add: s1_def supported_auth_def)
  have s2: "lanplus_generate_k1 cr s1 = Inr (0, s2)"
    using some md dig hmac_auth [OF sup1] by (simp add: lanplus_generate_k1_def sik alg1 m1_def s2_def)
  define m2 where "m2 = cr_hmac cr ?md m (replicate 20 2)"
  define s3 where "s3 = s2\<lparr>k2 := put_at (k2 s2) 0 m2, k2_len := length m2\<rparr>"
  have sup2: "supported_auth s2" and alg2: "auth_alg s2 = auth_alg s" "take (sik_len s2) (sik s2) = m"
    using sup1 alg1 sik by (simp_all add: s2_def supported_auth_def)
  have s3: "lanplus_generate_k2 cr s2 = Inr (0, s3)"
    using some md dig hmac_auth [OF sup2] by (simp add: lanplus_generate_k2_def alg2 m2_def s3_def)
  have "take (sik_len s3) (sik s3) = m" "take (k1_len s3) (k1 s3) = m1" "take (k2_len s3) (k2 s3) = m2"
    using alg2 assms(3,4) digest_length_le [of ?md] md
    by (simp_all add: s3_def s2_def s1_def m1_def m2_def put_at_def)
  moreover have "16 \<le> k2_len s3" "k2_len s3 \<le> length (k2 s3)"
    using assms(4) digest_length_le [of ?md] md by (simp_all add: s3_def s2_def s1_def m2_def put_at_def)
  ultimately show ?thesis
    using s1 s2 s3 by (auto simp: m_def m1_def m2_def)
qed

text \<open>With a supported authentication algorithm the session keys are generated without failing an
  assertion, and they are the ones of the specification: the integrity key is the code of both
  random numbers, the role and the user name under Kg, or under the password when Kg is empty;
  K1 and K2 are the codes of twenty bytes 1 and of twenty bytes 2 under the integrity key; the
  recorded lengths are those of the digests and K2 is long enough for AES.\<close>

theorem lanplus_keys_generated:
  assumes "crypto_ok cr" "supported_auth s" "length (k1 s) = 32" "length (k2 s) = 32"
  shows "\<exists>s1 s2 s3. lanplus_generate_sik cr True i s = Inr (0, s1)
    \<and> lanplus_generate_k1 cr s1 = Inr (0, s2) \<and> lanplus_generate_k2 cr s2 = Inr (0, s3)
    \<and> take (sik_len s3) (sik s3) = cr_hmac cr (auth_md (auth_alg s))
        (take 20 (if kg (ssn_params i) ! 0 \<noteq> 0 then kg (ssn_params i) else authcode s)) (sik_input i s)
    \<and> take (k1_len s3) (k1 s3) = cr_hmac cr (auth_md (auth_alg s)) (take (sik_len s3) (sik s3)) (replicate 20 1)
    \<and> take (k2_len s3) (k2 s3) = cr_hmac cr (auth_md (auth_alg s)) (take (sik_len s3) (sik s3)) (replicate 20 2)
    \<and> 16 \<le> k2_len s3 \<and> k2_len s3 \<le> length (k2 s3)"
  by (rule keys_generated [OF assms])

section \<open>Out of memory\<close>

text \<open>When \<open>malloc\<close> fails while the BMC's code is checked, the check reports a match: with a
  supported algorithm any RAKP 2 and any RAKP 4 code is accepted.\<close>

theorem lanplus_hmac_matches_without_memory:
  assumes "supported_auth s" "\<not> ipmi_oem_active i ''intelplus''"
  shows "lanplus_rakp2_hmac_matches cr False i s mac = Inr True
    \<and> lanplus_rakp4_hmac_matches cr False i s mac = Inr True"
  using assms by (simp add: lanplus_rakp2_hmac_matches_def lanplus_rakp4_hmac_matches_def Let_def)

definition sample_session :: ipmi_session where
  "sample_session = \<lparr>out_seq = 1, authcode = replicate 21 0x41, ssn_timeout = 1,
     session_state = LANPLUS_STATE_ACTIVE, requested_auth_alg = 1, requested_integrity_alg = 1,
     requested_crypt_alg = 1, auth_alg = 1, integrity_alg = 1, crypt_alg = 1, max_priv_level = 4,
     console_id = 0xA0A2A3A4, bmc_id = 0x02003E00, console_rand = replicate 16 3,
     bmc_rand = replicate 16 4, bmc_guid = replicate 16 5, requested_role = 0x14,
     rakp2_return_code = 0, sik = replicate 32 0, sik_len = 0, k1 = replicate 32 0, k1_len = 0,
     k2 = replicate 32 0, k2_len = 0, sol_sequence_number = 1\<rparr>"

lemma sample_session_auth: "supported_auth sample_session"
  by (simp add: sample_session_def supported_auth_def alg_defs)

theorem lanplus_keys_generated_witness:
  "\<exists>s1 s2 s3. lanplus_generate_sik plain_crypto True sample_intf sample_session = Inr (0, s1)
    \<and> lanplus_generate_k1 plain_crypto s1 = Inr (0, s2) \<and> lanplus_generate_k2 plain_crypto s2 = Inr (0, s3)
    \<and> 16 \<le> k2_len s3"
  using lanplus_keys_generated [OF plain_crypto_ok sample_session_auth, of sample_intf]
  by (auto simp: sample_session_def)

theorem lanplus_hmac_matches_without_memory_witness:
  "lanplus_rakp2_hmac_matches plain_crypto False sample_intf sample_session [] = Inr True
   \<and> lanplus_rakp4_hmac_matches plain_crypto False sample_intf sample_session [] = Inr True"
  by (rule lanplus_hmac_matches_without_memory [OF sample_session_auth])
    (simp add: ipmi_oem_active_def sample_intf_def)

end
