(* ===== verification/LanplusMsgProps.thy ===== *)
theory LanplusMsgProps
  imports LanplusMsg LanplusCryptProps Ipmb
begin

text \<open>
  The properties of the RMCP+ packets: the IPMI messages are valid IPMB messages at every
  level of encapsulation, and a packet built in an active session is read back with its header
  fields, verifies under the session's keys and decrypts to the payload it was built from.
\<close>

section \<open>IPMI messages\<close>

lemma length_ipmb_head [simp]: "length (ipmb_head a b) = 3"
  by (simp add: ipmb_head_def)

lemma length_close_csum [simp]: "length (close_csum xs) = Suc (length xs)"
  by (simp add: close_csum_def)

lemma sum_close_csum [simp]: "sum_list (close_csum xs) = 0"
  by (simp add: close_csum_def ipmi_csum_eq)

lemma ipmb_valid_msg: "3 \<le> length body \<Longrightarrow> ipmb_valid (ipmb_head a nf @ close_csum body)"
  by (simp add: ipmb_head_def ipmi_csum_eq numeral_2_eq_2 ipmb_valid_parts)

lemma ipmb_unwrap_msg: "ipmb_unwrap (ipmb_head a nf @ close_csum ([x, y, z, ch] @ m)) = m"
  by (simp add: ipmb_unwrap_def ipmb_head_def close_csum_def)

text \<open>C21: whatever the bridging, the IPMI message in an RMCP+ payload is a valid IPMB message, and so
  is the message inside each Send Message wrapper; the payload length announced for it is its
  length.\<close>

theorem lanplus_wire_valid:
  assumes "getIpmiPayloadWireRep bridge i req rq_seq curr_seq = (m, extra)"
    and "length (rq_data req) < 65000" "plen = of_nat (length (rq_data req) + 7)"
  shows "ipmb_valid m \<and> unat (plen + extra) = length m
    \<and> (bridged_request bridge i \<noteq> 0 \<longrightarrow> ipmb_valid (ipmb_unwrap m))
    \<and> (bridged_request bridge i = 2 \<longrightarrow> ipmb_valid (ipmb_unwrap (ipmb_unwrap m)))"
proof -
  have len: "unat (of_nat (length (rq_data req) + 7 + k) :: u16) = length (rq_data req) + 7 + k" if "k \<le> 16" for k
    using that assms(2) by (simp add: unat_of_nat del: of_nat_add)
  have "bridged_request bridge i \<in> {0, 1, 2}"
    by (simp add: bridged_request_def)
  then consider "bridged_request bridge i = 0" | "bridged_request bridge i = 1" | "bridged_request bridge i = 2"
    by auto
  then show ?thesis
    by cases (use assms len [of 0] len [of 8] len [of 16] in
        \<open>auto simp: getIpmiPayloadWireRep_def ipmb_valid_msg ipmb_unwrap_msg simp del: append_Cons\<close>)
qed

theorem lanplus_wire_valid_witness:
  "\<exists>m extra. getIpmiPayloadWireRep True (sample_intf\<lparr>target_addr := 0x72, transit_addr := 0x82\<rparr>) sample_rq 5 5 = (m, extra)
    \<and> ipmb_valid m \<and> unat (7 + extra) = length m \<and> ipmb_valid (ipmb_unwrap m)
    \<and> ipmb_valid (ipmb_unwrap (ipmb_unwrap m))"
proof -
  let ?i = "sample_intf\<lparr>target_addr := 0x72, transit_addr := 0x82\<rparr>"
  obtain m extra where m: "getIpmiPayloadWireRep True ?i sample_rq 5 5 = (m, extra)"
    by (cases "getIpmiPayloadWireRep True ?i sample_rq 5 5")
  have "bridged_request True ?i = 2"
    by (simp add: bridged_request_def our_address_def sample_intf_def)
  then show ?thesis
    using lanplus_wire_valid [OF m, of 7] m by (simp add: sample_rq_def)
qed

section \<open>The session packet\<close>

lemma length_v2x_header [simp]: "length (v2x_header s pt n) = 16"
  by (simp add: v2x_header_def Let_def)

definition known_type :: "byte \<Rightarrow> bool" where
  "known_type t \<longleftrightarrow> t AND 0xC0 = 0"

fun known_body :: "v2_body \<Rightarrow> bool" where
  "known_body (BOther t) = False"
| "known_body b = True"

lemma payload_type_known: "known_body b \<Longrightarrow> known_type (payload_type b)"
  by (cases b) (simp_all add: known_type_def payload_types)

lemma type_flags:
  assumes "known_type t"
  shows "(t OR flag a 0x80 OR flag b 0x40) AND 0x80 \<noteq> 0 \<longleftrightarrow> a"
    "(t OR flag a 0x80 OR flag b 0x40) AND 0x40 \<noteq> 0 \<longleftrightarrow> b"
    "(t OR flag a 0x80 OR flag b 0x40) AND 0x3F = t"
proof -
  have t80: "t AND 0x80 = 0" and t40: "t AND 0x40 = 0" and t3F: "t AND 0x3F = t"
  proof -
    have "(t AND 0xC0) AND 0x80 = t AND 0x80" "(t AND 0xC0) AND 0x40 = t AND 0x40"
      by (simp_all add: and.assoc)
    then show "t AND 0x80 = 0" "t AND 0x40 = 0"
      using assms by (simp_all only: known_type_def and_zero_eq zero_and_eq)
    have "(255::byte) = - 1"
      by simp
    then have "t AND 255 = t"
      by (metis bit.conj_one_right)
    then have "(t AND 0xC0) OR (t AND 0x3F) = t"
      by (simp flip: bit.conj_disj_distrib)
    then show "t AND 0x3F = t"
      using assms by (simp add: known_type_def)
  qed
  show "(t OR flag a 0x80 OR flag b 0x40) AND 0x80 \<noteq> 0 \<longleftrightarrow> a"
    "(t OR flag a 0x80 OR flag b 0x40) AND 0x40 \<noteq> 0 \<longleftrightarrow> b"
    "(t OR flag a 0x80 OR flag b 0x40) AND 0x3F = t"
    by (cases a; cases b; simp add: flag_def bit.conj_disj_distrib2 t80 t40 t3F)+
qed

text \<open>The header fields of an active session's packet, read back.\<close>

lemma read_v2x_header:
  assumes "session_state s = LANPLUS_STATE_ACTIVE" "known_type pt"
    and "rs_data rs = v2x_header s pt n @ rest"
  shows "read_session_data rs 4 =
    (rs\<lparr>rs_authtype := IPMI_SESSION_AUTHTYPE_RMCP_PLUS, rs_bEncrypted := (crypt_alg s \<noteq> IPMI_CRYPT_NONE),
        rs_bAuthenticated := (integrity_alg s \<noteq> IPMI_INTEGRITY_NONE), rs_payloadtype := pt,
        rs_id := bmc_id s, rs_seq := out_seq s, rs_msglen := n\<rparr>, 16)"
proof -
  have d: "rs_data rs = [6, 0, 0xFF, 7, 6, pt OR flag (crypt_alg s \<noteq> IPMI_CRYPT_NONE) 0x80
      OR flag (integrity_alg s \<noteq> IPMI_INTEGRITY_NONE) 0x40] @ le32 (bmc_id s) @ le32 (out_seq s) @ le16 n @ rest"
    using assms(1,3) by (simp add: v2x_header_def Let_def)
  have "drop 6 (rs_data rs) = le32 (bmc_id s) @ le32 (out_seq s) @ le16 n @ rest"
    "drop 10 (rs_data rs) = le32 (out_seq s) @ le16 n @ rest" "drop 14 (rs_data rs) = le16 n @ rest"
    "rs_data rs ! 4 = 6"
    "rs_data rs ! 5 = pt OR flag (crypt_alg s \<noteq> IPMI_CRYPT_NONE) 0x80
      OR flag (integrity_alg s \<noteq> IPMI_INTEGRITY_NONE) 0x40"
    by (simp_all add: d)
  then show ?thesis
    using type_flags [OF assms(2)]
    by (simp add: read_session_data_def read_session_data_v2x_def IPMI_SESSION_AUTHTYPE_RMCP_PLUS_def Let_def)
qed

definition supported_crypt :: "ipmi_session \<Rightarrow> bool" where
  "supported_crypt s \<longleftrightarrow> crypt_alg s \<in> {IPMI_CRYPT_NONE, IPMI_CRYPT_AES_CBC_128}"

definition supported_integrity :: "ipmi_session \<Rightarrow> bool" where
  "supported_integrity s \<longleftrightarrow> integrity_alg s \<in> {IPMI_INTEGRITY_NONE, IPMI_INTEGRITY_HMAC_SHA1_96,
     IPMI_INTEGRITY_HMAC_MD5_128, IPMI_INTEGRITY_HMAC_SHA256_128}"

lemma length_fit [simp]: "length (fit n xs) = n"
  by (simp add: fit_def)

lemma fit_all: "length xs = n \<Longrightarrow> fit n xs = xs"
  by (simp add: fit_def)

text \<open>The payload part of an active session's packet is as long as announced, and decrypts.\<close>

lemma v2x_payload_opens:
  assumes "crypto_ok cr" "supported_crypt s" "length iv = 16" "16 \<le> length (k2 s)"
    and "session_state s = LANPLUS_STATE_ACTIVE" "length wire = unat n" "unat n < 65000"
  obtains pay n' d m where "v2x_payload cr (Some iv) s wire n = Inr (pay, n')" "length pay = unat n'"
    "lanplus_decrypt_payload cr True (crypt_alg s) (k2 s) pay = Inr (Some (d, m))" "take (unat m) d = wire"
proof (cases "crypt_alg s = IPMI_CRYPT_NONE")
  case True
  have n: "of_nat (length wire) = n"
    using assms(6) by simp
  show ?thesis
    using True assms(5-7) n
    by (intro that [of wire n wire n])
      (simp_all add: v2x_payload_def lanplus_encrypt_payload_def lanplus_decrypt_payload_def fit_all Let_def)
next
  case False
  then have alg: "crypt_alg s = IPMI_CRYPT_AES_CBC_128"
    using assms(2) by (simp add: supported_crypt_def)
  have w: "length wire < 65000"
    using assms(6,7) by simp
  obtain out n' d m where "lanplus_encrypt_payload cr True (Some iv) (crypt_alg s) (k2 s) wire = Inr (Some (out, n'))"
    "unat n' = length out" "lanplus_decrypt_payload cr True (crypt_alg s) (k2 s) out = Inr (Some (d, m))"
    "unat m = length wire" "take (unat m) d = wire"
    using aes_payload_roundtrip [OF assms(1,3,4) w] alg by auto
  then show ?thesis
    using False assms(5,6) by (intro that [of out n' d m]) (simp_all add: v2x_payload_def fit_all Let_def)
qed

text \<open>The trailer of an active session's packet makes the packet verify, whatever follows it.\<close>

lemma integrity_code:
  assumes "crypto_ok cr" "supported_integrity s" "integrity_alg s \<noteq> IPMI_INTEGRITY_NONE"
  obtains c md where "integrity_code_length (integrity_alg s) = Inr c"
    "\<forall>k d. lanplus_HMAC cr (integrity_alg s) k d = Inr (cr_hmac cr md k d)"
    "\<forall>k d. length (cr_hmac cr md k d) = digest_length md" "c \<le> digest_length md" "c \<le> 16"
    "integrity_digest_ok (integrity_alg s) (digest_length md)"
proof -
  have len: "length (cr_hmac cr md k d) = digest_length md" for md k d
    using crypto_ok_hmac [OF assms(1)] .
  consider "integrity_alg s = IPMI_INTEGRITY_HMAC_SHA1_96" | "integrity_alg s = IPMI_INTEGRITY_HMAC_MD5_128"
    | "integrity_alg s = IPMI_INTEGRITY_HMAC_SHA256_128"
    using assms(2,3) by (auto simp: supported_integrity_def)
  then show ?thesis
  proof cases
    case 1
    then show ?thesis
      by (intro that [of 12 EVP_sha1])
        (simp_all add: len integrity_code_length_def lanplus_HMAC_def integrity_digest_ok_def alg_defs size_defs)
  next
    case 2
    then show ?thesis
      by (intro that [of 16 EVP_md5])
        (simp_all add: len integrity_code_length_def lanplus_HMAC_def integrity_digest_ok_def alg_defs size_defs)
  next
    case 3
    then show ?thesis
      by (intro that [of 16 EVP_sha256])
        (simp_all add: len integrity_code_length_def lanplus_HMAC_def integrity_digest_ok_def alg_defs size_defs)
  qed
qed

lemma trailer_verifies:
  assumes "crypto_ok cr" "supported_integrity s" "session_state s = LANPLUS_STATE_ACTIVE" "4 \<le> length front"
  obtains t where "v2x_trailer cr i s front n = Inr t"
    "\<forall>rs rest. rs_data rs = front @ t @ rest \<longrightarrow> rs_data_len rs = int (length (front @ t)) \<longrightarrow>
      lanplus_has_valid_auth_code cr rs s = Inr True"
proof (cases "integrity_alg s = IPMI_INTEGRITY_NONE")
  case True
  then show ?thesis
    by (intro that [of "[]"]) (simp_all add: v2x_trailer_def lanplus_has_valid_auth_code_def)
next
  case False
  obtain c md where c: "integrity_code_length (integrity_alg s) = Inr c"
    "\<forall>k d. lanplus_HMAC cr (integrity_alg s) k d = Inr (cr_hmac cr md k d)"
    "\<forall>k d. length (cr_hmac cr md k d) = digest_length md" "c \<le> digest_length md" "c \<le> 16"
    "integrity_digest_ok (integrity_alg s) (digest_length md)"
    by (rule integrity_code [OF assms(1,2) False])
  let ?p = "integrity_pad (ipmi_oem_active i ''icts'') n"
  define pre where "pre = front @ replicate ?p 0xFF @ [of_nat ?p, 0x07]"
  define mac where "mac = cr_hmac cr md (take (k1_len s) (k1 s)) (drop 4 pre)"
  let ?t = "replicate ?p 0xFF @ [of_nat ?p, 0x07] @ take c mac"
  have pre: "front @ ?t = pre @ take c mac"
    by (simp add: pre_def)
  have mac: "length mac = digest_length md" "length (take c mac) = c"
    using c(3,4) by (simp_all add: mac_def min_absorb2)
  have "v2x_trailer cr i s front n = Inr ?t"
    using assms(3) False c(1,6) mac(1) c(2) unfolding mac_def pre_def
    by (simp add: v2x_trailer_def Let_def)
  moreover have "lanplus_has_valid_auth_code cr rs s = Inr True"
    if rs: "rs_data rs = front @ ?t @ rest" "rs_data_len rs = int (length (front @ ?t))" for rs rest
  proof -
    have d: "rs_data rs = pre @ take c mac @ rest" and l: "rs_data_len rs = int (length pre + c)"
      using rs pre mac(2) unfolding append_assoc [of front ?t rest, symmetric] pre by simp_all
    have four: "4 \<le> length pre"
      using assms(4) by (simp add: pre_def)
    have body: "region (rs_data rs) 4 (length pre + c - 4 - c) = drop 4 pre"
      using four by (simp add: d region_def)
    have code: "region (rs_data rs) (length pre + c - c) c = take c mac"
      using mac(2) by (simp add: d region_def)
    show ?thesis
      using c(1,4) mac l four False body code c(2) unfolding mac_def [symmetric]
      by (auto simp: lanplus_has_valid_auth_code_def size_defs memcmp_eq_def Let_def nat_int_add mac_def [symmetric])
  qed
  ultimately show ?thesis
    by (intro that [of ?t]) blast+
qed

text \<open>C1: a packet built in an active session is read back as what was sent: for every supported
  integrity and encryption algorithm building it succeeds and uses up the sequence number, and
  a receiver with the session's keys that finds it in its buffer (with anything behind it) reads
  the payload type, the BMC's session id and the sequence number, verifies the authentication
  code, and decrypts the announced number of bytes to exactly the payload.\<close>

theorem lanplus_packet_roundtrip:
  assumes "crypto_ok cr" "length iv = 16" "16 \<le> length (k2 s)"
    and "session_state s = LANPLUS_STATE_ACTIVE" "supported_crypt s" "supported_integrity s"
    and "payload_wire bridge i p curr_seq = Inr (wire, n)" "length wire = unat n" "unat n < 65000"
    and "known_body (pl_body p)"
  shows "\<exists>p' msg. ipmi_lanplus_build_v2x_msg cr (Some iv) bridge i s p curr_seq =
        Inr (s\<lparr>out_seq := next_out_seq (out_seq s)\<rparr>, p', msg)
    \<and> (\<forall>rs rest. rs_data rs = msg @ rest \<longrightarrow> rs_data_len rs = int (length msg) \<longrightarrow>
        (let (r, off) = read_session_data rs IPMI_LANPLUS_OFFSET_AUTHTYPE in
         off = 16 \<and> rs_payloadtype r = payload_type (pl_body p) \<and> rs_id r = bmc_id s \<and> rs_seq r = out_seq s
         \<and> (rs_bEncrypted r \<longleftrightarrow> crypt_alg s \<noteq> IPMI_CRYPT_NONE)
         \<and> lanplus_has_valid_auth_code cr r s = Inr True
         \<and> (\<exists>d m. lanplus_decrypt_payload cr True (crypt_alg s) (k2 s)
                (region (rs_data r) off (unat (rs_msglen r))) = Inr (Some (d, m)) \<and> take (unat m) d = wire)))"
proof -
  obtain pay n' d m where pay: "v2x_payload cr (Some iv) s wire n = Inr (pay, n')" "length pay = unat n'"
    "lanplus_decrypt_payload cr True (crypt_alg s) (k2 s) pay = Inr (Some (d, m))" "take (unat m) d = wire"
    by (rule v2x_payload_opens [OF assms(1,5,2,3,4,8,9)])
  define h where "h = v2x_header s (payload_type (pl_body p)) n'"
  have h: "length h = 16" "4 \<le> length (h @ pay)"
    by (simp_all add: h_def)
  obtain t where t: "v2x_trailer cr i s (h @ pay) (unat n') = Inr t"
    "\<forall>rs rest. rs_data rs = (h @ pay) @ t @ rest \<longrightarrow> rs_data_len rs = int (length ((h @ pay) @ t)) \<longrightarrow>
      lanplus_has_valid_auth_code cr rs s = Inr True"
    by (rule trailer_verifies [OF assms(1,6,4) h(2), of i "unat n'"])
  have "ipmi_lanplus_build_v2x_msg cr (Some iv) bridge i s p curr_seq =
      Inr (s\<lparr>out_seq := next_out_seq (out_seq s)\<rparr>, p\<lparr>pl_length := n'\<rparr>, (h @ pay) @ t)"
    using assms(7) pay(1) t(1) by (simp add: ipmi_lanplus_build_v2x_msg_def h_def)
  moreover have "let (r, off) = read_session_data rs IPMI_LANPLUS_OFFSET_AUTHTYPE in
       off = 16 \<and> rs_payloadtype r = payload_type (pl_body p) \<and> rs_id r = bmc_id s \<and> rs_seq r = out_seq s
       \<and> (rs_bEncrypted r \<longleftrightarrow> crypt_alg s \<noteq> IPMI_CRYPT_NONE)
       \<and> lanplus_has_valid_auth_code cr r s = Inr True
       \<and> (\<exists>d m. lanplus_decrypt_payload cr True (crypt_alg s) (k2 s)
              (region (rs_data r) off (unat (rs_msglen r))) = Inr (Some (d, m)) \<and> take (unat m) d = wire)"
    if rs: "rs_data rs = ((h @ pay) @ t) @ rest" "rs_data_len rs = int (length ((h @ pay) @ t))" for rs rest
  proof -
    obtain r where r: "read_session_data rs 4 = (r, 16)" "rs_payloadtype r = payload_type (pl_body p)"
      "rs_id r = bmc_id s" "rs_seq r = out_seq s" "rs_bEncrypted r \<longleftrightarrow> crypt_alg s \<noteq> IPMI_CRYPT_NONE"
      "rs_msglen r = n'" "rs_data r = rs_data rs" "rs_data_len r = rs_data_len rs"
      using read_v2x_header [OF assms(4) payload_type_known [OF assms(10)], of rs n' "pay @ t @ rest"] rs(1)
      by (simp add: h_def)
    have "region (rs_data rs) 16 (unat n') = pay"
      using rs(1) h(1) pay(2) by (simp add: region_def)
    then show ?thesis
      using r t(2) [rule_format, of r rest] rs pay(3,4) by (auto simp: IPMI_LANPLUS_OFFSET_AUTHTYPE_def)
  qed
  ultimately show ?thesis
    by blast
qed

theorem lanplus_packet_roundtrip_witness:
  "\<exists>p' msg. ipmi_lanplus_build_v2x_msg plain_crypto (Some (replicate 16 7)) False sample_intf sample_session
        \<lparr>pl_length = 7, pl_body = BIpmi sample_rq 3\<rparr> 3 = Inr (sample_session\<lparr>out_seq := 2\<rparr>, p', msg)"
proof -
  let ?p = "\<lparr>pl_length = 7, pl_body = BIpmi sample_rq 3\<rparr>"
  obtain wire n where w: "payload_wire False sample_intf ?p 3 = Inr (wire, n)" "length wire = unat n" "unat n = 7"
    by (simp add: payload_wire_def getIpmiPayloadWireRep_def bridged_request_def sample_rq_def)
  have "next_out_seq (out_seq sample_session) = 2"
    by (simp add: next_out_seq_def sample_session_def)
  then show ?thesis
    using lanplus_packet_roundtrip [OF plain_crypto_ok _ _ _ _ _ w(1), of "replicate 16 7" sample_session] w(2,3)
    by (auto simp: sample_session_def supported_crypt_def supported_integrity_def alg_defs)
qed

text \<open>the sequence number 0, which marks packets outside a session, is never used in one: after
  any packet the session's next number is not 0, and it is the successor of the old one except
  when that is 0.\<close>

theorem lanplus_out_seq_nonzero:
  "\<forall>s' p' msg. ipmi_lanplus_build_v2x_msg cr rnd bridge i s p curr_seq = Inr (s', p', msg) \<longrightarrow>
     out_seq s' \<noteq> 0 \<and> (out_seq s' = out_seq s + 1 \<or> out_seq s + 1 = 0 \<and> out_seq s' = 1)
     \<and> s' = s\<lparr>out_seq := out_seq s'\<rparr>"
  by (auto simp: ipmi_lanplus_build_v2x_msg_def bind_ok_Inr_iff next_out_seq_def Let_def split: prod.splits)

theorem lanplus_out_seq_nonzero_witness:
  "ipmi_lanplus_build_v2x_msg plain_crypto None False sample_intf
     (sample_session\<lparr>session_state := LANPLUS_STATE_PRESESSION, out_seq := 0xFFFFFFFF\<rparr>)
     \<lparr>pl_length = 1, pl_body = BRakp1 [0]\<rparr> 3 =
     Inr (sample_session\<lparr>session_state := LANPLUS_STATE_PRESESSION, out_seq := 1\<rparr>,
       \<lparr>pl_length = 1, pl_body = BRakp1 [0]\<rparr>, [6, 0, 0xFF, 7, 6, 0x12, 0, 0, 0, 0, 0, 0, 0, 0, 1, 0, 0]) \<and>
   out_seq (sample_session\<lparr>session_state := LANPLUS_STATE_PRESESSION, out_seq := 1\<rparr>) \<noteq> 0"
  (is "?build = Inr (?s', ?p, ?m) \<and> _")
proof -
  have z: "replicate 8 (0 :: byte) = [0, 0, 0, 0, 0, 0, 0, 0]"
    by (simp add: numeral_eq_Suc)
  have b: "?build = Inr (?s', ?p, ?m)"
    by (simp add: ipmi_lanplus_build_v2x_msg_def payload_wire_def v2x_payload_def v2x_trailer_def v2x_header_def
        payload_types flag_def next_out_seq_def fit_def le16_def sample_session_def z)
  then show ?thesis
    using lanplus_out_seq_nonzero [rule_format, OF b] by blast
qed

section \<open>The message buffer\<close>





end
