(* ===== verification/LanplusPollProps.thy ===== *)
theory LanplusPollProps
  imports LanplusPoll LanplusMsgProps
begin

text \<open>
  The properties of receiving in the RMCP+ transport: what a poll may return in an active
  session, which requests it takes off the list of pending ones, and the packets that make it
  leave its buffer or abort.
\<close>

section \<open>Authenticity\<close>

text \<open>A datagram whose last bytes are the code of what precedes them, from the fifth byte on.\<close>

definition lp_authentic :: "crypto \<Rightarrow> ipmi_session \<Rightarrow> bytes \<Rightarrow> bool" where
  "lp_authentic cr s p \<longleftrightarrow>
     (\<exists>c mac. integrity_code_length (integrity_alg s) = Inr c \<and> 4 + c \<le> length p
       \<and> lanplus_HMAC cr (integrity_alg s) (take (k1_len s) (k1 s)) (drop 4 (take (length p - c) p)) = Inr mac
       \<and> c \<le> length mac \<and> drop (length p - c) p = take c mac)"

lemma store_packet_got:
  assumes "store_packet p r0 = Inr (True, r)"
  shows "rs_data r = put_at (rs_data r0) 0 (p @ [0])" "rs_data_len r = int (length p)" "length p < 1024"
  using assms by (auto simp: store_packet_def IPMI_BUF_SIZE_def split: if_splits)

lemma recv_packet_got:
  assumes "ipmi_lan_recv_packet st = Inr (True, st')"
  obtains p where "NetPkt p \<in> set (st_net st)" "store_packet p (st_rsp st) = Inr (True, st_rsp st')"
proof -
  have on: "store_packet p (st_rsp st) = Inr (True, st_rsp st')" if "on_packet p rest st = Inr (True, st')" for p rest
    using that by (auto simp: on_packet_def bind_ok_Inr_iff)
  obtain p where "NetPkt p \<in> set (st_net st)" "\<exists>rest. on_packet p rest st = Inr (True, st')"
    using assms by (auto simp: ipmi_lan_recv_packet_def split: list.splits net_event.splits)
  then show ?thesis
    using on that by blast
qed

text \<open>What the check of the code says about the received bytes.\<close>

lemma valid_authentic:
  assumes "lanplus_has_valid_auth_code cr r s = Inr True"
    and "rs_authtype r = IPMI_SESSION_AUTHTYPE_RMCP_PLUS" "session_state s = LANPLUS_STATE_ACTIVE"
    and "rs_bAuthenticated r" "integrity_alg s \<noteq> IPMI_INTEGRITY_NONE"
    and "rs_data r = p @ rest" "rs_data_len r = int (length p)"
  shows "lp_authentic cr s p"
proof -
  obtain c where c: "integrity_code_length (integrity_alg s) = Inr c"
    using assms(1-5) by (auto simp: lanplus_has_valid_auth_code_def bind_ok_Inr_iff)
  have len: "4 + c \<le> length p"
    using assms c by (auto simp: lanplus_has_valid_auth_code_def size_defs Let_def split: if_split_asm)
  have body: "region (rs_data r) 4 (length p - (4 + c)) = drop 4 (take (length p - c) p)"
    using len by (simp add: assms(6) region_def drop_take add.commute)
  have code: "region (rs_data r) (length p - c) c = drop (length p - c) p"
    using len by (simp add: assms(6) region_def)
  have "bind_ok (lanplus_HMAC cr (integrity_alg s) (take (k1_len s) (k1 s)) (drop 4 (take (length p - c) p)))
      (\<lambda>mac. if length mac < c then Inl AssertFailed else memcmp_eq (drop (length p - c) p) mac c) = Inr True"
    using assms(1-5,7) c len
    by (auto simp: lanplus_has_valid_auth_code_def size_defs Let_def body code cong: if_cong)
  then obtain mac where "lanplus_HMAC cr (integrity_alg s) (take (k1_len s) (k1 s)) (drop 4 (take (length p - c) p)) = Inr mac"
    "c \<le> length mac" "drop (length p - c) p = take c mac"
    using len by (auto simp: bind_ok_Inr_iff memcmp_eq_def split: if_split_asm)
  then show ?thesis
    using c len unfolding lp_authentic_def by blast
qed

text \<open>C9: in an active session with an integrity algorithm a poll returns a response only for a datagram
  that was received, and the header it acts on says: a presence pong, a packet of the old format,
  or a packet for this session's id which, if its authenticated flag is set, carries the right
  authentication code over its bytes. (Nothing rejects a packet whose flag is not set.)\<close>

theorem lanplus_poll_authentic:
  assumes "ipmi_lan_poll_recv cr st = Inr (PRsp, st')"
    and "session_state (st_ssn st) = LANPLUS_STATE_ACTIVE" "integrity_alg (st_ssn st) \<noteq> IPMI_INTEGRITY_NONE"
  shows "\<exists>p old. NetPkt p \<in> set (st_net st) \<and> length p < 1024 \<and> p \<noteq> [] \<and>
    (let d = put_at old 0 (p @ [0]) in
     d ! 3 = RMCP_CLASS_ASF \<or> d ! 4 \<noteq> IPMI_SESSION_AUTHTYPE_RMCP_PLUS \<or>
     of_le32 (drop 6 d) = console_id (st_ssn st) \<and>
     (d ! 5 AND 0x40 \<noteq> 0 \<longrightarrow> lp_authentic cr (st_ssn st) p))"
proof -
  obtain st1 where st1: "polled st st1" "set (st_net st1) \<subseteq> set (st_net st)" "ipmi_lan_poll_single cr st1 = Inr (PRsp, st')"
    by (rule poll_recv_last [OF assms(1)])
  then obtain st2 where st2: "ipmi_lan_recv_packet st1 = Inr (True, st2)"
    by (auto simp: ipmi_lan_poll_single_def bind_ok_Inr_iff split: if_split_asm)
  obtain p where p: "NetPkt p \<in> set (st_net st1)" "store_packet p (st_rsp st1) = Inr (True, st_rsp st2)"
    by (rule recv_packet_got [OF st2])
  let ?d = "rs_data (st_rsp st2)"
  have ssn: "st_ssn st2 = st_ssn st"
    using st1(1) recv_packet_polled [OF st2] by (simp add: polled_def)
  have ne: "p \<noteq> []"
    using p(2) by (auto simp: store_packet_def)
  note sp = store_packet_got [OF p(2)]
  have d: "?d = p @ 0 # drop (Suc (length p)) (rs_data (st_rsp st1))"
    using sp(1) by (simp add: put_at_def)
  have "?d ! 3 = RMCP_CLASS_ASF \<or> ?d ! 4 \<noteq> IPMI_SESSION_AUTHTYPE_RMCP_PLUS \<or>
     of_le32 (drop 6 ?d) = console_id (st_ssn st) \<and> (?d ! 5 AND 0x40 \<noteq> 0 \<longrightarrow> lp_authentic cr (st_ssn st) p)"
  proof (cases "?d ! 3 = RMCP_CLASS_ASF \<or> ?d ! 4 \<noteq> IPMI_SESSION_AUTHTYPE_RMCP_PLUS")
    case False
    then have ps: "poll_session cr st2 = Inr (PRsp, st')"
      using st1(3) st2 by (auto simp: ipmi_lan_poll_single_def split: if_split_asm)
    obtain r where r: "read_session_data (st_rsp st2) 4 = (r, 16)" "rs_id r = of_le32 (drop 6 ?d)"
      "rs_bAuthenticated r \<longleftrightarrow> ?d ! 5 AND 0x40 \<noteq> 0" "rs_authtype r = IPMI_SESSION_AUTHTYPE_RMCP_PLUS"
      "rs_data r = ?d" "rs_data_len r = rs_data_len (st_rsp st2)"
      using False by (simp add: read_session_data_def read_session_data_v2x_def Let_def)
    have "rs_id r = console_id (st_ssn st) \<and> lanplus_has_valid_auth_code cr r (st_ssn st) = Inr True"
      using ps assms(2) r(1,4) ssn
      by (auto simp: poll_session_def bind_ok_Inr_iff Let_def split: if_split_asm)
    then show ?thesis
      using valid_authentic [OF _ r(4) assms(2) _ assms(3), where p = p] r(2,3,5,6) d sp(2) by auto
  qed blast
  then show ?thesis
    using sp ne p(1) st1(2) by (intro exI [of _ p] exI [of _ "rs_data (st_rsp st1)"]) (auto simp: Let_def)
qed

section \<open>Answers\<close>

text \<open>An IPMI response in a session packet that is neither encrypted nor authenticated.\<close>

definition plain_response :: "u32 \<Rightarrow> u32 \<Rightarrow> bytes \<Rightarrow> bytes" where
  "plain_response sid ssq m = [6, 0, 0xFF, 7, 6, 0] @ le32 sid @ le32 ssq @ le16 (of_nat (length m)) @ m"

definition ipmi_answer :: "byte \<Rightarrow> byte \<Rightarrow> byte \<Rightarrow> bytes \<Rightarrow> bytes" where
  "ipmi_answer sq cm cc d = [0x81, 0x1C, 0x63, 0x20, push_bit 2 sq, cm, cc] @ d @ [ipmi_csum ([0x20, push_bit 2 sq, cm, cc] @ d) (4 + length d)]"

lemma poll_single_packet:
  assumes "st_net st = NetPkt p # rest" "p \<noteq> []" "length p < 1024" "length (rs_data (st_rsp st)) = 1024"
    and "3 < length p" "p ! 3 = RMCP_CLASS_IPMI"
  shows "ipmi_lan_poll_single cr st = poll_session cr (st\<lparr>st_net := rest, st_rsp := (st_rsp st)
    \<lparr>rs_data := p @ 0 # drop (Suc (length p)) (rs_data (st_rsp st)), rs_data_len := int (length p)\<rparr>\<rparr>)"
  using assms
  by (simp add: ipmi_lan_poll_single_def ipmi_lan_recv_packet_def on_packet_def store_packet_def IPMI_BUF_SIZE_def
      put_at_def nth_append RMCP_CLASS_ASF_def RMCP_CLASS_IPMI_def)

lemma read_plain_response:
  assumes "rs_data r = plain_response sid ssq m @ more_bytes"
  shows "read_session_data r 4 = (r\<lparr>rs_authtype := 6, rs_bEncrypted := False, rs_bAuthenticated := False,
    rs_payloadtype := IPMI_PAYLOAD_TYPE_IPMI, rs_id := sid, rs_seq := ssq, rs_msglen := of_nat (length m)\<rparr>, 16)"
proof -
  have "drop 6 (rs_data r) = le32 sid @ le32 ssq @ le16 (of_nat (length m)) @ m @ more_bytes"
    "drop 10 (rs_data r) = le32 ssq @ le16 (of_nat (length m)) @ m @ more_bytes"
    "drop 14 (rs_data r) = le16 (of_nat (length m)) @ m @ more_bytes" "rs_data r ! 4 = 6" "rs_data r ! 5 = 0"
    by (simp_all add: assms plain_response_def)
  then show ?thesis
    by (simp add: read_session_data_def read_session_data_v2x_def IPMI_SESSION_AUTHTYPE_RMCP_PLUS_def
        IPMI_PAYLOAD_TYPE_IPMI_def Let_def)
qed

lemma seq_shift: "sq < 64 \<Longrightarrow> drop_bit 2 (push_bit 2 sq) = (sq :: byte)"
proof -
  assume "sq < 64"
  then have "take_bit 6 sq = sq"
    by (simp add: take_bit_eq_mod mod_word_less)
  moreover have "drop_bit 2 (push_bit 2 sq) = take_bit 6 sq"
    by (rule bit_word_eqI) (auto simp: bit_simps)
  ultimately show ?thesis
    by simp
qed

lemma answer_delivered:
  assumes "table_ok (st_reqs st)" "ipmi_req_lookup_entry sq cm (st_reqs st) = Inr (Some a)"
    and "deref (st_reqs st) (Some a) = Inr e" "e_bridging e = 0" "sq < 64" "length d < 900"
    and "session_state (st_ssn st) = LANPLUS_STATE_ACTIVE \<longrightarrow> sid = console_id (st_ssn st)"
    and "length (rs_data (st_rsp st)) = 1024"
    and "st_net st = NetPkt (plain_response sid ssq (ipmi_answer sq cm cc d)) # rest"
  shows "\<exists>st'. ipmi_lan_poll_recv cr st = Inr (PRsp, st') \<and> st_net st' = rest
    \<and> rs_ccode (st_rsp st') = cc \<and> rs_data_len (st_rsp st') = int (length d)
    \<and> take (length d) (rs_data (st_rsp st')) = d
    \<and> table_ok (st_reqs st')
    \<and> pending (st_reqs st') = drop_first (\<lambda>(a, e). matches sq cm e) (pending (st_reqs st))"
proof -
  let ?p = "plain_response sid ssq (ipmi_answer sq cm cc d)"
  let ?m = "ipmi_answer sq cm cc d"
  have len: "length ?m = 8 + length d" "length ?p = 24 + length d"
    by (simp_all add: plain_response_def ipmi_answer_def)
  have p3: "?p ! 3 = RMCP_CLASS_IPMI"
    by (simp add: plain_response_def RMCP_CLASS_IPMI_def)
  define tail where "tail = 0 # drop (Suc (length ?p)) (rs_data (st_rsp st))"
  define r0 where "r0 = (st_rsp st)\<lparr>rs_data := ?p @ tail, rs_data_len := int (length ?p)\<rparr>"
  define r where "r = r0\<lparr>rs_authtype := 6, rs_bEncrypted := False, rs_bAuthenticated := False,
    rs_payloadtype := IPMI_PAYLOAD_TYPE_IPMI, rs_id := sid, rs_seq := ssq, rs_msglen := of_nat (length ?m)\<rparr>"
  define st1 where "st1 = st\<lparr>st_net := rest, st_rsp := r\<rparr>"
  have rd: "read_session_data r0 4 = (r, 16)" "rs_payloadtype r = IPMI_PAYLOAD_TYPE_IPMI" "rs_id r = sid"
    "\<not> rs_bEncrypted r" "\<not> rs_bAuthenticated r" "rs_msglen r = of_nat (length ?m)"
    using read_plain_response [of r0 sid ssq ?m tail] by (simp_all add: r_def r0_def)
  have n: "unat (of_nat (length ?m) :: u16) = length d + 8"
    using assms(6) len by (simp add: unat_of_nat del: of_nat_add)
  have "ipmi_lan_poll_single cr st = poll_session cr (st\<lparr>st_net := rest, st_rsp := r0\<rparr>)"
    using assms(6,8,9) len p3 by (subst poll_single_packet [OF assms(9)]) (auto simp: r0_def tail_def)
  also have "\<dots> = poll_payload st1 16 (length d + 8)"
    using assms(7) n rd
    by (auto simp: poll_session_def st1_def lanplus_has_valid_auth_code_def open_payload_def Let_def)
  also have "\<dots> = poll_ipmi st1 16 (length d + 8)"
    using rd(2) by (simp add: poll_payload_def st1_def)
  finally have single: "ipmi_lan_poll_single cr st = poll_ipmi st1 16 (length d + 8)" .
  have dat: "rs_data r ! 20 = push_bit 2 sq" "rs_data r ! 21 = cm" "rs_data r ! 22 = cc"
    and at23: "take (length d) (drop 23 (rs_data r)) = d"
    by (simp_all add: r_def r0_def plain_response_def ipmi_answer_def nth_append nth_Cons')
  have key: "ipmi_seq r 16 = sq" "ipmi_cmd r 16 = cm"
    using dat assms(5) by (simp_all add: ipmi_seq_def ipmi_cmd_def seq_shift)
  obtain t' where t': "ipmi_req_remove_entry sq cm (st_reqs st) = Inr t'" "table_ok t'"
    "pending t' = drop_first (\<lambda>(a, e). matches sq cm e) (pending (st_reqs st))"
    using lp.remove [OF assms(1)] by blast
  define ri where "ri = fst (read_ipmi_response r 16)"
  have ri: "read_ipmi_response r 16 = (ri, 23)" "rs_ccode ri = cc" "rs_data ri = rs_data r"
    using dat by (simp_all add: ri_def read_ipmi_response_def Let_def)
  have lr: "length (rs_data r) = 1024"
    using assms(6,8) len by (simp add: r_def r0_def tail_def)
  obtain rf where rf: "shift_data ri 23 (length d) = Inr rf" "rs_ccode rf = cc" "rs_data_len rf = int (length d)"
    "take (length d) (rs_data rf) = d"
    using ri(2,3) at23 assms(6) lr
    by (cases "d = []") (auto simp: shift_data_def IPMI_BUF_SIZE_def move_front_def put_at_def region_def)
  have "poll_ipmi st1 16 (length d + 8) = Inr (PRsp, st1\<lparr>st_reqs := t', st_rsp := rf\<rparr>)"
    using assms(2-4) key ri(1) t'(1) rf(1)
    by (subst poll_ipmi.simps) (simp add: poll_ipmi_round_def st1_def is_bridged_def)
  then show ?thesis
    using single t' rf by (subst ipmi_lan_poll_recv.simps) (simp add: st1_def)
qed

text \<open>the answer to a pending request is delivered: when an unbridged request waits under the number
  and command of a response that the session's BMC sent, the poll returns that response with its
  completion code and exactly its data, takes the request off the list (the first with that number
  and command) and reads nothing further from the socket.\<close>

theorem lanplus_answer_delivered:
  assumes "table_ok (st_reqs st)" "ipmi_req_lookup_entry sq cm (st_reqs st) = Inr (Some a)"
    and "deref (st_reqs st) (Some a) = Inr e" "e_bridging e = 0" "sq < 64" "length d < 900"
    and "session_state (st_ssn st) = LANPLUS_STATE_ACTIVE \<longrightarrow> sid = console_id (st_ssn st)"
    and "length (rs_data (st_rsp st)) = 1024"
    and "st_net st = NetPkt (plain_response sid ssq (ipmi_answer sq cm cc d)) # rest"
  shows "\<exists>st'. ipmi_lan_poll_recv cr st = Inr (PRsp, st') \<and> st_net st' = rest
    \<and> rs_ccode (st_rsp st') = cc \<and> rs_data_len (st_rsp st') = int (length d)
    \<and> take (length d) (rs_data (st_rsp st')) = d
    \<and> table_ok (st_reqs st')
    \<and> pending (st_reqs st') = drop_first (\<lambda>(a, e). matches sq cm e) (pending (st_reqs st))"
  by (rule answer_delivered [OF assms])

text \<open>A session that waits for the answer to one request.\<close>

definition sample_rs :: ipmi_rs where
  "sample_rs = \<lparr>rs_ccode = 0, rs_data = replicate 1024 0, rs_data_len = 0, rs_authtype = 0, rs_seq = 0, rs_id = 0,
     rs_bEncrypted = False, rs_bAuthenticated = False, rs_payloadtype = 0, rs_msglen = 0, rs_payload = PNone\<rparr>"

definition one_request :: "rq_entry \<Rightarrow> rq_table" where
  "one_request e = \<lparr>t_heap = [0 \<mapsto> e], t_head = Some 0, t_tail = Some 0, t_brk = 1\<rparr>"

definition sample_lp :: "ipmi_session \<Rightarrow> rq_table \<Rightarrow> net_event list \<Rightarrow> lp_state" where
  "sample_lp s t net = \<lparr>st_intf = sample_intf, st_live = True, st_ssn = s, st_bridge = False, st_reqs = t, st_rsp = sample_rs,
     st_curr_seq = 0, st_sol_seq = 0, st_sol_count = 0, st_net = net, st_sent = [], st_console = [],
     st_send_fails = [], st_late = [], st_rand = []\<rparr>"

lemma one_request_ok:
  assumes "e_next e = None"
  shows "table_ok (one_request e)" "pending (one_request e) = [(0, e)]" "deref (one_request e) (Some 0) = Inr e"
    "matches sq cm e \<Longrightarrow> ipmi_req_lookup_entry sq cm (one_request e) = Inr (Some 0)"
proof -
  have inv: "table_inv (one_request e) [0]"
    using assms by (simp add: table_inv_def one_request_def)
  then show "table_ok (one_request e)"
    by (auto simp: table_ok_def)
  show "pending (one_request e) = [(0, e)]"
    unfolding pending_inv [OF inv] using assms by (simp add: view_def one_request_def)
  show "deref (one_request e) (Some 0) = Inr e"
    by (simp add: deref_def one_request_def)
  show "matches sq cm e \<Longrightarrow> ipmi_req_lookup_entry sq cm (one_request e) = Inr (Some 0)"
    unfolding lookup_refines [OF inv] by (simp add: hit_def one_request_def)
qed

lemma sample_lp_simps [simp]:
  "st_ssn (sample_lp s t net) = s" "st_reqs (sample_lp s t net) = t" "st_net (sample_lp s t net) = net"
  "st_intf (sample_lp s t net) = sample_intf" "length (rs_data (st_rsp (sample_lp s t net))) = 1024"
  "st_late (sample_lp s t net) = []" "st_send_fails (sample_lp s t net) = []" "st_bridge (sample_lp s t net) = False"
  by (simp_all add: sample_lp_def sample_rs_def)

definition sample_waiting :: "net_event list \<Rightarrow> lp_state" where
  "sample_waiting rest = sample_lp sample_session (one_request (new_entry sample_rq 3))
     (NetPkt (plain_response 0xA0A2A3A4 1 (ipmi_answer 3 1 0 [0x51])) # rest)"

lemma sample_waiting_simps:
  "table_ok (st_reqs (sample_waiting rest))" "ipmi_req_lookup_entry 3 1 (st_reqs (sample_waiting rest)) = Inr (Some 0)"
  "deref (st_reqs (sample_waiting rest)) (Some 0) = Inr (new_entry sample_rq 3)" "e_bridging (new_entry sample_rq 3) = 0"
  "session_state (st_ssn (sample_waiting rest)) = LANPLUS_STATE_ACTIVE \<longrightarrow> 0xA0A2A3A4 = console_id (st_ssn (sample_waiting rest))"
  "length (rs_data (st_rsp (sample_waiting rest))) = 1024"
  "st_net (sample_waiting rest) = NetPkt (plain_response 0xA0A2A3A4 1 (ipmi_answer 3 1 0 [0x51])) # rest"
  "pending (st_reqs (sample_waiting rest)) = [(0, new_entry sample_rq 3)]"
proof -
  have e: "e_next (new_entry sample_rq 3) = None" "matches 3 1 (new_entry sample_rq 3)"
    by (simp_all add: new_entry_def matches_def sample_rq_def)
  note ok = one_request_ok [OF e(1)]
  show "table_ok (st_reqs (sample_waiting rest))" "deref (st_reqs (sample_waiting rest)) (Some 0) = Inr (new_entry sample_rq 3)"
    "pending (st_reqs (sample_waiting rest)) = [(0, new_entry sample_rq 3)]"
    "ipmi_req_lookup_entry 3 1 (st_reqs (sample_waiting rest)) = Inr (Some 0)"
    using ok(1-3) ok(4) [OF e(2)] by (simp_all add: sample_waiting_def)
  show "e_bridging (new_entry sample_rq 3) = 0" "length (rs_data (st_rsp (sample_waiting rest))) = 1024"
    "st_net (sample_waiting rest) = NetPkt (plain_response 0xA0A2A3A4 1 (ipmi_answer 3 1 0 [0x51])) # rest"
    "session_state (st_ssn (sample_waiting rest)) = LANPLUS_STATE_ACTIVE \<longrightarrow> 0xA0A2A3A4 = console_id (st_ssn (sample_waiting rest))"
    by (simp_all add: new_entry_def sample_waiting_def sample_session_def)
qed

theorem lanplus_answer_delivered_witness:
  "\<exists>st'. ipmi_lan_poll_recv plain_crypto (sample_waiting []) = Inr (PRsp, st') \<and> st_net st' = []
    \<and> rs_ccode (st_rsp st') = 0 \<and> rs_data_len (st_rsp st') = int (length [0x51 :: byte])
    \<and> take (length [0x51 :: byte]) (rs_data (st_rsp st')) = [0x51] \<and> table_ok (st_reqs st')
    \<and> pending (st_reqs st') = drop_first (\<lambda>(a, e). matches 3 1 e) (pending (st_reqs (sample_waiting [])))"
  by (rule lanplus_answer_delivered [OF sample_waiting_simps(1-4) _ _ sample_waiting_simps(5-7)]) simp_all

theorem lanplus_poll_authentic_witness:
  "\<exists>p old. NetPkt p \<in> set (st_net (sample_waiting [])) \<and> length p < 1024 \<and>
    (let d = put_at old 0 (p @ [0]) in
     d ! 3 = RMCP_CLASS_ASF \<or> d ! 4 \<noteq> IPMI_SESSION_AUTHTYPE_RMCP_PLUS \<or>
     of_le32 (drop 6 d) = console_id sample_session \<and>
     (d ! 5 AND 0x40 \<noteq> 0 \<longrightarrow> lp_authentic plain_crypto sample_session p))"
proof -
  have s: "st_ssn (sample_waiting []) = sample_session"
    by (simp add: sample_waiting_def)
  obtain st' where st': "ipmi_lan_poll_recv plain_crypto (sample_waiting []) = Inr (PRsp, st')"
    using answer_delivered [OF sample_waiting_simps(1-4) _ _ sample_waiting_simps(5-7)] by force
  have "session_state sample_session = LANPLUS_STATE_ACTIVE" "integrity_alg sample_session \<noteq> IPMI_INTEGRITY_NONE"
    by (simp_all add: sample_session_def alg_defs)
  then show ?thesis
    using lanplus_poll_authentic [OF st', unfolded s] by blast
qed

section \<open>Matching\<close>

text \<open>What polling does to the list of requests: nothing, or one request is taken off for the response.\<close>

definition unbridged :: "rq_table \<Rightarrow> bool" where
  "unbridged t \<longleftrightarrow> table_ok t \<and> (\<forall>(a, e) \<in> set (pending t). e_bridging e = 0)"

definition taken :: "rq_table \<Rightarrow> poll_result \<Rightarrow> lp_state \<Rightarrow> bool" where
  "taken t res st' \<longleftrightarrow> table_ok (st_reqs st') \<and>
     (pending (st_reqs st') = pending t \<or>
      res = PRsp \<and> (\<exists>p. rs_payload (st_rsp st') = PIpmi p \<and>
        ipmi_req_lookup_entry (ir_rq_seq p) (ir_cmd p) t \<noteq> Inr None \<and>
        pending (st_reqs st') = drop_first (\<lambda>(a, e). matches (ir_rq_seq p) (ir_cmd p) e) (pending t)))"

lemma taken_same [simp]: "unbridged (st_reqs st) \<Longrightarrow> st_reqs st' = st_reqs st \<Longrightarrow> taken (st_reqs st) res st'"
  by (simp add: taken_def unbridged_def)








section \<open>Hostile packets\<close>





text \<open>A datagram of 1024 bytes or more makes the terminating zero of the receive function land behind
  the receive buffer, in every state of the session.\<close>

theorem lanplus_recv_full_datagram:
  assumes "st_net st = NetPkt p # rest" "1024 \<le> length p"
  shows "ipmi_lan_poll_recv cr st = Inl OutOfBounds"
  using assms
  by (subst ipmi_lan_poll_recv.simps)
    (auto simp: ipmi_lan_poll_single_def ipmi_lan_recv_packet_def on_packet_def store_packet_def IPMI_BUF_SIZE_def)

theorem lanplus_recv_full_datagram_witness:
  "ipmi_lan_poll_recv plain_crypto (sample_lp sample_session empty_table [NetPkt (replicate 1024 0)]) = Inl OutOfBounds"
  by (rule lanplus_recv_full_datagram [of _ "replicate 1024 0" "[]"]) simp_all

section \<open>Double bridging\<close>

text \<open>The answer to a request that is bridged twice is lost when the BMC nests the responses: on a
  response to the outer message with another response inside, the request is taken off the list
  under the Send Message command, so the inner response finds no request and is dropped, whatever
  it contains.\<close>

theorem lanplus_double_bridged_lost:
  assumes "table_ok (st_reqs st)" "pending (st_reqs st) = [(a, e)]" "e_bridging e = 2"
    and "matches (ipmi_seq (st_rsp st) off) (ipmi_cmd (st_rsp st) off) e" "rs_data (st_rsp st) ! (off + 6) = 0"
    and "8 < n" "off + 7 + (n - 8) \<le> 1024"
  shows "\<exists>st'. poll_ipmi st off n = Inr (PAgain, st') \<and> pending (st_reqs st') = []"
proof -
  let ?sq = "ipmi_seq (st_rsp st) off" and ?cm = "ipmi_cmd (st_rsp st) off"
  define r where "r = fst (read_ipmi_response (st_rsp st) off)"
  have rr: "read_ipmi_response (st_rsp st) off = (r, off + 7)" "rs_ccode r = 0"
    using assms(5) by (simp_all add: r_def read_ipmi_response_def Let_def)
  have look: "ipmi_req_lookup_entry ?sq ?cm (st_reqs st) = Inr (Some a)"
    using lp.lookup [OF assms(1)] assms(2,4) by simp
  obtain e' where e': "deref (st_reqs st) (Some a) = Inr e'" "matches ?sq ?cm e'"
    "(a, e'\<lparr>e_next := None\<rparr>) \<in> set (pending (st_reqs st))"
    "find (\<lambda>(a, e). matches ?sq ?cm e) (pending (st_reqs st)) = Some (a, e'\<lparr>e_next := None\<rparr>)"
    by (rule lookup_deref [OF assms(1) look])
  have lev: "e_bridging e' = 2"
    using e'(3) assms(2,3) by auto
  define t where "t = set_entry a (unbridge e') (st_reqs st)"
  have t: "table_ok t" "pending t = [(a, (unbridge e')\<lparr>e_next := None\<rparr>)]"
    using set_entry_refines [OF assms(1) e'(1), of "unbridge e'"] assms(2) by (simp_all add: t_def unbridge_def)
  have "matches ?sq ?cm (unbridge e')"
    using e'(2) lev by (simp add: matches_def unbridge_def)
  then obtain t' where t': "ipmi_req_remove_entry ?sq ?cm t = Inr t'" "table_ok t'" "pending t' = []"
    using lp.remove [OF t(1), of ?sq ?cm] t(2) by auto
  obtain r' where r': "shift_data r (off + 7) (n - 8) = Inr r'"
    using assms(6,7) by (simp add: shift_data_def IPMI_BUF_SIZE_def)
  define st1 where "st1 = st\<lparr>st_reqs := t', st_rsp := r'\<rparr>"
  have first: "poll_ipmi_round st off n = Inr (None, st1)"
    using rr look e'(1) lev t'(1) r' assms(6) by (simp add: poll_ipmi_round_def is_bridged_def st1_def t_def)
  have "ipmi_req_lookup_entry (ipmi_seq r' 0) (ipmi_cmd r' 0) t' = Inr None"
    using lp.lookup [OF t'(2)] t'(3) by simp
  then have "\<exists>st2. poll_ipmi st1 0 (n - 8) = Inr (PAgain, st2) \<and> pending (st_reqs st2) = []"
    using t'(3) by (subst poll_ipmi.simps) (simp add: poll_ipmi_round_def st1_def case_prod_beta)
  then show ?thesis
    using first by (subst poll_ipmi.simps) simp
qed

definition sample_double :: "lp_state" where
  "sample_double = (sample_lp sample_session
     (one_request ((new_entry (sample_rq\<lparr>rq_cmd := 0x34\<rparr>) 3)\<lparr>e_bridging := 2\<rparr>)) [])
     \<lparr>st_rsp := sample_rs\<lparr>rs_data := put_at (replicate 1024 0) 16 [0x81, 0x1C, 0x63, 0x20, 0x0C, 0x34, 0]\<rparr>\<rparr>"

theorem lanplus_double_bridged_lost_witness:
  "\<exists>st'. poll_ipmi sample_double 16 17 = Inr (PAgain, st') \<and> pending (st_reqs st') = []"
proof -
  let ?e = "(new_entry (sample_rq\<lparr>rq_cmd := 0x34\<rparr>) 3)\<lparr>e_bridging := 2\<rparr>"
  have e: "e_next ?e = None"
    by (simp add: new_entry_def)
  have dat: "rs_data (st_rsp sample_double) ! 20 = 0x0C" "rs_data (st_rsp sample_double) ! 21 = 0x34"
    "rs_data (st_rsp sample_double) ! 22 = 0"
    by (simp_all add: sample_double_def put_at_def nth_append)
  have "matches (ipmi_seq (st_rsp sample_double) 16) (ipmi_cmd (st_rsp sample_double) 16) ?e"
    using dat by (simp add: matches_def ipmi_seq_def ipmi_cmd_def new_entry_def)
  then show ?thesis
    using lanplus_double_bridged_lost [of sample_double 0 ?e 16 17] one_request_ok(1,2) [OF e] dat
    by (simp add: sample_double_def)
qed

end
