(* ===== verification/LanplusSendProps.thy ===== *)
theory LanplusSendProps
  imports LanplusTakes LanplusPollProps SeqCounter
begin

text \<open>
  The properties of sending in the RMCP+ transport: commands are answered or given up after the
  configured number of attempts, the use of a removed entry when a poll gives up early, and the
  flow control of Serial over LAN.
\<close>

section \<open>Building succeeds\<close>

definition good_session :: "crypto \<Rightarrow> ipmi_session \<Rightarrow> bool" where
  "good_session cr s \<longleftrightarrow> crypto_ok cr \<and> supported_crypt s \<and> supported_integrity s \<and> 16 \<le> length (k2 s)"

lemma good_session_seq [simp]:
  "good_session cr (s\<lparr>out_seq := n\<rparr>) = good_session cr s" "good_session cr (s\<lparr>ssn_timeout := x\<rparr>) = good_session cr s"
  by (simp_all add: good_session_def supported_crypt_def supported_integrity_def)

lemma encrypt_cases:
  assumes "good_session cr s" "length m < 65000"
  shows "\<exists>r. lanplus_encrypt_payload cr True rnd (crypt_alg s) (k2 s) m = Inr r"
proof (cases "crypt_alg s = IPMI_CRYPT_NONE \<or> rnd = None")
  case True
  then show ?thesis
    using assms by (auto simp: good_session_def supported_crypt_def lanplus_encrypt_payload_def alg_defs IPMI_MAX_PAYLOAD_SIZE_def)
next
  case False
  then obtain iv' where "rnd = Some iv'"
    by blast
  let ?d = "m @ conf_trailer (conf_pad (length m))"
  have "length ?d mod 16 = 0"
    using conf_pad_block [of "length m"] by (simp add: conf_trailer_def)
  then show ?thesis
    using False assms \<open>rnd = Some iv'\<close>
    by (auto simp: good_session_def supported_crypt_def lanplus_encrypt_payload_def alg_defs IPMI_MAX_PAYLOAD_SIZE_def
        lanplus_encrypt_aes_cbc_128_def split: option.split)
qed

lemma v2x_trailer_ok:
  assumes "good_session cr s"
  shows "\<exists>t. v2x_trailer cr i s front n = Inr t"
proof (cases "session_state s = LANPLUS_STATE_ACTIVE \<and> integrity_alg s \<noteq> IPMI_INTEGRITY_NONE")
  case True
  then have h: "crypto_ok cr" "supported_integrity s" "integrity_alg s \<noteq> IPMI_INTEGRITY_NONE"
    using assms by (simp_all add: good_session_def)
  obtain c md where c: "integrity_code_length (integrity_alg s) = Inr c"
    "\<forall>k d. lanplus_HMAC cr (integrity_alg s) k d = Inr (cr_hmac cr md k d)"
    "\<forall>k d. length (cr_hmac cr md k d) = digest_length md" "c \<le> digest_length md" "c \<le> 16"
    "integrity_digest_ok (integrity_alg s) (digest_length md)"
    by (rule integrity_code [OF h])
  then show ?thesis
    using True by (simp add: v2x_trailer_def Let_def)
next
  case False
  then have "v2x_trailer cr i s front n = Inr []"
    unfolding v2x_trailer_def by (simp only: if_False)
  then show ?thesis
    by blast
qed

lemma build_v2x_msg_ok:
  assumes "good_session cr s"
    and "payload_wire bridge i p sq = Inr (wire, n)" "unat n < 65000"
  shows "\<exists>p' m. ipmi_lanplus_build_v2x_msg cr rnd bridge i s p sq = Inr (s\<lparr>out_seq := next_out_seq (out_seq s)\<rparr>, p', m)"
proof -
  obtain r where r: "lanplus_encrypt_payload cr True rnd (crypt_alg s) (k2 s) (fit (unat n) wire) = Inr r"
    using encrypt_cases [OF assms(1), of "fit (unat n) wire"] assms(3) by auto
  then have "\<exists>pay n'. v2x_payload cr rnd s wire n = Inr (pay, n')"
    by (cases r) (auto simp: v2x_payload_def Let_def)
  then obtain pay n' where v: "v2x_payload cr rnd s wire n = Inr (pay, n')"
    by blast
  obtain t where "v2x_trailer cr i s (v2x_header s (payload_type (pl_body p)) n' @ pay) (unat n') = Inr t"
    using v2x_trailer_ok [OF assms(1)] by blast
  then show ?thesis
    using assms(2) v by (simp add: ipmi_lanplus_build_v2x_msg_def)
qed

text \<open>What building and sending one message leaves alone.\<close>

definition sent_one :: "lp_state \<Rightarrow> lp_state \<Rightarrow> bool" where
  "sent_one st st' \<longleftrightarrow> st_net st' = st_net st \<and> st_intf st' = st_intf st \<and> st_bridge st' = st_bridge st
     \<and> st_rsp st' = st_rsp st \<and> st_late st' = st_late st \<and> st_send_fails st' = st_send_fails st
     \<and> st_ssn st' = (st_ssn st)\<lparr>out_seq := next_out_seq (out_seq (st_ssn st))\<rparr>"

text \<open>An unbridged command is built, and its entry waits at the end of the list.\<close>

lemma pending_deref:
  assumes "table_ok t" "(a, e) \<in> set (pending t)"
  shows "\<exists>e'. deref t (Some a) = Inr e' \<and> e'\<lparr>e_next := None\<rparr> = e"
proof -
  obtain as where inv: "table_inv t as"
    using assms(1) by (auto simp: table_ok_def)
  then have "a \<in> set as" "e = (the (t_heap t a))\<lparr>e_next := None\<rparr>"
    using assms(2) by (auto simp: pending_inv [OF inv] view_def)
  then show ?thesis
    using inv seg_alloc by (fastforce simp: table_inv_def deref_def)
qed

lemma build_cmd_ok:
  assumes "good_session cr (st_ssn st)" "table_ok (st_reqs st)" "length (rq_data req) < 60000"
    and "\<not> is_bridge_command st" "sq = next_curr_seq isRetry (st_curr_seq st)"
  shows "\<exists>a m st'. ipmi_lanplus_build_v2x_ipmi_cmd cr req isRetry st = Inr (a, m, st') \<and> sent_one st st'
    \<and> st_sent st' = st_sent st \<and> st_curr_seq st' = sq \<and> table_ok (st_reqs st')
    \<and> pending (st_reqs st') = pending (st_reqs st) @ [(a, (new_entry req sq)\<lparr>e_msg := Some m\<rparr>)]
    \<and> a \<notin> fst ` set (pending (st_reqs st))"
proof -
  obtain a t where t: "ipmi_req_add_entry req sq (st_reqs st) = Inr (a, t)" "table_ok t"
    "a \<notin> fst ` set (pending (st_reqs st))" "pending t = pending (st_reqs st) @ [(a, new_entry req sq)]"
    using lp.add [OF assms(2)] by blast
  obtain e where e: "deref t (Some a) = Inr e" "e\<lparr>e_next := None\<rparr> = new_entry req sq"
    using pending_deref [OF t(2), of a "new_entry req sq"] t(4) by auto
  let ?p = "\<lparr>pl_length = of_nat (length (rq_data req) + 7), pl_body = BIpmi req sq\<rparr>"
  let ?s = "st_ssn st"
  obtain rnd st0 where rnd: "(if session_state ?s = LANPLUS_STATE_ACTIVE \<and> crypt_alg ?s \<noteq> IPMI_CRYPT_NONE
      then lanplus_rand (st\<lparr>st_curr_seq := sq\<rparr>) else (None, st\<lparr>st_curr_seq := sq\<rparr>)) = (rnd, st0)"
    by fastforce
  then have st0: "st0 = st\<lparr>st_curr_seq := sq\<rparr> \<or> st0 = st\<lparr>st_curr_seq := sq, st_rand := tl (st_rand st)\<rparr>"
    by (auto simp: lanplus_rand_def split: if_splits)
  obtain wire n where w: "payload_wire (st_bridge st) (st_intf st) ?p sq = Inr (wire, n)" "unat n < 65000"
  proof -
    have len: "unat (of_nat (length (rq_data req) + 7 + k) :: u16) < 65000" if "k \<le> 16" for k
      using that assms(3) by (simp add: unat_of_nat del: of_nat_add)
    have "\<exists>m k. getIpmiPayloadWireRep (st_bridge st) (st_intf st) req sq sq = (m, of_nat k) \<and> k \<le> 16"
      by (auto simp: getIpmiPayloadWireRep_def Let_def intro: exI [of _ 0] exI [of _ 8] exI [of _ 16])
    then show thesis
      using that len by (fastforce simp: payload_wire_def add.assoc)
  qed
  obtain p' m where m: "ipmi_lanplus_build_v2x_msg cr rnd (st_bridge st) (st_intf st) ?s ?p sq =
      Inr (?s\<lparr>out_seq := next_out_seq (out_seq ?s)\<rparr>, p', m)"
    using build_v2x_msg_ok [OF assms(1) w] by blast
  let ?e = "e\<lparr>e_msg := Some m\<rparr>"
  define st' where "st' = st0\<lparr>st_ssn := ?s\<lparr>out_seq := next_out_seq (out_seq ?s)\<rparr>, st_reqs := set_entry a ?e t\<rparr>"
  have "build_v2x cr ?p sq (st\<lparr>st_curr_seq := sq\<rparr>) = Inr (m, p', st0\<lparr>st_ssn := ?s\<lparr>out_seq := next_out_seq (out_seq ?s)\<rparr>\<rparr>)"
    using m by (simp add: build_v2x_def rnd)
  then have "ipmi_lanplus_build_v2x_ipmi_cmd cr req isRetry st = Inr (a, m, st')"
    using t(1) e(1) assms(4,5) by (simp add: ipmi_lanplus_build_v2x_ipmi_cmd_def Let_def st'_def)
  moreover have "sent_one st st'" "st_sent st' = st_sent st" "st_curr_seq st' = sq"
    using st0 by (auto simp: sent_one_def st'_def)
  moreover have "table_ok (st_reqs st')"
    "pending (st_reqs st') = pending (st_reqs st) @ [(a, (new_entry req sq)\<lparr>e_msg := Some m\<rparr>)]"
  proof -
    have ee: "(e\<lparr>e_msg := Some m\<rparr>)\<lparr>e_next := None\<rparr> = (new_entry req sq)\<lparr>e_msg := Some m\<rparr>"
      using e(2) by (cases e) (simp add: new_entry_def)
    have "List.map (\<lambda>(b, x). if b = a then (b, z) else (b, x)) (pending (st_reqs st)) = pending (st_reqs st)" for z
      using t(3) by (intro map_idI) (force split: prod.splits)
    then show "table_ok (st_reqs st')"
      "pending (st_reqs st') = pending (st_reqs st) @ [(a, (new_entry req sq)\<lparr>e_msg := Some m\<rparr>)]"
      using set_entry_refines [OF t(2) e(1), of ?e] t(4) ee by (simp_all add: st'_def)
  qed
  ultimately show ?thesis
    using t(3) by blast
qed

section \<open>Commands\<close>

definition plain_command :: "lp_state \<Rightarrow> ipmi_rq \<Rightarrow> bool" where
  "plain_command st req \<longleftrightarrow> \<not> is_bridge_command st \<and> length (rq_data req) < 60000 \<and>
     (rq_netfn req \<noteq> IPMI_NETFN_APP \<or> rq_cmd req \<noteq> IPMI_GET_CHANNEL_AUTH_CAP \<or> bmc_id (st_ssn st) \<noteq> 0)"


lemma find_none_all: "find P xs = None \<longleftrightarrow> (\<forall>x \<in> set xs. \<not> P x)"
  by (auto simp: find_None_iff)


text \<open>A transmission of a command that is neither bridged nor of the old format.\<close>

lemma transmit_cmd_ok:
  assumes "good_session cr (st_ssn st)" "table_ok (st_reqs st)" "plain_command st req" "st_send_fails st = []"
    and "sq = next_curr_seq isRetry (st_curr_seq st)"
  shows "\<exists>a m st'. transmit cr isRetry entry \<lparr>pl_length = l, pl_body = BIpmi req x\<rparr> st =
        Inr (True, Some a, \<lparr>pl_length = l, pl_body = BIpmi req x\<rparr>, st')
    \<and> sent_one st st' \<and> st_sent st' = st_sent st @ [m] \<and> st_curr_seq st' = sq \<and> table_ok (st_reqs st')
    \<and> pending (st_reqs st') = pending (st_reqs st) @ [(a, (new_entry req sq)\<lparr>e_msg := Some m\<rparr>)]
    \<and> a \<notin> fst ` set (pending (st_reqs st))"
proof -
  have "length (rq_data req) < 60000" "\<not> is_bridge_command st"
    using assms(3) by (simp_all add: plain_command_def)
  then obtain a m st1 where st1: "ipmi_lanplus_build_v2x_ipmi_cmd cr req isRetry st = Inr (a, m, st1)" "sent_one st st1"
    "st_sent st1 = st_sent st" "st_curr_seq st1 = sq" "table_ok (st_reqs st1)"
    "pending (st_reqs st1) = pending (st_reqs st) @ [(a, (new_entry req sq)\<lparr>e_msg := Some m\<rparr>)]"
    "a \<notin> fst ` set (pending (st_reqs st))"
    using build_cmd_ok [OF assms(1,2) _ _ assms(5)] by blast
  have fails: "st_send_fails st1 = []"
    using st1(2) assms(4) by (simp add: sent_one_def)
  define st' where "st' = st1\<lparr>st_sent := st_sent st1 @ [m], st_send_fails := []\<rparr>"
  have "ipmi_lan_send_packet m st1 = (True, st')"
    using fails by (simp add: ipmi_lan_send_packet_def st'_def)
  then have "transmit cr isRetry entry \<lparr>pl_length = l, pl_body = BIpmi req x\<rparr> st =
      Inr (True, Some a, \<lparr>pl_length = l, pl_body = BIpmi req x\<rparr>, st')"
    using st1(1) assms(3) by (auto simp: transmit_def may_send_def plain_command_def)
  moreover have "sent_one st st'" "st_sent st' = st_sent st @ [m]" "st_curr_seq st' = sq" "st_reqs st' = st_reqs st1"
    using st1(2,3,4) fails by (simp_all add: st'_def sent_one_def)
  ultimately show ?thesis
    using st1(5-7) by auto
qed


lemma sample_session_good: "good_session plain_crypto sample_session"
  by (simp add: good_session_def plain_crypto_ok supported_crypt_def supported_integrity_def sample_session_def alg_defs)

definition sample_idle :: "net_event list \<Rightarrow> lp_state" where
  "sample_idle net = sample_lp sample_session empty_table net"

lemma sample_idle_simps [simp]:
  "st_ssn (sample_idle net) = sample_session" "st_reqs (sample_idle net) = empty_table"
  "st_send_fails (sample_idle net) = []" "st_net (sample_idle net) = net" "\<not> noanswer (st_intf (sample_idle net))"
  "0 < retry (ssn_params (st_intf (sample_idle net)))" "2 \<le> retry (ssn_params (st_intf (sample_idle net)))"
  "length (rs_data (st_rsp (sample_idle net))) = 1024" "next_curr_seq False (st_curr_seq (sample_idle net)) = 1"
  "plain_command (sample_idle net) sample_rq" "st_sent (sample_idle net) = []"
  by (simp_all add: sample_idle_def sample_intf_def sample_params_def plain_command_def is_bridge_command_def
      sample_rq_def IPMI_NETFN_APP_def IPMI_GET_CHANNEL_AUTH_CAP_def sample_session_def)
    (simp_all add: sample_lp_def next_curr_seq_def word_le_nat_alt)


section \<open>The removed entry\<close>

lemma remove_frees:
  assumes "table_ok t" "ipmi_req_lookup_entry sq cm t = Inr (Some a)" "ipmi_req_remove_entry sq cm t = Inr t'"
  shows "deref t' (Some a) = Inl Dangling"
proof -
  obtain as where inv: "table_inv t as"
    using assms(1) by (auto simp: table_ok_def)
  show ?thesis
  proof (rule table_cases [OF inv])
    assume "\<forall>a \<in> set as. \<not> hit sq cm t a"
    then show ?thesis
      using assms(2) lookup_refines [OF inv] by (simp add: find_miss)
  next
    fix xs b ys
    assume h: "as = xs @ b # ys" "\<forall>x \<in> set xs. \<not> hit sq cm t x" "hit sq cm t b"
    have ab: "a = b"
      using assms(2) lookup_refines [OF inv] find_hit [OF h(2,3), of ys] h(1) by simp
    obtain p where "walk (t_brk t) sq cm t (t_head t) (t_head t) = Inr (p, Some b)"
      using walk_hit [of t "t_head t" xs b ys "t_brk t" sq cm "t_head t"] h inv length_le_brk [OF inv]
      by (auto simp: table_inv_def)
    then show ?thesis
      using assms(3) ab by (auto simp: ipmi_req_remove_entry_def bind_ok_Inr_iff Let_def free_entry_def deref_def)
  qed
qed

text \<open>C16: a command follows a freed pointer when a poll gives up before the timeout has passed: the entry
  is removed after the first poll, the request is not sent again because the clock says it is too
  early, and after the second fruitless poll the removed entry is looked at to remove it again.
  (A poll gives up early after a packet with a wrong authentication code.)\<close>

theorem lanplus_cmd_use_after_free:
  assumes "good_session cr (st_ssn st)" "table_ok (st_reqs st)" "plain_command st req" "st_send_fails st = []"
    and "\<not> noanswer (st_intf st)" "2 \<le> retry (ssn_params (st_intf st))"
    and "ipmi_req_lookup_entry (next_curr_seq False (st_curr_seq st)) (rq_cmd req) (st_reqs st) = Inr None"
    and "st_net st = [NetNone]" "st_late st = [False]"
  shows "ipmi_lanplus_send_ipmi_cmd cr req st = Inl Dangling"
proof -
  let ?p = "\<lparr>pl_length = 0, pl_body = BIpmi req 0\<rparr>"
  define sq where "sq = next_curr_seq False (st_curr_seq st)"
  obtain k where k: "nat (retry (ssn_params (st_intf st))) = Suc (Suc k)"
    using assms(6) that [of "nat (retry (ssn_params (st_intf st))) - 2"] by simp
  obtain a m st1 where st1: "transmit cr False None ?p st = Inr (True, Some a, ?p, st1)" "sent_one st st1"
    "table_ok (st_reqs st1)"
    "pending (st_reqs st1) = pending (st_reqs st) @ [(a, (new_entry req sq)\<lparr>e_msg := Some m\<rparr>)]"
    using transmit_cmd_ok [OF assms(1-4) sq_def, of None 0 0] by blast
  let ?m = "\<lambda>(a :: nat, e). matches sq (rq_cmd req) e"
  have none: "find ?m (pending (st_reqs st)) = None"
    using assms(7) lp.lookup [OF assms(2)] by (simp add: sq_def)
  have hit: "?m (a, (new_entry req sq)\<lparr>e_msg := Some m\<rparr>)"
    by (simp add: matches_def new_entry_def)
  have look: "ipmi_req_lookup_entry sq (rq_cmd req) (st_reqs st1) = Inr (Some a)"
    unfolding lp.lookup [OF st1(3)] st1(4) using find_hit [of "pending (st_reqs st)" ?m _ "[]"] none hit
    by (simp add: find_none_all)
  obtain e where e: "deref (st_reqs st1) (Some a) = Inr e" "e\<lparr>e_next := None\<rparr> = (new_entry req sq)\<lparr>e_msg := Some m\<rparr>"
    using pending_deref [OF st1(3)] st1(4) by fastforce
  have ek: "e_rq_seq e = sq" "rq_cmd (e_req e) = rq_cmd req"
    using arg_cong [OF e(2), of e_rq_seq] arg_cong [OF e(2), of e_req] by (simp_all add: new_entry_def)
  obtain t where t: "ipmi_req_remove_entry sq (rq_cmd req) (st_reqs st1) = Inr t"
    using lp.remove [OF st1(3)] by blast
  note gone = remove_frees [OF st1(3) look t]
  have same: "st_net st1 = [NetNone]" "st_late st1 = [False]" "st_intf st1 = st_intf st"
    using st1(2) assms(8,9) by (simp_all add: sent_one_def)
  have "ipmi_lan_poll_recv cr st1 = Inr (PNull, st1\<lparr>st_net := []\<rparr>)"
    using same(1) by (subst ipmi_lan_poll_recv.simps) (simp add: ipmi_lan_poll_single_def ipmi_lan_recv_packet_def)
  then have one: "poll_answer cr st1 = Inr (False, st1\<lparr>st_net := []\<rparr>)"
    by (subst poll_answer.simps) simp
  have two: "poll_answer cr s = Inr (False, s)" if "st_net s = []" for s
    using that by (subst poll_answer.simps) simp
  show ?thesis
    using st1(1) same assms(5) one two e(1) ek t gone
    by (simp add: ipmi_lanplus_send_ipmi_cmd_def send_opened_def k await_def state_after_def timed_out_def)
qed

theorem lanplus_cmd_use_after_free_witness:
  "ipmi_lanplus_send_ipmi_cmd plain_crypto sample_rq ((sample_idle [NetNone])\<lparr>st_late := [False]\<rparr>) = Inl Dangling"
proof -
  let ?st = "(sample_idle [NetNone])\<lparr>st_late := [False]\<rparr>"
  have look: "ipmi_req_lookup_entry (next_curr_seq False (st_curr_seq ?st)) (rq_cmd sample_rq) (st_reqs ?st) = Inr None"
    by (simp add: ipmi_req_lookup_entry_def empty_table_def)
  have "plain_command ?st sample_rq"
    using sample_idle_simps(10) [of "[NetNone]"] by (simp add: plain_command_def is_bridge_command_def)
  then show ?thesis
    by (intro lanplus_cmd_use_after_free [OF _ _ _ _ _ _ look])
      (simp_all add: sample_session_good empty_table_ok del: sample_idle_simps(10))
qed

section \<open>Sequence numbers\<close>

interpretation lp_counter: seq_counter "next_curr_seq False"
proof unfold_locales
  fix s :: byte
  assume s: "unat s < 64"
  then have "unat (s + 1) = unat s + 1"
    by (simp add: unat_word_ariths)
  then show "unat (next_curr_seq False s) = (unat s + 1) mod 64"
    using s by (cases "unat s = 63") (auto simp: next_curr_seq_def word_le_nat_alt)
qed

text \<open>64 successive commands of the RMCP+ transport carry pairwise different numbers in the \<open>rqSeq\<close>
  byte, a retry repeats the number of its command, and every number fits six bits.\<close>

theorem lanplus_seq_distinct:
  "unat s < 64 \<Longrightarrow> j < 64 \<Longrightarrow> k < 64 \<Longrightarrow>
   (push_bit 2 ((next_curr_seq False ^^ j) s) = push_bit 2 ((next_curr_seq False ^^ k) s) \<longleftrightarrow> j = k)
   \<and> next_curr_seq True ((next_curr_seq False ^^ j) s) = (next_curr_seq False ^^ j) s
   \<and> unat ((next_curr_seq False ^^ j) s) = (unat s + j) mod 64"
proof -
  assume h: "unat s < 64" "j < 64" "k < 64"
  have small: "unat ((next_curr_seq False ^^ i) s) < 64" for i
    using lp_counter.iterate [OF h(1)] by simp
  have "next_curr_seq True ((next_curr_seq False ^^ j) s) = (next_curr_seq False ^^ j) s"
    using small [of j] by (simp add: next_curr_seq_def word_le_nat_alt)
  then show ?thesis
    using lp_counter.distinct_window [OF h] lp_counter.shifted_inject [OF small small] lp_counter.iterate [OF h(1)]
    by blast
qed

theorem lanplus_seq_distinct_witness:
  "push_bit 2 ((next_curr_seq False ^^ 1) 63) \<noteq> push_bit 2 ((next_curr_seq False ^^ 2) 63)
   \<and> unat ((next_curr_seq False ^^ 1) 63) = 0"
  using lanplus_seq_distinct [of 63 1 2] by simp

text \<open>The packet numbers of Serial over LAN run through 1 to 15 and never are 0, which would make a
  packet an acknowledgement: each packet takes the number after the one before, and 1 after 15.\<close>

theorem lanplus_sol_seq_cycle:
  assumes "1 \<le> unat (sol_sequence_number s)" "unat (sol_sequence_number s) \<le> 16"
    and "set_sol_packet_sequence_number s tx = (s1, tx1)" "set_sol_packet_sequence_number s1 tx' = (s2, tx2)"
  shows "1 \<le> unat (tx_seq tx1) \<and> unat (tx_seq tx1) \<le> 15 \<and> tx1 = tx\<lparr>tx_seq := tx_seq tx1\<rparr>
    \<and> unat (tx_seq tx2) = unat (tx_seq tx1) mod 15 + 1
    \<and> unat (sol_sequence_number s1) = unat (tx_seq tx1) + 1"
proof -
  have step: "unat (tx_seq y) = (if unat (sol_sequence_number r) = 16 then 1 else unat (sol_sequence_number r))
      \<and> unat (sol_sequence_number r') = unat (tx_seq y) + 1 \<and> y = x\<lparr>tx_seq := tx_seq y\<rparr>"
    if "set_sol_packet_sequence_number r x = (r', y)" "unat (sol_sequence_number r) \<le> 16" for r r' x y
    using that by (auto simp: set_sol_packet_sequence_number_def Let_def word_less_nat_alt unat_word_ariths)
  show ?thesis
    using step [OF assms(3,2)] step [OF assms(4)] assms(1,2)
    by (auto simp: mod_if)
qed

theorem lanplus_sol_seq_cycle_witness:
  "unat (tx_seq (snd (set_sol_packet_sequence_number (sample_session\<lparr>sol_sequence_number := 16\<rparr>)
     \<lparr>tx_data = [], tx_seq = 0, tx_acked = 0, tx_accepted = 0, tx_is_nack = False, tx_ring = False,
      tx_break = False, tx_cts = False, tx_dcd = False, tx_flush_in = False, tx_flush_out = False\<rparr>))) = 1"
proof -
  let ?tx = "\<lparr>tx_data = [], tx_seq = 0, tx_acked = 0, tx_accepted = 0, tx_is_nack = False, tx_ring = False,
      tx_break = False, tx_cts = False, tx_dcd = False, tx_flush_in = False, tx_flush_out = False\<rparr>"
  let ?s = "sample_session\<lparr>sol_sequence_number := 16\<rparr>"
  obtain s1 t1 where r1: "set_sol_packet_sequence_number ?s ?tx = (s1, t1)"
    by fastforce
  obtain s2 t2 where r2: "set_sol_packet_sequence_number s1 ?tx = (s2, t2)"
    by fastforce
  have "sol_sequence_number s1 = 2"
    using r1 by (auto simp: set_sol_packet_sequence_number_def)
  then show ?thesis
    using lanplus_sol_seq_cycle [OF _ _ r1 r2] r1 by simp
qed

section \<open>Repeated characters\<close>

text \<open>A Serial over LAN packet in the response, with its characters at the front.\<close>

definition holds_sol :: "ipmi_rs \<Rightarrow> byte \<Rightarrow> bytes \<Rightarrow> bool" where
  "holds_sol r sq d \<longleftrightarrow> is_sol_packet r \<and> (\<exists>s. rs_payload r = PSol s \<and> sp_seq s = sq) \<and>
     rs_data_len r = int (length d) \<and> take (length d) (rs_data r) = d \<and> length (rs_data r) = 1024"

text \<open>No character is delivered twice: after a packet with a new number, all of whose characters are
  kept, a packet with the same number that repeats them and adds more leaves exactly the added
  ones, and an exact repetition leaves none.\<close>

theorem lanplus_sol_no_repeat:
  assumes "holds_sol (st_rsp st) sq d" "sq \<noteq> 0" "sq \<noteq> st_sol_seq st" "length d < 256"
    and "check_sol_packet_for_new_data st = Inr (n1, st1)"
    and "holds_sol r sq (d @ d')" "check_sol_packet_for_new_data (st1\<lparr>st_rsp := r\<rparr>) = Inr (n2, st2)"
  shows "holds_sol (st_rsp st1) sq d \<and> n2 = int (length d') \<and> rs_data_len (st_rsp st2) = int (length d')
    \<and> take (length d') (rs_data (st_rsp st2)) = d'"
proof -
  have c: "unat (word_of_int (int (length d)) :: byte) = length d"
    using assms(4) by (simp add: unat_of_nat)
  have st1: "st_rsp st1 = st_rsp st" "st_sol_seq st1 = sq" "st_sol_count st1 = word_of_int (int (length d))"
    using assms(1-3,5) by (auto simp: check_sol_packet_for_new_data_def holds_sol_def sol_packet_def Let_def)
  have dd: "take (length d') (drop (length d) (rs_data r)) = d'" "length d + length d' \<le> 1024"
  proof -
    have "take (length d + length d') (rs_data r) = d @ d'"
      using assms(6) by (simp add: holds_sol_def)
    then show "take (length d') (drop (length d) (rs_data r)) = d'"
      by (metis add_diff_cancel_left' append_eq_conv_conj drop_take)
    show "length d + length d' \<le> 1024"
      using assms(6) unfolding holds_sol_def by (metis length_append length_take min.cobounded1)
  qed
  have mv: "take (length d') (move_front (rs_data r) (length d) (length d')) = d'"
    using dd assms(6) by (simp add: move_front_def put_at_def region_def holds_sol_def)
  have "n2 = int (length d')" "rs_data_len (st_rsp st2) = int (length d')"
    "take (length d') (rs_data (st_rsp st2)) = d'"
    using assms(6,7) st1 c mv assms(2)
    by (auto simp: check_sol_packet_for_new_data_def holds_sol_def sol_packet_def Let_def split: if_split_asm)
  then show ?thesis
    using st1(1) assms(1) by simp
qed

definition sample_sol :: "byte \<Rightarrow> bytes \<Rightarrow> ipmi_rs" where
  "sample_sol sq d = sample_rs\<lparr>rs_authtype := 6, rs_payloadtype := 1, rs_data := put_at (replicate 1024 0) 0 d,
     rs_data_len := int (length d),
     rs_payload := PSol \<lparr>sp_seq = sq, sp_acked = 0, sp_accepted = 0, sp_is_nack = False, sp_unavailable = False,
       sp_inactive = False, sp_overrun = False, sp_break = False\<rparr>\<rparr>"

lemma sample_sol_holds: "length d \<le> 1024 \<Longrightarrow> holds_sol (sample_sol sq d) sq d"
  by (simp add: holds_sol_def sample_sol_def is_sol_packet_def IPMI_SESSION_AUTHTYPE_RMCP_PLUS_def
      IPMI_PAYLOAD_TYPE_SOL_def put_at_def)

theorem lanplus_sol_no_repeat_witness:
  "\<exists>n1 st1 n2 st2. check_sol_packet_for_new_data ((sample_idle [])\<lparr>st_rsp := sample_sol 5 [0x41]\<rparr>) = Inr (n1, st1)
    \<and> check_sol_packet_for_new_data (st1\<lparr>st_rsp := sample_sol 5 ([0x41] @ [0x42])\<rparr>) = Inr (n2, st2)
    \<and> take 1 (rs_data (st_rsp st2)) = [0x42]"
proof -
  let ?st = "(sample_idle [])\<lparr>st_rsp := sample_sol 5 [0x41]\<rparr>"
  have h: "holds_sol (sample_sol 5 [0x41]) 5 [0x41]" "holds_sol (sample_sol 5 ([0x41] @ [0x42])) 5 ([0x41] @ [0x42])"
    by (simp_all add: sample_sol_holds)
  have ok: "\<exists>n st'. check_sol_packet_for_new_data st = Inr (n, st')" if "holds_sol (st_rsp st) sq d" for st sq d
    using that by (auto simp: check_sol_packet_for_new_data_def holds_sol_def sol_packet_def Let_def)
  obtain n1 st1 where c1: "check_sol_packet_for_new_data ?st = Inr (n1, st1)"
    using ok [of ?st 5 "[0x41]"] h(1) by auto
  obtain n2 st2 where c2: "check_sol_packet_for_new_data (st1\<lparr>st_rsp := sample_sol 5 ([0x41] @ [0x42])\<rparr>) = Inr (n2, st2)"
    using ok [of "st1\<lparr>st_rsp := sample_sol 5 ([0x41] @ [0x42])\<rparr>" 5 "[0x41] @ [0x42]"] h(2) by auto
  have "st_sol_seq ?st = 0"
    by (simp add: sample_idle_def sample_lp_def)
  then have "take (length [0x42 :: byte]) (rs_data (st_rsp st2)) = [0x42]"
    using lanplus_sol_no_repeat [OF _ _ _ _ c1 h(2) c2] h(1) by simp
  then show ?thesis
    using c1 c2 by auto
qed

section \<open>Sending characters ends\<close>




end
