(* ===== verification/Sendrecv.thy ===== *)
theory Sendrecv
  imports LanplusTypes HelperNum
begin

text \<open>
  The interface between the commands of \<open>lib/\<close> and the transports: \<open>intf->sendrecv\<close> as a
  function that takes a request and the state of the transport and gives the response, if any,
  and the new state. The locale \<open>transport\<close> holds what every transport promises and what the
  commands keep; a device that answers by a table is the simplest one.
\<close>

type_synonym 's sendrecv = "ipmi_rq \<Rightarrow> 's \<Rightarrow> (ipmi_rs option \<times> 's) outcome"

text \<open>A request that was cleared before its fields were set.\<close>

definition mk_rq :: "6 word \<Rightarrow> byte \<Rightarrow> bytes \<Rightarrow> ipmi_rq" where
  "mk_rq netfn cmd d = \<lparr>rq_netfn = netfn, rq_lun = 0, rq_cmd = cmd, rq_target_cmd = 0, rq_data = d\<rparr>"

lemma mk_rq_sel [simp]:
  "rq_netfn (mk_rq nf c d) = nf" "rq_lun (mk_rq nf c d) = 0" "rq_cmd (mk_rq nf c d) = c"
  "rq_target_cmd (mk_rq nf c d) = 0" "rq_data (mk_rq nf c d) = d"
  by (simp_all add: mk_rq_def)


text \<open>
  The pattern of the \<open>_ipmi_get_*\<close> functions: -1 without a response, then its completion code,
  then -2 unless the response has the expected length. \<open>dat\<close> reads the data of a good one.
\<close>

definition ask :: "'s sendrecv \<Rightarrow> ipmi_rq \<Rightarrow> int \<Rightarrow> (bytes \<Rightarrow> 'a) \<Rightarrow> 'a \<Rightarrow> 's \<Rightarrow> (int \<times> 'a \<times> 's) outcome" where
  "ask send rq len dat old st =
     bind_ok (send rq st) (\<lambda>(r, st'). Inr (
       case r of
         None \<Rightarrow> (-1, old, st')
       | Some rsp \<Rightarrow>
           if rs_ccode rsp \<noteq> 0 then (uint (rs_ccode rsp), old, st')
           else if rs_data_len rsp \<noteq> len then (-2, old, st')
           else (0, dat (rs_data rsp), st')))"

text \<open>The pattern of the \<open>_ipmi_set_*\<close> functions: -1 or the completion code.\<close>

definition tell :: "'s sendrecv \<Rightarrow> ipmi_rq \<Rightarrow> 's \<Rightarrow> (int \<times> 's) outcome" where
  "tell send rq st =
     bind_ok (send rq st) (\<lambda>(r, st'). Inr (case r of None \<Rightarrow> -1 | Some rsp \<Rightarrow> uint (rs_ccode rsp), st'))"

text \<open>
  What a transport promises: a state it works in is kept, and a response it returns lies in the
  static buffer of (at least) \<open>IPMI_BUF_SIZE\<close> bytes.
\<close>

locale transport =
  fixes send :: "'s sendrecv" and inv :: "'s \<Rightarrow> bool"
  assumes send_inv: "inv st \<Longrightarrow> send rq st = Inr (r, st') \<Longrightarrow> inv st'"
    and send_buffer: "inv st \<Longrightarrow> send rq st = Inr (Some rsp, st') \<Longrightarrow> IPMI_BUF_SIZE \<le> length (rs_data rsp)"
begin

lemma ask_inv:
  assumes "inv st" "ask send rq len dat old st = Inr (rc, a, st')"
  shows "inv st'"
  using assms send_inv by (auto simp: ask_def bind_ok_Inr_iff split: option.splits if_splits)

lemma tell_inv:
  assumes "inv st" "tell send rq st = Inr (rc, st')"
  shows "inv st'"
  using assms send_inv by (auto simp: tell_def bind_ok_Inr_iff)

lemma ask_ok:
  assumes "inv st" "ask send rq len dat old st = Inr (0, a, st')"
  obtains rsp where "send rq st = Inr (Some rsp, st')" "rs_ccode rsp = 0" "rs_data_len rsp = len"
    "IPMI_BUF_SIZE \<le> length (rs_data rsp)" "a = dat (rs_data rsp)"
  using assms send_buffer by (auto simp: ask_def bind_ok_Inr_iff uint_0_iff split: option.splits if_splits)

end

section \<open>A device as a table\<close>

text \<open>
  A device that answers each request with a completion code and data, and the requests it saw.
\<close>

definition reply :: "byte \<Rightarrow> bytes \<Rightarrow> ipmi_rs" where
  "reply cc d = \<lparr>rs_ccode = cc, rs_data = put_at (replicate 1024 0) 0 d, rs_data_len = int (length d),
     rs_authtype = 6, rs_seq = 0, rs_id = 0, rs_bEncrypted = False, rs_bAuthenticated = False,
     rs_payloadtype = 0, rs_msglen = 0, rs_payload = PNone\<rparr>"

definition device :: "(ipmi_rq \<Rightarrow> (byte \<times> bytes) option) \<Rightarrow> ipmi_rq list sendrecv" where
  "device f rq seen =
     Inr (case f rq of None \<Rightarrow> None | Some (cc, d) \<Rightarrow> Some (reply cc (take 1023 d)), seen @ [rq])"

lemma reply_sel [simp]:
  "rs_ccode (reply cc d) = cc" "rs_data_len (reply cc d) = int (length d)"
  "length d \<le> 1024 \<Longrightarrow> length (rs_data (reply cc d)) = 1024"
  "length d \<le> 1024 \<Longrightarrow> i < length d \<Longrightarrow> rs_data (reply cc d) ! i = d ! i"
  by (simp_all add: reply_def nth_put_at)

lemma take_reply: "length d \<le> 1024 \<Longrightarrow> n \<le> length d \<Longrightarrow> take n (rs_data (reply cc d)) = take n d"
  by (simp add: reply_def put_at_def)

interpretation table: transport "device f" "\<lambda>_. True"
  by unfold_locales (auto simp: device_def IPMI_BUF_SIZE_def split: option.splits)

end
