(* ===== verification/User.thy ===== *)
theory User
  imports Sendrecv
begin

text \<open>
  User accounts, \<open>lib/ipmi_user.c\<close>: the \<open>_ipmi_*\<close> functions that send one request, and the
  commands built on them. Commands give their return value; what they print is the value next
  to it where it carries data. Names and passwords are C strings without the final 0.
\<close>

section \<open>Requests\<close>

record user_access_t =
  ua_callin_callback :: byte
  ua_channel :: byte
  ua_enabled_user_ids :: byte
  ua_enable_status :: byte
  ua_fixed_user_ids :: byte
  ua_ipmi_messaging :: byte
  ua_link_auth :: byte
  ua_max_user_ids :: byte
  ua_privilege_limit :: byte
  ua_session_limit :: byte
  ua_user_id :: byte

definition no_access :: user_access_t where
  "no_access = \<lparr>ua_callin_callback = 0, ua_channel = 0, ua_enabled_user_ids = 0, ua_enable_status = 0,
     ua_fixed_user_ids = 0, ua_ipmi_messaging = 0, ua_link_auth = 0, ua_max_user_ids = 0,
     ua_privilege_limit = 0, ua_session_limit = 0, ua_user_id = 0\<rparr>"

definition IPMI_UID :: "byte \<Rightarrow> byte" where "IPMI_UID i = i AND 0x3F"

definition IPMI_SET_USER_ACCESS :: byte where "IPMI_SET_USER_ACCESS = 0x43"
definition IPMI_GET_USER_ACCESS :: byte where "IPMI_GET_USER_ACCESS = 0x44"
definition IPMI_SET_USER_NAME :: byte where "IPMI_SET_USER_NAME = 0x45"
definition IPMI_GET_USER_NAME :: byte where "IPMI_GET_USER_NAME = 0x46"
definition IPMI_SET_USER_PASSWORD :: byte where "IPMI_SET_USER_PASSWORD = 0x47"

lemmas user_cmds = IPMI_SET_USER_ACCESS_def IPMI_GET_USER_ACCESS_def IPMI_SET_USER_NAME_def
  IPMI_GET_USER_NAME_def IPMI_SET_USER_PASSWORD_def

definition ipmi_get_user_access_bmc :: "'s sendrecv \<Rightarrow> user_access_t \<Rightarrow> 's \<Rightarrow> (int \<times> user_access_t \<times> 's) outcome" where
  "ipmi_get_user_access_bmc send u =
     ask send (mk_rq IPMI_NETFN_APP IPMI_GET_USER_ACCESS [ua_channel u AND 0x0F, IPMI_UID (ua_user_id u)]) 4
       (\<lambda>d. u\<lparr>ua_max_user_ids := IPMI_UID (d ! 0), ua_enable_status := d ! 1 AND 0xC0,
              ua_enabled_user_ids := IPMI_UID (d ! 1), ua_fixed_user_ids := IPMI_UID (d ! 2),
              ua_callin_callback := d ! 3 AND 0x40, ua_link_auth := d ! 3 AND 0x20,
              ua_ipmi_messaging := d ! 3 AND 0x10, ua_privilege_limit := d ! 3 AND 0x0F\<rparr>) u"

text \<open>The name keeps its 16 bytes; printed up to the first 0.\<close>

definition ipmi_get_user_name_bmc :: "'s sendrecv \<Rightarrow> byte \<Rightarrow> 's \<Rightarrow> (int \<times> bytes \<times> 's) outcome" where
  "ipmi_get_user_name_bmc send uid =
     ask send (mk_rq IPMI_NETFN_APP IPMI_GET_USER_NAME [IPMI_UID uid]) 16 (take 16) []"

definition set_access_data :: "user_access_t \<Rightarrow> bool \<Rightarrow> bytes" where
  "set_access_data u change_priv_limit_only =
     [(if change_priv_limit_only then 0x00 else 0x80)
        OR (if ua_callin_callback u \<noteq> 0 then 0x40 else 0)
        OR (if ua_link_auth u \<noteq> 0 then 0x20 else 0)
        OR (if ua_ipmi_messaging u \<noteq> 0 then 0x10 else 0)
        OR (ua_channel u AND 0x0F),
      IPMI_UID (ua_user_id u), ua_privilege_limit u AND 0x0F, ua_session_limit u AND 0x0F]"

definition ipmi_set_user_access_bmc :: "'s sendrecv \<Rightarrow> user_access_t \<Rightarrow> bool \<Rightarrow> 's \<Rightarrow> (int \<times> 's) outcome" where
  "ipmi_set_user_access_bmc send u only =
     tell send (mk_rq IPMI_NETFN_APP IPMI_SET_USER_ACCESS (set_access_data u only))"

text \<open>The message buffer of 18 or 22 bytes is cleared and holds the password cut to its room.\<close>

definition bytes_of :: "string \<Rightarrow> bytes" where "bytes_of s = List.map of_char s"

lemma length_bytes_of [simp]: "length (bytes_of s) = length s"
  by (simp add: bytes_of_def)

definition password_data :: "byte \<Rightarrow> byte \<Rightarrow> string option \<Rightarrow> bool \<Rightarrow> bytes" where
  "password_data uid operation password twenty =
     (let room = (if twenty then 20 else 16);
          pw = (case password of None \<Rightarrow> [] | Some p \<Rightarrow> take room (bytes_of p))
      in ((if twenty then 0x80 else 0x00) OR IPMI_UID uid) # (0x03 AND operation) # pw @ replicate (room - length pw) 0)"

definition ipmi_set_user_password_bmc :: "bool \<Rightarrow> 's sendrecv \<Rightarrow> byte \<Rightarrow> byte \<Rightarrow> string option \<Rightarrow> bool \<Rightarrow> 's
    \<Rightarrow> (int \<times> 's) outcome" where
  "ipmi_set_user_password_bmc mem send uid operation password twenty st =
     (if \<not> mem then Inr (-4, st)
      else tell send (mk_rq IPMI_NETFN_APP IPMI_SET_USER_PASSWORD (password_data uid operation password twenty)) st)"

definition ipmi_user_set_username :: "'s sendrecv \<Rightarrow> byte \<Rightarrow> string \<Rightarrow> 's \<Rightarrow> (int \<times> 's) outcome" where
  "ipmi_user_set_username send uid name st =
     (if 17 \<le> length name then Inr (-1, st)
      else bind_ok (tell send (mk_rq IPMI_NETFN_APP IPMI_SET_USER_NAME
             (IPMI_UID uid # bytes_of name @ replicate (16 - length name) 0)) st)
           (\<lambda>(rc, st'). Inr (if rc = 0 then 0 else -1, st')))"

definition IPMI_PASSWORD_DISABLE_USER :: byte where "IPMI_PASSWORD_DISABLE_USER = 0x00"
definition IPMI_PASSWORD_ENABLE_USER :: byte where "IPMI_PASSWORD_ENABLE_USER = 0x01"
definition IPMI_PASSWORD_SET_PASSWORD :: byte where "IPMI_PASSWORD_SET_PASSWORD = 0x02"
definition IPMI_PASSWORD_TEST_PASSWORD :: byte where "IPMI_PASSWORD_TEST_PASSWORD = 0x03"

definition ipmi_user_test_password :: "bool \<Rightarrow> 's sendrecv \<Rightarrow> byte \<Rightarrow> string \<Rightarrow> bool \<Rightarrow> 's \<Rightarrow> (int \<times> 's) outcome" where
  "ipmi_user_test_password mem send uid password twenty st =
     bind_ok (ipmi_set_user_password_bmc mem send uid IPMI_PASSWORD_TEST_PASSWORD (Some password) twenty st)
       (\<lambda>(rc, st'). Inr (if rc = 0 then 0 else -1, st'))"

section \<open>Listing\<close>

text \<open>
  One user: its access and name; a user without a name (0xCC) has the empty one. The answer to
  the access request is asked for first.
\<close>

definition read_user :: "'s sendrecv \<Rightarrow> byte \<Rightarrow> byte \<Rightarrow> 's \<Rightarrow> ((user_access_t \<times> bytes) option \<times> 's) outcome" where
  "read_user send channel uid st =
     bind_ok (ipmi_get_user_access_bmc send (no_access\<lparr>ua_user_id := uid, ua_channel := channel\<rparr>) st) (\<lambda>(rc, u, st1).
       if eval_ccode rc \<noteq> 0 then Inr (None, st1)
       else bind_ok (ipmi_get_user_name_bmc send uid st1) (\<lambda>(rc', name, st2).
         if rc' = 0xCC then Inr (Some (u, replicate 16 0), st2)
         else if eval_ccode rc' \<noteq> 0 then Inr (None, st2)
         else Inr (Some (u, name), st2)))"

text \<open>
  The loop of \<open>ipmi_print_user_list\<close>; \<open>k\<close> is \<open>IPMI_UID_MAX - current_user_id\<close>. The number
  of users is read again with every user.
\<close>

fun user_list_loop :: "'s sendrecv \<Rightarrow> byte \<Rightarrow> nat \<Rightarrow> byte \<Rightarrow> 's \<Rightarrow> (int \<times> (user_access_t \<times> bytes) list \<times> 's) outcome" where
  "user_list_loop send channel k current st =
     bind_ok (read_user send channel current st) (\<lambda>(r, st').
       case r of
         None \<Rightarrow> Inr (-1, [], st')
       | Some (u, name) \<Rightarrow>
           (case k of
              Suc k' \<Rightarrow>
                if current + 1 \<le> ua_max_user_ids u
                then bind_ok (user_list_loop send channel k' (current + 1) st')
                       (\<lambda>(rc, rows, st''). Inr (rc, (u, name) # rows, st''))
                else Inr (0, [(u, name)], st')
            | 0 \<Rightarrow> Inr (0, [(u, name)], st')))"

declare user_list_loop.simps [simp del]

definition ipmi_print_user_list :: "'s sendrecv \<Rightarrow> byte \<Rightarrow> 's \<Rightarrow> (int \<times> (user_access_t \<times> bytes) list \<times> 's) outcome" where
  "ipmi_print_user_list send channel st = user_list_loop send channel 62 1 st"

definition ipmi_print_user_summary :: "'s sendrecv \<Rightarrow> byte \<Rightarrow> 's \<Rightarrow> (int \<times> (byte \<times> byte \<times> byte) option \<times> 's) outcome" where
  "ipmi_print_user_summary send channel st =
     bind_ok (ipmi_get_user_access_bmc send (no_access\<lparr>ua_channel := channel, ua_user_id := 1\<rparr>) st) (\<lambda>(rc, u, st').
       Inr (if eval_ccode rc \<noteq> 0 then (-1, None, st')
            else (0, Some (ua_max_user_ids u, ua_enabled_user_ids u, ua_fixed_user_ids u), st')))"

section \<open>Commands\<close>

text \<open>An argument through one of the checked conversions.\<close>

definition arg :: "(string option \<Rightarrow> int option \<Rightarrow> int \<times> int option) \<Rightarrow> string \<Rightarrow> byte option" where
  "arg check s = (case check (Some s) (Some 0) of (rc, v) \<Rightarrow> if rc = 0 then Some (of_int (the v)) else None)"

definition channel_arg :: "string list \<Rightarrow> byte option" where
  "channel_arg argv =
     (if length argv = 1 then Some 0x0E
      else if length argv = 2 then arg is_ipmi_channel_num (argv ! 1) else None)"

definition ipmi_user_summary :: "'s sendrecv \<Rightarrow> string list \<Rightarrow> 's \<Rightarrow> (int \<times> (byte \<times> byte \<times> byte) option \<times> 's) outcome" where
  "ipmi_user_summary send argv st =
     (case channel_arg argv of None \<Rightarrow> Inr (-1, None, st) | Some c \<Rightarrow> ipmi_print_user_summary send c st)"

definition ipmi_user_list :: "'s sendrecv \<Rightarrow> string list \<Rightarrow> 's \<Rightarrow> (int \<times> (user_access_t \<times> bytes) list \<times> 's) outcome" where
  "ipmi_user_list send argv st =
     (case channel_arg argv of None \<Rightarrow> Inr (-1, [], st) | Some c \<Rightarrow> ipmi_print_user_list send c st)"

text \<open>\<open>prompt\<close> is the answer of \<open>ask_password\<close>.\<close>

definition ipmi_user_test :: "bool \<Rightarrow> string option \<Rightarrow> 's sendrecv \<Rightarrow> string list \<Rightarrow> 's \<Rightarrow> (int \<times> 's) outcome" where
  "ipmi_user_test mem prompt send argv st =
     (if length argv \<noteq> 3 \<and> length argv \<noteq> 4 then Inr (-1, st)
      else case arg is_ipmi_user_id (argv ! 1) of None \<Rightarrow> Inr (-1, st)
      | Some uid \<Rightarrow>
          (case str2int (Some (argv ! 2)) (Some 0) of (rc, n) \<Rightarrow>
             if rc \<noteq> 0 \<or> (n \<noteq> Some 16 \<and> n \<noteq> Some 20) then Inr (-1, st)
             else case (if length argv = 3 then prompt else Some (argv ! 3)) of
               None \<Rightarrow> Inr (-1, st)
             | Some pw \<Rightarrow> ipmi_user_test_password mem send uid pw (n = Some 20) st))"

definition ipmi_user_priv :: "'s sendrecv \<Rightarrow> string list \<Rightarrow> 's \<Rightarrow> (int \<times> 's) outcome" where
  "ipmi_user_priv send argv st =
     (if length argv \<noteq> 3 \<and> length argv \<noteq> 4 then Inr (-1, st)
      else case (if length argv = 4 then arg is_ipmi_channel_num (argv ! 3) else Some 0x0E) of
        None \<Rightarrow> Inr (-1, st)
      | Some c \<Rightarrow>
          (case (arg is_ipmi_user_priv_limit (argv ! 2), arg is_ipmi_user_id (argv ! 1)) of
             (Some p, Some uid) \<Rightarrow>
               bind_ok (ipmi_set_user_access_bmc send
                 (no_access\<lparr>ua_channel := c, ua_privilege_limit := p, ua_user_id := uid\<rparr>) True st)
                 (\<lambda>(rc, st'). Inr (eval_ccode rc, st'))
           | _ \<Rightarrow> Inr (-1, st)))"

text \<open>The return value passes through a \<open>uint8_t\<close>.\<close>

definition ipmi_user_mod :: "bool \<Rightarrow> 's sendrecv \<Rightarrow> string list \<Rightarrow> 's \<Rightarrow> (int \<times> 's) outcome" where
  "ipmi_user_mod mem send argv st =
     (if length argv \<noteq> 2 then Inr (-1, st)
      else case arg is_ipmi_user_id (argv ! 1) of None \<Rightarrow> Inr (-1, st)
      | Some uid \<Rightarrow>
          bind_ok (ipmi_set_user_password_bmc mem send uid
              (if argv ! 0 = ''disable'' then IPMI_PASSWORD_DISABLE_USER else IPMI_PASSWORD_ENABLE_USER) None False st)
            (\<lambda>(rc, st'). Inr (eval_ccode (uint (word_of_int rc :: byte)), st')))"

text \<open>
  The password asked for twice: \<open>password\<close> and \<open>tmp\<close> are what the two returned pointers hold
  when they are compared, after both calls. \<open>strncmp\<close> compares as many characters as the second
  has, at most 21. A null second pointer is passed to \<open>strnlen\<close>.
\<close>

definition asked_twice :: "string option \<Rightarrow> string option \<Rightarrow> string option outcome" where
  "asked_twice password tmp =
     (case password of
        None \<Rightarrow> Inr None
      | Some p \<Rightarrow>
          (case tmp of
             None \<Rightarrow> Inl Dangling
           | Some t \<Rightarrow> let n = min (length t) 21 in Inr (if take n p = take n t then Some p else None)))"

text \<open>How the password is stored: 16 or 20 bytes, given or chosen by its length.\<close>

definition password_type :: "string list \<Rightarrow> nat \<Rightarrow> nat option" where
  "password_type argv n =
     (if 4 < length argv then
        (case arg str2uchar (argv ! 4) of
           Some t \<Rightarrow> if t = 16 \<or> t = 20 then Some (unat t) else None
         | None \<Rightarrow> None)
      else if 16 < n then Some 20 else Some 16)"

definition ipmi_user_password :: "bool \<Rightarrow> string option \<Rightarrow> string option \<Rightarrow> 's sendrecv \<Rightarrow> string list \<Rightarrow> 's
    \<Rightarrow> (int \<times> 's) outcome" where
  "ipmi_user_password mem prompt1 prompt2 send argv st =
     (case arg is_ipmi_user_id (argv ! 2) of None \<Rightarrow> Inr (-1, st)
      | Some uid \<Rightarrow>
          bind_ok (if length argv = 3 then asked_twice prompt1 prompt2 else Inr (Some (argv ! 3))) (\<lambda>pw.
            case pw of None \<Rightarrow> Inr (-1, st)
            | Some p \<Rightarrow>
                let n = min (length p) 21 in
                (case password_type argv n of
                   None \<Rightarrow> Inr (-1, st)
                 | Some t \<Rightarrow>
                     if t < n then Inr (-1, st)
                     else bind_ok (ipmi_set_user_password_bmc mem send uid IPMI_PASSWORD_SET_PASSWORD (Some p) (16 < t) st)
                            (\<lambda>(rc, st'). Inr (eval_ccode rc, st')))))"

definition ipmi_user_name :: "'s sendrecv \<Rightarrow> string list \<Rightarrow> 's \<Rightarrow> (int \<times> 's) outcome" where
  "ipmi_user_name send argv st =
     (if length argv \<noteq> 4 then Inr (-1, st)
      else case arg is_ipmi_user_id (argv ! 2) of None \<Rightarrow> Inr (-1, st)
      | Some uid \<Rightarrow>
          if 16 < length (argv ! 3) then Inr (-1, st) else ipmi_user_set_username send uid (argv ! 3) st)"

text \<open>The dispatcher: the return value and the state.\<close>

definition drop_output :: "(int \<times> 'a \<times> 's) outcome \<Rightarrow> (int \<times> 's) outcome" where
  "drop_output r = bind_ok r (\<lambda>(rc, a, st). Inr (rc, st))"

definition ipmi_user_main :: "bool \<Rightarrow> string option \<Rightarrow> string option \<Rightarrow> 's sendrecv \<Rightarrow> string list \<Rightarrow> 's
    \<Rightarrow> (int \<times> 's) outcome" where
  "ipmi_user_main mem prompt1 prompt2 send argv st =
     (if argv = [] then Inr (-1, st)
      else if argv ! 0 = ''help'' then Inr (0, st)
      else if argv ! 0 = ''summary'' then drop_output (ipmi_user_summary send argv st)
      else if argv ! 0 = ''list'' then drop_output (ipmi_user_list send argv st)
      else if argv ! 0 = ''test'' then ipmi_user_test mem prompt1 send argv st
      else if argv ! 0 = ''set'' then
        (if 3 \<le> length argv \<and> argv ! 1 = ''password'' then ipmi_user_password mem prompt1 prompt2 send argv st
         else if 2 \<le> length argv \<and> argv ! 1 = ''name'' then ipmi_user_name send argv st
         else Inr (-1, st))
      else if argv ! 0 = ''priv'' then ipmi_user_priv send argv st
      else if argv ! 0 = ''disable'' \<or> argv ! 0 = ''enable'' then ipmi_user_mod mem send argv st
      else Inr (-1, st))"

end
