(* ===== verification/Channel.thy ===== *)
theory Channel
  imports User
begin

text \<open>
  Channels, \<open>lib/ipmi_channel.c\<close>: access and information of a channel, its list of cipher
  suites, and the commands on the access of users. What a command prints is the value next to
  its return value where it carries data of the device.
\<close>

section \<open>Access and information\<close>

record channel_access_t =
  ca_access_mode :: byte
  ca_alerting :: byte
  ca_channel :: byte
  ca_per_message_auth :: byte
  ca_privilege_limit :: byte
  ca_user_level_auth :: byte

record channel_info_t =
  ci_channel :: byte
  ci_medium :: byte
  ci_protocol :: byte
  ci_session_support :: byte
  ci_active_sessions :: byte
  ci_vendor_id :: bytes
  ci_aux_info :: bytes

definition no_channel_access :: "byte \<Rightarrow> channel_access_t" where
  "no_channel_access c = \<lparr>ca_access_mode = 0, ca_alerting = 0, ca_channel = c, ca_per_message_auth = 0,
     ca_privilege_limit = 0, ca_user_level_auth = 0\<rparr>"

definition no_channel_info :: "byte \<Rightarrow> channel_info_t" where
  "no_channel_info c = \<lparr>ci_channel = c, ci_medium = 0, ci_protocol = 0, ci_session_support = 0,
     ci_active_sessions = 0, ci_vendor_id = [0, 0, 0], ci_aux_info = [0, 0]\<rparr>"

definition ipmi_get_channel_access_bmc :: "'s sendrecv \<Rightarrow> channel_access_t \<Rightarrow> bool \<Rightarrow> 's
    \<Rightarrow> (int \<times> channel_access_t \<times> 's) outcome" where
  "ipmi_get_channel_access_bmc send c volatile =
     ask send (mk_rq IPMI_NETFN_APP 0x41 [ca_channel c AND 0x0F, if volatile then 0x80 else 0x40]) 2
       (\<lambda>d. c\<lparr>ca_alerting := d ! 0 AND 0x20, ca_per_message_auth := d ! 0 AND 0x10,
              ca_user_level_auth := d ! 0 AND 0x08, ca_access_mode := d ! 0 AND 0x07,
              ca_privilege_limit := d ! 1 AND 0x0F\<rparr>) c"

definition ipmi_get_channel_info_bmc :: "'s sendrecv \<Rightarrow> channel_info_t \<Rightarrow> 's
    \<Rightarrow> (int \<times> channel_info_t \<times> 's) outcome" where
  "ipmi_get_channel_info_bmc send c =
     ask send (mk_rq IPMI_NETFN_APP 0x42 [ci_channel c AND 0x0F]) 9
       (\<lambda>d. \<lparr>ci_channel = d ! 0 AND 0x0F, ci_medium = d ! 1 AND 0x7F, ci_protocol = d ! 2 AND 0x1F,
              ci_session_support = d ! 3 AND 0xC0, ci_active_sessions = d ! 3 AND 0x3F,
              ci_vendor_id = region d 4 3, ci_aux_info = region d 7 2\<rparr>) c"

definition channel_access_data :: "channel_access_t \<Rightarrow> byte \<Rightarrow> byte \<Rightarrow> bytes" where
  "channel_access_data c access_option privilege_option =
     [ca_channel c AND 0x0F,
      push_bit 6 access_option OR (if ca_alerting c \<noteq> 0 then 0x20 else 0)
        OR (if ca_per_message_auth c \<noteq> 0 then 0x10 else 0)
        OR (if ca_user_level_auth c \<noteq> 0 then 0x08 else 0) OR (ca_access_mode c AND 0x07),
      push_bit 6 privilege_option OR (ca_privilege_limit c AND 0x0F)]"

definition ipmi_set_channel_access_bmc :: "'s sendrecv \<Rightarrow> channel_access_t \<Rightarrow> byte \<Rightarrow> byte \<Rightarrow> 's
    \<Rightarrow> (int \<times> 's) outcome" where
  "ipmi_set_channel_access_bmc send c access_option privilege_option st =
     (if 2 < access_option \<or> 2 < privilege_option then Inr (-3, st)
      else tell send (mk_rq IPMI_NETFN_APP 0x40 (channel_access_data c access_option privilege_option)) st)"

definition IPMI_CHANNEL_MEDIUM_RESERVED :: byte where "IPMI_CHANNEL_MEDIUM_RESERVED = 0"
definition IPMI_CHANNEL_MEDIUM_LAN :: byte where "IPMI_CHANNEL_MEDIUM_LAN = 4"
definition IPMI_CHANNEL_MEDIUM_LAN_OTHER :: byte where "IPMI_CHANNEL_MEDIUM_LAN_OTHER = 6"

definition ipmi_current_channel_info :: "'s sendrecv \<Rightarrow> channel_info_t \<Rightarrow> 's \<Rightarrow> (channel_info_t \<times> 's) outcome" where
  "ipmi_current_channel_info send c st =
     bind_ok (ipmi_get_channel_info_bmc send (c\<lparr>ci_channel := 0x0E\<rparr>) st) (\<lambda>(rc, c', st').
       Inr (if rc \<noteq> 0 then c'\<lparr>ci_channel := 0xFF, ci_medium := IPMI_CHANNEL_MEDIUM_RESERVED\<rparr> else c', st'))"

definition ipmi_get_channel_medium :: "'s sendrecv \<Rightarrow> byte \<Rightarrow> 's \<Rightarrow> (byte \<times> 's) outcome" where
  "ipmi_get_channel_medium send c st =
     bind_ok (ipmi_get_channel_info_bmc send (no_channel_info c) st) (\<lambda>(rc, i, st').
       Inr (if rc \<noteq> 0 then IPMI_CHANNEL_MEDIUM_RESERVED else ci_medium i, st'))"

text \<open>The command \<open>channel info\<close>: what it shows of the channel and its two accesses.\<close>

definition ipmi_get_channel_info :: "'s sendrecv \<Rightarrow> byte \<Rightarrow> 's
    \<Rightarrow> (int \<times> (channel_info_t option \<times> channel_access_t list) \<times> 's) outcome" where
  "ipmi_get_channel_info send c st =
     bind_ok (ipmi_get_channel_info_bmc send (no_channel_info c) st) (\<lambda>(rc, i, st1).
       if eval_ccode rc \<noteq> 0 then Inr (-1, (None, []), st1)
       else if ci_medium i \<noteq> IPMI_CHANNEL_MEDIUM_LAN \<and> ci_medium i \<noteq> IPMI_CHANNEL_MEDIUM_LAN_OTHER
         then Inr (0, (Some i, []), st1)
       else bind_ok (ipmi_get_channel_access_bmc send (no_channel_access (ci_channel i)) True st1) (\<lambda>(rc1, a1, st2).
         if eval_ccode rc1 \<noteq> 0 then Inr (-1, (Some i, []), st2)
         else bind_ok (ipmi_get_channel_access_bmc send (no_channel_access (ci_channel i)) False st2) (\<lambda>(rc2, a2, st3).
           if eval_ccode rc2 \<noteq> 0 then Inr (-1, (Some i, [a1]), st3)
           else Inr (0, (Some i, [a1, a2]), st3))))"

text \<open>
  The authentication capabilities: the request asks for IPMI v2 data first and without it when
  that fails. The answer is the structure's 8 bytes.
\<close>

definition auth_cap_rq :: "byte \<Rightarrow> byte \<Rightarrow> ipmi_rq" where
  "auth_cap_rq channel priv = mk_rq IPMI_NETFN_APP IPMI_GET_CHANNEL_AUTH_CAP [channel, priv]"

definition ipmi_get_channel_auth_cap :: "'s sendrecv \<Rightarrow> byte \<Rightarrow> byte \<Rightarrow> 's \<Rightarrow> (int \<times> bytes \<times> 's) outcome" where
  "ipmi_get_channel_auth_cap send channel priv st =
     bind_ok (send (auth_cap_rq (channel OR 0x80) priv) st) (\<lambda>(r, st1).
       let again = bind_ok (send (auth_cap_rq ((channel OR 0x80) AND 0x7F) priv) st1) (\<lambda>(r', st2). Inr (
             case r' of None \<Rightarrow> (-1, [], st2)
             | Some rsp' \<Rightarrow> if rs_ccode rsp' \<noteq> 0 then (-1, [], st2) else (0, take 8 (rs_data rsp'), st2)))
       in case r of None \<Rightarrow> again
          | Some rsp \<Rightarrow> if rs_ccode rsp = 0 then Inr (0, take 8 (rs_data rsp), st1) else again)"

section \<open>Cipher suites\<close>

record cipher_suite_info =
  cs_id :: byte
  cs_auth_alg :: byte
  cs_integrity_alg :: byte
  cs_crypt_alg :: byte
  cs_iana :: u32

definition STANDARD_CIPHER_SUITE :: byte where "STANDARD_CIPHER_SUITE = 0xc0"
definition OEM_CIPHER_SUITE :: byte where "OEM_CIPHER_SUITE = 0xc1"
definition CIPHER_ALG_MASK :: byte where "CIPHER_ALG_MASK = 0x3f"

lemmas suite_tags = STANDARD_CIPHER_SUITE_def OEM_CIPHER_SUITE_def CIPHER_ALG_MASK_def

text \<open>The record at the start of the remaining data: its size, 0 when there is none, and its suite.\<close>

definition parse_cipher_suite :: "bytes \<Rightarrow> nat \<times> cipher_suite_info" where
  "parse_cipher_suite d =
     (let none = \<lparr>cs_id = 0, cs_auth_alg = IPMI_AUTH_RAKP_NONE, cs_integrity_alg = IPMI_INTEGRITY_NONE,
                  cs_crypt_alg = IPMI_CRYPT_NONE, cs_iana = 0\<rparr>
      in if d ! 0 = STANDARD_CIPHER_SUITE then
           (if length d < 5 then (0, none)
            else (5, \<lparr>cs_id = d ! 1, cs_auth_alg = CIPHER_ALG_MASK AND d ! 2,
                      cs_integrity_alg = CIPHER_ALG_MASK AND d ! 3, cs_crypt_alg = CIPHER_ALG_MASK AND d ! 4,
                      cs_iana = 0\<rparr>))
         else if d ! 0 = OEM_CIPHER_SUITE then
           (if length d < 8 then (0, none)
            else (8, \<lparr>cs_id = d ! 1, cs_auth_alg = CIPHER_ALG_MASK AND d ! 5,
                      cs_integrity_alg = CIPHER_ALG_MASK AND d ! 6, cs_crypt_alg = CIPHER_ALG_MASK AND d ! 7,
                      cs_iana = ipmi24toh (region d 2 3)\<rparr>))
         else (0, none))"

text \<open>The filled part of the array \<open>suites\<close>, which has room for \<open>nr\<close> of them.\<close>

fun parse_channel_cipher_suite_data :: "bytes \<Rightarrow> nat \<Rightarrow> cipher_suite_info list" where
  "parse_channel_cipher_suite_data d 0 = []"
| "parse_channel_cipher_suite_data d (Suc nr) =
     (if d = [] then []
      else case parse_cipher_suite d of (n, s) \<Rightarrow>
        if n = 0 then [] else s # parse_channel_cipher_suite_data (drop n d) nr)"

definition MAX_CIPHER_SUITE_RECORD_OFFSET :: nat where "MAX_CIPHER_SUITE_RECORD_OFFSET = 0x40"
definition MAX_CIPHER_SUITE_DATA_LEN :: nat where "MAX_CIPHER_SUITE_DATA_LEN = 0x10"
definition MAX_CIPHER_SUITE_COUNT :: nat where "MAX_CIPHER_SUITE_COUNT = 204"

definition cipher_suites_rq :: "byte \<Rightarrow> string \<Rightarrow> nat \<Rightarrow> ipmi_rq" where
  "cipher_suites_rq channel payload_type list_index =
     mk_rq IPMI_NETFN_APP 0x54 [channel, if payload_type = ''ipmi'' then 0 else 1, 0x80 OR of_nat list_index]"

text \<open>
  The loop that collects the data; \<open>k\<close> further requests are allowed after this one and \<open>d\<close> is
  the data so far, at the start of the buffer.
\<close>

fun collect_suites :: "'s sendrecv \<Rightarrow> byte \<Rightarrow> string \<Rightarrow> nat \<Rightarrow> nat \<Rightarrow> bytes \<Rightarrow> 's \<Rightarrow> (bytes option \<times> 's) outcome" where
  "collect_suites send channel pt k list_index d st =
     bind_ok (send (cipher_suites_rq channel pt list_index) st) (\<lambda>(r, st').
       case r of
         None \<Rightarrow> Inr (None, st')
       | Some rsp \<Rightarrow>
           if rs_ccode rsp \<noteq> 0 \<or> rs_data_len rsp < 1 \<or> 1 + int MAX_CIPHER_SUITE_DATA_LEN < rs_data_len rsp
           then Inr (None, st')
           else let d' = d @ region (rs_data rsp) 1 (nat (rs_data_len rsp) - 1) in
             (case k of
                Suc k' \<Rightarrow>
                  if rs_data_len rsp = 1 + int MAX_CIPHER_SUITE_DATA_LEN
                  then collect_suites send channel pt k' (list_index + 1) d' st' else Inr (Some d', st')
              | 0 \<Rightarrow> Inr (Some d', st')))"

declare collect_suites.simps [simp del]

text \<open>\<open>None\<close> is the result -1, with the count 0; \<open>nr\<close> is the room the caller has.\<close>

definition ipmi_get_channel_cipher_suites :: "'s sendrecv \<Rightarrow> string \<Rightarrow> byte \<Rightarrow> nat \<Rightarrow> 's
    \<Rightarrow> (cipher_suite_info list option \<times> 's) outcome" where
  "ipmi_get_channel_cipher_suites send payload_type channel nr st =
     (if nr = 0 then Inr (None, st)
      else bind_ok (collect_suites send channel payload_type (MAX_CIPHER_SUITE_RECORD_OFFSET - 1) 0 [] st) (\<lambda>(r, st').
        Inr (map_option (\<lambda>d. parse_channel_cipher_suite_data d nr) r, st')))"

text \<open>The command: the room it passes is \<open>sizeof(*suites)\<close>, which is 12.\<close>

definition ipmi_print_channel_cipher_suites :: "'s sendrecv \<Rightarrow> string \<Rightarrow> byte \<Rightarrow> 's
    \<Rightarrow> (int \<times> cipher_suite_info list \<times> 's) outcome" where
  "ipmi_print_channel_cipher_suites send payload_type channel st =
     bind_ok (ipmi_get_channel_cipher_suites send payload_type channel 12 st) (\<lambda>(r, st').
       Inr (case r of None \<Rightarrow> (-1, [], st') | Some suites \<Rightarrow> (0, suites, st')))"

section \<open>User access\<close>

text \<open>The users \<open>curr_uid\<close> to \<open>max_uid\<close>.\<close>

fun user_rows :: "'s sendrecv \<Rightarrow> byte \<Rightarrow> nat list \<Rightarrow> 's \<Rightarrow> (int \<times> (user_access_t \<times> bytes) list \<times> 's) outcome" where
  "user_rows send channel [] st = Inr (0, [], st)"
| "user_rows send channel (uid # uids) st =
     bind_ok (read_user send channel (of_nat uid) st) (\<lambda>(r, st').
       case r of
         None \<Rightarrow> Inr (-1, [], st')
       | Some row \<Rightarrow>
           bind_ok (user_rows send channel uids st') (\<lambda>(rc, rows, st''). Inr (rc, row # rows, st'')))"

text \<open>With user 0 all users up to the maximum the first answer names.\<close>

definition ipmi_get_user_access :: "'s sendrecv \<Rightarrow> byte \<Rightarrow> byte \<Rightarrow> 's
    \<Rightarrow> (int \<times> (user_access_t \<times> bytes) list \<times> 's) outcome" where
  "ipmi_get_user_access send channel user_id st =
     bind_ok (read_user send channel (if user_id \<noteq> 0 then user_id else 1) st) (\<lambda>(r, st').
       case r of
         None \<Rightarrow> Inr (-1, [], st')
       | Some (u, name) \<Rightarrow>
           if user_id \<noteq> 0 then Inr (0, [(u, name)], st')
           else bind_ok (user_rows send channel [2 ..< Suc (unat (ua_max_user_ids u))] st')
                  (\<lambda>(rc, rows, st''). Inr (rc, (u, name) # rows, st'')))"

text \<open>
  The options of \<open>channel setaccess\<close>. A boolean option stores its value before the words
  \<open>off\<close>, \<open>disable\<close> and \<open>no\<close> are looked at. \<open>None\<close> is a value that is no privilege.
\<close>

datatype ua_field = UA_callin | UA_link | UA_ipmi | UA_privilege

fun option_name :: "ua_field \<Rightarrow> string" where
  "option_name UA_callin = ''callin=''"
| "option_name UA_link = ''link=''"
| "option_name UA_ipmi = ''ipmi=''"
| "option_name UA_privilege = ''privilege=''"

definition ipmi_privlvl_vals :: "valstr list" where
  "ipmi_privlvl_vals = [\<lparr>vs_val = 1, vs_str = Some ''CALLBACK''\<rparr>, \<lparr>vs_val = 2, vs_str = Some ''USER''\<rparr>,
     \<lparr>vs_val = 3, vs_str = Some ''OPERATOR''\<rparr>, \<lparr>vs_val = 4, vs_str = Some ''ADMINISTRATOR''\<rparr>,
     \<lparr>vs_val = 5, vs_str = Some ''OEM''\<rparr>, \<lparr>vs_val = 0xF, vs_str = Some ''NO ACCESS''\<rparr>,
     \<lparr>vs_val = 0xFF, vs_str = None\<rparr>]"

definition privilege_value :: "string \<Rightarrow> byte option" where
  "privilege_value v =
     (let p = str2val32 v ipmi_privlvl_vals in
      if p \<noteq> 0xFF then Some (ucast p) else arg str2uchar v)"

definition set_ua_field :: "ua_field \<Rightarrow> byte \<Rightarrow> user_access_t \<Rightarrow> user_access_t" where
  "set_ua_field f v u =
     (case f of UA_callin \<Rightarrow> u\<lparr>ua_callin_callback := v\<rparr> | UA_link \<Rightarrow> u\<lparr>ua_link_auth := v\<rparr>
      | UA_ipmi \<Rightarrow> u\<lparr>ua_ipmi_messaging := v\<rparr> | UA_privilege \<Rightarrow> u\<lparr>ua_privilege_limit := v\<rparr>)"

definition apply_option :: "ua_field \<Rightarrow> string \<Rightarrow> user_access_t \<Rightarrow> user_access_t option" where
  "apply_option f v u =
     (case f of
        UA_privilege \<Rightarrow> map_option (\<lambda>p. set_ua_field f p u) (privilege_value v)
      | UA_callin \<Rightarrow> Some (set_ua_field f 0 u)
      | _ \<Rightarrow> Some (set_ua_field f 1 u))"

text \<open>The first option whose name the argument starts with; the text after the name is its value.\<close>

definition find_option :: "string \<Rightarrow> (ua_field \<times> string) option" where
  "find_option a =
     map_option (\<lambda>f. (f, drop (length (option_name f)) a))
       (find (\<lambda>f. take (length (option_name f)) a = option_name f) [UA_callin, UA_link, UA_ipmi, UA_privilege])"

fun apply_options :: "string list \<Rightarrow> user_access_t \<Rightarrow> user_access_t option" where
  "apply_options [] u = Some u"
| "apply_options (a # as) u =
     (case find_option a of
        None \<Rightarrow> None
      | Some (f, v) \<Rightarrow> (case apply_option f v u of None \<Rightarrow> None | Some u' \<Rightarrow> apply_options as u'))"

definition ipmi_set_user_access :: "'s sendrecv \<Rightarrow> string list \<Rightarrow> 's \<Rightarrow> (int \<times> 's) outcome" where
  "ipmi_set_user_access send argv st =
     (if argv \<noteq> [] \<and> argv ! 0 = ''help'' then Inr (0, st)
      else if length argv < 3 then Inr (-1, st)
      else case (arg is_ipmi_channel_num (argv ! 0), arg is_ipmi_user_id (argv ! 1)) of
        (Some c, Some uid) \<Rightarrow>
          bind_ok (ipmi_get_user_access_bmc send (no_access\<lparr>ua_channel := c, ua_user_id := uid\<rparr>) st) (\<lambda>(rc, u, st1).
            if eval_ccode rc \<noteq> 0 then Inr (-1, st1)
            else case apply_options (drop 2 argv) u of
              None \<Rightarrow> Inr (-1, st1)
            | Some u' \<Rightarrow> bind_ok (ipmi_set_user_access_bmc send u' False st1) (\<lambda>(rc', st2). Inr (eval_ccode rc', st2)))
      | _ \<Rightarrow> Inr (-1, st))"

text \<open>The dispatcher.\<close>

definition ipmi_channel_main :: "'s sendrecv \<Rightarrow> string list \<Rightarrow> 's \<Rightarrow> (int \<times> 's) outcome" where
  "ipmi_channel_main send argv st =
     (if argv = [] then Inr (-1, st)
      else if argv ! 0 = ''help'' then Inr (0, st)
      else if argv ! 0 = ''authcap'' then
        (if length argv \<noteq> 3 then Inr (-1, st)
         else case (arg is_ipmi_channel_num (argv ! 1), arg is_ipmi_user_priv_limit (argv ! 2)) of
           (Some c, Some p) \<Rightarrow> drop_output (ipmi_get_channel_auth_cap send c p st)
         | _ \<Rightarrow> Inr (-1, st))
      else if argv ! 0 = ''getaccess'' then
        (if length argv < 2 \<or> 3 < length argv then Inr (-1, st)
         else case (arg is_ipmi_channel_num (argv ! 1), if length argv = 3 then arg is_ipmi_user_id (argv ! 2) else Some 0) of
           (Some c, Some uid) \<Rightarrow> drop_output (ipmi_get_user_access send c uid st)
         | _ \<Rightarrow> Inr (-1, st))
      else if argv ! 0 = ''setaccess'' then ipmi_set_user_access send (tl argv) st
      else if argv ! 0 = ''info'' then
        (if 2 < length argv then Inr (-1, st)
         else case (if length argv = 2 then arg is_ipmi_channel_num (argv ! 1) else Some 0xE) of
           Some c \<Rightarrow> drop_output (ipmi_get_channel_info send c st)
         | None \<Rightarrow> Inr (-1, st))
      else if argv ! 0 = ''getciphers'' then
        (if length argv < 2 \<or> 3 < length argv \<or> (argv ! 1 \<noteq> ''ipmi'' \<and> argv ! 1 \<noteq> ''sol'') then Inr (-1, st)
         else case (if length argv = 3 then arg is_ipmi_channel_num (argv ! 2) else Some 0xE) of
           Some c \<Rightarrow> drop_output (ipmi_print_channel_cipher_suites send (argv ! 1) c st)
         | None \<Rightarrow> Inr (-1, st))
      else Inr (-1, st))"

section \<open>What the queries keep\<close>

context transport
begin

lemma collect_suites_inv:
  "inv st \<Longrightarrow> collect_suites send c pt k n d st = Inr (r, st') \<Longrightarrow> inv st'"
proof (induction k arbitrary: n d st)
  case 0
  obtain q st1 where s: "send (cipher_suites_rq c pt n) st = Inr (q, st1)"
    using 0 by (subst (asm) collect_suites.simps) (auto simp: bind_ok_Inr_iff)
  have "st' = st1"
    using 0(2) s by (subst (asm) collect_suites.simps) (auto simp: Let_def split: option.splits if_splits)
  then show ?case
    using send_inv [OF 0(1) s] by simp
next
  case (Suc k)
  obtain q st1 where s: "send (cipher_suites_rq c pt n) st = Inr (q, st1)"
    using Suc.prems by (subst (asm) collect_suites.simps) (auto simp: bind_ok_Inr_iff)
  have "st' = st1 \<or> (\<exists>d'. collect_suites send c pt k (n + 1) d' st1 = Inr (r, st'))"
    using Suc.prems(2) s by (subst (asm) collect_suites.simps) (auto simp: Let_def split: option.splits if_splits)
  then show ?case
    using Suc.IH send_inv [OF Suc.prems(1) s] by blast
qed

lemma channel_cipher_suites_inv:
  "inv st \<Longrightarrow> ipmi_get_channel_cipher_suites send pt c nr st = Inr (r, st') \<Longrightarrow> inv st'"
  by (auto simp: ipmi_get_channel_cipher_suites_def bind_ok_Inr_iff dest: collect_suites_inv split: if_splits)

lemma user_rows_inv:
  assumes "inv st" "read_user send c uid st = Inr (r, st')"
  shows "inv st'"
proof -
  obtain rc u st1 where 1: "ipmi_get_user_access_bmc send (no_access\<lparr>ua_user_id := uid, ua_channel := c\<rparr>) st = Inr (rc, u, st1)"
    using assms(2) by (auto simp: read_user_def bind_ok_Inr_iff)
  have inv1: "inv st1"
    using ask_inv [OF assms(1)] 1 by (simp add: ipmi_get_user_access_bmc_def)
  have "st' = st1 \<or> (\<exists>rc' n. ipmi_get_user_name_bmc send uid st1 = Inr (rc', n, st'))"
    using assms(2) 1 by (auto simp: read_user_def bind_ok_Inr_iff split: if_splits)
  then show ?thesis
    using inv1 ask_inv [OF inv1] by (auto simp: ipmi_get_user_name_bmc_def)
qed

end

end
