(* ===== verification/Hpm2.thy ===== *)
theory Hpm2
  imports Sendrecv
begin

text \<open>
  The size negotiation of HPM.2, \<open>lib/hpm2.c\<close>, and \<open>ipmi_get_oem\<close> of \<open>lib/ipmi_sel.c\<close>: the two
  queries a transport makes after it opened a session.
\<close>

record hpm2_lan_attach_capabilities =
  hpm2_revision_id :: byte
  lan_channel_mask :: u16
  hpm2_caps :: byte
  hpm2_lan_params_start :: byte
  hpm2_lan_params_rev :: byte
  hpm2_sol_params_start :: byte
  hpm2_sol_params_rev :: byte

text \<open>The structure whose first bytes are \<open>b\<close> and the others 0.\<close>

definition attach_caps :: "bytes \<Rightarrow> hpm2_lan_attach_capabilities" where
  "attach_caps b =
     (let c = b @ replicate (8 - length b) 0 in
      \<lparr>hpm2_revision_id = c ! 0, lan_channel_mask = of_le16 (region c 1 2), hpm2_caps = c ! 3,
       hpm2_lan_params_start = c ! 4, hpm2_lan_params_rev = c ! 5, hpm2_sol_params_start = c ! 6,
       hpm2_sol_params_rev = c ! 7\<rparr>)"

text \<open>The checks on a response with completion code 0; the length is the response's.\<close>

definition check_attach_caps :: "int \<Rightarrow> bytes \<Rightarrow> int \<times> hpm2_lan_attach_capabilities" where
  "check_attach_caps len d =
     (let none = attach_caps []; c = attach_caps (region d 2 (nat len - 2)) in
      if len < 2 \<or> 10 < len then (-1, none)
      else if d ! 1 \<noteq> 2 then (0, none)
      else if len < 4 then (-1, none)
      else if hpm2_revision_id c = 0 then (-1, c)
      else if lan_channel_mask c = 0 then (-1, c)
      else if len < 8 then (-1, c)
      else if hpm2_lan_params_start c < 0xC0 then (-1, c)
      else if hpm2_lan_params_rev c \<noteq> 1 then (-1, c)
      else if hpm2_caps c AND 0x01 = 0 then (0, c)
      else if len < 10 then (-1, c)
      else if hpm2_sol_params_start c < 0xC0 then (-1, c)
      else if hpm2_sol_params_rev c \<noteq> 1 then (-1, c)
      else (0, c))"

definition hpm2_get_capabilities :: "'s sendrecv \<Rightarrow> 's \<Rightarrow> (int \<times> hpm2_lan_attach_capabilities \<times> 's) outcome" where
  "hpm2_get_capabilities send st =
     bind_ok (send (mk_rq IPMI_NETFN_PICMG 0x3E [0, 2]) st) (\<lambda>(r, st'). Inr (
       case r of
         None \<Rightarrow> (-1, attach_caps [], st')
       | Some rsp \<Rightarrow>
           if rs_ccode rsp \<noteq> 0 then (uint (rs_ccode rsp), attach_caps [], st')
           else let (err, c) = check_attach_caps (rs_data_len rsp) (rs_data rsp) in (err, c, st')))"

text \<open>The sizes of incoming and outgoing payloads the channel allows.\<close>

definition hpm2_get_lan_channel_capabilities :: "'s sendrecv \<Rightarrow> byte \<Rightarrow> 's \<Rightarrow> (int \<times> (u16 \<times> u16) \<times> 's) outcome" where
  "hpm2_get_lan_channel_capabilities send start st =
     bind_ok (send (mk_rq IPMI_NETFN_TRANSPORT 0x02 [0xE, start, 0, 0]) st) (\<lambda>(r, st'). Inr (
       case r of
         None \<Rightarrow> (-1, (0, 0), st')
       | Some rsp \<Rightarrow>
           if rs_ccode rsp \<noteq> 0 then (uint (rs_ccode rsp), (0, 0), st')
           else if rs_data_len rsp \<noteq> 8 then (-1, (0, 0), st')
           else if rs_data rsp ! 0 \<noteq> 0x11 then (-1, (0, 0), st')
           else (0, (of_le16 (region (rs_data rsp) 4 2), of_le16 (region (rs_data rsp) 6 2)), st')))"

text \<open>
  \<open>set_rq\<close> and \<open>set_rp\<close> are \<open>ipmi_intf_set_max_request_data_size\<close> and its counterpart on the
  transport's state. The differences are 16 bits wide.
\<close>

definition hpm2_detect_max_payload_size :: "'s sendrecv \<Rightarrow> (u16 \<Rightarrow> 's \<Rightarrow> 's) \<Rightarrow> (u16 \<Rightarrow> 's \<Rightarrow> 's) \<Rightarrow> 's
    \<Rightarrow> (int \<times> 's) outcome" where
  "hpm2_detect_max_payload_size send set_rq set_rp st =
     bind_ok (hpm2_get_capabilities send st) (\<lambda>(err, c, st1).
       if err \<noteq> 0 \<or> lan_channel_mask c = 0 then Inr (err, st1)
       else bind_ok (hpm2_get_lan_channel_capabilities send (hpm2_lan_params_start c) st1) (\<lambda>(err', (inb, outb), st2).
         if err' \<noteq> 0 then Inr (err', st2)
         else Inr (0, set_rp (outb - 8) (set_rq (inb - 7) st2))))"

definition IPMI_OEM_UNKNOWN :: u32 where "IPMI_OEM_UNKNOWN = 0"

text \<open>\<open>sel_iana\<close> is the static variable of \<open>ipmi_sel.c\<close>; \<open>i\<close> is the interface as it is before.\<close>

definition ipmi_get_oem :: "'s sendrecv \<Rightarrow> u32 \<Rightarrow> ipmi_intf \<Rightarrow> 's \<Rightarrow> (u32 \<times> 's) outcome" where
  "ipmi_get_oem send sel_iana i st =
     (if fd i = 0 then Inr (if sel_iana \<noteq> IPMI_OEM_UNKNOWN then sel_iana else IPMI_OEM_UNKNOWN, st)
      else if opened i \<and> manufacturer_id i \<noteq> IPMI_OEM_UNKNOWN then Inr (manufacturer_id i, st)
      else bind_ok (send (mk_rq IPMI_NETFN_APP 0x01 []) st) (\<lambda>(r, st'). Inr (
        case r of None \<Rightarrow> (IPMI_OEM_UNKNOWN, st')
        | Some rsp \<Rightarrow>
            (if rs_ccode rsp \<noteq> 0 then IPMI_OEM_UNKNOWN else ipmi24toh (region (rs_data rsp) 6 3), st'))))"

context transport
begin

lemma capabilities_inv:
  assumes "inv st" "hpm2_get_capabilities send st = Inr (err, c, st')"
  shows "inv st'"
proof -
  obtain r st1 where 1: "send (mk_rq IPMI_NETFN_PICMG 0x3E [0, 2]) st = Inr (r, st1)"
    using assms(2) by (auto simp: hpm2_get_capabilities_def bind_ok_Inr_iff)
  have "st' = st1"
    using assms(2) by (cases r) (simp_all add: hpm2_get_capabilities_def 1 Let_def case_prod_beta split: if_splits)
  then show ?thesis
    using send_inv [OF assms(1) 1] by simp
qed

lemma channel_capabilities_inv:
  assumes "inv st" "hpm2_get_lan_channel_capabilities send start st = Inr (err, c, st')"
  shows "inv st'"
proof -
  obtain r st1 where 1: "send (mk_rq IPMI_NETFN_TRANSPORT 0x02 [0xE, start, 0, 0]) st = Inr (r, st1)"
    using assms(2) by (auto simp: hpm2_get_lan_channel_capabilities_def bind_ok_Inr_iff)
  have "st' = st1"
    using assms(2) by (cases r) (simp_all add: hpm2_get_lan_channel_capabilities_def 1 split: if_splits)
  then show ?thesis
    using send_inv [OF assms(1) 1] by simp
qed

lemma detect_inv:
  assumes "inv st" "hpm2_detect_max_payload_size send f g st = Inr (rc, st')"
    and "\<And>n st. inv st \<Longrightarrow> inv (f n st)" "\<And>n st. inv st \<Longrightarrow> inv (g n st)"
  shows "inv st'"
proof -
  obtain err c st1 where 1: "hpm2_get_capabilities send st = Inr (err, c, st1)"
    using assms(2) by (auto simp: hpm2_detect_max_payload_size_def bind_ok_Inr_iff)
  note inv1 = capabilities_inv [OF assms(1) 1]
  show ?thesis
  proof (cases "err \<noteq> 0 \<or> lan_channel_mask c = 0")
    case True
    then show ?thesis
      using assms(2) 1 inv1 by (simp add: hpm2_detect_max_payload_size_def)
  next
    case False
    then obtain err' sz st2 where
      2: "hpm2_get_lan_channel_capabilities send (hpm2_lan_params_start c) st1 = Inr (err', sz, st2)"
      using assms(2) 1 by (auto simp: hpm2_detect_max_payload_size_def bind_ok_Inr_iff)
    note inv2 = channel_capabilities_inv [OF inv1 2]
    show ?thesis
      using assms(2) 1 2 False inv2
      by (cases sz) (auto simp: hpm2_detect_max_payload_size_def assms(3,4) split: if_splits)
  qed
qed

lemma oem_inv:
  assumes "inv st" "ipmi_get_oem send iana i st = Inr (r, st')"
  shows "inv st'"
  using assms by (auto simp: ipmi_get_oem_def bind_ok_Inr_iff dest: send_inv split: option.splits if_splits)

end

end
