(* ===== verification/LanplusSession.thy ===== *)
theory LanplusSession
  imports LanplusTakes Channel Hpm2
begin

text \<open>
  The session of the RMCP+ transport (\<open>src/plugins/lanplus/lanplus.c\<close>): opening it with the
  capabilities query, the choice of the cipher suite and the handshake of Open Session, RAKP 1
  and 2, RAKP 3 and 4, then the privilege level and the payload sizes; closing it, keeping it
  alive, and \<open>sendrecv\<close> with its implicit open. Memory is available.
\<close>

section \<open>Commands while the session is set up\<close>

definition lanplus_command :: "crypto \<Rightarrow> lp_state sendrecv" where
  "lanplus_command cr req st =
     bind_ok (ipmi_lanplus_send_ipmi_cmd cr req st) (\<lambda>(got, st'). Inr (if got then Some (st_rsp st') else None, st'))"

definition on_intf :: "(ipmi_intf \<Rightarrow> ipmi_intf) \<Rightarrow> lp_state \<Rightarrow> lp_state" where
  "on_intf f st = st\<lparr>st_intf := f (st_intf st)\<rparr>"

text \<open>
  The capabilities, 8 bytes of the response, or \<open>None\<close> for the result 1. Bridging is switched
  off meanwhile; a failure leaves it off.
\<close>

definition ipmi_get_auth_capabilities_cmd :: "crypto \<Rightarrow> lp_state \<Rightarrow> (bytes option \<times> lp_state) outcome" where
  "ipmi_get_auth_capabilities_cmd cr st =
     (let i = privlvl (ssn_params (st_intf st));
          good = (\<lambda>rsp s. Inr (Some (take 8 (rs_data rsp)), s\<lparr>st_bridge := st_bridge st\<rparr>))
      in bind_ok (lanplus_command cr (auth_cap_rq (0x0E OR 0x80) i) (st\<lparr>st_bridge := False\<rparr>)) (\<lambda>(r, st1).
           let again = bind_ok (lanplus_command cr (auth_cap_rq ((0x0E OR 0x80) AND 0x7F) i) st1) (\<lambda>(r', st2).
                 case r' of None \<Rightarrow> Inr (None, st2)
                 | Some rsp' \<Rightarrow> if rs_ccode rsp' \<noteq> 0 then Inr (None, st2) else good rsp' st2)
           in case r of None \<Rightarrow> again
              | Some rsp \<Rightarrow> if rs_ccode rsp \<noteq> 0 then again else good rsp st1))"

definition ipmi_set_session_privlvl_cmd :: "crypto \<Rightarrow> lp_state \<Rightarrow> (int \<times> lp_state) outcome" where
  "ipmi_set_session_privlvl_cmd cr st =
     (let p = privlvl (ssn_params (st_intf st)) in
      if p \<le> 2 then Inr (0, st)
      else bind_ok (lanplus_command cr (mk_rq IPMI_NETFN_APP 0x3b [p]) (st\<lparr>st_bridge := False\<rparr>)) (\<lambda>(r, st').
        Inr (case r of None \<Rightarrow> -1 | Some rsp \<Rightarrow> if rs_ccode rsp \<noteq> 0 then -1 else 0, st'\<lparr>st_bridge := st_bridge st\<rparr>)))"

text \<open>Closing sends to the BMC itself; a failure leaves bridging off.\<close>

definition ipmi_close_session_cmd :: "crypto \<Rightarrow> lp_state \<Rightarrow> (int \<times> lp_state) outcome" where
  "ipmi_close_session_cmd cr st =
     (if \<not> st_live st \<or> session_state (st_ssn st) \<noteq> LANPLUS_STATE_ACTIVE then Inr (-1, st)
      else bind_ok (lanplus_command cr (mk_rq IPMI_NETFN_APP 0x3c (htoipmi32 (bmc_id (st_ssn st))))
             ((on_intf (\<lambda>i. i\<lparr>target_addr := ucast IPMI_BMC_SLAVE_ADDR\<rparr>) st)\<lparr>st_bridge := False\<rparr>)) (\<lambda>(r, st').
        Inr (case r of None \<Rightarrow> (-1, st')
             | Some rsp \<Rightarrow> if rs_ccode rsp \<noteq> 0 then (-1, st') else (0, st'\<lparr>st_bridge := st_bridge st\<rparr>))))"

section \<open>The handshake\<close>

text \<open>The code of an answer, at the same place in the three messages.\<close>

definition rakp_return_code :: "rs_payload \<Rightarrow> byte outcome" where
  "rakp_return_code p =
     (case p of POpen m \<Rightarrow> Inr (or_code m) | PRakp2 m \<Rightarrow> Inr (r2_code m) | PRakp4 m \<Rightarrow> Inr (r4_code m)
      | _ \<Rightarrow> Inl Indeterminate)"

definition open_session_msg :: "ipmi_intf \<Rightarrow> byte \<times> byte \<times> byte \<Rightarrow> bytes" where
  "open_session_msg i algs =
     (case algs of (auth, integ, crypt) \<Rightarrow>
       [0, if ipmi_oem_active i ''intelplus'' \<or> privlvl (ssn_params i) \<noteq> 4 then privlvl (ssn_params i) else 0, 0, 0] @
       le32 0xA0A2A3A4 @
       [0, 0, 0, 8, auth, 0, 0, 0] @ [1, 0, 0, 8, integ, 0, 0, 0] @ [2, 0, 0, 8, crypt, 0, 0, 0])"

definition handshake_payload :: "v2_body \<Rightarrow> nat \<Rightarrow> v2_payload" where
  "handshake_payload b n = \<lparr>pl_length = of_nat n, pl_body = b\<rparr>"

definition lanplus_request :: "crypto \<Rightarrow> v2_payload \<Rightarrow> lp_state \<Rightarrow> (ipmi_rs option \<times> lp_state) outcome" where
  "lanplus_request cr p st =
     bind_ok (send_opened cr (ipmi_lanplus_recv_sol cr) p st)
       (\<lambda>(got, p', st'). Inr (if got then Some (st_rsp st') else None, st'))"

definition accept_open :: "open_response_part \<Rightarrow> ipmi_session \<Rightarrow> ipmi_session" where
  "accept_open m s = s\<lparr>max_priv_level := or_max_priv_level m, bmc_id := or_bmc_id m, auth_alg := or_auth_alg m,
     integrity_alg := or_integrity_alg m, crypt_alg := or_crypt_alg m,
     session_state := LANPLUS_STATE_OPEN_SESSION_RECEIEVED\<rparr>"

text \<open>The three steps give 0 for success, 1 for an error and 2 for a timeout.\<close>

definition ipmi_lanplus_open_session :: "crypto \<Rightarrow> lp_state \<Rightarrow> (nat \<times> lp_state) outcome" where
  "ipmi_lanplus_open_session cr st =
     (let st1 = on_ssn (\<lambda>s. s\<lparr>console_id := 0xA0A2A3A4\<rparr>) st in
      case lanplus_get_requested_ciphers (cipher_suite_id (ssn_params (st_intf st))) of
        None \<Rightarrow> Inr (1, st1)
      | Some (auth, integ, crypt) \<Rightarrow>
          let st2 = on_ssn (\<lambda>s. s\<lparr>requested_auth_alg := auth, requested_integrity_alg := integ,
                                requested_crypt_alg := crypt\<rparr>) st1
          in bind_ok (lanplus_request cr (handshake_payload
               (BOpenRequest (open_session_msg (st_intf st) (auth, integ, crypt))) 32) st2) (\<lambda>(r, st3).
             case r of
               None \<Rightarrow> Inr (2, st3)
             | Some rsp \<Rightarrow>
                 bind_ok (rakp_return_code (rs_payload rsp)) (\<lambda>code.
                   if code \<noteq> 0 then Inr (1, st3)
                   else case rs_payload rsp of
                     POpen m \<Rightarrow>
                       Inr (if or_auth_alg m \<noteq> auth \<or> or_integrity_alg m \<noteq> integ \<or> or_crypt_alg m \<noteq> crypt then 1 else 0,
                            on_ssn (accept_open m) st3)
                   | _ \<Rightarrow> Inl Indeterminate)))"

definition rakp1_msg :: "ipmi_intf \<Rightarrow> ipmi_session \<Rightarrow> bytes" where
  "rakp1_msg i s =
     (let u = username (ssn_params i) in
      [0, 0, 0, 0] @ le32 (bmc_id s) @ console_rand s @ [requested_role s, 0, 0, of_nat (length u)] @ u @
      replicate (16 - length u) 0)"

definition rakp1_length :: "ipmi_intf \<Rightarrow> nat" where
  "rakp1_length i = (if ipmi_oem_active i ''i82571spt'' then 44 else 44 - (16 - length (username (ssn_params i))))"

definition accept_rakp2 :: "rakp2_part \<Rightarrow> ipmi_session \<Rightarrow> ipmi_session" where
  "accept_rakp2 m s = s\<lparr>bmc_rand := r2_bmc_rand m, bmc_guid := r2_bmc_guid m\<rparr>"

definition ipmi_lanplus_rakp1 :: "crypto \<Rightarrow> lp_state \<Rightarrow> (nat \<times> lp_state) outcome" where
  "ipmi_lanplus_rakp1 cr st =
     (case lanplus_rand st of
        (None, st1) \<Rightarrow> Inr (1, st1)
      | (Some rnd, st1) \<Rightarrow>
          let i = st_intf st;
              st2 = on_ssn (\<lambda>s. s\<lparr>console_rand := rnd,
                      requested_role := privlvl (ssn_params i) OR lookupbit (ssn_params i)\<rparr>) st1
          in if 16 < (of_nat (length (username (ssn_params i))) :: byte) then Inr (1, st2)
             else bind_ok (lanplus_request cr (handshake_payload (BRakp1 (rakp1_msg i (st_ssn st2))) (rakp1_length i)) st2)
               (\<lambda>(r, st3).
                 case r of
                   None \<Rightarrow> Inr (2, st3)
                 | Some rsp \<Rightarrow>
                     let st4 = on_ssn (\<lambda>s. s\<lparr>session_state := LANPLUS_STATE_RAKP_2_RECEIVED\<rparr>) st3
                     in bind_ok (rakp_return_code (rs_payload rsp)) (\<lambda>code.
                          if code \<noteq> 0 then Inr (1, st4)
                          else case rs_payload rsp of
                            PRakp2 m \<Rightarrow>
                              let st5 = on_ssn (accept_rakp2 m) st4
                              in bind_ok (lanplus_rakp2_hmac_matches cr True (st_intf st5) (st_ssn st5) (r2_auth_code m)) (\<lambda>ok.
                                   Inr (if ok then (0, on_ssn (\<lambda>s. s\<lparr>rakp2_return_code := 0\<rparr>) st5)
                                        else (1, on_ssn (\<lambda>s. s\<lparr>rakp2_return_code := 0x0F\<rparr>) st5)))
                          | _ \<Rightarrow> Inl Indeterminate)))"

text \<open>The keys of the session, \<open>None\<close> when one cannot be generated.\<close>

definition session_keys :: "crypto \<Rightarrow> ipmi_intf \<Rightarrow> ipmi_session \<Rightarrow> (bool \<times> ipmi_session) outcome" where
  "session_keys cr i s =
     bind_ok (lanplus_generate_sik cr True i s) (\<lambda>(rc1, s1).
       if rc1 \<noteq> 0 then Inr (False, s1)
       else bind_ok (lanplus_generate_k1 cr s1) (\<lambda>(rc2, s2).
         if rc2 \<noteq> 0 then Inr (False, s2)
         else bind_ok (lanplus_generate_k2 cr s2) (\<lambda>(rc3, s3). Inr (rc3 = 0, s3))))"

definition rakp3_msg :: "ipmi_session \<Rightarrow> bytes \<Rightarrow> bytes" where
  "rakp3_msg s mac = [0, rakp2_return_code s, 0, 0] @ le32 (bmc_id s) @ mac"

text \<open>After the message was sent; \<open>early\<close> is a RAKP 2 error, about which the BMC is only told.\<close>

definition rakp3_answer :: "crypto \<Rightarrow> ipmi_rs option \<Rightarrow> lp_state \<Rightarrow> (nat \<times> lp_state) outcome" where
  "rakp3_answer cr r st =
     (if rakp2_return_code (st_ssn st) \<noteq> 0 then Inr (1, st)
      else case r of
        None \<Rightarrow> Inr (2, st)
      | Some rsp \<Rightarrow>
          bind_ok (rakp_return_code (rs_payload rsp)) (\<lambda>code.
            if code \<noteq> 0 then Inr (1, st)
            else case rs_payload rsp of
              PRakp4 m \<Rightarrow>
                bind_ok (lanplus_rakp4_hmac_matches cr True (st_intf st) (st_ssn st) (r4_check_value m)) (\<lambda>ok.
                  Inr (if ok then (0, on_intf (\<lambda>i. i\<lparr>intf_abort := False\<rparr>)
                                      (on_ssn (\<lambda>s. s\<lparr>session_state := LANPLUS_STATE_ACTIVE\<rparr>) st))
                       else (1, st)))
            | _ \<Rightarrow> Inl Indeterminate))"

definition ipmi_lanplus_rakp3 :: "crypto \<Rightarrow> lp_state \<Rightarrow> (nat \<times> lp_state) outcome" where
  "ipmi_lanplus_rakp3 cr st =
     (if session_state (st_ssn st) \<noteq> LANPLUS_STATE_RAKP_2_RECEIVED then Inl AssertFailed
      else if rakp2_return_code (st_ssn st) \<noteq> 0 then
        bind_ok (lanplus_request cr (handshake_payload (BRakp3 (rakp3_msg (st_ssn st) [])) 8) st)
          (\<lambda>(r, st1). rakp3_answer cr r st1)
      else bind_ok (lanplus_generate_rakp3_authcode cr True (st_intf st) (st_ssn st)) (\<lambda>(rc, mac).
        if rc \<noteq> 0 then Inr (1, st)
        else bind_ok (session_keys cr (st_intf st) (st_ssn st)) (\<lambda>(ok, s).
          if \<not> ok then Inr (1, st\<lparr>st_ssn := s\<rparr>)
          else bind_ok (lanplus_request cr (handshake_payload (BRakp3 (rakp3_msg s mac)) (8 + length mac)) (st\<lparr>st_ssn := s\<rparr>))
            (\<lambda>(r, st1). rakp3_answer cr r st1))))"

text \<open>
  The loop of \<open>ipmi_lanplus_open\<close>: a timeout starts the sequence again, an error ends it with
  \<open>False\<close>. When all attempts have timed out it is left like after a success.
\<close>

fun handshake :: "crypto \<Rightarrow> nat \<Rightarrow> lp_state \<Rightarrow> (bool \<times> lp_state) outcome" where
  "handshake cr 0 st = Inr (True, st)"
| "handshake cr (Suc k) st =
     bind_ok (ipmi_lanplus_open_session cr (on_ssn (\<lambda>s. s\<lparr>session_state := LANPLUS_STATE_PRESESSION\<rparr>) st)) (\<lambda>(rc1, st1).
       if rc1 = 1 then Inr (False, st1)
       else if rc1 = 2 then handshake cr k st1
       else bind_ok (ipmi_lanplus_rakp1 cr st1) (\<lambda>(rc2, st2).
         if rc2 = 1 then Inr (False, st2)
         else if rc2 = 2 then handshake cr k st2
         else bind_ok (ipmi_lanplus_rakp3 cr st2) (\<lambda>(rc3, st3).
           if rc3 = 1 then Inr (False, st3)
           else if rc3 = 0 then Inr (True, st3)
           else handshake cr k st3)))"

declare handshake.simps [simp del]

section \<open>Closing\<close>

definition ipmi_lanplus_close :: "crypto \<Rightarrow> lp_state \<Rightarrow> lp_state outcome" where
  "ipmi_lanplus_close cr st =
     bind_ok (if \<not> intf_abort (st_intf st) \<and> st_live st then ipmi_close_session_cmd cr st else Inr (0, st)) (\<lambda>(rc, st1).
     bind_ok (ipmi_req_clear_entries (st_reqs st1)) (\<lambda>t.
       Inr (on_intf (\<lambda>i. i\<lparr>fd := (if 0 \<le> fd i then -1 else fd i), opened := False, manufacturer_id := IPMI_OEM_UNKNOWN\<rparr>)
              (st1\<lparr>st_reqs := t, st_live := False\<rparr>))))"

section \<open>Opening\<close>

text \<open>The best cipher suite the device offers; without a list it is suite 3.\<close>

definition best_suite :: "cipher_suite_info list option \<Rightarrow> byte" where
  "best_suite suites =
     (case suites of
        None \<Rightarrow> 3
      | Some ss \<Rightarrow> (case find (\<lambda>p. \<exists>s \<in> set ss. cs_id s = p) [17, 3] of None \<Rightarrow> 3 | Some p \<Rightarrow> p))"

definition ipmi_find_best_cipher_suite :: "'s sendrecv \<Rightarrow> 's \<Rightarrow> (byte \<times> 's) outcome" where
  "ipmi_find_best_cipher_suite send st =
     bind_ok (ipmi_get_channel_cipher_suites send ''ipmi'' 0x0E MAX_CIPHER_SUITE_COUNT st)
       (\<lambda>(suites, st'). Inr (best_suite suites, st'))"

text \<open>The transport's setters: with suite 3 the size is cut to whole blocks less header and trailer.\<close>

definition lanp_size :: "ipmi_intf \<Rightarrow> u16 \<Rightarrow> u16" where
  "lanp_size i sz = (if cipher_suite_id (ssn_params i) = 3 then (sz AND NOT 15) - (16 + 1) else sz)"

definition ipmi_lanp_set_max_rq_data_size :: "ipmi_intf \<Rightarrow> u16 \<Rightarrow> ipmi_intf" where
  "ipmi_lanp_set_max_rq_data_size i sz = i\<lparr>max_request_data_size := lanp_size i sz\<rparr>"

definition ipmi_lanp_set_max_rp_data_size :: "ipmi_intf \<Rightarrow> u16 \<Rightarrow> ipmi_intf" where
  "ipmi_lanp_set_max_rp_data_size i sz = i\<lparr>max_response_data_size := lanp_size i sz\<rparr>"

definition default_params :: "ipmi_session_params \<Rightarrow> ipmi_session_params" where
  "default_params p = p\<lparr>port := (if port p = 0 then 0x26f else port p),
     privlvl := (if privlvl p = 0 then 4 else privlvl p),
     timeout := (if timeout p = 0 then 1 else timeout p),
     retry := (if retry p = 0 then 4 else retry p)\<rparr>"

text \<open>The cleared session; a 0 return code and state 0 are the first constructors.\<close>

definition new_session :: "ipmi_session_params \<Rightarrow> ipmi_session" where
  "new_session p = \<lparr>out_seq = 0, authcode = authcode_set p, ssn_timeout = timeout p,
     session_state = LANPLUS_STATE_PRESESSION, requested_auth_alg = 0, requested_integrity_alg = 0,
     requested_crypt_alg = 0, auth_alg = IPMI_AUTH_RAKP_NONE, integrity_alg = 0, crypt_alg = IPMI_CRYPT_NONE,
     max_priv_level = 0, console_id = 0, bmc_id = 0, console_rand = replicate 16 0, bmc_rand = replicate 16 0,
     bmc_guid = replicate 16 0, requested_role = 0, rakp2_return_code = 0, sik = replicate 32 0, sik_len = 0,
     k1 = replicate 32 0, k1_len = 0, k2 = replicate 32 0, k2_len = 0, sol_sequence_number = 1\<rparr>"

text \<open>The part after a handshake that did not fail; \<open>False\<close> is the failure.\<close>

definition after_handshake :: "crypto \<Rightarrow> u32 \<Rightarrow> lp_state \<Rightarrow> (bool \<times> lp_state) outcome" where
  "after_handshake cr sel_iana st =
     (let st1 = on_intf (\<lambda>i. i\<lparr>intf_abort := False\<rparr>) st in
      if ipmi_oem_active (st_intf st) ''i82571spt'' then Inr (True, st1\<lparr>st_bridge := True\<rparr>)
      else bind_ok (ipmi_set_session_privlvl_cmd cr st1) (\<lambda>(rc, st2).
        if rc < 0 then Inr (False, st2)
        else bind_ok (hpm2_detect_max_payload_size (lanplus_command cr)
               (\<lambda>n. on_intf (\<lambda>i. ipmi_intf_set_max_request_data_size (Some ipmi_lanp_set_max_rq_data_size) i n))
               (\<lambda>n. on_intf (\<lambda>i. ipmi_intf_set_max_response_data_size (Some ipmi_lanp_set_max_rp_data_size) i n)) st2)
          (\<lambda>(err, st3).
             let st4 = st3\<lparr>st_bridge := True\<rparr> in
             bind_ok (ipmi_get_oem (lanplus_command cr) sel_iana (st_intf st4) st4) (\<lambda>(m, st5).
               Inr (True, on_intf (\<lambda>i. i\<lparr>manufacturer_id := m\<rparr>) st5)))))"

definition choose_suite :: "crypto \<Rightarrow> lp_state \<Rightarrow> lp_state outcome" where
  "choose_suite cr st =
     (if cipher_suite_id (ssn_params (st_intf st)) \<noteq> 0xff then Inr st
      else bind_ok (ipmi_find_best_cipher_suite (lanplus_command cr) st)
             (\<lambda>(c, st'). Inr (on_intf (\<lambda>i. ipmi_intf_session_set_cipher_suite_id i c) st')))"

text \<open>Whether the BMC supports RMCP+: bit 7 of the second byte of the capabilities.\<close>

definition rmcpplus_supported :: "crypto \<Rightarrow> lp_state \<Rightarrow> (bool \<times> lp_state) outcome" where
  "rmcpplus_supported cr st =
     (if ipmi_oem_active (st_intf st) ''i82571spt'' then Inr (True, st)
      else bind_ok (ipmi_get_auth_capabilities_cmd cr st) (\<lambda>(cap, st').
        Inr (case cap of None \<Rightarrow> False | Some d \<Rightarrow> bit (d ! 1) 7, st')))"

definition establish :: "crypto \<Rightarrow> u32 \<Rightarrow> lp_state \<Rightarrow> (bool \<times> lp_state) outcome" where
  "establish cr sel_iana st =
     bind_ok (rmcpplus_supported cr st) (\<lambda>(ok, st1).
       if \<not> ok then Inr (False, st1)
       else bind_ok (choose_suite cr st1) (\<lambda>st2.
         bind_ok (handshake cr 4 st2) (\<lambda>(ok', st3).
           if \<not> ok' then Inr (False, st3) else after_handshake cr sel_iana st3)))"

text \<open>
  \<open>sock\<close> is what \<open>ipmi_intf_socket_connect\<close> leaves: whether it succeeded, and the descriptor.
  Every failure after it closes the interface; the result is the descriptor or -1.
\<close>

definition ipmi_lanplus_open :: "crypto \<Rightarrow> u32 \<Rightarrow> bool \<times> int \<Rightarrow> lp_state \<Rightarrow> (int \<times> lp_state) outcome" where
  "ipmi_lanplus_open cr sel_iana sock st =
     (if opened (st_intf st) then Inr (fd (st_intf st), st)
      else
        let st1 = on_intf (on_params default_params) st;
            fail = (\<lambda>s. bind_ok (ipmi_lanplus_close cr s) (\<lambda>s'. Inr (-1, s')))
        in if hostname (ssn_params (st_intf st1)) = None \<or> hostname (ssn_params (st_intf st1)) = Some [] then Inr (-1, st1)
           else
             let st2 = on_intf (\<lambda>i. i\<lparr>fd := snd sock\<rparr>) st1 in
             if \<not> fst sock then fail st2
             else
               let st3 = (on_intf (\<lambda>i. i\<lparr>opened := True, intf_abort := True\<rparr>) st2)
                     \<lparr>st_live := True, st_ssn := new_session (ssn_params (st_intf st2))\<rparr>
               in bind_ok (establish cr sel_iana st3) (\<lambda>(ok, st4).
                    if ok then Inr (fd (st_intf st4), st4) else fail st4))"

section \<open>Sending through the interface\<close>

text \<open>
  \<open>sendrecv\<close> opens the interface first when it is not open. The pointer to the session was read
  before that, so after a successful open it is the one from before: null unless a session was
  left behind.
\<close>

definition ipmi_lanplus_sendrecv :: "crypto \<Rightarrow> u32 \<Rightarrow> bool \<times> int \<Rightarrow> lp_state sendrecv" where
  "ipmi_lanplus_sendrecv cr sel_iana sock req st =
     (if opened (st_intf st) then lanplus_command cr req st
      else bind_ok (ipmi_lanplus_open cr sel_iana sock st) (\<lambda>(rc, st').
        if rc < 0 then Inr (None, st')
        else Inl Dangling))"

text \<open>
  Keeping the session alive. While the response is a SOL packet it is acknowledged, its new
  characters are handed on, and the next packet is read; every one takes an event.
\<close>

definition take_sol :: "crypto \<Rightarrow> lp_state \<Rightarrow> lp_state outcome" where
  "take_sol cr st =
     bind_ok (ack_sol_packet cr st) (\<lambda>st1. bind_ok (check_sol_packet_for_new_data st1) (\<lambda>(n, st2).
       Inr (if rs_data_len (st_rsp st2) \<noteq> 0 then sol_input st2 else st2)))"

lemma take_sol_takes: "take_sol cr st = Inr st' \<Longrightarrow> length (st_net st') \<le> length (st_net st)"
proof -
  assume "take_sol cr st = Inr st'"
  then obtain st1 n st2 where "ack_sol_packet cr st = Inr st1" "check_sol_packet_for_new_data st1 = Inr (n, st2)"
    "st_net st' = st_net st2"
    by (fastforce simp: take_sol_def bind_ok_Inr_iff sol_input_def)
  then show ?thesis
    using ack_takes check_new_net by metis
qed

function keepalive_sol :: "crypto \<Rightarrow> lp_state \<Rightarrow> (int \<times> lp_state) outcome" where
  "keepalive_sol cr st =
     (if \<not> is_sol_packet (st_rsp st) then Inr (if rs_ccode (st_rsp st) \<noteq> 0 then -1 else 0, st)
      else case take_sol cr st of
        Inl f \<Rightarrow> Inl f
      | Inr st1 \<Rightarrow>
          (case ipmi_lan_poll_recv cr st1 of
             Inl f \<Rightarrow> Inl f
           | Inr (res, st2) \<Rightarrow> if res \<noteq> PRsp then Inr (0, st2) else keepalive_sol cr st2))"
  by pat_completeness auto

termination
proof (relation "measure (\<lambda>(cr, st). length (st_net st))")
  fix cr :: crypto and st st1 st2 :: lp_state and y res
  assume "take_sol cr st = Inr st1" "ipmi_lan_poll_recv cr st1 = Inr y" "(res, st2) = y" "\<not> res \<noteq> PRsp"
  then show "((cr, st2), cr, st) \<in> measure (\<lambda>(cr, st). length (st_net st))"
    using take_sol_takes [of cr st st1] poll_recv_takes [of cr st1 st2] by auto
qed simp

declare keepalive_sol.simps [simp del]

text \<open>The request leaves its \<open>data\<close> null; a response that is not SOL decides.\<close>

definition ipmi_lanplus_keepalive :: "crypto \<Rightarrow> lp_state \<Rightarrow> (int \<times> lp_state) outcome" where
  "ipmi_lanplus_keepalive cr st =
     (if \<not> opened (st_intf st) then Inr (0, st)
      else bind_ok (lanplus_command cr (mk_rq IPMI_NETFN_APP 1 []) st) (\<lambda>(r, st').
        case r of None \<Rightarrow> Inr (-1, st') | Some rsp \<Rightarrow> keepalive_sol cr st'))"

text \<open>\<open>seeded\<close> says whether the random number generator could be seeded.\<close>

definition ipmi_lanplus_setup :: "bool \<Rightarrow> ipmi_intf \<Rightarrow> int \<times> ipmi_intf" where
  "ipmi_lanplus_setup seeded i =
     (if \<not> seeded then (-1, i) else (0, i\<lparr>max_request_data_size := 38, max_response_data_size := 34\<rparr>))"

end
