(* ===== verification/LanplusKeep.thy ===== *)
theory LanplusKeep
  imports LanplusTakes
begin

text \<open>
  What sending and receiving leave alone: the interface, the session apart from its outbound
  sequence number, its timeout and (for the handshake) its state, and the size of the response
  buffer.
\<close>

definition core :: "ipmi_session \<Rightarrow> ipmi_session" where
  "core s = s\<lparr>out_seq := 0, ssn_timeout := 0, session_state := LANPLUS_STATE_PRESESSION\<rparr>"

lemma core_simps [simp]:
  "core (s\<lparr>out_seq := n\<rparr>) = core s" "core (s\<lparr>ssn_timeout := t\<rparr>) = core s" "core (s\<lparr>session_state := z\<rparr>) = core s"
  by (simp_all add: core_def)

definition kept :: "LANPLUS_SESSION_STATE set \<Rightarrow> lp_state \<Rightarrow> lp_state \<Rightarrow> bool" where
  "kept q st st' \<longleftrightarrow> st_intf st' = st_intf st \<and> st_live st' = st_live st \<and> st_bridge st' = st_bridge st \<and>
     core (st_ssn st') = core (st_ssn st) \<and>
     session_state (st_ssn st') \<in> insert (session_state (st_ssn st)) q \<and>
     (1024 \<le> length (rs_data (st_rsp st)) \<longrightarrow> 1024 \<le> length (rs_data (st_rsp st')))"

lemma kept_refl [simp]: "kept q st st"
  by (simp add: kept_def)

lemma kept_trans [trans]: "kept q st st1 \<Longrightarrow> kept q st1 st2 \<Longrightarrow> kept q st st2"
  by (auto simp: kept_def)

lemma kept_mono: "kept {} st st' \<Longrightarrow> kept q st st'"
  by (auto simp: kept_def)

lemma kept_updates [simp]:
  "kept q st (st\<lparr>st_reqs := t\<rparr>)" "kept q st (st\<lparr>st_sent := m\<rparr>)" "kept q st (st\<lparr>st_late := l\<rparr>)"
  "kept q st (st\<lparr>st_rand := r\<rparr>)" "kept q st (st\<lparr>st_curr_seq := n\<rparr>)" "kept q st (st\<lparr>st_send_fails := fs\<rparr>)"
  "kept q st (on_ssn (\<lambda>s. s\<lparr>ssn_timeout := x\<rparr>) st)"
  by (simp_all add: kept_def on_ssn_def)

section \<open>Receiving\<close>

definition buf :: "lp_state \<Rightarrow> bool" where
  "buf st \<longleftrightarrow> 1024 \<le> length (rs_data (st_rsp st))"

lemma put_at_grows: "off \<le> length b \<Longrightarrow> length b \<le> length (put_at b off bs)"
  by (simp add: put_at_def)

lemma store_packet_buf:
  "store_packet p r = Inr (got, r') \<Longrightarrow> 1024 \<le> length (rs_data r) \<Longrightarrow> 1024 \<le> length (rs_data r')"
  by (auto simp: store_packet_def IPMI_BUF_SIZE_def put_at_grows split: if_splits)

lemma recv_packet_buf: "ipmi_lan_recv_packet st = Inr (got, st') \<Longrightarrow> buf st \<Longrightarrow> buf st'"
  by (auto simp: ipmi_lan_recv_packet_def on_packet_def bind_ok_Inr_iff buf_def
      dest: store_packet_buf split: list.splits net_event.splits)

lemma shift_data_buf:
  "shift_data r off n = Inr r' \<Longrightarrow> 1024 \<le> length (rs_data r) \<Longrightarrow> 1024 \<le> length (rs_data r')"
  by (auto simp: shift_data_def split: if_splits)

lemma read_keeps_data:
  "rs_data (fst (read_session_data r off)) = rs_data r" "rs_data (fst (read_ipmi_response r off)) = rs_data r"
  "rs_data (fst (read_sol_packet r off)) = rs_data r" "rs_data (read_open_session_response r off) = rs_data r"
  "read_rakp2_message r off alg = Inr r' \<Longrightarrow> rs_data r' = rs_data r"
  "read_rakp4_message r off alg = Inr r' \<Longrightarrow> rs_data r' = rs_data r"
  by (auto simp: read_session_data_def read_session_data_v2x_def read_session_data_v15_def read_ipmi_response_def
      read_sol_packet_def read_open_session_response_def read_rakp2_message_def read_rakp4_message_def Let_def
      bind_ok_Inr_iff split: if_splits)

lemma poll_ipmi_buf: "poll_ipmi st off n = Inr (res, st') \<Longrightarrow> buf st \<Longrightarrow> buf st'"
proof (induction st off n rule: poll_ipmi.induct)
  case (1 st off n)
  have round: "buf st1" if "poll_ipmi_round st off n = Inr (r, st1)" for r st1
    using poll_ipmi_round_cases [OF that refl refl refl] "1.prems"(2)
    by cases (auto simp: buf_def read_keeps_data dest!: shift_data_buf)
  consider st1 where "poll_ipmi_round st off n = Inr (Some res, st1)" "st' = st1"
    | st1 where "poll_ipmi_round st off n = Inr (None, st1)" "poll_ipmi st1 0 (n - 8) = Inr (res, st')"
    using "1.prems"(1) by (subst (asm) poll_ipmi.simps) (auto split: sum.splits option.splits prod.splits)
  then show ?case
    using round "1.IH" by cases blast+
qed

lemma poll_payload_buf:
  assumes "poll_payload st off n = Inr (res, st')" "buf st"
  shows "buf st'"
proof (cases "rs_payloadtype (st_rsp st) = IPMI_PAYLOAD_TYPE_IPMI")
  case True
  then show ?thesis
    using assms poll_ipmi_buf by (simp add: poll_payload_def Let_def)
next
  case False
  then show ?thesis
    using assms
    by (auto simp: poll_payload_def bind_ok_Inr_iff Let_def buf_def read_keeps_data case_prod_beta
        dest!: shift_data_buf split: if_split_asm)
qed

lemma open_payload_buf:
  "open_payload cr s off r = Inr (r', n) \<Longrightarrow> 1024 \<le> length (rs_data r) \<Longrightarrow> 1024 \<le> length (rs_data r')"
  by (auto simp: open_payload_def bind_ok_Inr_iff Let_def IPMI_BUF_SIZE_def put_at_def split: if_splits option.splits)

lemma poll_session_buf:
  assumes "poll_session cr st = Inr (res, st')" "buf st"
  shows "buf st'"
proof -
  obtain r off where r: "read_session_data (st_rsp st) 4 = (r, off)"
    by fastforce
  then have br: "1024 \<le> length (rs_data r)"
    using assms(2) read_keeps_data(1) [of "st_rsp st" 4] by (simp add: buf_def)
  show ?thesis
  proof (cases "st' = st\<lparr>st_rsp := r\<rparr>")
    case True
    then show ?thesis
      using br by (simp add: buf_def)
  next
    case False
    then obtain r' n where "open_payload cr (st_ssn st) off r = Inr (r', n)"
      "poll_payload (st\<lparr>st_rsp := r'\<rparr>) off n = Inr (res, st')"
      using assms by (auto simp: poll_session_def r bind_ok_Inr_iff Let_def split: if_split_asm)
    then show ?thesis
      using open_payload_buf [OF _ br] poll_payload_buf by (fastforce simp: buf_def)
  qed
qed

lemma poll_single_buf:
  assumes "ipmi_lan_poll_single cr st = Inr (res, st')" "buf st"
  shows "buf st'"
proof -
  obtain got st1 where st1: "ipmi_lan_recv_packet st = Inr (got, st1)"
    using assms by (auto simp: ipmi_lan_poll_single_def bind_ok_Inr_iff)
  then have "st' = st1 \<or> poll_session cr st1 = Inr (res, st')"
    using assms by (auto simp: ipmi_lan_poll_single_def split: if_split_asm)
  then show ?thesis
    using recv_packet_buf [OF st1 assms(2)] poll_session_buf by blast
qed

lemma poll_recv_buf: "ipmi_lan_poll_recv cr st = Inr (res, st') \<Longrightarrow> buf st \<Longrightarrow> buf st'"
proof (induction cr st rule: ipmi_lan_poll_recv.induct)
  case (1 cr st)
  obtain r st1 where r: "ipmi_lan_poll_single cr st = Inr (r, st1)"
    using "1.prems" by (subst (asm) ipmi_lan_poll_recv.simps) (auto split: sum.splits)
  then show ?case
    using "1.IH" [OF r refl] "1.prems" poll_single_buf [OF r]
    by (subst (asm) (2) ipmi_lan_poll_recv.simps) (auto split: if_splits)
qed

lemma poll_recv_kept: "ipmi_lan_poll_recv cr st = Inr (res, st') \<Longrightarrow> kept {} st st'"
  using poll_recv_polled [of cr st res st'] poll_recv_buf [of cr st res st']
  by (simp add: kept_def polled_def buf_def)

lemma poll_answer_kept: "poll_answer cr st = Inr (got, st') \<Longrightarrow> kept {} st st'"
proof (induction cr st rule: poll_answer.induct)
  case (1 cr st)
  obtain res st1 where r: "ipmi_lan_poll_recv cr st = Inr (res, st1)"
    using "1.prems" by (subst (asm) poll_answer.simps) (auto split: sum.splits)
  have "st' = st1 \<or> poll_answer cr st1 = Inr (got, st') \<and> res = PRsp \<and> rs_ccode (st_rsp st1) = 0xCF"
    using "1.prems" r by (subst (asm) poll_answer.simps) (auto split: if_splits)
  then show ?case
    using poll_recv_kept [OF r] "1.IH" [OF r refl] kept_trans by blast
qed

section \<open>Sending\<close>

lemma build_v2x_kept:
  assumes "build_v2x cr p sq st = Inr (m, p', st')"
  shows "kept {} st st' \<and> pl_body p' = pl_body p"
  using assms
  by (auto simp: build_v2x_def ipmi_lanplus_build_v2x_msg_def bind_ok_Inr_iff Let_def lanplus_rand_def kept_def
      split: if_splits)

lemma send_packet_kept: "kept {} st (snd (ipmi_lan_send_packet m st))"
  by (auto simp: ipmi_lan_send_packet_def kept_def split: list.splits bool.splits)

lemma build_cmd_kept:
  assumes "ipmi_lanplus_build_v2x_ipmi_cmd cr req isRetry st = Inr (a, m, st')"
  shows "kept {} st st'"
proof -
  obtain p sq p' st1 t where "build_v2x cr p sq (st\<lparr>st_curr_seq := sq\<rparr>) = Inr (m, p', st1)" "st' = st1\<lparr>st_reqs := t\<rparr>"
    using assms by (auto simp: ipmi_lanplus_build_v2x_ipmi_cmd_def bind_ok_Inr_iff Let_def)
  then show ?thesis
    using build_v2x_kept kept_trans kept_updates by metis
qed

lemma build_v15_kept:
  "ipmi_lanplus_build_v15_ipmi_cmd req st = Inr (a, m, st') \<Longrightarrow> kept {} st st'"
  by (auto simp: ipmi_lanplus_build_v15_ipmi_cmd_def bind_ok_Inr_iff Let_def)

lemma transmit_kept:
  assumes "transmit cr isRetry entry p st = Inr (ok, entry', p', st')"
  shows "kept {} st st' \<and> pl_body p' = pl_body p \<and> may_send (pl_body p) (session_state (st_ssn st))"
proof (cases "\<exists>req sq. pl_body p = BIpmi req sq")
  case True
  then obtain req sq where b: "pl_body p = BIpmi req sq"
    by blast
  obtain a m st1 where "ipmi_lanplus_build_v15_ipmi_cmd req st = Inr (a, m, st1) \<or>
      ipmi_lanplus_build_v2x_ipmi_cmd cr req isRetry st = Inr (a, m, st1)"
    "st' = snd (ipmi_lan_send_packet m st1)" "p' = p"
    using assms b by (auto simp: transmit_def bind_ok_Inr_iff Let_def case_prod_beta split: if_split_asm)
  then show ?thesis
    using b build_v15_kept build_cmd_kept send_packet_kept kept_trans by (fastforce simp: may_send_def)
next
  case False
  then obtain m st1 where "build_v2x cr p 0 st = Inr (m, p', st1)" "st' = snd (ipmi_lan_send_packet m st1)"
    "may_send (pl_body p) (session_state (st_ssn st))"
    using assms by (auto simp: transmit_def bind_ok_Inr_iff Let_def case_prod_beta split: if_split_asm v2_body.split_asm)
  then show ?thesis
    using build_v2x_kept send_packet_kept kept_trans by blast
qed

definition no_sol :: "v2_body \<Rightarrow> bool" where
  "no_sol b \<longleftrightarrow> (case b of BSol tx \<Rightarrow> False | _ \<Rightarrow> True)"

lemma await_kept:
  assumes "await cr sol p entry rsp st = Inr (stop, rsp', st')" "no_sol (pl_body p)"
  shows "kept {} st st' \<and> rsp' = stop"
proof -
  obtain got st1 where g: "poll_answer cr st = Inr (got, st1)" "st' = st1 \<or> (\<exists>t. st' = st1\<lparr>st_reqs := t\<rparr>)" "rsp' = stop"
    using assms by (auto simp: await_def no_sol_def bind_ok_Inr_iff split: v2_body.splits if_splits)
  then show ?thesis
    using poll_answer_kept [OF g(1)] kept_trans kept_updates by metis
qed

lemma timed_out_kept: "timed_out st = (late, st') \<Longrightarrow> kept {} st st'"
  by (auto simp: timed_out_def)

definition states_after :: "v2_body \<Rightarrow> LANPLUS_SESSION_STATE set" where
  "states_after b = set_option (state_after b)"

lemma advance_kept:
  "kept (states_after b) st
     (case state_after b of None \<Rightarrow> st | Some s \<Rightarrow> on_ssn (\<lambda>n. n\<lparr>session_state := s\<rparr>) st)"
  by (auto simp: kept_def on_ssn_def states_after_def split: option.split)

lemma send_loop_kept:
  assumes "send_loop cr sol saved k isRetry xmit entry rsp p st = Inr (rsp', p', st')" "no_sol (pl_body p)"
  shows "kept (states_after (pl_body p)) st st'"
  using assms
proof (induction k arbitrary: isRetry xmit entry rsp p st)
  case 0
  then show ?case
    by (auto simp: finish_def)
next
  case (Suc k)
  let ?b = "pl_body p"
  let ?q = "states_after ?b"
  have fin: "kept ?q st st''" if "finish saved x y s = Inr (rsp', p', st'')" "kept ?q st s" for x y s st''
    using that kept_trans kept_updates by (auto simp: finish_def)
  obtain ok entry1 p1 st1 where tr: "(if xmit then transmit cr isRetry entry p st else Inr (True, entry, p, st))
      = Inr (ok, entry1, p1, st1)"
    using Suc.prems(1) by (auto simp: bind_ok_Inr_iff)
  then have t: "kept ?q st st1" "pl_body p1 = ?b"
    using transmit_kept kept_mono by (fastforce split: if_splits)+
  show ?case
  proof (cases "\<not> ok \<or> noanswer (st_intf st1)")
    case True
    then have "st' = st1 \<or> finish saved rsp p1 st1 = Inr (rsp', p', st')"
      using Suc.prems(1) by (auto simp: tr split: if_splits)
    then show ?thesis
      using t fin by blast
  next
    case False
    define st2 where "st2 = (case state_after (pl_body p1) of None \<Rightarrow> st1 | Some s \<Rightarrow> on_ssn (\<lambda>n. n\<lparr>session_state := s\<rparr>) st1)"
    define k1 where "k1 = (if state_after (pl_body p1) = None then k else 0)"
    obtain stop rsp1 st3 where aw: "await cr sol p1 entry1 rsp st2 = Inr (stop, rsp1, st3)"
      using Suc.prems(1) False by (auto simp: tr st2_def bind_ok_Inr_iff Let_def)
    have "kept ?q st1 st2"
      using advance_kept [of ?b st1] t(2) by (simp add: st2_def)
    moreover have "kept ?q st2 st3"
      using await_kept [OF aw] t(2) Suc.prems(2) kept_mono by auto
    ultimately have st3: "kept ?q st st3"
      using t(1) kept_trans by blast
    show ?thesis
    proof (cases stop)
      case True
      then have "finish saved rsp1 p1 st3 = Inr (rsp', p', st')"
        using Suc.prems(1) False aw by (simp add: tr st2_def Let_def)
      then show ?thesis
        using fin st3 by blast
    next
      case no_stop: False
      obtain late st4 where late: "timed_out st3 = (late, st4)"
        by fastforce
      define st5 where "st5 = (if late then on_ssn (\<lambda>s. s\<lparr>ssn_timeout := ssn_timeout s + 1\<rparr>) st4 else st4)"
      have "send_loop cr sol saved k1 True late entry1 rsp1 p1 st5 = Inr (rsp', p', st')"
        using Suc.prems(1) False aw no_stop late by (simp add: tr st2_def k1_def st5_def Let_def)
      then have fin: "kept ?q st5 st'"
      proof (cases k1)
        case 0
        then show ?thesis
          using \<open>send_loop cr sol saved k1 _ _ _ _ _ _ = _\<close> kept_updates by (auto simp: finish_def)
      next
        case (Suc _)
        then have "k1 = k"
          by (auto simp: k1_def split: if_splits)
        then show ?thesis
          using Suc.IH [of True late entry1 rsp1 p1 st5] \<open>send_loop cr sol saved k1 _ _ _ _ _ _ = _\<close> t(2) Suc.prems(2) by simp
      qed
      have "kept ?q st3 st5"
        using timed_out_kept [OF late, THEN kept_mono] kept_trans kept_updates by (auto simp: st5_def kept_def on_ssn_def)
      then show ?thesis
        using st3 fin kept_trans by blast
    qed
  qed
qed

lemma send_opened_kept:
  "send_opened cr sol p st = Inr (rsp, p', st') \<Longrightarrow> no_sol (pl_body p) \<Longrightarrow> kept (states_after (pl_body p)) st st'"
  unfolding send_opened_def by (rule send_loop_kept)

end
