(* ===== verification/LanplusHandshake.thy ===== *)
theory LanplusHandshake
  imports LanplusSession LanplusKeep
begin

text \<open>
  The handshake as a protocol machine: the relation \<open>ssn_step\<close> says how a session may change, the
  code's handshake runs along it, and what holds of an active session is an invariant of it.
\<close>

section \<open>The machine\<close>

definition agreed :: "ipmi_intf \<Rightarrow> ipmi_session \<Rightarrow> bool" where
  "agreed i s \<longleftrightarrow> lanplus_get_requested_ciphers (cipher_suite_id (ssn_params i)) =
     Some (auth_alg s, integrity_alg s, crypt_alg s)"

definition requested :: "ipmi_intf \<Rightarrow> ipmi_session \<Rightarrow> bool" where
  "requested i s \<longleftrightarrow> lanplus_get_requested_ciphers (cipher_suite_id (ssn_params i)) =
     Some (requested_auth_alg s, requested_integrity_alg s, requested_crypt_alg s)"

text \<open>The BMC proved in RAKP 2, and in RAKP 4, that it knows the keys.\<close>

definition rakp2_proved :: "crypto \<Rightarrow> ipmi_intf \<Rightarrow> ipmi_session \<Rightarrow> bool" where
  "rakp2_proved cr i s \<longleftrightarrow> (\<exists>mac. lanplus_rakp2_hmac_matches cr True i s mac = Inr True)"

definition rakp4_proved :: "crypto \<Rightarrow> ipmi_intf \<Rightarrow> ipmi_session \<Rightarrow> bool" where
  "rakp4_proved cr i s \<longleftrightarrow> (\<exists>mac. lanplus_rakp4_hmac_matches cr True i s mac = Inr True)"

text \<open>The keys are the ones of the specification: SIK from both random numbers, K1 and K2 from SIK.\<close>

definition sik_key :: "ipmi_intf \<Rightarrow> ipmi_session \<Rightarrow> bytes" where
  "sik_key i s = take 20 (if kg (ssn_params i) ! 0 \<noteq> 0 then kg (ssn_params i) else authcode s)"

definition keyed :: "crypto \<Rightarrow> ipmi_intf \<Rightarrow> ipmi_session \<Rightarrow> bool" where
  "keyed cr i s \<longleftrightarrow> auth_alg s = IPMI_AUTH_RAKP_NONE \<or>
     (lanplus_HMAC cr (auth_alg s) (sik_key i s) (sik_input i s) = Inr (take (sik_len s) (sik s)) \<and>
      lanplus_HMAC cr (auth_alg s) (take (sik_len s) (sik s)) (replicate 20 1) = Inr (take (k1_len s) (k1 s)) \<and>
      lanplus_HMAC cr (auth_alg s) (take (sik_len s) (sik s)) (replicate 20 2) = Inr (take (k2_len s) (k2 s)))"

inductive ssn_step :: "crypto \<Rightarrow> ipmi_intf \<Rightarrow> ipmi_session \<Rightarrow> ipmi_session \<Rightarrow> bool" for cr i where
  counters: "ssn_step cr i s (s\<lparr>out_seq := n, ssn_timeout := t\<rparr>)"
| restart: "ssn_step cr i s (s\<lparr>session_state := LANPLUS_STATE_PRESESSION\<rparr>)"
| prepare: "session_state s = LANPLUS_STATE_PRESESSION \<Longrightarrow>
    lanplus_get_requested_ciphers (cipher_suite_id (ssn_params i)) = Some (a, g, c) \<Longrightarrow>
    ssn_step cr i s (s\<lparr>console_id := 0xA0A2A3A4, requested_auth_alg := a, requested_integrity_alg := g,
      requested_crypt_alg := c\<rparr>)"
| open_sent: "session_state s = LANPLUS_STATE_PRESESSION \<Longrightarrow> requested i s \<Longrightarrow>
    ssn_step cr i s (s\<lparr>session_state := LANPLUS_STATE_OPEN_SESSION_SENT\<rparr>)"
| open_received: "session_state s = LANPLUS_STATE_OPEN_SESSION_SENT \<Longrightarrow> or_code m = 0 \<Longrightarrow>
    or_auth_alg m = requested_auth_alg s \<Longrightarrow> or_integrity_alg m = requested_integrity_alg s \<Longrightarrow>
    or_crypt_alg m = requested_crypt_alg s \<Longrightarrow> ssn_step cr i s (accept_open m s)"
| challenge: "session_state s = LANPLUS_STATE_OPEN_SESSION_RECEIEVED \<Longrightarrow>
    ssn_step cr i s (s\<lparr>console_rand := rnd, requested_role := privlvl (ssn_params i) OR lookupbit (ssn_params i)\<rparr>)"
| rakp1_sent: "session_state s = LANPLUS_STATE_OPEN_SESSION_RECEIEVED \<Longrightarrow>
    ssn_step cr i s (s\<lparr>session_state := LANPLUS_STATE_RAKP_1_SENT\<rparr>)"
| rakp2: "session_state s = LANPLUS_STATE_RAKP_1_SENT \<Longrightarrow> r2_code m = 0 \<Longrightarrow>
    lanplus_rakp2_hmac_matches cr True i (accept_rakp2 m s) (r2_auth_code m) = Inr True \<Longrightarrow>
    ssn_step cr i s ((accept_rakp2 m s)\<lparr>session_state := LANPLUS_STATE_RAKP_2_RECEIVED, rakp2_return_code := 0\<rparr>)"
| keys: "session_state s = LANPLUS_STATE_RAKP_2_RECEIVED \<Longrightarrow> rakp2_return_code s = 0 \<Longrightarrow>
    session_keys cr i s = Inr (True, s') \<Longrightarrow> ssn_step cr i s s'"
| rakp3_sent: "session_state s = LANPLUS_STATE_RAKP_2_RECEIVED \<Longrightarrow> keyed cr i s \<Longrightarrow>
    ssn_step cr i s (s\<lparr>session_state := LANPLUS_STATE_RAKP_3_SENT\<rparr>)"
| active: "session_state s = LANPLUS_STATE_RAKP_3_SENT \<Longrightarrow>
    lanplus_rakp4_hmac_matches cr True i s mac = Inr True \<Longrightarrow>
    ssn_step cr i s (s\<lparr>session_state := LANPLUS_STATE_ACTIVE\<rparr>)"

abbreviation ssn_steps :: "crypto \<Rightarrow> ipmi_intf \<Rightarrow> ipmi_session \<Rightarrow> ipmi_session \<Rightarrow> bool" where
  "ssn_steps cr i \<equiv> (ssn_step cr i)\<^sup>*\<^sup>*"

section \<open>The invariant\<close>

text \<open>How far the handshake is.\<close>

fun stage :: "LANPLUS_SESSION_STATE \<Rightarrow> nat" where
  "stage LANPLUS_STATE_PRESESSION = 0"
| "stage LANPLUS_STATE_OPEN_SESSION_SENT = 1"
| "stage LANPLUS_STATE_OPEN_SESSION_RECEIEVED = 2"
| "stage LANPLUS_STATE_RAKP_1_SENT = 3"
| "stage LANPLUS_STATE_RAKP_2_RECEIVED = 4"
| "stage LANPLUS_STATE_RAKP_3_SENT = 5"
| "stage LANPLUS_STATE_ACTIVE = 6"
| "stage LANPLUS_STATE_CLOSE_SENT = 0"

definition ssn_ok :: "crypto \<Rightarrow> ipmi_intf \<Rightarrow> ipmi_session \<Rightarrow> bool" where
  "ssn_ok cr i s \<longleftrightarrow>
     (let n = stage (session_state s) in
      (1 \<le> n \<longrightarrow> requested i s) \<and> (2 \<le> n \<longrightarrow> agreed i s) \<and>
      (4 \<le> n \<longrightarrow> rakp2_return_code s = 0 \<and> rakp2_proved cr i s) \<and>
      (5 \<le> n \<longrightarrow> keyed cr i s) \<and> (6 \<le> n \<longrightarrow> rakp4_proved cr i s))"

text \<open>What the facts depend on.\<close>

lemma proved_simps [simp]:
  "rakp2_proved cr i (s\<lparr>out_seq := n\<rparr>) = rakp2_proved cr i s"
  "rakp2_proved cr i (s\<lparr>ssn_timeout := t\<rparr>) = rakp2_proved cr i s"
  "rakp2_proved cr i (s\<lparr>session_state := z\<rparr>) = rakp2_proved cr i s"
  "rakp2_proved cr i (s\<lparr>rakp2_return_code := x\<rparr>) = rakp2_proved cr i s"
  "rakp4_proved cr i (s\<lparr>out_seq := n\<rparr>) = rakp4_proved cr i s"
  "rakp4_proved cr i (s\<lparr>ssn_timeout := t\<rparr>) = rakp4_proved cr i s"
  "rakp4_proved cr i (s\<lparr>session_state := z\<rparr>) = rakp4_proved cr i s"
  "keyed cr i (s\<lparr>out_seq := n\<rparr>) = keyed cr i s"
  "keyed cr i (s\<lparr>ssn_timeout := t\<rparr>) = keyed cr i s"
  "keyed cr i (s\<lparr>session_state := z\<rparr>) = keyed cr i s"
  by (simp_all add: rakp2_proved_def lanplus_rakp2_hmac_matches_def supported_auth_def rakp2_input_def
      rakp4_proved_def lanplus_rakp4_hmac_matches_def rakp4_input_def rakp4_cmp_length_def keyed_def sik_key_def
      sik_input_def cong: if_cong)

lemma agreed_simps [simp]:
  "agreed i (s\<lparr>out_seq := n\<rparr>) = agreed i s" "agreed i (s\<lparr>ssn_timeout := t\<rparr>) = agreed i s"
  "agreed i (s\<lparr>session_state := z\<rparr>) = agreed i s" "agreed i (s\<lparr>rakp2_return_code := x\<rparr>) = agreed i s"
  "requested i (s\<lparr>out_seq := n\<rparr>) = requested i s" "requested i (s\<lparr>ssn_timeout := t\<rparr>) = requested i s"
  "requested i (s\<lparr>session_state := z\<rparr>) = requested i s" "requested i (s\<lparr>rakp2_return_code := x\<rparr>) = requested i s"
  "agreed i (accept_rakp2 m s) = agreed i s" "requested i (accept_rakp2 m s) = requested i s"
  "agreed i (s\<lparr>console_rand := r, requested_role := l\<rparr>) = agreed i s"
  "requested i (s\<lparr>console_rand := r, requested_role := l\<rparr>) = requested i s"
  by (simp_all add: agreed_def requested_def accept_rakp2_def)

text \<open>Generating the keys changes the keys only, and makes the session keyed.\<close>

lemma gen_sik_cases:
  assumes "lanplus_generate_sik cr True i s = Inr (rc, s')"
  obtains (none) "auth_alg s = IPMI_AUTH_RAKP_NONE" "s' = s\<lparr>sik := replicate 32 0, sik_len := 0\<rparr>"
    | (mac) mac where "lanplus_HMAC cr (auth_alg s) (sik_key i s) (sik_input i s) = Inr mac"
        "s' = s\<lparr>sik := put_at (replicate 32 0) 0 mac, sik_len := length mac\<rparr>"
  using assms
  by (auto simp: lanplus_generate_sik_def Let_def bind_ok_Inr_iff sik_key_def split: if_split_asm)

lemma gen_k1_cases:
  assumes "lanplus_generate_k1 cr s = Inr (rc, s')"
  obtains (none) "auth_alg s = IPMI_AUTH_RAKP_NONE" "s' = s\<lparr>k1 := put_at (k1 s) 0 (replicate 20 1)\<rparr>"
    | (mac) mac where "lanplus_HMAC cr (auth_alg s) (take (sik_len s) (sik s)) (replicate 20 1) = Inr mac"
        "s' = s\<lparr>k1 := put_at (k1 s) 0 mac, k1_len := length mac\<rparr>"
  using assms by (auto simp: lanplus_generate_k1_def bind_ok_Inr_iff split: if_split_asm)

lemma gen_k2_cases:
  assumes "lanplus_generate_k2 cr s = Inr (rc, s')"
  obtains (none) "auth_alg s = IPMI_AUTH_RAKP_NONE" "s' = s\<lparr>k2 := put_at (k2 s) 0 (replicate 20 2)\<rparr>"
    | (mac) mac where "lanplus_HMAC cr (auth_alg s) (take (sik_len s) (sik s)) (replicate 20 2) = Inr mac"
        "s' = s\<lparr>k2 := put_at (k2 s) 0 mac, k2_len := length mac\<rparr>"
  using assms by (auto simp: lanplus_generate_k2_def bind_ok_Inr_iff split: if_split_asm)

lemma take_put_at_front [simp]: "take (length m) (put_at b 0 m) = m"
  by (simp add: put_at_def)

text \<open>The session without its keys.\<close>

definition keyless :: "ipmi_session \<Rightarrow> ipmi_session" where
  "keyless s = s\<lparr>sik := [], sik_len := 0, k1 := [], k1_len := 0, k2 := [], k2_len := 0\<rparr>"

lemma keyless_simps [simp]:
  "keyless (s\<lparr>sik := a, sik_len := n\<rparr>) = keyless s" "keyless (s\<lparr>k1 := a, k1_len := n\<rparr>) = keyless s"
  "keyless (s\<lparr>k2 := a, k2_len := n\<rparr>) = keyless s" "keyless (s\<lparr>k1 := a\<rparr>) = keyless s" "keyless (s\<lparr>k2 := a\<rparr>) = keyless s"
  by (simp_all add: keyless_def)

lemma gen_keyless:
  "lanplus_generate_sik cr True i s = Inr (rc, s') \<Longrightarrow> keyless s' = keyless s"
  "lanplus_generate_k1 cr s = Inr (rc, s') \<Longrightarrow> keyless s' = keyless s"
  "lanplus_generate_k2 cr s = Inr (rc, s') \<Longrightarrow> keyless s' = keyless s"
  by (erule gen_sik_cases gen_k1_cases gen_k2_cases; simp)+

lemma session_keys_ok:
  assumes "session_keys cr i s = Inr (True, s')"
  obtains s1 s2 where "lanplus_generate_sik cr True i s = Inr (0, s1)" "lanplus_generate_k1 cr s1 = Inr (0, s2)"
    "lanplus_generate_k2 cr s2 = Inr (0, s')"
  using assms by (auto simp: session_keys_def bind_ok_Inr_iff split: if_split_asm)

lemma session_keys_keyless: "session_keys cr i s = Inr (True, s') \<Longrightarrow> keyless s' = keyless s"
  by (erule session_keys_ok) (metis gen_keyless)

lemma keyless_fields:
  assumes "keyless s' = keyless s"
  shows "auth_alg s' = auth_alg s" "session_state s' = session_state s" "rakp2_return_code s' = rakp2_return_code s"
    "requested i s' = requested i s" "agreed i s' = agreed i s" "rakp2_proved cr i s' = rakp2_proved cr i s"
proof -
  have "f (keyless s') = f (keyless s)" for f :: "ipmi_session \<Rightarrow> 'b"
    using assms by simp
  note eq = this [of auth_alg] this [of session_state] this [of rakp2_return_code]
    this [of requested_auth_alg] this [of requested_integrity_alg] this [of requested_crypt_alg]
    this [of integrity_alg] this [of crypt_alg] this [of "\<lambda>s. lanplus_rakp2_hmac_matches cr True i s"]
  have rm: "lanplus_rakp2_hmac_matches cr True i (keyless s) = lanplus_rakp2_hmac_matches cr True i s" for s
    by (rule ext) (simp add: lanplus_rakp2_hmac_matches_def supported_auth_def rakp2_input_def keyless_def)
  show "auth_alg s' = auth_alg s" "session_state s' = session_state s" "rakp2_return_code s' = rakp2_return_code s"
    "requested i s' = requested i s" "agreed i s' = agreed i s" "rakp2_proved cr i s' = rakp2_proved cr i s"
    using eq by (simp_all add: keyless_def requested_def agreed_def rakp2_proved_def rm [unfolded keyless_def])
qed

lemma session_keys_keyed:
  assumes "session_keys cr i s = Inr (True, s')"
  shows "keyed cr i s'"
proof -
  obtain s1 s2 where g: "lanplus_generate_sik cr True i s = Inr (0, s1)" "lanplus_generate_k1 cr s1 = Inr (0, s2)"
    "lanplus_generate_k2 cr s2 = Inr (0, s')"
    by (rule session_keys_ok [OF assms])
  show ?thesis
  proof (cases "auth_alg s = IPMI_AUTH_RAKP_NONE")
    case True
    then show ?thesis
      using keyless_fields(1) [OF session_keys_keyless [OF assms]] by (simp add: keyed_def)
  next
    case False
    obtain m0 where 1: "lanplus_HMAC cr (auth_alg s) (sik_key i s) (sik_input i s) = Inr m0"
      "s1 = s\<lparr>sik := put_at (replicate 32 0) 0 m0, sik_len := length m0\<rparr>"
      using g(1) False by (elim gen_sik_cases) auto
    obtain m1 where 2: "lanplus_HMAC cr (auth_alg s) m0 (replicate 20 1) = Inr m1"
      "s2 = s1\<lparr>k1 := put_at (k1 s1) 0 m1, k1_len := length m1\<rparr>"
      using g(2) False 1(2) by (elim gen_k1_cases) auto
    obtain m2 where 3: "lanplus_HMAC cr (auth_alg s) m0 (replicate 20 2) = Inr m2"
      "s' = s2\<lparr>k2 := put_at (k2 s2) 0 m2, k2_len := length m2\<rparr>"
      using g(3) False 1(2) 2(2) by (elim gen_k2_cases) auto
    have "sik_key i s' = sik_key i s" "sik_input i s' = sik_input i s"
      by (simp_all add: 1(2) 2(2) 3(2) sik_key_def sik_input_def)
    then show ?thesis
      unfolding keyed_def using 1 2 3 by simp
  qed
qed

text \<open>Every step keeps the invariant.\<close>

lemma ssn_step_ok:
  assumes "ssn_step cr i s s'" "ssn_ok cr i s"
  shows "ssn_ok cr i s'"
  using assms
proof (induction rule: ssn_step.induct)
  case (keys s s')
  note kl = session_keys_keyless [OF keys(3)]
  show ?case
    using keys session_keys_keyed [OF keys(3)] keyless_fields [OF kl] by (simp add: ssn_ok_def)
next
  case (prepare s a g c)
  then show ?case
    by (simp add: ssn_ok_def)
next
  case (open_received s m)
  then show ?case
    by (simp add: ssn_ok_def accept_open_def requested_def agreed_def)
next
  case (challenge s rnd)
  then show ?case
    by (simp add: ssn_ok_def)
next
  case (rakp2 s m)
  then have "rakp2_proved cr i (accept_rakp2 m s)"
    by (auto simp: rakp2_proved_def)
  then show ?case
    using rakp2 by (simp add: ssn_ok_def)
next
  case (active s mac)
  then have "rakp4_proved cr i s"
    by (auto simp: rakp4_proved_def)
  then show ?case
    using active by (simp add: ssn_ok_def)
qed (simp_all add: ssn_ok_def)

lemma ssn_steps_ok: "ssn_steps cr i s s' \<Longrightarrow> ssn_ok cr i s \<Longrightarrow> ssn_ok cr i s'"
  by (induction rule: rtranclp_induct) (auto intro: ssn_step_ok)

section \<open>The code runs along the machine\<close>

lemma core_eq:
  "core s' = core s \<Longrightarrow> s' = s\<lparr>out_seq := out_seq s', ssn_timeout := ssn_timeout s', session_state := session_state s'\<rparr>"
  by (cases s; cases s') (simp add: core_def)

lemma kept_steps:
  assumes "kept {} st st'"
  shows "ssn_steps cr i (st_ssn st) (st_ssn st')"
proof -
  have "st_ssn st' = (st_ssn st)\<lparr>out_seq := out_seq (st_ssn st'), ssn_timeout := ssn_timeout (st_ssn st')\<rparr>"
    using assms core_eq [of "st_ssn st'" "st_ssn st"] by (cases "st_ssn st") (simp add: kept_def)
  then show ?thesis
    by (metis ssn_step.counters r_into_rtranclp)
qed

text \<open>A handshake message: with an answer it was sent in its state, and the session is in the next one.\<close>

lemma send_loop_answered:
  assumes "send_loop cr sol saved k isRetry True entry False p st = Inr (True, p', st')" "state_after (pl_body p) = Some q"
  shows "may_send (pl_body p) (session_state (st_ssn st)) \<and> session_state (st_ssn st') = q"
proof (cases k)
  case 0
  then show ?thesis
    using assms by (simp add: finish_def)
next
  case (Suc n)
  have b: "no_sol (pl_body p)"
    using assms(2) by (auto simp: no_sol_def state_after_def split: v2_body.splits)
  obtain ok entry1 p1 st1 where tr: "transmit cr isRetry entry p st = Inr (ok, entry1, p1, st1)"
    using assms(1) Suc by (auto simp: bind_ok_Inr_iff)
  note t = transmit_kept [OF tr]
  have ok: "ok" "\<not> noanswer (st_intf st1)"
    using assms(1) Suc tr by (auto simp: finish_def split: if_splits)
  define st2 where "st2 = on_ssn (\<lambda>n. n\<lparr>session_state := q\<rparr>) st1"
  have sa: "state_after (pl_body p1) = Some q"
    using t assms(2) by simp
  obtain stop rsp1 st3 where aw: "await cr sol p1 entry1 False st2 = Inr (stop, rsp1, st3)"
    using assms(1) Suc tr ok sa by (auto simp: bind_ok_Inr_iff Let_def st2_def)
  have k: "kept {} st2 st3" "rsp1 = stop"
    using await_kept [OF aw] b t by simp_all
  have st3: "session_state (st_ssn st3) = q"
    using k(1) by (simp add: kept_def st2_def on_ssn_def)
  have stop
    using assms(1) Suc tr ok sa aw k(2) by (auto simp: Let_def st2_def finish_def split: prod.splits if_splits)
  then have "finish saved True p1 st3 = Inr (True, p', st')"
    using assms(1) Suc tr ok sa aw k(2) by (simp add: Let_def st2_def)
  then show ?thesis
    using t st3 by (auto simp: finish_def on_ssn_def)
qed

lemma request_steps:
  assumes "lanplus_request cr (handshake_payload b n) st = Inr (r, st')" "state_after b = Some q"
  shows "kept {q} st st'" "r \<noteq> None \<Longrightarrow> may_send b (session_state (st_ssn st)) \<and> session_state (st_ssn st') = q"
proof -
  have b: "no_sol b"
    using assms(2) by (auto simp: no_sol_def state_after_def split: v2_body.splits)
  obtain got p' where s: "send_opened cr (ipmi_lanplus_recv_sol cr) (handshake_payload b n) st = Inr (got, p', st')"
    "r = (if got then Some (st_rsp st') else None)"
    using assms(1) by (auto simp: lanplus_request_def bind_ok_Inr_iff)
  show "kept {q} st st'"
    using send_opened_kept [OF s(1)] b assms(2) by (simp add: handshake_payload_def states_after_def)
  show "may_send b (session_state (st_ssn st)) \<and> session_state (st_ssn st') = q" if "r \<noteq> None"
    using that s assms(2) send_loop_answered [of cr "ipmi_lanplus_recv_sol cr" _ _ False None "handshake_payload b n" st p' st' q]
    by (cases got) (simp_all add: send_opened_def handshake_payload_def)
qed

lemma kept_one_step:
  assumes "kept {q} st st'" "ssn_step cr i (st_ssn st) ((st_ssn st)\<lparr>session_state := q\<rparr>)"
  shows "ssn_steps cr i (st_ssn st) (st_ssn st')"
proof (cases "session_state (st_ssn st') = session_state (st_ssn st)")
  case True
  then have "kept {} st st'"
    using assms(1) by (simp add: kept_def)
  then show ?thesis
    by (rule kept_steps)
next
  case False
  then have "kept {} (on_ssn (\<lambda>s. s\<lparr>session_state := q\<rparr>) st) st'"
    using assms(1) by (simp add: kept_def on_ssn_def)
  then have "ssn_steps cr i ((st_ssn st)\<lparr>session_state := q\<rparr>) (st_ssn st')"
    using kept_steps [of "on_ssn (\<lambda>s. s\<lparr>session_state := q\<rparr>) st" st'] by (simp add: on_ssn_def)
  then show ?thesis
    using assms(2) by (meson converse_rtranclp_into_rtranclp)
qed

lemma kept_fields:
  assumes "kept q st st'"
  shows "st_intf st' = st_intf st"
    "requested i (st_ssn st') = requested i (st_ssn st)" "agreed i (st_ssn st') = agreed i (st_ssn st)"
    "keyed cr i (st_ssn st') = keyed cr i (st_ssn st)" "rakp2_return_code (st_ssn st') = rakp2_return_code (st_ssn st)"
    "requested_auth_alg (st_ssn st') = requested_auth_alg (st_ssn st)"
    "requested_integrity_alg (st_ssn st') = requested_integrity_alg (st_ssn st)"
    "requested_crypt_alg (st_ssn st') = requested_crypt_alg (st_ssn st)"
proof -
  have "core (st_ssn st') = core (st_ssn st)"
    using assms by (simp add: kept_def)
  then obtain n t z where eq: "st_ssn st' = (st_ssn st)\<lparr>out_seq := n, ssn_timeout := t, session_state := z\<rparr>"
    using core_eq by blast
  show "st_intf st' = st_intf st"
    using assms by (simp add: kept_def)
  show "requested i (st_ssn st') = requested i (st_ssn st)" "agreed i (st_ssn st') = agreed i (st_ssn st)"
    "keyed cr i (st_ssn st') = keyed cr i (st_ssn st)" "rakp2_return_code (st_ssn st') = rakp2_return_code (st_ssn st)"
    "requested_auth_alg (st_ssn st') = requested_auth_alg (st_ssn st)"
    "requested_integrity_alg (st_ssn st') = requested_integrity_alg (st_ssn st)"
    "requested_crypt_alg (st_ssn st') = requested_crypt_alg (st_ssn st)"
    by (simp_all add: eq)
qed

text \<open>The session went along the machine, the interface is as before, the buffer has its size.\<close>

definition runs :: "crypto \<Rightarrow> ipmi_intf \<Rightarrow> lp_state \<Rightarrow> lp_state \<Rightarrow> bool" where
  "runs cr i st st' \<longleftrightarrow> ssn_steps cr i (st_ssn st) (st_ssn st') \<and> st_intf st' = st_intf st \<and> (buf st \<longrightarrow> buf st')"

lemma runs_trans [trans]: "runs cr i st st1 \<Longrightarrow> runs cr i st1 st2 \<Longrightarrow> runs cr i st st2"
  by (auto simp: runs_def)

lemma runs_step:
  "ssn_step cr i (st_ssn st) (st_ssn st') \<Longrightarrow> st_intf st' = st_intf st \<Longrightarrow> st_rsp st' = st_rsp st \<Longrightarrow> runs cr i st st'"
  by (simp add: runs_def buf_def r_into_rtranclp)

lemma runs_request:
  assumes "kept {q} st st'" "ssn_step cr i (st_ssn st) ((st_ssn st)\<lparr>session_state := q\<rparr>)"
  shows "runs cr i st st'"
  using kept_one_step [OF assms] assms(1) by (simp add: runs_def kept_def buf_def)

lemma open_session_runs:
  assumes run: "ipmi_lanplus_open_session cr st = Inr (rc, st')" "rc \<noteq> 1"
    and pre: "session_state (st_ssn st) = LANPLUS_STATE_PRESESSION"
  shows "runs cr (st_intf st) st st' \<and>
    (rc = 2 \<or> rc = 0 \<and> session_state (st_ssn st') = LANPLUS_STATE_OPEN_SESSION_RECEIEVED)"
proof -
  let ?i = "st_intf st"
  obtain a g c where alg: "lanplus_get_requested_ciphers (cipher_suite_id (ssn_params ?i)) = Some (a, g, c)"
    using run by (auto simp: ipmi_lanplus_open_session_def Let_def split: option.splits)
  define st2 where "st2 = on_ssn (\<lambda>s. s\<lparr>console_id := 0xA0A2A3A4, requested_auth_alg := a, requested_integrity_alg := g,
      requested_crypt_alg := c\<rparr>) st"
  have st2': "on_ssn (\<lambda>s. s\<lparr>requested_auth_alg := a, requested_integrity_alg := g, requested_crypt_alg := c\<rparr>)
      (on_ssn (\<lambda>s. s\<lparr>console_id := 0xA0A2A3A4\<rparr>) st) = st2"
    by (simp add: st2_def on_ssn_def)
  have st2: "st_intf st2 = ?i" "session_state (st_ssn st2) = LANPLUS_STATE_PRESESSION" "requested ?i (st_ssn st2)"
    "requested_auth_alg (st_ssn st2) = a" "requested_integrity_alg (st_ssn st2) = g" "requested_crypt_alg (st_ssn st2) = c"
    using pre alg by (simp_all add: st2_def on_ssn_def requested_def)
  have r2: "runs cr ?i st st2"
    using ssn_step.prepare [OF pre alg] by (intro runs_step) (simp_all add: st2_def on_ssn_def)
  obtain r st3 where r: "lanplus_request cr (handshake_payload (BOpenRequest (open_session_msg ?i (a, g, c))) 32) st2 = Inr (r, st3)"
    using run alg by (auto simp: ipmi_lanplus_open_session_def Let_def st2' bind_ok_Inr_iff)
  have q: "state_after (BOpenRequest m) = Some LANPLUS_STATE_OPEN_SESSION_SENT" for m
    by (simp add: state_after_def)
  note k = request_steps [OF r q]
  note f = kept_fields [OF k(1)]
  have r3: "runs cr ?i st st3"
    using r2 runs_request [OF k(1) ssn_step.open_sent [OF st2(2,3)]] runs_trans by blast
  show ?thesis
  proof (cases r)
    case None
    then show ?thesis
      using run(1) alg r r3 by (simp add: ipmi_lanplus_open_session_def Let_def st2')
  next
    case (Some rsp)
    obtain m where m: "rs_payload rsp = POpen m" "or_code m = 0" "or_auth_alg m = a" "or_integrity_alg m = g"
      "or_crypt_alg m = c" "st' = on_ssn (accept_open m) st3" "rc = 0"
      using run alg r Some
      by (auto simp: ipmi_lanplus_open_session_def Let_def st2' bind_ok_Inr_iff rakp_return_code_def
          split: rs_payload.splits if_splits)
    have "session_state (st_ssn st3) = LANPLUS_STATE_OPEN_SESSION_SENT"
      using k(2) Some by simp
    then have "ssn_step cr ?i (st_ssn st3) (accept_open m (st_ssn st3))"
      using m f(6-8) st2(4-6) by (intro ssn_step.open_received) simp_all
    then have "runs cr ?i st3 st'"
      using m(6) by (intro runs_step) (simp_all add: on_ssn_def)
    then show ?thesis
      using r3 runs_trans m(6,7) by (auto simp: on_ssn_def accept_open_def)
  qed
qed

lemma rakp2_matches_state [simp]:
  "lanplus_rakp2_hmac_matches cr m i (s\<lparr>session_state := z\<rparr>) mac = lanplus_rakp2_hmac_matches cr m i s mac"
  by (simp add: lanplus_rakp2_hmac_matches_def supported_auth_def rakp2_input_def cong: if_cong)

lemma accept_rakp2_state: "accept_rakp2 m (s\<lparr>session_state := z\<rparr>) = (accept_rakp2 m s)\<lparr>session_state := z\<rparr>"
  by (cases s) (simp add: accept_rakp2_def)

lemma rakp1_runs:
  assumes run: "ipmi_lanplus_rakp1 cr st = Inr (rc, st')" "rc \<noteq> 1"
    and pre: "session_state (st_ssn st) = LANPLUS_STATE_OPEN_SESSION_RECEIEVED"
  shows "runs cr (st_intf st) st st' \<and>
    (rc = 2 \<or> rc = 0 \<and> session_state (st_ssn st') = LANPLUS_STATE_RAKP_2_RECEIVED \<and> rakp2_return_code (st_ssn st') = 0)"
proof -
  let ?i = "st_intf st"
  obtain rnd st1 where rnd: "lanplus_rand st = (Some rnd, st1)"
    using run by (auto simp: ipmi_lanplus_rakp1_def split: prod.splits option.splits)
  then have st1: "st_intf st1 = ?i" "st_ssn st1 = st_ssn st" "st_rsp st1 = st_rsp st"
    by (auto simp: lanplus_rand_def split: if_splits)
  define st2 where "st2 = on_ssn (\<lambda>s. s\<lparr>console_rand := rnd,
      requested_role := privlvl (ssn_params ?i) OR lookupbit (ssn_params ?i)\<rparr>) st1"
  have st2: "st_intf st2 = ?i" "session_state (st_ssn st2) = LANPLUS_STATE_OPEN_SESSION_RECEIEVED"
    using pre st1 by (simp_all add: st2_def on_ssn_def)
  have r2: "runs cr ?i st st2"
    using ssn_step.challenge [OF pre] st1 by (intro runs_step) (simp_all add: st2_def on_ssn_def)
  let ?p = "handshake_payload (BRakp1 (rakp1_msg ?i (st_ssn st2))) (rakp1_length ?i)"
  note run' = run(1) [unfolded ipmi_lanplus_rakp1_def rnd prod.case option.case Let_def, folded st2_def]
  obtain r st3 where r: "lanplus_request cr ?p st2 = Inr (r, st3)"
    using run' run(2) by (auto simp: bind_ok_Inr_iff split: if_splits)
  have q: "state_after (BRakp1 m) = Some LANPLUS_STATE_RAKP_1_SENT" for m
    by (simp add: state_after_def)
  note k = request_steps [OF r q]
  have r3: "runs cr ?i st st3"
    using r2 runs_request [OF k(1) ssn_step.rakp1_sent [OF st2(2)]] runs_trans by blast
  show ?thesis
  proof (cases r)
    case None
    then show ?thesis
      using run' run(2) r r3 by (auto split: if_splits)
  next
    case (Some rsp)
    define st4 where "st4 = on_ssn (\<lambda>s. s\<lparr>session_state := LANPLUS_STATE_RAKP_2_RECEIVED\<rparr>) st3"
    obtain m where m: "rs_payload rsp = PRakp2 m" "r2_code m = 0"
      "lanplus_rakp2_hmac_matches cr True (st_intf st4) (st_ssn (on_ssn (accept_rakp2 m) st4)) (r2_auth_code m) = Inr True"
      "st' = on_ssn (\<lambda>s. s\<lparr>rakp2_return_code := 0\<rparr>) (on_ssn (accept_rakp2 m) st4)" "rc = 0"
      using run' run(2) r Some
      by (auto simp: st4_def bind_ok_Inr_iff rakp_return_code_def on_ssn_def split: rs_payload.splits if_splits)
    have s3: "session_state (st_ssn st3) = LANPLUS_STATE_RAKP_1_SENT" "st_intf st4 = ?i"
      using k(2) Some r3 by (simp_all add: runs_def st4_def on_ssn_def)
    have "lanplus_rakp2_hmac_matches cr True ?i (accept_rakp2 m (st_ssn st3)) (r2_auth_code m) = Inr True"
      using m(3) s3(2) by (simp add: st4_def on_ssn_def accept_rakp2_state)
    from ssn_step.rakp2 [OF s3(1) m(2) this] have "runs cr ?i st3 st'"
      using m(4) by (intro runs_step) (simp_all add: st4_def on_ssn_def accept_rakp2_state)
    then show ?thesis
      using r3 runs_trans m(4,5) by (auto simp: on_ssn_def st4_def accept_rakp2_def)
  qed
qed

text \<open>After RAKP 4 the interface differs in the abort flag only.\<close>

lemma rakp3_runs:
  assumes run: "ipmi_lanplus_rakp3 cr st = Inr (rc, st')" "rc \<noteq> 1" and code: "rakp2_return_code (st_ssn st) = 0"
  shows "ssn_steps cr (st_intf st) (st_ssn st) (st_ssn st') \<and> (buf st \<longrightarrow> buf st') \<and>
    (rc = 2 \<and> st_intf st' = st_intf st \<or>
     rc = 0 \<and> st_intf st' = (st_intf st)\<lparr>intf_abort := False\<rparr> \<and> session_state (st_ssn st') = LANPLUS_STATE_ACTIVE)"
proof -
  let ?i = "st_intf st"
  have pre: "session_state (st_ssn st) = LANPLUS_STATE_RAKP_2_RECEIVED"
    using run(1) by (simp add: ipmi_lanplus_rakp3_def split: if_splits)
  obtain mac s r st1 where s: "session_keys cr ?i (st_ssn st) = Inr (True, s)"
    and r: "lanplus_request cr (handshake_payload (BRakp3 (rakp3_msg s mac)) (8 + length mac)) (st\<lparr>st_ssn := s\<rparr>) = Inr (r, st1)"
    and a: "rakp3_answer cr r st1 = Inr (rc, st')"
    using run code pre by (auto simp: ipmi_lanplus_rakp3_def bind_ok_Inr_iff split: if_splits)
  define st2 where "st2 = st\<lparr>st_ssn := s\<rparr>"
  have r1: "runs cr ?i st st2"
    using ssn_step.keys [OF pre code s] by (intro runs_step) (simp_all add: st2_def)
  have s2: "session_state (st_ssn st2) = LANPLUS_STATE_RAKP_2_RECEIVED" "keyed cr ?i (st_ssn st2)"
    "rakp2_return_code (st_ssn st2) = 0"
    using keyless_fields [OF session_keys_keyless [OF s]] pre code session_keys_keyed [OF s] by (simp_all add: st2_def)
  have q: "state_after (BRakp3 m) = Some LANPLUS_STATE_RAKP_3_SENT" for m
    by (simp add: state_after_def)
  note k = request_steps [OF r [folded st2_def] q]
  have r2: "runs cr ?i st st1"
    using r1 runs_request [OF k(1) ssn_step.rakp3_sent [OF s2(1,2)]] runs_trans by blast
  have c1: "rakp2_return_code (st_ssn st1) = 0"
    using kept_fields(5) [OF k(1)] s2(3) by simp
  show ?thesis
  proof (cases r)
    case None
    then show ?thesis
      using a c1 r2 by (simp add: rakp3_answer_def runs_def)
  next
    case (Some rsp)
    obtain m :: rakp4_part where m: "rc = 0"
      "lanplus_rakp4_hmac_matches cr True (st_intf st1) (st_ssn st1) (r4_check_value m) = Inr True"
      "st' = on_intf (\<lambda>i. i\<lparr>intf_abort := False\<rparr>) (on_ssn (\<lambda>s. s\<lparr>session_state := LANPLUS_STATE_ACTIVE\<rparr>) st1)"
      using a c1 Some run(2)
      by (auto simp: rakp3_answer_def bind_ok_Inr_iff split: rs_payload.splits if_splits)
    have s3: "session_state (st_ssn st1) = LANPLUS_STATE_RAKP_3_SENT" "st_intf st1 = ?i"
      using k(2) Some r2 by (simp_all add: runs_def)
    have "ssn_step cr ?i (st_ssn st1) (st_ssn st')"
      using ssn_step.active [OF s3(1)] m s3(2) by (simp add: on_ssn_def on_intf_def)
    then show ?thesis
      using r2 m s3(2) by (auto simp: runs_def buf_def on_ssn_def on_intf_def intro: rtranclp.rtrancl_into_rtrancl)
  qed
qed

text \<open>A handshake that does not fail went along the machine from its start.\<close>

lemma handshake_runs:
  assumes "handshake cr k st = Inr (True, st')"
  shows "ssn_steps cr (st_intf st) (st_ssn st) (st_ssn st') \<and> (buf st \<longrightarrow> buf st') \<and>
    (st_intf st' = st_intf st \<or> st_intf st' = (st_intf st)\<lparr>intf_abort := False\<rparr>) \<and>
    (0 < k \<longrightarrow> ssn_steps cr (st_intf st) ((st_ssn st)\<lparr>session_state := LANPLUS_STATE_PRESESSION\<rparr>) (st_ssn st'))"
  using assms
proof (induction k arbitrary: st)
  case 0
  then show ?case
    by (simp add: handshake.simps)
next
  case (Suc k)
  let ?i = "st_intf st"
  define st0 where "st0 = on_ssn (\<lambda>s. s\<lparr>session_state := LANPLUS_STATE_PRESESSION\<rparr>) st"
  have st0: "st_intf st0 = ?i" "session_state (st_ssn st0) = LANPLUS_STATE_PRESESSION"
    "ssn_step cr ?i (st_ssn st) (st_ssn st0)" "st_ssn st0 = (st_ssn st)\<lparr>session_state := LANPLUS_STATE_PRESESSION\<rparr>"
    using ssn_step.restart by (simp_all add: st0_def on_ssn_def)
  note again = Suc.IH
  have goal: ?case if "ssn_steps cr ?i (st_ssn st0) (st_ssn st')" "buf st \<longrightarrow> buf st'"
    "st_intf st' = ?i \<or> st_intf st' = ?i\<lparr>intf_abort := False\<rparr>"
    using that st0(3,4) by (auto intro: converse_rtranclp_into_rtranclp)
  note run = Suc.prems [unfolded handshake.simps, folded st0_def]
  obtain rc1 st1 where o: "ipmi_lanplus_open_session cr st0 = Inr (rc1, st1)"
    using run by (auto simp: bind_ok_Inr_iff)
  have "rc1 \<noteq> 1"
    using run o by auto
  note o' = open_session_runs [OF o this st0(2), unfolded st0(1)]
  have i1: "st_intf st1 = ?i" "ssn_steps cr ?i (st_ssn st0) (st_ssn st1)" "buf st \<longrightarrow> buf st1"
    using o' st0(1) by (simp_all add: runs_def buf_def st0_def on_ssn_def)
  show ?case
  proof (cases "rc1 = 2")
    case True
    then have "handshake cr k st1 = Inr (True, st')"
      using run o by simp
    from again [OF this] show ?thesis
      using i1 by (intro goal) auto
  next
    case False
    then have o2: "rc1 = 0" "session_state (st_ssn st1) = LANPLUS_STATE_OPEN_SESSION_RECEIEVED"
      using o' by simp_all
    obtain rc2 st2 where p: "ipmi_lanplus_rakp1 cr st1 = Inr (rc2, st2)"
      using run o o2(1) by (auto simp: bind_ok_Inr_iff)
    have "rc2 \<noteq> 1"
      using run o o2(1) p by auto
    note p' = rakp1_runs [OF p this o2(2), unfolded i1(1)]
    have i2: "st_intf st2 = ?i" "ssn_steps cr ?i (st_ssn st0) (st_ssn st2)" "buf st \<longrightarrow> buf st2"
      using p' i1 by (auto simp: runs_def)
    show ?thesis
    proof (cases "rc2 = 2")
      case True
      then have "handshake cr k st2 = Inr (True, st')"
        using run o o2(1) p by simp
      from again [OF this] show ?thesis
        using i2 by (intro goal) auto
    next
      case False
      then have p2: "rc2 = 0" "rakp2_return_code (st_ssn st2) = 0"
        using p' by simp_all
      obtain rc3 st3 where t: "ipmi_lanplus_rakp3 cr st2 = Inr (rc3, st3)"
        using run o o2(1) p p2(1) by (auto simp: bind_ok_Inr_iff)
      have "rc3 \<noteq> 1"
        using run o o2(1) p p2(1) t by auto
      note t' = rakp3_runs [OF t this p2(2), unfolded i2(1)]
      then have i3: "ssn_steps cr ?i (st_ssn st0) (st_ssn st3)" "buf st \<longrightarrow> buf st3"
        using i2(2,3) by auto
      show ?thesis
      proof (cases "rc3 = 0")
        case True
        then have "st' = st3"
          using run o o2(1) p p2(1) t by simp
        then show ?thesis
          using t' i3 by (intro goal) auto
      next
        case False
        then have "handshake cr k st3 = Inr (True, st')" "st_intf st3 = ?i"
          using run o o2(1) p p2(1) t t' \<open>rc3 \<noteq> 1\<close> by auto
        then show ?thesis
          using again i3 by (intro goal) (metis rtranclp_trans)+
      qed
    qed
  qed
qed

end
