(* ===== verification/LanplusSessionProps.thy ===== *)
theory LanplusSessionProps
  imports LanplusHandshake LanplusPollProps
begin

text \<open>
  Properties of the RMCP+ session: an opened interface with an active session talks to a BMC
  that proved the knowledge of the keys, the handshake follows the protocol machine, the choice
  of the cipher suite and of the payload sizes, and what happens when the device stays silent.
\<close>

section \<open>The transport keeps its session\<close>

definition session_kept :: "lp_state \<Rightarrow> lp_state \<Rightarrow> bool" where
  "session_kept st0 st \<longleftrightarrow> buf st \<and> core (st_ssn st) = core (st_ssn st0) \<and>
     session_state (st_ssn st) = session_state (st_ssn st0) \<and>
     ssn_params (st_intf st) = ssn_params (st_intf st0) \<and> oem (st_intf st) = oem (st_intf st0)"

lemma session_kept_refl: "buf st \<Longrightarrow> session_kept st st"
  by (simp add: session_kept_def)

lemma session_kept_kept: "kept {} st st' \<Longrightarrow> session_kept st0 st \<Longrightarrow> session_kept st0 st'"
  by (simp add: session_kept_def kept_def buf_def)

lemma session_kept_bridge [simp]: "session_kept st0 (st\<lparr>st_bridge := b\<rparr>) = session_kept st0 st"
  by (simp add: session_kept_def buf_def)

lemma command_kept:
  assumes "lanplus_command cr rq st = Inr (r, st')"
  shows "kept {} st st'" "r = None \<or> r = Some (st_rsp st')"
proof -
  obtain got p where s: "send_opened cr (ipmi_lanplus_recv_sol cr) \<lparr>pl_length = 0, pl_body = BIpmi rq 0\<rparr> st = Inr (got, p, st')"
    "r = (if got then Some (st_rsp st') else None)"
    using assms by (auto simp: lanplus_command_def ipmi_lanplus_send_ipmi_cmd_def bind_ok_Inr_iff)
  show "kept {} st st'"
    using send_opened_kept [OF s(1)] by (simp add: no_sol_def states_after_def state_after_def)
  show "r = None \<or> r = Some (st_rsp st')"
    using s(2) by simp
qed

interpretation lpc: transport "lanplus_command cr" "session_kept st0"
proof
  fix st st' rq r
  assume "session_kept st0 st" "lanplus_command cr rq st = Inr (r, st')"
  then show "session_kept st0 st'"
    using command_kept(1) session_kept_kept by blast
next
  fix st st' rq rsp
  assume h: "session_kept st0 st" "lanplus_command cr rq st = Inr (Some rsp, st')"
  then have "session_kept st0 st'" "rsp = st_rsp st'"
    using command_kept(1) session_kept_kept command_kept(2) [OF h(2)] by blast+
  then show "IPMI_BUF_SIZE \<le> length (rs_data rsp)"
    by (simp add: session_kept_def buf_def IPMI_BUF_SIZE_def)
qed

lemma capabilities_kept:
  assumes "ipmi_get_auth_capabilities_cmd cr st = Inr (r, st')" "session_kept st0 st"
  shows "session_kept st0 st'"
proof -
  let ?p = "privlvl (ssn_params (st_intf st))"
  obtain q st1 where 1: "lanplus_command cr (auth_cap_rq (0x0E OR 0x80) ?p) (st\<lparr>st_bridge := False\<rparr>) = Inr (q, st1)"
    using assms(1) by (auto simp: ipmi_get_auth_capabilities_cmd_def Let_def bind_ok_Inr_iff)
  have k1: "session_kept st0 st1"
    using lpc.send_inv [OF _ 1] assms(2) by simp
  let ?again = "lanplus_command cr (auth_cap_rq ((0x0E OR 0x80) AND 0x7F) ?p) st1"
  consider "st' = st1\<lparr>st_bridge := st_bridge st\<rparr>"
    | q' st2 where "?again = Inr (q', st2)" "st' = st2 \<or> st' = st2\<lparr>st_bridge := st_bridge st\<rparr>"
    using assms(1) 1
    by (auto simp: ipmi_get_auth_capabilities_cmd_def Let_def bind_ok_Inr_iff split: option.splits if_splits)
  then show ?thesis
    using k1 lpc.send_inv by cases auto
qed

lemma privlvl_kept:
  assumes "ipmi_set_session_privlvl_cmd cr st = Inr (rc, st')" "session_kept st0 st"
  shows "session_kept st0 st'"
  using assms lpc.send_inv [of st0 "st\<lparr>st_bridge := False\<rparr>"]
  by (auto simp: ipmi_set_session_privlvl_cmd_def Let_def bind_ok_Inr_iff split: if_splits)

lemma sizes_kept:
  "session_kept st0 st \<Longrightarrow> session_kept st0 (on_intf (\<lambda>i. ipmi_intf_set_max_request_data_size (Some ipmi_lanp_set_max_rq_data_size) i n) st)"
  "session_kept st0 st \<Longrightarrow> session_kept st0 (on_intf (\<lambda>i. ipmi_intf_set_max_response_data_size (Some ipmi_lanp_set_max_rp_data_size) i n) st)"
  by (simp_all add: session_kept_def buf_def on_intf_def ipmi_intf_set_max_request_data_size_def
      ipmi_lanp_set_max_rq_data_size_def ipmi_intf_set_max_response_data_size_def ipmi_lanp_set_max_rp_data_size_def)

lemma after_handshake_kept:
  assumes "after_handshake cr sel_iana st = Inr (ok, st')" "buf st"
  shows "session_kept st st'"
proof -
  define st1 where "st1 = on_intf (\<lambda>i. i\<lparr>intf_abort := False\<rparr>) st"
  have k1: "session_kept st st1"
    using assms(2) by (simp add: session_kept_def buf_def st1_def on_intf_def)
  note run = assms(1) [unfolded after_handshake_def Let_def, folded st1_def]
  show ?thesis
  proof (cases "ipmi_oem_active (st_intf st) ''i82571spt''")
    case True
    then show ?thesis
      using run k1 by (auto simp: session_kept_def buf_def)
  next
    case False
    obtain rc st2 where 2: "ipmi_set_session_privlvl_cmd cr st1 = Inr (rc, st2)"
      using run False by (auto simp: bind_ok_Inr_iff)
    have k2: "session_kept st st2"
      by (rule privlvl_kept [OF 2 k1])
    show ?thesis
    proof (cases "rc < 0")
      case True
      then show ?thesis
        using run False 2 k2 by simp
    next
      case nonneg: False
      obtain err st3 where 3: "hpm2_detect_max_payload_size (lanplus_command cr)
          (\<lambda>n. on_intf (\<lambda>i. ipmi_intf_set_max_request_data_size (Some ipmi_lanp_set_max_rq_data_size) i n))
          (\<lambda>n. on_intf (\<lambda>i. ipmi_intf_set_max_response_data_size (Some ipmi_lanp_set_max_rp_data_size) i n)) st2 = Inr (err, st3)"
        using run False 2 nonneg by (auto simp: bind_ok_Inr_iff)
      have "session_kept st st3"
        by (rule lpc.detect_inv [OF k2 3 sizes_kept])
      then have k3: "session_kept st (st3\<lparr>st_bridge := True\<rparr>)"
        by simp
      obtain m st4 where 4: "ipmi_get_oem (lanplus_command cr) sel_iana (st_intf (st3\<lparr>st_bridge := True\<rparr>)) (st3\<lparr>st_bridge := True\<rparr>) = Inr (m, st4)"
        and st': "st' = on_intf (\<lambda>i. i\<lparr>manufacturer_id := m\<rparr>) st4"
        using run False 2 nonneg 3 by (auto simp: bind_ok_Inr_iff)
      show ?thesis
        using lpc.oem_inv [OF k3 4] by (simp add: st' session_kept_def buf_def on_intf_def)
    qed
  qed
qed

section \<open>An active session is authenticated\<close>

definition authenticated :: "crypto \<Rightarrow> ipmi_intf \<Rightarrow> ipmi_session \<Rightarrow> bool" where
  "authenticated cr i s \<longleftrightarrow> agreed i s \<and> rakp2_proved cr i s \<and> rakp4_proved cr i s \<and> keyed cr i s"

lemma authenticated_intf:
  assumes "ssn_params i' = ssn_params i" "oem i' = oem i"
  shows "authenticated cr i' s = authenticated cr i s"
proof -
  have o: "ipmi_oem_active i' x = ipmi_oem_active i x" for x
    using assms(2) by (simp add: ipmi_oem_active_def)
  have u: "user_field i' = user_field i"
    using assms(1) by (simp add: user_field_def)
  have "agreed i' s = agreed i s"
    using assms(1) by (simp add: agreed_def)
  moreover have "rakp2_proved cr i' s = rakp2_proved cr i s"
    unfolding rakp2_proved_def lanplus_rakp2_hmac_matches_def rakp2_input_def o u ..
  moreover have "rakp4_proved cr i' s = rakp4_proved cr i s"
    unfolding rakp4_proved_def lanplus_rakp4_hmac_matches_def o ..
  moreover have "keyed cr i' s = keyed cr i s"
    unfolding keyed_def sik_key_def sik_input_def o u assms(1) ..
  ultimately show ?thesis
    by (simp add: authenticated_def)
qed

lemma authenticated_core:
  assumes "core s' = core s"
  shows "authenticated cr i s' = authenticated cr i s"
proof -
  obtain n t z where "s' = s\<lparr>out_seq := n, ssn_timeout := t, session_state := z\<rparr>"
    using core_eq [OF assms] by blast
  then show ?thesis
    by (simp add: authenticated_def)
qed

lemma handshake_authenticated:
  assumes "handshake cr (Suc k) st = Inr (True, st')" "session_state (st_ssn st') = LANPLUS_STATE_ACTIVE"
  shows "authenticated cr (st_intf st') (st_ssn st')"
proof -
  let ?s = "(st_ssn st)\<lparr>session_state := LANPLUS_STATE_PRESESSION\<rparr>"
  have r: "ssn_steps cr (st_intf st) ?s (st_ssn st')"
    "ssn_params (st_intf st') = ssn_params (st_intf st)" "oem (st_intf st') = oem (st_intf st)"
    using handshake_runs [OF assms(1)] by auto
  have "ssn_ok cr (st_intf st) (st_ssn st')"
    by (rule ssn_steps_ok [OF r(1)]) (simp add: ssn_ok_def)
  then show ?thesis
    using assms(2) authenticated_intf [OF r(2,3)] by (simp add: ssn_ok_def authenticated_def)
qed

lemma choose_suite_buf:
  assumes "choose_suite cr st = Inr st'" "buf st"
  shows "buf st'"
proof (cases "cipher_suite_id (ssn_params (st_intf st)) = 0xff")
  case True
  then obtain r st1 c where "ipmi_get_channel_cipher_suites (lanplus_command cr) ''ipmi'' 0x0E MAX_CIPHER_SUITE_COUNT st = Inr (r, st1)"
    "st' = on_intf (\<lambda>i. ipmi_intf_session_set_cipher_suite_id i c) st1"
    using assms(1) by (auto simp: choose_suite_def ipmi_find_best_cipher_suite_def bind_ok_Inr_iff)
  then show ?thesis
    using lpc.channel_cipher_suites_inv [OF session_kept_refl [OF assms(2)]]
    by (simp add: session_kept_def buf_def on_intf_def)
qed (use assms in \<open>simp add: choose_suite_def\<close>)

lemma establish_authenticated:
  assumes "establish cr sel_iana st = Inr (True, st')" "session_state (st_ssn st') = LANPLUS_STATE_ACTIVE" "buf st"
  shows "authenticated cr (st_intf st') (st_ssn st')"
proof -
  obtain st1 st2 st3 where 1: "rmcpplus_supported cr st = Inr (True, st1)" "choose_suite cr st1 = Inr st2"
    "handshake cr 4 st2 = Inr (True, st3)" "after_handshake cr sel_iana st3 = Inr (True, st')"
    using assms(1) by (auto simp: establish_def bind_ok_Inr_iff split: if_splits)
  have "buf st1"
    using 1(1) capabilities_kept [OF _ session_kept_refl [OF assms(3)]] assms(3)
    by (auto simp: rmcpplus_supported_def bind_ok_Inr_iff session_kept_def split: if_splits)
  then have "buf st2"
    using choose_suite_buf [OF 1(2)] by simp
  then have "buf st3"
    using handshake_runs [OF 1(3)] by simp
  then have k: "session_kept st3 st'"
    by (rule after_handshake_kept [OF 1(4)])
  then have "authenticated cr (st_intf st3) (st_ssn st3)"
    using handshake_authenticated [of cr 3 st2 st3] 1(3) assms(2) by (simp add: session_kept_def eval_nat_numeral)
  then show ?thesis
    using k authenticated_core [of "st_ssn st'" "st_ssn st3"] authenticated_intf [of "st_intf st'" "st_intf st3"]
    by (simp add: session_kept_def)
qed

end
