(* ===== verification/LanplusHonest.thy ===== *)
theory LanplusHonest
  imports LanplusSessionProps
begin

text \<open>
  The handshake with a BMC that follows the protocol and holds the same keys succeeds.
\<close>

section \<open>Receiving a handshake message\<close>

definition hs_packet :: "byte \<Rightarrow> bytes \<Rightarrow> bytes" where
  "hs_packet t m = [6, 0, 0xFF, 7, 6, t] @ le32 0 @ le32 0 @ le16 (of_nat (length m)) @ m"

lemma read_hs_packet:
  assumes "rs_data r = hs_packet t m @ more_bytes" "t \<in> {0x11, 0x13, 0x15}"
  shows "read_session_data r 4 = (r\<lparr>rs_authtype := 6, rs_bEncrypted := False, rs_bAuthenticated := False,
    rs_payloadtype := t, rs_id := 0, rs_seq := 0, rs_msglen := of_nat (length m)\<rparr>, 16)"
proof -
  have "drop 6 (rs_data r) = le32 0 @ le32 0 @ le16 (of_nat (length m)) @ m @ more_bytes"
    "drop 10 (rs_data r) = le32 0 @ le16 (of_nat (length m)) @ m @ more_bytes"
    "drop 14 (rs_data r) = le16 (of_nat (length m)) @ m @ more_bytes" "rs_data r ! 4 = 6" "rs_data r ! 5 = t"
    by (simp_all add: assms hs_packet_def)
  then show ?thesis
    using assms(2)
    by (auto simp: read_session_data_def read_session_data_v2x_def IPMI_SESSION_AUTHTYPE_RMCP_PLUS_def Let_def)
qed

lemma hs_poll:
  assumes "st_net st = NetPkt (hs_packet t m) # rest" "length m < 900" "t \<in> {0x11, 0x13, 0x15}"
    and "session_state (st_ssn st) \<noteq> LANPLUS_STATE_ACTIVE" "length (rs_data (st_rsp st)) = 1024"
  shows "\<exists>r tail. ipmi_lan_poll_single cr st = poll_payload (st\<lparr>st_net := rest, st_rsp := r\<rparr>) 16 (length m)
    \<and> rs_payloadtype r = t \<and> drop 16 (rs_data r) = m @ tail \<and> length (rs_data r) = 1024
    \<and> rs_ccode r = rs_ccode (st_rsp st)"
proof -
  let ?p = "hs_packet t m"
  have len: "length ?p = 16 + length m" and p3: "?p ! 3 = RMCP_CLASS_IPMI"
    by (simp_all add: hs_packet_def RMCP_CLASS_IPMI_def)
  define tail where "tail = 0 # drop (Suc (length ?p)) (rs_data (st_rsp st))"
  define r0 where "r0 = (st_rsp st)\<lparr>rs_data := ?p @ tail, rs_data_len := int (length ?p)\<rparr>"
  define r where "r = r0\<lparr>rs_authtype := 6, rs_bEncrypted := False, rs_bAuthenticated := False,
    rs_payloadtype := t, rs_id := 0, rs_seq := 0, rs_msglen := of_nat (length m)\<rparr>"
  have rd: "read_session_data r0 4 = (r, 16)" "\<not> rs_bEncrypted r" "\<not> rs_bAuthenticated r" "rs_msglen r = of_nat (length m)"
    using read_hs_packet [of r0 t m tail] assms(3) by (simp_all add: r_def r0_def)
  have n: "unat (of_nat (length m) :: u16) = length m"
    using assms(2) by (simp add: unat_of_nat)
  have "ipmi_lan_poll_single cr st = poll_session cr (st\<lparr>st_net := rest, st_rsp := r0\<rparr>)"
    using assms(2,5) len p3 by (subst poll_single_packet [OF assms(1)]) (auto simp: r0_def tail_def)
  also have "\<dots> = poll_payload (st\<lparr>st_net := rest, st_rsp := r\<rparr>) 16 (length m)"
    using assms(4) n rd
    by (simp add: poll_session_def lanplus_has_valid_auth_code_def open_payload_def Let_def)
  finally have "ipmi_lan_poll_single cr st = poll_payload (st\<lparr>st_net := rest, st_rsp := r\<rparr>) 16 (length m)" .
  moreover have "drop 16 (rs_data r) = m @ tail" "length (rs_data r) = 1024" "rs_ccode r = rs_ccode (st_rsp st)"
    "rs_payloadtype r = t"
    using assms(2,5) len by (simp_all add: r_def r0_def tail_def hs_packet_def)
  ultimately show ?thesis
    by blast
qed

text \<open>One answer of the handshake reaches the code as the given payload.\<close>

definition answers :: "rs_payload \<Rightarrow> net_event list \<Rightarrow> lp_state \<Rightarrow> crypto \<Rightarrow> bool" where
  "answers pay rest st cr \<longleftrightarrow> (\<exists>r. poll_answer cr st = Inr (True, st\<lparr>st_net := rest, st_rsp := r\<rparr>) \<and>
     rs_payload r = pay \<and> length (rs_data r) = 1024 \<and> rs_ccode r = rs_ccode (st_rsp st))"

lemma answers_payload:
  assumes net: "st_net st = NetPkt (hs_packet t m) # rest" "length m < 900" "t \<in> {0x11, 0x13, 0x15}"
    and st: "session_state (st_ssn st) \<noteq> LANPLUS_STATE_ACTIVE" "length (rs_data (st_rsp st)) = 1024" "rs_ccode (st_rsp st) \<noteq> 0xCF"
    and pay: "\<And>r tail st1. drop 16 (rs_data r) = m @ tail \<Longrightarrow> rs_payloadtype r = t \<Longrightarrow> st_rsp st1 = r \<Longrightarrow>
        st_ssn st1 = st_ssn st \<Longrightarrow>
        \<exists>r'. poll_payload st1 16 (length m) = Inr (PRsp, st1\<lparr>st_rsp := r'\<rparr>) \<and> rs_payload r' = pay \<and> rs_data r' = rs_data r
          \<and> rs_ccode r' = rs_ccode r"
  shows "answers pay rest st cr"
proof -
  obtain r tail where r: "ipmi_lan_poll_single cr st = poll_payload (st\<lparr>st_net := rest, st_rsp := r\<rparr>) 16 (length m)"
    "rs_payloadtype r = t" "drop 16 (rs_data r) = m @ tail" "length (rs_data r) = 1024" "rs_ccode r = rs_ccode (st_rsp st)"
    using hs_poll [OF net st(1,2)] by blast
  obtain r' where r': "poll_payload (st\<lparr>st_net := rest, st_rsp := r\<rparr>) 16 (length m) =
      Inr (PRsp, st\<lparr>st_net := rest, st_rsp := r'\<rparr>)" "rs_payload r' = pay" "rs_data r' = rs_data r" "rs_ccode r' = rs_ccode r"
    using pay [OF r(3,2), of "st\<lparr>st_net := rest, st_rsp := r\<rparr>"] by auto
  have "ipmi_lan_poll_recv cr st = Inr (PRsp, st\<lparr>st_net := rest, st_rsp := r'\<rparr>)"
    using r(1) r'(1) by (subst ipmi_lan_poll_recv.simps) simp
  then have "poll_answer cr st = Inr (True, st\<lparr>st_net := rest, st_rsp := r'\<rparr>)"
    using st(3) r(5) r'(4) by (subst poll_answer.simps) simp
  then show ?thesis
    using r r' by (auto simp: answers_def)
qed

definition open_answer :: "byte \<Rightarrow> u32 \<Rightarrow> byte \<Rightarrow> byte \<Rightarrow> byte \<Rightarrow> bytes" where
  "open_answer priv bmc a g c = [0, 0, priv, 0] @ le32 0xA0A2A3A4 @ le32 bmc @
     [0, 0, 0, 8, a, 0, 0, 0] @ [1, 0, 0, 8, g, 0, 0, 0] @ [2, 0, 0, 8, c, 0, 0, 0]"

definition rakp2_answer :: "bytes \<Rightarrow> bytes \<Rightarrow> bytes \<Rightarrow> bytes" where
  "rakp2_answer brand guid mac = [0, 0, 0, 0] @ le32 0xA0A2A3A4 @ brand @ guid @ mac"

definition rakp4_answer :: "bytes \<Rightarrow> bytes" where
  "rakp4_answer chk = [0, 0, 0, 0] @ le32 0xA0A2A3A4 @ chk"

definition opened_part :: "byte \<Rightarrow> u32 \<Rightarrow> byte \<Rightarrow> byte \<Rightarrow> byte \<Rightarrow> open_response_part" where
  "opened_part priv bmc a g c = \<lparr>or_tag = 0, or_code = 0, or_max_priv_level = priv, or_console_id = 0xA0A2A3A4,
     or_bmc_id = bmc, or_auth_alg = a, or_integrity_alg = g, or_crypt_alg = c\<rparr>"

lemma drop_nth: "drop n d = xs \<Longrightarrow> i < length xs \<Longrightarrow> d ! (n + i) = xs ! i"
  by (metis drop_eq_Nil length_greater_0_conv linorder_le_cases not_less nth_drop length_drop less_diff_conv add.commute list.size(3) less_nat_zero_code)

lemma open_answered:
  assumes "st_net st = NetPkt (hs_packet 0x11 (open_answer priv bmc a g c)) # rest"
    and "session_state (st_ssn st) = LANPLUS_STATE_OPEN_SESSION_SENT" "length (rs_data (st_rsp st)) = 1024" "rs_ccode (st_rsp st) \<noteq> 0xCF"
  shows "answers (POpen (opened_part priv bmc a g c)) rest st cr"
proof (rule answers_payload [OF assms(1)])
  fix r :: ipmi_rs and tail :: bytes and st1 :: lp_state
  assume r: "drop 16 (rs_data r) = open_answer priv bmc a g c @ tail" "rs_payloadtype r = 0x11" "st_rsp st1 = r" "st_ssn st1 = st_ssn st"
  note d = drop_nth [OF r(1)]
  have i: "rs_data r ! 16 = 0" "rs_data r ! 17 = 0" "rs_data r ! 18 = priv" "rs_data r ! 32 = a" "rs_data r ! 40 = g" "rs_data r ! 48 = c"
    using d [of 0] d [of 1] d [of 2] d [of 16] d [of 24] d [of 32] by (simp_all add: open_answer_def nth_append)
  have "drop 20 (rs_data r) = drop 4 (open_answer priv bmc a g c @ tail)" "drop 24 (rs_data r) = drop 8 (open_answer priv bmc a g c @ tail)"
    by (simp_all add: r(1) [symmetric])
  then have "of_le32 (drop 20 (rs_data r)) = 0xA0A2A3A4" "of_le32 (drop 24 (rs_data r)) = bmc"
    by (simp_all add: open_answer_def)
  then have "read_open_session_response r 16 = r\<lparr>rs_payload := POpen (opened_part priv bmc a g c)\<rparr>"
    using i by (simp add: read_open_session_response_def opened_part_def Let_def)
  then have "poll_payload st1 16 (length (open_answer priv bmc a g c)) = Inr (PRsp, st1\<lparr>st_rsp := r\<lparr>rs_payload := POpen (opened_part priv bmc a g c)\<rparr>\<rparr>)"
    using r assms(2) by (simp add: poll_payload_def payload_types)
  then show "\<exists>r'. poll_payload st1 16 (length (open_answer priv bmc a g c)) = Inr (PRsp, st1\<lparr>st_rsp := r'\<rparr>) \<and>
      rs_payload r' = POpen (opened_part priv bmc a g c) \<and> rs_data r' = rs_data r \<and> rs_ccode r' = rs_ccode r"
    by (intro exI [of _ "r\<lparr>rs_payload := POpen (opened_part priv bmc a g c)\<rparr>"]) simp
qed (use assms in \<open>simp_all add: open_answer_def\<close>)

definition rakp2_got :: "bytes \<Rightarrow> bytes \<Rightarrow> bytes \<Rightarrow> rakp2_part" where
  "rakp2_got brand guid mac = \<lparr>r2_tag = 0, r2_code = 0, r2_console_id = 0xA0A2A3A4, r2_bmc_rand = brand,
     r2_bmc_guid = guid, r2_auth_code = mac\<rparr>"

definition rakp4_got :: "bytes \<Rightarrow> rakp4_part" where
  "rakp4_got chk = \<lparr>r4_tag = 0, r4_code = 0, r4_console_id = 0xA0A2A3A4, r4_check_value = chk\<rparr>"

lemma region_at: "drop n d = xs @ ys \<Longrightarrow> region d n (length xs) = xs"
  by (simp add: region_def)

lemma drop_more: "drop n d = xs @ ys \<Longrightarrow> length xs = k \<Longrightarrow> drop (n + k) d = ys"
  by (metis add.commute append_eq_conv_conj drop_drop)

lemma rakp2_answered:
  assumes "st_net st = NetPkt (hs_packet 0x13 (rakp2_answer brand guid mac)) # rest"
    and "session_state (st_ssn st) = LANPLUS_STATE_RAKP_1_SENT" "length (rs_data (st_rsp st)) = 1024" "rs_ccode (st_rsp st) \<noteq> 0xCF"
    and n: "rakp_code_length IPMI_SHA_DIGEST_LENGTH IPMI_MD5_DIGEST_LENGTH IPMI_SHA256_DIGEST_LENGTH (auth_alg (st_ssn st)) = Inr (length mac)"
    and len: "length brand = 16" "length guid = 16" "length mac \<le> 32"
  shows "answers (PRakp2 (rakp2_got brand guid mac)) rest st cr"
proof (rule answers_payload [OF assms(1)])
  fix r :: ipmi_rs and tail :: bytes and st1 :: lp_state
  assume r: "drop 16 (rs_data r) = rakp2_answer brand guid mac @ tail" "rs_payloadtype r = 0x13" "st_rsp st1 = r" "st_ssn st1 = st_ssn st"
  have i: "rs_data r ! 16 = 0" "rs_data r ! 17 = 0"
    using drop_nth [OF r(1), of 0] drop_nth [OF r(1), of 1] by (simp_all add: rakp2_answer_def)
  have d: "drop 20 (rs_data r) = le32 0xA0A2A3A4 @ brand @ guid @ mac @ tail"
    using drop_more [of 16 "rs_data r" "[0, 0, 0, 0]" _ 4] r(1) by (simp add: rakp2_answer_def)
  then have d24: "drop 24 (rs_data r) = brand @ guid @ mac @ tail"
    using drop_more [of 20 "rs_data r" "le32 0xA0A2A3A4" _ 4] by simp
  then have d40: "drop 40 (rs_data r) = guid @ mac @ tail"
    using drop_more [of 24 "rs_data r" brand _ 16] len by simp
  then have d56: "drop 56 (rs_data r) = mac @ tail"
    using drop_more [of 40 "rs_data r" guid _ 16] len by simp
  have "of_le32 (drop 20 (rs_data r)) = 0xA0A2A3A4" "region (rs_data r) 24 16 = brand" "region (rs_data r) 40 16 = guid"
    "region (rs_data r) 56 (length mac) = mac"
    using d region_at [OF d24] region_at [OF d40] region_at [OF d56] len by simp_all
  then have "read_rakp2_message r 16 (auth_alg (st_ssn st)) = Inr (r\<lparr>rs_payload := PRakp2 (rakp2_got brand guid mac)\<rparr>)"
    using i n by (simp add: read_rakp2_message_def rakp2_got_def Let_def)
  then have "poll_payload st1 16 (length (rakp2_answer brand guid mac)) = Inr (PRsp, st1\<lparr>st_rsp := r\<lparr>rs_payload := PRakp2 (rakp2_got brand guid mac)\<rparr>\<rparr>)"
    using r assms(2) by (simp add: poll_payload_def payload_types)
  then show "\<exists>r'. poll_payload st1 16 (length (rakp2_answer brand guid mac)) = Inr (PRsp, st1\<lparr>st_rsp := r'\<rparr>) \<and>
      rs_payload r' = PRakp2 (rakp2_got brand guid mac) \<and> rs_data r' = rs_data r \<and> rs_ccode r' = rs_ccode r"
    by (intro exI [of _ "r\<lparr>rs_payload := PRakp2 (rakp2_got brand guid mac)\<rparr>"]) simp
qed (use assms in \<open>simp_all add: rakp2_answer_def\<close>)

lemma rakp4_answered:
  assumes "st_net st = NetPkt (hs_packet 0x15 (rakp4_answer chk)) # rest"
    and "session_state (st_ssn st) = LANPLUS_STATE_RAKP_3_SENT" "length (rs_data (st_rsp st)) = 1024" "rs_ccode (st_rsp st) \<noteq> 0xCF"
    and n: "rakp_code_length IPMI_SHA1_AUTHCODE_SIZE IPMI_HMAC_MD5_AUTHCODE_SIZE IPMI_HMAC_SHA256_AUTHCODE_SIZE
      (auth_alg (st_ssn st)) = Inr (length chk)" "length chk \<le> 32"
  shows "answers (PRakp4 (rakp4_got chk)) rest st cr"
proof (rule answers_payload [OF assms(1)])
  fix r :: ipmi_rs and tail :: bytes and st1 :: lp_state
  assume r: "drop 16 (rs_data r) = rakp4_answer chk @ tail" "rs_payloadtype r = 0x15" "st_rsp st1 = r" "st_ssn st1 = st_ssn st"
  have i: "rs_data r ! 16 = 0" "rs_data r ! 17 = 0"
    using drop_nth [OF r(1), of 0] drop_nth [OF r(1), of 1] by (simp_all add: rakp4_answer_def)
  have d: "drop 20 (rs_data r) = le32 0xA0A2A3A4 @ chk @ tail"
    using drop_more [of 16 "rs_data r" "[0, 0, 0, 0]" _ 4] r(1) by (simp add: rakp4_answer_def)
  then have d24: "drop 24 (rs_data r) = chk @ tail"
    using drop_more [of 20 "rs_data r" "le32 0xA0A2A3A4" _ 4] by simp
  have "of_le32 (drop 20 (rs_data r)) = 0xA0A2A3A4" "region (rs_data r) 24 (length chk) = chk"
    using d region_at [OF d24] by simp_all
  then have "read_rakp4_message r 16 (auth_alg (st_ssn st)) = Inr (r\<lparr>rs_payload := PRakp4 (rakp4_got chk)\<rparr>)"
    using i n by (simp add: read_rakp4_message_def rakp4_got_def Let_def)
  then have "poll_payload st1 16 (length (rakp4_answer chk)) = Inr (PRsp, st1\<lparr>st_rsp := r\<lparr>rs_payload := PRakp4 (rakp4_got chk)\<rparr>\<rparr>)"
    using r assms(2) by (simp add: poll_payload_def payload_types)
  then show "\<exists>r'. poll_payload st1 16 (length (rakp4_answer chk)) = Inr (PRsp, st1\<lparr>st_rsp := r'\<rparr>) \<and>
      rs_payload r' = PRakp4 (rakp4_got chk) \<and> rs_data r' = rs_data r \<and> rs_ccode r' = rs_ccode r"
    by (intro exI [of _ "r\<lparr>rs_payload := PRakp4 (rakp4_got chk)\<rparr>"]) simp
qed (use assms in \<open>simp_all add: rakp4_answer_def\<close>)

section \<open>One exchange\<close>

text \<open>The receive buffer is in order, and sending works.\<close>

definition quiet :: "lp_state \<Rightarrow> bool" where
  "quiet st \<longleftrightarrow> st_send_fails st = [] \<and> length (rs_data (st_rsp st)) = 1024 \<and> rs_ccode (st_rsp st) \<noteq> 0xCF \<and>
     \<not> noanswer (st_intf st) \<and> 0 < retry (ssn_params (st_intf st))"

lemma transmit_handshake:
  assumes "state_after b = Some q" "may_send b (session_state (st_ssn st))" "st_send_fails st = []"
  shows "\<exists>p' st1. transmit cr isRetry entry (handshake_payload b n) st = Inr (True, entry, p', st1) \<and> pl_body p' = b
      \<and> core (st_ssn st1) = core (st_ssn st) \<and> st_net st1 = st_net st \<and> st_rsp st1 = st_rsp st
      \<and> st_intf st1 = st_intf st \<and> st_rand st1 = st_rand st \<and> st_send_fails st1 = []"
  using assms
  by (cases b) (auto simp: transmit_def state_after_def may_send_def handshake_payload_def build_v2x_def
      ipmi_lanplus_build_v2x_msg_def payload_wire_def v2x_payload_def v2x_trailer_def ipmi_lan_send_packet_def Let_def)

lemma request_answered:
  assumes q: "quiet st" "state_after b = Some q" "may_send b (session_state (st_ssn st))"
    and ans: "\<And>st2. quiet st2 \<Longrightarrow> st_net st2 = st_net st \<Longrightarrow> session_state (st_ssn st2) = q \<Longrightarrow>
      core (st_ssn st2) = core (st_ssn st) \<Longrightarrow> answers pay rest st2 cr"
  shows "\<exists>st'. lanplus_request cr (handshake_payload b n) st = Inr (Some (st_rsp st'), st') \<and> quiet st' \<and>
    st_net st' = rest \<and> session_state (st_ssn st') = q \<and> core (st_ssn st') = core (st_ssn st) \<and>
    st_rand st' = st_rand st \<and> st_intf st' = st_intf st \<and> rs_payload (st_rsp st') = pay"
proof -
  obtain k where k: "nat (retry (ssn_params (st_intf st))) = Suc k"
    using q(1) gr0_implies_Suc [of "nat (retry (ssn_params (st_intf st)))"] by (auto simp: quiet_def)
  obtain p' and st1 :: lp_state where t: "transmit cr False None (handshake_payload b n) st = Inr (True, None, p', st1)" "pl_body p' = b"
      "core (st_ssn st1) = core (st_ssn st)" "st_net st1 = st_net st" "st_rsp st1 = st_rsp st"
      "st_intf st1 = st_intf st" "st_rand st1 = st_rand st" "st_send_fails st1 = []"
    using transmit_handshake [OF q(2,3), of cr False None n] q(1) by (auto simp: quiet_def)
  define st2 where "st2 = on_ssn (\<lambda>n. n\<lparr>session_state := q\<rparr>) st1"
  have st2: "quiet st2" "st_net st2 = st_net st" "session_state (st_ssn st2) = q" "core (st_ssn st2) = core (st_ssn st)"
    "st_rand st2 = st_rand st" "st_intf st2 = st_intf st"
    using q(1) t(3-8) by (simp_all add: st2_def quiet_def on_ssn_def)
  obtain r where r: "poll_answer cr st2 = Inr (True, st2\<lparr>st_net := rest, st_rsp := r\<rparr>)" "rs_payload r = pay"
    "length (rs_data r) = 1024" "rs_ccode r = rs_ccode (st_rsp st2)"
    using ans [OF st2(1-4)] by (auto simp: answers_def)
  let ?st3 = "st2\<lparr>st_net := rest, st_rsp := r\<rparr>"
  have aw: "await cr (ipmi_lanplus_recv_sol cr) p' None False st2 = Inr (True, True, ?st3)"
    using r(1) t(2) q(2) by (cases b) (simp_all add: await_def state_after_def)
  have "send_opened cr (ipmi_lanplus_recv_sol cr) (handshake_payload b n) st =
      Inr (True, p', on_ssn (\<lambda>x. x\<lparr>ssn_timeout := ssn_timeout (st_ssn st)\<rparr>) ?st3)"
    using t q k aw by (simp add: send_opened_def st2_def [symmetric] quiet_def Let_def finish_def)
  then have "lanplus_request cr (handshake_payload b n) st =
      Inr (Some r, on_ssn (\<lambda>x. x\<lparr>ssn_timeout := ssn_timeout (st_ssn st)\<rparr>) ?st3)"
    by (simp add: lanplus_request_def on_ssn_def)
  then show ?thesis
    using st2 r by (intro exI [of _ "on_ssn (\<lambda>x. x\<lparr>ssn_timeout := ssn_timeout (st_ssn st)\<rparr>) ?st3"])
      (auto simp: on_ssn_def quiet_def)
qed

section \<open>The three steps\<close>

lemma core_cases:
  assumes "core s' = core s"
  obtains n t z where "s' = s\<lparr>out_seq := n, ssn_timeout := t, session_state := z\<rparr>"
  using core_eq [OF assms] by blast

lemma core_matches:
  assumes "core s' = core s"
  shows "lanplus_rakp2_hmac_matches cr m i s' mac = lanplus_rakp2_hmac_matches cr m i s mac"
    "lanplus_rakp4_hmac_matches cr m i s' mac = lanplus_rakp4_hmac_matches cr m i s mac"
    "lanplus_generate_rakp3_authcode cr m i s' = lanplus_generate_rakp3_authcode cr m i s"
    "auth_alg s' = auth_alg s" "rakp2_return_code s' = rakp2_return_code s"
proof -
  obtain n t z where s': "s' = s\<lparr>out_seq := n, ssn_timeout := t, session_state := z\<rparr>"
    using core_cases [OF assms] .
  show "lanplus_rakp2_hmac_matches cr m i s' mac = lanplus_rakp2_hmac_matches cr m i s mac"
    by (simp add: s' lanplus_rakp2_hmac_matches_def supported_auth_def rakp2_input_def cong: if_cong)
  have "rakp4_cmp_length b s' = rakp4_cmp_length b s" "rakp4_input s' = rakp4_input s" "supported_auth s' = supported_auth s" for b
    by (auto simp: s' rakp4_cmp_length_def rakp4_input_def supported_auth_def fun_eq_iff)
  then show "lanplus_rakp4_hmac_matches cr m i s' mac = lanplus_rakp4_hmac_matches cr m i s mac"
    by (simp add: s' lanplus_rakp4_hmac_matches_def cong: if_cong)
  show "lanplus_generate_rakp3_authcode cr m i s' = lanplus_generate_rakp3_authcode cr m i s"
    by (simp add: s' lanplus_generate_rakp3_authcode_def supported_auth_def rakp3_input_def cong: if_cong)
  show "auth_alg s' = auth_alg s" "rakp2_return_code s' = rakp2_return_code s"
    by (simp_all add: s')
qed

text \<open>The session after each step, apart from its counters and its state.\<close>

definition opened_session :: "byte \<Rightarrow> u32 \<Rightarrow> byte \<times> byte \<times> byte \<Rightarrow> ipmi_session \<Rightarrow> ipmi_session" where
  "opened_session priv bmc algs s = (case algs of (a, g, c) \<Rightarrow>
     accept_open (opened_part priv bmc a g c)
       (s\<lparr>console_id := 0xA0A2A3A4, requested_auth_alg := a, requested_integrity_alg := g, requested_crypt_alg := c\<rparr>))"

definition challenged_session :: "ipmi_intf \<Rightarrow> bytes \<Rightarrow> bytes \<Rightarrow> bytes \<Rightarrow> ipmi_session \<Rightarrow> ipmi_session" where
  "challenged_session i rnd brand guid s =
     (s\<lparr>console_rand := rnd, requested_role := privlvl (ssn_params i) OR lookupbit (ssn_params i)\<rparr>)
       \<lparr>bmc_rand := brand, bmc_guid := guid, rakp2_return_code := 0\<rparr>"

lemma open_session_ok:
  assumes q: "quiet st" "session_state (st_ssn st) = LANPLUS_STATE_PRESESSION"
    and alg: "lanplus_get_requested_ciphers (cipher_suite_id (ssn_params (st_intf st))) = Some (a, g, c)"
    and net: "st_net st = NetPkt (hs_packet 0x11 (open_answer priv bmc a g c)) # rest"
  shows "\<exists>st'. ipmi_lanplus_open_session cr st = Inr (0, st') \<and> quiet st' \<and> st_net st' = rest \<and>
    session_state (st_ssn st') = LANPLUS_STATE_OPEN_SESSION_RECEIEVED \<and>
    core (st_ssn st') = core (opened_session priv bmc (a, g, c) (st_ssn st)) \<and>
    st_rand st' = st_rand st \<and> st_intf st' = st_intf st"
proof -
  let ?b = "BOpenRequest (open_session_msg (st_intf st) (a, g, c))"
  define st2 where "st2 = on_ssn (\<lambda>s. s\<lparr>console_id := 0xA0A2A3A4, requested_auth_alg := a, requested_integrity_alg := g,
      requested_crypt_alg := c\<rparr>) st"
  have st2: "quiet st2" "may_send ?b (session_state (st_ssn st2))" "st_net st2 = st_net st"
    "st_rand st2 = st_rand st" "st_intf st2 = st_intf st"
    using q by (simp_all add: st2_def on_ssn_def quiet_def may_send_def)
  have "\<exists>st'. lanplus_request cr (handshake_payload ?b 32) st2 = Inr (Some (st_rsp st'), st') \<and> quiet st' \<and>
    st_net st' = rest \<and> session_state (st_ssn st') = LANPLUS_STATE_OPEN_SESSION_SENT \<and> core (st_ssn st') = core (st_ssn st2) \<and>
    st_rand st' = st_rand st2 \<and> st_intf st' = st_intf st2 \<and> rs_payload (st_rsp st') = POpen (opened_part priv bmc a g c)"
  proof (rule request_answered [OF st2(1) _ st2(2)])
    fix st3 :: lp_state
    assume "quiet st3" "st_net st3 = st_net st2" "session_state (st_ssn st3) = LANPLUS_STATE_OPEN_SESSION_SENT"
    then show "answers (POpen (opened_part priv bmc a g c)) rest st3 cr"
      using net st2(3) by (intro open_answered) (simp_all add: quiet_def)
  qed (simp add: state_after_def)
  then obtain st3 where r: "lanplus_request cr (handshake_payload ?b 32) st2 = Inr (Some (st_rsp st3), st3)" "quiet st3"
    "st_net st3 = rest" "core (st_ssn st3) = core (st_ssn st2)" "st_rand st3 = st_rand st" "st_intf st3 = st_intf st"
    "rs_payload (st_rsp st3) = POpen (opened_part priv bmc a g c)"
    using st2 by auto
  have "ipmi_lanplus_open_session cr st = Inr (0, on_ssn (accept_open (opened_part priv bmc a g c)) st3)"
    using alg r(1,7) by (simp add: ipmi_lanplus_open_session_def Let_def rakp_return_code_def opened_part_def
        st2_def on_ssn_def)
  moreover obtain n t z where "st_ssn st3 = (st_ssn st2)\<lparr>out_seq := n, ssn_timeout := t, session_state := z\<rparr>"
    using core_cases [OF r(4)] .
  ultimately show ?thesis
    using r by (intro exI [of _ "on_ssn (accept_open (opened_part priv bmc a g c)) st3"])
      (simp add: on_ssn_def quiet_def accept_open_def opened_session_def st2_def core_def)
qed

lemma rakp1_ok:
  assumes q: "quiet st" "session_state (st_ssn st) = LANPLUS_STATE_OPEN_SESSION_RECEIEVED" "core (st_ssn st) = core s"
    and rnd: "st_rand st = Some rnd # rnds" "length (username (ssn_params (st_intf st))) \<le> 16"
    and mac: "lanplus_rakp2_hmac_matches cr True (st_intf st) (challenged_session (st_intf st) rnd brand guid s) mac = Inr True"
      "rakp_code_length IPMI_SHA_DIGEST_LENGTH IPMI_MD5_DIGEST_LENGTH IPMI_SHA256_DIGEST_LENGTH (auth_alg s) = Inr (length mac)"
      "length mac \<le> 32" "length brand = 16" "length guid = 16"
    and net: "st_net st = NetPkt (hs_packet 0x13 (rakp2_answer brand guid mac)) # rest"
  shows "\<exists>st'. ipmi_lanplus_rakp1 cr st = Inr (0, st') \<and> quiet st' \<and> st_net st' = rest \<and>
    session_state (st_ssn st') = LANPLUS_STATE_RAKP_2_RECEIVED \<and>
    core (st_ssn st') = core (challenged_session (st_intf st) rnd brand guid s) \<and> st_intf st' = st_intf st"
proof -
  let ?i = "st_intf st"
  define st2 where "st2 = on_ssn (\<lambda>s. s\<lparr>console_rand := rnd,
      requested_role := privlvl (ssn_params ?i) OR lookupbit (ssn_params ?i)\<rparr>) (st\<lparr>st_rand := rnds\<rparr>)"
  let ?b = "BRakp1 (rakp1_msg ?i (st_ssn st2))"
  let ?m = "rakp2_got brand guid mac"
  have alg: "auth_alg (st_ssn st2) = auth_alg s"
    using core_matches(4) [OF q(3)] by (simp add: st2_def on_ssn_def)
  have st2: "quiet st2" "may_send ?b (session_state (st_ssn st2))" "st_net st2 = st_net st" "st_intf st2 = ?i"
    using q by (simp_all add: st2_def on_ssn_def quiet_def may_send_def)
  have "\<exists>st'. lanplus_request cr (handshake_payload ?b (rakp1_length ?i)) st2 = Inr (Some (st_rsp st'), st') \<and> quiet st' \<and>
    st_net st' = rest \<and> session_state (st_ssn st') = LANPLUS_STATE_RAKP_1_SENT \<and> core (st_ssn st') = core (st_ssn st2) \<and>
    st_rand st' = st_rand st2 \<and> st_intf st' = st_intf st2 \<and> rs_payload (st_rsp st') = PRakp2 ?m"
  proof (rule request_answered [OF st2(1) _ st2(2)])
    fix st3 :: lp_state
    assume h: "quiet st3" "st_net st3 = st_net st2" "session_state (st_ssn st3) = LANPLUS_STATE_RAKP_1_SENT"
      "core (st_ssn st3) = core (st_ssn st2)"
    show "answers (PRakp2 ?m) rest st3 cr"
      using h net st2(3) mac(2-5) core_matches(4) [OF h(4)] alg by (intro rakp2_answered) (simp_all add: quiet_def)
  qed (simp add: state_after_def)
  then obtain st3 where r: "lanplus_request cr (handshake_payload ?b (rakp1_length ?i)) st2 = Inr (Some (st_rsp st3), st3)" "quiet st3"
    "st_net st3 = rest" "core (st_ssn st3) = core (st_ssn st2)" "st_intf st3 = ?i" "rs_payload (st_rsp st3) = PRakp2 ?m"
    using st2 by auto
  define st5 where "st5 = on_ssn (accept_rakp2 ?m) (on_ssn (\<lambda>s. s\<lparr>session_state := LANPLUS_STATE_RAKP_2_RECEIVED\<rparr>) st3)"
  obtain n t z where s3: "st_ssn st3 = (st_ssn st2)\<lparr>out_seq := n, ssn_timeout := t, session_state := z\<rparr>"
    using core_cases [OF r(4)] .
  obtain n' t' z' where s: "st_ssn st = s\<lparr>out_seq := n', ssn_timeout := t', session_state := z'\<rparr>"
    using core_cases [OF q(3)] .
  have c5: "core ((st_ssn st5)\<lparr>rakp2_return_code := 0\<rparr>) = core (challenged_session ?i rnd brand guid s)"
    by (simp add: st5_def on_ssn_def s3 s st2_def accept_rakp2_def challenged_session_def rakp2_got_def core_def)
  have "lanplus_rakp2_hmac_matches cr True ?i ((st_ssn st5)\<lparr>rakp2_return_code := 0\<rparr>) mac = Inr True"
    using core_matches(1) [OF c5] mac(1) by simp
  then have ok: "lanplus_rakp2_hmac_matches cr True ?i (st_ssn st5) mac = Inr True"
    by (simp add: lanplus_rakp2_hmac_matches_def supported_auth_def rakp2_input_def cong: if_cong)
  have "ipmi_lanplus_rakp1 cr st = Inr (0, on_ssn (\<lambda>s. s\<lparr>rakp2_return_code := 0\<rparr>) st5)"
    using rnd r(1,5,6) ok
    by (simp add: ipmi_lanplus_rakp1_def lanplus_rand_def st2_def [symmetric] Let_def rakp_return_code_def)
      (simp add: st5_def rakp2_got_def on_ssn_def word_less_nat_alt unat_of_nat)
  then show ?thesis
    using r c5 by (intro exI [of _ "on_ssn (\<lambda>s. s\<lparr>rakp2_return_code := 0\<rparr>) st5"])
      (simp add: on_ssn_def quiet_def st5_def accept_rakp2_def)
qed

text \<open>The keys do not depend on the counters.\<close>

lemma core_keys:
  assumes "core s' = core s" "session_keys cr i s = Inr (True, kk)"
  shows "\<exists>k'. session_keys cr i s' = Inr (True, k') \<and> core k' = core kk \<and> session_state k' = session_state s'"
proof -
  obtain n t z where s': "s' = s\<lparr>out_seq := n, ssn_timeout := t, session_state := z\<rparr>"
    using core_cases [OF assms(1)] .
  obtain s1 s2 where g: "lanplus_generate_sik cr True i s = Inr (0, s1)" "lanplus_generate_k1 cr s1 = Inr (0, s2)"
    "lanplus_generate_k2 cr s2 = Inr (0, kk)"
    by (rule session_keys_ok [OF assms(2)])
  let ?u = "\<lambda>s. s\<lparr>out_seq := n, ssn_timeout := t, session_state := z\<rparr>"
  have "lanplus_generate_sik cr True i s' = Inr (0, ?u s1)"
  proof (cases "auth_alg s = IPMI_AUTH_RAKP_NONE")
    case True
    then show ?thesis
      using g(1) by (auto simp: s' lanplus_generate_sik_def Let_def)
  next
    case False
    have sup: "supported_auth s" "supported_auth s' = supported_auth s" "sik_input i s' = sik_input i s"
      using g(1) False by (simp_all add: s' lanplus_generate_sik_def Let_def supported_auth_def sik_input_def split: if_splits)
    define key where "key = (if kg (ssn_params i) ! 0 \<noteq> 0 then kg (ssn_params i) else authcode s)"
    obtain mac where "lanplus_HMAC cr (auth_alg s) (take 20 key) (sik_input i s) = Inr mac" "auth_digest_ok (auth_alg s) (length mac)"
      "s1 = s\<lparr>sik := put_at (replicate 32 0) 0 mac, sik_len := length mac\<rparr>"
      using g(1) False sup(1) by (auto simp: lanplus_generate_sik_def Let_def bind_ok_Inr_iff key_def [symmetric] split: if_splits)
    then show ?thesis
      using False sup by (simp add: lanplus_generate_sik_def Let_def s' key_def cong: if_cong)
  qed
  moreover have "lanplus_generate_k1 cr (?u s1) = Inr (0, ?u s2)"
    using g(2) by (auto simp: lanplus_generate_k1_def bind_ok_Inr_iff split: if_splits)
  moreover have "lanplus_generate_k2 cr (?u s2) = Inr (0, ?u kk)"
    using g(3) by (auto simp: lanplus_generate_k2_def bind_ok_Inr_iff split: if_splits)
  ultimately have "session_keys cr i s' = Inr (True, ?u kk)"
    by (simp add: session_keys_def)
  then show ?thesis
    by (simp add: s' core_def)
qed

lemma rakp3_ok:
  assumes q: "quiet st" "session_state (st_ssn st) = LANPLUS_STATE_RAKP_2_RECEIVED" "core (st_ssn st) = core s"
    and code: "rakp2_return_code s = 0" "lanplus_generate_rakp3_authcode cr True (st_intf st) s = Inr (0, mac3)"
    and keys: "session_keys cr (st_intf st) s = Inr (True, kk)"
    and chk: "lanplus_rakp4_hmac_matches cr True (st_intf st) kk chk = Inr True" "length chk \<le> 32"
      "rakp_code_length IPMI_SHA1_AUTHCODE_SIZE IPMI_HMAC_MD5_AUTHCODE_SIZE IPMI_HMAC_SHA256_AUTHCODE_SIZE
        (auth_alg kk) = Inr (length chk)"
    and net: "st_net st = NetPkt (hs_packet 0x15 (rakp4_answer chk)) # rest"
  shows "\<exists>st'. ipmi_lanplus_rakp3 cr st = Inr (0, st') \<and> st_net st' = rest \<and>
    session_state (st_ssn st') = LANPLUS_STATE_ACTIVE \<and> core (st_ssn st') = core kk \<and>
    st_intf st' = (st_intf st)\<lparr>intf_abort := False\<rparr>"
proof -
  let ?i = "st_intf st"
  obtain s1 where s1: "session_keys cr ?i (st_ssn st) = Inr (True, s1)" "core s1 = core kk"
    "session_state s1 = LANPLUS_STATE_RAKP_2_RECEIVED"
    using core_keys [OF q(3) keys] q(2) by auto
  let ?b = "BRakp3 (rakp3_msg s1 mac3)"
  define st2 where "st2 = st\<lparr>st_ssn := s1\<rparr>"
  have st2: "quiet st2" "may_send ?b (session_state (st_ssn st2))" "st_net st2 = st_net st" "st_intf st2 = ?i" "st_ssn st2 = s1"
    using q s1 by (simp_all add: st2_def quiet_def may_send_def)
  have "\<exists>st'. lanplus_request cr (handshake_payload ?b (8 + length mac3)) st2 = Inr (Some (st_rsp st'), st') \<and> quiet st' \<and>
    st_net st' = rest \<and> session_state (st_ssn st') = LANPLUS_STATE_RAKP_3_SENT \<and> core (st_ssn st') = core (st_ssn st2) \<and>
    st_rand st' = st_rand st2 \<and> st_intf st' = st_intf st2 \<and> rs_payload (st_rsp st') = PRakp4 (rakp4_got chk)"
  proof (rule request_answered [OF st2(1) _ st2(2)])
    fix st3 :: lp_state
    assume h: "quiet st3" "st_net st3 = st_net st2" "session_state (st_ssn st3) = LANPLUS_STATE_RAKP_3_SENT"
      "core (st_ssn st3) = core (st_ssn st2)"
    have "core (st_ssn st3) = core kk"
      using h(4) s1(2) st2(5) by simp
    from core_matches(4) [OF this] show "answers (PRakp4 (rakp4_got chk)) rest st3 cr"
      using h(1-3) net st2(3) chk(2,3) by (intro rakp4_answered) (simp_all add: quiet_def)
  qed (simp add: state_after_def)
  then obtain st3 where r: "lanplus_request cr (handshake_payload ?b (8 + length mac3)) st2 = Inr (Some (st_rsp st3), st3)"
    "st_net st3 = rest" "core (st_ssn st3) = core kk" "st_intf st3 = ?i" "rs_payload (st_rsp st3) = PRakp4 (rakp4_got chk)"
    using st2 s1(2) by auto
  have c: "rakp2_return_code (st_ssn st) = 0" "lanplus_generate_rakp3_authcode cr True ?i (st_ssn st) = Inr (0, mac3)"
    using core_matches [OF q(3)] code by simp_all
  have "rakp2_return_code kk = 0"
    using keyless_fields(3) [OF session_keys_keyless [OF keys]] code(1) by simp
  then have c3: "rakp2_return_code (st_ssn st3) = 0" "lanplus_rakp4_hmac_matches cr True ?i (st_ssn st3) chk = Inr True"
    using core_matches [OF r(3)] chk(1) by simp_all
  have "ipmi_lanplus_rakp3 cr st = rakp3_answer cr (Some (st_rsp st3)) st3"
    using q(2) c s1(1) r(1) by (simp add: ipmi_lanplus_rakp3_def st2_def)
  also have "\<dots> = Inr (0, on_intf (\<lambda>i. i\<lparr>intf_abort := False\<rparr>) (on_ssn (\<lambda>s. s\<lparr>session_state := LANPLUS_STATE_ACTIVE\<rparr>) st3))"
    using c3 r(4,5) by (simp add: rakp3_answer_def rakp_return_code_def rakp4_got_def)
  finally show ?thesis
    using r by (simp add: on_intf_def on_ssn_def)
qed

section \<open>The handshake succeeds\<close>

text \<open>
  What a BMC answers that agrees to the requested algorithms and holds the same user key: its
  two codes match the ones the program computes over the session as it is then.
\<close>

definition honest_bmc :: "crypto \<Rightarrow> ipmi_intf \<Rightarrow> ipmi_session \<Rightarrow> bytes \<Rightarrow> bytes \<Rightarrow> bool" where
  "honest_bmc cr i s mac chk \<longleftrightarrow>
     lanplus_rakp2_hmac_matches cr True i s mac = Inr True \<and>
     rakp_code_length IPMI_SHA_DIGEST_LENGTH IPMI_MD5_DIGEST_LENGTH IPMI_SHA256_DIGEST_LENGTH (auth_alg s) = Inr (length mac) \<and>
     length mac \<le> 32 \<and> length chk \<le> 32 \<and>
     rakp_code_length IPMI_SHA1_AUTHCODE_SIZE IPMI_HMAC_MD5_AUTHCODE_SIZE IPMI_HMAC_SHA256_AUTHCODE_SIZE
       (auth_alg s) = Inr (length chk) \<and>
     (\<exists>mac3 kk. lanplus_generate_rakp3_authcode cr True i s = Inr (0, mac3) \<and> session_keys cr i s = Inr (True, kk) \<and>
        lanplus_rakp4_hmac_matches cr True i kk chk = Inr True)"

lemma honest_handshake:
  assumes q: "quiet st" "st_rand st = Some rnd # rnds" "length (username (ssn_params (st_intf st))) \<le> 16"
    and alg: "lanplus_get_requested_ciphers (cipher_suite_id (ssn_params (st_intf st))) = Some (a, g, c)"
    and bmc: "honest_bmc cr (st_intf st)
      (challenged_session (st_intf st) rnd brand guid (opened_session priv bmc (a, g, c) (st_ssn st))) mac chk"
      "length brand = 16" "length guid = 16"
    and net: "st_net st = [NetPkt (hs_packet 0x11 (open_answer priv bmc a g c)), NetPkt (hs_packet 0x13 (rakp2_answer brand guid mac)),
      NetPkt (hs_packet 0x15 (rakp4_answer chk))] @ rest"
  shows "\<exists>st'. handshake cr (Suc k) st = Inr (True, st') \<and> session_state (st_ssn st') = LANPLUS_STATE_ACTIVE \<and>
    st_net st' = rest \<and> st_intf st' = (st_intf st)\<lparr>intf_abort := False\<rparr>"
proof -
  let ?i = "st_intf st"
  let ?o = "opened_session priv bmc (a, g, c) (st_ssn st)"
  let ?c = "challenged_session ?i rnd brand guid ?o"
  define st0 where "st0 = on_ssn (\<lambda>s. s\<lparr>session_state := LANPLUS_STATE_PRESESSION\<rparr>) st"
  have st0: "quiet st0" "session_state (st_ssn st0) = LANPLUS_STATE_PRESESSION" "st_intf st0 = ?i" "st_net st0 = st_net st"
    "st_rand st0 = st_rand st" "core (opened_session priv bmc (a, g, c) (st_ssn st0)) = core ?o"
    using q(1) by (simp_all add: st0_def on_ssn_def quiet_def opened_session_def accept_open_def core_def)
  obtain st1 where 1: "ipmi_lanplus_open_session cr st0 = Inr (0, st1)" "quiet st1"
    "st_net st1 = [NetPkt (hs_packet 0x13 (rakp2_answer brand guid mac)), NetPkt (hs_packet 0x15 (rakp4_answer chk))] @ rest"
    "session_state (st_ssn st1) = LANPLUS_STATE_OPEN_SESSION_RECEIEVED" "core (st_ssn st1) = core ?o"
    "st_rand st1 = Some rnd # rnds" "st_intf st1 = ?i"
    using open_session_ok [OF st0(1,2), of a g c priv bmc _ cr] alg st0 net q(2) by auto
  have a: "auth_alg ?c = auth_alg ?o" "rakp2_return_code ?c = 0"
    by (simp_all add: challenged_session_def)
  obtain st2 where 2: "ipmi_lanplus_rakp1 cr st1 = Inr (0, st2)" "quiet st2"
    "st_net st2 = NetPkt (hs_packet 0x15 (rakp4_answer chk)) # rest"
    "session_state (st_ssn st2) = LANPLUS_STATE_RAKP_2_RECEIVED" "core (st_ssn st2) = core ?c" "st_intf st2 = ?i"
    using rakp1_ok [OF 1(2,4,5,6), of cr brand guid mac] bmc 1(3,7) q(3) a by (auto simp: honest_bmc_def)
  obtain mac3 kk where k: "lanplus_generate_rakp3_authcode cr True ?i ?c = Inr (0, mac3)" "session_keys cr ?i ?c = Inr (True, kk)"
    "lanplus_rakp4_hmac_matches cr True ?i kk chk = Inr True"
    using bmc(1) by (auto simp: honest_bmc_def)
  have "auth_alg kk = auth_alg ?c"
    using keyless_fields(1) [OF session_keys_keyless [OF k(2)]] .
  then obtain st3 where 3: "ipmi_lanplus_rakp3 cr st2 = Inr (0, st3)" "st_net st3 = rest"
    "session_state (st_ssn st3) = LANPLUS_STATE_ACTIVE" "st_intf st3 = ?i\<lparr>intf_abort := False\<rparr>"
    using rakp3_ok [OF 2(2,4,5) a(2), of cr mac3 kk chk rest] k bmc(1) 2(3,6) by (auto simp: honest_bmc_def)
  have "handshake cr (Suc k) st = Inr (True, st3)"
    using 1(1) 2(1) 3(1) by (subst handshake.simps) (simp add: st0_def [symmetric])
  then show ?thesis
    using 3 by blast
qed

lemma honest_codes:
  assumes cr: "crypto_ok cr" and s: "supported_auth s" "length (k1 s) = 32" "length (k2 s) = 32"
    and i: "\<not> ipmi_oem_active i ''intelplus''"
  shows "\<exists>mac chk. honest_bmc cr i s mac chk"
proof -
  let ?md = "auth_md (auth_alg s)"
  let ?n = "if auth_alg s = IPMI_AUTH_RAKP_HMAC_SHA1 then 12 else 16 :: nat"
  obtain s1 s2 kk where g: "lanplus_generate_sik cr True i s = Inr (0, s1)" "lanplus_generate_k1 cr s1 = Inr (0, s2)"
    "lanplus_generate_k2 cr s2 = Inr (0, kk)"
    using keys_generated [OF cr s] by blast
  then have keys: "session_keys cr i s = Inr (True, kk)"
    by (simp add: session_keys_def)
  have alg: "auth_alg kk = auth_alg s"
    using keyless_fields(1) [OF session_keys_keyless [OF keys]] .
  then have sup: "supported_auth kk" "auth_alg s \<noteq> IPMI_AUTH_RAKP_NONE"
    using s(1) by (auto simp: supported_auth_def alg_defs)
  define mac where "mac = cr_hmac cr ?md (take 20 (authcode s)) (rakp2_input i s)"
  define m4 where "m4 = cr_hmac cr ?md (take (sik_len kk) (sik kk)) (rakp4_input kk)"
  define chk where "chk = take ?n m4"
  have len: "length mac = digest_length ?md" "length m4 = digest_length ?md"
    using crypto_ok_hmac [OF cr] by (simp_all add: mac_def m4_def)
  have n4: "\<not> length m4 < ?n" "?n \<le> length m4"
    using len(2) digest_length_le [of ?md] by auto
  then have l4: "length chk = ?n"
    by (simp add: chk_def)
  have "lanplus_rakp2_hmac_matches cr True i s mac = Inr True"
    using s(1) sup(2) hmac_auth [OF s(1)] by (simp add: lanplus_rakp2_hmac_matches_def memcmp_eq_def mac_def)
  moreover have "rakp_code_length IPMI_SHA_DIGEST_LENGTH IPMI_MD5_DIGEST_LENGTH IPMI_SHA256_DIGEST_LENGTH (auth_alg s) = Inr (length mac)"
    using s(1) len(1) by (auto simp: rakp_code_length_def supported_auth_def auth_md_def alg_defs size_defs)
  moreover have "rakp_code_length IPMI_SHA1_AUTHCODE_SIZE IPMI_HMAC_MD5_AUTHCODE_SIZE IPMI_HMAC_SHA256_AUTHCODE_SIZE
       (auth_alg s) = Inr (length chk)"
    using s(1) l4 by (auto simp: rakp_code_length_def supported_auth_def alg_defs size_defs)
  moreover have "lanplus_rakp4_hmac_matches cr True i kk chk = Inr True"
  proof -
    have "rakp4_cmp_length False kk (length m4) = Inr ?n"
      using s(1) alg len(2) by (auto simp: rakp4_cmp_length_def supported_auth_def auth_md_def alg_defs size_defs)
    then show ?thesis
      using i sup alg hmac_auth [OF sup(1)] n4 l4
      by (simp add: lanplus_rakp4_hmac_matches_def Let_def memcmp_eq_def m4_def [symmetric] cong: if_cong) (simp add: chk_def)
  qed
  moreover have "lanplus_generate_rakp3_authcode cr True i s = Inr (0, cr_hmac cr ?md (take 20 (authcode s)) (rakp3_input i s))"
    using s(1) sup(2) hmac_auth [OF s(1)] by (simp add: lanplus_generate_rakp3_authcode_def)
  ultimately have "honest_bmc cr i s mac chk"
    using keys len(1) l4 digest_length_le(1) [of ?md] by (auto simp: honest_bmc_def)
  then show ?thesis
    by blast
qed

text \<open>C4: with a BMC that agrees to the requested algorithms and whose two codes match, the first
  attempt of the handshake succeeds: the session is active, the three answers are used up, and
  the abort flag is cleared. The other attempts are not needed.\<close>

theorem lanplus_handshake_succeeds:
  assumes "quiet st" "st_rand st = Some rnd # rnds" "length (username (ssn_params (st_intf st))) \<le> 16"
    and "lanplus_get_requested_ciphers (cipher_suite_id (ssn_params (st_intf st))) = Some (a, g, c)"
    and "honest_bmc cr (st_intf st)
      (challenged_session (st_intf st) rnd brand guid (opened_session priv bmc (a, g, c) (st_ssn st))) mac chk"
      "length brand = 16" "length guid = 16"
    and "st_net st = [NetPkt (hs_packet 0x11 (open_answer priv bmc a g c)), NetPkt (hs_packet 0x13 (rakp2_answer brand guid mac)),
      NetPkt (hs_packet 0x15 (rakp4_answer chk))] @ rest"
  shows "\<exists>st'. handshake cr (Suc k) st = Inr (True, st') \<and> session_state (st_ssn st') = LANPLUS_STATE_ACTIVE \<and>
    st_net st' = rest \<and> st_intf st' = (st_intf st)\<lparr>intf_abort := False\<rparr>"
  by (rule honest_handshake [OF assms])

section \<open>A sample session\<close>

definition closed_intf :: ipmi_intf where
  "closed_intf = sample_intf\<lparr>opened := False, oem := Some ''i82571spt'',
     ssn_params := sample_params\<lparr>hostname := Some ''bmc''\<rparr>\<rparr>"

definition open_intf :: ipmi_intf where
  "open_intf = closed_intf\<lparr>opened := True, intf_abort := True\<rparr>"

definition sample_challenged :: ipmi_session where
  "sample_challenged = challenged_session open_intf (replicate 16 3) (replicate 16 4) (replicate 16 5)
     (opened_session 4 0x1000 (1, 1, 1) (new_session (ssn_params open_intf)))"

definition sample_answers :: "bytes \<Rightarrow> bytes \<Rightarrow> net_event list" where
  "sample_answers mac chk = [NetPkt (hs_packet 0x11 (open_answer 4 0x1000 1 1 1)),
     NetPkt (hs_packet 0x13 (rakp2_answer (replicate 16 4) (replicate 16 5) mac)), NetPkt (hs_packet 0x15 (rakp4_answer chk))]"

definition before_open :: "bytes \<Rightarrow> bytes \<Rightarrow> lp_state" where
  "before_open mac chk = (sample_lp sample_session empty_table (sample_answers mac chk))
     \<lparr>st_intf := closed_intf, st_rand := [Some (replicate 16 3)]\<rparr>"

definition before_handshake :: "bytes \<Rightarrow> bytes \<Rightarrow> lp_state" where
  "before_handshake mac chk = (before_open mac chk)\<lparr>st_intf := open_intf, st_live := True,
     st_ssn := new_session (ssn_params open_intf)\<rparr>"

lemma sample_suite: "lanplus_get_requested_ciphers (cipher_suite_id (ssn_params (st_intf (before_handshake mac chk)))) = Some (1, 1, 1)"
  by (simp add: before_handshake_def open_intf_def closed_intf_def sample_params_def lanplus_get_requested_ciphers_def Let_def alg_defs)

lemma sample_honest: "\<exists>mac chk. honest_bmc plain_crypto open_intf sample_challenged mac chk"
  by (rule honest_codes [OF plain_crypto_ok])
    (simp_all add: sample_challenged_def challenged_session_def opened_session_def accept_open_def opened_part_def new_session_def
      supported_auth_def alg_defs open_intf_def closed_intf_def ipmi_oem_active_def)

lemma sample_before:
  "st_rand (before_handshake mac chk) = [Some (replicate 16 3)]" "st_intf (before_handshake mac chk) = open_intf"
  "st_net (before_handshake mac chk) = [NetPkt (hs_packet 0x11 (open_answer 4 0x1000 1 1 1)),
     NetPkt (hs_packet 0x13 (rakp2_answer (replicate 16 4) (replicate 16 5) mac)), NetPkt (hs_packet 0x15 (rakp4_answer chk))]"
  "st_ssn (before_handshake mac chk) = new_session (ssn_params open_intf)" "username (ssn_params open_intf) = []"
  by (simp_all add: before_handshake_def before_open_def sample_lp_def sample_answers_def open_intf_def closed_intf_def sample_params_def)

lemma sample_quiet: "quiet (before_handshake mac chk)"
  by (simp add: quiet_def before_handshake_def before_open_def sample_lp_def open_intf_def closed_intf_def sample_rs_def
      sample_intf_def sample_params_def)


theorem lanplus_handshake_succeeds_witness:
  "\<exists>mac chk st'. handshake plain_crypto 4 (before_handshake mac chk) = Inr (True, st') \<and>
     session_state (st_ssn st') = LANPLUS_STATE_ACTIVE \<and> st_net st' = []"
proof -
  obtain mac chk where h: "honest_bmc plain_crypto open_intf sample_challenged mac chk"
    using sample_honest by blast
  have "\<exists>st'. handshake plain_crypto (Suc 3) (before_handshake mac chk) = Inr (True, st') \<and>
      session_state (st_ssn st') = LANPLUS_STATE_ACTIVE \<and> st_net st' = [] \<and>
      st_intf st' = (st_intf (before_handshake mac chk))\<lparr>intf_abort := False\<rparr>"
    by (rule lanplus_handshake_succeeds [where rnd = "replicate 16 3" and rnds = "[]" and brand = "replicate 16 4" and
          guid = "replicate 16 5" and priv = 4 and bmc = "0x1000" and mac = mac and chk = chk, OF sample_quiet _ _ sample_suite])
      (use h in \<open>simp_all add: sample_before sample_challenged_def\<close>)
  then show ?thesis
    by (auto simp:)
qed






end
