(* ===== verification/ChannelProps.thy ===== *)
theory ChannelProps
  imports Channel
begin

text \<open>
  Properties of the channel and user commands: the list of cipher suites is read and parsed
  back as the device holds it, and where the commands do not do what was asked.
\<close>

section \<open>Cipher suite records\<close>

definition suite_record :: "cipher_suite_info \<Rightarrow> bytes" where
  "suite_record s =
     (if cs_iana s = 0 then [STANDARD_CIPHER_SUITE, cs_id s, cs_auth_alg s, cs_integrity_alg s, cs_crypt_alg s]
      else [OEM_CIPHER_SUITE, cs_id s] @ htoipmi24 (cs_iana s) @ [cs_auth_alg s, cs_integrity_alg s, cs_crypt_alg s])"

definition suite_ok :: "cipher_suite_info \<Rightarrow> bool" where
  "suite_ok s \<longleftrightarrow> cs_auth_alg s < 64 \<and> cs_integrity_alg s < 64 \<and> cs_crypt_alg s < 64 \<and> cs_iana s < 0x1000000"

lemma mask6: "(a :: byte) < 64 \<Longrightarrow> CIPHER_ALG_MASK AND a = a"
  using less_mask_eq [of a 6] by (simp add: suite_tags mask_numeral and.commute)

lemma le24_back: "h < 0x1000000 \<Longrightarrow> ipmi24toh (htoipmi24 h) = h"
proof -
  assume "h < 0x1000000"
  then have "h AND mask 24 = h"
    using less_mask_eq [of h 24] by simp
  then have *: "bit h n \<Longrightarrow> n < 24" for n
    by (metis bit_and_iff bit_mask_iff)
  show ?thesis
  proof (rule bit_word_eqI)
    fix n assume "n < LENGTH(32)"
    then show "bit (ipmi24toh (htoipmi24 h)) n = bit h n"
      using * [of n] by (cases "n < 16") (auto simp: ipmi24toh_def htoipmi24_def bit_simps not_le less_diff_conv2 not_less)
  qed
qed

lemma length_htoipmi24 [simp]: "length (htoipmi24 h) = 3"
  by (simp add: htoipmi24_def)

lemma parse_record:
  assumes "suite_ok s"
  shows "parse_cipher_suite (suite_record s @ rest) = (length (suite_record s), s)"
proof (cases "cs_iana s = 0")
  case True
  then show ?thesis
    using assms by (simp add: parse_cipher_suite_def suite_record_def suite_ok_def mask6)
next
  case False
    obtain a b c where abc: "htoipmi24 (cs_iana s) = [a, b, c]"
      by (simp add: htoipmi24_def)
    moreover have "ipmi24toh [a, b, c] = cs_iana s"
      using assms by (simp add: abc [symmetric] le24_back suite_ok_def)
    moreover have "OEM_CIPHER_SUITE \<noteq> STANDARD_CIPHER_SUITE"
      by (simp add: suite_tags)
    ultimately show ?thesis
      using assms False by (simp add: parse_cipher_suite_def suite_record_def suite_ok_def mask6 region_def)
qed

lemma suite_record_not_Nil [simp]: "suite_record s \<noteq> []"
  by (simp add: suite_record_def)

lemma parse_suites_back:
  assumes "\<forall>s \<in> set ss. suite_ok s" "length ss \<le> nr" "rest = [] \<or> fst (parse_cipher_suite rest) = 0"
  shows "parse_channel_cipher_suite_data (concat (List.map suite_record ss) @ rest) nr = ss"
  using assms
proof (induction ss arbitrary: nr)
  case Nil
  then show ?case
    by (cases nr) (auto split: prod.split)
next
  case (Cons s ss)
  then obtain n where "nr = Suc n"
    by (cases nr) auto
  then show ?case
    using Cons parse_record [of s "concat (List.map suite_record ss) @ rest"] by simp
qed

text \<open>C35: The records of a list of cipher suites, standard and OEM ones, followed by nothing or by
  an incomplete or unknown record, are parsed into exactly these suites, as far as there is
  room for them.\<close>

theorem cipher_suites_parsed:
  assumes "\<forall>s \<in> set ss. suite_ok s" "length ss \<le> nr" "rest = [] \<or> fst (parse_cipher_suite rest) = 0"
  shows "parse_channel_cipher_suite_data (concat (List.map suite_record ss) @ rest) nr = ss"
  by (rule parse_suites_back [OF assms])

definition suite3 :: cipher_suite_info where
  "suite3 = \<lparr>cs_id = 3, cs_auth_alg = 1, cs_integrity_alg = 1, cs_crypt_alg = 1, cs_iana = 0\<rparr>"

definition suite_oem :: cipher_suite_info where
  "suite_oem = \<lparr>cs_id = 0x80, cs_auth_alg = 3, cs_integrity_alg = 4, cs_crypt_alg = 1, cs_iana = 0x2A2\<rparr>"

lemma sample_suites_ok: "\<forall>s \<in> set [suite3, suite_oem]. suite_ok s"
  by (simp add: suite_ok_def suite3_def suite_oem_def)

theorem cipher_suites_parsed_witness:
  "parse_channel_cipher_suite_data (concat (List.map suite_record [suite3, suite_oem]) @ [0xC0, 4]) 204 = [suite3, suite_oem]"
  by (rule cipher_suites_parsed [OF sample_suites_ok]) (simp_all add: parse_cipher_suite_def suite_tags)

section \<open>Reading the list\<close>

text \<open>A device that holds the data \<open>d\<close> and answers request \<open>i\<close> with its 16 bytes from \<open>16 * i\<close>.\<close>

definition suites_bmc :: "byte \<Rightarrow> bytes \<Rightarrow> ipmi_rq \<Rightarrow> (byte \<times> bytes) option" where
  "suites_bmc channel d rq =
     (if rq_cmd rq = 0x54 \<and> length (rq_data rq) = 3
      then Some (0, channel # take 16 (drop (16 * unat (rq_data rq ! 2 AND 0x3F)) d)) else None)"

lemma index_byte: "i < 64 \<Longrightarrow> unat ((0x80 OR of_nat i :: byte) AND 0x3F) = i"
proof -
  assume i: "i < 64"
  then have "(of_nat i :: byte) AND mask 6 = of_nat i"
    by (intro less_mask_eq) (simp add: word_less_nat_alt unat_of_nat)
  then have "(0x80 OR of_nat i :: byte) AND 0x3F = of_nat i"
    by (simp add: mask_numeral bit.conj_disj_distrib2)
  then show ?thesis
    using i by (simp add: unat_of_nat)
qed

text \<open>The number of requests: one for each full chunk and a last one, 64 at most.\<close>

definition suite_queries :: "bytes \<Rightarrow> nat" where
  "suite_queries d = min 64 (length d div 16 + 1)"

lemma suites_answer:
  "i < 64 \<Longrightarrow> device (suites_bmc channel d) (cipher_suites_rq c pt i) seen =
     Inr (Some (reply 0 (channel # take 16 (drop (16 * i) d))), seen @ [cipher_suites_rq c pt i])"
  by (simp add: device_def suites_bmc_def cipher_suites_rq_def index_byte)

lemma region_answer:
  "length xs \<le> 1023 \<Longrightarrow> region (rs_data (reply 0 (x # xs))) 1 (nat (rs_data_len (reply 0 (x # xs))) - 1) = xs"
  by (simp add: reply_def put_at_def region_def)

lemma collect_from:
  assumes "i + k = 63" "length d \<le> 1024" "16 * i \<le> length d"
  shows "collect_suites (device (suites_bmc channel d)) c pt k i (take (16 * i) d) seen =
    Inr (Some d, seen @ List.map (cipher_suites_rq c pt) [i ..< suite_queries d])"
  using assms
proof (induction k arbitrary: i seen)
  case 0
  define chunk where "chunk = take 16 (drop (16 * i) d)"
  have "take (16 * i) d @ chunk = d" "length chunk \<le> 16" "suite_queries d = Suc i" "i < 64"
    using 0 by (auto simp: chunk_def suite_queries_def)
  then show ?case
    using region_answer [of chunk channel]
    by (subst collect_suites.simps)
      (simp add: suites_answer MAX_CIPHER_SUITE_DATA_LEN_def chunk_def [symmetric] Let_def)
next
  case (Suc k)
  define chunk where "chunk = take 16 (drop (16 * i) d)"
  have i: "i < 63"
    using Suc by simp
  have step: "take (16 * i) d @ chunk = take (16 * Suc i) d" "length chunk \<le> 16"
    using take_add [of "16 * i" 16 d] by (simp_all only: mult_Suc_right add.commute chunk_def) simp
  show ?case
  proof (cases "16 * i + 16 \<le> length d")
    case True
    then have q: "i < suite_queries d" "length chunk = 16"
      using i by (auto simp: suite_queries_def chunk_def)
    have "collect_suites (device (suites_bmc channel d)) c pt (Suc k) i (take (16 * i) d) seen =
        collect_suites (device (suites_bmc channel d)) c pt k (Suc i) (take (16 * Suc i) d) (seen @ [cipher_suites_rq c pt i])"
      using i q region_answer [of chunk channel] step
      by (subst collect_suites.simps)
        (simp add: suites_answer MAX_CIPHER_SUITE_DATA_LEN_def chunk_def [symmetric] Let_def)
    also have "\<dots> = Inr (Some d, (seen @ [cipher_suites_rq c pt i]) @ List.map (cipher_suites_rq c pt) [Suc i ..< suite_queries d])"
      using Suc True by (intro Suc.IH) auto
    finally show ?thesis
      using q by (simp add: upt_conv_Cons)
  next
    case False
    then have "suite_queries d = Suc i" "length chunk < 16" "take (16 * i) d @ chunk = d"
      using Suc.prems step by (auto simp: suite_queries_def chunk_def)
    then show ?thesis
      using i region_answer [of chunk channel]
      by (subst collect_suites.simps)
        (simp add: suites_answer MAX_CIPHER_SUITE_DATA_LEN_def chunk_def [symmetric] Let_def)
  qed
qed

lemma suites_read:
  assumes "length d \<le> 1024" "0 < nr"
  shows "ipmi_get_channel_cipher_suites (device (suites_bmc channel d)) pt c nr seen =
    Inr (Some (parse_channel_cipher_suite_data d nr),
         seen @ List.map (cipher_suites_rq c pt) [0 ..< min 64 (length d div 16 + 1)])"
  using assms collect_from [of 0 63 d channel c pt seen]
  by (simp add: ipmi_get_channel_cipher_suites_def MAX_CIPHER_SUITE_RECORD_OFFSET_def suite_queries_def)

text \<open>Against a device that serves its cipher suite data in chunks of 16 bytes the result is the
  one of parsing all the data at once; the requests are the indices 0, 1, ... in order, one
  for each full chunk and a last one, and never more than 64.\<close>

theorem cipher_suites_chunked:
  assumes "length d \<le> 1024" "0 < nr"
  shows "ipmi_get_channel_cipher_suites (device (suites_bmc channel d)) pt c nr seen =
    Inr (Some (parse_channel_cipher_suite_data d nr),
         seen @ List.map (cipher_suites_rq c pt) [0 ..< min 64 (length d div 16 + 1)])"
  by (rule suites_read [OF assms])

theorem cipher_suites_chunked_witness:
  "ipmi_get_channel_cipher_suites (device (suites_bmc 1 (concat (replicate 4 (suite_record suite3))))) ''ipmi'' 0xE 204 [] =
     Inr (Some (replicate 4 suite3), [cipher_suites_rq 0xE ''ipmi'' 0, cipher_suites_rq 0xE ''ipmi'' 1])"
proof -
  have "parse_channel_cipher_suite_data (concat (List.map suite_record (replicate 4 suite3)) @ []) 204 = replicate 4 suite3"
    by (rule parse_suites_back) (simp_all add: suite_ok_def suite3_def)
  moreover have "length (concat (replicate 4 (suite_record suite3))) = 20"
    by (simp add: suite_record_def suite3_def numeral_eq_Suc)
  ultimately show ?thesis
    using cipher_suites_chunked [of "concat (replicate 4 (suite_record suite3))" 204 1 "''ipmi''" "0xE" "[]"]
    by (simp add: upt_rec numeral_2_eq_2)
qed

section \<open>Where the commands fail\<close>

lemma find_switch:
  "f \<noteq> UA_privilege \<Longrightarrow> find_option (option_name f @ v) = Some (f, v)"
  by (cases f) (simp_all add: find_option_def)

lemma switch_stuck:
  assumes "f \<noteq> UA_privilege"
  shows "ipmi_set_user_access send [c, u, option_name f @ v] st = ipmi_set_user_access send [c, u, option_name f @ w] st"
proof -
  have "apply_options (drop 2 [c, u, option_name f @ v]) = apply_options (drop 2 [c, u, option_name f @ w])"
    using assms by (intro ext, cases f) (simp_all add: find_switch apply_option_def del: option_name.simps)
  then show ?thesis
    unfolding ipmi_set_user_access_def by (simp only: list.size nth_Cons_0 nth_Cons_Suc One_nat_def) simp
qed

text \<open>The command \<open>channel setaccess\<close> does the same whatever follows \<open>callin=\<close>, \<open>link=\<close> or \<open>ipmi=\<close>: the value is
  stored before \<open>off\<close> is recognised, so access that is to be switched off is switched on.\<close>

theorem setaccess_value_ignored:
  assumes "f \<noteq> UA_privilege"
  shows "ipmi_set_user_access send [c, u, option_name f @ v] st = ipmi_set_user_access send [c, u, option_name f @ w] st"
  by (rule switch_stuck [OF assms])


text \<open>
  A device on which user 2 may use IPMI messaging: the command to switch it off sends a request
  with the bit still set.
\<close>

definition access_bmc :: "ipmi_rq \<Rightarrow> (byte \<times> bytes) option" where
  "access_bmc rq = Some (0, if rq_cmd rq = 0x44 then [10, 2, 1, 0x14] else [])"

lemma digit_args: "arg is_ipmi_channel_num ''1'' = Some 1" "arg is_ipmi_user_id ''2'' = Some 2"
  by code_simp+

lemma setaccess_on:
  "ipmi_set_user_access (device access_bmc) [''1'', ''2'', option_name UA_ipmi @ ''on''] [] =
     Inr (0, [mk_rq IPMI_NETFN_APP 0x44 [1, 2], mk_rq IPMI_NETFN_APP 0x43 [0x91, 2, 4, 0]])"
  by (simp add: ipmi_set_user_access_def digit_args find_switch [of UA_ipmi, simplified] apply_option_def set_ua_field_def
      ipmi_get_user_access_bmc_def ipmi_set_user_access_bmc_def ask_def tell_def device_def access_bmc_def
      user_cmds IPMI_UID_def no_access_def eval_ccode_def set_access_data_def cong: if_cong)

theorem setaccess_value_ignored_witness:
  "ipmi_set_user_access (device access_bmc) [''1'', ''2'', ''ipmi=off''] [] =
     Inr (0, [mk_rq IPMI_NETFN_APP 0x44 [1, 2], mk_rq IPMI_NETFN_APP 0x43 [0x91, 2, 4, 0]])"
  using setaccess_value_ignored [of UA_ipmi "device access_bmc" "''1''" "''2''" "''off''" "[]" "''on''"]
  by (simp add: setaccess_on [simplified])


lemma parse_suites_take:
  "\<forall>s \<in> set ss. suite_ok s \<Longrightarrow> parse_channel_cipher_suite_data (concat (List.map suite_record ss)) nr = take nr ss"
proof (induction ss arbitrary: nr)
  case Nil
  then show ?case
    by (cases nr) simp_all
next
  case (Cons s ss)
  then show ?case
    by (cases nr) (simp_all add: parse_record)
qed

text \<open>\<open>channel getciphers\<close> shows the first 12 cipher suites of the device only, because the room for
  the list is given as the size of one record.\<close>

theorem getciphers_shows_twelve:
  assumes "\<forall>s \<in> set ss. suite_ok s" "length (concat (List.map suite_record ss)) \<le> 1024"
  shows "\<exists>seen. ipmi_print_channel_cipher_suites (device (suites_bmc c (concat (List.map suite_record ss)))) pt c [] =
    Inr (0, take 12 ss, seen)"
  using assms by (simp add: ipmi_print_channel_cipher_suites_def suites_read parse_suites_take)

theorem getciphers_shows_twelve_witness:
  "\<exists>seen. ipmi_print_channel_cipher_suites (device (suites_bmc 1 (concat (List.map suite_record (replicate 15 suite3)))))
     ''ipmi'' 1 [] = Inr (0, replicate 12 suite3, seen)"
proof -
  have "\<forall>s \<in> set (replicate 15 suite3). suite_ok s"
    by (simp add: suite_ok_def suite3_def)
  moreover have "length (concat (List.map suite_record (replicate 15 suite3))) \<le> 1024"
    by (simp add: length_concat suite_record_def suite3_def sum_list_replicate)
  ultimately show ?thesis
    using getciphers_shows_twelve [of "replicate 15 suite3" 1 "''ipmi''"] by simp
qed

text \<open>Setting a password at the prompt accepts a second entry that is only a beginning of the first,
  even the empty one, and sets the first.\<close>

theorem password_prefix_confirms:
  "ipmi_user_password mem (Some (p @ q)) (Some p) send [a, b, u] st =
   ipmi_user_password mem r s send [a, b, u, p @ q] st"
  by (cases "arg is_ipmi_user_id u") (simp_all add: ipmi_user_password_def asked_twice_def Let_def password_type_def)

section \<open>Listing users\<close>

text \<open>
  A device with users 1 to \<open>n\<close>: access and name of each.
\<close>

definition users_bmc :: "nat \<Rightarrow> (nat \<Rightarrow> byte) \<Rightarrow> (nat \<Rightarrow> bytes) \<Rightarrow> ipmi_rq \<Rightarrow> (byte \<times> bytes) option" where
  "users_bmc n acc name rq =
     (if rq_cmd rq = 0x44 then Some (0, [of_nat n, 1, 1, acc (unat (rq_data rq ! 1))])
      else if rq_cmd rq = 0x46 then Some (0, name (unat (rq_data rq ! 0))) else None)"

definition user_row :: "byte \<Rightarrow> nat \<Rightarrow> (nat \<Rightarrow> byte) \<Rightarrow> (nat \<Rightarrow> bytes) \<Rightarrow> nat \<Rightarrow> user_access_t \<times> bytes" where
  "user_row c n acc name i =
     (no_access\<lparr>ua_user_id := of_nat i, ua_channel := c, ua_max_user_ids := of_nat n, ua_enable_status := 0,
        ua_enabled_user_ids := 1, ua_fixed_user_ids := 1, ua_callin_callback := acc i AND 0x40,
        ua_link_auth := acc i AND 0x20, ua_ipmi_messaging := acc i AND 0x10, ua_privilege_limit := acc i AND 0x0F\<rparr>,
      name i)"

lemma uid_small: "i < 64 \<Longrightarrow> IPMI_UID (of_nat i) = of_nat i"
  using less_mask_eq [of "of_nat i :: byte" 6]
  by (simp add: IPMI_UID_def mask_numeral word_less_nat_alt unat_of_nat)

definition user_requests :: "byte \<Rightarrow> nat \<Rightarrow> ipmi_rq list" where
  "user_requests c i = [mk_rq IPMI_NETFN_APP 0x44 [c AND 0x0F, of_nat i], mk_rq IPMI_NETFN_APP 0x46 [of_nat i]]"

lemma read_user_row:
  assumes "0 < n" "n < 64" "i < 64" "\<forall>i. length (name i) = 16"
  shows "read_user (device (users_bmc n acc name)) c (of_nat i) seen =
    Inr (Some (user_row c n acc name i), seen @ user_requests c i)"
  using assms
  by (simp add: read_user_def ipmi_get_user_access_bmc_def ipmi_get_user_name_bmc_def ask_def device_def users_bmc_def
      user_cmds uid_small unat_of_nat user_row_def user_requests_def eval_ccode_def take_reply no_access_def)
    (simp add: IPMI_UID_def)


lemma user_list_from:
  assumes "0 < n" "n < 64" "0 < i" "i \<le> n" "i + k = 63" "\<forall>i. length (name i) = 16"
  shows "user_list_loop (device (users_bmc n acc name)) c k (of_nat i) seen =
    Inr (0, List.map (user_row c n acc name) [i ..< Suc n], seen @ concat (List.map (user_requests c) [i ..< Suc n]))"
  using assms
proof (induction k arbitrary: i seen)
  case 0
  then have n: "i = n" "[i ..< Suc n] = [n]"
    by simp_all
  show ?case
    unfolding n using 0 read_user_row [of n n name acc c seen]
    by (subst user_list_loop.simps) (simp add: case_prod_beta)
next
  case (Suc k)
  have more: "(of_nat i + 1 :: byte) \<le> of_nat n \<longleftrightarrow> i < n"
    using Suc.prems unat_of_nat [where 'a = 8, of "Suc i"] by (simp add: word_le_nat_alt unat_of_nat Suc_le_eq add.commute)
  have max: "ua_max_user_ids (fst (user_row c n acc name i)) = of_nat n"
    by (simp add: user_row_def)
  show ?case
  proof (cases "i < n")
    case True
    have "user_list_loop (device (users_bmc n acc name)) c k (of_nat (Suc i)) (seen @ user_requests c i) =
      Inr (0, List.map (user_row c n acc name) [Suc i ..< Suc n],
        (seen @ user_requests c i) @ concat (List.map (user_requests c) [Suc i ..< Suc n]))"
      using Suc True by (intro Suc.IH) auto
    moreover have "[i ..< Suc n] = i # [Suc i ..< Suc n]"
      using True by (simp add: upt_conv_Cons)
    ultimately show ?thesis
      using Suc.prems more max True
      by (subst user_list_loop.simps) (simp add: read_user_row case_prod_beta add.commute del: upt_Suc)
  next
    case False
    then have "[i ..< Suc n] = [i]"
      using Suc.prems by simp
    then show ?thesis
      using Suc.prems more max False
      by (subst user_list_loop.simps) (simp add: read_user_row case_prod_beta del: upt_Suc)
  qed
qed

text \<open>On a device with \<open>n\<close> users, \<open>user list\<close> asks for the access and the name of users 1 to \<open>n\<close>, each once
  and in order, and shows what the device holds of them.\<close>

theorem user_list_complete:
  assumes "0 < n" "n < 64" "\<forall>i. length (name i) = 16"
  shows "ipmi_print_user_list (device (users_bmc n acc name)) c seen =
    Inr (0, List.map (user_row c n acc name) [1 ..< Suc n], seen @ concat (List.map (user_requests c) [1 ..< Suc n]))"
  using assms user_list_from [of n 1 62 name acc c seen] by (simp add: ipmi_print_user_list_def)

theorem user_list_complete_witness:
  "ipmi_print_user_list (device (users_bmc 2 (\<lambda>i. 0x14) (\<lambda>i. replicate 16 65))) 1 [] =
    Inr (0, List.map (user_row 1 2 (\<lambda>i. 0x14) (\<lambda>i. replicate 16 65)) [1, 2], concat (List.map (user_requests 1) [1, 2]))"
  using user_list_complete [of 2 "\<lambda>i. replicate 16 65" "\<lambda>i. 0x14" 1 "[]"]
  by (simp add: upt_rec numeral_2_eq_2)

end
