(* ===== verification/LanplusOpenProps.thy ===== *)
theory LanplusOpenProps
  imports LanplusHonest ChannelProps
begin

text \<open>
  Opening against a device that does not answer, and the choice of the cipher suite against a
  device with a list of suites.
\<close>

section \<open>A silent device\<close>

lemma request_silent:
  assumes q: "quiet st" "state_after b = Some q" "may_send b (session_state (st_ssn st))" "st_net st = []"
  shows "\<exists>st'. lanplus_request cr (handshake_payload b n) st = Inr (None, st') \<and> quiet st' \<and>
    st_net st' = [] \<and> session_state (st_ssn st') = q \<and> st_intf st' = st_intf st"
proof -
  obtain k where k: "nat (retry (ssn_params (st_intf st))) = Suc k"
    using q(1) gr0_implies_Suc [of "nat (retry (ssn_params (st_intf st)))"] by (auto simp: quiet_def)
  obtain p' and st1 :: lp_state where t: "transmit cr False None (handshake_payload b n) st = Inr (True, None, p', st1)" "pl_body p' = b"
      "core (st_ssn st1) = core (st_ssn st)" "st_net st1 = st_net st" "st_rsp st1 = st_rsp st"
      "st_intf st1 = st_intf st" "st_rand st1 = st_rand st" "st_send_fails st1 = []"
    using transmit_handshake [OF q(2,3), of cr False None n] q(1) by (auto simp: quiet_def)
  define st2 where "st2 = on_ssn (\<lambda>n. n\<lparr>session_state := q\<rparr>) st1"
  have st2: "quiet st2" "st_net st2 = []" "session_state (st_ssn st2) = q" "st_intf st2 = st_intf st"
    using q(1,4) t(3-8) by (simp_all add: st2_def quiet_def on_ssn_def)
  have "poll_answer cr st2 = Inr (False, st2)"
    using st2(2) by (subst poll_answer.simps) simp
  then have aw: "await cr (ipmi_lanplus_recv_sol cr) p' None False st2 = Inr (False, False, st2)"
    using t(2) q(2) by (cases b) (simp_all add: await_def state_after_def)
  obtain late st4 where late: "timed_out st2 = (late, st4)"
    by fastforce
  then have st4: "st4 = st2\<lparr>st_late := tl (st_late st2)\<rparr>"
    by (simp add: timed_out_def)
  define st5 where "st5 = on_ssn (\<lambda>x. x\<lparr>ssn_timeout := ssn_timeout (st_ssn st)\<rparr>)
    (if late then on_ssn (\<lambda>s. s\<lparr>ssn_timeout := ssn_timeout s + 1\<rparr>) st4 else st4)"
  have "send_opened cr (ipmi_lanplus_recv_sol cr) (handshake_payload b n) st = Inr (False, p', st5)"
    using t q k aw late by (simp add: send_opened_def st2_def [symmetric] quiet_def Let_def finish_def st5_def)
  then have "lanplus_request cr (handshake_payload b n) st = Inr (None, st5)"
    by (simp add: lanplus_request_def)
  then show ?thesis
    using st2 by (intro exI [of _ st5]) (simp add: st5_def st4 on_ssn_def quiet_def)
qed

lemma open_session_silent:
  assumes q: "quiet st" "session_state (st_ssn st) = LANPLUS_STATE_PRESESSION" "st_net st = []"
    and alg: "lanplus_get_requested_ciphers (cipher_suite_id (ssn_params (st_intf st))) = Some (a, g, c)"
  shows "\<exists>st'. ipmi_lanplus_open_session cr st = Inr (2, st') \<and> quiet st' \<and> st_net st' = [] \<and>
    session_state (st_ssn st') = LANPLUS_STATE_OPEN_SESSION_SENT \<and> st_intf st' = st_intf st"
proof -
  let ?b = "BOpenRequest (open_session_msg (st_intf st) (a, g, c))"
  define st2 where "st2 = on_ssn (\<lambda>s. s\<lparr>console_id := 0xA0A2A3A4, requested_auth_alg := a, requested_integrity_alg := g,
      requested_crypt_alg := c\<rparr>) st"
  have st2: "quiet st2" "may_send ?b (session_state (st_ssn st2))" "st_net st2 = []" "st_intf st2 = st_intf st"
    using q by (simp_all add: st2_def on_ssn_def quiet_def may_send_def)
  obtain st3 where "lanplus_request cr (handshake_payload ?b 32) st2 = Inr (None, st3)" "quiet st3"
    "st_net st3 = []" "session_state (st_ssn st3) = LANPLUS_STATE_OPEN_SESSION_SENT" "st_intf st3 = st_intf st"
    using request_silent [OF st2(1) _ st2(2,3), of LANPLUS_STATE_OPEN_SESSION_SENT] st2(4) by (auto simp: state_after_def)
  then show ?thesis
    using alg by (simp add: ipmi_lanplus_open_session_def Let_def st2_def on_ssn_def)
qed

lemma handshake_silent:
  assumes "quiet st" "st_net st = []" "lanplus_get_requested_ciphers (cipher_suite_id (ssn_params (st_intf st))) = Some (a, g, c)"
    and "session_state (st_ssn st) \<noteq> LANPLUS_STATE_ACTIVE"
  shows "\<exists>st'. handshake cr k st = Inr (True, st') \<and> session_state (st_ssn st') \<noteq> LANPLUS_STATE_ACTIVE \<and> st_intf st' = st_intf st"
  using assms
proof (induction k arbitrary: st)
  case 0
  then show ?case
    by (simp add: handshake.simps)
next
  case (Suc k)
  define st0 where "st0 = on_ssn (\<lambda>s. s\<lparr>session_state := LANPLUS_STATE_PRESESSION\<rparr>) st"
  have st0: "quiet st0" "session_state (st_ssn st0) = LANPLUS_STATE_PRESESSION" "st_net st0 = []" "st_intf st0 = st_intf st"
    using Suc.prems by (simp_all add: st0_def on_ssn_def quiet_def)
  obtain st1 where 1: "ipmi_lanplus_open_session cr st0 = Inr (2, st1)" "quiet st1" "st_net st1 = []"
    "session_state (st_ssn st1) = LANPLUS_STATE_OPEN_SESSION_SENT" "st_intf st1 = st_intf st"
    using open_session_silent [OF st0(1-3), of a g c cr] Suc.prems(3) st0(4) by auto
  have "handshake cr (Suc k) st = handshake cr k st1"
    using 1(1) by (subst handshake.simps) (simp add: st0_def [symmetric])
  then show ?case
    using Suc.IH [OF 1(2,3)] Suc.prems(3) 1(4,5) by simp
qed

text \<open>When a device of type \<open>i82571spt\<close> never answers, opening reports success all the same: after
  the attempts have timed out the loop is left like after a success, and the descriptor is
  returned although the session is not active.\<close>

theorem lanplus_open_silent_succeeds:
  assumes "\<not> opened (st_intf st)" "st_net st = []" "ipmi_oem_active (st_intf st) ''i82571spt''" "\<not> noanswer (st_intf st)"
    and "hostname (ssn_params (st_intf st)) = Some (ch # chs)" "0 \<le> retry (ssn_params (st_intf st))"
    and "lanplus_get_requested_ciphers (cipher_suite_id (ssn_params (st_intf st))) = Some (a, g, c)"
    and "st_send_fails st = []" "length (rs_data (st_rsp st)) = 1024" "rs_ccode (st_rsp st) \<noteq> 0xCF"
  shows "\<exists>st'. ipmi_lanplus_open cr sel_iana (True, n) st = Inr (n, st') \<and> session_state (st_ssn st') \<noteq> LANPLUS_STATE_ACTIVE"
proof -
  define st3 where "st3 = (on_intf (\<lambda>i. i\<lparr>opened := True, intf_abort := True\<rparr>) (on_intf (\<lambda>i. i\<lparr>fd := n\<rparr>)
      (on_intf (on_params default_params) st)))
    \<lparr>st_live := True, st_ssn := new_session (default_params (ssn_params (st_intf st)))\<rparr>"
  have suite: "cipher_suite_id (ssn_params (st_intf st)) \<noteq> 0xFF"
    using assms(7) by (auto simp: lanplus_get_requested_ciphers_def)
  have "quiet st3" "st_net st3 = []" "session_state (st_ssn st3) \<noteq> LANPLUS_STATE_ACTIVE"
    using assms by (simp_all add: st3_def quiet_def on_intf_def on_params_def default_params_def new_session_def)
  moreover have i3: "ssn_params (st_intf st3) = default_params (ssn_params (st_intf st))" "fd (st_intf st3) = n"
    "ipmi_oem_active (st_intf st3) ''i82571spt''"
    using assms(3) by (simp_all add: st3_def on_intf_def on_params_def ipmi_oem_active_def)
  ultimately obtain st4 where h: "handshake cr 4 st3 = Inr (True, st4)" "session_state (st_ssn st4) \<noteq> LANPLUS_STATE_ACTIVE"
    "st_intf st4 = st_intf st3"
    using handshake_silent [of st3 a g c cr 4] assms(7) by (auto simp: default_params_def)
  have "establish cr sel_iana st3 = Inr (True, (on_intf (\<lambda>i. i\<lparr>intf_abort := False\<rparr>) st4)\<lparr>st_bridge := True\<rparr>)"
    using h i3 suite by (simp add: establish_def rmcpplus_supported_def choose_suite_def after_handshake_def Let_def default_params_def)
  moreover have "ipmi_lanplus_open cr sel_iana (True, n) st =
      bind_ok (establish cr sel_iana st3) (\<lambda>(ok, st4).
        if ok then Inr (fd (st_intf st4), st4) else bind_ok (ipmi_lanplus_close cr st4) (\<lambda>s'. Inr (-1, s')))"
    using assms(1,5) by (simp add: ipmi_lanplus_open_def st3_def on_intf_def on_params_def default_params_def Let_def)
  ultimately show ?thesis
    using h i3(2) by (simp add: on_intf_def)
qed

theorem lanplus_open_silent_succeeds_witness:
  "\<exists>st'. ipmi_lanplus_open plain_crypto 0 (True, 3) ((before_open [] [])\<lparr>st_net := []\<rparr>) = Inr (3, st') \<and>
     session_state (st_ssn st') \<noteq> LANPLUS_STATE_ACTIVE"
  by (rule lanplus_open_silent_succeeds [where ch = "CHR ''b''" and chs = "''mc''" and a = 1 and g = 1 and c = 1])
    (simp_all add: before_open_def closed_intf_def sample_lp_def sample_rs_def sample_intf_def sample_params_def
      ipmi_oem_active_def lanplus_get_requested_ciphers_def alg_defs)

section \<open>The cipher suite\<close>

lemma best_suite_set: "best_suite (Some ss) = (if 17 \<in> cs_id ` set ss then 17 else 3)"
  by (auto simp: best_suite_def image_iff)

text \<open>Asked to choose the cipher suite, the program reads the device's whole list and takes suite 17
  when the device offers it and suite 3 when not.\<close>

theorem lanplus_best_suite:
  assumes "\<forall>s \<in> set ss. suite_ok s" "length ss \<le> 204" "length (concat (List.map suite_record ss)) \<le> 1024"
  shows "\<exists>seen. ipmi_find_best_cipher_suite (device (suites_bmc ch (concat (List.map suite_record ss)))) [] =
    Inr (if \<exists>s \<in> set ss. cs_id s = 17 then 17 else 3, seen)"
  using assms suites_read [OF assms(3), of 204 ch "''ipmi''" "0x0E" "[]"] parse_suites_back [OF assms(1,2), of "[]"]
  by (auto simp: ipmi_find_best_cipher_suite_def MAX_CIPHER_SUITE_COUNT_def best_suite_set image_iff)

theorem lanplus_best_suite_witness:
  "\<exists>seen. ipmi_find_best_cipher_suite (device (suites_bmc 1 (concat (List.map suite_record [suite3, suite3\<lparr>cs_id := 17\<rparr>])))) [] =
     Inr (17, seen)"
  using lanplus_best_suite [of "[suite3, suite3\<lparr>cs_id := 17\<rparr>]" 1]
  by (simp add: suite_ok_def suite3_def suite_record_def)

end
