(* ===== verification/Fru.thy ===== *)
theory Fru
  imports Sendrecv Helper
begin

text \<open>
  The FRU inventory, \<open>lib/ipmi_fru.c\<close>: reading and writing the device's memory in pieces, the
  blocks of the memory, the text of the fields, and the commands that print, save, restore and edit
  it. \<open>i\<close> is the interface the sizes of messages are taken from; memory is available. A buffer
  a function writes to is an argument, the bytes from the pointer on.
\<close>

section \<open>Data\<close>

record fru_info =
  fru_size :: u16
  fru_access :: bool
  max_read_size :: byte
  max_write_size :: byte

record fru_header =
  fh_version :: byte
  fh_internal :: byte
  fh_chassis :: byte
  fh_board :: byte
  fh_product :: byte
  fh_multi :: byte
  fh_pad :: byte
  fh_checksum :: byte

definition GET_FRU_INFO :: byte where "GET_FRU_INFO = 0x10"
definition GET_FRU_DATA :: byte where "GET_FRU_DATA = 0x11"
definition SET_FRU_DATA :: byte where "SET_FRU_DATA = 0x12"
definition FRU_END_OF_FIELDS :: byte where "FRU_END_OF_FIELDS = 0xc1"
definition IPMI_CC_FRU_WRITE_PROTECTED_OFFSET :: byte where "IPMI_CC_FRU_WRITE_PROTECTED_OFFSET = 0x80"

lemmas fru_cmds = GET_FRU_INFO_def GET_FRU_DATA_def SET_FRU_DATA_def

definition fru_cc_rq2big :: "byte \<Rightarrow> bool" where
  "fru_cc_rq2big code \<longleftrightarrow> code = 0xc7 \<or> code = 0xc8 \<or> code = 0xca"

definition read_header :: "bytes \<Rightarrow> fru_header" where
  "read_header d = \<lparr>fh_version = d ! 0, fh_internal = d ! 1, fh_chassis = d ! 2, fh_board = d ! 3, fh_product = d ! 4,
     fh_multi = d ! 5, fh_pad = d ! 6, fh_checksum = d ! 7\<rparr>"

definition header_bytes :: "fru_header \<Rightarrow> bytes" where
  "header_bytes h = [fh_version h, fh_internal h, fh_chassis h, fh_board h, fh_product h, fh_multi h, fh_pad h, fh_checksum h]"

section \<open>Checksum and text\<close>

text \<open>The sum of all bytes but the last, negated.\<close>

definition fru_calc_checksum :: "bytes \<Rightarrow> nat \<Rightarrow> byte" where
  "fru_calc_checksum area len = - sum_list (take (len - 1) area)"

definition fru_checksum_is_valid :: "bytes \<Rightarrow> nat \<Rightarrow> bool" where
  "fru_checksum_is_valid area len \<longleftrightarrow> area ! (len - 1) = fru_calc_checksum area len"

definition bcd_plus :: string where "bcd_plus = ''0123456789 -.:,_''"

definition bcd_text :: "bytes \<Rightarrow> string" where
  "bcd_text d = concat (List.map (\<lambda>b. [bcd_plus ! unat (drop_bit 4 b AND 0x0f), bcd_plus ! unat (b AND 0x0f)]) d)"

text \<open>Groups of up to 3 bytes, each read as a little-endian number of four 6-bit digits.\<close>

definition sixbit_group :: "bytes \<Rightarrow> string" where
  "sixbit_group g = (let w = of_le32 (g @ replicate (4 - length g) 0) in
     List.map (\<lambda>n. char_of (unat ((drop_bit (6 * n) w AND 0x3f) + 0x20))) [0, 1, 2, 3])"

fun sixbit_text :: "bytes \<Rightarrow> string" where
  "sixbit_text [] = []"
| "sixbit_text (b # bs) = sixbit_group (take 3 (b # bs)) @ sixbit_text (drop 2 bs)"

text \<open>
  The text of the field at \<open>off\<close>, \<open>None\<close> for an empty one, and the offset behind it. The length
  byte and the field's bytes are read wherever they lie.
\<close>

definition get_fru_area_str :: "bytes \<Rightarrow> nat \<Rightarrow> (string option \<times> nat) outcome" where
  "get_fru_area_str data off =
     (if length data \<le> off then Inl OutOfBounds
      else let typecode = unat (drop_bit 6 (data ! off)); len = unat (data ! off AND 0x3f); off1 = off + 1;
               d = region data off1 len
           in if typecode \<noteq> 2 \<and> len = 0 then Inr (None, off1)
              else if length data < off1 + len then Inl OutOfBounds
              else Inr (Some (if typecode = 0 then concat (List.map hex_byte d)
                              else if typecode = 1 then bcd_text d
                              else if typecode = 2 then sixbit_text d
                              else List.map (\<lambda>b. char_of (unat b)) d), off1 + len))"

section \<open>Reading\<close>

text \<open>The first read of a FRU device fixes the size of its requests; \<open>None\<close> is the error.\<close>

definition init_read_size :: "ipmi_intf \<Rightarrow> fru_info \<Rightarrow> fru_info option" where
  "init_read_size i fru =
     (if max_read_size fru \<noteq> 0 then Some fru
      else let m = ipmi_intf_get_max_response_data_size i - 1 in
        if m \<le> 1 then None
        else let n = (if 255 < m - 1 then 255 else ucast (m - 1)) in
          Some (fru\<lparr>max_read_size := (if fru_access fru then n AND NOT 1 else n)\<rparr>))"

definition fru_read_rq :: "byte \<Rightarrow> bool \<Rightarrow> nat \<Rightarrow> nat \<Rightarrow> ipmi_rq" where
  "fru_read_rq fid access off n =
     (let a = (if access then off div 2 else off) in
      mk_rq IPMI_NETFN_STORAGE GET_FRU_DATA [fid, of_nat a, of_nat (a div 256), of_nat n])"

text \<open>
  The next request size after the device found one too big, and whether to try again:
  \<open>max_read_size\<close> in \<open>read_fru_area\<close>, and in \<open>read_fru_area_section\<close> the static variable, which is
  decremented first and wraps below 0.
\<close>

definition shrink_read :: "bool \<Rightarrow> u32 \<Rightarrow> u32 \<times> bool" where
  "shrink_read section z =
     (if section then (z - 1, 8 < z - 1)
      else if 8 < z then (if 32 < z then z - 8 else z - 1, True) else (z, False))"

definition shrink_measure :: "u32 \<Rightarrow> nat" where
  "shrink_measure z = (if z = 0 then 2 ^ 32 else unat z)"

lemma shrink_measure_less: "shrink_read section z = (z', True) \<Longrightarrow> shrink_measure z' < shrink_measure z"
proof -
  assume h: "shrink_read section z = (z', True)"
  have z: "unat z < 2 ^ 32"
    using unsigned_less [of z] by simp
  have minus: "unat (z - n) = unat z - unat n" if "n \<le> z" for n
    using that by (simp add: unat_sub word_le_nat_alt)
  show ?thesis
  proof (cases "z = 0")
    case True
    then show ?thesis
      using h unsigned_less [of z'] by (auto simp: shrink_read_def shrink_measure_def split: if_splits)
  next
    case False
    then have "1 \<le> z"
      by (simp add: word_le_nat_alt unat_gt_0 Suc_leI)
    consider "z' = z - 1" "8 < z - 1" | "z' = z - 8" "32 < z" | "z' = z - 1" "8 < z" "z \<le> 32"
      using h by (auto simp: shrink_read_def split: if_splits)
    then show ?thesis
    proof cases
      case 1
      then show ?thesis
        using False \<open>1 \<le> z\<close> minus [of 1] z by (auto simp: shrink_measure_def word_less_nat_alt)
    next
      case 2
      then show ?thesis
        using False minus [of 8] z by (auto simp: shrink_measure_def word_less_nat_alt word_le_nat_alt)
    next
      case 3
      then show ?thesis
        using False \<open>1 \<le> z\<close> minus [of 1] z by (auto simp: shrink_measure_def word_less_nat_alt)
    qed
  qed
qed

text \<open>
  The loop of both readers. \<open>z\<close> is the request size, \<open>p\<close> the position in the buffer; the space left
  in the buffer is \<open>finish - off\<close>. The result is the return value, the buffer, the request size and
  the transport's state.
\<close>

function read_loop :: "'s sendrecv \<Rightarrow> bool \<Rightarrow> byte \<Rightarrow> bool \<Rightarrow> nat \<Rightarrow> nat \<Rightarrow> nat \<Rightarrow> bytes \<Rightarrow> u32 \<Rightarrow> 's
    \<Rightarrow> (int \<times> bytes \<times> u32 \<times> 's) outcome" where
  "read_loop send section fid access finish off p buf z st =
     (case send (fru_read_rq fid access off (min (finish - off) (unat z))) st of
        Inl f \<Rightarrow> Inl f
      | Inr (None, st1) \<Rightarrow> Inr (if off < finish then -1 else 0, buf, z, st1)
      | Inr (Some rsp, st1) \<Rightarrow>
          if rs_ccode rsp \<noteq> 0 then
            (case (if fru_cc_rq2big (rs_ccode rsp) then shrink_read section z else (z, False)) of
               (z1, again) \<Rightarrow>
                 if again \<and> off < finish then read_loop send section fid access finish off p buf z1 st1
                 else Inr (if off < finish then -1 else 0, buf, z1, st1))
          else
            let n = (if access then 2 * unat (rs_data rsp ! 0) else unat (rs_data rsp ! 0)) in
            if rs_data_len rsp < 1 \<or> rs_data_len rsp - 1 < int n \<or> finish - off < n then Inr (-1, buf, z, st1)
            else if length buf < p + n then Inl OutOfBounds
            else let buf1 = put_at buf p (region (rs_data rsp) 1 n) in
              if n = 0 \<or> finish \<le> off + n then Inr (0, buf1, z, st1)
              else read_loop send section fid access finish (off + n) (p + n) buf1 z st1)"
  by pat_completeness auto

termination
  by (relation "measure (\<lambda>(send, section, fid, access, finish, off, p, buf, z, st). (finish - off) + shrink_measure z)")
    (auto split: if_splits dest!: shrink_measure_less [OF sym])

declare read_loop.simps [simp del]

text \<open>
  The checks before the loop: the range read, and the buffer, or the error. When the range ends behind
  the memory, \<open>memset\<close> clears from the memory's size on, counted from the buffer's start; its
  count \<open>length - size\<close> is a 32-bit difference.
\<close>

definition read_range :: "fru_info \<Rightarrow> nat \<Rightarrow> nat \<Rightarrow> bytes \<Rightarrow> (nat \<times> bytes) outcome" where
  "read_range fru offset len buf =
     (let sz = unat (fru_size fru) in
      if offset + len \<le> sz then Inr (offset + len, buf)
      else let n = nat ((int len - int sz) mod 2 ^ 32) in
        if length buf < sz + n then Inl OutOfBounds else Inr (sz, put_at buf sz (replicate n 0)))"

definition read_fru_area :: "'s sendrecv \<Rightarrow> ipmi_intf \<Rightarrow> fru_info \<Rightarrow> byte \<Rightarrow> nat \<Rightarrow> nat \<Rightarrow> bytes \<Rightarrow> 's
    \<Rightarrow> (int \<times> bytes \<times> fru_info \<times> 's) outcome" where
  "read_fru_area send i fru fid offset len buf st =
     (if unat (fru_size fru) < offset then Inr (-1, buf, fru, st)
      else bind_ok (read_range fru offset len buf) (\<lambda>(finish, buf1).
        case init_read_size i fru of
          None \<Rightarrow> Inr (-1, buf1, fru, st)
        | Some fru1 \<Rightarrow>
            bind_ok (read_loop send False fid (fru_access fru1) finish offset 0 buf1 (ucast (max_read_size fru1)) st)
              (\<lambda>(rc, buf2, z, st1). Inr (rc, buf2, fru1\<lparr>max_read_size := ucast z\<rparr>, st1))))"

lemma read_keeps:
  assumes "read_fru_area send i fru fid offset len buf st = Inr (rc, buf', fru', st')"
  shows "fru_size fru' = fru_size fru \<and> fru_access fru' = fru_access fru \<and> max_write_size fru' = max_write_size fru"
proof -
  have f: "fru_size f = fru_size fru \<and> fru_access f = fru_access fru \<and> max_write_size f = max_write_size fru"
    if "init_read_size i fru = Some f" for f
    using that by (auto simp: init_read_size_def Let_def split: if_splits)
  show ?thesis
  proof (cases "init_read_size i fru")
    case None
    then show ?thesis
      using assms by (auto simp: read_fru_area_def bind_ok_Inr_iff split: if_split_asm)
  next
    case (Some g)
    then consider "fru' = fru" | z where "g\<lparr>max_read_size := ucast (z :: u32)\<rparr> = fru'"
      using assms by (auto simp: read_fru_area_def bind_ok_Inr_iff split: if_split_asm)
    then show ?thesis
      using f [OF Some] by cases auto
  qed
qed

text \<open>\<open>rqst\<close> is the static \<open>fru_data_rqst_size\<close>, 20 at first.\<close>

definition read_fru_area_section :: "'s sendrecv \<Rightarrow> fru_info \<Rightarrow> byte \<Rightarrow> nat \<Rightarrow> nat \<Rightarrow> bytes \<Rightarrow> u32 \<Rightarrow> 's
    \<Rightarrow> (int \<times> bytes \<times> u32 \<times> 's) outcome" where
  "read_fru_area_section send fru fid offset len buf rqst st =
     (if unat (fru_size fru) < offset then Inr (-1, buf, rqst, st)
      else bind_ok (read_range fru offset len buf) (\<lambda>(finish, buf1).
        read_loop send True fid (fru_access fru) finish offset 0 buf1
          (if fru_access fru \<and> 16 < rqst then 16 else rqst) st))"

section \<open>The blocks of the memory\<close>

datatype bloc_id = Common_Header | Section nat | Multi_Rec byte | Unused_Space

record fru_bloc =
  fb_start :: u16
  fb_size :: u16
  fb_id :: bloc_id

text \<open>A new block at the end of the list, up to the memory's end; the one before it ends there.\<close>

definition add_bloc :: "u16 \<Rightarrow> u16 \<Rightarrow> bloc_id \<Rightarrow> fru_bloc list \<Rightarrow> fru_bloc list" where
  "add_bloc sz start name bs =
     butlast bs @ [(last bs)\<lparr>fb_size := start - fb_start (last bs)\<rparr>] @
     [\<lparr>fb_start = start, fb_size = sz - start, fb_id = name\<rparr>]"

definition section_blocs :: "u16 \<Rightarrow> fru_header \<Rightarrow> fru_bloc list \<Rightarrow> fru_bloc list" where
  "section_blocs sz h bs =
     fold (\<lambda>(k, o8) bs. if o8 \<noteq> 0 then add_bloc sz (8 * ucast (o8 :: byte)) (Section k) bs else bs)
       [(0, fh_internal h), (1, fh_chassis h), (2, fh_board h), (3, fh_product h)] bs"

text \<open>
  The records from \<open>off\<close> on: \<open>hdr\<close> is the record header on the stack, with its former content. The
  result is the offset behind the records and the blocks.
\<close>

function multirec_blocs :: "'s sendrecv \<Rightarrow> ipmi_intf \<Rightarrow> fru_info \<Rightarrow> byte \<Rightarrow> nat \<Rightarrow> bytes \<Rightarrow> fru_bloc list \<Rightarrow> 's
    \<Rightarrow> (nat \<times> fru_bloc list \<times> fru_info \<times> 's) outcome" where
  "multirec_blocs send i fru fid off hdr bs st =
     (if fru_access fru \<and> odd off then Inr (off + 1, bs, fru, st)
      else case read_fru_area send i fru fid off 5 hdr st of
        Inl f \<Rightarrow> Inl f
      | Inr (rc, hdr1, fru1, st1) \<Rightarrow>
          if rc < 0 then Inr (off, bs, fru1, st1)
          else let bs1 = add_bloc (fru_size fru1) (of_nat off) (Multi_Rec (hdr1 ! 0)) bs;
                   off1 = off + unat (hdr1 ! 2) + 5
               in if ipmi_csum hdr1 5 = 0 \<and> hdr1 ! 1 AND 0x80 = 0 \<and> off1 < unat (fru_size fru1)
                  then multirec_blocs send i fru1 fid off1 hdr1 bs1 st1
                  else Inr (off1, bs1, fru1, st1))"
  by pat_completeness auto

termination
proof (relation "measure (\<lambda>(send, i, fru, fid, off, hdr, bs, st). unat (fru_size fru) - off)")
  fix send :: "'s sendrecv" and i fru fid off hdr bs st rc hdr1 fru1 st1 bs1 off1 x y z w
  assume r: "read_fru_area send i fru fid off 5 hdr st = Inr w" "(rc, x) = w" "(hdr1, y) = x" "(fru1, st1) = y"
    and off1: "off1 = off + unat (hdr1 ! 2) + 5"
    and less: "ipmi_csum hdr1 5 = 0 \<and> hdr1 ! 1 AND 0x80 = 0 \<and> off1 < unat (fru_size fru1)"
  have "fru_size fru1 = fru_size fru"
    using read_keeps r by metis
  moreover have "off < off1" "off1 < unat (fru_size fru1)"
    using off1 less by simp_all
  ultimately have "unat (fru_size fru1) - off1 < unat (fru_size fru) - off"
    by (metis diff_less_mono2 less_trans)
  then show "((send, i, fru1, fid, off1, hdr1, bs1, st1), send, i, fru, fid, off, hdr, bs, st)
      \<in> measure (\<lambda>(send, i, fru, fid, off, hdr, bs, st). unat (fru_size fru) - off)"
    by (simp only: in_measure prod.case)
qed simp

declare multirec_blocs.simps [simp del]

text \<open>\<open>junk\<close> is the former content of the 5 bytes of the record header.\<close>

definition build_fru_bloc :: "'s sendrecv \<Rightarrow> ipmi_intf \<Rightarrow> bytes \<Rightarrow> fru_info \<Rightarrow> byte \<Rightarrow> 's
    \<Rightarrow> (fru_bloc list option \<times> fru_info \<times> 's) outcome" where
  "build_fru_bloc send i junk fru fid st =
     bind_ok (send (mk_rq IPMI_NETFN_STORAGE GET_FRU_DATA [fid, 0, 0, 8]) st) (\<lambda>(r, st1).
       case r of
         None \<Rightarrow> Inr (None, fru, st1)
       | Some rsp \<Rightarrow>
           if rs_ccode rsp \<noteq> 0 then Inr (None, fru, st1)
           else let d = region (rs_data rsp) 1 8; h = read_header d in
             if ipmi_csum d 8 \<noteq> 0 then Inr (None, fru, st1)
             else if fh_version h \<noteq> 1 then Inr (None, fru, st1)
             else let bs = section_blocs (fru_size fru) h
                             [\<lparr>fb_start = 0, fb_size = fru_size fru, fb_id = Common_Header\<rparr>] in
               if fh_multi h = 0 then Inr (Some bs, fru, st1)
               else bind_ok (multirec_blocs send i fru fid (8 * unat (fh_multi h)) junk bs st1) (\<lambda>(off, bs1, fru1, st2).
                 Inr (Some (if off < unat (fru_size fru1) then add_bloc (fru_size fru1) (of_nat off) Unused_Space bs1 else bs1),
                      fru1, st2)))"

section \<open>Writing\<close>

definition init_write_size :: "ipmi_intf \<Rightarrow> fru_info \<Rightarrow> fru_info option" where
  "init_write_size i fru =
     (if max_write_size fru \<noteq> 0 then Some fru
      else let m = ipmi_intf_get_max_request_data_size i in
        if m \<le> 3 then None
        else let n = (if 255 < m - 3 then 255 else ucast (m - 3)) in
          Some (fru\<lparr>max_write_size := (if fru_access fru then n AND NOT 1 else n)\<rparr>))"

definition fru_write_rq :: "byte \<Rightarrow> bool \<Rightarrow> nat \<Rightarrow> bytes \<Rightarrow> ipmi_rq" where
  "fru_write_rq fid access off d =
     (let a = (if access then off div 2 else off) in
      mk_rq IPMI_NETFN_STORAGE SET_FRU_DATA ([fid, of_nat a, of_nat (a div 256)] @ d))"

definition bloc_end :: "fru_bloc \<Rightarrow> nat" where
  "bloc_end b = unat (fb_start b) + unat (fb_size b)"

text \<open>
  One round of the loop; \<open>so\<close> and \<open>dof\<close> are the source and destination offsets, 16 bits wide. The
  result is whether the loop goes on, the rest of the blocks, the sizes and the offsets. A round
  may write nothing: with word access and a request size of 1.
\<close>

definition write_span :: "fru_info \<Rightarrow> fru_bloc list \<Rightarrow> nat \<Rightarrow> nat \<Rightarrow> nat \<times> nat" where
  "write_span fru bs finish dof =
     (let end_bloc = (if bs \<noteq> [] \<and> bloc_end (hd bs) < finish then bloc_end (hd bs) else finish)
      in (end_bloc, min ((end_bloc + 65536 - dof) mod 65536) (unat (max_write_size fru))))"

definition write_round :: "'s sendrecv \<Rightarrow> byte \<Rightarrow> nat \<Rightarrow> bytes \<Rightarrow> fru_bloc list \<Rightarrow> fru_info \<Rightarrow> nat \<Rightarrow> nat \<Rightarrow> 's
    \<Rightarrow> (bool \<times> fru_bloc list \<times> fru_info \<times> nat \<times> nat \<times> 's) outcome" where
  "write_round send fid finish buf blocs fru so dof st =
     (let bs = dropWhile (\<lambda>b. bloc_end b \<le> dof) blocs;
          (end_bloc, n) = write_span fru bs finish dof;
          n1 = (if fru_access fru then 2 * (n div 2) else n)
      in if length buf < so + n then Inl OutOfBounds
         else bind_ok (send (fru_write_rq fid (fru_access fru) dof (region buf so n1)) st) (\<lambda>(r, st1). Inr (
           case r of
             None \<Rightarrow> (False, bs, fru, so, dof, st1)
           | Some rsp \<Rightarrow>
               if fru_cc_rq2big (rs_ccode rsp) then
                 (if 32 < max_write_size fru
                  then (True, bs, fru\<lparr>max_write_size := max_write_size fru - 8\<rparr>, so, dof, st1)
                  else (False, bs, fru, so, dof, st1))
               else if rs_ccode rsp = IPMI_CC_FRU_WRITE_PROTECTED_OFFSET then
                 (True, bs, fru, (so + end_bloc + 65536 - dof) mod 65536, end_bloc, st1)
               else if rs_ccode rsp \<noteq> 0 then (False, bs, fru, so, dof, st1)
               else (True, bs, fru, (so + n1) mod 65536, (dof + n1) mod 65536, st1))))"

text \<open>The loop, for at most \<open>k\<close> rounds.\<close>

primrec write_loop :: "nat \<Rightarrow> 's sendrecv \<Rightarrow> byte \<Rightarrow> nat \<Rightarrow> bytes \<Rightarrow> fru_bloc list \<Rightarrow> fru_info \<Rightarrow> nat \<Rightarrow> nat \<Rightarrow> 's
    \<Rightarrow> (int \<times> fru_info \<times> 's) outcome" where
  "write_loop 0 send fid finish buf blocs fru so dof st = Inl Unfinished"
| "write_loop (Suc k) send fid finish buf blocs fru so dof st =
     bind_ok (write_round send fid finish buf blocs fru so dof st) (\<lambda>(go, bs, fru1, so1, dof1, st1).
       if go \<and> dof1 < finish then write_loop k send fid finish buf bs fru1 so1 dof1 st1
       else Inr (if finish \<le> dof1 then 1 else 0, fru1, st1))"

declare write_loop.simps [simp del]

text \<open>\<open>k\<close> is the number of rounds the loop is given.\<close>

definition write_fru_area :: "nat \<Rightarrow> 's sendrecv \<Rightarrow> ipmi_intf \<Rightarrow> bytes \<Rightarrow> fru_info \<Rightarrow> byte \<Rightarrow> nat \<Rightarrow> nat \<Rightarrow> nat \<Rightarrow> bytes \<Rightarrow> 's
    \<Rightarrow> (int \<times> fru_info \<times> 's) outcome" where
  "write_fru_area k send i junk fru fid so dof len buf st =
     (let finish = (dof + len) mod 65536 in
      if unat (fru_size fru) < finish then Inr (-1, fru, st)
      else if fru_access fru \<and> (odd dof \<or> odd len) then Inr (-1, fru, st)
      else bind_ok (build_fru_bloc send i junk fru fid st) (\<lambda>(blocs, fru1, st1).
        case init_write_size i fru1 of
          None \<Rightarrow> Inr (-1, fru1, st1)
        | Some fru2 \<Rightarrow>
            write_loop k send fid finish buf (case blocs of None \<Rightarrow> [] | Some bs \<Rightarrow> bs) fru2 so dof st1))"

end
