(* ===== verification/FruArea.thy ===== *)
theory FruArea
  imports Fru
begin

text \<open>
  The FRU commands that print the areas, save the memory to a file and restore it
  (\<open>lib/ipmi_fru.c\<close>). What is printed is a list of labels and texts; \<open>verbose\<close> is at most 0 where
  the multi-record area is left out. A file is its content.
\<close>

section \<open>The device\<close>

definition fru_inventory_info :: "'s sendrecv \<Rightarrow> byte \<Rightarrow> 's \<Rightarrow> (fru_info option \<times> 's) outcome" where
  "fru_inventory_info send fid st =
     bind_ok (send (mk_rq IPMI_NETFN_STORAGE GET_FRU_INFO [fid]) st) (\<lambda>(r, st1). Inr (
       case r of
         None \<Rightarrow> (None, st1)
       | Some rsp \<Rightarrow>
           if rs_ccode rsp \<noteq> 0 then (None, st1)
           else (Some \<lparr>fru_size = of_le16 (rs_data rsp), fru_access = bit (rs_data rsp ! 2) 0,
                       max_read_size = 0, max_write_size = 0\<rparr>, st1)))"

definition fru_common_header :: "'s sendrecv \<Rightarrow> byte \<Rightarrow> 's \<Rightarrow> (fru_header option \<times> 's) outcome" where
  "fru_common_header send fid st =
     bind_ok (send (mk_rq IPMI_NETFN_STORAGE GET_FRU_DATA [fid, 0, 0, 8]) st) (\<lambda>(r, st1). Inr (
       case r of
         None \<Rightarrow> (None, st1)
       | Some rsp \<Rightarrow> if rs_ccode rsp \<noteq> 0 then (None, st1) else (Some (read_header (region (rs_data rsp) 1 8)), st1)))"

section \<open>Printing an area\<close>

text \<open>
  Reading an area: its length in units of 8 bytes, then all of it, or nothing. \<open>junk\<close> is the
  former content of the two bytes \<open>tmp\<close>.
\<close>

definition read_area :: "'s sendrecv \<Rightarrow> ipmi_intf \<Rightarrow> bytes \<Rightarrow> fru_info \<Rightarrow> byte \<Rightarrow> nat \<Rightarrow> 's
    \<Rightarrow> (bytes option \<times> fru_info \<times> 's) outcome" where
  "read_area send i junk fru fid offset st =
     bind_ok (read_fru_area send i fru fid offset 2 junk st) (\<lambda>(rc, tmp, fru1, st1).
       let len = (if rc = 0 then 8 * unat (tmp ! 1) else 0) in
       if len = 0 then Inr (None, fru1, st1)
       else bind_ok (read_fru_area send i fru1 fid offset len (replicate len 0) st1) (\<lambda>(rc2, d, fru2, st2).
         Inr (if rc2 < 0 then None else Some d, fru2, st2)))"

type_synonym lines = "(string \<times> string) list"

definition line_of :: "string \<Rightarrow> string option \<Rightarrow> lines" where
  "line_of label s = (case s of None \<Rightarrow> [] | Some t \<Rightarrow> if c_string t = [] then [] else [(label, c_string t)])"

fun print_fields :: "bytes \<Rightarrow> string list \<Rightarrow> nat \<Rightarrow> (lines \<times> nat) outcome" where
  "print_fields d [] i = Inr ([], i)"
| "print_fields d (label # labels) i =
     bind_ok (get_fru_area_str d i) (\<lambda>(s, i1). bind_ok (print_fields d labels i1) (\<lambda>(ls, i2).
       Inr (line_of label s @ ls, i2)))"

lemma get_fru_area_str_less: "get_fru_area_str d i = Inr (s, i') \<Longrightarrow> i < i' \<and> i' \<le> length d"
  by (auto simp: get_fru_area_str_def Let_def split: if_splits)

function extra_fields :: "bytes \<Rightarrow> string \<Rightarrow> nat \<Rightarrow> lines outcome" where
  "extra_fields d label i =
     (if length d \<le> i \<or> d ! i = FRU_END_OF_FIELDS then Inr []
      else case get_fru_area_str d i of
        Inl f \<Rightarrow> Inl f
      | Inr (s, i1) \<Rightarrow> bind_ok (extra_fields d label i1) (\<lambda>ls. Inr (line_of label s @ ls)))"
  by pat_completeness auto

termination
  by (relation "measure (\<lambda>(d, label, i). length d - i)") (auto dest: get_fru_area_str_less)

declare extra_fields.simps [simp del]

text \<open>What is printed of an area; the date is in seconds since 1970.\<close>

record area_print =
  ap_chassis_type :: "nat option"
  ap_date :: "nat option"
  ap_lines :: lines
  ap_checksum_ok :: bool

definition print_area :: "bytes \<Rightarrow> nat option \<Rightarrow> nat option \<Rightarrow> string list \<Rightarrow> string \<Rightarrow> nat \<Rightarrow> area_print outcome" where
  "print_area d ctype date labels extra start =
     bind_ok (print_fields d labels start) (\<lambda>(ls, i). bind_ok (extra_fields d extra i) (\<lambda>es.
       Inr \<lparr>ap_chassis_type = ctype, ap_date = date, ap_lines = ls @ es,
            ap_checksum_ok = fru_checksum_is_valid d (length d)\<rparr>))"

definition chassis_labels :: "string list" where
  "chassis_labels = [''Chassis Part Number'', ''Chassis Serial'']"

definition board_labels :: "string list" where
  "board_labels = [''Board Mfg'', ''Board Product'', ''Board Serial'', ''Board Part Number'']"

definition product_labels :: "string list" where
  "product_labels = [''Product Manufacturer'', ''Product Name'', ''Product Part Number'', ''Product Version'',
     ''Product Serial'', ''Product Asset Tag'']"

text \<open>A FRU file id is read but printed in verbose mode only.\<close>

definition print_area_id :: "bytes \<Rightarrow> nat option \<Rightarrow> string list \<Rightarrow> string \<Rightarrow> nat \<Rightarrow> area_print outcome" where
  "print_area_id d date labels extra start =
     bind_ok (print_fields d labels start) (\<lambda>(ls, i). bind_ok (get_fru_area_str d i) (\<lambda>(s, i1).
       bind_ok (extra_fields d extra i1) (\<lambda>es.
         Inr \<lparr>ap_chassis_type = None, ap_date = date, ap_lines = ls @ es,
              ap_checksum_ok = fru_checksum_is_valid d (length d)\<rparr>)))"

definition fru_area_print_chassis :: "'s sendrecv \<Rightarrow> ipmi_intf \<Rightarrow> bytes \<Rightarrow> fru_info \<Rightarrow> byte \<Rightarrow> nat \<Rightarrow> 's
    \<Rightarrow> (area_print option \<times> fru_info \<times> 's) outcome" where
  "fru_area_print_chassis send i junk fru fid offset st =
     bind_ok (read_area send i junk fru fid offset st) (\<lambda>(r, fru1, st1).
       case r of None \<Rightarrow> Inr (None, fru1, st1)
       | Some d \<Rightarrow>
           bind_ok (print_area d (Some (if 29 < unat (d ! 2) then 2 else unat (d ! 2))) None
                      chassis_labels ''Chassis Extra'' 3) (\<lambda>a.
             Inr (Some a, fru1, st1)))"

definition ipmi_fru2time_t :: "bytes \<Rightarrow> nat" where
  "ipmi_fru2time_t d = (let ts = unat (ipmi24toh d) in if ts = 0 then 0xFFFFFFFF else ts * 60 + 820454400)"

definition fru_area_print_board :: "'s sendrecv \<Rightarrow> ipmi_intf \<Rightarrow> bytes \<Rightarrow> fru_info \<Rightarrow> byte \<Rightarrow> nat \<Rightarrow> 's
    \<Rightarrow> (area_print option \<times> fru_info \<times> 's) outcome" where
  "fru_area_print_board send i junk fru fid offset st =
     bind_ok (read_area send i junk fru fid offset st) (\<lambda>(r, fru1, st1).
       case r of None \<Rightarrow> Inr (None, fru1, st1)
       | Some d \<Rightarrow>
           bind_ok (print_area_id d (Some (ipmi_fru2time_t (drop 3 d))) board_labels ''Board Extra'' 6) (\<lambda>a.
             Inr (Some a, fru1, st1)))"

definition fru_area_print_product :: "'s sendrecv \<Rightarrow> ipmi_intf \<Rightarrow> bytes \<Rightarrow> fru_info \<Rightarrow> byte \<Rightarrow> nat \<Rightarrow> 's
    \<Rightarrow> (area_print option \<times> fru_info \<times> 's) outcome" where
  "fru_area_print_product send i junk fru fid offset st =
     bind_ok (read_area send i junk fru fid offset st) (\<lambda>(r, fru1, st1).
       case r of None \<Rightarrow> Inr (None, fru1, st1)
       | Some d \<Rightarrow>
           bind_ok (print_area_id d None product_labels ''Product Extra'' 3) (\<lambda>a. Inr (Some a, fru1, st1)))"

text \<open>One of the areas, skipped when its offset lies in the header.\<close>

definition maybe_area :: "(fru_info \<Rightarrow> byte \<Rightarrow> nat \<Rightarrow> 's \<Rightarrow> (area_print option \<times> fru_info \<times> 's) outcome) \<Rightarrow> byte \<Rightarrow> byte
    \<Rightarrow> fru_info \<Rightarrow> 's \<Rightarrow> (area_print list \<times> fru_info \<times> 's) outcome" where
  "maybe_area print o8 fid fru st =
     (if 8 * unat o8 < 8 then Inr ([], fru, st)
      else bind_ok (print fru fid (8 * unat o8) st) (\<lambda>(a, fru1, st1).
        Inr (case a of None \<Rightarrow> [] | Some x \<Rightarrow> [x], fru1, st1)))"

definition ipmi_fru_print_id :: "'s sendrecv \<Rightarrow> ipmi_intf \<Rightarrow> bytes \<Rightarrow> byte \<Rightarrow> 's \<Rightarrow> (int \<times> area_print list \<times> 's) outcome" where
  "ipmi_fru_print_id send i junk fid st =
     bind_ok (fru_inventory_info send fid st) (\<lambda>(info, st1).
       case info of
         None \<Rightarrow> Inr (-1, [], st1)
       | Some fru \<Rightarrow>
           if fru_size fru < 1 then Inr (-1, [], st1)
           else bind_ok (fru_common_header send fid st1) (\<lambda>(hdr, st2).
             case hdr of
               None \<Rightarrow> Inr (1, [], st2)
             | Some h \<Rightarrow>
                 if fh_version h \<noteq> 1 then Inr (-1, [], st2)
                 else bind_ok (maybe_area (fru_area_print_chassis send i junk) (fh_chassis h) fid fru st2) (\<lambda>(as1, fru1, st3).
                   bind_ok (maybe_area (fru_area_print_board send i junk) (fh_board h) fid fru1 st3) (\<lambda>(as2, fru2, st4).
                   bind_ok (maybe_area (fru_area_print_product send i junk) (fh_product h) fid fru2 st4) (\<lambda>(as3, fru3, st5).
                     Inr (0, as1 @ as2 @ as3, st5))))))"

section \<open>Saving and restoring\<close>

text \<open>
  The content written to the file, if any; \<open>junk\<close> is what \<open>malloc\<close> returned and \<open>openable\<close> says
  whether the file can be opened. The result of reading is not looked at.
\<close>

definition ipmi_fru_read_to_bin :: "'s sendrecv \<Rightarrow> ipmi_intf \<Rightarrow> (nat \<Rightarrow> bytes) \<Rightarrow> bool \<Rightarrow> byte \<Rightarrow> 's
    \<Rightarrow> (bytes option \<times> 's) outcome" where
  "ipmi_fru_read_to_bin send i junk openable fid st =
     bind_ok (fru_inventory_info send fid st) (\<lambda>(info, st1).
       case info of
         None \<Rightarrow> Inr (None, st1)
       | Some fru \<Rightarrow>
           let n = unat (fru_size fru) in
           bind_ok (read_fru_area send i fru fid 0 n (junk n) st1) (\<lambda>(rc, buf, fru1, st2).
             Inr (if openable then Some buf else None, st2)))"

text \<open>\<open>file\<close> is the content of the file, \<open>None\<close> when it cannot be opened; \<open>k\<close> bounds the writing loop.\<close>

definition ipmi_fru_write_from_bin :: "nat \<Rightarrow> 's sendrecv \<Rightarrow> ipmi_intf \<Rightarrow> bytes \<Rightarrow> (nat \<Rightarrow> bytes) \<Rightarrow> bytes option \<Rightarrow> byte \<Rightarrow> 's
    \<Rightarrow> 's outcome" where
  "ipmi_fru_write_from_bin k send i junk5 junk file fid st =
     bind_ok (fru_inventory_info send fid st) (\<lambda>(info, st1).
       case info of
         None \<Rightarrow> Inr st1
       | Some fru \<Rightarrow>
           let n = unat (fru_size fru); d = (case file of None \<Rightarrow> [] | Some c \<Rightarrow> take n c) in
           if d = [] then Inr st1
           else bind_ok (write_fru_area k send i junk5 fru fid 0 0 (length d) (put_at (junk n) 0 d) st1)
                  (\<lambda>(rc, fru1, st2). Inr st2))"

end
