(* ===== verification/FruEdit.thy ===== *)
theory FruEdit
  imports FruArea
begin

text \<open>
  Editing a field of a FRU area (\<open>ipmi_fru_set_field_string\<close> and its \<open>_rebuild\<close> in
  \<open>lib/ipmi_fru.c\<close>): overwriting it in place when the texts have the same length, and otherwise
  rebuilding the whole memory with moved sections. A string is the list of its characters.
\<close>

section \<open>Buffers with their bounds\<close>

definition load :: "bytes \<Rightarrow> int \<Rightarrow> int \<Rightarrow> bytes outcome" where
  "load buf off n = (if off < 0 \<or> n < 0 \<or> int (length buf) < off + n then Inl OutOfBounds
     else Inr (region buf (nat off) (nat n)))"

definition store :: "bytes \<Rightarrow> int \<Rightarrow> bytes \<Rightarrow> bytes outcome" where
  "store buf off bs = (if off < 0 \<or> int (length buf) < off + int (length bs) then Inl OutOfBounds
     else Inr (put_at buf (nat off) bs))"

definition load1 :: "bytes \<Rightarrow> int \<Rightarrow> byte outcome" where
  "load1 buf off = bind_ok (load buf off 1) (\<lambda>b. Inr (b ! 0))"

definition chars_of :: "string \<Rightarrow> bytes" where
  "chars_of s = List.map of_char s"

section \<open>In place\<close>

text \<open>The field with index \<open>k\<close>: its offset, and its text.\<close>

primrec seek_field :: "nat \<Rightarrow> bytes \<Rightarrow> nat \<Rightarrow> (nat \<times> string option \<times> nat) outcome" where
  "seek_field 0 d off = bind_ok (get_fru_area_str d off) (\<lambda>(s, off1). Inr (off, s, off1))"
| "seek_field (Suc k) d off = bind_ok (get_fru_area_str d off) (\<lambda>(s, off1). seek_field k d off1)"

definition area_offset :: "fru_header \<Rightarrow> char \<Rightarrow> byte option" where
  "area_offset h t =
     (if t = CHR ''c'' then Some (fh_chassis h) else if t = CHR ''b'' then Some (fh_board h)
      else if t = CHR ''p'' then Some (fh_product h) else None)"

definition first_field :: "char \<Rightarrow> nat" where
  "first_field t = (if t = CHR ''b'' then 6 else 3)"

definition FRU_FIELD_VALID :: "string option \<Rightarrow> bool" where
  "FRU_FIELD_VALID s \<longleftrightarrow> (case s of None \<Rightarrow> False | Some t \<Rightarrow> c_string t \<noteq> [])"

text \<open>The section with the new text and checksum.\<close>

definition overwrite_field :: "bytes \<Rightarrow> nat \<Rightarrow> nat \<Rightarrow> string \<Rightarrow> bytes outcome" where
  "overwrite_field d off len new =
     bind_ok (store d (int off + 1) (chars_of new)) (\<lambda>d1.
       bind_ok (load d1 0 (int len - 1)) (\<lambda>area. store d1 (int len - 1) [- sum_list area]))"

section \<open>Rebuilding\<close>

text \<open>The zero bytes at the end of a section, before its checksum.\<close>

primrec count_padding :: "nat \<Rightarrow> bytes \<Rightarrow> int \<Rightarrow> nat outcome" where
  "count_padding 0 d e = Inr 0"
| "count_padding (Suc k) d e =
     bind_ok (load1 d e) (\<lambda>b. if b \<noteq> 0 then Inr 0 else bind_ok (count_padding k d (e - 1)) (\<lambda>n. Inr (Suc n)))"

text \<open>The change of the section's length in units of 8 bytes; C division truncates towards 0.\<close>

definition change_by_8 :: "int \<Rightarrow> int" where
  "change_by_8 padding = (if 8 \<le> padding then - (padding div 8) else 1 + ((- (padding + 1)) div 8))"

text \<open>
  The lengths of the three sections, and the header and memory after the sections behind the
  changed one were moved. \<open>t\<close> is the section's letter.
\<close>

definition moved_header :: "fru_header \<Rightarrow> char \<Rightarrow> int \<Rightarrow> fru_header" where
  "moved_header h t c =
     h\<lparr>fh_board := (if t = CHR ''c'' then fh_board h + word_of_int c else fh_board h),
       fh_product := (if t = CHR ''p'' then fh_product h else fh_product h + word_of_int c),
       fh_multi := fh_multi h + word_of_int c\<rparr>"

definition with_checksum :: "fru_header \<Rightarrow> fru_header" where
  "with_checksum h = h\<lparr>fh_checksum := - sum_list (take 7 (header_bytes h))\<rparr>"

definition move_section :: "bytes \<Rightarrow> bytes \<Rightarrow> byte \<Rightarrow> nat \<Rightarrow> int \<Rightarrow> bytes outcome" where
  "move_section old new o8 len c =
     bind_ok (load old (8 * uint o8) (int len)) (\<lambda>d. store new ((uint o8 + c) * 8) d)"

definition add_to_byte :: "bytes \<Rightarrow> int \<Rightarrow> int \<Rightarrow> bytes outcome" where
  "add_to_byte d off c = bind_ok (load1 d off) (\<lambda>b. store d off [b + word_of_int c])"

text \<open>
  The rest behind the product section is copied in one piece. The test for a negative difference
  is made in unsigned arithmetic and never holds, so the count is always the one up to the end of
  the new memory; it wraps when the section ends behind it.
\<close>

definition move_rest :: "bytes \<Rightarrow> bytes \<Rightarrow> nat \<Rightarrow> nat \<Rightarrow> nat \<Rightarrow> bytes outcome" where
  "move_rest old new sz target source =
     bind_ok (load old (int source) ((int sz - int target) mod 2 ^ 32)) (\<lambda>d. store new (int target) d)"

definition resize_sections :: "bytes \<Rightarrow> bytes \<Rightarrow> nat \<Rightarrow> fru_header \<Rightarrow> char \<Rightarrow> nat \<Rightarrow> nat \<Rightarrow> int \<Rightarrow> bytes outcome" where
  "resize_sections old new sz h t board_len product_len c =
     bind_ok (if t = CHR ''c'' then move_section old new (fh_board h) board_len c else Inr new) (\<lambda>new1.
     bind_ok (if t \<noteq> CHR ''p'' then move_section old new1 (fh_product h) product_len c else Inr new1) (\<lambda>new2.
     bind_ok (add_to_byte new2 (8 * uint (the (area_offset h t)) + 1) c) (\<lambda>new3.
     bind_ok (if t = CHR ''p'' then bind_ok (load1 new3 (8 * uint (fh_product h) + 1)) (\<lambda>b. Inr (8 * unat b))
              else Inr product_len) (\<lambda>product_len_new.
       let h1 = with_checksum (moved_header h t c) in
       bind_ok (store new3 0 (header_bytes h1)) (\<lambda>new4.
         move_rest old new4 sz (8 * unat (fh_product h1) + product_len_new) (8 * unat (fh_product h) + product_len))))))"

text \<open>
  The field and the rest of its section, the padding and the checksum; \<open>so\<close> is the section's offset, \<open>len\<close> its
  new length, \<open>off\<close> the field's offset. The bytes of the old field are counted as characters.
\<close>

definition put_field :: "bytes \<Rightarrow> bytes \<Rightarrow> nat \<Rightarrow> nat \<Rightarrow> nat \<Rightarrow> nat \<Rightarrow> string \<Rightarrow> string \<Rightarrow> bytes outcome" where
  "put_field old new so len padding off old_text new_text =
     (let n = length new_text; e = int so + int len - 1 in
      bind_ok (store new (int off) ((0xc0 + of_nat n) # chars_of new_text)) (\<lambda>new1.
      bind_ok (load old (int off + 1 + int (length old_text)) (e - (int off + int n + 1))) (\<lambda>rest.
      bind_ok (store new1 (int off + 1 + int n) rest) (\<lambda>new2.
      bind_ok (store new2 (e - int padding) (replicate padding 0)) (\<lambda>new3.
      bind_ok (load new3 (int so) (int len - 1)) (\<lambda>area. store new3 e [- sum_list area]))))))"

definition rebuilt_memory :: "bytes \<Rightarrow> nat \<Rightarrow> fru_header \<Rightarrow> char \<Rightarrow> nat \<Rightarrow> string \<Rightarrow> bytes option outcome" where
  "rebuilt_memory old sz h t k new_text =
     (let so = 8 * uint (the (area_offset h t)) in
      bind_ok (load1 old (8 * uint (fh_chassis h) + 1)) (\<lambda>cl.
      bind_ok (load1 old (8 * uint (fh_board h) + 1)) (\<lambda>bl.
      bind_ok (load1 old (8 * uint (fh_product h) + 1)) (\<lambda>pl.
        let len = 8 * unat (if t = CHR ''c'' then cl else if t = CHR ''b'' then bl else pl) in
        bind_ok (seek_field k old (nat so + first_field t)) (\<lambda>(off, s, _).
          if \<not> FRU_FIELD_VALID s then Inr None
          else let old_text = c_string (the s) in
            bind_ok (count_padding (len - 2) old (so + int len - 2)) (\<lambda>p.
              let padding = int p - (int (length new_text) - int (length old_text));
                  c = (if padding < 0 \<or> 8 \<le> padding then change_by_8 padding else 0);
                  padding1 = padding + 8 * c; len1 = nat ((int len + 8 * c) mod 2 ^ 32)
              in bind_ok (if padding < 0 \<or> 8 \<le> padding
                          then resize_sections old old sz h t (8 * unat bl) (8 * unat pl) c else Inr old) (\<lambda>new.
                   if 0 \<le> padding1 \<and> padding1 < 8
                   then bind_ok (put_field old new (nat so) len1 (nat padding1) off old_text new_text) (\<lambda>m. Inr (Some m))
                   else Inr None)))))))"

text \<open>1 for success and -1 for an error.\<close>

definition ipmi_fru_set_field_string_rebuild :: "nat \<Rightarrow> 's sendrecv \<Rightarrow> ipmi_intf \<Rightarrow> bytes \<Rightarrow> byte \<Rightarrow> fru_info \<Rightarrow> fru_header
    \<Rightarrow> char \<Rightarrow> nat \<Rightarrow> string \<Rightarrow> 's \<Rightarrow> (int \<times> 's) outcome" where
  "ipmi_fru_set_field_string_rebuild rounds send i junk5 fid fru h t k new_text st =
     (let sz = unat (fru_size fru) in
      bind_ok (read_fru_area send i fru fid 0 sz (replicate sz 0) st) (\<lambda>(rc, old, fru1, st1).
        if area_offset h t = None then Inr (-1, st1)
        else bind_ok (rebuilt_memory old sz h t k new_text) (\<lambda>m.
          case m of
            None \<Rightarrow> Inr (-1, st1)
          | Some new \<Rightarrow>
              bind_ok (write_fru_area rounds send i junk5 fru1 fid 0 0 sz new st1) (\<lambda>(wrc, fru2, st2).
                Inr (if wrc < 0 then -1 else 1, st2)))))"

section \<open>The command\<close>

text \<open>\<open>junk\<close> is what \<open>malloc\<close> returned; \<open>idx\<close> is the index as a character.\<close>

definition ipmi_fru_set_field_string :: "nat \<Rightarrow> 's sendrecv \<Rightarrow> ipmi_intf \<Rightarrow> bytes \<Rightarrow> (nat \<Rightarrow> bytes) \<Rightarrow> byte
    \<Rightarrow> char \<Rightarrow> byte \<Rightarrow> string \<Rightarrow> 's \<Rightarrow> (int \<times> 's) outcome" where
  "ipmi_fru_set_field_string rounds send i junk5 junk fid t idx new_text st =
     bind_ok (fru_inventory_info send fid st) (\<lambda>(info, st1).
       case info of
         None \<Rightarrow> Inr (-1, st1)
       | Some fru \<Rightarrow>
           if fru_size fru < 1 then Inr (-1, st1)
           else bind_ok (fru_common_header send fid st1) (\<lambda>(hdr, st2).
             case hdr of
               None \<Rightarrow> Inr (-1, st2)
             | Some h \<Rightarrow>
                 if fh_version h \<noteq> 1 then Inr (-1, st2)
                 else case area_offset h t of
                   None \<Rightarrow> Inr (-1, st2)
                 | Some o8 \<Rightarrow>
                     let sz = unat (fru_size fru); so = 8 * unat o8; k = unat (idx - 0x30) in
                     bind_ok (read_fru_area send i fru fid so 3 (junk sz) st2) (\<lambda>(rc, d0, fru1, st3).
                     bind_ok (load1 d0 1) (\<lambda>len8. let len = 8 * unat len8 in
                     bind_ok (read_fru_area send i fru1 fid so len (replicate sz 0) st3) (\<lambda>(rc1, d, fru2, st4).
                       if rc1 < 0 then Inr (-1, st4)
                       else bind_ok (seek_field k d (first_field t)) (\<lambda>(off, s, _).
                         if \<not> FRU_FIELD_VALID s then Inr (-1, st4)
                         else if length (c_string (the s)) = length new_text then
                           bind_ok (overwrite_field d off len new_text) (\<lambda>d1.
                           bind_ok (write_fru_area rounds send i junk5 fru2 fid 0 so len d1 st4) (\<lambda>(wrc, fru3, st5).
                             Inr (if wrc < 0 then -1 else 1, st5)))
                         else
                           bind_ok (ipmi_fru_set_field_string_rebuild rounds send i junk5 fid fru2 h t k new_text st4)
                             (\<lambda>(rrc, st5). Inr (if rrc \<noteq> 0 then -1 else 1, st5))))))))"

end
