(* ===== verification/FruDevice.thy ===== *)
theory FruDevice
  imports FruEdit
begin

text \<open>
  A FRU device as the commands see it: a memory that is read and written in pieces of at most
  \<open>limit\<close> bytes, every longer request being refused with one of the completion codes that ask
  for less. The locale \<open>fru_memory\<close> states this contract for devices accessed by bytes; inside it, the loops of
  \<open>read_fru_area\<close> and \<open>write_fru_area\<close> move exactly the bytes they are asked for.
\<close>

section \<open>Requests\<close>

lemma fru_read_rq_sel [simp]:
  "rq_netfn (fru_read_rq fid a off n) = IPMI_NETFN_STORAGE" "rq_cmd (fru_read_rq fid a off n) = GET_FRU_DATA"
  by (simp_all add: fru_read_rq_def Let_def)

definition rq_offset :: "ipmi_rq \<Rightarrow> nat" where
  "rq_offset rq = unat (of_le16 (drop 1 (rq_data rq)))"

lemma of_le16_bytes:
  assumes "a < 65536"
  shows "unat (of_le16 [of_nat a, of_nat (a div 256)]) = a"
proof -
  have "[of_nat a, of_nat (a div 256)] = le16 (of_nat a)"
  proof -
    have "(of_nat (a div 256) :: byte) = ucast (drop_bit 8 (of_nat a :: u16))"
    proof -
      have "unat (drop_bit 8 (of_nat a :: u16)) = drop_bit 8 a"
        using assms by (simp only: unat_drop_bit_eq) (simp add: unat_of_nat)
      then show ?thesis
        using assms by (simp only: word_unat_eq_iff unsigned_ucast_eq) (simp add: take_bit_eq_mod drop_bit_eq_div unat_of_nat)
    qed
    moreover have "(of_nat a :: byte) = ucast (of_nat a :: u16)"
      by (simp add: word_unat_eq_iff unsigned_ucast_eq take_bit_eq_mod unat_of_nat mod_mod_cancel)
    ultimately show ?thesis
      by (simp add: le16_def)
  qed
  then show ?thesis
    using assms by (simp add: unat_of_nat)
qed

lemma rq_offset_read [simp]: "off < 65536 \<Longrightarrow> rq_offset (fru_read_rq fid False off n) = off"
  using of_le16_bytes [of off] by (simp add: rq_offset_def fru_read_rq_def of_le16_def)

lemma rq_offset_write [simp]: "off < 65536 \<Longrightarrow> rq_offset (fru_write_rq fid False off d) = off"
  using of_le16_bytes [of off] by (simp add: rq_offset_def fru_write_rq_def of_le16_def)

text \<open>The next piece to write ends behind its offset, within the block and the range.\<close>

lemma write_span_ok:
  assumes "dof < finish" "finish < 65536"
  obtains e n where "write_span fru (dropWhile (\<lambda>b. bloc_end b \<le> dof) bs) finish dof = (e, n)" "dof < e" "e \<le> finish"
    "n = min (e - dof) (unat (max_write_size fru))"
proof -
  define bs' where "bs' = dropWhile (\<lambda>b. bloc_end b \<le> dof) bs"
  define e where "e = (if bs' \<noteq> [] \<and> bloc_end (hd bs') < finish then bloc_end (hd bs') else finish)"
  have e: "dof < e" "e \<le> finish"
    using assms(1) hd_dropWhile [of "\<lambda>b. bloc_end b \<le> dof" bs] by (auto simp: e_def bs'_def not_le)
  then have "(e + 65536 - dof) mod 65536 = e - dof"
    using assms(2) by (simp add: mod_if)
  then have "write_span fru bs' finish dof = (e, min (e - dof) (unat (max_write_size fru)))"
    unfolding write_span_def Let_def e_def [symmetric] by simp
  then show thesis
    by (rule that [folded bs'_def, OF _ e refl])
qed

section \<open>The contract\<close>

locale fru_readable =
  fixes send :: "'s sendrecv" and mem :: "'s \<Rightarrow> bytes" and fid :: byte and limit :: nat
  assumes info: "length (mem st) < 65536 \<Longrightarrow>
      \<exists>rsp st'. send (mk_rq IPMI_NETFN_STORAGE GET_FRU_INFO [fid]) st = Inr (Some rsp, st') \<and> mem st' = mem st \<and>
        rs_ccode rsp = 0 \<and> take 3 (rs_data rsp) = le16 (of_nat (length (mem st))) @ [0]"
    and reads: "off + n \<le> length (mem st) \<Longrightarrow> off < 65536 \<Longrightarrow> n \<le> 255 \<Longrightarrow>
      \<exists>rsp st'. send (fru_read_rq fid False off n) st = Inr (Some rsp, st') \<and> mem st' = mem st \<and>
        (if limit < n then fru_cc_rq2big (rs_ccode rsp)
         else rs_ccode rsp = 0 \<and> rs_data_len rsp = int n + 1 \<and>
              take (n + 1) (rs_data rsp) = of_nat n # region (mem st) off n)"
begin

lemma read_big:
  assumes "off + n \<le> length (mem st)" "off < 65536" "n \<le> 255" "limit < n"
  obtains rsp st' where "send (fru_read_rq fid False off n) st = Inr (Some rsp, st')" "mem st' = mem st"
    "fru_cc_rq2big (rs_ccode rsp)" "rs_ccode rsp \<noteq> 0"
  using reads [OF assms(1-3)] assms(4) by (auto simp: fru_cc_rq2big_def)

lemma read_fits:
  assumes "off + n \<le> length (mem st)" "off < 65536" "n \<le> 255" "n \<le> limit"
  obtains rsp st' where "send (fru_read_rq fid False off n) st = Inr (Some rsp, st')" "mem st' = mem st"
    "rs_ccode rsp = 0" "rs_data_len rsp = int n + 1" "unat (rs_data rsp ! 0) = n"
    "region (rs_data rsp) 1 n = region (mem st) off n"
proof -
  obtain rsp st' where r: "send (fru_read_rq fid False off n) st = Inr (Some rsp, st')" "mem st' = mem st"
    "rs_ccode rsp = 0" "rs_data_len rsp = int n + 1"
    and d: "take (n + 1) (rs_data rsp) = of_nat n # region (mem st) off n"
    using reads [OF assms(1-3)] assms(4) by auto
  have "unat (rs_data rsp ! 0) = n"
    using arg_cong [OF d, of "\<lambda>x. unat (x ! 0)"] assms(3) by (simp add: unat_of_nat)
  moreover have "region (rs_data rsp) 1 n = region (mem st) off n"
    using arg_cong [OF d, of "drop 1"] by (simp add: region_def drop_take)
  ultimately show thesis
    using that r by blast
qed

text \<open>The loop of the reader fills the buffer with the memory's bytes.\<close>

lemma read_loop_ok:
  assumes "off < finish" "finish \<le> length (mem st)" "finish < 65536" "0 < z" "unat z \<le> 255" "8 \<le> limit"
    "p + (finish - off) \<le> length buf"
  shows "\<exists>z' st'. read_loop send False fid False finish off p buf z st =
      Inr (0, put_at buf p (region (mem st) off (finish - off)), z', st') \<and> mem st' = mem st \<and> 0 < z' \<and> unat z' \<le> 255"
  using assms
proof (induction "finish - off + unat z" arbitrary: off p buf z st rule: less_induct)
  case less
  define n where "n = min (finish - off) (unat z)"
  have n: "0 < n" "n \<le> 255" "off + n \<le> finish" "off + n \<le> length (mem st)" "off < 65536"
    using less.prems by (auto simp: n_def unat_gt_0)
  show ?case
  proof (cases "limit < n")
    case True
    obtain rsp st1 where r: "send (fru_read_rq fid False off n) st = Inr (Some rsp, st1)" "mem st1 = mem st"
      "fru_cc_rq2big (rs_ccode rsp)" "rs_ccode rsp \<noteq> 0"
      using read_big [OF n(4,5,2) True] .
    have "8 < unat z"
      using True less.prems by (simp add: n_def)
    then have z: "8 < z"
      by (simp add: word_less_nat_alt)
    obtain z1 where z1: "shrink_read False z = (z1, True)"
      using z by (auto simp: shrink_read_def)
    then have small: "unat z1 < unat z" "0 < z1"
      using shrink_measure_less [OF z1] z by (auto simp: shrink_measure_def shrink_read_def word_less_nat_alt unat_gt_0
          unat_sub_if' split: if_splits)
    have "read_loop send False fid False finish off p buf z st = read_loop send False fid False finish off p buf z1 st1"
      using r z1 less.prems(1) by (simp add: read_loop.simps [of send False fid False finish off p buf z st] n_def [symmetric])
    then show ?thesis
      using less.hyps [of off z1 st1 p buf] less.prems small r(2) by auto
  next
    case False
    obtain rsp st1 where r: "send (fru_read_rq fid False off n) st = Inr (Some rsp, st1)" "mem st1 = mem st"
      "rs_ccode rsp = 0" "rs_data_len rsp = int n + 1" "unat (rs_data rsp ! 0) = n"
      "region (rs_data rsp) 1 n = region (mem st) off n"
      using read_fits [OF n(4,5,2)] False by auto
    let ?buf = "put_at buf p (region (mem st) off n)"
    have fits: "p + n \<le> length buf" "n \<le> finish - off"
      using n less.prems(7) by arith+
    have len: "length (region (mem st) off n) = n"
      using n by simp
    have step: "read_loop send False fid False finish off p buf z st =
        (if finish \<le> off + n then Inr (0, ?buf, z, st1)
         else read_loop send False fid False finish (off + n) (p + n) ?buf z st1)"
      using r n fits by (simp add: read_loop.simps [of send False fid False finish off p buf z st] n_def [symmetric] Let_def)
    show ?thesis
    proof (cases "finish \<le> off + n")
      case True
      then have "finish - off = n"
        using n by simp
      then show ?thesis
        using step True r(2) less.prems by simp
    next
      case False
      have "put_at ?buf (p + n) (region (mem st) (off + n) (finish - (off + n))) =
          put_at buf p (region (mem st) off (finish - off))"
      proof -
        have "region (mem st) off (finish - off) = region (mem st) off n @ region (mem st) (off + n) (finish - (off + n))"
          using region_add [of "mem st" off n "finish - (off + n)"] False by simp
        then show ?thesis
          using put_at_put_at [of p buf "region (mem st) off n"] less.prems(7) len by simp
      qed
      then show ?thesis
        using less.hyps [of "off + n" z st1 "p + n" ?buf] less.prems False step r(2) n len by auto
    qed
  qed
qed

text \<open>A range read is copied to the front of the buffer.\<close>

lemma read_area_ok:
  assumes "unat (fru_size fru) = length (mem st)" "\<not> fru_access fru" "0 < len" "off + len \<le> length (mem st)"
    "len \<le> length buf" "8 \<le> limit" "2 < ipmi_intf_get_max_response_data_size i"
  obtains fru' st' where
    "read_fru_area send i fru fid off len buf st = Inr (0, put_at buf 0 (region (mem st) off len), fru', st')"
    "mem st' = mem st" "fru_size fru' = fru_size fru" "\<not> fru_access fru'" "max_write_size fru' = max_write_size fru"
proof -
  have m: "1 < ipmi_intf_get_max_response_data_size i - 1" (is "1 < ?m")
    using assms(7) by (simp add: word_less_nat_alt unat_sub_if')
  obtain fru1 where init: "init_read_size i fru = Some fru1" "max_read_size fru1 \<noteq> 0"
    "fru_size fru1 = fru_size fru" "\<not> fru_access fru1" "max_write_size fru1 = max_write_size fru"
  proof (cases "max_read_size fru = 0")
    case True
    define n :: byte where "n = (if 255 < ?m - 1 then 255 else ucast (?m - 1))"
    have "n \<noteq> 0"
    proof (cases "255 < ?m - 1")
      case False
      have "unat (?m - 1) < 256" "0 < unat (?m - 1)"
        using False m by (auto simp: word_less_nat_alt unat_sub_if')
      then show ?thesis
        using False by (simp add: n_def word_unat_eq_iff unsigned_ucast_eq take_bit_eq_mod)
    qed (simp add: n_def)
    moreover have "init_read_size i fru = Some (fru\<lparr>max_read_size := n\<rparr>)"
      unfolding init_read_size_def Let_def n_def using True m assms(2) by simp
    ultimately show ?thesis
      using that assms(2) by simp
  qed (use that assms(2) in \<open>auto simp: init_read_size_def\<close>)
  have size: "length (mem st) < 65536"
    using assms(1) unat_u16_less [of "fru_size fru"] by simp
  have z: "(0 :: u32) < ucast (max_read_size fru1)" "unat (ucast (max_read_size fru1) :: u32) \<le> 255"
    using init(2) unat_byte_less [of "max_read_size fru1"]
    by (simp_all add: word_less_nat_alt unsigned_ucast_eq take_bit_eq_mod unat_gt_0)
  obtain z' st' where "read_loop send False fid False (off + len) off 0 buf (ucast (max_read_size fru1)) st =
      Inr (0, put_at buf 0 (region (mem st) off len), z', st')" "mem st' = mem st"
    using read_loop_ok [of off "off + len" st "ucast (max_read_size fru1)" 0 buf] assms size z by auto
  then show thesis
    using that [of "fru1\<lparr>max_read_size := ucast z'\<rparr>" st'] assms init
    by (simp add: read_fru_area_def read_range_def Let_def)
qed

text \<open>
  Reading the header for the list of blocks succeeds, and there is nothing more to read when the
  header names no multi-record area.
\<close>

lemma build_bloc_ok:
  assumes "8 \<le> length (mem st)" "8 \<le> limit" "mem st ! 5 = 0"
  obtains bs st' where "build_fru_bloc send i junk fru fid st = Inr (bs, fru, st')" "mem st' = mem st"
proof -
  obtain rsp st1 where r: "send (fru_read_rq fid False 0 8) st = Inr (Some rsp, st1)" "mem st1 = mem st"
    "rs_ccode rsp = 0" "region (rs_data rsp) 1 8 = region (mem st) 0 8"
    by (rule read_fits [of 0 8 st]) (use assms in auto)
  have rq: "fru_read_rq fid False 0 8 = mk_rq IPMI_NETFN_STORAGE GET_FRU_DATA [fid, 0, 0, 8]"
    by (simp add: fru_read_rq_def)
  have "fh_multi (read_header (region (mem st) 0 8)) = 0"
    using assms by (simp add: read_header_def region_def)
  then have "\<exists>bs. build_fru_bloc send i junk fru fid st = Inr (bs, fru, st1)"
    using r by (simp add: build_fru_bloc_def Let_def rq [symmetric])
  then show thesis
    using that r(2) by blast
qed

text \<open>The commands learn the size and access from the device.\<close>

lemma info_ok:
  assumes "length (mem st) < 65536"
  obtains st' where "fru_inventory_info send fid st = Inr (Some \<lparr>fru_size = of_nat (length (mem st)), fru_access = False,
      max_read_size = 0, max_write_size = 0\<rparr>, st')" "mem st' = mem st"
proof -
  obtain rsp st' where r: "send (mk_rq IPMI_NETFN_STORAGE GET_FRU_INFO [fid]) st = Inr (Some rsp, st')" "mem st' = mem st"
    "rs_ccode rsp = 0" and d: "take 3 (rs_data rsp) = le16 (of_nat (length (mem st))) @ [0]"
    using info [OF assms] by auto
  have "of_le16 (rs_data rsp) = of_le16 (take 3 (rs_data rsp))"
    by (simp add: of_le16_def)
  moreover have "rs_data rsp ! 2 = 0"
    using arg_cong [OF d, of "\<lambda>x. x ! 2"] by (simp add: nth_append)
  ultimately show thesis
    using that [of st'] r by (simp add: fru_inventory_info_def d)
qed

end

text \<open>The device stores what is written to it.\<close>

locale fru_memory = fru_readable +
  assumes stores: "off + length d \<le> length (mem st) \<Longrightarrow> off < 65536 \<Longrightarrow> length d \<le> 255 \<Longrightarrow>
      \<exists>rsp st'. send (fru_write_rq fid False off d) st = Inr (Some rsp, st') \<and>
        (if limit < length d then fru_cc_rq2big (rs_ccode rsp) \<and> mem st' = mem st
         else rs_ccode rsp = 0 \<and> mem st' = put_at (mem st) off d)"
begin

text \<open>A round of writing is refused and its size reduced, or it writes at least one byte.\<close>

lemma write_round_ok:
  assumes "dof < finish" "finish \<le> length (mem st)" "finish < 65536" "max_write_size fru \<noteq> 0" "\<not> fru_access fru"
    "32 \<le> limit" "so + (finish - dof) \<le> length buf" "so + (finish - dof) < 65536"
  obtains (less) bs' st' where
      "write_round send fid finish buf bs fru so dof st =
        Inr (True, bs', fru\<lparr>max_write_size := max_write_size fru - 8\<rparr>, so, dof, st')"
      "mem st' = mem st" "32 < max_write_size fru"
    | (wrote) bs' st' n where
      "write_round send fid finish buf bs fru so dof st = Inr (True, bs', fru, so + n, dof + n, st')"
      "mem st' = put_at (mem st) dof (region buf so n)" "0 < n" "n \<le> finish - dof"
proof -
  define bs' where "bs' = dropWhile (\<lambda>b. bloc_end b \<le> dof) bs"
  obtain e n where span: "write_span fru bs' finish dof = (e, n)" and e: "dof < e" "e \<le> finish"
    and n_def: "n = min (e - dof) (unat (max_write_size fru))"
    unfolding bs'_def by (rule write_span_ok [OF assms(1,3)])
  have n: "0 < n" "n \<le> finish - dof" "n \<le> 255" "so + n \<le> length buf" "dof + n \<le> length (mem st)"
    using e assms unat_byte_less [of "max_write_size fru"] by (auto simp: n_def unat_gt_0)
  have len: "length (region buf so n) = n"
    using n by simp
  obtain rsp st1 where r: "send (fru_write_rq fid False dof (region buf so n)) st = Inr (Some rsp, st1)"
    and cases: "if limit < n then fru_cc_rq2big (rs_ccode rsp) \<and> mem st1 = mem st
       else rs_ccode rsp = 0 \<and> mem st1 = put_at (mem st) dof (region buf so n)"
    using stores [of dof "region buf so n" st] n len assms by auto
  note round = write_round_def Let_def bs'_def [symmetric] span
  show thesis
  proof (cases "limit < n")
    case True
    then have "32 < max_write_size fru"
      using assms(6) by (simp add: n_def word_less_nat_alt)
    then show thesis
      using less [of bs' st1] r True cases n(4) assms(5) by (simp add: round)
  next
    case False
    have "so + n < 65536" "dof + n < 65536"
      using n assms by auto
    then show thesis
      using wrote [of bs' n st1] r False cases n assms(5)
      by (simp add: round fru_cc_rq2big_def IPMI_CC_FRU_WRITE_PROTECTED_OFFSET_def)
  qed
qed

lemma write_loop_ok:
  assumes "dof < finish" "finish \<le> length (mem st)" "finish < 65536" "max_write_size fru \<noteq> 0" "\<not> fru_access fru"
    "32 \<le> limit" "so + (finish - dof) \<le> length buf" "so + (finish - dof) < 65536"
    "finish - dof + unat (max_write_size fru) \<le> k"
  shows "\<exists>fru' st'. write_loop k send fid finish buf bs fru so dof st = Inr (1, fru', st') \<and>
    mem st' = put_at (mem st) dof (region buf so (finish - dof))"
  using assms
proof (induction k arbitrary: bs fru so dof st)
  case 0
  then show ?case
    by simp
next
  case (Suc k)
  from Suc.prems(1-8) show ?case
  proof (cases rule: write_round_ok [of dof finish st fru so buf bs])
    case (less bs' st')
    have "unat (max_write_size fru - 8) = unat (max_write_size fru) - 8" "8 < unat (max_write_size fru)"
      using less(3) by (simp_all add: word_less_nat_alt unat_sub_if')
    then show ?thesis
      using Suc.IH [of dof st' "fru\<lparr>max_write_size := max_write_size fru - 8\<rparr>" so bs'] Suc.prems less
      by (auto simp: write_loop.simps word_unat_eq_iff)
  next
    case (wrote bs' st' n)
    have len: "length (region buf so n) = n"
      using wrote Suc.prems(7) by simp
    show ?thesis
    proof (cases "finish \<le> dof + n")
      case True
      then have "finish - dof = n"
        using wrote by simp
      then show ?thesis
        using wrote True by (simp add: write_loop.simps)
    next
      case False
      have "put_at (mem st') (dof + n) (region buf (so + n) (finish - (dof + n))) =
          put_at (mem st) dof (region buf so (finish - dof))"
        using region_add [of buf so n "finish - (dof + n)"] False wrote(2)
          put_at_put_at [of dof "mem st" "region buf so n"] Suc.prems(1,2) len by simp
      moreover have "length (mem st') = length (mem st)"
        using wrote(2,4) len Suc.prems(1,2) by simp
      ultimately show ?thesis
        using Suc.IH [of "dof + n" st' fru "so + n" bs'] Suc.prems wrote False
        by (auto simp: write_loop.simps)
    qed
  qed
qed

text \<open>A range written replaces exactly these bytes of the memory.\<close>

lemma write_area_ok:
  assumes "unat (fru_size fru) = length (mem st)" "\<not> fru_access fru" "0 < len" "dof + len \<le> length (mem st)"
    "so + len \<le> length buf" "so + len < 65536" "32 \<le> limit" "3 < ipmi_intf_get_max_request_data_size i"
    "8 \<le> length (mem st)" "mem st ! 5 = 0" "len + 255 \<le> k"
  obtains fru' st' where
    "write_fru_area k send i junk fru fid so dof len buf st = Inr (1, fru', st')"
    "mem st' = put_at (mem st) dof (region buf so len)"
proof -
  let ?m = "ipmi_intf_get_max_request_data_size i"
  have size: "length (mem st) < 65536"
    using assms(1) unat_u16_less [of "fru_size fru"] by simp
  have limit: "8 \<le> limit"
    using assms(7) by simp
  obtain bs st1 where b: "build_fru_bloc send i junk fru fid st = Inr (bs, fru, st1)" "mem st1 = mem st"
    using build_bloc_ok [OF assms(9) limit assms(10)] .
  obtain fru1 where init: "init_write_size i fru = Some fru1" "max_write_size fru1 \<noteq> 0"
    "\<not> fru_access fru1"
  proof (cases "max_write_size fru = 0")
    case True
    define n :: byte where "n = (if 255 < ?m - 3 then 255 else ucast (?m - 3))"
    have "n \<noteq> 0"
    proof (cases "255 < ?m - 3")
      case False
      have "unat (?m - 3) < 256" "0 < unat (?m - 3)"
        using False assms(8) by (auto simp: word_less_nat_alt unat_sub_if')
      then show ?thesis
        using False by (simp add: n_def word_unat_eq_iff unsigned_ucast_eq take_bit_eq_mod)
    qed (simp add: n_def)
    moreover have "init_write_size i fru = Some (fru\<lparr>max_write_size := n\<rparr>)"
      unfolding init_write_size_def Let_def n_def using True assms(2,8) by simp
    ultimately show ?thesis
      using that assms(2) by simp
  qed (use that assms(2) in \<open>auto simp: init_write_size_def\<close>)
  have small: "unat (max_write_size fru1) \<le> 255"
    using unat_byte_less [of "max_write_size fru1"] by simp
  obtain fru' st' where "write_loop k send fid (dof + len) buf (case bs of None \<Rightarrow> [] | Some x \<Rightarrow> x) fru1 so dof st1 =
      Inr (1, fru', st')" "mem st' = put_at (mem st) dof (region buf so len)"
    using write_loop_ok [of dof "dof + len" st1 fru1 so buf k "case bs of None \<Rightarrow> [] | Some x \<Rightarrow> x"]
      assms size init small b(2) by auto
  moreover have "(dof + len) mod 65536 = dof + len"
    using assms(4) size by simp
  ultimately show thesis
    using that [of fru' st'] b init assms by (simp add: write_fru_area_def Let_def)
qed

end

end
