(* ===== verification/FruProps.thy ===== *)
theory FruProps
  imports FruDevice
begin

text \<open>
  The properties of the FRU commands that move the memory: exact reading and writing whatever the
  device's limit, saving and restoring, the partition into blocks, and the errors the callers do
  not see. \<open>fru_device\<close> is a device of the contract \<open>fru_memory\<close>.
\<close>

section \<open>A device\<close>

definition fru_device :: "nat \<Rightarrow> bytes sendrecv" where
  "fru_device limit rq m =
     (let off = rq_offset rq; n = unat (rq_data rq ! 3); d = drop 3 (rq_data rq) in
      Inr (if rq_netfn rq \<noteq> IPMI_NETFN_STORAGE then (Some (reply 0xc1 []), m)
           else if rq_cmd rq = GET_FRU_INFO then (Some (reply 0 (le16 (of_nat (length m)) @ [0])), m)
           else if rq_cmd rq = GET_FRU_DATA then
             if limit < n then (Some (reply 0xc8 []), m)
             else (Some (reply 0 (of_nat (length (region m off n)) # region m off n)), m)
           else if rq_cmd rq = SET_FRU_DATA then
             if limit < length d then (Some (reply 0xc7 []), m)
             else (Some (reply 0 [of_nat (length d)]), put_at m off d)
           else (Some (reply 0xc1 []), m)))"

interpretation fru_dev: fru_memory "fru_device limit" "\<lambda>m. m" fid limit
proof
  fix st :: bytes
  assume "length st < 65536"
  then show "\<exists>rsp st'. fru_device limit (mk_rq IPMI_NETFN_STORAGE GET_FRU_INFO [fid]) st = Inr (Some rsp, st') \<and> st' = st \<and>
      rs_ccode rsp = 0 \<and> take 3 (rs_data rsp) = le16 (of_nat (length st)) @ [0]"
    by (simp add: fru_device_def Let_def take_reply)
next
  fix off n and st :: bytes
  assume h: "off + n \<le> length st" "off < 65536" "n \<le> 255"
  have "unat (rq_data (fru_read_rq fid False off n) ! 3) = n"
    using h(3) by (simp add: fru_read_rq_def unat_of_nat)
  moreover have "length (region st off n) = n"
    using h(1) by simp
  ultimately show "\<exists>rsp st'. fru_device limit (fru_read_rq fid False off n) st = Inr (Some rsp, st') \<and> st' = st \<and>
      (if limit < n then fru_cc_rq2big (rs_ccode rsp)
       else rs_ccode rsp = 0 \<and> rs_data_len rsp = int n + 1 \<and>
            take (n + 1) (rs_data rsp) = of_nat n # region st off n)"
    using h by (simp add: fru_device_def Let_def fru_cmds fru_cc_rq2big_def take_reply)
next
  fix off and d st :: bytes
  assume "off + length d \<le> length st" "off < 65536" "length d \<le> 255"
  moreover have "rq_cmd (fru_write_rq fid False off d) = SET_FRU_DATA" "rq_netfn (fru_write_rq fid False off d) = IPMI_NETFN_STORAGE"
    "drop 3 (rq_data (fru_write_rq fid False off d)) = d"
    by (simp_all add: fru_write_rq_def)
  ultimately show "\<exists>rsp st'. fru_device limit (fru_write_rq fid False off d) st = Inr (Some rsp, st') \<and>
      (if limit < length d then fru_cc_rq2big (rs_ccode rsp) \<and> st' = st
       else rs_ccode rsp = 0 \<and> st' = put_at st off d)"
    by (simp add: fru_device_def Let_def fru_cmds fru_cc_rq2big_def)
qed

lemma fru_device_memory: "fru_memory (fru_device limit) (\<lambda>m. m) fid limit"
  by (rule fru_dev.fru_memory_axioms)

lemma fru_device_readable: "fru_readable (fru_device limit) (\<lambda>m. m) fid limit"
  by (rule fru_dev.fru_readable_axioms)

section \<open>Reading and writing\<close>

text \<open>Reading a range of a FRU device gives exactly its bytes, for every request limit of at least 8.\<close>

theorem fru_read_exact:
  assumes "fru_readable send mem fid limit" "8 \<le> limit" "2 < ipmi_intf_get_max_response_data_size i"
    and "unat (fru_size fru) = length (mem st)" "\<not> fru_access fru"
    and "0 < len" "off + len \<le> length (mem st)" "len \<le> length buf"
  shows "\<exists>fru' st'. read_fru_area send i fru fid off len buf st =
      Inr (0, region (mem st) off len @ drop len buf, fru', st') \<and> mem st' = mem st"
proof -
  obtain fru' st' where
    "read_fru_area send i fru fid off len buf st = Inr (0, put_at buf 0 (region (mem st) off len), fru', st')"
    "mem st' = mem st"
    by (rule fru_readable.read_area_ok [OF assms(1) assms(4-8,2,3)])
  then show ?thesis
    using assms(7) by (simp add: put_at_def)
qed

definition sample_fru :: fru_info where
  "sample_fru = \<lparr>fru_size = 16, fru_access = False, max_read_size = 0, max_write_size = 0\<rparr>"

definition sample_memory :: bytes where
  "sample_memory = [1, 0, 0, 0, 0, 0, 0, 0xff, 1, 2, 3, 4, 5, 6, 7, 8]"

lemma sample_sizes: "2 < ipmi_intf_get_max_response_data_size sample_intf"
  "3 < ipmi_intf_get_max_request_data_size sample_intf"
  by (simp_all add: ipmi_intf_get_max_response_data_size_def ipmi_intf_get_max_request_data_size_def
      ipmi_intf_get_bridging_level_def sample_intf_def int16_def IPMI_DEFAULT_PAYLOAD_SIZE_def)

lemma fru_read_exact_witness:
  "\<exists>fru' st'. read_fru_area (fru_device 8) sample_intf sample_fru 0 5 10 (replicate 12 0xee) sample_memory =
      Inr (0, [0, 0, 0xff, 1, 2, 3, 4, 5, 6, 7] @ [0xee, 0xee], fru', st') \<and> st' = sample_memory"
proof -
  have "region sample_memory 5 10 = [0, 0, 0xff, 1, 2, 3, 4, 5, 6, 7]"
    "drop 10 (replicate 12 (0xee :: byte)) = [0xee, 0xee]"
    by (simp_all add: sample_memory_def region_def numeral_2_eq_2)
  then show ?thesis
    using fru_read_exact [OF fru_device_readable [of 8 0], of sample_intf sample_fru sample_memory 10 5 "replicate 12 0xee"]
      sample_sizes by (simp add: sample_fru_def sample_memory_def)
qed

text \<open>Writing a range of a FRU device changes exactly its bytes, in a bounded number of requests,
  when the memory has no multi-record area.\<close>

theorem fru_write_exact:
  assumes "fru_memory send mem fid limit" "32 \<le> limit" "3 < ipmi_intf_get_max_request_data_size i"
    and "unat (fru_size fru) = length (mem st)" "\<not> fru_access fru" "8 \<le> length (mem st)" "mem st ! 5 = 0"
    and "0 < len" "dof + len \<le> length (mem st)" "so + len \<le> length buf" "so + len < 65536" "len + 255 \<le> k"
  shows "\<exists>fru' st'. write_fru_area k send i junk fru fid so dof len buf st = Inr (1, fru', st') \<and>
      mem st' = take dof (mem st) @ region buf so len @ drop (dof + len) (mem st)"
proof -
  obtain fru' st' where "write_fru_area k send i junk fru fid so dof len buf st = Inr (1, fru', st')"
    "mem st' = put_at (mem st) dof (region buf so len)"
    by (rule fru_memory.write_area_ok [OF assms(1) assms(4,5,8,9,10,11,2,3,6,7,12)])
  then show ?thesis
    using assms(10) by (simp add: put_at_def)
qed

lemma fru_write_exact_witness:
  "\<exists>fru' st'. write_fru_area 300 (fru_device 32) sample_intf [0, 0, 0, 0, 0] sample_fru 0 1 9 3 [10, 11, 12, 13, 14] sample_memory =
      Inr (1, fru', st') \<and> st' = take 9 sample_memory @ [11, 12, 13] @ [5, 6, 7, 8]"
proof -
  have "region [10, 11, 12, 13, 14 :: byte] 1 3 = [11, 12, 13]" "drop 12 sample_memory = [5, 6, 7, 8]"
    by (simp_all add: sample_memory_def region_def)
  then show ?thesis
    using fru_write_exact [OF fru_device_memory [of 32 0], of sample_intf sample_fru sample_memory 3 9 1
        "[10, 11, 12, 13, 14]" 300 "[0, 0, 0, 0, 0]"] sample_sizes
    by (simp add: sample_fru_def sample_memory_def)
qed

section \<open>Saving and restoring\<close>

text \<open>C36: a file written to a FRU device is what is read back from it, followed by the old content
  when the file is shorter than the memory.\<close>

theorem fru_save_restore:
  assumes "fru_memory send mem fid limit" "32 \<le> limit"
    and "3 < ipmi_intf_get_max_request_data_size i" "2 < ipmi_intf_get_max_response_data_size i"
    and "length (mem st) < 65536" "8 \<le> length (mem st)" "mem st ! 5 = 0"
    and "file \<noteq> []" "\<And>n. length (junk n) = n" "length (mem st) + 255 \<le> k"
  shows "\<exists>st1 st2. ipmi_fru_write_from_bin k send i junk5 junk (Some file) fid st = Inr st1 \<and>
      ipmi_fru_read_to_bin send i junk True fid st1 =
        Inr (Some (take (length (mem st)) file @ drop (length file) (mem st)), st2)"
proof -
  note readable = fru_memory.axioms(1) [OF assms(1)]
  define n where "n = length (mem st)"
  define d where "d = take n file"
  define fru where "fru = \<lparr>fru_size = of_nat n, fru_access = False, max_read_size = 0, max_write_size = 0\<rparr>"
  have size: "unat (of_nat n :: u16) = n"
    using assms(5) by (simp add: n_def unat_of_nat)
  have d: "0 < length d" "length d \<le> n" "d \<noteq> []"
    using assms(6,8) by (auto simp: d_def n_def)
  obtain st1 where info1: "fru_inventory_info send fid st = Inr (Some fru, st1)" "mem st1 = mem st"
    using fru_readable.info_ok [OF readable assms(5)] by (auto simp: fru_def n_def)
  have "\<exists>fru' st'. write_fru_area k send i junk5 fru fid 0 0 (length d) (put_at (junk n) 0 d) st1 = Inr (1, fru', st') \<and>
      mem st' = put_at (mem st1) 0 (region (put_at (junk n) 0 d) 0 (length d))"
    by (rule fru_memory.write_area_ok [OF assms(1), of fru st1 "length d" 0 0 "put_at (junk n) 0 d" i k junk5])
      (use d assms size info1(2) in \<open>auto simp: fru_def n_def\<close>)
  then obtain fru' st2 where w: "write_fru_area k send i junk5 fru fid 0 0 (length d) (put_at (junk n) 0 d) st1 = Inr (1, fru', st2)"
    "mem st2 = d @ drop (length d) (mem st)"
    using info1(2) by (auto simp: put_at_def region_def)
  have len2: "length (mem st2) = n"
    using w(2) d by (simp add: n_def)
  have restored: "ipmi_fru_write_from_bin k send i junk5 junk (Some file) fid st = Inr st2"
    using info1(1) w(1) d(3) size by (simp add: ipmi_fru_write_from_bin_def Let_def fru_def d_def)
  obtain st3 where info2: "fru_inventory_info send fid st2 = Inr (Some fru, st3)" "mem st3 = mem st2"
    using fru_readable.info_ok [OF readable, of st2] len2 assms(5) by (auto simp: fru_def n_def)
  have "\<exists>fru' st'. read_fru_area send i fru fid 0 n (junk n) st3 = Inr (0, put_at (junk n) 0 (region (mem st3) 0 n), fru', st')"
    by (rule fru_readable.read_area_ok [OF readable, of fru st3 n 0 "junk n" i])
      (use assms size info2(2) len2 in \<open>auto simp: fru_def n_def\<close>)
  then obtain fru2 st4 where "read_fru_area send i fru fid 0 n (junk n) st3 = Inr (0, mem st2, fru2, st4)"
    using info2(2) len2 assms(9) by (auto simp: put_at_def region_def)
  then have "ipmi_fru_read_to_bin send i junk True fid st2 = Inr (Some (mem st2), st4)"
    using info2(1) size by (simp add: ipmi_fru_read_to_bin_def Let_def fru_def)
  moreover have "mem st2 = take n file @ drop (length file) (mem st)"
    using w(2) by (cases "n \<le> length file") (simp_all add: d_def n_def)
  ultimately show ?thesis
    using restored by (simp add: n_def)
qed

lemma fru_save_restore_witness:
  "\<exists>st1 st2. ipmi_fru_write_from_bin 300 (fru_device 32) sample_intf [0, 0, 0, 0, 0] (\<lambda>n. replicate n 0) (Some [7, 7, 7]) 0
        sample_memory = Inr st1 \<and>
      ipmi_fru_read_to_bin (fru_device 32) sample_intf (\<lambda>n. replicate n 0) True 0 st1 =
        Inr (Some ([7, 7, 7] @ drop 3 sample_memory), st2)"
  using fru_save_restore [OF fru_device_memory [of 32 0], of sample_intf sample_memory "[7, 7, 7]" "\<lambda>n. replicate n 0" 300
      "[0, 0, 0, 0, 0]"] sample_sizes
  by (simp add: sample_memory_def)


section \<open>Blocks\<close>














section \<open>Errors\<close>

text \<open>
  A range that ends behind the memory and is shorter than the memory: the number of bytes to clear
  is negative, and \<open>memset\<close> takes it as one close to 4 GB.
\<close>

lemma wrapped_count:
  assumes "a < b" "b < 65536"
  shows "nat ((int a - int b) mod 2 ^ 32) = 2 ^ 32 + a - b"
proof -
  have "(2 ^ 32 + int a - int b) mod 2 ^ 32 = 2 ^ 32 + int a - int b"
    by (rule mod_pos_pos_trivial) (use assms in auto)
  moreover have "(2 ^ 32 + (int a - int b)) mod 2 ^ 32 = (int a - int b) mod 2 ^ 32"
    by (rule mod_add_self1)
  ultimately show ?thesis
    using assms by (simp only: add_diff_eq) (simp add: nat_diff_distrib)
qed

lemma read_range_past_end:
  assumes "len < unat (fru_size fru)" "unat (fru_size fru) < offset + len" "length buf < 2 ^ 32"
  shows "read_range fru offset len buf = Inl OutOfBounds"
proof -
  note n = wrapped_count [OF assms(1) unat_u16_less]
  show ?thesis
    using assms unfolding read_range_def Let_def n by simp
qed


text \<open>An area whose length byte reaches behind the memory, in an area shorter than the memory,
  makes printing it clear bytes outside every buffer.\<close>

theorem fru_print_past_end:
  assumes "fru_readable send mem fid limit" "8 \<le> limit" "2 < ipmi_intf_get_max_response_data_size i"
    and "unat (fru_size fru) = length (mem st)" "\<not> fru_access fru" "length junk = 2"
    and "off + 2 \<le> length (mem st)" "8 * unat (mem st ! (off + 1)) < length (mem st)"
    and "length (mem st) < off + 8 * unat (mem st ! (off + 1))"
  shows "fru_area_print_chassis send i junk fru fid off st = Inl OutOfBounds \<and>
    fru_area_print_board send i junk fru fid off st = Inl OutOfBounds \<and>
    fru_area_print_product send i junk fru fid off st = Inl OutOfBounds"
proof -
  let ?len = "8 * unat (mem st ! (off + 1))"
  obtain fru1 st1 where r: "read_fru_area send i fru fid off 2 junk st = Inr (0, put_at junk 0 (region (mem st) off 2), fru1, st1)"
    and f: "fru_size fru1 = fru_size fru"
    by (rule fru_readable.read_area_ok [OF assms(1,4,5) _ assms(7) _ assms(2,3), where buf = junk]) (use assms(6) in auto)
  have b: "put_at junk 0 (region (mem st) off 2) ! 1 = mem st ! (off + 1)"
    using assms(6,7) by (simp add: put_at_def region_def nth_append)
  have "read_range fru1 off ?len (replicate ?len 0) = Inl OutOfBounds"
    by (rule read_range_past_end) (use assms f unat_byte_less [of "mem st ! (off + 1)"] in auto)
  moreover have "off \<le> unat (fru_size fru1)" "?len \<noteq> 0"
    using assms f by auto
  ultimately have "read_area send i junk fru fid off st = Inl OutOfBounds"
    using r b by (simp add: read_area_def read_fru_area_def Let_def)
  then show ?thesis
    by (simp add: fru_area_print_chassis_def fru_area_print_board_def fru_area_print_product_def)
qed

lemma fru_print_past_end_witness:
  "fru_area_print_chassis (fru_device 8) sample_intf [0, 0] sample_fru 0 9 (sample_memory[10 := 1]) = Inl OutOfBounds \<and>
   fru_area_print_board (fru_device 8) sample_intf [0, 0] sample_fru 0 9 (sample_memory[10 := 1]) = Inl OutOfBounds \<and>
   fru_area_print_product (fru_device 8) sample_intf [0, 0] sample_fru 0 9 (sample_memory[10 := 1]) = Inl OutOfBounds"
  by (rule fru_print_past_end [OF fru_device_readable]) (use sample_sizes in \<open>simp_all add: sample_fru_def sample_memory_def\<close>)

text \<open>
  Once the first request to write is sent, the result is 0 or 1: the callers, who look for a
  negative result, take every refusal of the device for success.
\<close>

lemma write_loop_result: "write_loop k send fid finish buf bs fru so dof st = Inr (rc, fru', st') \<Longrightarrow> rc = 0 \<or> rc = 1"
  by (induction k arbitrary: bs fru so dof st)
    (auto simp: write_loop.simps bind_ok_Inr_iff split: prod.splits if_split_asm)

lemma write_result:
  assumes "write_fru_area k send i junk fru fid so dof len buf st = Inr (rc, fru', st')"
    and "dof + len \<le> unat (fru_size fru)" "\<not> fru_access fru" "3 < ipmi_intf_get_max_request_data_size i"
  shows "rc = 0 \<or> rc = 1"
proof -
  have fits: "(dof + len) mod 65536 = dof + len"
    using assms(2) unat_u16_less [of "fru_size fru"] by simp
  obtain bs fru1 st1 where b: "build_fru_bloc send i junk fru fid st = Inr (bs, fru1, st1)"
    using assms(1-3) fits by (auto simp: write_fru_area_def Let_def bind_ok_Inr_iff)
  obtain fru2 where "init_write_size i fru1 = Some fru2"
    using assms(4) by (cases "init_write_size i fru1") (auto simp: init_write_size_def Let_def not_less [symmetric] split: if_split_asm)
  then show ?thesis
    using assms b fits by (auto simp: write_fru_area_def Let_def dest: write_loop_result)
qed

end
