(* ===== verification/FruText.thy ===== *)
theory FruText
  imports FruProps
begin

text \<open>
  The texts of a FRU area: the three packings of the storage definition as reference encoders,
  and what the functions that decode and print fields make of them.
\<close>

section \<open>Packings\<close>

definition nibble :: "char \<Rightarrow> byte" where
  "nibble c = of_nat (length (takeWhile (\<lambda>x. x \<noteq> c) bcd_plus))"

fun bcd_pack :: "string \<Rightarrow> bytes" where
  "bcd_pack (a # b # cs) = (push_bit 4 (nibble a) OR nibble b) # bcd_pack cs"
| "bcd_pack cs = []"

definition six :: "char \<Rightarrow> u32" where
  "six c = of_nat (of_char c - 0x20)"

fun sixbit_pack :: "string \<Rightarrow> bytes" where
  "sixbit_pack (a # b # c # d # cs) =
     (let w = six a OR push_bit 6 (six b) OR push_bit 12 (six c) OR push_bit 18 (six d) in
      ucast w # ucast (drop_bit 8 w) # ucast (drop_bit 16 w) # sixbit_pack cs)"
| "sixbit_pack cs = []"

lemma take_bit_id_bit: "take_bit n a = a \<Longrightarrow> bit a m \<Longrightarrow> m < n"
  by (metis bit_take_bit_iff)

lemma take_bit_word_id: "unat w < 2 ^ n \<Longrightarrow> take_bit n w = (w :: 'a::len word)"
  by (simp add: word_unat_eq_iff unsigned_take_bit_eq take_bit_nat_eq_self)

lemma and_0x0f: "(n :: byte) AND 0x0f = take_bit 4 n"
  by (simp add: take_bit_eq_mask mask_numeral)

lemma and_0x3f: "(n :: u32) AND 0x3f = take_bit 6 n"
  by (simp add: take_bit_eq_mask mask_numeral)

lemma bcd_nibble:
  assumes "c \<in> set bcd_plus"
  shows "take_bit 4 (nibble c) = nibble c" "bcd_plus ! unat (nibble c) = c"
proof -
  define k where "k = length (takeWhile (\<lambda>x. x \<noteq> c) bcd_plus)"
  have len: "length bcd_plus = 16"
    by (simp add: bcd_plus_def)
  have "k < length bcd_plus"
    using assms length_takeWhile_le [of "\<lambda>x. x \<noteq> c" bcd_plus] takeWhile_eq_take [of "\<lambda>x. x \<noteq> c" bcd_plus]
    by (metis (mono_tags) k_def le_neq_implies_less order_refl set_takeWhileD take_all)
  then have k: "k < 16" "bcd_plus ! k = c"
    using len nth_length_takeWhile [of "\<lambda>x. x \<noteq> c" bcd_plus] by (simp_all add: k_def)
  then have n: "unat (nibble c) = k"
    by (simp add: nibble_def k_def [symmetric] unat_of_nat)
  then show "take_bit 4 (nibble c) = nibble c" "bcd_plus ! unat (nibble c) = c"
    using n k by (simp_all add: take_bit_word_id)
qed

lemma bcd_text_pack: "set cs \<subseteq> set bcd_plus \<Longrightarrow> even (length cs) \<Longrightarrow> bcd_text (bcd_pack cs) = cs"
proof (induction cs rule: bcd_pack.induct)
  case (1 a b cs)
  have a: "take_bit 4 (nibble a) = nibble a" "bcd_plus ! unat (nibble a) = a"
    and b: "take_bit 4 (nibble b) = nibble b" "bcd_plus ! unat (nibble b) = b"
    using 1(2) bcd_nibble by auto
  have "take_bit 4 (drop_bit 4 (push_bit 4 (nibble a) OR nibble b)) = nibble a"
    "take_bit 4 (push_bit 4 (nibble a) OR nibble b) = nibble b"
    by (rule bit_word_eqI, auto simp: bit_simps dest: take_bit_id_bit [OF a(1)] take_bit_id_bit [OF b(1)])+
  then show ?case
    using 1 a b by (simp add: bcd_text_def and_0x0f)
qed (auto simp: bcd_text_def)

text \<open>The characters a 6-bit digit stands for.\<close>

definition sixbit_char :: "char \<Rightarrow> bool" where
  "sixbit_char c \<longleftrightarrow> 0x20 \<le> (of_char c :: nat) \<and> (of_char c :: nat) < 0x60"

lemma six:
  assumes "sixbit_char c"
  shows "take_bit 6 (six c) = six c" "char_of (unat (six c + 0x20)) = c"
proof -
  have n: "unat (six c) = of_char c - 0x20"
    using assms by (auto simp: six_def sixbit_char_def unat_sub_if' unat_of_nat)
  then show "take_bit 6 (six c) = six c"
    using assms by (auto simp: sixbit_char_def intro: take_bit_word_id)
  have "unat (six c + 0x20) = of_char c"
    using n assms by (simp add: unat_word_ariths sixbit_char_def)
  then show "char_of (unat (six c + 0x20)) = c"
    by simp
qed

lemma of_le32_three:
  assumes "take_bit 24 w = w"
  shows "of_le32 [ucast w, ucast (drop_bit 8 w), ucast (drop_bit 16 w), 0] = w"
proof (rule bit_word_eqI)
  fix n assume n: "n < LENGTH(32)"
  then consider "n < 8" | "8 \<le> n" "n < 16" | "16 \<le> n" "n < 24" | "24 \<le> n" "n < 32"
    by fastforce
  then show "bit (of_le32 [ucast w, ucast (drop_bit 8 w), ucast (drop_bit 16 w), 0]) n = bit w n"
  proof cases
    case 4
    then have "\<not> bit w n"
      using take_bit_id_bit [OF assms, of n] by auto
    then show ?thesis
      using 4 by (auto simp: of_le32_def bit_simps)
  qed (auto simp: of_le32_def bit_simps)
qed

lemma sixbit_text_pack:
  "\<forall>c \<in> set cs. sixbit_char c \<Longrightarrow> length cs mod 4 = 0 \<Longrightarrow> sixbit_text (sixbit_pack cs) = cs"
proof (induction cs rule: sixbit_pack.induct)
  case (1 a b c d cs)
  define w where "w = six a OR push_bit 6 (six b) OR push_bit 12 (six c) OR push_bit 18 (six d)"
  have s: "take_bit 6 (six x) = six x" "char_of (unat (six x + 0x20)) = x" if "x \<in> {a, b, c, d}" for x
    using 1(2) six [of x] that by auto
  have bits: "bit (six a) m \<Longrightarrow> m < 6" "bit (six b) m \<Longrightarrow> m < 6" "bit (six c) m \<Longrightarrow> m < 6" "bit (six d) m \<Longrightarrow> m < 6" for m
    using s(1) take_bit_id_bit by blast+
  have w24: "take_bit 24 w = w"
    by (rule bit_word_eqI) (auto simp: w_def bit_simps dest: bits)
  have digits: "take_bit 6 w = six a" "take_bit 6 (drop_bit 6 w) = six b" "take_bit 6 (drop_bit 12 w) = six c"
    "take_bit 6 (drop_bit 18 w) = six d"
    by (rule bit_word_eqI, auto simp: w_def bit_simps dest: bits)+
  have "sixbit_group [ucast w, ucast (drop_bit 8 w), ucast (drop_bit 16 w)] = [a, b, c, d]"
    using digits s by (simp add: sixbit_group_def Let_def of_le32_three [OF w24] and_0x3f)
  then show ?case
    using 1 by (simp add: Let_def w_def [symmetric] take_Cons')
qed auto


section \<open>Fields\<close>

text \<open>A text in one of the packings 1 (BCD plus), 2 (6-bit ASCII) and 3 (8-bit), and its field.\<close>

type_synonym field = "nat \<times> string"

definition packed :: "field \<Rightarrow> bytes" where
  "packed f = (if fst f = 1 then bcd_pack (snd f) else if fst f = 2 then sixbit_pack (snd f) else chars_of (snd f))"

definition encodable :: "field \<Rightarrow> bool" where
  "encodable f \<longleftrightarrow> length (packed f) < 64 \<and>
     (fst f = 1 \<and> set (snd f) \<subseteq> set bcd_plus \<and> even (length (snd f)) \<or>
      fst f = 2 \<and> (\<forall>c \<in> set (snd f). sixbit_char c) \<and> length (snd f) mod 4 = 0 \<or>
      fst f = 3)"

definition field_bytes :: "field \<Rightarrow> bytes" where
  "field_bytes f = (push_bit 6 (of_nat (fst f)) OR of_nat (length (packed f))) # packed f"

definition field_text :: "field \<Rightarrow> string option" where
  "field_text f = (if snd f = [] \<and> fst f \<noteq> 2 then None else Some (snd f))"

lemma chars_of_id: "List.map (\<lambda>b. char_of (unat b)) (chars_of s) = s"
proof (induction s)
  case (Cons c s)
  have "(of_char c :: byte) = of_nat (of_char c)"
    by (cases c) (simp add: of_char_def)
  then have "unat (of_char c :: byte) = of_char c mod 256"
    by (simp only: unat_of_nat) simp
  then show ?case
    using Cons by (simp add: chars_of_def)
qed (simp add: chars_of_def)

lemma length_byte_bits:
  fixes l t :: byte
  assumes "take_bit 6 l = l" "take_bit 2 t = t"
  shows "(push_bit 6 t OR l) AND 0x3f = l" "drop_bit 6 (push_bit 6 t OR l) = t"
proof -
  have "(w :: byte) AND 0x3f = take_bit 6 w" for w
    by (simp add: take_bit_eq_mask mask_numeral)
  moreover have "take_bit 6 (push_bit 6 t OR l) = l" "drop_bit 6 (push_bit 6 t OR l) = t"
    by (rule bit_word_eqI, auto simp: bit_simps dest: take_bit_id_bit [OF assms(1)] take_bit_id_bit [OF assms(2)])+
  ultimately show "(push_bit 6 t OR l) AND 0x3f = l" "drop_bit 6 (push_bit 6 t OR l) = t"
    by simp_all
qed

lemma length_byte:
  fixes l t :: nat
  assumes "l < 64" "t < 4"
  shows "unat ((push_bit 6 (of_nat t) OR of_nat l) AND 0x3f :: byte) = l"
    "unat (drop_bit 6 (push_bit 6 (of_nat t) OR of_nat l :: byte)) = t"
proof -
  have "take_bit 6 (of_nat l :: byte) = of_nat l" "take_bit 2 (of_nat t :: byte) = of_nat t"
    by (rule take_bit_word_id, use assms in \<open>simp add: unat_of_nat\<close>)+
  then show "unat ((push_bit 6 (of_nat t) OR of_nat l) AND 0x3f :: byte) = l"
    "unat (drop_bit 6 (push_bit 6 (of_nat t) OR of_nat l :: byte)) = t"
    using assms by (simp_all only: length_byte_bits) (simp_all add: unat_of_nat)
qed

lemma bcd_pack_Nil: "even (length cs) \<Longrightarrow> bcd_pack cs = [] \<longleftrightarrow> cs = []"
  by (cases cs rule: bcd_pack.cases) auto

lemma sixbit_pack_Nil: "length cs mod 4 = 0 \<Longrightarrow> sixbit_pack cs = [] \<longleftrightarrow> cs = []"
  by (cases cs rule: sixbit_pack.cases) (simp_all add: Let_def)

lemma packed_Nil: "encodable f \<Longrightarrow> packed f = [] \<longleftrightarrow> snd f = []"
  using bcd_pack_Nil sixbit_pack_Nil by (auto simp: encodable_def packed_def chars_of_def)

text \<open>The field is decoded to its text, wherever it lies.\<close>

lemma get_field:
  assumes "encodable f"
  shows "get_fru_area_str (pre @ field_bytes f @ post) (length pre) =
    Inr (field_text f, length pre + length (field_bytes f))"
proof -
  let ?d = "pre @ field_bytes f @ post" and ?n = "length (packed f)"
  have t: "fst f < 4" "?n < 64"
    using assms by (auto simp: encodable_def)
  have b: "?d ! length pre = push_bit 6 (of_nat (fst f)) OR of_nat ?n"
    by (simp add: field_bytes_def)
  have d: "region ?d (length pre + 1) ?n = packed f"
    by (simp add: region_def field_bytes_def)
  have "length ?d \<ge> length pre + 1 + ?n" "\<not> length ?d \<le> length pre"
    by (simp_all add: field_bytes_def)
  then show ?thesis
    using assms packed_Nil [OF assms] unfolding get_fru_area_str_def b length_byte [OF t(2,1)] Let_def d
    by (auto simp: encodable_def packed_def field_text_def bcd_text_pack sixbit_text_pack chars_of_id field_bytes_def)
qed


text \<open>A text packed into a field, in any of the three packings, is decoded to this text, and the
  offset moves behind the field.\<close>

theorem fru_field_roundtrip:
  assumes "encodable f"
  shows "get_fru_area_str (pre @ field_bytes f @ post) (length pre) =
    Inr (if snd f = [] \<and> fst f \<noteq> 2 then None else Some (snd f), length pre + length (field_bytes f))"
  using get_field [OF assms] by (simp add: field_text_def)

lemma fru_field_roundtrip_witness:
  "get_fru_area_str ([9, 9] @ field_bytes (2, ''IPMI-KVM'') @ [0xc1]) 2 = Inr (Some ''IPMI-KVM'', 9)"
proof -
  have p: "length (packed (2, ''IPMI-KVM'')) = 6"
    by (simp add: packed_def Let_def)
  then have "encodable (2, ''IPMI-KVM'')"
    unfolding encodable_def by (simp add: sixbit_char_def)
  from fru_field_roundtrip [OF this, of "[9, 9]" "[0xc1]"] p show ?thesis
    by (simp add: field_bytes_def numeral_2_eq_2)
qed

section \<open>Printing\<close>

text \<open>What is printed of a text; the end marker must not be taken for the length byte of an extra field.\<close>

definition field_line :: "string \<Rightarrow> field \<Rightarrow> lines" where
  "field_line label f = (if snd f = [] then [] else [(label, snd f)])"

definition printable :: "field \<Rightarrow> bool" where
  "printable f \<longleftrightarrow> encodable f \<and> CHR 0x00 \<notin> set (snd f)"

lemma line_of_field: "printable f \<Longrightarrow> line_of label (field_text f) = field_line label f"
proof -
  assume "printable f"
  then have "c_string (snd f) = snd f"
    unfolding c_string_def takeWhile_eq_all_conv printable_def by blast
  then show ?thesis
    by (cases "snd f = []") (auto simp: line_of_def field_text_def field_line_def)
qed

lemma print_fields_ok:
  assumes "length labels = length fs" "\<forall>f \<in> set fs. printable f"
  shows "print_fields (pre @ concat (List.map field_bytes fs) @ post) labels (length pre) =
    Inr (concat (List.map2 field_line labels fs), length pre + length (concat (List.map field_bytes fs)))"
  using assms
proof (induction labels fs arbitrary: pre rule: list_induct2)
  case (Cons label labels f fs)
  have "get_fru_area_str (pre @ field_bytes f @ concat (List.map field_bytes fs) @ post) (length pre) =
      Inr (field_text f, length (pre @ field_bytes f))"
    using get_field [of f pre "concat (List.map field_bytes fs) @ post"] Cons.prems by (simp add: printable_def)
  moreover have "print_fields ((pre @ field_bytes f) @ concat (List.map field_bytes fs) @ post) labels (length (pre @ field_bytes f)) =
      Inr (concat (List.map2 field_line labels fs), length (pre @ field_bytes f) + length (concat (List.map field_bytes fs)))"
    using Cons.IH [of "pre @ field_bytes f"] Cons.prems by simp
  ultimately show ?case
    using line_of_field [of f label] Cons.prems by simp
qed simp

lemma extra_fields_ok:
  assumes "\<forall>f \<in> set fs. printable f \<and> hd (field_bytes f) \<noteq> FRU_END_OF_FIELDS"
  shows "extra_fields (pre @ concat (List.map field_bytes fs) @ FRU_END_OF_FIELDS # post) label (length pre) =
    Inr (concat (List.map (field_line label) fs))"
  using assms
proof (induction fs arbitrary: pre)
  case Nil
  then show ?case
    by (simp add: extra_fields.simps)
next
  case (Cons f fs)
  let ?rest = "concat (List.map field_bytes fs) @ FRU_END_OF_FIELDS # post"
  have "get_fru_area_str (pre @ field_bytes f @ ?rest) (length pre) = Inr (field_text f, length (pre @ field_bytes f))"
    using get_field [of f pre ?rest] Cons.prems by (simp add: printable_def)
  moreover have "extra_fields ((pre @ field_bytes f) @ ?rest) label (length (pre @ field_bytes f)) =
      Inr (concat (List.map (field_line label) fs))"
    using Cons.IH [of "pre @ field_bytes f"] Cons.prems by simp
  moreover have "(pre @ field_bytes f @ ?rest) ! length pre \<noteq> FRU_END_OF_FIELDS"
    using Cons.prems by (simp add: field_bytes_def)
  ultimately show ?case
    using line_of_field [of f label] Cons.prems
    by (subst extra_fields.simps) (simp add: field_bytes_def)
qed


text \<open>
  An area as the storage definition lays it out: its first bytes, the fields, the end marker,
  padding and the checksum.
\<close>

definition area_of :: "bytes \<Rightarrow> field list \<Rightarrow> nat \<Rightarrow> bytes" where
  "area_of head fs pad =
     (let body = head @ concat (List.map field_bytes fs) @ [FRU_END_OF_FIELDS] @ replicate pad 0
      in body @ [- sum_list body])"

lemma checksum_appended: "fru_checksum_is_valid (body @ [- sum_list body]) (length (body @ [- sum_list body]))"
  by (simp add: fru_checksum_is_valid_def fru_calc_checksum_def)

lemma area_of_checksum: "fru_checksum_is_valid (area_of head fs pad) (length (area_of head fs pad))"
  unfolding area_of_def Let_def by (rule checksum_appended)

text \<open>The fields with a label each, one field that is not printed, and the extra fields.\<close>

lemma print_area_id_ok:
  assumes "length labels = length fs" "\<forall>f \<in> set (fs @ f0 # extra). printable f"
    and "\<forall>f \<in> set extra. hd (field_bytes f) \<noteq> FRU_END_OF_FIELDS"
  shows "print_area_id (area_of head (fs @ f0 # extra) pad) date labels label (length head) =
    Inr \<lparr>ap_chassis_type = None, ap_date = date,
         ap_lines = concat (List.map2 field_line labels fs) @ concat (List.map (field_line label) extra),
         ap_checksum_ok = True\<rparr>"
proof -
  define post where "post = replicate pad 0 @
    [- sum_list (head @ concat (List.map field_bytes (fs @ f0 # extra)) @ [FRU_END_OF_FIELDS] @ replicate pad 0)]"
  let ?F = "\<lambda>fs. concat (List.map field_bytes fs)"
  have d: "area_of head (fs @ f0 # extra) pad = head @ ?F fs @ field_bytes f0 @ ?F extra @ FRU_END_OF_FIELDS # post"
    by (simp add: area_of_def post_def Let_def)
  have 1: "print_fields (head @ ?F fs @ field_bytes f0 @ ?F extra @ FRU_END_OF_FIELDS # post) labels (length head) =
      Inr (concat (List.map2 field_line labels fs), length (head @ ?F fs))"
    using print_fields_ok [of labels fs head] assms by simp
  have 2: "get_fru_area_str (head @ ?F fs @ field_bytes f0 @ ?F extra @ FRU_END_OF_FIELDS # post) (length (head @ ?F fs)) =
      Inr (field_text f0, length (head @ ?F fs @ field_bytes f0))"
    using get_field [of f0 "head @ ?F fs"] assms(2) by (simp add: printable_def)
  have 3: "extra_fields (head @ ?F fs @ field_bytes f0 @ ?F extra @ FRU_END_OF_FIELDS # post) label
      (length (head @ ?F fs @ field_bytes f0)) = Inr (concat (List.map (field_line label) extra))"
    using extra_fields_ok [of extra "head @ ?F fs @ field_bytes f0"] assms by simp
  show ?thesis
    using 1 2 3 area_of_checksum [of head "fs @ f0 # extra" pad] unfolding print_area_id_def d by simp
qed

text \<open>Reading an area that lies in the memory of a device gives the area.\<close>

context fru_readable
begin

text \<open>Reading an area that lies in the memory gives the area.\<close>

lemma read_whole_area:
  assumes "unat (fru_size fru) = length (mem st)" "\<not> fru_access fru" "8 \<le> limit" "2 < ipmi_intf_get_max_response_data_size i"
    and "length junk = 2" "off + length area \<le> length (mem st)" "region (mem st) off (length area) = area"
    and "length area = 8 * unat (area ! 1)" "area \<noteq> []"
  obtains fru' st' where "read_area send i junk fru fid off st = Inr (Some area, fru', st')" "mem st' = mem st"
    "fru_size fru' = fru_size fru" "\<not> fru_access fru'"
proof -
  have len: "8 \<le> length area"
    using assms(8,9) by (cases "unat (area ! 1)") auto
  define tmp where "tmp = put_at junk 0 (region (mem st) off 2)"
  obtain fru1 st1 where r1: "read_fru_area send i fru fid off 2 junk st = Inr (0, tmp, fru1, st1)"
    and m1: "mem st1 = mem st" "fru_size fru1 = fru_size fru" "\<not> fru_access fru1"
    unfolding tmp_def by (rule read_area_ok [OF assms(1,2), of 2 off junk i]) (use assms len in auto)
  have "area ! 1 = mem st ! (off + 1)"
    using arg_cong [OF assms(7), of "\<lambda>x. x ! 1"] len assms(6) by (simp add: region_def)
  moreover have "tmp ! 1 = mem st ! (off + 1)"
    using assms(5,6) len by (simp add: tmp_def put_at_def region_def nth_append)
  ultimately have b: "8 * unat (tmp ! 1) = length area"
    using assms(8) by simp
  have all: "put_at (replicate (length area) 0) 0 area = area"
    by (simp add: put_at_def)
  obtain fru2 st2 where r2: "read_fru_area send i fru1 fid off (length area) (replicate (length area) 0) st1 = Inr (0, area, fru2, st2)"
    and "mem st2 = mem st1" "fru_size fru2 = fru_size fru1" "\<not> fru_access fru2"
    by (rule read_area_ok [of fru1 st1 "length area" off "replicate (length area) 0" i]) (use assms len m1 all in auto)
  moreover have "read_area send i junk fru fid off st = Inr (Some area, fru2, st2)"
  proof -
    have "unat (tmp ! 1) \<noteq> 0"
      using b len by linarith
    then show ?thesis
      using r1 r2 b by (simp add: read_area_def Let_def)
  qed
  ultimately show thesis
    using that m1 by simp
qed

end

text \<open>C39: a product area in the memory of a device is read and printed with each text beside its label,
  the extra fields after them, and a valid checksum.\<close>

theorem fru_product_printed:
  assumes "fru_readable send mem fid limit" "8 \<le> limit" "2 < ipmi_intf_get_max_response_data_size i"
    and "unat (fru_size fru) = length (mem st)" "\<not> fru_access fru" "length junk = 2"
    and "area = area_of [version, len, lang] (fs @ f0 # extra) pad" "length area = 8 * unat len"
    and "off + length area \<le> length (mem st)" "region (mem st) off (length area) = area"
    and "length fs = 6" "\<forall>f \<in> set (fs @ f0 # extra). printable f"
    and "\<forall>f \<in> set extra. hd (field_bytes f) \<noteq> FRU_END_OF_FIELDS"
  shows "\<exists>fru' st'. fru_area_print_product send i junk fru fid off st =
      Inr (Some \<lparr>ap_chassis_type = None, ap_date = None,
        ap_lines = concat (List.map2 field_line product_labels fs) @ concat (List.map (field_line ''Product Extra'') extra),
        ap_checksum_ok = True\<rparr>, fru', st') \<and> mem st' = mem st"
proof -
  have len: "area ! 1 = len" "area \<noteq> []"
    using assms(7) by (simp_all add: area_of_def Let_def)
  obtain fru' st' where "read_area send i junk fru fid off st = Inr (Some area, fru', st')" "mem st' = mem st"
    by (rule fru_readable.read_whole_area [OF assms(1,4,5,2,3,6,9,10)]) (use assms(8) len in auto)
  moreover have "print_area_id area None product_labels ''Product Extra'' 3 =
      Inr \<lparr>ap_chassis_type = None, ap_date = None,
        ap_lines = concat (List.map2 field_line product_labels fs) @ concat (List.map (field_line ''Product Extra'') extra),
        ap_checksum_ok = True\<rparr>"
    using print_area_id_ok [of product_labels fs f0 extra "[version, len, lang]" pad None "''Product Extra''"] assms(7,11-13)
    by (simp add: product_labels_def numeral_3_eq_3)
  ultimately show ?thesis
    by (simp add: fru_area_print_product_def)
qed


definition sample_product :: bytes where
  "sample_product = area_of [1, 3, 25]
     ([(3, ''ACME''), (2, ''IPMI''), (3, ''''), (1, ''12''), (3, ''''), (3, '''')] @ (3, '''') # [(3, ''hi'')]) 1"

lemma sample_product_length: "length sample_product = 24"
  by (simp add: sample_product_def area_of_def field_bytes_def packed_def chars_of_def Let_def)

lemma fru_product_printed_witness:
  "\<exists>fru' st'. fru_area_print_product (fru_device 16) sample_intf [0, 0] (sample_fru\<lparr>fru_size := 32\<rparr>) 0 8 (replicate 8 1 @ sample_product) =
     Inr (Some \<lparr>ap_chassis_type = None, ap_date = None,
       ap_lines = [(''Product Manufacturer'', ''ACME''), (''Product Name'', ''IPMI''), (''Product Version'', ''12''),
         (''Product Extra'', ''hi'')], ap_checksum_ok = True\<rparr>, fru', st') \<and> st' = replicate 8 1 @ sample_product"
proof -
  let ?fs = "[(3, ''ACME''), (2, ''IPMI''), (3, ''''), (1, ''12''), (3, ''''), (3, '''')] :: field list"
  have p: "\<forall>f \<in> set (?fs @ (3, '''') # [(3, ''hi'')]). printable f"
    by (simp add: printable_def encodable_def packed_def chars_of_def Let_def sixbit_char_def bcd_plus_def)
  have e: "\<forall>f \<in> set [(3 :: nat, ''hi'')]. hd (field_bytes f) \<noteq> FRU_END_OF_FIELDS"
    by (simp add: field_bytes_def packed_def chars_of_def FRU_END_OF_FIELDS_def)
  have r: "region (replicate 8 1 @ sample_product) 8 (length sample_product) = sample_product"
    by (simp add: region_def)
  have lines: "concat (List.map2 field_line product_labels ?fs) @ concat (List.map (field_line ''Product Extra'') [(3, ''hi'')]) =
     [(''Product Manufacturer'', ''ACME''), (''Product Name'', ''IPMI''), (''Product Version'', ''12''), (''Product Extra'', ''hi'')]"
    by (simp add: product_labels_def field_line_def)
  show ?thesis
    using fru_product_printed [OF fru_device_readable [of 16 0], of sample_intf "sample_fru\<lparr>fru_size := 32\<rparr>"
        "replicate 8 1 @ sample_product" "[0, 0]" sample_product 1 3 25 ?fs "(3, '''')" "[(3, ''hi'')]" 1 8]
      sample_sizes p e r lines sample_product_length sample_product_def
    by (simp add: sample_fru_def)
qed

end
