(* ===== verification/FruEditProps.thy ===== *)
theory FruEditProps
  imports FruText
begin

text \<open>
  The properties of editing a field: on a conforming device a text of the same length replaces the
  field and the checksum; a device that refuses to write is not noticed; a text of another length
  is always reported as an error.
\<close>

section \<open>The edited area\<close>

text \<open>The area with another 8-bit text in the field at \<open>off\<close>, and its checksum.\<close>

definition edited_area :: "bytes \<Rightarrow> nat \<Rightarrow> string \<Rightarrow> bytes" where
  "edited_area area off new =
     (let body = take off area @ field_bytes (3, new) @ drop (off + 1 + length new) (butlast area)
      in body @ [- sum_list body])"

lemma length_chars_of [simp]: "length (chars_of s) = length s"
  by (simp add: chars_of_def)

lemma packed_8bit [simp]: "packed (3, s) = chars_of s"
  by (simp add: packed_def)

lemma length_edited: "off + 1 + length new < length area \<Longrightarrow> length (edited_area area off new) = length area"
  by (simp add: edited_area_def field_bytes_def Let_def)

lemma put_at_append: "off + length bs \<le> length a \<Longrightarrow> put_at (a @ z) off bs = put_at a off bs @ z"
  by (simp add: put_at_def)

lemma get_fru_area_str_append: "get_fru_area_str a off = Inr r \<Longrightarrow> get_fru_area_str (a @ z) off = Inr r"
  by (auto simp: get_fru_area_str_def Let_def nth_append region_def split: if_splits)

lemma seek_field_append: "seek_field k a off = Inr r \<Longrightarrow> seek_field k (a @ z) off = Inr r"
proof (induction k arbitrary: off)
  case 0
  then show ?case
    by (auto simp: bind_ok_Inr_iff dest: get_fru_area_str_append [of a _ _ z])
next
  case (Suc k)
  then show ?case
    by (fastforce simp: bind_ok_Inr_iff dest: get_fru_area_str_append [of a _ _ z])
qed

lemma seek_field_get: "seek_field k a off = Inr (o1, s, o2) \<Longrightarrow> get_fru_area_str a o1 = Inr (s, o2)"
  by (induction k arbitrary: off) (auto simp: bind_ok_Inr_iff)

text \<open>An 8-bit field: its length byte, its text and where it ends.\<close>

lemma get_8bit:
  assumes "get_fru_area_str a off = Inr (Some s, off1)" "unat (drop_bit 6 (a ! off)) = 3"
  shows "a ! off = push_bit 6 3 OR of_nat (length s)" "off1 = off + 1 + length s" "off1 \<le> length a"
    "0 < length s" "length s < 64"
proof -
  let ?n = "unat (a ! off AND 0x3f)"
  have mask: "(w :: byte) AND 0x3f = take_bit 6 w" for w
    by (simp add: take_bit_eq_mask mask_numeral)
  have n: "?n < 64"
    unfolding mask unsigned_take_bit_eq by (simp add: take_bit_eq_mod)
  have "?n \<noteq> 0" "off + 1 + ?n \<le> length a" "off1 = off + 1 + ?n" and ls: "length s = ?n"
    using assms by (auto simp: get_fru_area_str_def Let_def split: if_splits)
  then show "off1 = off + 1 + length s" "off1 \<le> length a" "0 < length s"
    by simp_all
  show "length s < 64"
    using ls n by simp
  have d: "drop_bit 6 (a ! off) = 3"
    using assms(2) by (simp add: word_unat_eq_iff)
  have "a ! off = push_bit 6 (drop_bit 6 (a ! off)) OR take_bit 6 (a ! off)"
    by (rule bit_word_eqI) (auto simp: bit_simps)
  also have "\<dots> = push_bit 6 3 OR of_nat (length s)"
    unfolding d ls mask by simp
  finally show "a ! off = push_bit 6 3 OR of_nat (length s)" .
qed

lemma split_area:
  assumes "off + 1 + n < length area"
  obtains pre b old rest c where "area = pre @ b # old @ rest @ [c]" "length pre = off" "length old = n"
proof -
  have d: "drop off area = area ! off # drop (off + 1) area"
    using assms by (simp add: Cons_nth_drop_Suc)
  have "drop (off + 1 + n) area \<noteq> []"
    using assms by simp
  then have "area = take off area @ area ! off # take n (drop (off + 1) area) @
      butlast (drop (off + 1 + n) area) @ [last (drop (off + 1 + n) area)]"
    by (metis append_butlast_last_id append_take_drop_id d drop_drop add.commute)
  then show thesis
    using that assms by (metis length_take length_drop min.absorb2 less_imp_le_nat add_lessD1 less_diff_conv add.commute)
qed

lemma edited_split: "edited_area (pre @ b # old @ rest @ [c]) (length pre) new =
    (let body = pre @ field_bytes (3, new) @ rest in body @ [- sum_list body])" if "length old = length new"
  using that by (simp add: edited_area_def butlast_append)

lemma load_front: "load (xs @ ys) 0 (int (length xs)) = Inr xs"
  by (simp add: load_def region_def)

lemma store_behind: "store (xs @ c # ys) (int (length xs)) [x] = Inr (xs @ x # ys)"
  by (simp add: store_def put_at_def)

text \<open>Overwriting the field in the buffer gives the edited area.\<close>

lemma overwrite_ok:
  assumes "area ! off = push_bit 6 3 OR of_nat (length new)" "off + 1 + length new < length area"
  shows "overwrite_field (area @ z) off (length area) new = Inr (edited_area area off new @ z)"
proof -
  obtain pre b old rest c where area: "area = pre @ b # old @ rest @ [c]" and len: "length pre = off" "length old = length new"
    by (rule split_area [OF assms(2)])
  define body where "body = pre @ field_bytes (3, new) @ rest"
  have b: "b = push_bit 6 3 OR of_nat (length new)"
    using assms(1) len by (auto simp: area nth_append)
  have 1: "store (area @ z) (int off + 1) (chars_of new) = Inr (body @ c # z)"
    using len by (simp add: store_def area put_at_def field_bytes_def b nat_add_distrib body_def)
  have L: "int (length area) - 1 = int (length body)"
    using len area by (simp add: field_bytes_def body_def)
  have e: "edited_area area off new = body @ [- sum_list body]"
    using edited_split [of old new pre b rest c] len by (simp add: area body_def Let_def)
  show ?thesis
    unfolding overwrite_field_def 1 L e by (simp add: load_front store_behind)
qed



section \<open>The command on a device\<close>

text \<open>The situation of an edit: a memory with a valid start, and an 8-bit field with a text.\<close>

definition edit_case :: "bytes \<Rightarrow> char \<Rightarrow> nat \<Rightarrow> nat \<Rightarrow> bytes \<Rightarrow> nat \<Rightarrow> string \<Rightarrow> bool" where
  "edit_case m t k so area off old \<longleftrightarrow>
     8 \<le> length m \<and> length m < 65536 \<and> m ! 0 = 1 \<and> m ! 5 = 0 \<and>
     map_option (\<lambda>o8. 8 * unat o8) (area_offset (read_header m) t) = Some so \<and>
     so + length area \<le> length m \<and> region m so (length area) = area \<and> length area = 8 * unat (area ! 1) \<and>
     (case seek_field k area (first_field t) of Inl f \<Rightarrow> False
      | Inr (off', s, off1) \<Rightarrow> off' = off \<and> s = Some old \<and> off1 < length area) \<and>
     unat (drop_bit 6 (area ! off)) = 3 \<and> CHR 0x00 \<notin> set old"

lemma edit_caseE:
  assumes "edit_case m t k so area off old"
  obtains o8 off1 where "8 \<le> length m" "length m < 65536" "m ! 0 = 1" "m ! 5 = 0"
    "area_offset (read_header m) t = Some o8" "so = 8 * unat o8"
    "so + length area \<le> length m" "region m so (length area) = area" "length area = 8 * unat (area ! 1)"
    "seek_field k area (first_field t) = Inr (off, Some old, off1)" "off1 < length area"
    "unat (drop_bit 6 (area ! off)) = 3" "CHR 0x00 \<notin> set old"
  using assms by (auto simp: edit_case_def split: sum.splits)

context fru_readable
begin

lemma header_ok:
  assumes "8 \<le> length (mem st)" "8 \<le> limit"
  obtains st' where "fru_common_header send fid st = Inr (Some (read_header (mem st)), st')" "mem st' = mem st"
proof -
  obtain rsp st1 where r: "send (fru_read_rq fid False 0 8) st = Inr (Some rsp, st1)" "mem st1 = mem st"
    "rs_ccode rsp = 0" "region (rs_data rsp) 1 8 = region (mem st) 0 8"
    by (rule read_fits [of 0 8 st]) (use assms in auto)
  have "read_header (region (mem st) 0 8) = read_header (mem st)"
    by (simp add: read_header_def region_def)
  moreover have "fru_read_rq fid False 0 8 = mk_rq IPMI_NETFN_STORAGE GET_FRU_DATA [fid, 0, 0, 8]"
    by (simp add: fru_read_rq_def)
  ultimately show thesis
    using that r by (simp add: fru_common_header_def)
qed

text \<open>Editing comes to writing the edited area.\<close>

lemma edit_writes:
  assumes "edit_case (mem st) t (unat (idx - 0x30)) so area off old" "8 \<le> limit" "2 < ipmi_intf_get_max_response_data_size i"
    and "\<And>n. length (junk n) = n"
  obtains fru st' where
    "ipmi_fru_set_field_string rounds send i junk5 junk fid t idx new st =
      (if length old = length new then
         bind_ok (write_fru_area rounds send i junk5 fru fid 0 so (length area)
           (edited_area area off new @ replicate (length (mem st) - length area) 0) st')
           (\<lambda>(rc, fru1, st1). Inr (if rc < 0 then -1 else 1, st1))
       else bind_ok (ipmi_fru_set_field_string_rebuild rounds send i junk5 fid fru (read_header (mem st)) t
           (unat (idx - 0x30)) new st')
           (\<lambda>(rc, st1). Inr (if rc \<noteq> 0 then -1 else 1, st1)))"
    "mem st' = mem st" "unat (fru_size fru) = length (mem st)" "\<not> fru_access fru"
proof -
  let ?m = "mem st" and ?k = "unat (idx - 0x30)"
  obtain o8 off1 where m: "8 \<le> length ?m" "length ?m < 65536" "?m ! 0 = 1"
    and o8: "area_offset (read_header ?m) t = Some o8" "so = 8 * unat o8"
    and area: "so + length area \<le> length ?m" "region ?m so (length area) = area" "length area = 8 * unat (area ! 1)"
    and seek: "seek_field ?k area (first_field t) = Inr (off, Some old, off1)" "off1 < length area"
    and old: "unat (drop_bit 6 (area ! off)) = 3" "CHR 0x00 \<notin> set old"
    by (rule edit_caseE [OF assms(1)])
  note field = get_8bit [OF seek_field_get [OF seek(1)] old(1)]
  have len: "8 \<le> length area"
    using area(3) seek(2) by (cases "unat (area ! 1)") auto
  obtain fru st1 where info: "fru_inventory_info send fid st = Inr (Some fru, st1)" "mem st1 = ?m"
    and fru: "unat (fru_size fru) = length ?m" "\<not> fru_access fru" "\<not> fru_size fru < 1"
  proof (rule info_ok [OF m(2)])
    fix st' assume "fru_inventory_info send fid st = Inr (Some \<lparr>fru_size = of_nat (length ?m), fru_access = False,
      max_read_size = 0, max_write_size = 0\<rparr>, st')" "mem st' = ?m"
    then show thesis
      using that m by (cases "?m = []") (simp_all add: unat_of_nat word_less_nat_alt)
  qed
  obtain st2 where hdr: "fru_common_header send fid st1 = Inr (Some (read_header ?m), st2)" "mem st2 = ?m"
    using header_ok [of st1] m assms(2) info(2) by auto
  define d0 where "d0 = put_at (junk (length ?m)) 0 (region ?m so 3)"
  obtain fru2 st3 where r1: "read_fru_area send i fru fid so 3 (junk (length ?m)) st2 = Inr (0, d0, fru2, st3)"
    and m3: "mem st3 = ?m" "fru_size fru2 = fru_size fru" "\<not> fru_access fru2"
    unfolding d0_def by (rule read_area_ok [of fru st2 3 so "junk (length ?m)" i]) (use assms fru hdr(2) len area in auto)
  have "area ! 1 = ?m ! (so + 1)"
    using arg_cong [OF area(2), of "\<lambda>x. x ! 1"] len area(1) by (simp add: region_def)
  then have b: "load1 d0 1 = Inr (area ! 1)"
    using assms(4) len area(1) by (simp add: load1_def load_def d0_def put_at_def region_def nth_append)
  define d where "d = area @ replicate (length ?m - length area) 0"
  have d: "put_at (replicate (length ?m) 0) 0 (region ?m so (length area)) = d"
    unfolding area(2) by (simp add: d_def put_at_def)
  obtain fru3 st4 where r2: "read_fru_area send i fru2 fid so (length area) (replicate (length ?m) 0) st3 = Inr (0, d, fru3, st4)"
    and m4: "mem st4 = ?m" "fru_size fru3 = fru_size fru2" "\<not> fru_access fru3"
    unfolding d [symmetric] m3(1) [symmetric]
    by (rule read_area_ok [of fru2 st3 "length area" so "replicate (length (mem st3)) 0" i]) (use assms(2,3) fru m3 len area(1) in auto)
  have s: "seek_field ?k d (first_field t) = Inr (off, Some old, off1)"
    unfolding d_def by (rule seek_field_append [OF seek(1)])
  have c: "c_string old = old"
    using old(2) unfolding c_string_def takeWhile_eq_all_conv by blast
  have w: "overwrite_field d off (length area) new = Inr (edited_area area off new @ replicate (length ?m - length area) 0)"
    if "length old = length new"
    unfolding d_def by (rule overwrite_ok) (use that field seek(2) in auto)
  have v: "fh_version (read_header ?m) = 1"
    using m by (simp add: read_header_def)
  have n: "old \<noteq> []"
    using field(4) by simp
  have "ipmi_fru_set_field_string rounds send i junk5 junk fid t idx new st =
      (if length old = length new then
         bind_ok (write_fru_area rounds send i junk5 fru3 fid 0 so (length area)
           (edited_area area off new @ replicate (length ?m - length area) 0) st4)
           (\<lambda>(rc, fru1, st1). Inr (if rc < 0 then -1 else 1, st1))
       else bind_ok (ipmi_fru_set_field_string_rebuild rounds send i junk5 fid fru3 (read_header ?m) t ?k new st4)
           (\<lambda>(rc, st1). Inr (if rc \<noteq> 0 then -1 else 1, st1)))"
    using info(1) fru hdr(1) v o8 r1 b r2 s w area(3) c n
    by (simp add: ipmi_fru_set_field_string_def Let_def FRU_FIELD_VALID_def)
  then show thesis
    using that [of fru3 st4] m4 m3 fru by simp
qed

end



section \<open>A device that refuses to write\<close>

text \<open>
  A device whose memory cannot be written: every request to write is answered with a completion code
  that neither asks for less nor names a protected range.
\<close>

locale fru_refusing = fru_readable +
  assumes refuses: "off < 65536 \<Longrightarrow> length d \<le> 255 \<Longrightarrow>
      \<exists>rsp st'. send (fru_write_rq fid False off d) st = Inr (Some rsp, st') \<and> mem st' = mem st \<and> rs_ccode rsp \<noteq> 0 \<and>
        \<not> fru_cc_rq2big (rs_ccode rsp) \<and> rs_ccode rsp \<noteq> IPMI_CC_FRU_WRITE_PROTECTED_OFFSET"
begin

lemma write_refused:
  assumes "\<not> fru_access fru" "dof < finish" "finish < 65536" "so + (finish - dof) \<le> length buf"
  shows "\<exists>st'. write_loop (Suc k) send fid finish buf bs fru so dof st = Inr (0, fru, st') \<and> mem st' = mem st"
proof -
  define bs' where "bs' = dropWhile (\<lambda>b. bloc_end b \<le> dof) bs"
  obtain e n where span: "write_span fru bs' finish dof = (e, n)" and e: "dof < e" "e \<le> finish"
    and n_def: "n = min (e - dof) (unat (max_write_size fru))"
    unfolding bs'_def by (rule write_span_ok [OF assms(2,3)])
  have n: "n \<le> finish - dof" "n \<le> 255"
    using e unat_byte_less [of "max_write_size fru"] by (auto simp: n_def)
  have "length (region buf so n) \<le> 255" "dof < 65536"
    using n assms(2,3) by simp_all
  then obtain rsp st1 where "send (fru_write_rq fid False dof (region buf so n)) st = Inr (Some rsp, st1)" "mem st1 = mem st"
    "rs_ccode rsp \<noteq> 0" "\<not> fru_cc_rq2big (rs_ccode rsp)" "rs_ccode rsp \<noteq> IPMI_CC_FRU_WRITE_PROTECTED_OFFSET"
    using refuses [of dof "region buf so n" st] by auto
  then have "write_round send fid finish buf bs fru so dof st = Inr (False, bs', fru, so, dof, st1)" "mem st1 = mem st"
    using span n assms(1,4) by (simp_all add: write_round_def Let_def bs'_def [symmetric])
  then show ?thesis
    using assms(2) by (simp add: write_loop.simps)
qed

lemma write_area_refused:
  assumes "unat (fru_size fru) = length (mem st)" "\<not> fru_access fru" "0 < len" "dof + len \<le> length (mem st)"
    "so + len \<le> length buf" "8 \<le> limit" "3 < ipmi_intf_get_max_request_data_size i" "8 \<le> length (mem st)" "mem st ! 5 = 0" "0 < k"
  obtains fru' st' where "write_fru_area k send i junk fru fid so dof len buf st = Inr (0, fru', st')" "mem st' = mem st"
proof -
  have size: "(dof + len) mod 65536 = dof + len" "dof + len < 65536"
    using assms(1,4) unat_u16_less [of "fru_size fru"] by auto
  obtain bs st1 where b: "build_fru_bloc send i junk fru fid st = Inr (bs, fru, st1)" "mem st1 = mem st"
    using build_bloc_ok [OF assms(8,6,9)] .
  obtain fru2 where init: "init_write_size i fru = Some fru2" "\<not> fru_access fru2"
    using assms(2,7) by (cases "init_write_size i fru") (auto simp: init_write_size_def Let_def not_less [symmetric] split: if_split_asm)
  obtain j where k: "k = Suc j"
    using assms(10) by (cases k) auto
  obtain st' where "write_loop k send fid (dof + len) buf (case bs of None \<Rightarrow> [] | Some x \<Rightarrow> x) fru2 so dof st1 = Inr (0, fru2, st')"
    "mem st' = mem st1"
    using write_refused [of fru2 dof "dof + len" so buf j "case bs of None \<Rightarrow> [] | Some x \<Rightarrow> x" st1] init assms(3,5) size k by auto
  then show thesis
    using that [of fru2 st'] b init assms(1,2,4) size by (simp add: write_fru_area_def Let_def)
qed

end


text \<open>When the device refuses to write, the edit reports success all the same: the memory is
  unchanged and the result is 1.\<close>

theorem fru_refusal_unnoticed:
  assumes "fru_refusing send mem fid limit" "8 \<le> limit"
    and "2 < ipmi_intf_get_max_response_data_size i" "3 < ipmi_intf_get_max_request_data_size i"
    and "\<And>n. length (junk n) = n" "0 < rounds"
    and "edit_case (mem st) t (unat (idx - 0x30)) so area off old" "length old = length new"
  shows "\<exists>st'. ipmi_fru_set_field_string rounds send i junk5 junk fid t idx new st = Inr (1, st') \<and> mem st' = mem st"
proof -
  obtain off1 where m: "8 \<le> length (mem st)" "mem st ! 5 = 0"
    and area: "so + length area \<le> length (mem st)" and seek: "seek_field (unat (idx - 0x30)) area (first_field t) = Inr (off, Some old, off1)"
    and off1: "off1 < length area" and old: "unat (drop_bit 6 (area ! off)) = 3"
    by (rule edit_caseE [OF assms(7)])
  note field = get_8bit [OF seek_field_get [OF seek] old]
  have fits: "off + 1 + length new < length area"
    using field off1 assms(8) by auto
  let ?buf = "edited_area area off new @ replicate (length (mem st) - length area) 0"
  obtain fru st1 where e: "ipmi_fru_set_field_string rounds send i junk5 junk fid t idx new st =
      bind_ok (write_fru_area rounds send i junk5 fru fid 0 so (length area) ?buf st1)
        (\<lambda>(rc, fru1, st1). Inr (if rc < 0 then -1 else 1, st1))"
    and w: "mem st1 = mem st" "unat (fru_size fru) = length (mem st)" "\<not> fru_access fru"
    using fru_readable.edit_writes [OF fru_refusing.axioms(1) [OF assms(1)] assms(7,2,3,5), of rounds junk5 new]
    unfolding if_P [OF assms(8)] by blast
  obtain fru' st' where "write_fru_area rounds send i junk5 fru fid 0 so (length area) ?buf st1 = Inr (0, fru', st')" "mem st' = mem st1"
    by (rule fru_refusing.write_area_refused [OF assms(1), of fru st1 "length area" so 0 ?buf i rounds junk5])
      (use w m area fits assms(2,4,6) length_edited [OF fits] in auto)
  then show ?thesis
    using e w(1) by simp
qed

section \<open>Samples\<close>

definition sample_fru_memory :: bytes where
  "sample_fru_memory = [1, 0, 0, 0, 1, 0, 0, 0xfe] @ sample_product"

lemma sample_edit: "edit_case sample_fru_memory (CHR ''p'') 0 8 sample_product 3 ''ACME''"
proof -
  have f: "sample_product = [1, 3, 25] @ field_bytes (3, ''ACME'') @ drop 8 sample_product"
    by (simp add: sample_product_def area_of_def field_bytes_def chars_of_def Let_def)
  have "encodable (3, ''ACME'')"
    by (simp add: encodable_def)
  moreover have "length [1 :: byte, 3, 25] = 3"
    by simp
  ultimately have "get_fru_area_str sample_product 3 = Inr (Some ''ACME'', 8)"
    using get_field [of "(3, ''ACME'')" "[1, 3, 25]" "drop 8 sample_product"]
    unfolding f [symmetric] by (simp only:) (simp add: field_text_def field_bytes_def)
  moreover have "sample_product ! 1 = 3" "sample_product ! 3 = 0xc4"
    by (subst f, simp add: field_bytes_def)+
  ultimately show ?thesis
    unfolding edit_case_def sample_fru_memory_def
    by (simp add: sample_product_length read_header_def area_offset_def first_field_def region_def)
qed

text \<open>A device that answers requests to write with the completion code D5h.\<close>

definition fru_readonly :: "nat \<Rightarrow> bytes sendrecv" where
  "fru_readonly limit rq m =
     (if rq_netfn rq = IPMI_NETFN_STORAGE \<and> rq_cmd rq = SET_FRU_DATA then Inr (Some (reply 0xd5 []), m) else fru_device limit rq m)"

interpretation fru_ro: fru_refusing "fru_readonly limit" "\<lambda>m. m" fid limit
proof
  fix st :: bytes
  assume "length st < 65536"
  then show "\<exists>rsp st'. fru_readonly limit (mk_rq IPMI_NETFN_STORAGE GET_FRU_INFO [fid]) st = Inr (Some rsp, st') \<and> st' = st \<and>
      rs_ccode rsp = 0 \<and> take 3 (rs_data rsp) = le16 (of_nat (length st)) @ [0]"
    using fru_dev.info by (simp add: fru_readonly_def fru_cmds)
next
  fix off n and st :: bytes
  assume h: "off + n \<le> length st" "off < 65536" "n \<le> 255"
  show "\<exists>rsp st'. fru_readonly limit (fru_read_rq fid False off n) st = Inr (Some rsp, st') \<and> st' = st \<and>
      (if limit < n then fru_cc_rq2big (rs_ccode rsp)
       else rs_ccode rsp = 0 \<and> rs_data_len rsp = int n + 1 \<and>
            take (n + 1) (rs_data rsp) = of_nat n # region st off n)"
    using fru_dev.reads [OF h] by (simp add: fru_readonly_def fru_cmds)
next
  fix off and d st :: bytes
  show "\<exists>rsp st'. fru_readonly limit (fru_write_rq fid False off d) st = Inr (Some rsp, st') \<and> st' = st \<and> rs_ccode rsp \<noteq> 0 \<and>
      \<not> fru_cc_rq2big (rs_ccode rsp) \<and> rs_ccode rsp \<noteq> IPMI_CC_FRU_WRITE_PROTECTED_OFFSET"
    by (simp add: fru_readonly_def fru_write_rq_def fru_cc_rq2big_def IPMI_CC_FRU_WRITE_PROTECTED_OFFSET_def)
qed

lemma fru_refusal_unnoticed_witness:
  "\<exists>st'. ipmi_fru_set_field_string 1 (fru_readonly 16) sample_intf [0, 0, 0, 0, 0] (\<lambda>n. replicate n 0) 0 (CHR ''p'') 0x30 ''EMCA''
      sample_fru_memory = Inr (1, st') \<and> st' = sample_fru_memory"
  by (rule fru_refusal_unnoticed [OF fru_ro.fru_refusing_axioms [of 16 0] _ sample_sizes _ _ _,
        where so = 8 and area = sample_product and off = 3 and old = "''ACME''"])
    (use sample_edit in simp_all)


end
