(* ===== verification/FruResize.thy ===== *)
theory FruResize
  imports FruEditProps
begin

text \<open>
  Giving a field a text of another length: while the padding of its area can take up the difference,
  the memory written is the area with the new text, the fields behind it moved, and a valid
  checksum; the command reports an error all the same.
\<close>

section \<open>Moving bytes\<close>

lemma store_mid: "length ys' = length ys \<Longrightarrow> store (xs @ ys @ zs) (int (length xs)) ys' = Inr (xs @ ys' @ zs)"
  by (simp add: store_def put_at_def)

lemma load_mid: "load (xs @ ys @ zs) (int (length xs)) (int (length ys)) = Inr ys"
  by (simp add: load_def region_def)

text \<open>The area with a new text in a field: \<open>rest\<close> is what follows the field up to the padding.\<close>

definition resized_area :: "bytes \<Rightarrow> string \<Rightarrow> bytes \<Rightarrow> nat \<Rightarrow> bytes" where
  "resized_area front new rest padding =
     (let body = front @ field_bytes (3, new) @ rest @ replicate padding 0 in body @ [- sum_list body])"

lemma push_and_low:
  fixes l t :: byte
  assumes "take_bit 6 l = l"
  shows "push_bit 6 t AND l = 0"
  by (rule bit_word_eqI) (auto simp: bit_simps dest: take_bit_id_bit [OF assms])

lemma length_byte_8bit:
  assumes "n < 64"
  shows "(0xc0 + of_nat n :: byte) = push_bit 6 3 OR of_nat n"
proof -
  have "take_bit 6 (of_nat n :: byte) = of_nat n"
    by (rule take_bit_word_id) (use assms in \<open>simp add: unat_of_nat\<close>)
  then have "push_bit 6 3 + (of_nat n :: byte) = push_bit 6 3 OR of_nat n"
    by (rule disjunctive_add_eq_or [OF push_and_low])
  then show ?thesis
    by simp
qed

lemma put_field_ok:
  fixes front oldb rest post :: bytes and lb c :: byte
  assumes m: "m = pre @ front @ lb # oldb @ rest @ replicate P 0 @ c # post"
    and len: "len = length front + 1 + length oldb + length rest + P + 1"
    and old: "length old = length oldb" and new: "length new < 64"
    and P': "P' + length new = P + length oldb" and fits: "length oldb \<le> length new + 1 + length post"
  shows "put_field m m (length pre) len P' (length pre + length front) old new =
    Inr (pre @ resized_area front new rest P' @ post)"
proof -
  let ?n = "length new" and ?f = "field_bytes (3, new)"
  define T where "T = lb # oldb @ rest @ replicate P 0 @ c # post"
  define cnt where "cnt = length rest + P'"
  have lT: "length T = length oldb + length rest + P + length post + 2"
    by (simp add: T_def)
  have f: "(0xc0 + of_nat ?n) # chars_of new = ?f" "length ?f = ?n + 1"
    using new by (simp_all add: field_bytes_def length_byte_8bit)
  have T: "m = (pre @ front) @ take (?n + 1) T @ drop (?n + 1) T"
    by (simp only: append_take_drop_id m T_def append_assoc)
  have 1: "store m (int (length pre + length front)) ((0xc0 + of_nat ?n) # chars_of new) =
      Inr ((pre @ front) @ ?f @ drop (?n + 1) T)"
    using store_mid [of ?f "take (?n + 1) T" "pre @ front" "drop (?n + 1) T"] T f lT P' fits by simp
  define Y where "Y = take P' (replicate P 0 @ c # post)"
  have lY: "length Y = P'"
    using P' fits by (simp add: Y_def)
  let ?e = "length pre + len - 1"
  have 2: "load m (int (length pre + length front) + 1 + int (length old))
      (int (length pre) + int len - 1 - (int (length pre + length front) + int ?n + 1)) = Inr (rest @ Y)"
  proof -
    have p: "int (length pre + length front) + 1 + int (length old) = int (length (pre @ front @ lb # oldb))"
      "int (length pre) + int len - 1 - (int (length pre + length front) + int ?n + 1) = int (length (rest @ Y))"
      using len old lY P' by simp_all
    have "m = (pre @ front @ lb # oldb) @ (rest @ Y) @ drop P' (replicate P 0 @ c # post)"
      unfolding Y_def m by (simp only: append_take_drop_id append_assoc append_Cons append_Nil)
    then show ?thesis
      unfolding p by (simp only: load_mid)
  qed
  have d: "drop (?n + 1) T = take (length (rest @ Y)) (drop (?n + 1) T) @ c # post"
  proof -
    have "drop (length (rest @ Y) + (?n + 1)) T = c # post"
    proof -
      have "T = (lb # oldb @ rest @ replicate P 0) @ c # post"
        by (simp add: T_def)
      moreover have "length (rest @ Y) + (?n + 1) = length (lb # oldb @ rest @ replicate P 0)"
        using lY P' by simp
      ultimately show ?thesis
        by (metis append_eq_conv_conj)
    qed
    then show ?thesis
      by (metis append_take_drop_id drop_drop)
  qed
  have 3: "store ((pre @ front) @ ?f @ drop (?n + 1) T) (int (length pre + length front) + 1 + int ?n) (rest @ Y) =
      Inr ((pre @ front @ ?f @ rest) @ Y @ c # post)"
  proof -
    have "length (take (length (rest @ Y)) (drop (?n + 1) T)) = length (rest @ Y)"
      using lT lY P' by simp
    from store_mid [OF this [symmetric], of "pre @ front @ ?f" "c # post"] show ?thesis
      unfolding append_assoc d [symmetric] using f(2) by (simp add: algebra_simps)
  qed
  have 4: "store ((pre @ front @ ?f @ rest) @ Y @ c # post) (int (length pre) + int len - 1 - int P') (replicate P' 0) =
      Inr ((pre @ front @ ?f @ rest) @ replicate P' 0 @ c # post)"
  proof -
    have p: "int (length pre) + int len - 1 - int P' = int (length (pre @ front @ ?f @ rest))"
      using len f(2) P' by simp
    show ?thesis
      unfolding p by (rule store_mid) (simp add: lY)
  qed
  define body where "body = front @ ?f @ rest @ replicate P' 0"
  have lb: "int len - 1 = int (length body)"
    using f(2) P' len by (simp add: body_def)
  have 5: "load (pre @ body @ c # post) (int (length pre)) (int len - 1) = Inr body"
    unfolding lb by (rule load_mid)
  have 6: "store (pre @ body @ c # post) (int (length pre) + int len - 1) [- sum_list body] =
      Inr (pre @ (body @ [- sum_list body]) @ post)"
    using store_mid [of "[- sum_list body]" "[c]" "pre @ body" post] lb by (simp add: algebra_simps)
  show ?thesis
    using 1 2 3 4 5 6 by (simp add: put_field_def Let_def resized_area_def body_def)
qed


section \<open>The rebuilt memory\<close>

lemma get_fru_area_str_shift:
  assumes "get_fru_area_str a off = Inr (s, off1)"
  shows "get_fru_area_str (p @ a @ q) (length p + off) = Inr (s, length p + off1)"
proof -
  have "region (p @ a @ q) (Suc (length p + off)) n = region a (Suc off) n" if "off + 1 + n \<le> length a" for n
    using that by (simp add: region_def)
  then show ?thesis
    using assms by (auto simp: get_fru_area_str_def Let_def nth_append split: if_splits)
qed

lemma seek_field_shift:
  "seek_field k a off = Inr (o1, s, o2) \<Longrightarrow> seek_field k (p @ a @ q) (length p + off) = Inr (length p + o1, s, length p + o2)"
proof (induction k arbitrary: off)
  case 0
  then show ?case
    by (auto simp: bind_ok_Inr_iff dest: get_fru_area_str_shift [of a _ _ _ p q])
next
  case (Suc k)
  then show ?case
    by (fastforce simp: bind_ok_Inr_iff dest: get_fru_area_str_shift [of a _ _ _ p q])
qed

lemma load1_ok: "0 \<le> i \<Longrightarrow> i < int (length d) \<Longrightarrow> load1 d i = Inr (d ! nat i)"
  by (auto simp: load1_def load_def region_def)

lemma load1_nat: "i < length d \<Longrightarrow> load1 d (int i) = Inr (d ! i)"
  by (simp add: load1_ok)

lemma count_padding_ok:
  "xs \<noteq> [] \<Longrightarrow> last xs \<noteq> 0 \<Longrightarrow> P < k \<Longrightarrow> count_padding k (xs @ replicate P 0 @ ys) (int (length xs + P) - 1) = Inr P"
proof (induction P arbitrary: k ys)
  case 0
  then obtain j where k: "k = Suc j"
    by (cases k) auto
  have "nat (int (length xs) - 1) = length xs - 1" "0 < length xs"
    using 0(1) by (cases xs; simp)+
  then have "load1 (xs @ ys) (int (length xs) - 1) = Inr (last xs)"
    using 0(1) load1_ok [of "int (length xs) - 1" "xs @ ys"] by (simp add: nth_append last_conv_nth)
  then show ?case
    using 0 k by simp
next
  case (Suc P)
  then obtain j where k: "k = Suc j" "P < j"
    by (cases k) auto
  have r: "xs @ replicate (Suc P) 0 @ ys = xs @ replicate P 0 @ 0 # ys"
    by (simp add: replicate_app_Cons_same)
  have "load1 (xs @ replicate P 0 @ 0 # ys) (int (length xs + Suc P) - 1) = Inr 0"
    by (subst load1_ok) (simp_all add: nth_append nat_add_distrib)
  moreover have "int (length xs + Suc P) - 1 - 1 = int (length xs + P) - 1"
    by simp
  ultimately show ?case
    using Suc.IH [of j "0 # ys"] Suc.prems k unfolding r by simp
qed

text \<open>
  The new text fits when the padding of the area takes up the difference; the bytes moved for a shorter text
  reach behind the area and must lie in the memory, as must the length bytes of the three areas.
\<close>

definition resizable :: "bytes \<Rightarrow> nat \<Rightarrow> bytes \<Rightarrow> nat \<Rightarrow> string \<Rightarrow> string \<Rightarrow> bytes \<Rightarrow> nat \<Rightarrow> nat \<Rightarrow> bool" where
  "resizable m so area off old new rest P P' \<longleftrightarrow>
     area = take off area @ field_bytes (3, old) @ rest @ replicate P 0 @ [last area] \<and> rest \<noteq> [] \<and> last rest \<noteq> 0 \<and>
     P' + length new = P + length old \<and> P' < 8 \<and> length new < 64 \<and> length old \<le> length new + 1 + (length m - (so + length area)) \<and>
     (let h = read_header m in \<forall>o8 \<in> set [fh_chassis h, fh_board h, fh_product h]. 8 * unat o8 + 1 < length m)"

lemma rebuilt_ok:
  assumes "edit_case m t k so area off old" "resizable m so area off old new rest P P'" "0 < length new"
  shows "rebuilt_memory m (length m) (read_header m) t k new =
    Inr (Some (take so m @ resized_area (take off area) new rest P' @ drop (so + length area) m))"
proof -
  obtain o8 off1 where o8: "area_offset (read_header m) t = Some o8" "so = 8 * unat o8"
    and area: "so + length area \<le> length m" "region m so (length area) = area" "length area = 8 * unat (area ! 1)"
    and seek: "seek_field k area (first_field t) = Inr (off, Some old, off1)" "off1 < length area"
    and old: "unat (drop_bit 6 (area ! off)) = 3" "CHR 0x00 \<notin> set old"
    by (rule edit_caseE [OF assms(1)])
  note field = get_8bit [OF seek_field_get [OF seek(1)] old(1)]
  let ?pre = "take so m" and ?post = "drop (so + length area) m" and ?front = "take off area" and ?h = "read_header m"
  have lens: "length ?pre = so" "length ?front = off" "length ?post = length m - (so + length area)"
    using area(1) field(2) seek(2) by simp_all
  have m: "m = ?pre @ area @ ?post"
    using area(2) by (metis append_take_drop_id region_def drop_drop add.commute)
  have a: "area = ?front @ field_bytes (3, old) @ rest @ replicate P 0 @ [last area]" and rest: "rest \<noteq> []" "last rest \<noteq> 0"
    and P': "P' + length new = P + length old" "P' < 8" "length new < 64" "length old \<le> length new + 1 + length ?post"
    and sections: "8 * unat (fh_chassis ?h) + 1 < length m" "8 * unat (fh_board ?h) + 1 < length m" "8 * unat (fh_product ?h) + 1 < length m"
    using assms(2) lens(3) by (simp_all add: resizable_def Let_def)
  have la: "length area = off + 1 + length old + length rest + P + 1"
  proof -
    have "length area = length (?front @ field_bytes (3, old) @ rest @ replicate P 0 @ [last area])"
      by (rule arg_cong [OF a])
    also have "\<dots> = off + 1 + length old + length rest + P + 1"
      unfolding length_append lens(2) by (simp add: field_bytes_def)
    finally show ?thesis .
  qed
  have m2: "m = ?pre @ (?front @ field_bytes (3, old) @ rest @ replicate P 0 @ [last area]) @ ?post"
    by (subst a [symmetric]) (rule m)
  have bytes: "load1 m (8 * uint x + 1) = Inr (m ! (8 * unat x + 1))" if "8 * unat x + 1 < length m" for x :: byte
  proof -
    have "8 * uint x + 1 = int (8 * unat x + 1)"
      by simp
    then show ?thesis
      using load1_nat [OF that] by (simp only:)
  qed
  have b1: "area ! 1 = m ! (so + 1)"
    using arg_cong [OF area(2), of "\<lambda>x. x ! 1"] la area(1) by (simp add: region_def)
  have len: "8 * unat (if t = CHR ''c'' then m ! (8 * unat (fh_chassis ?h) + 1) else if t = CHR ''b''
      then m ! (8 * unat (fh_board ?h) + 1) else m ! (8 * unat (fh_product ?h) + 1)) = length area"
    using o8 b1 area(3) by (auto simp: area_offset_def split: if_splits)
  have s: "seek_field k m (so + first_field t) = Inr (so + off, Some old, so + off1)"
    using seek_field_shift [OF seek(1), of ?pre ?post] m lens(1) by simp
  have c: "c_string old = old"
    using old(2) unfolding c_string_def takeWhile_eq_all_conv by blast
  have pad: "count_padding (length area - 2) m (int so + int (length area) - 2) = Inr P"
  proof -
    let ?xs = "?pre @ ?front @ field_bytes (3, old) @ rest"
    have "m = ?xs @ replicate P 0 @ last area # ?post"
      using m2 by (simp only: append_assoc append_Cons append_Nil)
    moreover have "int so + int (length area) - 2 = int (length ?xs + P) - 1"
      using la lens by (simp add: field_bytes_def)
    moreover have "P < length area - 2"
      using la rest(1) by (cases rest) auto
    ultimately show ?thesis
      using count_padding_ok [of ?xs P "length area - 2" "last area # ?post"] rest by (metis append_is_Nil_conv last_append)
  qed
  have put: "put_field m m so (length area) P' (so + off) old new =
      Inr (?pre @ resized_area ?front new rest P' @ ?post)"
  proof -
    have "field_bytes (3, old) = (push_bit 6 3 OR of_nat (length old)) # chars_of old"
      by (simp add: field_bytes_def)
    then have "m = ?pre @ ?front @ (push_bit 6 3 OR of_nat (length old)) # chars_of old @ rest @ replicate P 0 @ last area # ?post"
      using m2 by (simp only: append_assoc append_Cons append_Nil)
    then have "put_field m m (length ?pre) (length area) P' (length ?pre + length ?front) old new =
        Inr (?pre @ resized_area ?front new rest P' @ ?post)"
      by (rule put_field_ok) (use lens(2) la P' in simp_all)
    then show ?thesis
      unfolding lens(1,2) .
  qed
  have n: "old \<noteq> []"
    using field(4) by simp
  have P0: "int P - (int (length new) - int (length old)) = int P'"
    using P' by simp
  have so: "8 * uint o8 = int so"
    using o8(2) by simp
  have L: "nat (int (length area) mod 2 ^ 32) = length area"
  proof -
    have "length area < 2 ^ 32"
      using area(3) unat_byte_less [of "area ! 1"] by simp
    then have "int (length area) mod 2 ^ 32 = int (length area)"
      by simp
    then show ?thesis
      by (simp only: nat_int)
  qed
  show ?thesis
    unfolding rebuilt_memory_def Let_def o8(1) option.sel so nat_int bytes [OF sections(1)] bytes [OF sections(2)]
      bytes [OF sections(3)] bind_ok_simps len s prod.case c pad P0
    using put n P'(2) L by (simp add: FRU_FIELD_VALID_def c)
qed


lemma length_resized:
  assumes "area = take off area @ field_bytes (3, old) @ rest @ replicate P 0 @ [last area]" "P' + length new = P + length old"
    and "off < length area"
  shows "length (resized_area (take off area) new rest P') = length area"
proof -
  have "length area = length (take off area @ field_bytes (3, old) @ rest @ replicate P 0 @ [last area])"
    by (rule arg_cong [OF assms(1)])
  also have "\<dots> = length (resized_area (take off area) new rest P')"
    using assms(2) by (simp add: resized_area_def field_bytes_def Let_def)
  finally show ?thesis
    by simp
qed

text \<open>C38: on a device that stores what is written, giving a field a text of another length that the
  padding of its area can take up writes the area with the new text, the following fields moved and
  a valid checksum, but the command reports an error.\<close>

theorem fru_resize_reported_failed:
  assumes "fru_memory send mem fid limit" "32 \<le> limit"
    and "2 < ipmi_intf_get_max_response_data_size i" "3 < ipmi_intf_get_max_request_data_size i"
    and "\<And>n. length (junk n) = n" "length (mem st) + 255 \<le> rounds"
    and "edit_case (mem st) t (unat (idx - 0x30)) so area off old" "length old \<noteq> length new"
    and "resizable (mem st) so area off old new rest P P'" "0 < length new"
  shows "\<exists>st'. ipmi_fru_set_field_string rounds send i junk5 junk fid t idx new st = Inr (-1, st') \<and>
      mem st' = take so (mem st) @ resized_area (take off area) new rest P' @ drop (so + length area) (mem st) \<and>
      get_fru_area_str (resized_area (take off area) new rest P') off = Inr (Some new, off + 1 + length new) \<and>
      fru_checksum_is_valid (resized_area (take off area) new rest P') (length area)"
proof -
  note readable = fru_memory.axioms(1) [OF assms(1)]
  have limit: "8 \<le> limit"
    using assms(2) by simp
  let ?m = "mem st" and ?k = "unat (idx - 0x30)"
  let ?new = "resized_area (take off area) new rest P'"
  let ?mem = "take so ?m @ ?new @ drop (so + length area) ?m"
  obtain o8 off1 where m: "8 \<le> length ?m" "length ?m < 65536" "?m ! 5 = 0" and o8: "area_offset (read_header ?m) t = Some o8"
    and area: "so + length area \<le> length ?m" and seek: "seek_field ?k area (first_field t) = Inr (off, Some old, off1)"
    and off1: "off1 < length area" and old: "unat (drop_bit 6 (area ! off)) = 3"
    by (rule edit_caseE [OF assms(7)])
  note field = get_8bit [OF seek_field_get [OF seek] old]
  have off: "off < length area"
    using field off1 by simp
  have small: "length new < 64"
    using assms(9) by (simp add: resizable_def)
  have len: "length ?new = length area"
    by (rule length_resized [of area off old rest P P' new]) (use assms(9) off in \<open>auto simp only: resizable_def\<close>)
  have lm: "length ?mem = length ?m"
    using len area by simp
  obtain fru st1 where e: "ipmi_fru_set_field_string rounds send i junk5 junk fid t idx new st =
      bind_ok (ipmi_fru_set_field_string_rebuild rounds send i junk5 fid fru (read_header ?m) t ?k new st1)
        (\<lambda>(rc, st1). Inr (if rc \<noteq> 0 then -1 else 1, st1))"
    and w: "mem st1 = ?m" "unat (fru_size fru) = length ?m" "\<not> fru_access fru"
    using fru_readable.edit_writes [OF readable assms(7) limit assms(3,5), of rounds junk5 new]
    unfolding if_not_P [OF assms(8)] by blast
  have all: "put_at (replicate (length ?m) 0) 0 (region (mem st1) 0 (length ?m)) = ?m"
    by (simp add: put_at_def region_def w(1))
  obtain fru2 st2 where r: "read_fru_area send i fru fid 0 (length ?m) (replicate (length ?m) 0) st1 = Inr (0, ?m, fru2, st2)"
    and m2: "mem st2 = mem st1" "fru_size fru2 = fru_size fru" "\<not> fru_access fru2"
    by (rule fru_readable.read_area_ok [OF readable, of fru st1 "length ?m" 0 "replicate (length ?m) 0" i, unfolded all])
      (use w m limit assms(3) in auto)
  obtain fru3 st3 where wr: "write_fru_area rounds send i junk5 fru2 fid 0 0 (length ?m) ?mem st2 = Inr (1, fru3, st3)"
    and m3: "mem st3 = put_at (mem st2) 0 (region ?mem 0 (length ?m))"
    by (rule fru_memory.write_area_ok [OF assms(1), of fru2 st2 "length ?m" 0 0 ?mem i rounds junk5])
      (use w m m2 lm assms(2,4,6) in auto)
  have "mem st3 = ?mem"
  proof -
    have "region ?mem 0 (length ?m) = ?mem"
      unfolding lm [symmetric] by (simp only: region_def drop_0 take_all order_refl)
    then show ?thesis
      unfolding m3 m2(1) w(1) by (simp only: put_at_def lm) simp
  qed
  moreover have "ipmi_fru_set_field_string_rebuild rounds send i junk5 fid fru (read_header ?m) t ?k new st1 = Inr (1, st3)"
    unfolding ipmi_fru_set_field_string_rebuild_def Let_def w(2) r
    using o8 rebuilt_ok [OF assms(7,9,10)] wr by simp
  moreover have "get_fru_area_str ?new off = Inr (Some new, off + 1 + length new)"
    using get_field [of "(3, new)" "take off area" "rest @ replicate P' 0 @ [- sum_list (take off area @ field_bytes (3, new) @ rest @ replicate P' 0)]"]
      off small assms(10) by (auto simp: resized_area_def Let_def encodable_def field_text_def field_bytes_def)
  moreover have "fru_checksum_is_valid ?new (length area)"
    unfolding len [symmetric] unfolding resized_area_def Let_def by (rule checksum_appended)
  ultimately show ?thesis
    using e by simp
qed


definition sample_rest :: bytes where
  "sample_rest = concat (List.map field_bytes [(2, ''IPMI''), (3, ''''), (1, ''12''), (3, ''''), (3, ''''), (3, ''''), (3, ''hi'')]) @
     [FRU_END_OF_FIELDS]"

lemma sample_resizable: "resizable sample_fru_memory 8 sample_product 3 ''ACME'' ''ACMES'' sample_rest 1 0"
proof -
  have a: "sample_product = [1, 3, 25] @ field_bytes (3, ''ACME'') @ sample_rest @ replicate 1 0 @ [last sample_product]"
    unfolding sample_product_def area_of_def sample_rest_def by (simp add: Let_def)
  have "take 3 sample_product = [1, 3, 25]"
    by (subst a) simp
  moreover have "sample_rest \<noteq> []" "last sample_rest \<noteq> 0"
    by (simp_all add: sample_rest_def FRU_END_OF_FIELDS_def)
  ultimately show ?thesis
    unfolding resizable_def using a
    by (simp add: sample_fru_memory_def sample_product_length read_header_def Let_def)
qed

lemma fru_resize_reported_failed_witness:
  "\<exists>st'. ipmi_fru_set_field_string 300 (fru_device 32) sample_intf [0, 0, 0, 0, 0] (\<lambda>n. replicate n 0) 0 (CHR ''p'') 0x30 ''ACMES''
      sample_fru_memory = Inr (-1, st') \<and>
      st' = take 8 sample_fru_memory @ resized_area (take 3 sample_product) ''ACMES'' sample_rest 0 @ drop 32 sample_fru_memory \<and>
      get_fru_area_str (resized_area (take 3 sample_product) ''ACMES'' sample_rest 0) 3 = Inr (Some ''ACMES'', 9) \<and>
      fru_checksum_is_valid (resized_area (take 3 sample_product) ''ACMES'' sample_rest 0) 24"
proof -
  have e: "edit_case sample_fru_memory (CHR ''p'') (unat ((0x30 :: byte) - 0x30)) 8 sample_product 3 ''ACME''"
    using sample_edit by simp
  have r: "length sample_fru_memory + 255 \<le> 300" "length ''ACME'' \<noteq> length ''ACMES''" "0 < length ''ACMES''" "32 \<le> (32 :: nat)"
    by (simp_all add: sample_fru_memory_def sample_product_length)
  have j: "length (replicate n (0 :: byte)) = n" for n
    by simp
  show ?thesis
    using fru_resize_reported_failed [OF fru_device_memory [of 32 0] r(4) sample_sizes j r(1) e r(2) sample_resizable r(3), of "[0, 0, 0, 0, 0]"]
    by (simp add: sample_product_length)
qed

end
