(* ===== verification/Sdr.thy ===== *)
theory Sdr
  imports Sendrecv
begin

text \<open>
  Reading a sensor data repository, \<open>lib/ipmi_sdr.c\<close>: reservations, record headers and whole records
  in pieces. The environment of the commands holds the static variables of the file next to the interface
  and the device; \<open>send\<close> is \<open>intf->sendrecv\<close>, which sees the interface because the commands change its target
  address. Record bytes are those behind the 5-byte header.
\<close>

section \<open>Data\<close>

text \<open>\<open>struct sdr_get_rs\<close>.\<close>

record sdr_header =
  sh_next :: u16
  sh_id :: u16
  sh_version :: byte
  sh_type :: byte
  sh_length :: byte

definition read_sdr_header :: "bytes \<Rightarrow> sdr_header" where
  "read_sdr_header d = \<lparr>sh_next = of_le16 d, sh_id = of_le16 (drop 2 d), sh_version = d ! 4, sh_type = d ! 5,
     sh_length = d ! 6\<rparr>"

text \<open>\<open>struct ipmi_sdr_iterator\<close>; \<open>next\<close> only takes 16-bit values.\<close>

record sdr_iterator =
  it_reservation :: u16
  it_total :: nat
  it_next :: u16
  it_built_in :: bool

text \<open>
  An element of \<open>struct sdr_record_list\<close>: \<open>raw\<close> and the pointer of the union \<open>record\<close>, both NULL
  at first, with the memory they point to.
\<close>

record sdr_entry =
  se_id :: u16
  se_version :: byte
  se_type :: byte
  se_length :: byte
  se_raw :: "bytes option"
  se_record :: "bytes option"

text \<open>The interface, the device behind it, and the static variables; \<open>sdr_list\<close> is the list from \<open>sdr_list_head\<close>.\<close>

record 's sdr_env =
  env_intf :: ipmi_intf
  env_dev :: 's
  use_built_in :: bool
  sdr_max_read_len :: int
  sdriana :: u32
  sdr_list :: "sdr_entry list"
  sdr_list_itr :: "sdr_iterator option"

type_synonym 's intf_sendrecv = "ipmi_intf \<Rightarrow> 's sendrecv"

definition sdr_send :: "'s intf_sendrecv \<Rightarrow> ipmi_rq \<Rightarrow> 's sdr_env \<Rightarrow> (ipmi_rs option \<times> 's sdr_env) outcome" where
  "sdr_send send rq w = bind_ok (send (env_intf w) rq (env_dev w)) (\<lambda>(r, d). Inr (r, w\<lparr>env_dev := d\<rparr>))"

definition IPMI_NETFN_SE :: "6 word" where "IPMI_NETFN_SE = 4"
definition GET_SDR_RESERVE_REPO :: byte where "GET_SDR_RESERVE_REPO = 0x22"
definition GET_SDR :: byte where "GET_SDR = 0x23"
definition GET_DEVICE_SDR :: byte where "GET_DEVICE_SDR = 0x21"
definition IPMI_CC_RES_CANCELED :: byte where "IPMI_CC_RES_CANCELED = 0xc5"
definition IPMI_CC_CANT_RET_NUM_REQ_BYTES :: byte where "IPMI_CC_CANT_RET_NUM_REQ_BYTES = 0xca"

definition sdr_netfn :: "bool \<Rightarrow> 6 word" where
  "sdr_netfn built_in = (if built_in then IPMI_NETFN_SE else IPMI_NETFN_STORAGE)"

definition sdr_get_rq :: "bool \<Rightarrow> u16 \<Rightarrow> u16 \<Rightarrow> byte \<Rightarrow> byte \<Rightarrow> ipmi_rq" where
  "sdr_get_rq built_in res rid off len =
     mk_rq (sdr_netfn built_in) (if built_in then GET_DEVICE_SDR else GET_SDR) (le16 res @ le16 rid @ [off, len])"

section \<open>Reservations and headers\<close>

text \<open>The reservation, or none where the code returns -1.\<close>

definition ipmi_sdr_get_reservation :: "'s intf_sendrecv \<Rightarrow> bool \<Rightarrow> 's sdr_env \<Rightarrow> (u16 option \<times> 's sdr_env) outcome" where
  "ipmi_sdr_get_reservation send built_in w =
     bind_ok (sdr_send send (mk_rq (sdr_netfn built_in) GET_SDR_RESERVE_REPO []) w) (\<lambda>(r, w1). Inr (
       case r of
         None \<Rightarrow> (None, w1)
       | Some rsp \<Rightarrow> if rs_ccode rsp \<noteq> 0 then (None, w1) else (Some (of_le16 (rs_data rsp)), w1)))"

text \<open>The tries of \<open>ipmi_sdr_get_header\<close>; a cancelled reservation is renewed and costs a try.\<close>

primrec header_tries :: "nat \<Rightarrow> 's intf_sendrecv \<Rightarrow> sdr_iterator \<Rightarrow> 's sdr_env
    \<Rightarrow> (ipmi_rs option \<times> sdr_iterator \<times> 's sdr_env) outcome" where
  "header_tries 0 send itr w = Inr (None, itr, w)"
| "header_tries (Suc k) send itr w =
     bind_ok (sdr_send send (sdr_get_rq (it_built_in itr) (it_reservation itr) (it_next itr) 0 5) w) (\<lambda>(r, w1).
       case r of
         None \<Rightarrow> header_tries k send itr w1
       | Some rsp \<Rightarrow>
           if rs_ccode rsp = IPMI_CC_RES_CANCELED then
             bind_ok (ipmi_sdr_get_reservation send (it_built_in itr) w1) (\<lambda>(res, w2).
               case res of
                 None \<Rightarrow> Inr (None, itr, w2)
               | Some x \<Rightarrow> header_tries k send (itr\<lparr>it_reservation := x\<rparr>) w2)
           else if rs_ccode rsp \<noteq> 0 then header_tries k send itr w1
           else Inr (Some rsp, itr, w1))"

definition ipmi_sdr_get_header :: "'s intf_sendrecv \<Rightarrow> sdr_iterator \<Rightarrow> 's sdr_env
    \<Rightarrow> (sdr_header option \<times> sdr_iterator \<times> 's sdr_env) outcome" where
  "ipmi_sdr_get_header send itr w =
     bind_ok (header_tries 5 send itr w) (\<lambda>(r, itr1, w1). Inr (
       case r of
         None \<Rightarrow> (None, itr1, w1)
       | Some rsp \<Rightarrow>
           let h = read_sdr_header (rs_data rsp) in
           if sh_length h = 0 then (None, itr1, w1)
           else (Some (if it_next itr1 \<noteq> 0 \<and> sh_id h \<noteq> it_next itr1 then h\<lparr>sh_id := it_next itr1\<rparr> else h), itr1, w1)))"

definition ipmi_sdr_get_next_header :: "'s intf_sendrecv \<Rightarrow> sdr_iterator \<Rightarrow> 's sdr_env
    \<Rightarrow> (sdr_header option \<times> sdr_iterator \<times> 's sdr_env) outcome" where
  "ipmi_sdr_get_next_header send itr w =
     (if it_next itr = 0xffff then Inr (None, itr, w)
      else bind_ok (ipmi_sdr_get_header send itr w) (\<lambda>(h, itr1, w1). Inr (
        case h of
          None \<Rightarrow> (None, itr1, w1)
        | Some hdr \<Rightarrow> (Some hdr, itr1\<lparr>it_next := sh_next hdr\<rparr>, w1))))"

section \<open>Records\<close>

text \<open>The number of bytes asked for: \<open>sdr_rq.length\<close> is a byte.\<close>

definition sdr_piece :: "nat \<Rightarrow> int \<Rightarrow> byte" where
  "sdr_piece left max_len = word_of_int (if int left < max_len then int left else max_len)"

definition init_max_read :: "'s sdr_env \<Rightarrow> 's sdr_env" where
  "init_max_read w =
     (if sdr_max_read_len w = 0
      then w\<lparr>sdr_max_read_len := min (uint (ipmi_intf_get_max_response_data_size (env_intf w)) - 2) 0xFE\<rparr> else w)"

text \<open>
  The loop over the pieces, for at most \<open>k\<close> rounds: \<open>i\<close> bytes of \<open>data\<close> are read. The reservation
  is \<open>it_reservation itr\<close>. A piece is copied with the length asked for, whatever the length of the response.
\<close>

primrec record_loop :: "nat \<Rightarrow> 's intf_sendrecv \<Rightarrow> u16 \<Rightarrow> nat \<Rightarrow> nat \<Rightarrow> bytes \<Rightarrow> sdr_iterator \<Rightarrow> 's sdr_env
    \<Rightarrow> (bytes option \<times> sdr_iterator \<times> 's sdr_env) outcome" where
  "record_loop 0 send rid len i data itr w = Inl Unfinished"
| "record_loop (Suc k) send rid len i data itr w =
     (if len \<le> i then Inr (Some data, itr, w)
      else let n = sdr_piece (len - i) (sdr_max_read_len w) in
        bind_ok (sdr_send send (sdr_get_rq (it_built_in itr) (it_reservation itr) rid (of_nat (i + 5)) n) w) (\<lambda>(r, w1).
          if (case r of None \<Rightarrow> True | Some rsp \<Rightarrow> rs_ccode rsp = IPMI_CC_CANT_RET_NUM_REQ_BYTES) then
            let w2 = w1\<lparr>sdr_max_read_len := uint n - 1\<rparr> in
            if 0 < uint n - 1 then record_loop k send rid len i data itr w2 else Inr (None, itr, w2)
          else let rsp = the r in
            if rs_ccode rsp = IPMI_CC_RES_CANCELED then
              bind_ok (ipmi_sdr_get_reservation send (it_built_in itr) w1) (\<lambda>(res, w2).
                case res of
                  None \<Rightarrow> Inr (None, itr, w2)
                | Some x \<Rightarrow> record_loop k send rid len i data (itr\<lparr>it_reservation := x\<rparr>) w2)
            else if rs_ccode rsp \<noteq> 0 \<or> rs_data_len rsp = 0 then Inr (None, itr, w1)
            else if length (rs_data rsp) < 2 + unat n \<or> length data < i + unat n then Inl OutOfBounds
            else record_loop k send rid len (i + unat n) (put_at data i (region (rs_data rsp) 2 (unat n))) itr w1))"

declare record_loop.simps [simp del] header_tries.simps [simp del]

text \<open>The memory of the record ends with a byte 0 behind the record.\<close>

definition ipmi_sdr_get_record :: "nat \<Rightarrow> 's intf_sendrecv \<Rightarrow> sdr_header \<Rightarrow> sdr_iterator \<Rightarrow> 's sdr_env
    \<Rightarrow> (bytes option \<times> sdr_iterator \<times> 's sdr_env) outcome" where
  "ipmi_sdr_get_record k send h itr w =
     (let len = unat (sh_length h) in
      if len < 1 then Inr (None, itr, w)
      else record_loop k send (sh_id h) len 0 (replicate (len + 1) 0) itr (init_max_read w))"

end
