(* ===== verification/SdrAdd.thy ===== *)
theory SdrAdd
  imports Sdr
begin

text \<open>
  Filling a repository, \<open>lib/ipmi_sdradd.c\<close>, and \<open>ipmi_sdr_start\<close> of \<open>lib/ipmi_sdr.c\<close>, which calls it for an
  empty repository. The two files call each other: \<open>ipmi_sdr_start\<close> rebuilds an empty repository by
  \<open>ipmi_sdr_add_from_sensors\<close>, which copies records with \<open>ipmi_sdr_start\<close>. The copy made by a rebuild is of
  built-in sensors only, and a start on built-in sensors rebuilds nothing, so the recursion is one level deep.
\<close>

section \<open>Adding a record\<close>

definition ADD_PARTIAL_SDR :: byte where "ADD_PARTIAL_SDR = 0x25"
definition sdr_max_write_len :: nat where "sdr_max_write_len = 19"

definition sdr_add_rq :: "u16 \<Rightarrow> u16 \<Rightarrow> byte \<Rightarrow> byte \<Rightarrow> bytes \<Rightarrow> ipmi_rq" where
  "sdr_add_rq res rid off in_progress d =
     mk_rq IPMI_NETFN_STORAGE ADD_PARTIAL_SDR (le16 res @ le16 rid @ [off, in_progress] @ d)"

definition partial_send :: "'s intf_sendrecv \<Rightarrow> ipmi_rq \<Rightarrow> 's sdr_env \<Rightarrow> (u16 option \<times> 's sdr_env) outcome" where
  "partial_send send rq w =
     bind_ok (sdr_send send rq w) (\<lambda>(r, w1). Inr (
       case r of
         None \<Rightarrow> (None, w1)
       | Some rsp \<Rightarrow>
           if rs_ccode rsp \<noteq> 0 \<or> rs_data_len rsp < 2 then (None, w1) else (Some (of_le16 (rs_data rsp)), w1)))"

text \<open>The pieces of the body; \<open>rid\<close> is the record id of the last answer.\<close>

function add_pieces :: "'s intf_sendrecv \<Rightarrow> u16 \<Rightarrow> bytes \<Rightarrow> nat \<Rightarrow> nat \<Rightarrow> u16 \<Rightarrow> 's sdr_env \<Rightarrow> (int \<times> 's sdr_env) outcome" where
  "add_pieces send res raw len i rid w =
     (if len \<le> i then Inr (0, w)
      else let final = (len - i \<le> sdr_max_write_len); n = (if final then len - i else sdr_max_write_len) in
        if length raw < i + n then Inl OutOfBounds
        else bind_ok (partial_send send (sdr_add_rq res rid (of_nat (i + 5)) (if final then 1 else 0) (region raw i n)) w) (\<lambda>(x, w1).
          case x of None \<Rightarrow> Inr (-1, w1) | Some rid1 \<Rightarrow> add_pieces send res raw len (i + n) rid1 w1))"
  by pat_completeness auto

termination
  by (relation "measure (\<lambda>(send, res, raw, len, i, rid, w). len - i)") (auto simp: sdr_max_write_len_def split: if_splits)

declare add_pieces.simps [simp del]

definition entry_header :: "sdr_entry \<Rightarrow> bytes" where
  "entry_header e = le16 (se_id e) @ [se_version e, se_type e, se_length e]"

definition ipmi_sdr_add_record :: "'s intf_sendrecv \<Rightarrow> sdr_entry \<Rightarrow> 's sdr_env \<Rightarrow> (int \<times> 's sdr_env) outcome" where
  "ipmi_sdr_add_record send e w =
     (let len = unat (se_length e) in
      case (if len < 1 then None else se_raw e) of
        None \<Rightarrow> Inr (0, w)
      | Some raw \<Rightarrow>
          bind_ok (ipmi_sdr_get_reservation send False w) (\<lambda>(res, w1).
            case res of
              None \<Rightarrow> Inr (-1, w1)
            | Some x \<Rightarrow>
                bind_ok (partial_send send (sdr_add_rq x 0 0 0 (entry_header e)) w1) (\<lambda>(rid, w2).
                  case rid of None \<Rightarrow> Inr (-1, w2) | Some y \<Rightarrow> add_pieces send x raw len 0 y w2)))"

section \<open>Erasing the repository\<close>

definition sdr_clear_rq :: "u16 \<Rightarrow> byte \<Rightarrow> ipmi_rq" where
  "sdr_clear_rq res action = mk_rq IPMI_NETFN_STORAGE 0x27 (le16 res @ [0x43, 0x4C, 0x52, action])"

text \<open>The first try (action 0xAA) starts the erasure, the others ask for its state.\<close>

primrec clear_tries :: "nat \<Rightarrow> 's intf_sendrecv \<Rightarrow> u16 \<Rightarrow> byte \<Rightarrow> 's sdr_env \<Rightarrow> (int \<times> 's sdr_env) outcome" where
  "clear_tries 0 send res action w = Inr (-1, w)"
| "clear_tries (Suc k) send res action w =
     bind_ok (sdr_send send (sdr_clear_rq res action) w) (\<lambda>(r, w1).
       case r of
         None \<Rightarrow> Inr (-1, w1)
       | Some rsp \<Rightarrow>
           if rs_ccode rsp \<noteq> 0 then Inr (-1, w1)
           else if rs_data rsp ! 0 AND 1 = 1 then Inr (0, w1)
           else clear_tries k send res 0 w1)"

definition ipmi_sdr_repo_clear :: "'s intf_sendrecv \<Rightarrow> 's sdr_env \<Rightarrow> (int \<times> 's sdr_env) outcome" where
  "ipmi_sdr_repo_clear send w =
     bind_ok (ipmi_sdr_get_reservation send False w) (\<lambda>(res, w1).
       case res of None \<Rightarrow> Inr (-1, w1) | Some x \<Rightarrow> clear_tries 5 send x 0xAA w1)"

section \<open>Copying records\<close>

text \<open>
  The name in a record: the offset of \<open>id_code\<close>, followed by \<open>id_string\<close>.
\<close>

definition id_code_offset :: "byte \<Rightarrow> nat option" where
  "id_code_offset ty =
     (if ty = 0x01 then Some 42 else if ty = 0x02 then Some 26 else if ty = 0x03 then Some 11
      else if ty = 0x10 \<or> ty = 0x11 \<or> ty = 0x12 then Some 10 else None)"

text \<open>
  \<open>ipmi_sdr_print_name_from_rawentry\<close> prints at debug level only; what matters here is that it reads the
  name through \<open>raw\<close>, which may be NULL or too short: \<open>printf\<close> reads at least one character.
\<close>

definition ipmi_sdr_print_name_from_rawentry :: "byte \<Rightarrow> bytes option \<Rightarrow> int outcome" where
  "ipmi_sdr_print_name_from_rawentry ty raw =
     (if ty = 0x01 \<or> ty = 0x02 \<or> ty = 0x03 \<or> ty = 0x12 then
        (case raw of
           None \<Rightarrow> Inl Dangling
         | Some r \<Rightarrow>
             let p = the (id_code_offset ty); n = unat (r ! p AND 0x1f) + 1; s = drop (p + 1) r in
             if length r \<le> p then Inl OutOfBounds
             else if length s < n \<and> 0 \<notin> set s then Inl OutOfBounds
             else Inr 0)
      else Inr (-1))"

definition new_entry :: "sdr_header \<Rightarrow> sdr_entry" where
  "new_entry h = \<lparr>se_id = sh_id h, se_version = 0, se_type = sh_type h, se_length = 0, se_raw = None, se_record = None\<rparr>"

definition full_entry :: "sdr_header \<Rightarrow> bytes option \<Rightarrow> sdr_entry" where
  "full_entry h raw = (new_entry h)\<lparr>se_version := sh_version h, se_length := sh_length h, se_raw := raw\<rparr>"

text \<open>The loop of \<open>sdrr_get_records\<close>, for at most \<open>k\<close> rounds; a record that cannot be read enters the queue as NULL.\<close>

primrec sdrr_get_records :: "nat \<Rightarrow> nat \<Rightarrow> 's intf_sendrecv \<Rightarrow> sdr_iterator \<Rightarrow> sdr_entry list \<Rightarrow> 's sdr_env
    \<Rightarrow> (sdr_entry list \<times> sdr_iterator \<times> 's sdr_env) outcome" where
  "sdrr_get_records 0 m send itr queue w = Inl Unfinished"
| "sdrr_get_records (Suc k) m send itr queue w =
     bind_ok (ipmi_sdr_get_next_header send itr w) (\<lambda>(h, itr1, w1).
       case h of
         None \<Rightarrow> Inr (queue, itr1, w1)
       | Some hdr \<Rightarrow>
           bind_ok (ipmi_sdr_get_record m send hdr itr1 w1) (\<lambda>(raw, itr2, w2).
             bind_ok (ipmi_sdr_print_name_from_rawentry (sh_type hdr) raw) (\<lambda>_.
               sdrr_get_records k m send itr2 (queue @ [full_entry hdr raw]) w2)))"

text \<open>
  Adding a queue: the result is that of the last record. The link of the last element is read as well;
  \<open>ended\<close> says whether it was set to NULL.
\<close>

fun add_queue :: "'s intf_sendrecv \<Rightarrow> bool \<Rightarrow> int \<Rightarrow> sdr_entry list \<Rightarrow> 's sdr_env \<Rightarrow> (int \<times> 's sdr_env) outcome" where
  "add_queue send ended rc [] w = Inr (rc, w)"
| "add_queue send ended rc (e # es) w =
     (if es = [] \<and> \<not> ended then Inl Indeterminate
      else bind_ok (ipmi_sdr_add_record send e w) (\<lambda>(rc1, w1). add_queue send ended rc1 es w1))"

type_synonym 's sdr_start = "bool \<Rightarrow> 's sdr_env \<Rightarrow> (sdr_iterator option \<times> 's sdr_env) outcome"

definition set_target :: "u32 \<Rightarrow> 's sdr_env \<Rightarrow> 's sdr_env" where
  "set_target a w = w\<lparr>env_intf := (env_intf w)\<lparr>target_addr := a\<rparr>\<rparr>"

text \<open>\<open>k\<close> bounds the rounds of the loops; \<open>start\<close> is the function that opens the source.\<close>

definition sdr_copy_to_sdrr :: "'s sdr_start \<Rightarrow> nat \<Rightarrow> 's intf_sendrecv \<Rightarrow> bool \<Rightarrow> u32 \<Rightarrow> u32 \<Rightarrow> 's sdr_env
    \<Rightarrow> (int \<times> 's sdr_env) outcome" where
  "sdr_copy_to_sdrr start k send use_builtin from_addr to_addr w =
     bind_ok (start use_builtin (set_target from_addr w)) (\<lambda>(itr, w1).
       case itr of
         None \<Rightarrow> Inr (0, w1)
       | Some it \<Rightarrow>
           bind_ok (sdrr_get_records k k send it [] w1) (\<lambda>(queue, it1, w2).
             add_queue send True 0 queue (set_target to_addr w2)))"

text \<open>The slots from \<open>slave\<close> on, with the hole at C2h.\<close>

primrec copy_slots :: "'s sdr_start \<Rightarrow> nat \<Rightarrow> 's intf_sendrecv \<Rightarrow> nat \<Rightarrow> u32 \<Rightarrow> u32 \<Rightarrow> int \<Rightarrow> 's sdr_env
    \<Rightarrow> (int \<times> 's sdr_env) outcome" where
  "copy_slots start k send 0 slave myaddr rc w = Inr (rc, w)"
| "copy_slots start k send (Suc n) slave myaddr rc w =
     (let s = (if slave = 0xC2 then slave + 2 else slave) in
      bind_ok (sdr_copy_to_sdrr start k send False s myaddr w) (\<lambda>(rc1, w1).
        copy_slots start k send n (s + 2) myaddr (if rc1 < 0 then -1 else rc) w1))"

definition add_from_sensors :: "'s sdr_start \<Rightarrow> nat \<Rightarrow> 's intf_sendrecv \<Rightarrow> nat \<Rightarrow> 's sdr_env \<Rightarrow> (int \<times> 's sdr_env) outcome" where
  "add_from_sensors start k send maxslot w =
     (let myaddr = target_addr (env_intf w) in
      bind_ok (ipmi_sdr_repo_clear send w) (\<lambda>(rc, w1).
        if rc \<noteq> 0 then Inr (-1, w1)
        else bind_ok (sdr_copy_to_sdrr start k send True myaddr myaddr w1) (\<lambda>(rc1, w2).
          copy_slots start k send maxslot 0xB0 myaddr rc1 w2)))"

section \<open>Opening a repository\<close>

definition BMC_GET_DEVICE_ID :: byte where "BMC_GET_DEVICE_ID = 0x01"
definition GET_SDR_REPO_INFO :: byte where "GET_SDR_REPO_INFO = 0x20"
definition GET_DEVICE_SDR_INFO :: byte where "GET_DEVICE_SDR_INFO = 0x20"

text \<open>
  The choice between the repository and the device's own records, from the answer to Get Device ID:
  none when the device has neither. The static \<open>use_built_in\<close> is only ever set.
\<close>

definition choose_source :: "bool \<Rightarrow> bytes \<Rightarrow> 's sdr_env \<Rightarrow> bool option \<times> 's sdr_env" where
  "choose_source use_builtin d w0 =
     (let w = w0\<lparr>sdriana := push_bit 16 (ucast (d ! 8)) OR push_bit 8 (ucast (d ! 7)) OR ucast (d ! 6)\<rparr> in
      if \<not> use_builtin \<and> d ! 1 AND 0x80 \<noteq> 0 \<and> d ! 5 AND 0x02 = 0 then
        (if d ! 5 AND 0x01 \<noteq> 0 then (Some True, w\<lparr>use_built_in := True\<rparr>) else (None, w))
      else (Some (use_builtin \<or> use_built_in w), w))"

definition with_reservation :: "'s intf_sendrecv \<Rightarrow> bool \<Rightarrow> nat \<Rightarrow> 's sdr_env \<Rightarrow> (sdr_iterator option \<times> 's sdr_env) outcome" where
  "with_reservation send built_in count w =
     bind_ok (ipmi_sdr_get_reservation send built_in w) (\<lambda>(res, w1). Inr (
       map_option (\<lambda>x. \<lparr>it_reservation = x, it_total = count, it_next = 0, it_built_in = built_in\<rparr>) res, w1))"

text \<open>\<open>rebuild\<close> is \<open>ipmi_sdr_add_from_sensors(intf, 0)\<close>.\<close>

definition sdr_start_by :: "('s sdr_env \<Rightarrow> (int \<times> 's sdr_env) outcome) \<Rightarrow> 's intf_sendrecv \<Rightarrow> 's sdr_start" where
  "sdr_start_by rebuild send use_builtin w =
     bind_ok (sdr_send send (mk_rq IPMI_NETFN_APP BMC_GET_DEVICE_ID []) w) (\<lambda>(r, w1).
       case r of
         None \<Rightarrow> Inr (None, w1)
       | Some rsp \<Rightarrow>
           if rs_ccode rsp \<noteq> 0 then Inr (None, w1)
           else case choose_source use_builtin (rs_data rsp) w1 of
             (None, w2) \<Rightarrow> Inr (None, w2)
           | (Some True, w2) \<Rightarrow>
               bind_ok (sdr_send send (mk_rq IPMI_NETFN_SE GET_DEVICE_SDR_INFO []) w2) (\<lambda>(r2, w3).
                 case r2 of
                   None \<Rightarrow> Inr (None, w3)
                 | Some rsp2 \<Rightarrow>
                     if rs_data_len rsp2 = 0 \<or> rs_ccode rsp2 \<noteq> 0 then Inr (None, w3)
                     else with_reservation send True (unat (rs_data rsp2 ! 0)) w3)
           | (Some False, w2) \<Rightarrow>
               bind_ok (sdr_send send (mk_rq IPMI_NETFN_STORAGE GET_SDR_REPO_INFO []) w2) (\<lambda>(r2, w3).
                 case r2 of
                   None \<Rightarrow> Inr (None, w3)
                 | Some rsp2 \<Rightarrow>
                     if rs_ccode rsp2 \<noteq> 0 then Inr (None, w3)
                     else let count = unat (of_le16 (drop 1 (rs_data rsp2))) in
                       if count = 0 then
                         bind_ok (rebuild w3) (\<lambda>(rc, w4).
                           if rc \<noteq> 0 then Inr (None, w4) else with_reservation send False count w4)
                       else with_reservation send False count w3))"

text \<open>The knot; the innermost rebuild is never reached.\<close>

definition ipmi_sdr_start :: "nat \<Rightarrow> 's intf_sendrecv \<Rightarrow> 's sdr_start" where
  "ipmi_sdr_start k send =
     sdr_start_by (add_from_sensors (sdr_start_by (\<lambda>w. Inl Unfinished) send) k send 0) send"

definition ipmi_sdr_add_from_sensors :: "nat \<Rightarrow> 's intf_sendrecv \<Rightarrow> nat \<Rightarrow> 's sdr_env \<Rightarrow> (int \<times> 's sdr_env) outcome" where
  "ipmi_sdr_add_from_sensors k send = add_from_sensors (ipmi_sdr_start k send) k send"

end
