(* ===== verification/SdrFile.thy ===== *)
theory SdrFile
  imports SdrAdd
begin

text \<open>
  Filling a repository from a file or from a list of slave addresses, \<open>lib/ipmi_sdradd.c\<close>. A file is
  its content, or none when it cannot be opened. The list of addresses is parsed in place, by writing
  terminators into the argument.
\<close>

section \<open>From a file\<close>

text \<open>The records of a file, and -1 when it ends within a record.\<close>

function ipmi_sdr_read_records :: "bytes \<Rightarrow> int \<times> sdr_entry list" where
  "ipmi_sdr_read_records d =
     (if length d < 5 then (0, [])
      else let n = unat (d ! 4); body = drop 5 d in
        if length body < n then (-1, [])
        else let (rc, es) = ipmi_sdr_read_records (drop n body) in
          (rc, \<lparr>se_id = of_le16 d, se_version = d ! 2, se_type = d ! 3, se_length = d ! 4,
                se_raw = Some (take n body), se_record = None\<rparr> # es))"
  by pat_completeness auto

termination
  by (relation "measure length") auto

declare ipmi_sdr_read_records.simps [simp del]

text \<open>
  An element of the queue is allocated without being cleared: the link of the last one is indeterminate.
\<close>

definition ipmi_sdr_add_from_file :: "'s intf_sendrecv \<Rightarrow> bytes option \<Rightarrow> 's sdr_env \<Rightarrow> (int \<times> 's sdr_env) outcome" where
  "ipmi_sdr_add_from_file send ifile w =
     (let (rc, queue) = (case ifile of None \<Rightarrow> (-1, []) | Some d \<Rightarrow> ipmi_sdr_read_records d) in
      bind_ok (ipmi_sdr_repo_clear send w) (\<lambda>(rc1, w1).
        if rc1 \<noteq> 0 then Inr (-1, w1) else add_queue send False rc queue w1))"

section \<open>From a list of addresses\<close>

definition slave_hex_digit :: "byte \<Rightarrow> byte option" where
  "slave_hex_digit c =
     (if 0x30 \<le> c \<and> c \<le> 0x39 then Some (c - 0x30)
      else if 0x61 \<le> c \<and> c \<le> 0x66 then Some (c - 0x61 + 10)
      else if 0x41 \<le> c \<and> c \<le> 0x46 then Some (c - 0x41 + 10)
      else None)"

definition ipmi_hex_to_dec :: "bytes \<Rightarrow> byte option" where
  "ipmi_hex_to_dec s =
     (if length s = 4 \<and> s ! 0 = 0x30 \<and> s ! 1 = 0x78 then
        (case (slave_hex_digit (s ! 2), slave_hex_digit (s ! 3)) of
           (Some a, Some b) \<Rightarrow> Some (a * 16 + b)
         | _ \<Rightarrow> None)
      else None)"

definition MAX_NUM_SLOT :: nat where "MAX_NUM_SLOT = 128"

text \<open>The C string at a position of a buffer, and \<open>strstr\<close> for a single character.\<close>

definition c_string :: "bytes \<Rightarrow> nat \<Rightarrow> bytes" where
  "c_string buf p = takeWhile (\<lambda>c. c \<noteq> 0) (drop p buf)"

definition find_char :: "byte \<Rightarrow> bytes \<Rightarrow> nat \<Rightarrow> nat option" where
  "find_char c buf p =
     (let s = c_string buf p in if c \<in> set s then Some (p + length (takeWhile (\<lambda>x. x \<noteq> c) s)) else None)"

text \<open>Writing into the array of addresses; \<open>hex\<close> is what it holds so far.\<close>

definition put_slot :: "byte \<Rightarrow> bytes \<Rightarrow> bytes outcome" where
  "put_slot v hex = (if length hex < MAX_NUM_SLOT then Inr (hex @ [v]) else Inl OutOfBounds)"

text \<open>The values of a range; of two even values, 128 rounds reach the end.\<close>

primrec put_range :: "nat \<Rightarrow> byte \<Rightarrow> byte \<Rightarrow> bytes \<Rightarrow> bytes outcome" where
  "put_range 0 v e hex = Inl Unfinished"
| "put_range (Suc k) v e hex =
     bind_ok (put_slot v hex) (\<lambda>hex1.
       if v + 2 \<noteq> e then put_range k (v + 2) e hex1 else put_slot e hex1)"

text \<open>One entry, the string at \<open>p\<close>: the buffer cut at a hyphen, the return code and the addresses.\<close>

definition parse_entry :: "bytes \<Rightarrow> nat \<Rightarrow> bytes \<Rightarrow> (bytes \<times> bool \<times> bytes) outcome" where
  "parse_entry buf p hex =
     (case find_char 0x2D buf p of
        None \<Rightarrow>
          (case ipmi_hex_to_dec (c_string buf p) of
             None \<Rightarrow> Inr (buf, False, hex)
           | Some v \<Rightarrow> bind_ok (if v AND 1 = 0 then put_slot v hex else Inr hex) (\<lambda>hex1. Inr (buf, True, hex1)))
      | Some r \<Rightarrow>
          let buf1 = buf[r := 0] in
          (case (ipmi_hex_to_dec (c_string buf1 p), ipmi_hex_to_dec (c_string buf1 (r + 1))) of
             (Some v, Some e) \<Rightarrow>
               bind_ok (if v AND 1 = 0 \<and> e AND 1 = 0 then put_range 128 v e hex else Inr hex)
                 (\<lambda>hex1. Inr (buf1, True, hex1))
           | _ \<Rightarrow> Inr (buf1, False, hex)))"

lemma find_char_Some: "find_char c buf p = Some q \<Longrightarrow> q < length buf \<and> buf ! q = c \<and> c \<noteq> 0"
proof -
  assume a: "find_char c buf p = Some q"
  define s where "s = c_string buf p"
  have s: "c \<in> set s" "q = p + length (takeWhile (\<lambda>x. x \<noteq> c) s)"
    using a by (auto simp: find_char_def s_def [symmetric] Let_def split: if_splits)
  have l: "length (takeWhile (\<lambda>x. x \<noteq> c) s) < length s"
    using s(1) by (induction s) auto
  then have "s ! length (takeWhile (\<lambda>x. x \<noteq> c) s) = c"
    using nth_length_takeWhile [OF l] by simp
  moreover have "\<forall>i < length s. s ! i = buf ! (p + i) \<and> p + i < length buf \<and> s ! i \<noteq> 0"
  proof (intro allI impI)
    fix i assume i: "i < length s"
    then have "i < length (drop p buf)"
      unfolding s_def c_string_def using length_takeWhile_le less_le_trans by metis
    moreover have "s ! i = drop p buf ! i"
      using i unfolding s_def c_string_def by (rule takeWhile_nth)
    moreover have "s ! i \<in> set s"
      using i by simp
    then have "s ! i \<noteq> 0"
      unfolding s_def c_string_def by (auto dest: set_takeWhileD)
    ultimately show "s ! i = buf ! (p + i) \<and> p + i < length buf \<and> s ! i \<noteq> 0"
      by simp
  qed
  ultimately show ?thesis
    using l s(2) by force
qed

definition live_chars :: "bytes \<Rightarrow> nat" where
  "live_chars buf = length (filter (\<lambda>c. c \<noteq> 0) buf)"

lemma live_chars_cut: "q < length buf \<Longrightarrow> buf ! q \<noteq> 0 \<Longrightarrow> live_chars (buf[q := 0]) < live_chars buf"
proof -
  assume a: "q < length buf" "buf ! q \<noteq> 0"
  define xs ys where "xs = take q buf" "ys = drop (Suc q) buf"
  then have "buf = xs @ buf ! q # ys" "buf[q := 0] = xs @ 0 # ys"
    using a(1) by (simp_all add: id_take_nth_drop upd_conv_take_nth_drop)
  moreover have "live_chars (xs @ buf ! q # ys) = live_chars (xs @ 0 # ys) + 1"
    using a(2) by (simp add: live_chars_def)
  ultimately show ?thesis
    by simp
qed

lemma parse_entry_live:
  assumes "parse_entry buf p hex = Inr (buf1, ok, hex1)"
  shows "live_chars buf1 \<le> live_chars buf"
proof (cases "find_char 0x2D buf p")
  case None
  then have "buf1 = buf"
    using assms by (auto simp: parse_entry_def bind_ok_Inr_iff split: option.splits)
  then show ?thesis
    by simp
next
  case (Some r)
  then have "buf1 = buf[r := 0]"
    using assms by (auto simp: parse_entry_def Let_def bind_ok_Inr_iff split: option.splits)
  moreover have "r < length buf" "buf ! r \<noteq> 0"
    using find_char_Some [OF Some] by auto
  ultimately show ?thesis
    using live_chars_cut [of r buf] by simp
qed

text \<open>
  The loop; the comma is looked for from the start of the argument, \<open>p\<close> is \<open>inProcessString\<close>. Every round
  but the last overwrites a comma.
\<close>

function range_loop :: "bytes \<Rightarrow> nat \<Rightarrow> bytes \<Rightarrow> (bool \<times> bytes) outcome" where
  "range_loop buf p hex =
     (case find_char 0x2C buf 0 of
        None \<Rightarrow> bind_ok (parse_entry buf p hex) (\<lambda>(buf1, ok, hex1). Inr (ok, hex1))
      | Some q \<Rightarrow>
          (case parse_entry (buf[q := 0]) p hex of
             Inl f \<Rightarrow> Inl f
           | Inr (buf1, ok, hex1) \<Rightarrow> if ok then range_loop buf1 (q + 1) hex1 else Inr (ok, hex1)))"
  by pat_completeness auto

termination
proof (relation "measure (\<lambda>(buf, p, hex). live_chars buf)")
  fix buf :: bytes and p q hex x buf1 y ok hex1
  assume q: "find_char 0x2C buf 0 = Some q" and r: "parse_entry (buf[q := 0]) p hex = Inr x" "(buf1, y) = x" "(ok, hex1) = y" ok
  have "q < length buf" "buf ! q \<noteq> 0"
    using find_char_Some [OF q] by auto
  then have "live_chars (buf[q := 0]) < live_chars buf"
    by (rule live_chars_cut)
  moreover have "live_chars buf1 \<le> live_chars (buf[q := 0])"
    using r(1) unfolding r(2) [symmetric] r(3) [symmetric] by (rule parse_entry_live)
  ultimately have "live_chars buf1 < live_chars buf"
    by simp
  then show "((buf1, q + 1, hex1), buf, p, hex) \<in> measure (\<lambda>(buf, p, hex). live_chars buf)"
    by simp
qed simp

declare range_loop.simps [simp del]

text \<open>The argument is a C string; its memory ends with the terminator.\<close>

definition ipmi_parse_range_list :: "bytes \<Rightarrow> (bool \<times> bytes) outcome" where
  "ipmi_parse_range_list s =
     (if s = [] \<or> hd s = 0x2C then Inr (False, []) else range_loop (s @ [0]) 0 [])"

text \<open>\<open>rc\<close> is that of the last copy; the addresses end with the first 0.\<close>

fun copy_list :: "'s sdr_start \<Rightarrow> nat \<Rightarrow> 's intf_sendrecv \<Rightarrow> u32 \<Rightarrow> int \<Rightarrow> bytes \<Rightarrow> 's sdr_env \<Rightarrow> (int \<times> 's sdr_env) outcome" where
  "copy_list start k send myaddr rc [] w = Inr (rc, w)"
| "copy_list start k send myaddr rc (a # as) w =
     (if rc = 0 \<and> a \<noteq> 0 then
        bind_ok (sdr_copy_to_sdrr start k send False (ucast a) myaddr w) (\<lambda>(rc1, w1).
          copy_list start k send myaddr (if rc1 < 0 then -1 else rc) as w1)
      else Inr (rc, w))"

definition ipmi_sdr_add_from_list :: "nat \<Rightarrow> 's intf_sendrecv \<Rightarrow> bytes \<Rightarrow> 's sdr_env \<Rightarrow> (int \<times> 's sdr_env) outcome" where
  "ipmi_sdr_add_from_list k send s w =
     (let myaddr = target_addr (env_intf w) in
      bind_ok (ipmi_parse_range_list s) (\<lambda>(ok, hex).
        if \<not> ok then Inr (-1, w)
        else if length hex = MAX_NUM_SLOT \<and> 0 \<notin> set hex then Inl OutOfBounds
        else bind_ok (ipmi_sdr_repo_clear send w) (\<lambda>(rc, w1).
          if rc \<noteq> 0 then Inr (-1, w1)
          else bind_ok (sdr_copy_to_sdrr (ipmi_sdr_start k send) k send True myaddr myaddr w1) (\<lambda>(rc1, w2).
            copy_list (ipmi_sdr_start k send) k send myaddr rc1 hex w2))))"

end
