(* ===== verification/SdrCache.thy ===== *)
theory SdrCache
  imports SdrFile
begin

text \<open>
  The list of records that \<open>lib/ipmi_sdr.c\<close> keeps in memory: filled by reading on, searched by the
  \<open>ipmi_sdr_find_*\<close> functions before they read on, loaded from a file, and written to one.
\<close>

section \<open>Fields of a record\<close>

text \<open>A byte of the record a list element points to.\<close>

definition sdr_byte :: "sdr_entry \<Rightarrow> nat \<Rightarrow> byte outcome" where
  "sdr_byte e p =
     (case se_record e of
        None \<Rightarrow> Inl Dangling
      | Some r \<Rightarrow> if p < length r then Inr (r ! p) else Inl OutOfBounds)"

text \<open>A test of one byte of the record.\<close>

definition sdr_test :: "sdr_entry \<Rightarrow> nat \<Rightarrow> (byte \<Rightarrow> bool) \<Rightarrow> bool outcome" where
  "sdr_test e p f = bind_ok (sdr_byte e p) (\<lambda>b. Inr (f b))"

definition and_then :: "bool outcome \<Rightarrow> bool outcome \<Rightarrow> bool outcome" where
  "and_then a b = bind_ok a (\<lambda>x. if x then b else Inr False)"

definition is_sensor :: "byte \<Rightarrow> bool" where
  "is_sensor ty \<longleftrightarrow> ty = 0x01 \<or> ty = 0x02"

definition sdr_known :: "byte \<Rightarrow> bool" where
  "sdr_known ty \<longleftrightarrow> ty = 0x01 \<or> ty = 0x02 \<or> ty = 0x03 \<or> ty = 0x10 \<or> ty = 0x11 \<or> ty = 0x12 \<or> ty = 0x08"

section \<open>Searching\<close>

text \<open>The elements of a list that a test accepts, in order.\<close>

fun select :: "(sdr_entry \<Rightarrow> bool outcome) \<Rightarrow> sdr_entry list \<Rightarrow> sdr_entry list outcome" where
  "select f [] = Inr []"
| "select f (e # es) = bind_ok (f e) (\<lambda>b. bind_ok (select f es) (\<lambda>xs. Inr (if b then e # xs else xs)))"

fun first_of :: "(sdr_entry \<Rightarrow> bool outcome) \<Rightarrow> sdr_entry list \<Rightarrow> sdr_entry option outcome" where
  "first_of f [] = Inr None"
| "first_of f (e # es) = bind_ok (f e) (\<lambda>b. if b then Inr (Some e) else first_of f es)"

text \<open>
  Reading on, for at most \<open>k\<close> rounds: records that cannot be read and records of other types are skipped,
  the others enter the list. The loop stops at an accepted record if \<open>one\<close> holds; \<open>found\<close> are those accepted.
\<close>

primrec sdr_scan :: "nat \<Rightarrow> nat \<Rightarrow> 's intf_sendrecv \<Rightarrow> (sdr_entry \<Rightarrow> bool outcome) \<Rightarrow> bool \<Rightarrow> sdr_entry list
    \<Rightarrow> sdr_iterator \<Rightarrow> 's sdr_env \<Rightarrow> (sdr_entry list \<times> 's sdr_env) outcome" where
  "sdr_scan 0 m send f one found itr w = Inl Unfinished"
| "sdr_scan (Suc k) m send f one found itr w =
     bind_ok (ipmi_sdr_get_next_header send itr w) (\<lambda>(h, itr1, w1).
       case h of
         None \<Rightarrow> Inr (found, w1\<lparr>sdr_list_itr := Some itr1\<rparr>)
       | Some hdr \<Rightarrow>
           bind_ok (ipmi_sdr_get_record m send hdr itr1 w1) (\<lambda>(r, itr2, w2).
             case (if sdr_known (sh_type hdr) then r else None) of
               None \<Rightarrow> sdr_scan k m send f one found itr2 w2
             | Some rec \<Rightarrow>
                 let e = (new_entry hdr)\<lparr>se_record := Some rec\<rparr> in
                 bind_ok (f e) (\<lambda>b.
                   let w3 = w2\<lparr>sdr_list := sdr_list w2 @ [e]\<rparr>; found1 = (if b then found @ [e] else found) in
                   if b \<and> one then Inr (found1, w3\<lparr>sdr_list_itr := Some itr2\<rparr>)
                   else sdr_scan k m send f one found1 itr2 w3)))"

declare sdr_scan.simps [simp del]

text \<open>The repository is opened at the first use.\<close>

definition sdr_open :: "nat \<Rightarrow> 's intf_sendrecv \<Rightarrow> 's sdr_env \<Rightarrow> (sdr_iterator option \<times> 's sdr_env) outcome" where
  "sdr_open k send w =
     (case sdr_list_itr w of
        Some it \<Rightarrow> Inr (Some it, w)
      | None \<Rightarrow> bind_ok (ipmi_sdr_start k send False w) (\<lambda>(itr, w1). Inr (itr, w1\<lparr>sdr_list_itr := itr\<rparr>)))"

definition find_first :: "nat \<Rightarrow> 's intf_sendrecv \<Rightarrow> (sdr_entry \<Rightarrow> bool outcome) \<Rightarrow> 's sdr_env
    \<Rightarrow> (sdr_entry option \<times> 's sdr_env) outcome" where
  "find_first k send f w =
     bind_ok (sdr_open k send w) (\<lambda>(itr, w1).
       case itr of
         None \<Rightarrow> Inr (None, w1)
       | Some it \<Rightarrow>
           bind_ok (first_of f (sdr_list w1)) (\<lambda>e.
             if e \<noteq> None then Inr (e, w1)
             else bind_ok (sdr_scan k k send f True [] it w1) (\<lambda>(found, w2).
               Inr (if found = [] then None else Some (hd found), w2))))"

text \<open>The list returned starts with an element of its own, which is cleared.\<close>

definition blank_entry :: sdr_entry where
  "blank_entry = \<lparr>se_id = 0, se_version = 0, se_type = 0, se_length = 0, se_raw = None, se_record = None\<rparr>"

definition find_all :: "nat \<Rightarrow> 's intf_sendrecv \<Rightarrow> (sdr_entry \<Rightarrow> bool outcome) \<Rightarrow> 's sdr_env
    \<Rightarrow> (sdr_entry list option \<times> 's sdr_env) outcome" where
  "find_all k send f w =
     bind_ok (sdr_open k send w) (\<lambda>(itr, w1).
       case itr of
         None \<Rightarrow> Inr (None, w1)
       | Some it \<Rightarrow>
           bind_ok (select f (sdr_list w1)) (\<lambda>xs.
             bind_ok (sdr_scan k k send f False xs it w1) (\<lambda>(found, w2).
               Inr (Some (blank_entry # found), w2))))"

definition match_numtype :: "u16 \<Rightarrow> byte \<Rightarrow> byte \<Rightarrow> sdr_entry \<Rightarrow> bool outcome" where
  "match_numtype gen_id num ty e =
     (let owner = (\<lambda>b. b = ucast (gen_id AND 0xFF)) in
      if is_sensor (se_type e) then
        and_then (sdr_test e 2 (\<lambda>b. b = num)) (and_then (sdr_test e 0 owner) (sdr_test e 7 (\<lambda>b. b = ty)))
      else if se_type e = 0x03 then
        and_then (sdr_test e 2 (\<lambda>b. b = num)) (and_then (sdr_test e 0 owner) (sdr_test e 5 (\<lambda>b. b = ty)))
      else Inr False)"

definition ipmi_sdr_find_sdr_bynumtype :: "nat \<Rightarrow> 's intf_sendrecv \<Rightarrow> u16 \<Rightarrow> byte \<Rightarrow> byte \<Rightarrow> 's sdr_env
    \<Rightarrow> (sdr_entry option \<times> 's sdr_env) outcome" where
  "ipmi_sdr_find_sdr_bynumtype k send gen_id num ty = find_first k send (match_numtype gen_id num ty)"

definition match_sensortype :: "byte \<Rightarrow> sdr_entry \<Rightarrow> bool outcome" where
  "match_sensortype ty e =
     (if is_sensor (se_type e) then sdr_test e 7 (\<lambda>b. b = ty)
      else if se_type e = 0x03 then sdr_test e 5 (\<lambda>b. b = ty)
      else Inr False)"

definition ipmi_sdr_find_sdr_bysensortype :: "nat \<Rightarrow> 's intf_sendrecv \<Rightarrow> byte \<Rightarrow> 's sdr_env
    \<Rightarrow> (sdr_entry list option \<times> 's sdr_env) outcome" where
  "ipmi_sdr_find_sdr_bysensortype k send ty = find_all k send (match_sensortype ty)"

text \<open>The offset of the entity in a record: sensors, locators, associations.\<close>

definition entity_offset :: "byte \<Rightarrow> nat option" where
  "entity_offset ty =
     (if is_sensor ty \<or> ty = 0x03 then Some 3
      else if ty = 0x10 \<or> ty = 0x11 \<or> ty = 0x12 then Some 7
      else if ty = 0x08 then Some 0
      else None)"

text \<open>\<open>inst\<close> is the 7-bit instance asked for, 7Fh for any.\<close>

definition match_entity :: "byte \<Rightarrow> byte \<Rightarrow> sdr_entry \<Rightarrow> bool outcome" where
  "match_entity ent inst e =
     (case entity_offset (se_type e) of
        None \<Rightarrow> Inr False
      | Some p \<Rightarrow>
          and_then (sdr_test e p (\<lambda>b. b = ent))
            (if inst = 0x7f then Inr True else sdr_test e (p + 1) (\<lambda>b. b AND 0x7f = inst)))"

definition ipmi_sdr_find_sdr_byentity :: "nat \<Rightarrow> 's intf_sendrecv \<Rightarrow> byte \<Rightarrow> byte \<Rightarrow> 's sdr_env
    \<Rightarrow> (sdr_entry list option \<times> 's sdr_env) outcome" where
  "ipmi_sdr_find_sdr_byentity k send ent inst = find_all k send (match_entity ent (inst AND 0x7f))"

definition ipmi_sdr_find_sdr_bytype :: "nat \<Rightarrow> 's intf_sendrecv \<Rightarrow> byte \<Rightarrow> 's sdr_env
    \<Rightarrow> (sdr_entry list option \<times> 's sdr_env) outcome" where
  "ipmi_sdr_find_sdr_bytype k send ty = find_all k send (\<lambda>e. Inr (se_type e = ty))"

text \<open>
  \<open>strncmp(a, b, n) == 0\<close> where \<open>a\<close> is the memory from the name on and \<open>b\<close> a C string without its terminator.
\<close>

fun strncmp_eq :: "bytes \<Rightarrow> bytes \<Rightarrow> nat \<Rightarrow> bool outcome" where
  "strncmp_eq a b 0 = Inr True"
| "strncmp_eq [] b (Suc n) = Inl OutOfBounds"
| "strncmp_eq (x # a) [] (Suc n) = Inr (x = 0)"
| "strncmp_eq (x # a) (y # b) (Suc n) =
     (if x \<noteq> y then Inr False else if x = 0 then Inr True else strncmp_eq a b n)"

definition match_id :: "bytes \<Rightarrow> sdr_entry \<Rightarrow> bool outcome" where
  "match_id name e =
     (case id_code_offset (se_type e) of
        None \<Rightarrow> Inr False
      | Some p \<Rightarrow>
          bind_ok (sdr_byte e p) (\<lambda>c.
            strncmp_eq (drop (p + 1) (the (se_record e))) name (max (unat (c AND 0x1f)) (length name))))"

definition ipmi_sdr_find_sdr_byid :: "nat \<Rightarrow> 's intf_sendrecv \<Rightarrow> bytes option \<Rightarrow> 's sdr_env
    \<Rightarrow> (sdr_entry option \<times> 's sdr_env) outcome" where
  "ipmi_sdr_find_sdr_byid k send name w =
     (case name of None \<Rightarrow> Inr (None, w) | Some n \<Rightarrow> find_first k send (match_id n) w)"

section \<open>Filling the list\<close>

definition ipmi_sdr_list_cache :: "nat \<Rightarrow> 's intf_sendrecv \<Rightarrow> 's sdr_env \<Rightarrow> (int \<times> 's sdr_env) outcome" where
  "ipmi_sdr_list_cache k send w =
     bind_ok (sdr_open k send w) (\<lambda>(itr, w1).
       case itr of
         None \<Rightarrow> Inr (-1, w1)
       | Some it \<Rightarrow> bind_ok (sdr_scan k k send (\<lambda>e. Inr False) False [] it w1) (\<lambda>(found, w2). Inr (0, w2)))"

text \<open>
  The records of a cache file: whether the file was well formed, and those of the known types. A header with
  length 0 is skipped.
\<close>

function read_cache :: "bytes \<Rightarrow> int \<times> sdr_entry list" where
  "read_cache d =
     (if d = [] then (0, [])
      else if length d < 5 then (-1, [])
      else if d ! 4 = 0 then read_cache (drop 5 d)
      else if d ! 2 \<noteq> 0x51 \<and> d ! 2 \<noteq> 0x01 \<and> d ! 2 \<noteq> 0x02 then (-1, [])
      else let n = unat (d ! 4); body = drop 5 d in
        if length body < n then (-1, [])
        else let (rc, es) = read_cache (drop n body) in
          (rc, if sdr_known (d ! 3)
               then (blank_entry\<lparr>se_id := of_le16 d, se_type := d ! 3, se_record := Some (take n body @ [0])\<rparr>) # es
               else es))"
  by pat_completeness auto

termination
  by (relation "measure length") auto

declare read_cache.simps [simp del]

definition ipmi_sdr_list_cache_fromfile :: "bytes option \<Rightarrow> 's sdr_env \<Rightarrow> int \<times> 's sdr_env" where
  "ipmi_sdr_list_cache_fromfile ifile w =
     (case ifile of
        None \<Rightarrow> (-1, w)
      | Some d \<Rightarrow>
          let (rc, es) = read_cache d in
          (rc, w\<lparr>sdr_list := sdr_list w @ es,
                 sdr_list_itr := (case sdr_list_itr w of
                    Some it \<Rightarrow> Some it
                  | None \<Rightarrow> Some \<lparr>it_reservation = 0, it_total = length es, it_next = 0xffff, it_built_in = False\<rparr>)\<rparr>))"

section \<open>Writing the records to a file\<close>

text \<open>The loop of \<open>ipmi_sdr_dump_bin\<close>; the whole list, not only the new part, is then written.\<close>

primrec dump_records :: "nat \<Rightarrow> nat \<Rightarrow> 's intf_sendrecv \<Rightarrow> sdr_iterator \<Rightarrow> 's sdr_env \<Rightarrow> (bool \<times> 's sdr_env) outcome" where
  "dump_records 0 m send itr w = Inl Unfinished"
| "dump_records (Suc k) m send itr w =
     bind_ok (ipmi_sdr_get_next_header send itr w) (\<lambda>(h, itr1, w1).
       case h of
         None \<Rightarrow> Inr (True, w1)
       | Some hdr \<Rightarrow>
           bind_ok (ipmi_sdr_get_record m send hdr itr1 w1) (\<lambda>(r, itr2, w2).
             if r = None then Inr (False, w2)
             else dump_records k m send itr2 (w2\<lparr>sdr_list := sdr_list w2 @ [full_entry hdr r]\<rparr>)))"

declare dump_records.simps [simp del] sdrr_get_records.simps [simp del]

text \<open>What is written: it ends before the body of a record without \<open>raw\<close>, which is an error.\<close>

fun write_records :: "sdr_entry list \<Rightarrow> bytes \<times> int" where
  "write_records [] = ([], 0)"
| "write_records (e # es) =
     (case se_raw e of
        None \<Rightarrow> (entry_header e, -1)
      | Some r \<Rightarrow> let (d, rc) = write_records es in (entry_header e @ take (unat (se_length e)) r @ d, rc))"

text \<open>
  \<open>writable\<close> says whether the file can be opened; writing it never fails. The result is the return value and
  the content of the file, if it was opened.
\<close>

definition ipmi_sdr_dump_bin :: "nat \<Rightarrow> 's intf_sendrecv \<Rightarrow> bool \<Rightarrow> 's sdr_env \<Rightarrow> (int \<times> bytes option \<times> 's sdr_env) outcome" where
  "ipmi_sdr_dump_bin k send writable w =
     bind_ok (ipmi_sdr_start k send False w) (\<lambda>(itr, w1).
       case itr of
         None \<Rightarrow> Inr (-1, None, w1)
       | Some it \<Rightarrow>
           bind_ok (dump_records k k send it w1) (\<lambda>(ok, w2). Inr (
             if \<not> ok \<or> \<not> writable then (-1, None, w2)
             else let (d, rc) = write_records (sdr_list w2) in (rc, Some d, w2))))"

end
