(* ===== verification/SdrSource.thy ===== *)
theory SdrSource
  imports SdrCache
begin

text \<open>
  A repository as its readers see it. The locale \<open>sdr_source\<close> states the contract: records in order, each
  with the id of the next one, answered in pieces of at most \<open>limit\<close> bytes; a reservation may be cancelled, finitely often, and a
  request with an old one is refused. Inside it, reading a header and a record gives the record of
  the repository, and searching gives what the whole repository holds, wherever reading had stopped.
\<close>

record sdr_rec =
  sr_id :: u16
  sr_version :: byte
  sr_type :: byte
  sr_body :: bytes

definition sdr_bytes :: "sdr_rec \<Rightarrow> bytes" where
  "sdr_bytes r = le16 (sr_id r) @ [sr_version r, sr_type r, of_nat (length (sr_body r))] @ sr_body r"

definition next_id :: "sdr_rec list \<Rightarrow> u16" where
  "next_id rs = (case rs of [] \<Rightarrow> 0xffff | r # _ \<Rightarrow> sr_id r)"

fun sdr_lookup :: "u16 \<Rightarrow> sdr_rec list \<Rightarrow> (sdr_rec \<times> u16) option" where
  "sdr_lookup rid [] = None"
| "sdr_lookup rid (r # rs) = (if rid = 0 \<or> rid = sr_id r then Some (r, next_id rs) else sdr_lookup rid rs)"

definition wf_repo :: "sdr_rec list \<Rightarrow> bool" where
  "wf_repo rs \<longleftrightarrow> distinct (map sr_id rs) \<and>
     (\<forall>r \<in> set rs. sr_id r \<noteq> 0 \<and> sr_id r \<noteq> 0xffff \<and> 0 < length (sr_body r) \<and> length (sr_body r) \<le> 250)"

lemma lookup_at:
  assumes "wf_repo (xs @ r # ys)" "rid = sr_id r \<or> rid = 0 \<and> xs = []"
  shows "sdr_lookup rid (xs @ r # ys) = Some (r, next_id ys)"
  using assms by (induction xs) (auto simp: wf_repo_def)

lemma next_id_Nil [simp]: "next_id [] = 0xffff"
  by (simp add: next_id_def)

lemma next_id_Cons [simp]: "next_id (r # rs) = sr_id r"
  by (simp add: next_id_def)

lemma length_sdr_bytes [simp]: "length (sdr_bytes r) = length (sr_body r) + 5"
  by (simp add: sdr_bytes_def)

lemma sdr_bytes_header: "region (sdr_bytes r) 0 5 = le16 (sr_id r) @ [sr_version r, sr_type r, of_nat (length (sr_body r))]"
  by (simp add: sdr_bytes_def region_def le16_def)

lemma sdr_bytes_body: "region (sdr_bytes r) (i + 5) n = region (sr_body r) i n"
proof -
  have "drop (i + 5) (sdr_bytes r) = drop i (sr_body r)"
    by (simp add: sdr_bytes_def le16_def flip: drop_drop)
  then show ?thesis
    by (simp add: region_def)
qed

text \<open>The list element of a record, and the elements of a part of the repository.\<close>

definition entry_of :: "sdr_rec \<Rightarrow> sdr_entry" where
  "entry_of r = blank_entry\<lparr>se_id := sr_id r, se_type := sr_type r, se_record := Some (sr_body r @ [0])\<rparr>"

definition known_entries :: "sdr_rec list \<Rightarrow> sdr_entry list" where
  "known_entries rs = map entry_of (filter (\<lambda>r. sdr_known (sr_type r)) rs)"

lemma known_entries_append [simp]: "known_entries (xs @ ys) = known_entries xs @ known_entries ys"
  by (simp add: known_entries_def)

lemma known_entries_Cons:
  "known_entries (r # rs) = (if sdr_known (sr_type r) then entry_of r # known_entries rs else known_entries rs)"
  by (simp add: known_entries_def)

lemma known_entries_Nil [simp]: "known_entries [] = []"
  by (simp add: known_entries_def)

text \<open>What reading leaves alone.\<close>

definition same_env :: "'s sdr_env \<Rightarrow> 's sdr_env \<Rightarrow> bool" where
  "same_env w w' \<longleftrightarrow> env_intf w' = env_intf w \<and> use_built_in w' = use_built_in w \<and> sdriana w' = sdriana w \<and>
     sdr_list w' = sdr_list w \<and> sdr_list_itr w' = sdr_list_itr w"

lemma same_env_refl [simp]: "same_env w w"
  by (simp add: same_env_def)

lemma same_env_trans [trans]: "same_env w w' \<Longrightarrow> same_env w' w'' \<Longrightarrow> same_env w w''"
  by (simp add: same_env_def)

text \<open>The header in the first bytes of an answer.\<close>

lemma read_header_of_piece:
  assumes "take 7 d = le16 nxt @ region (sdr_bytes r) 0 5"
  shows "read_sdr_header d = \<lparr>sh_next = nxt, sh_id = sr_id r, sh_version = sr_version r, sh_type = sr_type r,
    sh_length = of_nat (length (sr_body r))\<rparr>"
proof -
  have "d = (le16 nxt @ le16 (sr_id r) @ [sr_version r, sr_type r, of_nat (length (sr_body r))]) @ drop 7 d"
    using assms by (metis append_take_drop_id sdr_bytes_header)
  then obtain ys where d: "d = le16 nxt @ le16 (sr_id r) @ [sr_version r, sr_type r, of_nat (length (sr_body r))] @ ys"
    by (metis append.assoc)
  have "of_le16 d = nxt" "of_le16 (drop 2 d) = sr_id r"
    unfolding d by (simp_all)
  moreover have "d ! 4 = sr_version r" "d ! 5 = sr_type r" "d ! 6 = of_nat (length (sr_body r))"
    unfolding d by (simp_all add: nth_append)
  ultimately show ?thesis
    by (simp add: read_sdr_header_def)
qed

section \<open>The contract\<close>

locale sdr_source =
  fixes send :: "'s intf_sendrecv" and reach :: "ipmi_intf \<Rightarrow> bool" and repo :: "'s \<Rightarrow> sdr_rec list"
    and current :: "'s \<Rightarrow> u16" and cancels :: "'s \<Rightarrow> nat" and limit :: nat
  assumes reserve: "reach i \<Longrightarrow>
      \<exists>rsp st'. send i (mk_rq IPMI_NETFN_STORAGE GET_SDR_RESERVE_REPO []) st = Inr (Some rsp, st') \<and>
        rs_ccode rsp = 0 \<and> of_le16 (rs_data rsp) = current st' \<and> repo st' = repo st \<and> cancels st' \<le> cancels st"
    and get: "reach i \<Longrightarrow> sdr_lookup rid (repo st) = Some (r, nxt) \<Longrightarrow> 0 < n \<Longrightarrow> off + n \<le> length (sdr_bytes r) \<Longrightarrow>
      off + n \<le> 255 \<Longrightarrow>
      \<exists>ro st'. send i (sdr_get_rq False res rid (of_nat off) (of_nat n)) st = Inr (ro, st') \<and> repo st' = repo st \<and>
        ((\<exists>rsp. ro = Some rsp \<and> rs_ccode rsp = IPMI_CC_RES_CANCELED) \<and>
            (if res = current st then cancels st' < cancels st else cancels st' \<le> cancels st) \<or>
         cancels st' \<le> cancels st \<and> current st' = current st \<and>
           (if limit < n then (\<forall>rsp. ro = Some rsp \<longrightarrow> rs_ccode rsp = IPMI_CC_CANT_RET_NUM_REQ_BYTES)
            else \<exists>rsp. ro = Some rsp \<and> rs_ccode rsp = 0 \<and> rs_data_len rsp = int n + 2 \<and>
              take (n + 2) (rs_data rsp) = le16 nxt @ region (sdr_bytes r) off n))"
    and limit_ge: "5 \<le> limit"
begin

definition wait :: "u16 \<Rightarrow> 's \<Rightarrow> nat" where
  "wait res st = cancels st + (if res = current st then 0 else 1)"

lemma renew:
  assumes "reach (env_intf w)"
  obtains res w' where "ipmi_sdr_get_reservation send False w = Inr (Some res, w')" "same_env w w'"
    "sdr_max_read_len w' = sdr_max_read_len w" "repo (env_dev w') = repo (env_dev w)"
    "wait res (env_dev w') \<le> cancels (env_dev w)" "cancels (env_dev w') \<le> cancels (env_dev w)"
proof -
  obtain rsp st' where r: "send (env_intf w) (mk_rq IPMI_NETFN_STORAGE GET_SDR_RESERVE_REPO []) (env_dev w) = Inr (Some rsp, st')"
    "rs_ccode rsp = 0" "of_le16 (rs_data rsp) = current st'" "repo st' = repo (env_dev w)" "cancels st' \<le> cancels (env_dev w)"
    using reserve [OF assms] by blast
  show thesis
    by (rule that [of "current st'" "w\<lparr>env_dev := st'\<rparr>"])
      (use r in \<open>simp_all add: ipmi_sdr_get_reservation_def sdr_send_def sdr_netfn_def same_env_def wait_def\<close>)
qed

text \<open>One request: cancelled, refused because it is too long, or answered.\<close>

lemma ask_piece:
  assumes "reach (env_intf w)" "sdr_lookup rid (repo (env_dev w)) = Some (r, nxt)" "0 < n" "off + n \<le> length (sdr_bytes r)" "off + n \<le> 255"
  obtains (cancelled) rsp st' where "sdr_send send (sdr_get_rq False res rid (of_nat off) (of_nat n)) w = Inr (Some rsp, w\<lparr>env_dev := st'\<rparr>)"
      "rs_ccode rsp = IPMI_CC_RES_CANCELED" "repo st' = repo (env_dev w)" "cancels st' < wait res (env_dev w)" "cancels st' \<le> cancels (env_dev w)"
  | (long) ro st' where "sdr_send send (sdr_get_rq False res rid (of_nat off) (of_nat n)) w = Inr (ro, w\<lparr>env_dev := st'\<rparr>)"
      "\<forall>rsp. ro = Some rsp \<longrightarrow> rs_ccode rsp = IPMI_CC_CANT_RET_NUM_REQ_BYTES" "repo st' = repo (env_dev w)" "limit < n"
      "wait res st' \<le> wait res (env_dev w)" "cancels st' \<le> cancels (env_dev w)"
  | (fine) rsp st' where "sdr_send send (sdr_get_rq False res rid (of_nat off) (of_nat n)) w = Inr (Some rsp, w\<lparr>env_dev := st'\<rparr>)"
      "rs_ccode rsp = 0" "rs_data_len rsp = int n + 2" "take (n + 2) (rs_data rsp) = le16 nxt @ region (sdr_bytes r) off n"
      "repo st' = repo (env_dev w)" "wait res st' \<le> wait res (env_dev w)" "cancels st' \<le> cancels (env_dev w)" "n \<le> limit"
proof -
  obtain ro st' where s: "send (env_intf w) (sdr_get_rq False res rid (of_nat off) (of_nat n)) (env_dev w) = Inr (ro, st')"
    and st: "repo st' = repo (env_dev w)"
    and c: "(\<exists>rsp. ro = Some rsp \<and> rs_ccode rsp = IPMI_CC_RES_CANCELED) \<and>
            (if res = current (env_dev w) then cancels st' < cancels (env_dev w) else cancels st' \<le> cancels (env_dev w)) \<or>
         cancels st' \<le> cancels (env_dev w) \<and> current st' = current (env_dev w) \<and>
           (if limit < n then (\<forall>rsp. ro = Some rsp \<longrightarrow> rs_ccode rsp = IPMI_CC_CANT_RET_NUM_REQ_BYTES)
            else \<exists>rsp. ro = Some rsp \<and> rs_ccode rsp = 0 \<and> rs_data_len rsp = int n + 2 \<and>
              take (n + 2) (rs_data rsp) = le16 nxt @ region (sdr_bytes r) off n)"
    using get [OF assms, of res] by (elim exE conjE)
  have send: "sdr_send send (sdr_get_rq False res rid (of_nat off) (of_nat n)) w = Inr (ro, w\<lparr>env_dev := st'\<rparr>)"
    using s by (simp add: sdr_send_def)
  show thesis
    using c
  proof
    assume "(\<exists>rsp. ro = Some rsp \<and> rs_ccode rsp = IPMI_CC_RES_CANCELED) \<and>
      (if res = current (env_dev w) then cancels st' < cancels (env_dev w) else cancels st' \<le> cancels (env_dev w))"
    then show thesis
      using send st by (auto simp: wait_def split: if_splits intro: cancelled)
  next
    assume a: "cancels st' \<le> cancels (env_dev w) \<and> current st' = current (env_dev w) \<and>
      (if limit < n then (\<forall>rsp. ro = Some rsp \<longrightarrow> rs_ccode rsp = IPMI_CC_CANT_RET_NUM_REQ_BYTES)
       else \<exists>rsp. ro = Some rsp \<and> rs_ccode rsp = 0 \<and> rs_data_len rsp = int n + 2 \<and>
         take (n + 2) (rs_data rsp) = le16 nxt @ region (sdr_bytes r) off n)"
    then have "wait res st' \<le> wait res (env_dev w)"
      by (simp add: wait_def)
    then show thesis
      using a send st by (cases "limit < n") (auto intro: long fine)
  qed
qed

text \<open>The tries for a header: each cancellation costs one.\<close>

lemma header_tries_ok:
  assumes "reach (env_intf w)" "sdr_lookup (it_next itr) (repo (env_dev w)) = Some (r, nxt)" "\<not> it_built_in itr"
    "wait (it_reservation itr) (env_dev w) < k"
  shows "\<exists>rsp x w'. header_tries k send itr w = Inr (Some rsp, itr\<lparr>it_reservation := x\<rparr>, w') \<and>
    take 7 (rs_data rsp) = le16 nxt @ region (sdr_bytes r) 0 5 \<and> same_env w w' \<and> sdr_max_read_len w' = sdr_max_read_len w \<and>
    repo (env_dev w') = repo (env_dev w) \<and> cancels (env_dev w') \<le> cancels (env_dev w)"
  using assms
proof (induction k arbitrary: itr w)
  case (Suc k)
  have l: "(0::nat) < 5" "0 + 5 \<le> length (sdr_bytes r)" "0 + (5::nat) \<le> 255"
    by simp_all
  show ?case
  proof (rule ask_piece [OF Suc.prems(1,2) l, of "it_reservation itr"])
    fix rsp st'
    assume s: "sdr_send send (sdr_get_rq False (it_reservation itr) (it_next itr) (of_nat 0) (of_nat 5)) w = Inr (Some rsp, w\<lparr>env_dev := st'\<rparr>)"
      "rs_ccode rsp = IPMI_CC_RES_CANCELED" "repo st' = repo (env_dev w)" "cancels st' < wait (it_reservation itr) (env_dev w)"
      "cancels st' \<le> cancels (env_dev w)"
    obtain res w2 where r: "ipmi_sdr_get_reservation send False (w\<lparr>env_dev := st'\<rparr>) = Inr (Some res, w2)"
      "same_env (w\<lparr>env_dev := st'\<rparr>) w2" "sdr_max_read_len w2 = sdr_max_read_len w" "repo (env_dev w2) = repo st'"
      "wait res (env_dev w2) \<le> cancels st'" "cancels (env_dev w2) \<le> cancels st'"
      using renew [of "w\<lparr>env_dev := st'\<rparr>"] Suc.prems(1) by auto
    have e: "same_env w w2"
      using r(2) by (simp add: same_env_def)
    then have "reach (env_intf w2)"
      using Suc.prems(1) by (simp add: same_env_def)
    moreover have "sdr_lookup (it_next itr) (repo (env_dev w2)) = Some (r, nxt)"
      using Suc.prems(2) r(4) s(3) by simp
    moreover have "wait res (env_dev w2) < k"
      using r(5) s(4) Suc.prems(4) by simp
    ultimately obtain rsp' x w' where "header_tries k send (itr\<lparr>it_reservation := res\<rparr>) w2 = Inr (Some rsp', itr\<lparr>it_reservation := x\<rparr>, w')"
      "take 7 (rs_data rsp') = le16 nxt @ region (sdr_bytes r) 0 5" "same_env w2 w'" "sdr_max_read_len w' = sdr_max_read_len w2"
      "repo (env_dev w') = repo (env_dev w2)" "cancels (env_dev w') \<le> cancels (env_dev w2)"
      using Suc.IH [of w2 "itr\<lparr>it_reservation := res\<rparr>"] Suc.prems(3) by auto
    moreover have "header_tries (Suc k) send itr w = header_tries k send (itr\<lparr>it_reservation := res\<rparr>) w2"
      using s(1,2) r(1) Suc.prems(3) by (simp add: header_tries.simps)
    ultimately show ?thesis
      using e r(3,4,6) s(3,5) by (auto intro: same_env_trans)
  next
    fix ro st'
    assume "limit < 5"
    then show ?thesis
      using limit_ge by simp
  next
    fix rsp st'
    assume "sdr_send send (sdr_get_rq False (it_reservation itr) (it_next itr) (of_nat 0) (of_nat 5)) w = Inr (Some rsp, w\<lparr>env_dev := st'\<rparr>)"
      "rs_ccode rsp = 0" "take (5 + 2) (rs_data rsp) = le16 nxt @ region (sdr_bytes r) 0 5"
      "repo st' = repo (env_dev w)" "cancels st' \<le> cancels (env_dev w)"
    then show ?thesis
      using Suc.prems(3) by (intro exI [of _ rsp] exI [of _ "it_reservation itr"] exI [of _ "w\<lparr>env_dev := st'\<rparr>"])
        (simp add: header_tries.simps same_env_def IPMI_CC_RES_CANCELED_def)
  qed
qed simp

text \<open>Where the iterator stands: before the records \<open>rest\<close>.\<close>

definition at_rest :: "sdr_iterator \<Rightarrow> 's \<Rightarrow> sdr_rec list \<Rightarrow> sdr_rec list \<Rightarrow> bool" where
  "at_rest itr st seen rest \<longleftrightarrow> \<not> it_built_in itr \<and> wf_repo (repo st) \<and> repo st = seen @ rest \<and> cancels st \<le> 3 \<and>
     (it_next itr = next_id rest \<or> it_next itr = 0 \<and> seen = [] \<and> rest \<noteq> [])"

definition header_of :: "sdr_rec \<Rightarrow> u16 \<Rightarrow> sdr_header" where
  "header_of r nxt = \<lparr>sh_next = nxt, sh_id = sr_id r, sh_version = sr_version r, sh_type = sr_type r,
     sh_length = of_nat (length (sr_body r))\<rparr>"

lemma next_header_end:
  assumes "at_rest itr st seen []"
  shows "ipmi_sdr_get_next_header send itr w = Inr (None, itr, w)"
  using assms by (auto simp: at_rest_def ipmi_sdr_get_next_header_def)

lemma next_header_ok:
  assumes "reach (env_intf w)" "at_rest itr (env_dev w) seen (r # rest)"
  obtains itr' w' where "ipmi_sdr_get_next_header send itr w = Inr (Some (header_of r (next_id rest)), itr', w')"
    "at_rest itr' (env_dev w') (seen @ [r]) rest" "same_env w w'" "sdr_max_read_len w' = sdr_max_read_len w"
    "repo (env_dev w') = repo (env_dev w)"
proof -
  have a: "\<not> it_built_in itr" "wf_repo (seen @ r # rest)" "repo (env_dev w) = seen @ r # rest" "cancels (env_dev w) \<le> 3"
    "it_next itr = sr_id r \<or> it_next itr = 0 \<and> seen = []"
    using assms(2) by (auto simp: at_rest_def)
  have wf: "sr_id r \<noteq> 0xffff" "sr_id r \<noteq> 0" "0 < length (sr_body r)" "length (sr_body r) \<le> 250"
    using a(2) by (auto simp: wf_repo_def)
  have "sdr_lookup (it_next itr) (repo (env_dev w)) = Some (r, next_id rest)"
    unfolding a(3) by (rule lookup_at [OF a(2,5)])
  moreover have "wait (it_reservation itr) (env_dev w) < 5"
    using a(4) by (simp add: wait_def)
  ultimately obtain rsp x w' where h: "header_tries 5 send itr w = Inr (Some rsp, itr\<lparr>it_reservation := x\<rparr>, w')"
    "take 7 (rs_data rsp) = le16 (next_id rest) @ region (sdr_bytes r) 0 5" "same_env w w'" "sdr_max_read_len w' = sdr_max_read_len w"
    "repo (env_dev w') = repo (env_dev w)" "cancels (env_dev w') \<le> cancels (env_dev w)"
    using header_tries_ok [OF assms(1) _ a(1)] by metis
  have rd: "read_sdr_header (rs_data rsp) = header_of r (next_id rest)"
    using read_header_of_piece [OF h(2)] by (simp add: header_of_def)
  have "sh_length (header_of r (next_id rest)) \<noteq> 0"
    using wf by (simp add: header_of_def word_unat_eq_iff unat_of_nat)
  then have g: "ipmi_sdr_get_header send itr w = Inr (Some (header_of r (next_id rest)), itr\<lparr>it_reservation := x\<rparr>, w')"
    using h(1) rd a(5) by (auto simp: ipmi_sdr_get_header_def header_of_def)
  show thesis
  proof (rule that)
    show "ipmi_sdr_get_next_header send itr w = Inr (Some (header_of r (next_id rest)), itr\<lparr>it_reservation := x, it_next := next_id rest\<rparr>, w')"
      using g a(5) wf by (auto simp: ipmi_sdr_get_next_header_def header_of_def)
    show "at_rest (itr\<lparr>it_reservation := x, it_next := next_id rest\<rparr>) (env_dev w') (seen @ [r]) rest"
      using a h(5,6) by (simp add: at_rest_def)
  qed (use h in simp_all)
qed

section \<open>Records\<close>

text \<open>The size of the next piece, once the limit is known to be a byte.\<close>

lemma sdr_piece_unat:
  assumes "0 < left" "1 \<le> m" "m \<le> 254"
  shows "sdr_piece left m = of_nat (min left (nat m))" "uint (of_nat (min left (nat m)) :: byte) = int (min left (nat m))"
proof -
  have "(if int left < m then int left else m) = int (min left (nat m))"
    using assms by (auto simp: min_def)
  then show "sdr_piece left m = of_nat (min left (nat m))"
    unfolding sdr_piece_def by simp
  show "uint (of_nat (min left (nat m)) :: byte) = int (min left (nat m))"
    using assms by (simp add: uint_nat unat_of_nat)
qed

definition reads_body :: "sdr_rec \<Rightarrow> 's sdr_env \<Rightarrow> (bytes option \<times> sdr_iterator \<times> 's sdr_env) outcome \<Rightarrow> sdr_iterator \<Rightarrow> bool" where
  "reads_body r w x itr \<longleftrightarrow> (\<exists>y w'. x = Inr (Some (sr_body r @ [0]), itr\<lparr>it_reservation := y\<rparr>, w') \<and> same_env w w' \<and>
     repo (env_dev w') = repo (env_dev w) \<and> cancels (env_dev w') \<le> cancels (env_dev w) \<and>
     1 \<le> sdr_max_read_len w' \<and> sdr_max_read_len w' \<le> 254)"

lemma reads_body_step:
  assumes "reads_body r w1 x (itr\<lparr>it_reservation := y\<rparr>)" "same_env w w1" "repo (env_dev w1) = repo (env_dev w)"
    "cancels (env_dev w1) \<le> cancels (env_dev w)"
  shows "reads_body r w x itr"
  using assms by (auto simp: reads_body_def intro: same_env_trans)

lemma reads_body_keep:
  assumes "reads_body r w1 x itr" "same_env w w1" "repo (env_dev w1) = repo (env_dev w)" "cancels (env_dev w1) \<le> cancels (env_dev w)"
  shows "reads_body r w x itr"
  by (rule reads_body_step [of r w1 x "it_reservation itr" itr]) (use assms in simp_all)

lemma record_loop_ok:
  assumes "reach (env_intf w)" "sdr_lookup rid (repo (env_dev w)) = Some (r, nxt)" "\<not> it_built_in itr"
    "len = length (sr_body r)" "len \<le> 250" "i \<le> len" "1 \<le> sdr_max_read_len w" "sdr_max_read_len w \<le> 254"
    "data = take i (sr_body r) @ replicate (len + 1 - i) 0"
    "(len - i) + nat (sdr_max_read_len w) + wait (it_reservation itr) (env_dev w) < k"
  shows "reads_body r w (record_loop k send rid len i data itr w) itr"
  using assms
proof (induction k arbitrary: i data itr w)
  case (Suc k)
  show ?case
  proof (cases "i = len")
    case True
    then have "data = sr_body r @ [0]"
      using Suc.prems(4,9) by simp
    then show ?thesis
      using True Suc.prems(7,8) by (auto simp: record_loop.simps reads_body_def intro: exI [of _ "it_reservation itr"])
  next
    case False
    define n where "n = min (len - i) (nat (sdr_max_read_len w))"
    have n: "0 < n" "i + n \<le> len" "n \<le> nat (sdr_max_read_len w)" "i + 5 + n \<le> 255"
      using False Suc.prems(5-8) by (auto simp: n_def)
    have p: "sdr_piece (len - i) (sdr_max_read_len w) = of_nat n" "uint (of_nat n :: byte) = int n"
      using sdr_piece_unat [of "len - i" "sdr_max_read_len w"] False Suc.prems(6-8) unfolding n_def by auto
    then have un: "unat (of_nat n :: byte) = n"
      by (metis unat_eq_nat_uint nat_int)
    have l: "i + 5 + n \<le> length (sdr_bytes r)"
      using n Suc.prems(4) by simp
    let ?rq = "sdr_get_rq False (it_reservation itr) rid (of_nat (i + 5)) (of_nat n)"
    show ?thesis
    proof (rule ask_piece [OF Suc.prems(1,2) n(1) l n(4), of "it_reservation itr"])
      fix rsp st'
      assume s: "sdr_send send ?rq w = Inr (Some rsp, w\<lparr>env_dev := st'\<rparr>)" "rs_ccode rsp = IPMI_CC_RES_CANCELED"
        "repo st' = repo (env_dev w)" "cancels st' < wait (it_reservation itr) (env_dev w)" "cancels st' \<le> cancels (env_dev w)"
      obtain res w2 where r: "ipmi_sdr_get_reservation send False (w\<lparr>env_dev := st'\<rparr>) = Inr (Some res, w2)"
        "same_env (w\<lparr>env_dev := st'\<rparr>) w2" "sdr_max_read_len w2 = sdr_max_read_len w" "repo (env_dev w2) = repo st'"
        "wait res (env_dev w2) \<le> cancels st'" "cancels (env_dev w2) \<le> cancels st'"
        using renew [of "w\<lparr>env_dev := st'\<rparr>"] Suc.prems(1) by auto
      have e: "same_env w w2"
        using r(2) by (simp add: same_env_def)
      have "reads_body r w2 (record_loop k send rid len i data (itr\<lparr>it_reservation := res\<rparr>) w2) (itr\<lparr>it_reservation := res\<rparr>)"
        using Suc.prems r s e by (intro Suc.IH) (simp_all add: same_env_def)
      moreover have "record_loop (Suc k) send rid len i data itr w = record_loop k send rid len i data (itr\<lparr>it_reservation := res\<rparr>) w2"
        using s(1,2) r(1) p Suc.prems(3) n(2) False
        by (simp add: record_loop.simps Let_def IPMI_CC_RES_CANCELED_def IPMI_CC_CANT_RET_NUM_REQ_BYTES_def)
      ultimately show ?thesis
        using e r(4,6) s(3,5) by (auto intro: reads_body_step)
    next
      fix ro st'
      assume s: "sdr_send send ?rq w = Inr (ro, w\<lparr>env_dev := st'\<rparr>)"
        "\<forall>rsp. ro = Some rsp \<longrightarrow> rs_ccode rsp = IPMI_CC_CANT_RET_NUM_REQ_BYTES" "repo st' = repo (env_dev w)" "limit < n"
        "wait (it_reservation itr) st' \<le> wait (it_reservation itr) (env_dev w)" "cancels st' \<le> cancels (env_dev w)"
      define w2 where "w2 = w\<lparr>env_dev := st', sdr_max_read_len := int n - 1\<rparr>"
      have "6 \<le> n"
        using s(4) limit_ge by simp
      have "reads_body r w2 (record_loop k send rid len i data itr w2) itr"
        using Suc.prems s n \<open>6 \<le> n\<close> by (intro Suc.IH) (simp_all add: w2_def)
      moreover have "record_loop (Suc k) send rid len i data itr w = record_loop k send rid len i data itr w2"
        using s(1,2) p Suc.prems(3) n(2) False \<open>6 \<le> n\<close>
        by (cases ro) (simp_all add: record_loop.simps Let_def w2_def)
      ultimately show ?thesis
        using s(3,6) reads_body_keep [of r w2 _ itr w] by (simp add: w2_def same_env_def)
    next
      fix rsp st'
      assume s: "sdr_send send ?rq w = Inr (Some rsp, w\<lparr>env_dev := st'\<rparr>)"
        "rs_ccode rsp = 0" "rs_data_len rsp = int n + 2" "take (n + 2) (rs_data rsp) = le16 nxt @ region (sdr_bytes r) (i + 5) n"
        "repo st' = repo (env_dev w)" "wait (it_reservation itr) st' \<le> wait (it_reservation itr) (env_dev w)"
        "cancels st' \<le> cancels (env_dev w)" "n \<le> limit"
      define w2 where "w2 = w\<lparr>env_dev := st'\<rparr>"
      define data2 where "data2 = put_at data i (region (rs_data rsp) 2 n)"
      have "length (take (n + 2) (rs_data rsp)) = n + 2"
        unfolding s(4) using l by simp
      then have len: "2 + n \<le> length (rs_data rsp)"
        by simp
      have "region (rs_data rsp) 2 n = drop 2 (take (n + 2) (rs_data rsp))"
        by (simp add: region_def drop_take)
      also have "\<dots> = region (sr_body r) i n"
        unfolding s(4) by (simp add: sdr_bytes_body)
      finally have "data2 = take (i + n) (sr_body r) @ replicate (len + 1 - (i + n)) 0"
        using Suc.prems(4,9) n by (simp add: data2_def put_at_def region_def take_add)
      then have "reads_body r w2 (record_loop k send rid len (i + n) data2 itr w2) itr"
        using Suc.prems s n by (intro Suc.IH) (simp_all add: w2_def)
      moreover have "record_loop (Suc k) send rid len i data itr w = record_loop k send rid len (i + n) data2 itr w2"
      proof -
        have "\<not> length data < i + n"
          using Suc.prems(4,9) n by simp
        then show ?thesis
          using s(1-3) p un Suc.prems(3) n False len
          by (simp add: record_loop.simps Let_def IPMI_CC_RES_CANCELED_def IPMI_CC_CANT_RET_NUM_REQ_BYTES_def w2_def data2_def)
      qed
      ultimately show ?thesis
        using s(5,7) reads_body_keep [of r w2 _ itr w] by (simp add: w2_def same_env_def)
    qed
  qed
qed simp

text \<open>An environment in which reading starts well.\<close>

definition ready :: "'s sdr_env \<Rightarrow> bool" where
  "ready w \<longleftrightarrow> reach (env_intf w) \<and> (1 \<le> sdr_max_read_len w \<and> sdr_max_read_len w \<le> 254 \<or>
     sdr_max_read_len w = 0 \<and> 3 \<le> uint (ipmi_intf_get_max_response_data_size (env_intf w)))"

lemma get_record_ok:
  assumes "ready w" "at_rest itr (env_dev w) (seen @ [r]) rest" "509 \<le> m"
  obtains itr' w' where "ipmi_sdr_get_record m send (header_of r nxt) itr w = Inr (Some (sr_body r @ [0]), itr', w')"
    "at_rest itr' (env_dev w') (seen @ [r]) rest" "same_env w w'" "ready w'" "repo (env_dev w') = repo (env_dev w)"
proof -
  have a: "\<not> it_built_in itr" "wf_repo (seen @ r # rest)" "repo (env_dev w) = seen @ r # rest" "cancels (env_dev w) \<le> 3"
    using assms(2) by (auto simp: at_rest_def)
  have wf: "0 < length (sr_body r)" "length (sr_body r) \<le> 250"
    using a(2) by (auto simp: wf_repo_def)
  have len: "unat (sh_length (header_of r nxt)) = length (sr_body r)"
    using wf by (simp add: header_of_def unat_of_nat)
  define w1 where "w1 = init_max_read w"
  have w1: "same_env w w1" "env_dev w1 = env_dev w" "1 \<le> sdr_max_read_len w1" "sdr_max_read_len w1 \<le> 254"
    using assms(1) by (auto simp: w1_def init_max_read_def same_env_def ready_def)
  have "reads_body r w1 (record_loop m send (sr_id r) (length (sr_body r)) 0 (replicate (length (sr_body r) + 1) 0) itr w1) itr"
  proof (rule record_loop_ok)
    show "reach (env_intf w1)"
      using assms(1) w1(1) by (simp add: ready_def same_env_def)
    show "sdr_lookup (sr_id r) (repo (env_dev w1)) = Some (r, next_id rest)"
      unfolding w1(2) a(3) by (rule lookup_at [OF a(2)]) simp
    show "length (sr_body r) - 0 + nat (sdr_max_read_len w1) + wait (it_reservation itr) (env_dev w1) < m"
    proof -
      have "nat (sdr_max_read_len w1) \<le> 254" "wait (it_reservation itr) (env_dev w1) \<le> 4"
        using w1 a(4) by (simp_all add: wait_def)
      then show ?thesis
        using wf assms(3) by linarith
    qed
  qed (use a wf w1 in simp_all)
  then obtain y w' where r: "record_loop m send (sr_id r) (length (sr_body r)) 0 (replicate (length (sr_body r) + 1) 0) itr w1 =
      Inr (Some (sr_body r @ [0]), itr\<lparr>it_reservation := y\<rparr>, w')" "same_env w1 w'" "repo (env_dev w') = repo (env_dev w1)"
    "cancels (env_dev w') \<le> cancels (env_dev w1)" "1 \<le> sdr_max_read_len w'" "sdr_max_read_len w' \<le> 254"
    unfolding reads_body_def by blast
  show thesis
  proof (rule that)
    show "ipmi_sdr_get_record m send (header_of r nxt) itr w = Inr (Some (sr_body r @ [0]), itr\<lparr>it_reservation := y\<rparr>, w')"
      using r(1) wf by (simp add: ipmi_sdr_get_record_def len w1_def) (simp add: header_of_def)
    show "at_rest (itr\<lparr>it_reservation := y\<rparr>) (env_dev w') (seen @ [r]) rest"
      using assms(2) r(3,4) w1(2) unfolding at_rest_def by auto
    show "same_env w w'"
      using w1(1) r(2) by (rule same_env_trans)
    show "ready w'"
      using assms(1) w1(1) r(2,5,6) by (simp add: ready_def same_env_def)
    show "repo (env_dev w') = repo (env_dev w)"
      using r(3) w1(2) by simp
  qed
qed

section \<open>Searching\<close>

text \<open>One round of a search, with the record it reads.\<close>

lemma entry_of_record:
  "(new_entry (header_of r nxt))\<lparr>se_record := Some (sr_body r @ [0])\<rparr> = entry_of r"
  by (simp add: new_entry_def header_of_def entry_of_def blank_entry_def)

lemma sdr_scan_round:
  assumes "ready w" "at_rest itr (env_dev w) seen (r # rest)" "509 \<le> m" "sdr_known (sr_type r) \<Longrightarrow> f (entry_of r) = Inr b"
  obtains itr' w' where "at_rest itr' (env_dev w') (seen @ [r]) rest" "same_env w w'" "ready w'" "repo (env_dev w') = repo (env_dev w)"
    "sdr_scan (Suc k) m send f one found itr w =
      (if sdr_known (sr_type r) then
         let w3 = w'\<lparr>sdr_list := sdr_list w' @ [entry_of r]\<rparr>; found1 = (if b then found @ [entry_of r] else found) in
         if b \<and> one then Inr (found1, w3\<lparr>sdr_list_itr := Some itr'\<rparr>) else sdr_scan k m send f one found1 itr' w3
       else sdr_scan k m send f one found itr' w')"
proof -
  obtain itr1 w1 where h: "ipmi_sdr_get_next_header send itr w = Inr (Some (header_of r (next_id rest)), itr1, w1)"
    "at_rest itr1 (env_dev w1) (seen @ [r]) rest" "same_env w w1" "sdr_max_read_len w1 = sdr_max_read_len w"
    "repo (env_dev w1) = repo (env_dev w)"
    using next_header_ok [OF _ assms(2)] assms(1) unfolding ready_def by blast
  have "ready w1"
    using assms(1) h(3,4) by (simp add: ready_def same_env_def)
  then obtain itr2 w2 where r: "ipmi_sdr_get_record m send (header_of r (next_id rest)) itr1 w1 = Inr (Some (sr_body r @ [0]), itr2, w2)"
    "at_rest itr2 (env_dev w2) (seen @ [r]) rest" "same_env w1 w2" "ready w2" "repo (env_dev w2) = repo (env_dev w1)"
    using get_record_ok [OF _ h(2) assms(3)] by blast
  have ty: "sh_type (header_of r (next_id rest)) = sr_type r"
    by (simp add: header_of_def)
  show thesis
  proof (rule that)
    show "at_rest itr2 (env_dev w2) (seen @ [r]) rest" "ready w2"
      by (fact r)+
    show "same_env w w2"
      using h(3) r(3) by (rule same_env_trans)
    show "repo (env_dev w2) = repo (env_dev w)"
      using r(5) h(5) by simp
    show "sdr_scan (Suc k) m send f one found itr w =
      (if sdr_known (sr_type r) then
         let w3 = w2\<lparr>sdr_list := sdr_list w2 @ [entry_of r]\<rparr>; found1 = (if b then found @ [entry_of r] else found) in
         if b \<and> one then Inr (found1, w3\<lparr>sdr_list_itr := Some itr2\<rparr>) else sdr_scan k m send f one found1 itr2 w3
       else sdr_scan k m send f one found itr2 w2)"
      using h(1) r(1) assms(4) by (simp add: sdr_scan.simps ty entry_of_record Let_def)
  qed
qed

text \<open>
  The list holds the known records read so far, and reading stands behind them. A file cache would
  be a list of its own; here the list comes from the device.
\<close>

definition cached :: "'s sdr_env \<Rightarrow> bool" where
  "cached w \<longleftrightarrow> ready w \<and> (\<exists>itr seen rest. sdr_list_itr w = Some itr \<and> at_rest itr (env_dev w) seen rest \<and>
     sdr_list w = known_entries seen)"

lemma cachedI:
  "ready w \<Longrightarrow> sdr_list_itr w = Some itr \<Longrightarrow> at_rest itr (env_dev w) seen rest \<Longrightarrow> sdr_list w = known_entries seen \<Longrightarrow> cached w"
  by (auto simp: cached_def)

lemma cached_end:
  assumes "ready w" "at_rest itr (env_dev w) seen []" "sdr_list w = known_entries seen" "k \<noteq> 0"
  shows "sdr_scan k m send f one found itr w = Inr (found, w\<lparr>sdr_list_itr := Some itr\<rparr>)"
    "cached (w\<lparr>sdr_list_itr := Some itr\<rparr>)" "sdr_list w = known_entries (repo (env_dev w))"
proof -
  show "sdr_scan k m send f one found itr w = Inr (found, w\<lparr>sdr_list_itr := Some itr\<rparr>)"
    using assms(4) next_header_end [OF assms(2)] by (cases k) (simp_all add: sdr_scan.simps)
  show "cached (w\<lparr>sdr_list_itr := Some itr\<rparr>)"
    by (rule cachedI [of _ itr seen "[]"]) (use assms in \<open>simp_all add: ready_def\<close>)
  show "sdr_list w = known_entries (repo (env_dev w))"
    using assms(2,3) by (simp add: at_rest_def)
qed

text \<open>The state after a round that goes on.\<close>

lemma listed_round:
  assumes "at_rest itr' (env_dev w') (seen @ [r]) rest" "same_env w w'" "ready w'" "repo (env_dev w') = repo (env_dev w)"
    "sdr_list w = known_entries seen" "sdr_known (sr_type r)"
  shows "ready (w'\<lparr>sdr_list := sdr_list w' @ [entry_of r]\<rparr>)" "sdr_list w' @ [entry_of r] = known_entries (seen @ [r])"
  using assms by (simp_all add: ready_def same_env_def known_entries_Cons)

lemma scan_all:
  assumes "ready w" "at_rest itr (env_dev w) seen rest" "509 \<le> m" "length rest < k"
    "\<forall>e \<in> set (known_entries rest). f e = Inr (g e)" "sdr_list w = known_entries seen"
  shows "\<exists>w'. sdr_scan k m send f False found itr w = Inr (found @ filter g (known_entries rest), w') \<and>
    cached w' \<and> repo (env_dev w') = repo (env_dev w) \<and> sdr_list w' = known_entries (repo (env_dev w))"
  using assms
proof (induction rest arbitrary: seen itr w k found)
  case Nil
  then show ?case
    using cached_end [OF Nil.prems(1,2,6)] by auto
next
  case (Cons r rest)
  obtain k' where k: "k = Suc k'"
    using Cons.prems(4) by (cases k) auto
  have f: "sdr_known (sr_type r) \<Longrightarrow> f (entry_of r) = Inr (g (entry_of r))"
    using Cons.prems(5) by (simp add: known_entries_Cons)
  obtain itr' w' where s: "at_rest itr' (env_dev w') (seen @ [r]) rest" "same_env w w'" "ready w'" "repo (env_dev w') = repo (env_dev w)"
    "sdr_scan (Suc k') m send f False found itr w =
      (if sdr_known (sr_type r) then
         let w3 = w'\<lparr>sdr_list := sdr_list w' @ [entry_of r]\<rparr>; found1 = (if g (entry_of r) then found @ [entry_of r] else found) in
         if g (entry_of r) \<and> False then Inr (found1, w3\<lparr>sdr_list_itr := Some itr'\<rparr>) else sdr_scan k' m send f False found1 itr' w3
       else sdr_scan k' m send f False found itr' w')"
    by (rule sdr_scan_round [where f = f and b = "g (entry_of r)", OF Cons.prems(1-3) f])
  have rest: "\<forall>e \<in> set (known_entries rest). f e = Inr (g e)"
    using Cons.prems(5) by (simp add: known_entries_Cons split: if_splits)
  show ?case
  proof (cases "sdr_known (sr_type r)")
    case True
    note l = listed_round [OF s(1-4) Cons.prems(6) True]
    show ?thesis
      using Cons.IH [of "w'\<lparr>sdr_list := sdr_list w' @ [entry_of r]\<rparr>" itr' "seen @ [r]" k' "if g (entry_of r) then found @ [entry_of r] else found"]
        Cons.prems(3,4) rest s(1,4,5) l k True
      by (simp add: known_entries_Cons Let_def split: if_splits)
  next
    case False
    show ?thesis
      using Cons.IH [of w' itr' "seen @ [r]" k' found] Cons.prems(3,4,6) rest s k False
      by (simp add: known_entries_Cons same_env_def)
  qed
qed

lemma scan_first:
  assumes "ready w" "at_rest itr (env_dev w) seen rest" "509 \<le> m" "length rest < k"
    "\<forall>e \<in> set (known_entries rest). f e = Inr (g e)" "sdr_list w = known_entries seen"
  shows "\<exists>w'. sdr_scan k m send f True [] itr w = Inr (case find g (known_entries rest) of None \<Rightarrow> [] | Some e \<Rightarrow> [e], w') \<and>
    cached w' \<and> repo (env_dev w') = repo (env_dev w)"
  using assms
proof (induction rest arbitrary: seen itr w k)
  case Nil
  then show ?case
    using cached_end [OF Nil.prems(1,2,6)] by auto
next
  case (Cons r rest)
  obtain k' where k: "k = Suc k'"
    using Cons.prems(4) by (cases k) auto
  have f: "sdr_known (sr_type r) \<Longrightarrow> f (entry_of r) = Inr (g (entry_of r))"
    using Cons.prems(5) by (simp add: known_entries_Cons)
  obtain itr' w' where s: "at_rest itr' (env_dev w') (seen @ [r]) rest" "same_env w w'" "ready w'" "repo (env_dev w') = repo (env_dev w)"
    "sdr_scan (Suc k') m send f True [] itr w =
      (if sdr_known (sr_type r) then
         let w3 = w'\<lparr>sdr_list := sdr_list w' @ [entry_of r]\<rparr>; found1 = (if g (entry_of r) then [] @ [entry_of r] else []) in
         if g (entry_of r) \<and> True then Inr (found1, w3\<lparr>sdr_list_itr := Some itr'\<rparr>) else sdr_scan k' m send f True found1 itr' w3
       else sdr_scan k' m send f True [] itr' w')"
    by (rule sdr_scan_round [where f = f and b = "g (entry_of r)", OF Cons.prems(1-3) f])
  have rest: "\<forall>e \<in> set (known_entries rest). f e = Inr (g e)"
    using Cons.prems(5) by (simp add: known_entries_Cons split: if_splits)
  consider (found) "sdr_known (sr_type r)" "g (entry_of r)" | (listed) "sdr_known (sr_type r)" "\<not> g (entry_of r)"
    | (skipped) "\<not> sdr_known (sr_type r)"
    by blast
  then show ?case
  proof cases
    case found
    note l = listed_round [OF s(1-4) Cons.prems(6) found(1)]
    have "cached (w'\<lparr>sdr_list := sdr_list w' @ [entry_of r], sdr_list_itr := Some itr'\<rparr>)"
      by (rule cachedI [of _ itr' "seen @ [r]" rest]) (use l s(1) in \<open>simp_all add: ready_def\<close>)
    then show ?thesis
      using s(4,5) k found by (simp add: known_entries_Cons Let_def)
  next
    case listed
    note l = listed_round [OF s(1-4) Cons.prems(6) listed(1)]
    show ?thesis
      using Cons.IH [of "w'\<lparr>sdr_list := sdr_list w' @ [entry_of r]\<rparr>" itr' "seen @ [r]" k'] Cons.prems(3,4) rest s(1,4,5) l k listed
      by (simp add: known_entries_Cons Let_def)
  next
    case skipped
    show ?thesis
      using Cons.IH [of w' itr' "seen @ [r]" k'] Cons.prems(3,4,6) rest s k skipped
      by (simp add: known_entries_Cons same_env_def)
  qed
qed

end

end
