(* ===== verification/SdrHost.thy ===== *)
theory SdrHost
  imports SdrSource
begin

text \<open>
  A management controller with a repository: the locale \<open>sdr_host\<close> adds to the readers' contract what
  \<open>ipmi_sdr_start\<close> asks for. Inside it, opening succeeds, and every search answers for the whole repository.
\<close>

locale sdr_host = sdr_source +
  assumes devid: "reach i \<Longrightarrow>
      \<exists>rsp st'. send i (mk_rq IPMI_NETFN_APP BMC_GET_DEVICE_ID []) st = Inr (Some rsp, st') \<and> rs_ccode rsp = 0 \<and>
        rs_data rsp ! 5 AND 0x02 \<noteq> 0 \<and> repo st' = repo st \<and> cancels st' \<le> cancels st"
    and info: "reach i \<Longrightarrow> length (repo st) < 65536 \<Longrightarrow>
      \<exists>rsp st'. send i (mk_rq IPMI_NETFN_STORAGE GET_SDR_REPO_INFO []) st = Inr (Some rsp, st') \<and> rs_ccode rsp = 0 \<and>
        of_le16 (drop 1 (rs_data rsp)) = of_nat (length (repo st)) \<and> repo st' = repo st \<and> cancels st' \<le> cancels st"
begin

text \<open>A repository that can be read, and the environment before it is opened.\<close>

definition closed :: "'a sdr_env \<Rightarrow> bool" where
  "closed w \<longleftrightarrow> ready w \<and> \<not> use_built_in w \<and> repo (env_dev w) \<noteq> [] \<and> wf_repo (repo (env_dev w)) \<and>
     length (repo (env_dev w)) < 65536 \<and> cancels (env_dev w) \<le> 3"

lemma start_ok:
  assumes "closed w"
  obtains itr w' where "\<forall>rebuild. sdr_start_by rebuild send False w = Inr (Some itr, w')" "at_rest itr (env_dev w') [] (repo (env_dev w))"
    "ready w'" "repo (env_dev w') = repo (env_dev w)" "sdr_list w' = sdr_list w" "env_intf w' = env_intf w"
    "use_built_in w' = use_built_in w" "sdr_list_itr w' = sdr_list_itr w"
proof -
  have at: "reach (env_intf w)"
    using assms by (simp add: closed_def ready_def)
  obtain r1 st1 where d: "send (env_intf w) (mk_rq IPMI_NETFN_APP BMC_GET_DEVICE_ID []) (env_dev w) = Inr (Some r1, st1)"
    "rs_ccode r1 = 0" "rs_data r1 ! 5 AND 0x02 \<noteq> 0" "repo st1 = repo (env_dev w)" "cancels st1 \<le> cancels (env_dev w)"
    using devid [OF at] by blast
  obtain r2 st2 where i: "send (env_intf w) (mk_rq IPMI_NETFN_STORAGE GET_SDR_REPO_INFO []) st1 = Inr (Some r2, st2)"
    "rs_ccode r2 = 0" "of_le16 (drop 1 (rs_data r2)) = of_nat (length (repo st1))" "repo st2 = repo st1" "cancels st2 \<le> cancels st1"
    using info [OF at, of st1] assms d(4) by (auto simp: closed_def)
  have count: "unat (of_le16 (drop 1 (rs_data r2))) = length (repo (env_dev w))" "length (repo (env_dev w)) \<noteq> 0"
    unfolding i(3) d(4) using assms by (simp_all add: closed_def unat_of_nat)
  obtain w1 where c: "choose_source False (rs_data r1) (w\<lparr>env_dev := st1\<rparr>) = (Some False, w1)"
    "env_intf w1 = env_intf w" "env_dev w1 = st1" "sdr_list w1 = sdr_list w" "use_built_in w1 = use_built_in w"
    "sdr_list_itr w1 = sdr_list_itr w" "sdr_max_read_len w1 = sdr_max_read_len w"
    using d(3) assms by (simp add: choose_source_def closed_def)
  define w2 where "w2 = w1\<lparr>env_dev := st2\<rparr>"
  have w2: "reach (env_intf w2)"
    using at c(2) by (simp add: w2_def)
  obtain res w3 where r: "ipmi_sdr_get_reservation send False w2 = Inr (Some res, w3)" "same_env w2 w3"
    "sdr_max_read_len w3 = sdr_max_read_len w2" "repo (env_dev w3) = repo (env_dev w2)" "cancels (env_dev w3) \<le> cancels (env_dev w2)"
    using renew [OF w2] by metis
  define itr where "itr = \<lparr>it_reservation = res, it_total = length (repo (env_dev w)), it_next = 0, it_built_in = False\<rparr>"
  show thesis
  proof (rule that)
    show "\<forall>rebuild. sdr_start_by rebuild send False w = Inr (Some itr, w3)"
      using d(1,2) c(1-3) i(1,2) count r(1)
      by (simp add: sdr_start_by_def sdr_send_def with_reservation_def Let_def w2_def itr_def)
    show "at_rest itr (env_dev w3) [] (repo (env_dev w))"
      using assms r(4,5) i(4,5) d(4,5) by (simp add: at_rest_def itr_def closed_def w2_def)
    show "ready w3" "repo (env_dev w3) = repo (env_dev w)" "sdr_list w3 = sdr_list w" "env_intf w3 = env_intf w"
      "use_built_in w3 = use_built_in w" "sdr_list_itr w3 = sdr_list_itr w"
      using assms r c i(4) d(4) by (simp_all add: w2_def same_env_def ready_def closed_def)
  qed
qed

text \<open>Before the first search, or after some.\<close>

definition serves :: "'a sdr_env \<Rightarrow> bool" where
  "serves w \<longleftrightarrow> closed w \<and> sdr_list_itr w = None \<and> sdr_list w = [] \<or> cached w"

lemma open_ok:
  assumes "serves w"
  obtains itr seen rest w' where "sdr_open k send w = Inr (Some itr, w')" "cached w'" "sdr_list_itr w' = Some itr"
    "at_rest itr (env_dev w') seen rest" "sdr_list w' = known_entries seen" "ready w'" "repo (env_dev w') = repo (env_dev w)"
  using assms unfolding serves_def
proof (elim disjE conjE)
  assume c: "closed w" "sdr_list_itr w = None" "sdr_list w = []"
  obtain itr w' where s: "ipmi_sdr_start k send False w = Inr (Some itr, w')" "at_rest itr (env_dev w') [] (repo (env_dev w))"
    "ready w'" "repo (env_dev w') = repo (env_dev w)" "sdr_list w' = sdr_list w"
    using start_ok [OF c(1)] unfolding ipmi_sdr_start_def by metis
  define w1 where "w1 = w'\<lparr>sdr_list_itr := Some itr\<rparr>"
  have w1: "at_rest itr (env_dev w1) [] (repo (env_dev w))" "ready w1" "sdr_list_itr w1 = Some itr" "sdr_list w1 = known_entries []"
    using s c(3) by (simp_all add: w1_def ready_def known_entries_def)
  then have "cached w1"
    by (intro cachedI)
  then show thesis
    using w1 c(2) s(1,4) by (intro that [of itr w1 "[]" "repo (env_dev w)"]) (simp_all add: sdr_open_def w1_def)
next
  assume c: "cached w"
  then obtain itr seen rest where "ready w" "sdr_list_itr w = Some itr" "at_rest itr (env_dev w) seen rest" "sdr_list w = known_entries seen"
    by (auto simp: cached_def)
  then show thesis
    using c by (intro that [of itr w seen rest]) (simp_all add: sdr_open_def)
qed

lemma at_rest_repo: "at_rest itr st seen rest \<Longrightarrow> repo st = seen @ rest"
  by (simp add: at_rest_def)

lemma first_of_ok: "\<forall>e \<in> set es. f e = Inr (g e) \<Longrightarrow> first_of f es = Inr (find g es)"
  by (induction es) auto

lemma select_ok: "\<forall>e \<in> set es. f e = Inr (g e) \<Longrightarrow> select f es = Inr (filter g es)"
  by (induction es) auto

lemma find_append: "find g (xs @ ys) = (case find g xs of None \<Rightarrow> find g ys | Some x \<Rightarrow> Some x)"
  by (induction xs) auto

text \<open>Finding one record, and all.\<close>

lemma find_first_ok:
  assumes "serves w" "509 \<le> k" "length (repo (env_dev w)) < k" "\<forall>e \<in> set (known_entries (repo (env_dev w))). f e = Inr (g e)"
  shows "\<exists>w'. find_first k send f w = Inr (find g (known_entries (repo (env_dev w))), w') \<and> serves w' \<and>
    repo (env_dev w') = repo (env_dev w)"
proof -
  obtain itr seen rest w1 where o: "sdr_open k send w = Inr (Some itr, w1)" "cached w1" "sdr_list_itr w1 = Some itr"
    "at_rest itr (env_dev w1) seen rest" "sdr_list w1 = known_entries seen" "ready w1" "repo (env_dev w1) = repo (env_dev w)"
    by (rule open_ok [OF assms(1)])
  have repo: "repo (env_dev w) = seen @ rest"
    using at_rest_repo [OF o(4)] o(7) by simp
  have first: "first_of f (sdr_list w1) = Inr (find g (known_entries seen))"
    using assms(4) o(5) repo by (simp add: first_of_ok)
  show ?thesis
  proof (cases "find g (known_entries seen)")
    case (Some e)
    then show ?thesis
      using o(1,2,7) first repo by (simp add: find_first_def find_append serves_def)
  next
    case None
    have "\<exists>w'. sdr_scan k k send f True [] itr w1 = Inr (case find g (known_entries rest) of None \<Rightarrow> [] | Some e \<Rightarrow> [e], w') \<and>
      cached w' \<and> repo (env_dev w') = repo (env_dev w1)"
      using assms repo by (intro scan_first [OF o(6,4) assms(2) _ _ o(5)]) simp_all
    then obtain w' where "sdr_scan k k send f True [] itr w1 = Inr (case find g (known_entries rest) of None \<Rightarrow> [] | Some e \<Rightarrow> [e], w')"
      "cached w'" "repo (env_dev w') = repo (env_dev w1)"
      by blast
    then show ?thesis
      using o(1,7) first None repo by (cases "find g (known_entries rest)") (simp_all add: find_first_def find_append serves_def)
  qed
qed

lemma find_all_ok:
  assumes "serves w" "509 \<le> k" "length (repo (env_dev w)) < k" "\<forall>e \<in> set (known_entries (repo (env_dev w))). f e = Inr (g e)"
  shows "\<exists>w'. find_all k send f w = Inr (Some (blank_entry # filter g (known_entries (repo (env_dev w)))), w') \<and> serves w' \<and>
    repo (env_dev w') = repo (env_dev w)"
proof -
  obtain itr seen rest w1 where o: "sdr_open k send w = Inr (Some itr, w1)" "cached w1" "sdr_list_itr w1 = Some itr"
    "at_rest itr (env_dev w1) seen rest" "sdr_list w1 = known_entries seen" "ready w1" "repo (env_dev w1) = repo (env_dev w)"
    by (rule open_ok [OF assms(1)])
  have repo: "repo (env_dev w) = seen @ rest"
    using at_rest_repo [OF o(4)] o(7) by simp
  have sel: "select f (sdr_list w1) = Inr (filter g (known_entries seen))"
    using assms(4) o(5) repo by (simp add: select_ok)
  have "\<exists>w'. sdr_scan k k send f False (filter g (known_entries seen)) itr w1 =
      Inr (filter g (known_entries seen) @ filter g (known_entries rest), w') \<and>
    cached w' \<and> repo (env_dev w') = repo (env_dev w1) \<and> sdr_list w' = known_entries (repo (env_dev w1))"
    using assms repo by (intro scan_all [OF o(6,4) assms(2) _ _ o(5)]) simp_all
  then show ?thesis
    using o(1,7) sel repo by (auto simp: find_all_def serves_def)
qed

lemma list_cache_ok:
  assumes "serves w" "509 \<le> k" "length (repo (env_dev w)) < k"
  shows "\<exists>w'. ipmi_sdr_list_cache k send w = Inr (0, w') \<and> serves w' \<and> repo (env_dev w') = repo (env_dev w) \<and>
    sdr_list w' = known_entries (repo (env_dev w))"
proof -
  obtain itr seen rest w1 where o: "sdr_open k send w = Inr (Some itr, w1)" "cached w1" "sdr_list_itr w1 = Some itr"
    "at_rest itr (env_dev w1) seen rest" "sdr_list w1 = known_entries seen" "ready w1" "repo (env_dev w1) = repo (env_dev w)"
    by (rule open_ok [OF assms(1)])
  have repo: "repo (env_dev w) = seen @ rest"
    using at_rest_repo [OF o(4)] o(7) by simp
  have "\<exists>w'. sdr_scan k k send (\<lambda>e. Inr False) False [] itr w1 = Inr ([] @ filter (\<lambda>e. False) (known_entries rest), w') \<and>
    cached w' \<and> repo (env_dev w') = repo (env_dev w1) \<and> sdr_list w' = known_entries (repo (env_dev w1))"
    using assms repo by (intro scan_all [OF o(6,4) assms(2) _ _ o(5)]) simp_all
  then show ?thesis
    using o(1,7) by (auto simp: ipmi_sdr_list_cache_def serves_def)
qed

end

end
