(* ===== verification/SdrTransfer.thy ===== *)
theory SdrTransfer
  imports SdrHost
begin

text \<open>
  Reading all records of a host, as the dump and the copy do; the functions that fill a repository, under
  the contract \<open>sdr_sink\<close>; and the frame of all these operations, the locale \<open>sdr_frame\<close>: what a single
  request keeps is kept by the whole operation.
\<close>

section \<open>Records that are complete\<close>

text \<open>A record ends with its name, which has no 0 in it; an association has its entity.\<close>

definition wf_record :: "sdr_rec \<Rightarrow> bool" where
  "wf_record r \<longleftrightarrow>
     (case id_code_offset (sr_type r) of
        Some p \<Rightarrow> p < length (sr_body r) \<and> length (sr_body r) = p + 1 + unat (sr_body r ! p AND 0x1f) \<and>
          0 \<notin> set (drop (p + 1) (sr_body r))
      | None \<Rightarrow> sr_type r = 0x08 \<longrightarrow> 2 \<le> length (sr_body r))"

definition raw_entry :: "sdr_rec \<Rightarrow> sdr_entry" where
  "raw_entry r = \<lparr>se_id = sr_id r, se_version = sr_version r, se_type = sr_type r, se_length = of_nat (length (sr_body r)),
     se_raw = Some (sr_body r @ [0]), se_record = None\<rparr>"

lemma id_code_offset_le: "id_code_offset ty = Some p \<Longrightarrow> p \<le> 42"
  by (auto simp: id_code_offset_def split: if_splits)

lemma print_name_ok:
  assumes "wf_record r"
  obtains rc where "ipmi_sdr_print_name_from_rawentry (sr_type r) (Some (sr_body r @ [0])) = Inr rc"
proof (cases "sr_type r = 0x01 \<or> sr_type r = 0x02 \<or> sr_type r = 0x03 \<or> sr_type r = 0x12")
  case True
  then obtain p where p: "id_code_offset (sr_type r) = Some p"
    by (auto simp: id_code_offset_def)
  then have "p < length (sr_body r)"
    using assms by (simp add: wf_record_def)
  then have "ipmi_sdr_print_name_from_rawentry (sr_type r) (Some (sr_body r @ [0])) = Inr 0"
    using True p by (simp add: ipmi_sdr_print_name_from_rawentry_def Let_def)
  then show thesis
    by (rule that)
next
  case False
  then have "ipmi_sdr_print_name_from_rawentry (sr_type r) (Some (sr_body r @ [0])) = Inr (-1)"
    by (simp add: ipmi_sdr_print_name_from_rawentry_def)
  then show thesis
    by (rule that)
qed

context sdr_host
begin

text \<open>One record: its header and its body.\<close>

lemma next_record:
  assumes "ready w" "at_rest itr (env_dev w) seen (r # rest)" "509 \<le> m"
  obtains itr1 w1 itr2 w2 where "ipmi_sdr_get_next_header send itr w = Inr (Some (header_of r (next_id rest)), itr1, w1)"
    "ipmi_sdr_get_record m send (header_of r (next_id rest)) itr1 w1 = Inr (Some (sr_body r @ [0]), itr2, w2)"
    "at_rest itr2 (env_dev w2) (seen @ [r]) rest" "same_env w w2" "ready w2" "repo (env_dev w2) = repo (env_dev w)"
proof -
  obtain itr1 w1 where h: "ipmi_sdr_get_next_header send itr w = Inr (Some (header_of r (next_id rest)), itr1, w1)"
    "at_rest itr1 (env_dev w1) (seen @ [r]) rest" "same_env w w1" "sdr_max_read_len w1 = sdr_max_read_len w"
    "repo (env_dev w1) = repo (env_dev w)"
    using next_header_ok [OF _ assms(2)] assms(1) unfolding ready_def by blast
  have "ready w1"
    using assms(1) h(3,4) by (simp add: ready_def same_env_def)
  then obtain itr2 w2 where r: "ipmi_sdr_get_record m send (header_of r (next_id rest)) itr1 w1 = Inr (Some (sr_body r @ [0]), itr2, w2)"
    "at_rest itr2 (env_dev w2) (seen @ [r]) rest" "same_env w1 w2" "ready w2" "repo (env_dev w2) = repo (env_dev w1)"
    using get_record_ok [OF _ h(2) assms(3)] by blast
  show thesis
    by (rule that [OF h(1) r(1,2) same_env_trans [OF h(3) r(3)] r(4)]) (simp add: r(5) h(5))
qed

lemma full_entry_header: "full_entry (header_of r nxt) (Some (sr_body r @ [0])) = raw_entry r"
  by (simp add: full_entry_def new_entry_def header_of_def raw_entry_def)

lemma dump_records_ok:
  assumes "ready w" "at_rest itr (env_dev w) seen rest" "509 \<le> m" "length rest < k"
  shows "\<exists>w'. dump_records k m send itr w = Inr (True, w') \<and> ready w' \<and> repo (env_dev w') = repo (env_dev w) \<and>
    sdr_list w' = sdr_list w @ map raw_entry rest \<and> sdr_list_itr w' = sdr_list_itr w \<and> use_built_in w' = use_built_in w \<and>
    cancels (env_dev w') \<le> 3"
  using assms
proof (induction rest arbitrary: seen itr w k)
  case Nil
  then show ?case
    using next_header_end [OF Nil.prems(2)] by (cases k) (simp_all add: dump_records.simps at_rest_def)
next
  case (Cons r rest)
  obtain k' where k: "k = Suc k'"
    using Cons.prems(4) by (cases k) auto
  obtain itr1 w1 itr2 w2 where n: "ipmi_sdr_get_next_header send itr w = Inr (Some (header_of r (next_id rest)), itr1, w1)"
    "ipmi_sdr_get_record m send (header_of r (next_id rest)) itr1 w1 = Inr (Some (sr_body r @ [0]), itr2, w2)"
    "at_rest itr2 (env_dev w2) (seen @ [r]) rest" "same_env w w2" "ready w2" "repo (env_dev w2) = repo (env_dev w)"
    by (rule next_record [OF Cons.prems(1-3)])
  define w3 where "w3 = w2\<lparr>sdr_list := sdr_list w2 @ [raw_entry r]\<rparr>"
  have "\<exists>w'. dump_records k' m send itr2 w3 = Inr (True, w') \<and> ready w' \<and> repo (env_dev w') = repo (env_dev w3) \<and>
    sdr_list w' = sdr_list w3 @ map raw_entry rest \<and> sdr_list_itr w' = sdr_list_itr w3 \<and> use_built_in w' = use_built_in w3 \<and>
    cancels (env_dev w') \<le> 3"
    using n(3,5) Cons.prems(3,4) k by (intro Cons.IH) (simp_all add: w3_def ready_def)
  then show ?case
    using n(1,2,4,6) k by (auto simp: dump_records.simps full_entry_header w3_def same_env_def)
qed

lemma get_records_ok:
  assumes "ready w" "at_rest itr (env_dev w) seen rest" "509 \<le> m" "length rest < k" "\<forall>r \<in> set rest. wf_record r"
  shows "\<exists>itr' w'. sdrr_get_records k m send itr queue w = Inr (queue @ map raw_entry rest, itr', w') \<and> same_env w w' \<and> ready w' \<and>
    repo (env_dev w') = repo (env_dev w) \<and> cancels (env_dev w') \<le> 3"
  using assms
proof (induction rest arbitrary: seen itr w k queue)
  case Nil
  then show ?case
    using next_header_end [OF Nil.prems(2)] by (cases k) (simp_all add: sdrr_get_records.simps at_rest_def)
next
  case (Cons r rest)
  obtain k' where k: "k = Suc k'"
    using Cons.prems(4) by (cases k) auto
  obtain itr1 w1 itr2 w2 where n: "ipmi_sdr_get_next_header send itr w = Inr (Some (header_of r (next_id rest)), itr1, w1)"
    "ipmi_sdr_get_record m send (header_of r (next_id rest)) itr1 w1 = Inr (Some (sr_body r @ [0]), itr2, w2)"
    "at_rest itr2 (env_dev w2) (seen @ [r]) rest" "same_env w w2" "ready w2" "repo (env_dev w2) = repo (env_dev w)"
    by (rule next_record [OF Cons.prems(1-3)])
  obtain rc where p: "ipmi_sdr_print_name_from_rawentry (sr_type r) (Some (sr_body r @ [0])) = Inr rc"
    using print_name_ok Cons.prems(5) by (metis list.set_intros(1))
  have "\<exists>itr' w'. sdrr_get_records k' m send itr2 (queue @ [raw_entry r]) w2 = Inr ((queue @ [raw_entry r]) @ map raw_entry rest, itr', w') \<and>
    same_env w2 w' \<and> ready w' \<and> repo (env_dev w') = repo (env_dev w2) \<and> cancels (env_dev w') \<le> 3"
    using n(3,5) Cons.prems(3-5) k by (intro Cons.IH) simp_all
  moreover have "sdrr_get_records k m send itr queue w = sdrr_get_records k' m send itr2 (queue @ [raw_entry r]) w2"
    using n(1,2) p k by (simp add: sdrr_get_records.simps full_entry_header) (simp add: header_of_def)
  ultimately show ?case
    using n(4,6) by (auto intro: same_env_trans)
qed

end

section \<open>Filling a repository\<close>

locale sdr_sink =
  fixes send :: "'s intf_sendrecv" and reach :: "ipmi_intf \<Rightarrow> bool" and stored :: "'s \<Rightarrow> sdr_rec list"
    and current :: "'s \<Rightarrow> u16" and partial :: "'s \<Rightarrow> bytes" and handle :: "'s \<Rightarrow> u16" and parse :: "bytes \<Rightarrow> sdr_rec"
  assumes sink_reserve: "reach i \<Longrightarrow>
      \<exists>rsp st'. send i (mk_rq IPMI_NETFN_STORAGE GET_SDR_RESERVE_REPO []) st = Inr (Some rsp, st') \<and>
        rs_ccode rsp = 0 \<and> of_le16 (rs_data rsp) = current st' \<and> stored st' = stored st"
    and sink_clear: "reach i \<Longrightarrow>
      \<exists>rsp st'. send i (sdr_clear_rq (current st) 0xAA) st = Inr (Some rsp, st') \<and> rs_ccode rsp = 0 \<and> rs_data rsp ! 0 AND 1 = 1 \<and> stored st' = []"
    and sink_first: "reach i \<Longrightarrow>
      \<exists>rsp st'. send i (sdr_add_rq (current st) 0 0 0 d) st = Inr (Some rsp, st') \<and> rs_ccode rsp = 0 \<and> 2 \<le> rs_data_len rsp \<and>
        of_le16 (rs_data rsp) = handle st' \<and> partial st' = d \<and> current st' = current st \<and> stored st' = stored st"
    and sink_more: "reach i \<Longrightarrow> 0 < length (partial st) \<Longrightarrow> length (partial st) \<le> 255 \<Longrightarrow> off = length (partial st) \<Longrightarrow>
      \<exists>rsp st'. send i (sdr_add_rq (current st) (handle st) (of_nat off) 0 d) st = Inr (Some rsp, st') \<and>
        rs_ccode rsp = 0 \<and> 2 \<le> rs_data_len rsp \<and> of_le16 (rs_data rsp) = handle st' \<and> partial st' = partial st @ d \<and>
        current st' = current st \<and> stored st' = stored st"
    and sink_last: "reach i \<Longrightarrow> 0 < length (partial st) \<Longrightarrow> length (partial st) \<le> 255 \<Longrightarrow> off = length (partial st) \<Longrightarrow>
      \<exists>rsp st'. send i (sdr_add_rq (current st) (handle st) (of_nat off) 1 d) st = Inr (Some rsp, st') \<and>
        rs_ccode rsp = 0 \<and> 2 \<le> rs_data_len rsp \<and> stored st' = stored st @ [parse (partial st @ d)]"
begin

definition only_dev :: "'s sdr_env \<Rightarrow> 's sdr_env \<Rightarrow> bool" where
  "only_dev w w' \<longleftrightarrow> w' = w\<lparr>env_dev := env_dev w'\<rparr>"

lemma add_pieces_ok:
  assumes "reach (env_intf w)" "i < len" "len \<le> 250" "len \<le> length raw" "length (partial (env_dev w)) = i + 5"
    "rid = handle (env_dev w)" "res = current (env_dev w)"
  shows "\<exists>w'. add_pieces send res raw len i rid w = Inr (0, w') \<and> only_dev w w' \<and>
    stored (env_dev w') = stored (env_dev w) @ [parse (partial (env_dev w) @ region raw i (len - i))]"
  using assms
proof (induction "len - i" arbitrary: i rid w rule: less_induct)
  case less
  have off: "0 < length (partial (env_dev w))" "length (partial (env_dev w)) \<le> 255" "i + 5 = length (partial (env_dev w))"
    using less.prems(2,3,5) by simp_all
  show ?case
  proof (cases "len - i \<le> sdr_max_write_len")
    case True
    obtain rsp st' where s: "send (env_intf w) (sdr_add_rq res rid (of_nat (i + 5)) 1 (region raw i (len - i))) (env_dev w) = Inr (Some rsp, st')"
      "rs_ccode rsp = 0" "2 \<le> rs_data_len rsp" "stored st' = stored (env_dev w) @ [parse (partial (env_dev w) @ region raw i (len - i))]"
      using sink_last [OF less.prems(1) off] less.prems(6,7) by blast
    have "add_pieces send res raw len i rid w = add_pieces send res raw len len (of_le16 (rs_data rsp)) (w\<lparr>env_dev := st'\<rparr>)"
      using s(1-3) True less.prems(2,4)
      by (subst add_pieces.simps) (simp add: partial_send_def sdr_send_def Let_def)
    also have "\<dots> = Inr (0, w\<lparr>env_dev := st'\<rparr>)"
      by (simp add: add_pieces.simps)
    finally show ?thesis
      using s(4) by (auto simp: only_dev_def)
  next
    case False
    define n where "n = sdr_max_write_len"
    have n: "0 < n" "i + n < len"
      using False by (simp_all add: n_def sdr_max_write_len_def)
    obtain rsp st' where s: "send (env_intf w) (sdr_add_rq res rid (of_nat (i + 5)) 0 (region raw i n)) (env_dev w) = Inr (Some rsp, st')"
      "rs_ccode rsp = 0" "2 \<le> rs_data_len rsp" "of_le16 (rs_data rsp) = handle st'" "partial st' = partial (env_dev w) @ region raw i n"
      "current st' = current (env_dev w)" "stored st' = stored (env_dev w)"
      using sink_more [OF less.prems(1) off] less.prems(6,7) by blast
    define w1 where "w1 = w\<lparr>env_dev := st'\<rparr>"
    have "add_pieces send res raw len i rid w = add_pieces send res raw len (i + n) (handle st') w1"
      using s(1-4) False n less.prems(4)
      by (subst add_pieces.simps) (simp add: partial_send_def sdr_send_def Let_def w1_def n_def)
    moreover have "\<exists>w'. add_pieces send res raw len (i + n) (handle st') w1 = Inr (0, w') \<and> only_dev w1 w' \<and>
      stored (env_dev w') = stored (env_dev w1) @ [parse (partial (env_dev w1) @ region raw (i + n) (len - (i + n)))]"
      using less.prems n s by (intro less.hyps) (simp_all add: w1_def)
    moreover have "region raw i (len - i) = region raw i n @ region raw (i + n) (len - (i + n))"
      using region_add [of raw i n "len - (i + n)"] n by simp
    ultimately show ?thesis
      using s(5,7) by (auto simp: only_dev_def w1_def)
  qed
qed

text \<open>A record that is added is stored: its header and its body.\<close>

lemma add_record_ok:
  assumes "reach (env_intf w)" "se_raw e = Some raw" "0 < unat (se_length e)" "unat (se_length e) \<le> 250" "unat (se_length e) \<le> length raw"
  shows "\<exists>w'. ipmi_sdr_add_record send e w = Inr (0, w') \<and> only_dev w w' \<and>
    stored (env_dev w') = stored (env_dev w) @ [parse (entry_header e @ take (unat (se_length e)) raw)]"
proof -
  obtain r1 st1 where r: "send (env_intf w) (mk_rq IPMI_NETFN_STORAGE GET_SDR_RESERVE_REPO []) (env_dev w) = Inr (Some r1, st1)"
    "rs_ccode r1 = 0" "of_le16 (rs_data r1) = current st1" "stored st1 = stored (env_dev w)"
    using sink_reserve [OF assms(1)] by blast
  obtain r2 st2 where h: "send (env_intf w) (sdr_add_rq (current st1) 0 0 0 (entry_header e)) st1 = Inr (Some r2, st2)"
    "rs_ccode r2 = 0" "2 \<le> rs_data_len r2" "of_le16 (rs_data r2) = handle st2" "partial st2 = entry_header e" "current st2 = current st1"
    "stored st2 = stored st1"
    using sink_first [OF assms(1)] by blast
  define w2 where "w2 = w\<lparr>env_dev := st2\<rparr>"
  have "\<exists>w'. add_pieces send (current st1) raw (unat (se_length e)) 0 (handle st2) w2 = Inr (0, w') \<and> only_dev w2 w' \<and>
    stored (env_dev w') = stored (env_dev w2) @ [parse (partial (env_dev w2) @ region raw 0 (unat (se_length e) - 0))]"
    using assms h by (intro add_pieces_ok) (simp_all add: w2_def entry_header_def)
  moreover have "ipmi_sdr_add_record send e w = add_pieces send (current st1) raw (unat (se_length e)) 0 (handle st2) w2"
    using assms(2,3) r(1-3) h(1-4)
    by (simp add: ipmi_sdr_add_record_def ipmi_sdr_get_reservation_def sdr_netfn_def sdr_send_def partial_send_def Let_def w2_def)
  ultimately show ?thesis
    using r(4) h(5,7) by (auto simp: only_dev_def w2_def region_def)
qed

lemma add_queue_ok:
  assumes "reach (env_intf w)" "\<forall>r \<in> set rs. 0 < length (sr_body r) \<and> length (sr_body r) \<le> 250"
    "\<forall>r \<in> set rs. parse (sdr_bytes r) = r"
  shows "\<exists>w'. add_queue send True 0 (map raw_entry rs) w = Inr (0, w') \<and> only_dev w w' \<and>
    stored (env_dev w') = stored (env_dev w) @ rs"
  using assms
proof (induction rs arbitrary: w)
  case Nil
  then show ?case
    by (simp add: only_dev_def)
next
  case (Cons r rs)
  have len: "unat (of_nat (length (sr_body r)) :: byte) = length (sr_body r)"
    using Cons.prems(2) by (simp add: unat_of_nat)
  have "\<exists>w'. ipmi_sdr_add_record send (raw_entry r) w = Inr (0, w') \<and> only_dev w w' \<and>
    stored (env_dev w') = stored (env_dev w) @
      [parse (entry_header (raw_entry r) @ take (unat (se_length (raw_entry r))) (sr_body r @ [0]))]"
    using Cons.prems(1,2) len by (intro add_record_ok) (simp_all add: raw_entry_def)
  moreover have "entry_header (raw_entry r) @ take (unat (se_length (raw_entry r))) (sr_body r @ [0]) = sdr_bytes r"
    by (simp add: raw_entry_def len entry_header_def sdr_bytes_def)
  ultimately obtain w1 where w1: "ipmi_sdr_add_record send (raw_entry r) w = Inr (0, w1)" "only_dev w w1"
    "stored (env_dev w1) = stored (env_dev w) @ [r]"
    using Cons.prems(3) by auto
  have "reach (env_intf w1)"
    using Cons.prems(1) w1(2) unfolding only_dev_def by (metis sdr_env.simps(1) sdr_env.surjective sdr_env.update_convs(2))
  then have "\<exists>w'. add_queue send True 0 (map raw_entry rs) w1 = Inr (0, w') \<and> only_dev w1 w' \<and>
    stored (env_dev w') = stored (env_dev w1) @ rs"
    using Cons.prems by (intro Cons.IH) simp_all
  then obtain w2 where "add_queue send True 0 (map raw_entry rs) w1 = Inr (0, w2)" "only_dev w1 w2" "stored (env_dev w2) = stored (env_dev w1) @ rs"
    by blast
  moreover have "only_dev w w2"
    using w1(2) \<open>only_dev w1 w2\<close> unfolding only_dev_def by (metis sdr_env.update_convs(2) sdr_env.surjective sdr_env.simps(2))
  ultimately show ?case
    using w1 by auto
qed

lemma repo_clear_ok:
  assumes "reach (env_intf w)"
  shows "\<exists>w'. ipmi_sdr_repo_clear send w = Inr (0, w') \<and> only_dev w w' \<and> stored (env_dev w') = []"
proof -
  obtain r1 st1 where r: "send (env_intf w) (mk_rq IPMI_NETFN_STORAGE GET_SDR_RESERVE_REPO []) (env_dev w) = Inr (Some r1, st1)"
    "rs_ccode r1 = 0" "of_le16 (rs_data r1) = current st1"
    using sink_reserve [OF assms] by blast
  obtain r2 st2 where c: "send (env_intf w) (sdr_clear_rq (current st1) 0xAA) st1 = Inr (Some r2, st2)" "rs_ccode r2 = 0"
    "rs_data r2 ! 0 AND 1 = 1" "stored st2 = []"
    using sink_clear [OF assms] by blast
  have "clear_tries (Suc 4) send (current st1) 0xAA (w\<lparr>env_dev := st1\<rparr>) = Inr (0, w\<lparr>env_dev := st2\<rparr>)"
    using c by (subst clear_tries.simps(2)) (simp add: sdr_send_def)
  then have "ipmi_sdr_repo_clear send w = Inr (0, w\<lparr>env_dev := st2\<rparr>)"
    using r by (simp add: ipmi_sdr_repo_clear_def ipmi_sdr_get_reservation_def sdr_netfn_def sdr_send_def eval_nat_numeral)
  then show ?thesis
    using c(4) by (auto simp: only_dev_def)
qed

end

section \<open>The frame\<close>

text \<open>
  A property of the devices that every request keeps is kept by opening and reading a repository.
\<close>

locale sdr_frame =
  fixes send :: "'s intf_sendrecv" and reach :: "ipmi_intf \<Rightarrow> bool" and kept :: "'s \<Rightarrow> bool"
  assumes frame: "reach i \<Longrightarrow> kept st \<Longrightarrow> send i rq st = Inr (r, st') \<Longrightarrow> kept st'"
begin

definition framed :: "'s sdr_env \<Rightarrow> bool" where
  "framed w \<longleftrightarrow> reach (env_intf w) \<and> kept (env_dev w)"

lemma framed_env [simp]:
  "framed (w\<lparr>sdr_max_read_len := m\<rparr>) = framed w" "framed (w\<lparr>sdriana := x\<rparr>) = framed w" "framed (w\<lparr>use_built_in := u\<rparr>) = framed w"
  by (simp_all add: framed_def)

lemma framed_send: "framed w \<Longrightarrow> sdr_send send rq w = Inr (r, w') \<Longrightarrow> framed w'"
  using frame by (auto simp: framed_def sdr_send_def bind_ok_Inr_iff)

lemma framed_reservation: "framed w \<Longrightarrow> ipmi_sdr_get_reservation send b w = Inr (r, w') \<Longrightarrow> framed w'"
  using framed_send by (auto simp: ipmi_sdr_get_reservation_def bind_ok_Inr_iff split: option.splits if_splits)

lemma framed_tries: "framed w \<Longrightarrow> header_tries k send itr w = Inr (r, itr', w') \<Longrightarrow> framed w'"
proof (induction k arbitrary: itr w)
  case (Suc k)
  obtain ro w1 where s: "sdr_send send (sdr_get_rq (it_built_in itr) (it_reservation itr) (it_next itr) 0 5) w = Inr (ro, w1)"
    using Suc.prems(2) by (auto simp: header_tries.simps bind_ok_Inr_iff)
  have w1: "framed w1"
    by (rule framed_send [OF Suc.prems(1) s])
  show ?case
    using Suc.prems(2) s w1 Suc.IH [OF w1] framed_reservation [OF w1] Suc.IH
    by (fastforce simp: header_tries.simps bind_ok_Inr_iff split: option.splits if_splits)
qed (simp add: header_tries.simps)

lemma framed_next_header: "framed w \<Longrightarrow> ipmi_sdr_get_next_header send itr w = Inr (h, itr', w') \<Longrightarrow> framed w'"
  using framed_tries
  by (fastforce simp: ipmi_sdr_get_next_header_def ipmi_sdr_get_header_def bind_ok_Inr_iff Let_def split: option.splits if_splits)

lemma framed_record_loop: "framed w \<Longrightarrow> record_loop k send rid len i data itr w = Inr (r, itr', w') \<Longrightarrow> framed w'"
proof (induction k arbitrary: i data itr w)
  case (Suc k)
  define n where "n = sdr_piece (len - i) (sdr_max_read_len w)"
  show ?case
  proof (cases "len \<le> i")
    case False
    then obtain ro w1 where s: "sdr_send send (sdr_get_rq (it_built_in itr) (it_reservation itr) rid (of_nat (i + 5)) n) w = Inr (ro, w1)"
      using Suc.prems(2) by (auto simp: record_loop.simps bind_ok_Inr_iff Let_def n_def)
    have w1: "framed w1"
      by (rule framed_send [OF Suc.prems(1) s])
    show ?thesis
      using Suc.prems(2) s w1 False
      by (auto simp: record_loop.simps bind_ok_Inr_iff Let_def n_def split: option.splits if_splits
        dest!: Suc.IH [rotated] framed_reservation [rotated])
  qed (use Suc.prems in \<open>simp add: record_loop.simps\<close>)
qed (simp add: record_loop.simps)

lemma framed_get_record: "framed w \<Longrightarrow> ipmi_sdr_get_record k send h itr w = Inr (r, itr', w') \<Longrightarrow> framed w'"
  by (auto simp: ipmi_sdr_get_record_def init_max_read_def Let_def split: if_splits dest!: framed_record_loop [rotated])

lemma framed_get_records: "framed w \<Longrightarrow> sdrr_get_records k m send itr queue w = Inr (q, itr', w') \<Longrightarrow> framed w'"
proof (induction k arbitrary: itr queue w)
  case (Suc k)
  obtain h itr1 w1 where s: "ipmi_sdr_get_next_header send itr w = Inr (h, itr1, w1)"
    using Suc.prems(2) by (auto simp: sdrr_get_records.simps bind_ok_Inr_iff)
  have w1: "framed w1"
    by (rule framed_next_header [OF Suc.prems(1) s])
  show ?case
    using Suc.prems(2) s w1
    by (auto simp: sdrr_get_records.simps bind_ok_Inr_iff split: option.splits
      dest!: Suc.IH [rotated] framed_get_record [rotated])
qed (simp add: sdrr_get_records.simps)

text \<open>Opening, when nothing has to be rebuilt.\<close>

lemma framed_with_reservation: "framed w \<Longrightarrow> with_reservation send b n w = Inr (r, w') \<Longrightarrow> framed w'"
  using framed_reservation by (auto simp: with_reservation_def bind_ok_Inr_iff)

lemma framed_choose: "framed w \<Longrightarrow> choose_source b d w = (r, w') \<Longrightarrow> framed w'"
  by (auto simp: choose_source_def Let_def split: if_splits)

lemma framed_start:
  assumes "framed w" "sdr_start_by (\<lambda>w. Inl Unfinished) send b w = Inr (r, w')"
  shows "framed w'"
proof -
  obtain ro w1 where s: "sdr_send send (mk_rq IPMI_NETFN_APP BMC_GET_DEVICE_ID []) w = Inr (ro, w1)"
    using assms(2) by (auto simp: sdr_start_by_def bind_ok_Inr_iff)
  have w1: "framed w1"
    by (rule framed_send [OF assms(1) s])
  show ?thesis
  proof (cases "\<exists>rsp. ro = Some rsp \<and> rs_ccode rsp = 0")
    case False
    then show ?thesis
      using assms(2) s w1 by (auto simp: sdr_start_by_def split: option.splits)
  next
    case True
    then obtain rsp c w2 where c: "ro = Some rsp" "rs_ccode rsp = 0" "choose_source b (rs_data rsp) w1 = (c, w2)"
      by (metis prod.exhaust)
    have w2: "framed w2"
      by (rule framed_choose [OF w1 c(3)])
    show ?thesis
      using assms(2) s c w2
      by (auto simp: sdr_start_by_def bind_ok_Inr_iff Let_def split: option.splits bool.splits if_splits
        dest!: framed_send [rotated] framed_with_reservation [rotated])
  qed
qed

text \<open>Filling keeps it as well.\<close>

lemma framed_partial: "framed w \<Longrightarrow> partial_send send rq w = Inr (r, w') \<Longrightarrow> framed w'"
  using framed_send by (auto simp: partial_send_def bind_ok_Inr_iff split: option.splits if_splits)

lemma framed_pieces: "framed w \<Longrightarrow> add_pieces send res raw len i rid w = Inr (rc, w') \<Longrightarrow> framed w'"
proof (induction "len - i" arbitrary: i rid w rule: less_induct)
  case less
  show ?case
  proof (cases "len \<le> i")
    case True
    then show ?thesis
      using less.prems by (simp add: add_pieces.simps)
  next
    case False
    define final where "final = (len - i \<le> sdr_max_write_len)"
    define n where "n = (if final then len - i else sdr_max_write_len)"
    obtain x w1 where s: "partial_send send (sdr_add_rq res rid (of_nat (i + 5)) (if final then 1 else 0) (region raw i n)) w = Inr (x, w1)"
      "(case x of None \<Rightarrow> Inr (-1, w1) | Some rid1 \<Rightarrow> add_pieces send res raw len (i + n) rid1 w1) = Inr (rc, w')"
      using less.prems(2) [unfolded add_pieces.simps [of send res raw len i rid w] Let_def, folded final_def, folded n_def] False
      by (auto simp: bind_ok_Inr_iff split: if_split_asm)
    have "len - (i + n) < len - i"
      using False by (auto simp: n_def final_def sdr_max_write_len_def)
    then show ?thesis
      using s less.hyps framed_partial [OF less.prems(1) s(1)] by (auto split: option.splits)
  qed
qed

lemma framed_add_record: "framed w \<Longrightarrow> ipmi_sdr_add_record send e w = Inr (rc, w') \<Longrightarrow> framed w'"
  by (auto simp: ipmi_sdr_add_record_def bind_ok_Inr_iff Let_def split: option.splits if_splits
    dest!: framed_reservation [rotated] framed_partial [rotated] framed_pieces [rotated])

lemma framed_add_queue: "framed w \<Longrightarrow> add_queue send ended rc0 es w = Inr (rc, w') \<Longrightarrow> framed w'"
proof (induction es arbitrary: rc0 w)
  case (Cons e es)
  then show ?case
    by (auto simp: bind_ok_Inr_iff split: if_splits dest!: framed_add_record [rotated] Cons.IH [rotated])
qed simp

lemma framed_clear_tries: "framed w \<Longrightarrow> clear_tries k send res act w = Inr (rc, w') \<Longrightarrow> framed w'"
proof (induction k arbitrary: act w)
  case (Suc k)
  then show ?case
    by (auto simp: bind_ok_Inr_iff split: option.splits if_splits dest!: framed_send [rotated] Suc.IH [rotated])
qed simp

lemma framed_repo_clear: "framed w \<Longrightarrow> ipmi_sdr_repo_clear send w = Inr (rc, w') \<Longrightarrow> framed w'"
  by (auto simp: ipmi_sdr_repo_clear_def bind_ok_Inr_iff split: option.splits
    dest!: framed_reservation [rotated] framed_clear_tries [rotated])

end

end
