(* ===== verification/SdrBus.thy ===== *)
theory SdrBus
  imports SdrTransfer
begin

text \<open>
  Controllers with repositories on a bus, addressed by the target address of the interface. Each takes
  reservations, answers for its records in pieces of at most \<open>limit\<close> bytes, cancels a reservation when one of the
  requests listed in \<open>dv_due\<close> comes, takes new records in parts, and erases its repository. They are the
  providers of \<open>sdr_host\<close> and of \<open>sdr_sink\<close>, the contract of the functions that fill a repository.
\<close>

section \<open>The device\<close>

record sdr_dev =
  dv_records :: "sdr_rec list"
  dv_current :: u16
  dv_due :: "nat list"
  dv_partial :: bytes
  dv_handle :: u16

definition parse_rec :: "bytes \<Rightarrow> sdr_rec" where
  "parse_rec d = \<lparr>sr_id = of_le16 d, sr_version = d ! 2, sr_type = d ! 3, sr_body = drop 5 d\<rparr>"

definition dev_get :: "nat \<Rightarrow> bytes \<Rightarrow> sdr_dev \<Rightarrow> (byte \<times> bytes) \<times> sdr_dev" where
  "dev_get limit dat d =
     (if of_le16 dat \<noteq> dv_current d then ((0xc5, []), d)
      else if dv_due d \<noteq> [] \<and> hd (dv_due d) = 0 then ((0xc5, []), d\<lparr>dv_current := dv_current d + 1, dv_due := tl (dv_due d)\<rparr>)
      else let d1 = d\<lparr>dv_due := (case dv_due d of [] \<Rightarrow> [] | n # ns \<Rightarrow> (n - 1) # ns)\<rparr> in
        case sdr_lookup (of_le16 (drop 2 dat)) (dv_records d) of
          None \<Rightarrow> ((0xcb, []), d1)
        | Some (r, nxt) \<Rightarrow>
            if limit < unat (dat ! 5) then ((0xca, []), d1)
            else ((0, le16 nxt @ region (sdr_bytes r) (unat (dat ! 4)) (unat (dat ! 5))), d1))"

definition dev_add :: "bytes \<Rightarrow> sdr_dev \<Rightarrow> (byte \<times> bytes) \<times> sdr_dev" where
  "dev_add dat d =
     (if of_le16 dat \<noteq> dv_current d then ((0xc5, []), d)
      else let off = unat (dat ! 4); body = drop 6 dat; h = dv_handle d + 1 in
        if off = 0 then ((0, le16 h), d\<lparr>dv_partial := body, dv_handle := h\<rparr>)
        else if of_le16 (drop 2 dat) \<noteq> dv_handle d \<or> off \<noteq> length (dv_partial d) then ((0x80, []), d)
        else if dat ! 5 = 0 then ((0, le16 (dv_handle d)), d\<lparr>dv_partial := dv_partial d @ body\<rparr>)
        else ((0, le16 (dv_handle d)), d\<lparr>dv_records := dv_records d @ [parse_rec (dv_partial d @ body)], dv_partial := []\<rparr>))"

definition dev_clear :: "bytes \<Rightarrow> sdr_dev \<Rightarrow> (byte \<times> bytes) \<times> sdr_dev" where
  "dev_clear dat d =
     (if of_le16 dat \<noteq> dv_current d then ((0xc5, []), d)
      else ((0, [1]), if dat ! 5 = 0xAA then d\<lparr>dv_records := []\<rparr> else d))"

definition dev_answer :: "nat \<Rightarrow> ipmi_rq \<Rightarrow> sdr_dev \<Rightarrow> (byte \<times> bytes) \<times> sdr_dev" where
  "dev_answer limit rq d =
     (if rq_netfn rq = IPMI_NETFN_APP \<and> rq_cmd rq = BMC_GET_DEVICE_ID then
        ((0, [0x20, 0x81, 1, 0, 2, 0x02, 0, 0, 0, 0, 0]), d)
      else if rq_netfn rq \<noteq> IPMI_NETFN_STORAGE then ((0xc1, []), d)
      else if rq_cmd rq = GET_SDR_REPO_INFO then
        ((0, [0x51] @ le16 (of_nat (length (dv_records d))) @ replicate 11 0), d)
      else if rq_cmd rq = GET_SDR_RESERVE_REPO then ((0, le16 (dv_current d + 1)), d\<lparr>dv_current := dv_current d + 1\<rparr>)
      else if rq_cmd rq = GET_SDR then dev_get limit (rq_data rq) d
      else if rq_cmd rq = ADD_PARTIAL_SDR then dev_add (rq_data rq) d
      else if rq_cmd rq = 0x27 then dev_clear (rq_data rq) d
      else ((0xc1, []), d))"

type_synonym sdr_bus = "u32 \<Rightarrow> sdr_dev"

definition sdr_bus :: "nat \<Rightarrow> sdr_bus intf_sendrecv" where
  "sdr_bus limit i rq b =
     (let ((cc, dat), d) = dev_answer limit rq (b (target_addr i)) in
      Inr (Some (reply cc dat), b(target_addr i := d)))"

text \<open>Only the addresses in \<open>on\<close> answer; a request to another one times out.\<close>

definition slot_bus :: "(u32 \<Rightarrow> bool) \<Rightarrow> nat \<Rightarrow> sdr_bus intf_sendrecv" where
  "slot_bus on limit i rq b = (if on (target_addr i) then sdr_bus limit i rq b else Inr (None, b))"

lemma sdr_bus_eq:
  "dev_answer limit rq (b (target_addr i)) = ((cc, dat), d) \<Longrightarrow> sdr_bus limit i rq b = Inr (Some (reply cc dat), b(target_addr i := d))"
  by (simp add: sdr_bus_def)

lemmas sdr_cmd_defs = IPMI_NETFN_APP_def IPMI_NETFN_STORAGE_def IPMI_NETFN_SE_def BMC_GET_DEVICE_ID_def GET_SDR_REPO_INFO_def
  GET_SDR_RESERVE_REPO_def GET_SDR_def ADD_PARTIAL_SDR_def GET_DEVICE_SDR_def GET_DEVICE_SDR_INFO_def

text \<open>The parts of the requests.\<close>

lemma sdr_get_rq_sel:
  "rq_netfn (sdr_get_rq False res rid off n) = IPMI_NETFN_STORAGE" "rq_cmd (sdr_get_rq False res rid off n) = GET_SDR"
  "of_le16 (rq_data (sdr_get_rq False res rid off n)) = res" "of_le16 (drop 2 (rq_data (sdr_get_rq False res rid off n))) = rid"
  "rq_data (sdr_get_rq False res rid off n) ! 4 = off" "rq_data (sdr_get_rq False res rid off n) ! 5 = n"
  by (simp_all add: sdr_get_rq_def sdr_netfn_def nth_append)

lemma sdr_add_rq_sel:
  "rq_netfn (sdr_add_rq res rid off p d) = IPMI_NETFN_STORAGE" "rq_cmd (sdr_add_rq res rid off p d) = ADD_PARTIAL_SDR"
  "of_le16 (rq_data (sdr_add_rq res rid off p d)) = res" "of_le16 (drop 2 (rq_data (sdr_add_rq res rid off p d))) = rid"
  "rq_data (sdr_add_rq res rid off p d) ! 4 = off" "rq_data (sdr_add_rq res rid off p d) ! 5 = p"
  "drop 6 (rq_data (sdr_add_rq res rid off p d)) = d"
  by (simp_all add: sdr_add_rq_def nth_append)

lemma take_reply_all: "length d \<le> 1024 \<Longrightarrow> n = length d \<Longrightarrow> take n (rs_data (reply cc d)) = d"
  by (simp add: take_reply)

lemma of_le16_reply [simp]: "of_le16 (rs_data (reply cc (le16 x))) = x"
  by (simp add: reply_def put_at_def)

lemma dev_get_cases:
  assumes "sdr_lookup rid (dv_records d) = Some (r, nxt)" "off + n \<le> length (sdr_bytes r)" "off + n \<le> 255"
  obtains (cancelled) d' where "dev_answer limit (sdr_get_rq False res rid (of_nat off) (of_nat n)) d = ((0xc5, []), d')"
      "dv_records d' = dv_records d" "if res = dv_current d then length (dv_due d') < length (dv_due d) else d' = d"
  | (long) d' where "dev_answer limit (sdr_get_rq False res rid (of_nat off) (of_nat n)) d = ((0xca, []), d')"
      "dv_records d' = dv_records d" "length (dv_due d') = length (dv_due d)" "dv_current d' = dv_current d" "limit < n"
  | (fine) d' where "dev_answer limit (sdr_get_rq False res rid (of_nat off) (of_nat n)) d = ((0, le16 nxt @ region (sdr_bytes r) off n), d')"
      "dv_records d' = dv_records d" "length (dv_due d') = length (dv_due d)" "dv_current d' = dv_current d" "n \<le> limit"
proof -
  define d1 where "d1 = d\<lparr>dv_due := (case dv_due d of [] \<Rightarrow> [] | n # ns \<Rightarrow> (n - 1) # ns)\<rparr>"
  have d1: "dv_records d1 = dv_records d" "length (dv_due d1) = length (dv_due d)" "dv_current d1 = dv_current d"
    by (simp_all add: d1_def split: list.splits)
  have u: "unat (of_nat off :: byte) = off" "unat (of_nat n :: byte) = n"
    using assms(3) by (simp_all add: unat_of_nat)
  have a: "dev_answer limit (sdr_get_rq False res rid (of_nat off) (of_nat n)) d =
      dev_get limit (rq_data (sdr_get_rq False res rid (of_nat off) (of_nat n))) d"
    by (simp add: dev_answer_def sdr_get_rq_sel) (simp add: sdr_cmd_defs)
  consider "res \<noteq> dv_current d" | "res = dv_current d" "dv_due d \<noteq> []" "hd (dv_due d) = 0"
    | "res = dv_current d" "\<not> (dv_due d \<noteq> [] \<and> hd (dv_due d) = 0)" by fast
  then show thesis
  proof cases
    case 1
    then show thesis
      by (intro cancelled [of d]) (simp_all add: a dev_get_def sdr_get_rq_sel)
  next
    case 2
    then show thesis
      by (intro cancelled [of "d\<lparr>dv_current := dv_current d + 1, dv_due := tl (dv_due d)\<rparr>"])
        (simp_all add: a [unfolded 2(1)] dev_get_def sdr_get_rq_sel)
  next
    case 3
    then have g: "dev_get limit (rq_data (sdr_get_rq False res rid (of_nat off) (of_nat n))) d =
        (if limit < n then ((0xca, []), d1) else ((0, le16 nxt @ region (sdr_bytes r) off n), d1))"
      using assms(1) by (auto simp: dev_get_def sdr_get_rq_sel u d1_def Let_def)
    show thesis
    proof (cases "limit < n")
      case True
      then show thesis
        using g d1 by (intro long [of d1]) (simp_all add: a)
    next
      case False
      then show thesis
        using g d1 by (intro fine [of d1]) (simp_all add: a)
    qed
  qed
qed

text \<open>
  The bus with devices that answer at most \<open>extra + 5\<close> bytes: every address of it is a host.
\<close>

lemma bus_reserve:
  assumes "target_addr i = a"
  shows "\<exists>rsp st'. sdr_bus n i (mk_rq IPMI_NETFN_STORAGE GET_SDR_RESERVE_REPO []) st = Inr (Some rsp, st') \<and>
    rs_ccode rsp = 0 \<and> of_le16 (rs_data rsp) = dv_current (st' a) \<and> dv_records (st' a) = dv_records (st a) \<and>
    length (dv_due (st' a)) \<le> length (dv_due (st a))"
proof -
  have "dev_answer n (mk_rq IPMI_NETFN_STORAGE GET_SDR_RESERVE_REPO []) (st a) =
      ((0, le16 (dv_current (st a) + 1)), (st a)\<lparr>dv_current := dv_current (st a) + 1\<rparr>)"
    by (simp add: dev_answer_def) (simp add: sdr_cmd_defs)
  then show ?thesis
    using assms by (auto simp: sdr_bus_def)
qed

lemma bus_get:
  assumes at: "target_addr i = a" and l: "sdr_lookup rid (dv_records (st a)) = Some (r, nxt)" "0 < n" "off + n \<le> length (sdr_bytes r)" "off + n \<le> 255"
  shows "\<exists>ro st'. sdr_bus m i (sdr_get_rq False res rid (of_nat off) (of_nat n)) st = Inr (ro, st') \<and> dv_records (st' a) = dv_records (st a) \<and>
        ((\<exists>rsp. ro = Some rsp \<and> rs_ccode rsp = IPMI_CC_RES_CANCELED) \<and>
            (if res = dv_current (st a) then length (dv_due (st' a)) < length (dv_due (st a)) else length (dv_due (st' a)) \<le> length (dv_due (st a))) \<or>
         length (dv_due (st' a)) \<le> length (dv_due (st a)) \<and> dv_current (st' a) = dv_current (st a) \<and>
           (if m < n then (\<forall>rsp. ro = Some rsp \<longrightarrow> rs_ccode rsp = IPMI_CC_CANT_RET_NUM_REQ_BYTES)
            else \<exists>rsp. ro = Some rsp \<and> rs_ccode rsp = 0 \<and> rs_data_len rsp = int n + 2 \<and>
              take (n + 2) (rs_data rsp) = le16 nxt @ region (sdr_bytes r) off n))"
proof (cases rule: dev_get_cases [OF l(1,3,4), of m res, case_names cancelled long fine])
  case (cancelled d')
  have "sdr_bus m i (sdr_get_rq False res rid (of_nat off) (of_nat n)) st = Inr (Some (reply 0xc5 []), st(a := d'))"
    using sdr_bus_eq [of m _ st i] cancelled(1) at by simp
  then show ?thesis
    using cancelled(2,3)
    by (intro exI [of _ "Some (reply 0xc5 [])"] exI [of _ "st(a := d')"]) (auto simp: IPMI_CC_RES_CANCELED_def split: if_splits)
next
  case (long d')
  have "sdr_bus m i (sdr_get_rq False res rid (of_nat off) (of_nat n)) st = Inr (Some (reply 0xca []), st(a := d'))"
    using sdr_bus_eq [of m _ st i] long(1) at by simp
  then show ?thesis
    using long(2-5)
    by (intro exI [of _ "Some (reply 0xca [])"] exI [of _ "st(a := d')"]) (simp add: IPMI_CC_CANT_RET_NUM_REQ_BYTES_def)
next
  case (fine d')
  have b: "sdr_bus m i (sdr_get_rq False res rid (of_nat off) (of_nat n)) st =
      Inr (Some (reply 0 (le16 nxt @ region (sdr_bytes r) off n)), st(a := d'))"
    using sdr_bus_eq [of m _ st i] fine(1) at by simp
  have len: "length (le16 nxt @ region (sdr_bytes r) off n) = n + 2"
    using l(3) by simp
  have "take (n + 2) (rs_data (reply 0 (le16 nxt @ region (sdr_bytes r) off n))) = le16 nxt @ region (sdr_bytes r) off n"
    using len l(4) by (intro take_reply_all) simp_all
  moreover have "rs_data_len (reply 0 (le16 nxt @ region (sdr_bytes r) off n)) = int n + 2"
    using len by simp
  ultimately show ?thesis
    using b fine(2-5)
    by (intro exI [of _ "Some (reply 0 (le16 nxt @ region (sdr_bytes r) off n))"] exI [of _ "st(a := d')"]) simp
qed

lemma bus_devid:
  assumes "target_addr i = a"
  shows "\<exists>rsp st'. sdr_bus n i (mk_rq IPMI_NETFN_APP BMC_GET_DEVICE_ID []) st = Inr (Some rsp, st') \<and> rs_ccode rsp = 0 \<and>
    rs_data rsp ! 5 AND 0x02 \<noteq> 0 \<and> dv_records (st' a) = dv_records (st a) \<and> length (dv_due (st' a)) \<le> length (dv_due (st a))"
proof -
  have "dev_answer n (mk_rq IPMI_NETFN_APP BMC_GET_DEVICE_ID []) (st a) = ((0, [0x20, 0x81, 1, 0, 2, 0x02, 0, 0, 0, 0, 0]), st a)"
    by (simp add: dev_answer_def)
  then show ?thesis
    using assms by (auto simp: sdr_bus_def)
qed

lemma bus_info:
  assumes "target_addr i = a"
  shows "\<exists>rsp st'. sdr_bus n i (mk_rq IPMI_NETFN_STORAGE GET_SDR_REPO_INFO []) st = Inr (Some rsp, st') \<and> rs_ccode rsp = 0 \<and>
    of_le16 (drop 1 (rs_data rsp)) = of_nat (length (dv_records (st a))) \<and> dv_records (st' a) = dv_records (st a) \<and>
    length (dv_due (st' a)) \<le> length (dv_due (st a))"
proof -
  let ?d = "[0x51] @ le16 (of_nat (length (dv_records (st a)))) @ replicate 11 (0 :: byte)"
  have "dev_answer n (mk_rq IPMI_NETFN_STORAGE GET_SDR_REPO_INFO []) (st a) = ((0, ?d), st a)"
    by (simp add: dev_answer_def) (simp add: sdr_cmd_defs)
  then have "sdr_bus n i (mk_rq IPMI_NETFN_STORAGE GET_SDR_REPO_INFO []) st = Inr (Some (reply 0 ?d), st)"
    using sdr_bus_eq [of n _ st i] assms by (simp add: fun_upd_idem)
  moreover have "drop 1 (rs_data (reply 0 ?d)) = le16 (of_nat (length (dv_records (st a)))) @ drop 3 (rs_data (reply 0 ?d))"
    by (simp add: reply_def put_at_def)
  then have "of_le16 (drop 1 (rs_data (reply 0 ?d))) = of_nat (length (dv_records (st a)))"
    by (simp only: of_le16_append)
  ultimately show ?thesis
    by (intro exI [of _ "reply 0 ?d"] exI [of _ st]) simp
qed

interpretation bus: sdr_host "slot_bus on (extra + 5)" "\<lambda>i. target_addr i = a \<and> on (target_addr i)" "\<lambda>b. dv_records (b a)" "\<lambda>b. dv_current (b a)"
  "\<lambda>b. length (dv_due (b a))" "extra + 5" for on extra a
proof
  show "5 \<le> extra + 5"
    by simp
qed (elim conjE, simp only: slot_bus_def if_True, (rule bus_reserve bus_get bus_devid bus_info; assumption))+

text \<open>Every address of it takes records.\<close>

lemma dev_add_rq: "dev_answer n (sdr_add_rq res rid off p x) d = dev_add (rq_data (sdr_add_rq res rid off p x)) d"
  by (simp add: dev_answer_def sdr_add_rq_sel) (simp add: sdr_cmd_defs)

lemma bus_clear:
  assumes "target_addr i = a"
  shows "\<exists>rsp st'. sdr_bus n i (sdr_clear_rq (dv_current (st a)) 0xAA) st = Inr (Some rsp, st') \<and> rs_ccode rsp = 0 \<and>
    rs_data rsp ! 0 AND 1 = 1 \<and> dv_records (st' a) = []"
proof -
  have "dev_answer n (sdr_clear_rq (dv_current (st a)) 0xAA) (st a) = ((0, [1]), (st a)\<lparr>dv_records := []\<rparr>)"
    by (simp add: dev_answer_def sdr_clear_rq_def) (simp add: sdr_cmd_defs dev_clear_def nth_append)
  then show ?thesis
    using assms by (auto simp: sdr_bus_def)
qed

lemma bus_first:
  assumes "target_addr i = a"
  shows "\<exists>rsp st'. sdr_bus n i (sdr_add_rq (dv_current (st a)) 0 0 0 d) st = Inr (Some rsp, st') \<and> rs_ccode rsp = 0 \<and>
    2 \<le> rs_data_len rsp \<and> of_le16 (rs_data rsp) = dv_handle (st' a) \<and> dv_partial (st' a) = d \<and>
    dv_current (st' a) = dv_current (st a) \<and> dv_records (st' a) = dv_records (st a)"
proof -
  have "dev_answer n (sdr_add_rq (dv_current (st a)) 0 0 0 d) (st a) =
      ((0, le16 (dv_handle (st a) + 1)), (st a)\<lparr>dv_partial := d, dv_handle := dv_handle (st a) + 1\<rparr>)"
    by (simp add: dev_add_rq dev_add_def sdr_add_rq_sel Let_def)
  then show ?thesis
    using assms by (auto simp: sdr_bus_def)
qed

lemma bus_add:
  assumes "target_addr i = a" "0 < length (dv_partial (st a))" "length (dv_partial (st a)) \<le> 255" "off = length (dv_partial (st a))" "p = 0 \<or> p = 1"
  shows "sdr_bus n i (sdr_add_rq (dv_current (st a)) (dv_handle (st a)) (of_nat off) p d) st =
    Inr (Some (reply 0 (le16 (dv_handle (st a)))),
      st(a := if p = 0 then (st a)\<lparr>dv_partial := dv_partial (st a) @ d\<rparr>
              else (st a)\<lparr>dv_records := dv_records (st a) @ [parse_rec (dv_partial (st a) @ d)], dv_partial := []\<rparr>))"
proof -
  have "unat (of_nat off :: byte) = off" "off \<noteq> 0"
    using assms(2-4) by (simp_all add: unat_of_nat)
  then show ?thesis
    using assms by (auto simp: sdr_bus_def dev_add_rq dev_add_def sdr_add_rq_sel Let_def)
qed

interpretation store: sdr_sink "slot_bus on n" "\<lambda>i. target_addr i = a \<and> on (target_addr i)" "\<lambda>b. dv_records (b a)" "\<lambda>b. dv_current (b a)"
  "\<lambda>b. dv_partial (b a)" "\<lambda>b. dv_handle (b a)" parse_rec for on n a
proof
  fix i :: ipmi_intf and st :: sdr_bus and off d
  assume on: "target_addr i = a \<and> on (target_addr i)"
  then have at: "target_addr i = a" and s: "slot_bus on n i = sdr_bus n i"
    by (auto simp: slot_bus_def intro!: ext)
  show "\<exists>rsp st'. slot_bus on n i (mk_rq IPMI_NETFN_STORAGE GET_SDR_RESERVE_REPO []) st = Inr (Some rsp, st') \<and>
      rs_ccode rsp = 0 \<and> of_le16 (rs_data rsp) = dv_current (st' a) \<and> dv_records (st' a) = dv_records (st a)"
    unfolding s using bus_reserve [OF at] by blast
  show "\<exists>rsp st'. slot_bus on n i (sdr_clear_rq (dv_current (st a)) 0xAA) st = Inr (Some rsp, st') \<and> rs_ccode rsp = 0 \<and>
      rs_data rsp ! 0 AND 1 = 1 \<and> dv_records (st' a) = []"
    unfolding s by (rule bus_clear [OF at])
  show "\<exists>rsp st'. slot_bus on n i (sdr_add_rq (dv_current (st a)) 0 0 0 d) st = Inr (Some rsp, st') \<and> rs_ccode rsp = 0 \<and>
      2 \<le> rs_data_len rsp \<and> of_le16 (rs_data rsp) = dv_handle (st' a) \<and> dv_partial (st' a) = d \<and>
      dv_current (st' a) = dv_current (st a) \<and> dv_records (st' a) = dv_records (st a)"
    unfolding s by (rule bus_first [OF at])
  assume p: "0 < length (dv_partial (st a))" "length (dv_partial (st a)) \<le> 255" "off = length (dv_partial (st a))"
  show "\<exists>rsp st'. slot_bus on n i (sdr_add_rq (dv_current (st a)) (dv_handle (st a)) (of_nat off) 0 d) st = Inr (Some rsp, st') \<and>
      rs_ccode rsp = 0 \<and> 2 \<le> rs_data_len rsp \<and> of_le16 (rs_data rsp) = dv_handle (st' a) \<and> dv_partial (st' a) = dv_partial (st a) @ d \<and>
      dv_current (st' a) = dv_current (st a) \<and> dv_records (st' a) = dv_records (st a)"
    unfolding s using bus_add [where st = st, OF at p, of 0] by auto
  show "\<exists>rsp st'. slot_bus on n i (sdr_add_rq (dv_current (st a)) (dv_handle (st a)) (of_nat off) 1 d) st = Inr (Some rsp, st') \<and>
      rs_ccode rsp = 0 \<and> 2 \<le> rs_data_len rsp \<and> dv_records (st' a) = dv_records (st a) @ [parse_rec (dv_partial (st a) @ d)]"
    unfolding s using bus_add [where st = st, OF at p, of 1] by auto
qed

text \<open>A request changes the device it is sent to, and no other.\<close>

interpretation others: sdr_frame "slot_bus on n" "\<lambda>i. target_addr i = a" "\<lambda>b. c = a \<or> b c = d" for on n a c d
  by unfold_locales (auto simp: slot_bus_def sdr_bus_def split: prod.splits if_splits)

lemma parse_sdr_bytes: "parse_rec (sdr_bytes r) = r"
proof -
  have "of_le16 (sdr_bytes r) = sr_id r"
    unfolding sdr_bytes_def by (rule of_le16_append)
  moreover have "sdr_bytes r ! 2 = sr_version r" "sdr_bytes r ! 3 = sr_type r" "drop 5 (sdr_bytes r) = sr_body r"
    by (simp_all add: sdr_bytes_def nth_append)
  ultimately show ?thesis
    by (simp add: parse_rec_def)
qed

end
