(* ===== verification/SdrSearch.thy ===== *)
theory SdrSearch
  imports SdrBus
begin

text \<open>
  What searching promises, over a host of the bus: any sequence of searches gives the answers of the whole
  repository, the list in memory ends up holding its known records, and a dump can be loaded as a cache.
\<close>

section \<open>Queries\<close>

datatype sdr_query = By_Num u16 byte byte | By_Sensor_Type byte | By_Entity byte byte | By_Type byte | By_Id bytes

text \<open>The code for a query, the list elements it returns without the blank one.\<close>

definition run_query :: "nat \<Rightarrow> 's intf_sendrecv \<Rightarrow> sdr_query \<Rightarrow> 's sdr_env \<Rightarrow> (sdr_entry list \<times> 's sdr_env) outcome" where
  "run_query k send q w =
     (let one = (\<lambda>(e, w1). Inr (case e of None \<Rightarrow> [] | Some x \<Rightarrow> [x], w1));
          many = (\<lambda>(es, w1). Inr (case es of None \<Rightarrow> [] | Some xs \<Rightarrow> tl xs, w1))
      in case q of
           By_Num gen_id num ty \<Rightarrow> bind_ok (ipmi_sdr_find_sdr_bynumtype k send gen_id num ty w) one
         | By_Sensor_Type ty \<Rightarrow> bind_ok (ipmi_sdr_find_sdr_bysensortype k send ty w) many
         | By_Entity ent inst \<Rightarrow> bind_ok (ipmi_sdr_find_sdr_byentity k send ent inst w) many
         | By_Type ty \<Rightarrow> bind_ok (ipmi_sdr_find_sdr_bytype k send ty w) many
         | By_Id name \<Rightarrow> bind_ok (ipmi_sdr_find_sdr_byid k send (Some name) w) one)"

primrec run_queries :: "nat \<Rightarrow> 's intf_sendrecv \<Rightarrow> sdr_query list \<Rightarrow> 's sdr_env \<Rightarrow> (sdr_entry list list \<times> 's sdr_env) outcome" where
  "run_queries k send [] w = Inr ([], w)"
| "run_queries k send (q # qs) w =
     bind_ok (run_query k send q w) (\<lambda>(a, w1). bind_ok (run_queries k send qs w1) (\<lambda>(as, w2). Inr (a # as, w2)))"

text \<open>What a query asks of a record, and its answer over a repository.\<close>

definition name_of :: "sdr_rec \<Rightarrow> bytes option" where
  "name_of r = map_option (\<lambda>p. drop (p + 1) (sr_body r)) (id_code_offset (sr_type r))"

fun accepts :: "sdr_query \<Rightarrow> sdr_rec \<Rightarrow> bool" where
  "accepts (By_Num gen_id num ty) r =
     (sr_body r ! 2 = num \<and> sr_body r ! 0 = ucast (gen_id AND 0xFF) \<and>
       (is_sensor (sr_type r) \<and> sr_body r ! 7 = ty \<or> sr_type r = 0x03 \<and> sr_body r ! 5 = ty))"
| "accepts (By_Sensor_Type ty) r =
     (is_sensor (sr_type r) \<and> sr_body r ! 7 = ty \<or> sr_type r = 0x03 \<and> sr_body r ! 5 = ty)"
| "accepts (By_Entity ent inst) r =
     (case entity_offset (sr_type r) of
        None \<Rightarrow> False
      | Some p \<Rightarrow> sr_body r ! p = ent \<and> (inst AND 0x7f = 0x7f \<or> sr_body r ! (p + 1) AND 0x7f = inst AND 0x7f))"
| "accepts (By_Type ty) r = (sr_type r = ty)"
| "accepts (By_Id name) r = (name_of r = Some name)"

definition query_answer :: "sdr_query \<Rightarrow> sdr_rec list \<Rightarrow> sdr_entry list" where
  "query_answer q rs =
     (let xs = filter (\<lambda>r. sdr_known (sr_type r) \<and> accepts q r) rs in
      map entry_of (case q of By_Num _ _ _ \<Rightarrow> take 1 xs | By_Id _ \<Rightarrow> take 1 xs | _ \<Rightarrow> xs))"

definition wf_query :: "sdr_query \<Rightarrow> bool" where
  "wf_query q \<longleftrightarrow> (case q of By_Id name \<Rightarrow> 0 \<notin> set name | _ \<Rightarrow> True)"

section \<open>The tests on complete records\<close>

lemma sdr_byte_entry: "p < length (sr_body r) \<Longrightarrow> sdr_byte (entry_of r) p = Inr (sr_body r ! p)"
  by (simp add: sdr_byte_def entry_of_def nth_append)

lemma sdr_test_entry: "p < length (sr_body r) \<Longrightarrow> sdr_test (entry_of r) p f = Inr (f (sr_body r ! p))"
  by (simp add: sdr_test_def sdr_byte_entry)

lemma and_then_Inr [simp]: "and_then (Inr a) b = (if a then b else Inr False)"
  by (simp add: and_then_def)

lemma se_type_entry [simp]: "se_type (entry_of r) = sr_type r"
  by (simp add: entry_of_def)

lemma body_length:
  assumes "wf_record r" "sdr_known (sr_type r)"
  shows "sr_type r = 0x08 \<and> 2 \<le> length (sr_body r) \<or> 10 < length (sr_body r) \<and> sr_type r \<noteq> 0x08"
  using assms by (auto simp: wf_record_def sdr_known_def id_code_offset_def)

lemma strncmp_whole:
  "0 \<notin> set s \<Longrightarrow> 0 \<notin> set name \<Longrightarrow> strncmp_eq (s @ [0]) name (max (length s) (length name)) = Inr (s = name)"
proof (induction s arbitrary: name)
  case Nil
  then show ?case
    by (cases name) (auto simp: eq_commute)
next
  case (Cons x s)
  then show ?case
    using Cons.IH [of "tl name"] by (cases name) auto
qed

lemma match_id_entry:
  assumes "wf_record r" "0 \<notin> set name"
  shows "match_id name (entry_of r) = Inr (name_of r = Some name)"
proof (cases "id_code_offset (sr_type r)")
  case None
  then show ?thesis
    by (simp add: match_id_def name_of_def)
next
  case (Some p)
  then have p: "p < length (sr_body r)" "unat (sr_body r ! p AND 0x1f) = length (drop (p + 1) (sr_body r))" "0 \<notin> set (drop (p + 1) (sr_body r))"
    using assms(1) by (simp_all add: wf_record_def)
  have "drop (p + 1) (sr_body r @ [0]) = drop (p + 1) (sr_body r) @ [0]"
    using p(1) by simp
  then show ?thesis
    using strncmp_whole [OF p(3) assms(2)] Some p(1,2) sdr_byte_entry [OF p(1)]
    by (simp add: match_id_def name_of_def) (simp add: entry_of_def)
qed

text \<open>The test of each query.\<close>

fun query_test :: "sdr_query \<Rightarrow> sdr_entry \<Rightarrow> bool outcome" where
  "query_test (By_Num gen_id num ty) = match_numtype gen_id num ty"
| "query_test (By_Sensor_Type ty) = match_sensortype ty"
| "query_test (By_Entity ent inst) = match_entity ent (inst AND 0x7f)"
| "query_test (By_Type ty) = (\<lambda>e. Inr (se_type e = ty))"
| "query_test (By_Id name) = match_id name"

lemma entity_offset_length:
  assumes "wf_record r" "sdr_known (sr_type r)" "entity_offset (sr_type r) = Some p"
  shows "p + 1 < length (sr_body r)"
  using body_length [OF assms(1,2)] assms(3) by (auto simp: entity_offset_def is_sensor_def split: if_splits)

lemma query_test_entry:
  assumes "wf_record r" "sdr_known (sr_type r)" "wf_query q"
  shows "query_test q (entry_of r) = Inr (accepts q r)"
proof (cases q)
  case (By_Num gen_id num ty)
  moreover have "0 < length (sr_body r)"
    using body_length [OF assms(1,2)] by linarith
  ultimately show ?thesis
    using body_length [OF assms(1,2)] sdr_test_entry [of 0 r]
    by (auto simp: match_numtype_def Let_def is_sensor_def sdr_test_entry)
next
  case (By_Sensor_Type ty)
  then show ?thesis
    using body_length [OF assms(1,2)] by (auto simp: match_sensortype_def is_sensor_def sdr_test_entry)
next
  case (By_Entity ent inst)
  show ?thesis
  proof (cases "entity_offset (sr_type r)")
    case (Some p)
    then have "p + 1 < length (sr_body r)"
      by (rule entity_offset_length [OF assms(1,2)])
    then show ?thesis
      using By_Entity Some by (simp add: match_entity_def sdr_test_entry)
  qed (simp add: By_Entity match_entity_def)
next
  case (By_Id name)
  then show ?thesis
    using match_id_entry [OF assms(1)] assms(3) by (simp add: wf_query_def)
qed simp

text \<open>The accepted elements of the list of all known records.\<close>

lemma accepted_entries:
  assumes "\<forall>r \<in> set rs. wf_record r" "wf_query q"
  shows "filter (\<lambda>e. query_test q e = Inr True) (known_entries rs) =
      map entry_of (filter (\<lambda>r. sdr_known (sr_type r) \<and> accepts q r) rs)"
    "\<forall>e \<in> set (known_entries rs). query_test q e = Inr (query_test q e = Inr True)"
  using assms query_test_entry [of _ q] by (induction rs) (auto simp: known_entries_Cons)

lemma find_filter: "find g xs = (case filter g xs of [] \<Rightarrow> None | x # _ \<Rightarrow> Some x)"
  by (induction xs) auto

context sdr_host
begin

lemma run_query_ok:
  assumes "serves w" "509 \<le> k" "length (repo (env_dev w)) < k" "\<forall>r \<in> set (repo (env_dev w)). wf_record r" "wf_query q"
  shows "\<exists>w'. run_query k send q w = Inr (query_answer q (repo (env_dev w)), w') \<and> serves w' \<and> repo (env_dev w') = repo (env_dev w)"
proof -
  let ?g = "\<lambda>e. query_test q e = Inr True"
  let ?xs = "filter (\<lambda>r. sdr_known (sr_type r) \<and> accepts q r) (repo (env_dev w))"
  note acc = accepted_entries [OF assms(4,5)]
  obtain w1 where one: "find_first k send (query_test q) w = Inr (find ?g (known_entries (repo (env_dev w))), w1)" "serves w1"
    "repo (env_dev w1) = repo (env_dev w)"
    using find_first_ok [OF assms(1-3), of "query_test q" ?g] acc(2) by auto
  obtain w2 where many: "find_all k send (query_test q) w = Inr (Some (blank_entry # filter ?g (known_entries (repo (env_dev w)))), w2)"
    "serves w2" "repo (env_dev w2) = repo (env_dev w)"
    using find_all_ok [OF assms(1-3), of "query_test q" ?g] acc(2) by auto
  have one': "(case find ?g (known_entries (repo (env_dev w))) of None \<Rightarrow> [] | Some x \<Rightarrow> [x]) = map entry_of (take 1 ?xs)"
    unfolding find_filter acc(1) by (cases ?xs) simp_all
  show ?thesis
    using one many one' acc(1)
    by (cases q) (simp_all add: run_query_def ipmi_sdr_find_sdr_bynumtype_def ipmi_sdr_find_sdr_bysensortype_def
      ipmi_sdr_find_sdr_byentity_def ipmi_sdr_find_sdr_bytype_def ipmi_sdr_find_sdr_byid_def query_answer_def)
qed

lemma run_queries_ok:
  assumes "serves w" "509 \<le> k" "length (repo (env_dev w)) < k" "\<forall>r \<in> set (repo (env_dev w)). wf_record r" "\<forall>q \<in> set qs. wf_query q"
  shows "\<exists>w'. run_queries k send qs w = Inr (map (\<lambda>q. query_answer q (repo (env_dev w))) qs, w') \<and> serves w' \<and>
    repo (env_dev w') = repo (env_dev w)"
  using assms
proof (induction qs arbitrary: w)
  case (Cons q qs)
  obtain w1 where w1: "run_query k send q w = Inr (query_answer q (repo (env_dev w)), w1)" "serves w1" "repo (env_dev w1) = repo (env_dev w)"
    using run_query_ok [OF Cons.prems(1-4)] Cons.prems(5) by auto
  then show ?case
    using Cons.IH [of w1] Cons.prems by auto
qed simp

end

section \<open>A command that starts\<close>

definition fresh_env :: "ipmi_intf \<Rightarrow> 's \<Rightarrow> 's sdr_env" where
  "fresh_env i b = \<lparr>env_intf = i, env_dev = b, use_built_in = False, sdr_max_read_len = 0, sdriana = 0, sdr_list = [],
     sdr_list_itr = None\<rparr>"

text \<open>A device whose repository can be read through \<open>i\<close> in \<open>k\<close> rounds.\<close>

definition readable :: "nat \<Rightarrow> ipmi_intf \<Rightarrow> sdr_dev \<Rightarrow> bool" where
  "readable k i d \<longleftrightarrow> dv_records d \<noteq> [] \<and> wf_repo (dv_records d) \<and> (\<forall>r \<in> set (dv_records d). wf_record r) \<and>
     length (dv_records d) < 65536 \<and> length (dv_due d) \<le> 3 \<and> 509 \<le> k \<and> length (dv_records d) < k \<and>
     3 \<le> uint (ipmi_intf_get_max_response_data_size i)"

lemma fresh_closed:
  assumes "readable k i (b (target_addr i))" "on (target_addr i)"
  shows "bus.closed (target_addr i) on (fresh_env i b)" "bus.serves (target_addr i) on (fresh_env i b)"
proof -
  show "bus.closed (target_addr i) on (fresh_env i b)"
    using assms by (simp add: readable_def bus.closed_def bus.ready_def fresh_env_def)
  then show "bus.serves (target_addr i) on (fresh_env i b)"
    by (simp add: bus.serves_def) (simp add: fresh_env_def)
qed

text \<open>C13: Whatever was searched for before, a search gives the answer of the whole repository: what
  is already in memory and what is still to be read make no difference. A device may cancel up to three
  reservations meanwhile, and answers in pieces of any size from 5 bytes on.
\<close>

theorem sdr_searches_answer_repository:
  assumes "readable k i (b (target_addr i))" "on (target_addr i)" "\<forall>q \<in> set qs. wf_query q"
  shows "\<exists>w'. run_queries k (slot_bus on (extra + 5)) qs (fresh_env i b) =
    Inr (map (\<lambda>q. query_answer q (dv_records (b (target_addr i)))) qs, w')"
proof -
  have "env_dev (fresh_env i b) = b"
    by (simp add: fresh_env_def)
  then show ?thesis
    using bus.run_queries_ok [where extra = extra, OF fresh_closed(2) [where b = b and i = i and on = on, OF assms(1,2)], of k qs] assms
    by (auto simp: readable_def)
qed

definition sample_dev :: sdr_dev where
  "sample_dev = \<lparr>dv_records =
       [\<lparr>sr_id = 1, sr_version = 0x51, sr_type = 0x12, sr_body = [0x20, 0, 0, 0, 0, 0, 0, 7, 1, 0, 0xC3, 0x42, 0x4D, 0x43]\<rparr>,
        \<lparr>sr_id = 7, sr_version = 0x51, sr_type = 0xC0, sr_body = [1, 2, 3]\<rparr>,
        \<lparr>sr_id = 2, sr_version = 0x51, sr_type = 0x03, sr_body = [0x20, 0, 5, 7, 1, 0x12, 0x6F, 0, 0, 0, 0, 0xC2, 0x53, 0x31]\<rparr>,
        \<lparr>sr_id = 9, sr_version = 0x51, sr_type = 0x08, sr_body = [7, 1, 0, 0, 0, 0, 0, 0, 0, 0, 0]\<rparr>],
     dv_current = 4, dv_due = [2, 3], dv_partial = [], dv_handle = 0\<rparr>"

lemma sample_readable: "readable 600 sample_intf sample_dev"
proof -
  have m: "max_response_data_size sample_intf = 0"
    by (simp add: sample_intf_def)
  have "uint (ipmi_intf_get_max_response_data_size sample_intf) = 25"
    by (simp add: ipmi_intf_get_max_response_data_size_def m IPMI_DEFAULT_PAYLOAD_SIZE_def int16_def)
  then show ?thesis
    by (simp add: readable_def sample_dev_def wf_repo_def wf_record_def id_code_offset_def)
qed

theorem sdr_searches_answer_repository_witness:
  "\<exists>w'. run_queries 600 (slot_bus (\<lambda>_. True) (2 + 5)) [By_Id [0x53, 0x31], By_Entity 7 0x7f, By_Num 0x20 5 0x12] (fresh_env sample_intf (\<lambda>_. sample_dev)) =
    Inr ([[entry_of (dv_records sample_dev ! 2)], map (\<lambda>j. entry_of (dv_records sample_dev ! j)) [0, 2, 3], [entry_of (dv_records sample_dev ! 2)]], w')"
proof -
  have "query_answer (By_Id [0x53, 0x31]) (dv_records sample_dev) = [entry_of (dv_records sample_dev ! 2)]"
    "query_answer (By_Entity 7 0x7f) (dv_records sample_dev) = map (\<lambda>j. entry_of (dv_records sample_dev ! j)) [0, 2, 3]"
    "query_answer (By_Num 0x20 5 0x12) (dv_records sample_dev) = [entry_of (dv_records sample_dev ! 2)]"
    by (simp_all add: query_answer_def sample_dev_def sdr_known_def name_of_def id_code_offset_def entity_offset_def is_sensor_def)
  then show ?thesis
    using sdr_searches_answer_repository [of 600 sample_intf "\<lambda>_. sample_dev" "\<lambda>_. True"
      "[By_Id [0x53, 0x31], By_Entity 7 0x7f, By_Num 0x20 5 0x12]" 2] sample_readable
    by (simp add: wf_query_def)
qed

text \<open>Generating the cache succeeds and lists every record of a known type, in the order of the
  repository, with its id, type and whole body; searching the cache then asks the device for nothing more.
\<close>

theorem sdr_cache_complete:
  assumes "readable k i (b (target_addr i))" "on (target_addr i)"
  shows "\<exists>w'. ipmi_sdr_list_cache k (slot_bus on (extra + 5)) (fresh_env i b) = Inr (0, w') \<and>
    sdr_list w' = known_entries (dv_records (b (target_addr i)))"
proof -
  have "env_dev (fresh_env i b) = b"
    by (simp add: fresh_env_def)
  then show ?thesis
    using bus.list_cache_ok [OF fresh_closed(2) [where b = b and i = i and on = on, OF assms], of k extra] assms by (auto simp: readable_def)
qed

theorem sdr_cache_complete_witness:
  "\<exists>w'. ipmi_sdr_list_cache 600 (slot_bus (\<lambda>_. True) (0 + 5)) (fresh_env sample_intf (\<lambda>_. sample_dev)) = Inr (0, w') \<and>
    map se_id (sdr_list w') = [1, 2, 9]"
proof -
  have "map se_id (known_entries (dv_records sample_dev)) = [1, 2, 9]"
    by (simp add: sample_dev_def known_entries_def sdr_known_def entry_of_def blank_entry_def)
  then show ?thesis
    using sdr_cache_complete [of 600 sample_intf "\<lambda>_. sample_dev" "\<lambda>_. True" 0] sample_readable by auto
qed

section \<open>Dumps\<close>

lemma write_raw_entries:
  assumes "\<forall>r \<in> set rs. length (sr_body r) \<le> 250"
  shows "write_records (map raw_entry rs) = (concat (map sdr_bytes rs), 0)"
  using assms
proof (induction rs)
  case (Cons r rs)
  have "unat (of_nat (length (sr_body r)) :: byte) = length (sr_body r)"
    using Cons.prems by (simp add: unat_of_nat)
  then show ?case
    using Cons by (simp add: raw_entry_def entry_header_def sdr_bytes_def)
qed simp

definition loadable :: "sdr_rec \<Rightarrow> bool" where
  "loadable r \<longleftrightarrow> 0 < length (sr_body r) \<and> length (sr_body r) \<le> 250 \<and> (sr_version r = 0x51 \<or> sr_version r = 0x01 \<or> sr_version r = 0x02)"

lemma read_dumped_cache:
  assumes "\<forall>r \<in> set rs. loadable r"
  shows "read_cache (concat (map sdr_bytes rs)) = (0, known_entries rs)"
  using assms
proof (induction rs)
  case Nil
  then show ?case
    by (simp add: read_cache.simps known_entries_def)
next
  case (Cons r rs)
  define rest where "rest = concat (map sdr_bytes rs)"
  have len: "unat (of_nat (length (sr_body r)) :: byte) = length (sr_body r)" and ne: "(of_nat (length (sr_body r)) :: byte) \<noteq> 0"
    and v: "sr_version r = 0x51 \<or> sr_version r = 0x01 \<or> sr_version r = 0x02"
    using Cons.prems by (simp_all add: loadable_def unat_of_nat word_unat_eq_iff)
  have d: "sdr_bytes r @ rest = le16 (sr_id r) @ [sr_version r, sr_type r, of_nat (length (sr_body r))] @ sr_body r @ rest"
    by (simp add: sdr_bytes_def)
  have sel: "of_le16 (sdr_bytes r @ rest) = sr_id r" "(sdr_bytes r @ rest) ! 2 = sr_version r" "(sdr_bytes r @ rest) ! 3 = sr_type r"
    "(sdr_bytes r @ rest) ! 4 = of_nat (length (sr_body r))" "drop 5 (sdr_bytes r @ rest) = sr_body r @ rest"
    "sdr_bytes r @ rest \<noteq> []" "\<not> length (sdr_bytes r @ rest) < 5"
    unfolding d by (simp_all only: of_le16_append) (simp_all add: nth_append)
  have "read_cache (sdr_bytes r @ rest) =
      (let (rc, es) = read_cache rest in
        (rc, if sdr_known (sr_type r) then entry_of r # es else es))"
  proof -
    have v': "\<not> (sr_version r \<noteq> 0x51 \<and> sr_version r \<noteq> 0x01 \<and> sr_version r \<noteq> 0x02)"
      using v by blast
    have n: "\<not> length (sr_body r @ rest) < length (sr_body r)" "take (length (sr_body r)) (sr_body r @ rest) = sr_body r"
      "drop (length (sr_body r)) (sr_body r @ rest) = rest"
      by simp_all
    show ?thesis
      unfolding read_cache.simps [of "sdr_bytes r @ rest"] sel len Let_def n entry_of_def
      by (simp only: v' ne sel(6,7) n if_False)
  qed
  then show ?case
    using Cons unfolding rest_def by (simp add: known_entries_Cons)
qed

context sdr_host
begin

lemma dump_ok:
  assumes "closed w" "sdr_list w = []" "509 \<le> k" "length (repo (env_dev w)) < k"
  shows "\<exists>w'. ipmi_sdr_dump_bin k send True w = Inr (0, Some (concat (map sdr_bytes (repo (env_dev w)))), w') \<and>
    repo (env_dev w') = repo (env_dev w) \<and> sdr_list w' = map raw_entry (repo (env_dev w)) \<and>
    sdr_list_itr w' = sdr_list_itr w \<and> closed w'"
proof -
  obtain itr w1 where s: "ipmi_sdr_start k send False w = Inr (Some itr, w1)" "at_rest itr (env_dev w1) [] (repo (env_dev w))"
    "ready w1" "repo (env_dev w1) = repo (env_dev w)" "sdr_list w1 = sdr_list w" "sdr_list_itr w1 = sdr_list_itr w"
    "use_built_in w1 = use_built_in w"
    using start_ok [OF assms(1)] unfolding ipmi_sdr_start_def by metis
  obtain w2 where d: "dump_records k k send itr w1 = Inr (True, w2)" "repo (env_dev w2) = repo (env_dev w1)"
    "sdr_list w2 = sdr_list w1 @ map raw_entry (repo (env_dev w))" "sdr_list_itr w2 = sdr_list_itr w1" "ready w2"
    "cancels (env_dev w2) \<le> 3" "use_built_in w2 = use_built_in w1"
    using dump_records_ok [OF s(3,2) assms(3,4)] by blast
  have "\<forall>r \<in> set (repo (env_dev w)). length (sr_body r) \<le> 250"
    using assms(1) by (auto simp: closed_def wf_repo_def)
  moreover have "closed w2"
    using assms(1) s(4,7) d(2,5-7) by (simp add: closed_def)
  ultimately show ?thesis
    using s d assms(2) by (simp add: ipmi_sdr_dump_bin_def write_raw_entries)
qed

end

text \<open>C29: A dump holds every record, header and body, in order; loaded as a cache file it gives the
  list that reading the device would give, provided its records have a version that the loader knows.
\<close>

theorem sdr_dump_roundtrip:
  assumes "readable k i (b (target_addr i))" "on (target_addr i)" "\<forall>r \<in> set (dv_records (b (target_addr i))). sr_version r \<in> {0x51, 0x01, 0x02}"
  shows "\<exists>d w1 w2. ipmi_sdr_dump_bin k (slot_bus on (extra + 5)) True (fresh_env i b) = Inr (0, Some d, w1) \<and>
    d = concat (map sdr_bytes (dv_records (b (target_addr i)))) \<and>
    ipmi_sdr_list_cache_fromfile (Some d) (fresh_env j c) = (0, w2) \<and> sdr_list w2 = known_entries (dv_records (b (target_addr i)))"
proof -
  let ?rs = "dv_records (b (target_addr i))"
  have dev: "env_dev (fresh_env i b) = b"
    by (simp add: fresh_env_def)
  obtain w1 where "ipmi_sdr_dump_bin k (slot_bus on (extra + 5)) True (fresh_env i b) = Inr (0, Some (concat (map sdr_bytes ?rs)), w1)"
    using bus.dump_ok [OF fresh_closed(1) [where b = b and i = i and on = on, OF assms(1,2)], of k extra] assms(1) dev
    by (auto simp: readable_def) (auto simp: fresh_env_def)
  moreover have "\<forall>r \<in> set ?rs. loadable r"
    using assms by (auto simp: loadable_def readable_def wf_repo_def)
  then have "read_cache (concat (map sdr_bytes ?rs)) = (0, known_entries ?rs)"
    by (rule read_dumped_cache)
  ultimately show ?thesis
    by (simp add: ipmi_sdr_list_cache_fromfile_def) (simp add: fresh_env_def)
qed

theorem sdr_dump_roundtrip_witness:
  "\<exists>d w1 w2. ipmi_sdr_dump_bin 600 (slot_bus (\<lambda>_. True) (3 + 5)) True (fresh_env sample_intf (\<lambda>_. sample_dev)) = Inr (0, Some d, w1) \<and>
    length d = 62 \<and> ipmi_sdr_list_cache_fromfile (Some d) (fresh_env sample_intf (\<lambda>_. sample_dev)) = (0, w2) \<and>
    map se_id (sdr_list w2) = [1, 2, 9]"
proof -
  have "map se_id (known_entries (dv_records sample_dev)) = [1, 2, 9]" "length (concat (map sdr_bytes (dv_records sample_dev))) = 62"
    by (simp_all add: sample_dev_def known_entries_def sdr_known_def entry_of_def blank_entry_def)
  moreover have "\<forall>r \<in> set (dv_records sample_dev). sr_version r \<in> {0x51, 0x01, 0x02}"
    by (simp add: sample_dev_def)
  ultimately show ?thesis
    using sdr_dump_roundtrip [of 600 sample_intf "\<lambda>_. sample_dev" "\<lambda>_. True" 3 sample_intf "\<lambda>_. sample_dev"] sample_readable by metis
qed

end
