(* ===== verification/SdrFill.thy ===== *)
theory SdrFill
  imports SdrSearch
begin

text \<open>
  What filling a repository promises, over controllers on a bus: the records of the slaves, from a list of
  addresses or from the slots of a shelf, are stored in order.
\<close>

section \<open>Copying from one controller to another\<close>

definition reading_size_ok :: "'s sdr_env \<Rightarrow> bool" where
  "reading_size_ok w \<longleftrightarrow> 0 \<le> sdr_max_read_len w \<and> sdr_max_read_len w \<le> 254"

lemma sdr_env_eqI: "w' = w\<lparr>env_dev := env_dev w'\<rparr> \<Longrightarrow> env_intf w' = env_intf w \<and> use_built_in w' = use_built_in w \<and>
    sdr_max_read_len w' = sdr_max_read_len w \<and> sdr_list w' = sdr_list w \<and> sdr_list_itr w' = sdr_list_itr w"
  by (metis sdr_env.select_convs sdr_env.surjective sdr_env.update_convs(2))

lemma set_target_sel [simp]:
  "env_intf (set_target a w) = (env_intf w)\<lparr>target_addr := a\<rparr>" "env_dev (set_target a w) = env_dev w"
  "use_built_in (set_target a w) = use_built_in w" "sdr_max_read_len (set_target a w) = sdr_max_read_len w"
  by (simp_all add: set_target_def)

lemma bus_copy:
  assumes "a \<noteq> my" "\<not> use_built_in w" "reading_size_ok w" "readable k ((env_intf w)\<lparr>target_addr := a\<rparr>) (env_dev w a)" "on a" "on my"
  obtains w' where "sdr_copy_to_sdrr (ipmi_sdr_start k (slot_bus on (extra + 5))) k (slot_bus on (extra + 5)) False a my w = Inr (0, w')"
    "env_intf w' = (env_intf w)\<lparr>target_addr := my\<rparr>" "\<not> use_built_in w'" "reading_size_ok w'"
    "dv_records (env_dev w' my) = dv_records (env_dev w my) @ dv_records (env_dev w a)"
    "dv_records (env_dev w' a) = dv_records (env_dev w a)" "length (dv_due (env_dev w' a)) \<le> 3"
    "\<forall>c. c \<noteq> a \<longrightarrow> c \<noteq> my \<longrightarrow> env_dev w' c = env_dev w c"
proof -
  let ?send = "slot_bus on (extra + 5)"
  let ?rs = "dv_records (env_dev w a)"
  define w0 where "w0 = set_target a w"
  have closed: "bus.closed a on w0"
    using assms(2-5) by (auto simp: w0_def bus.closed_def bus.ready_def readable_def reading_size_ok_def)
  obtain itr w1 where s: "\<forall>rebuild. sdr_start_by rebuild ?send False w0 = Inr (Some itr, w1)"
    "bus.at_rest a itr (env_dev w1) [] (dv_records (env_dev w0 a))" "bus.ready a on w1" "dv_records (env_dev w1 a) = dv_records (env_dev w0 a)"
    "env_intf w1 = env_intf w0" "use_built_in w1 = use_built_in w0"
    by (rule bus.start_ok [where extra = extra and on = on, OF closed])
  have "509 \<le> k" "length (dv_records (env_dev w0 a)) < k" "\<forall>r \<in> set (dv_records (env_dev w0 a)). wf_record r"
    using assms(4) by (simp_all add: readable_def w0_def)
  then obtain itr' w2 where g: "sdrr_get_records k k ?send itr [] w1 = Inr (map raw_entry ?rs, itr', w2)" "same_env w1 w2" "bus.ready a on w2"
    "dv_records (env_dev w2 a) = dv_records (env_dev w1 a)" "length (dv_due (env_dev w2 a)) \<le> 3"
    using bus.get_records_ok [where m = k and k = k and queue = "[]" and extra = extra, OF s(3,2)] by (auto simp: w0_def)
  have other1: "env_dev w2 c = env_dev w c" if "c \<noteq> a" for c
  proof -
    have "others.framed a c (env_dev w c) w0"
      by (simp add: others.framed_def w0_def)
    then have "others.framed a c (env_dev w c) w1"
      using s(1) [rule_format, of "\<lambda>w. Inl Unfinished"] by (rule others.framed_start)
    then have "others.framed a c (env_dev w c) w2"
      using g(1) by (rule others.framed_get_records)
    then show ?thesis
      using that unfolding others.framed_def by blast
  qed
  define w3 where "w3 = set_target my w2"
  have my: "target_addr (env_intf w3) = my \<and> on (target_addr (env_intf w3))"
    using assms(6) by (simp add: w3_def)
  have "\<forall>r \<in> set ?rs. 0 < length (sr_body r) \<and> length (sr_body r) \<le> 250"
    using assms(4) by (auto simp: readable_def wf_repo_def)
  then obtain w4 where q: "add_queue ?send True 0 (map raw_entry ?rs) w3 = Inr (0, w4)" "store.only_dev w3 w4"
    "dv_records (env_dev w4 my) = dv_records (env_dev w3 my) @ ?rs"
    using store.add_queue_ok [where a = my and on = on, OF my, of ?rs "extra + 5"] by (auto simp: parse_sdr_bytes)
  have other2: "env_dev w4 c = env_dev w2 c" if "c \<noteq> my" for c
  proof -
    have "others.framed my c (env_dev w2 c) w3"
      by (simp add: others.framed_def w3_def)
    then have "others.framed my c (env_dev w2 c) w4"
      using q(1) by (rule others.framed_add_queue)
    then show ?thesis
      using that unfolding others.framed_def by blast
  qed
  have w4: "env_intf w4 = env_intf w3" "use_built_in w4 = use_built_in w3" "sdr_max_read_len w4 = sdr_max_read_len w3"
    using q(2) sdr_env_eqI unfolding store.only_dev_def by blast+
  show thesis
  proof (rule that)
    show "sdr_copy_to_sdrr (ipmi_sdr_start k ?send) k ?send False a my w = Inr (0, w4)"
      using s(1) g(1) q(1) by (simp add: sdr_copy_to_sdrr_def ipmi_sdr_start_def w0_def w3_def)
    show "env_intf w4 = (env_intf w)\<lparr>target_addr := my\<rparr>"
      using w4(1) s(5) g(2) by (simp add: w3_def w0_def same_env_def)
    show "\<not> use_built_in w4"
      using w4(2) s(6) g(2) assms(2) by (simp add: w3_def w0_def same_env_def)
    show "reading_size_ok w4"
      using w4(3) g(3) by (auto simp: w3_def reading_size_ok_def bus.ready_def)
    show "dv_records (env_dev w4 my) = dv_records (env_dev w my) @ ?rs"
      using q(3) other1 assms(1) by (simp add: w3_def)
    show "dv_records (env_dev w4 a) = ?rs" "length (dv_due (env_dev w4 a)) \<le> 3"
      using other2 [OF assms(1)] g(4,5) s(4) by (simp_all add: w0_def)
    show "\<forall>c. c \<noteq> a \<longrightarrow> c \<noteq> my \<longrightarrow> env_dev w4 c = env_dev w c"
      using other1 other2 by simp
  qed
qed

text \<open>A controller that does not answer is passed over, and stays the target.\<close>

lemma bus_copy_any:
  assumes "a \<noteq> my" "\<not> use_built_in w" "reading_size_ok w" "on a \<longrightarrow> readable k ((env_intf w)\<lparr>target_addr := a\<rparr>) (env_dev w a)" "on my"
  shows "\<exists>w'. sdr_copy_to_sdrr (ipmi_sdr_start k (slot_bus on (extra + 5))) k (slot_bus on (extra + 5)) False a my w = Inr (0, w') \<and>
    env_intf w' = (env_intf w)\<lparr>target_addr := if on a then my else a\<rparr> \<and> \<not> use_built_in w' \<and> reading_size_ok w' \<and>
    dv_records (env_dev w' my) = dv_records (env_dev w my) @ (if on a then dv_records (env_dev w a) else []) \<and>
    (\<forall>c. c \<noteq> my \<longrightarrow> dv_records (env_dev w' c) = dv_records (env_dev w c) \<and>
       (length (dv_due (env_dev w c)) \<le> 3 \<longrightarrow> length (dv_due (env_dev w' c)) \<le> 3))"
proof (cases "on a")
  case True
  then have r: "readable k ((env_intf w)\<lparr>target_addr := a\<rparr>) (env_dev w a)"
    using assms(4) by blast
  obtain w' where c: "sdr_copy_to_sdrr (ipmi_sdr_start k (slot_bus on (extra + 5))) k (slot_bus on (extra + 5)) False a my w = Inr (0, w')"
    "env_intf w' = (env_intf w)\<lparr>target_addr := my\<rparr>" "\<not> use_built_in w'" "reading_size_ok w'"
    "dv_records (env_dev w' my) = dv_records (env_dev w my) @ dv_records (env_dev w a)"
    "dv_records (env_dev w' a) = dv_records (env_dev w a)" "length (dv_due (env_dev w' a)) \<le> 3"
    "\<forall>c. c \<noteq> a \<longrightarrow> c \<noteq> my \<longrightarrow> env_dev w' c = env_dev w c"
    by (rule bus_copy [where extra = extra and on = on, OF assms(1-3) r True assms(5)])
  have "dv_records (env_dev w' c) = dv_records (env_dev w c) \<and> (length (dv_due (env_dev w c)) \<le> 3 \<longrightarrow> length (dv_due (env_dev w' c)) \<le> 3)"
    if "c \<noteq> my" for c
    using c(6-8) that by (cases "c = a") auto
  then show ?thesis
    using c(1-5) True by (intro exI [of _ w']) simp
next
  case False
  then show ?thesis
    using assms(2,3)
    by (intro exI [of _ "set_target a w"])
      (simp add: sdr_copy_to_sdrr_def ipmi_sdr_start_def sdr_start_by_def sdr_send_def slot_bus_def set_target_def reading_size_ok_def)
qed

text \<open>Several controllers, one after the other: the copies add up.\<close>

fun copy_addrs :: "nat \<Rightarrow> 's intf_sendrecv \<Rightarrow> u32 \<Rightarrow> u32 list \<Rightarrow> 's sdr_env \<Rightarrow> (int \<times> 's sdr_env) outcome" where
  "copy_addrs k send my [] w = Inr (0, w)"
| "copy_addrs k send my (a # as) w =
     bind_ok (sdr_copy_to_sdrr (ipmi_sdr_start k send) k send False a my w) (\<lambda>(rc, w1).
       if rc = 0 then copy_addrs k send my as w1 else Inr (rc, w1))"

lemma readable_after:
  assumes "readable k i d" "dv_records d' = dv_records d" "length (dv_due d') \<le> 3"
  shows "readable k i d'"
  using assms by (simp add: readable_def)

lemma bus_copy_addrs:
  assumes "\<forall>a \<in> set as. a \<noteq> my \<and> (on a \<longrightarrow> readable k ((env_intf w)\<lparr>target_addr := a\<rparr>) (env_dev w a))"
    "\<not> use_built_in w" "reading_size_ok w" "on my"
  shows "\<exists>w'. copy_addrs k (slot_bus on (extra + 5)) my as w = Inr (0, w') \<and>
    dv_records (env_dev w' my) = dv_records (env_dev w my) @ concat (map (\<lambda>a. dv_records (env_dev w a)) (filter on as)) \<and>
    target_addr (env_intf w') = (if as = [] then target_addr (env_intf w) else if on (last as) then my else last as)"
  using assms
proof (induction as arbitrary: w)
  case (Cons a as)
  have a: "a \<noteq> my" "on a \<longrightarrow> readable k ((env_intf w)\<lparr>target_addr := a\<rparr>) (env_dev w a)"
    using Cons.prems(1) by simp_all
  obtain w1 where c: "sdr_copy_to_sdrr (ipmi_sdr_start k (slot_bus on (extra + 5))) k (slot_bus on (extra + 5)) False a my w = Inr (0, w1)"
    "env_intf w1 = (env_intf w)\<lparr>target_addr := if on a then my else a\<rparr>" "\<not> use_built_in w1" "reading_size_ok w1"
    "dv_records (env_dev w1 my) = dv_records (env_dev w my) @ (if on a then dv_records (env_dev w a) else [])"
    and same: "\<forall>c. c \<noteq> my \<longrightarrow> dv_records (env_dev w1 c) = dv_records (env_dev w c) \<and>
       (length (dv_due (env_dev w c)) \<le> 3 \<longrightarrow> length (dv_due (env_dev w1 c)) \<le> 3)"
    using bus_copy_any [where extra = extra and on = on and k = k, OF a(1) Cons.prems(2,3) a(2) Cons.prems(4)] by blast
  have "\<forall>c \<in> set as. c \<noteq> my \<and> (on c \<longrightarrow> readable k ((env_intf w1)\<lparr>target_addr := c\<rparr>) (env_dev w1 c))"
  proof (intro ballI conjI impI)
    fix c assume c': "c \<in> set as"
    then show m: "c \<noteq> my"
      using Cons.prems(1) by simp
    assume "on c"
    then have r: "readable k ((env_intf w)\<lparr>target_addr := c\<rparr>) (env_dev w c)"
      using Cons.prems(1) c' by simp
    then have "readable k ((env_intf w)\<lparr>target_addr := c\<rparr>) (env_dev w1 c)"
      using readable_after [OF r] same m by (simp add: readable_def)
    then show "readable k ((env_intf w1)\<lparr>target_addr := c\<rparr>) (env_dev w1 c)"
      using c(2) by simp
  qed
  then obtain w2 where w2: "copy_addrs k (slot_bus on (extra + 5)) my as w1 = Inr (0, w2)"
    "dv_records (env_dev w2 my) = dv_records (env_dev w1 my) @ concat (map (\<lambda>a. dv_records (env_dev w1 a)) (filter on as))"
    "target_addr (env_intf w2) = (if as = [] then target_addr (env_intf w1) else if on (last as) then my else last as)"
    using Cons.IH [of w1] c(3,4) Cons.prems(4) by auto
  have m: "map (\<lambda>a. dv_records (env_dev w1 a)) (filter on as) = map (\<lambda>a. dv_records (env_dev w a)) (filter on as)"
    using same Cons.prems(1) by simp
  have "dv_records (env_dev w2 my) = dv_records (env_dev w my) @ concat (map (\<lambda>a. dv_records (env_dev w a)) (filter on (a # as)))"
    unfolding w2(2) m using c(5) by simp
  then show ?case
    using w2(1,3) c(1,2) by simp
qed simp

lemma copy_list_addrs:
  "copy_addrs k send my (map ucast hex) w = Inr (0, w') \<Longrightarrow> 0 \<notin> set hex \<Longrightarrow> copy_list (ipmi_sdr_start k send) k send my 0 hex w = Inr (0, w')"
proof (induction hex arbitrary: w)
  case (Cons x hex)
  then show ?case
    by (auto simp: bind_ok_Inr_iff split: if_splits)
qed simp

text \<open>The addresses of the slots.\<close>

fun slot_addrs :: "nat \<Rightarrow> u32 \<Rightarrow> u32 list" where
  "slot_addrs 0 s = []"
| "slot_addrs (Suc n) s = (let a = (if s = 0xC2 then s + 2 else s) in a # slot_addrs n (a + 2))"

lemma copy_slots_addrs:
  "copy_addrs k send my (slot_addrs n s) w = Inr (0, w') \<Longrightarrow> copy_slots (ipmi_sdr_start k send) k send n s my 0 w = Inr (0, w')"
proof (induction n arbitrary: s w)
  case (Suc n)
  then show ?case
    by (auto simp: bind_ok_Inr_iff Let_def split: if_splits)
qed simp

section \<open>Filling a repository\<close>

lemma sample_readable_at: "readable 600 (sample_intf\<lparr>target_addr := a\<rparr>) sample_dev"
proof -
  have m: "max_response_data_size sample_intf = 0"
    by (simp add: sample_intf_def)
  have "3 \<le> uint (ipmi_intf_get_max_response_data_size (sample_intf\<lparr>target_addr := a\<rparr>))"
    by (simp add: ipmi_intf_get_max_response_data_size_def m Let_def IPMI_DEFAULT_PAYLOAD_SIZE_def int16_def)
  then show ?thesis
    using sample_readable by (simp add: readable_def)
qed

text \<open>The devices of the bus have no built-in sensors to copy.\<close>

lemma bus_no_built_in:
  assumes "on my"
  shows "\<exists>x. sdr_copy_to_sdrr (ipmi_sdr_start k (slot_bus on n)) k (slot_bus on n) True my to w = Inr (0, (set_target my w)\<lparr>sdriana := x\<rparr>)"
proof -
  define v where "v = set_target my w"
  have a: "target_addr (env_intf v) = my"
    by (simp add: v_def)
  have s: "slot_bus on n (env_intf v) = sdr_bus n (env_intf v)"
    using assms by (auto simp: slot_bus_def a intro!: ext)
  have d: "slot_bus on n (env_intf v) (mk_rq IPMI_NETFN_APP BMC_GET_DEVICE_ID []) (env_dev v) =
      Inr (Some (reply 0 [0x20, 0x81, 1, 0, 2, 0x02, 0, 0, 0, 0, 0]), env_dev v)"
    unfolding s using sdr_bus_eq [of n _ "env_dev v" "env_intf v"] by (simp add: dev_answer_def fun_upd_idem)
  have f: "slot_bus on n (env_intf v) (mk_rq IPMI_NETFN_SE GET_DEVICE_SDR_INFO []) st = Inr (Some (reply 0xc1 []), st)" for st
    unfolding s using sdr_bus_eq [of n _ st "env_intf v"] by (simp add: dev_answer_def fun_upd_idem) (simp add: sdr_cmd_defs fun_upd_idem)
  obtain x where c: "choose_source True (rs_data (reply 0 [0x20, 0x81, 1, 0, 2, 0x02, 0, 0, 0, 0, 0])) v = (Some True, v\<lparr>sdriana := x\<rparr>)"
    by (auto simp: choose_source_def Let_def)
  have "sdr_start_by rebuild (slot_bus on n) True v = Inr (None, v\<lparr>sdriana := x\<rparr>)" for rebuild
    using d f c by (simp add: sdr_start_by_def sdr_send_def)
  then show ?thesis
    by (intro exI [of _ x]) (simp add: sdr_copy_to_sdrr_def ipmi_sdr_start_def v_def)
qed

text \<open>Filling starts with an empty repository; the other devices are as they were.\<close>

lemma bus_fill_start:
  assumes "on (target_addr i)"
  obtains w1 w2 where "ipmi_sdr_repo_clear (slot_bus on n) (fresh_env i b) = Inr (0, w1)"
    "sdr_copy_to_sdrr (ipmi_sdr_start k (slot_bus on n)) k (slot_bus on n) True (target_addr i) (target_addr i) w1 = Inr (0, w2)"
    "env_intf w2 = i" "\<not> use_built_in w2" "reading_size_ok w2" "dv_records (env_dev w2 (target_addr i)) = []"
    "\<forall>a. a \<noteq> target_addr i \<longrightarrow> env_dev w2 a = b a"
proof -
  let ?send = "slot_bus on n" and ?my = "target_addr i"
  define w where "w = fresh_env i b"
  have w: "env_intf w = i" "env_dev w = b" "\<not> use_built_in w" "sdr_max_read_len w = 0"
    by (simp_all add: w_def fresh_env_def)
  obtain w1 where c: "ipmi_sdr_repo_clear ?send w = Inr (0, w1)" "store.only_dev w w1" "dv_records (env_dev w1 ?my) = []"
    using store.repo_clear_ok [where a = ?my and n = n and on = on and w = w] w(1) assms by auto
  have w1: "env_intf w1 = i" "\<not> use_built_in w1" "sdr_max_read_len w1 = 0"
    using c(2) sdr_env_eqI w unfolding store.only_dev_def by metis+
  have other: "env_dev w1 a = b a" if "a \<noteq> ?my" for a
  proof -
    have "others.framed ?my a (b a) w"
      using w by (simp add: others.framed_def)
    then have "others.framed ?my a (b a) w1"
      using c(1) by (rule others.framed_repo_clear)
    then show ?thesis
      using that unfolding others.framed_def by blast
  qed
  obtain x where n: "sdr_copy_to_sdrr (ipmi_sdr_start k ?send) k ?send True ?my ?my w1 = Inr (0, (set_target ?my w1)\<lparr>sdriana := x\<rparr>)"
    using bus_no_built_in [where on = on and my = ?my and n = n and k = k and to = ?my and w = w1] assms by blast
  show thesis
    by (rule that [OF c(1) [unfolded w_def] n]) (use w1 other c(3) in \<open>simp_all add: reading_size_ok_def\<close>)
qed

lemma bus_fill:
  assumes "on (target_addr i)" "\<forall>a \<in> set as. a \<noteq> target_addr i \<and> (on a \<longrightarrow> readable k (i\<lparr>target_addr := a\<rparr>) (b a))"
    "env_intf w = i" "\<not> use_built_in w" "reading_size_ok w" "dv_records (env_dev w (target_addr i)) = []"
    "\<forall>a. a \<noteq> target_addr i \<longrightarrow> env_dev w a = b a"
  shows "\<exists>w'. copy_addrs k (slot_bus on (extra + 5)) (target_addr i) as w = Inr (0, w') \<and>
    dv_records (env_dev w' (target_addr i)) = concat (map (\<lambda>a. dv_records (b a)) (filter on as)) \<and>
    target_addr (env_intf w') = (if as = [] \<or> on (last as) then target_addr i else last as)"
proof -
  have "\<forall>a \<in> set as. a \<noteq> target_addr i \<and> (on a \<longrightarrow> readable k ((env_intf w)\<lparr>target_addr := a\<rparr>) (env_dev w a))"
    using assms(2,3,7) by simp
  then obtain w' where w': "copy_addrs k (slot_bus on (extra + 5)) (target_addr i) as w = Inr (0, w')"
    "dv_records (env_dev w' (target_addr i)) = dv_records (env_dev w (target_addr i)) @ concat (map (\<lambda>a. dv_records (env_dev w a)) (filter on as))"
    "target_addr (env_intf w') = (if as = [] then target_addr (env_intf w) else if on (last as) then target_addr i else last as)"
    using bus_copy_addrs [where extra = extra and on = on and my = "target_addr i" and as = as and w = w and k = k] assms(1,4,5) by blast
  moreover have "map (\<lambda>a. dv_records (env_dev w a)) (filter on as) = map (\<lambda>a. dv_records (b a)) (filter on as)"
    using assms(2,7) by simp
  ultimately show ?thesis
    using assms(3,6) by simp
qed

text \<open>Filling a repository from a list of slaves erases it and stores the records of each slave, in the
  order of the list; each slave may cancel reservations while it is read.
\<close>

theorem sdr_fill_from_list:
  assumes "ipmi_parse_range_list s = Inr (True, hex)" "0 \<notin> set hex" "length hex < MAX_NUM_SLOT" "on (target_addr i)"
    "\<forall>x \<in> set hex. ucast x \<noteq> target_addr i \<and> on (ucast x) \<and> readable k (i\<lparr>target_addr := ucast x\<rparr>) (b (ucast x))"
  shows "\<exists>w'. ipmi_sdr_add_from_list k (slot_bus on (extra + 5)) s (fresh_env i b) = Inr (0, w') \<and>
    dv_records (env_dev w' (target_addr i)) = concat (map (\<lambda>x. dv_records (b (ucast x))) hex) \<and>
    target_addr (env_intf w') = target_addr i"
proof -
  let ?send = "slot_bus on (extra + 5)"
  obtain w1 w2 where s: "ipmi_sdr_repo_clear ?send (fresh_env i b) = Inr (0, w1)"
    "sdr_copy_to_sdrr (ipmi_sdr_start k ?send) k ?send True (target_addr i) (target_addr i) w1 = Inr (0, w2)"
    and w2: "env_intf w2 = i" "\<not> use_built_in w2" "reading_size_ok w2" "dv_records (env_dev w2 (target_addr i)) = []"
    "\<forall>a. a \<noteq> target_addr i \<longrightarrow> env_dev w2 a = b a"
    by (rule bus_fill_start [where on = on and i = i, OF assms(4)])
  obtain w3 where w3: "copy_addrs k ?send (target_addr i) (map ucast hex) w2 = Inr (0, w3)"
    "dv_records (env_dev w3 (target_addr i)) = concat (map (\<lambda>a. dv_records (b a)) (filter on (map ucast hex)))"
    "target_addr (env_intf w3) = (if map ucast hex = ([] :: u32 list) \<or> on (last (map ucast hex)) then target_addr i else last (map ucast hex))"
    using bus_fill [where as = "map ucast hex" and on = on and i = i, OF assms(4) _ w2, of k extra] assms(5) by auto
  have on: "filter on (map ucast hex) = map ucast hex"
    using assms(5) by (simp add: filter_id_conv)
  have "hex \<noteq> [] \<Longrightarrow> on (last (map ucast hex))"
    using assms(5) by (simp add: last_map)
  moreover have "copy_list (ipmi_sdr_start k ?send) k ?send (target_addr i) 0 hex w2 = Inr (0, w3)"
    by (rule copy_list_addrs [OF w3(1) assms(2)])
  then have "ipmi_sdr_add_from_list k ?send s (fresh_env i b) = Inr (0, w3)"
    using assms(1,3) s by (simp add: ipmi_sdr_add_from_list_def) (simp add: fresh_env_def)
  ultimately show ?thesis
    using w3(2,3) unfolding on by (auto simp: comp_def)
qed

theorem sdr_fill_from_list_witness:
  "\<exists>w'. ipmi_sdr_add_from_list 600 (slot_bus (\<lambda>_. True) (3 + 5)) [0x30, 0x78, 0x42, 0x30, 0x2D, 0x30, 0x78, 0x42, 0x32]
      (fresh_env (sample_intf\<lparr>target_addr := 0x20\<rparr>) (\<lambda>_. sample_dev)) = Inr (0, w') \<and>
    map sr_id (dv_records (env_dev w' 0x20)) = [1, 7, 2, 9, 1, 7, 2, 9]"
proof -
  have p: "ipmi_parse_range_list [0x30, 0x78, 0x42, 0x30, 0x2D, 0x30, 0x78, 0x42, 0x32] = Inr (True, [0xB0, 0xB2])"
    by code_simp
  have "\<exists>w'. ipmi_sdr_add_from_list 600 (slot_bus (\<lambda>_. True) (3 + 5)) [0x30, 0x78, 0x42, 0x30, 0x2D, 0x30, 0x78, 0x42, 0x32]
      (fresh_env (sample_intf\<lparr>target_addr := 0x20\<rparr>) (\<lambda>_. sample_dev)) = Inr (0, w') \<and>
    dv_records (env_dev w' (target_addr (sample_intf\<lparr>target_addr := 0x20\<rparr>))) = concat (map (\<lambda>x. dv_records sample_dev) [0xB0 :: byte, 0xB2]) \<and>
    target_addr (env_intf w') = target_addr (sample_intf\<lparr>target_addr := 0x20\<rparr>)"
    using sample_readable_at by (intro sdr_fill_from_list [OF p]) (simp_all add: MAX_NUM_SLOT_def)
  then show ?thesis
    by (auto simp: sample_dev_def)
qed

text \<open>C14: Filling a repository from the slots of a shelf erases it and stores the records of the slots that
  answer, in slot order, and reports success; a last slot that does not answer stays the target of later requests.
\<close>

theorem sdr_fill_from_slots:
  assumes "on (target_addr i)"
    "\<forall>a \<in> set (slot_addrs n 0xB0). a \<noteq> target_addr i \<and> (on a \<longrightarrow> readable k (i\<lparr>target_addr := a\<rparr>) (b a))"
  shows "\<exists>w'. ipmi_sdr_add_from_sensors k (slot_bus on (extra + 5)) n (fresh_env i b) = Inr (0, w') \<and>
    dv_records (env_dev w' (target_addr i)) = concat (map (\<lambda>a. dv_records (b a)) (filter on (slot_addrs n 0xB0))) \<and>
    target_addr (env_intf w') =
      (if n = 0 \<or> on (last (slot_addrs n 0xB0)) then target_addr i else last (slot_addrs n 0xB0))"
proof -
  let ?send = "slot_bus on (extra + 5)"
  obtain w1 w2 where s: "ipmi_sdr_repo_clear ?send (fresh_env i b) = Inr (0, w1)"
    "sdr_copy_to_sdrr (ipmi_sdr_start k ?send) k ?send True (target_addr i) (target_addr i) w1 = Inr (0, w2)"
    and w2: "env_intf w2 = i" "\<not> use_built_in w2" "reading_size_ok w2" "dv_records (env_dev w2 (target_addr i)) = []"
    "\<forall>a. a \<noteq> target_addr i \<longrightarrow> env_dev w2 a = b a"
    by (rule bus_fill_start [where on = on and i = i, OF assms(1)])
  obtain w3 where w3: "copy_addrs k ?send (target_addr i) (slot_addrs n 0xB0) w2 = Inr (0, w3)"
    "dv_records (env_dev w3 (target_addr i)) = concat (map (\<lambda>a. dv_records (b a)) (filter on (slot_addrs n 0xB0)))"
    "target_addr (env_intf w3) =
      (if slot_addrs n 0xB0 = [] \<or> on (last (slot_addrs n 0xB0)) then target_addr i else last (slot_addrs n 0xB0))"
    using bus_fill [where extra = extra and on = on and i = i, OF assms w2] by blast
  have "copy_slots (ipmi_sdr_start k ?send) k ?send n 0xB0 (target_addr i) 0 w2 = Inr (0, w3)"
    by (rule copy_slots_addrs [OF w3(1)])
  then have "ipmi_sdr_add_from_sensors k ?send n (fresh_env i b) = Inr (0, w3)"
    using s by (simp add: ipmi_sdr_add_from_sensors_def add_from_sensors_def) (simp add: fresh_env_def)
  moreover have "slot_addrs n 0xB0 = [] \<longleftrightarrow> n = 0"
    by (cases n) (simp_all add: Let_def)
  ultimately show ?thesis
    using w3(2,3) by auto
qed

theorem sdr_fill_from_slots_witness:
  "\<exists>w'. ipmi_sdr_add_from_sensors 600 (slot_bus (\<lambda>a. a = 0x20 \<or> a = 0xC4) (3 + 5)) 11
      (fresh_env (sample_intf\<lparr>target_addr := 0x20\<rparr>) (\<lambda>_. sample_dev)) = Inr (0, w') \<and>
    map sr_id (dv_records (env_dev w' 0x20)) = [1, 7, 2, 9] \<and> target_addr (env_intf w') = 0xC6"
proof -
  have a: "slot_addrs 11 0xB0 = [0xB0, 0xB2, 0xB4, 0xB6, 0xB8, 0xBA, 0xBC, 0xBE, 0xC0, 0xC4, 0xC6]"
    by code_simp
  have "\<forall>a \<in> set (slot_addrs 11 0xB0). a \<noteq> target_addr (sample_intf\<lparr>target_addr := 0x20\<rparr>)"
    unfolding a by simp
  then obtain w' where w': "ipmi_sdr_add_from_sensors 600 (slot_bus (\<lambda>a. a = 0x20 \<or> a = 0xC4) (3 + 5)) 11
      (fresh_env (sample_intf\<lparr>target_addr := 0x20\<rparr>) (\<lambda>_. sample_dev)) = Inr (0, w')"
    "dv_records (env_dev w' (target_addr (sample_intf\<lparr>target_addr := 0x20\<rparr>))) =
      concat (map (\<lambda>a. dv_records sample_dev) (filter (\<lambda>a. a = 0x20 \<or> a = 0xC4) (slot_addrs 11 0xB0)))"
    "target_addr (env_intf w') = (if (11 :: nat) = 0 \<or> (\<lambda>a. a = 0x20 \<or> a = 0xC4) (last (slot_addrs 11 0xB0))
      then target_addr (sample_intf\<lparr>target_addr := 0x20\<rparr>) else last (slot_addrs 11 0xB0))"
    using sdr_fill_from_slots [where on = "\<lambda>a. a = 0x20 \<or> a = 0xC4" and i = "sample_intf\<lparr>target_addr := 0x20\<rparr>" and n = 11 and k = 600
      and b = "\<lambda>_. sample_dev" and extra = 3] sample_readable_at by auto
  show ?thesis
    using w' unfolding a by (intro exI [of _ w']) (simp add: sample_dev_def)
qed

end
