(* ===== verification/SdrErrors.thy ===== *)
theory SdrErrors
  imports SdrFill
begin

text \<open>
  Two sequences of commands on the records that end badly on every device: filling a repository from a
  file, and searching after a dump.
\<close>

section \<open>Filling from a file\<close>

lemma bus_always_answers: "\<exists>r st'. slot_bus on n i rq st = Inr (r, st')"
  by (auto simp: slot_bus_def sdr_bus_def split: prod.splits)

lemma bus_send: "\<exists>r w'. sdr_send (slot_bus on n) rq w = Inr (r, w')"
  using bus_always_answers [of on n "env_intf w" rq "env_dev w"] by (auto simp: sdr_send_def)

lemma bus_partial: "\<exists>r w'. partial_send (slot_bus on n) rq w = Inr (r, w')"
  using bus_send [of on n rq w] by (auto simp: partial_send_def split: option.splits)

lemma bus_reservation: "\<exists>r w'. ipmi_sdr_get_reservation (slot_bus on n) b w = Inr (r, w')"
proof -
  obtain r w1 where "sdr_send (slot_bus on n) (mk_rq (sdr_netfn b) GET_SDR_RESERVE_REPO []) w = Inr (r, w1)"
    using bus_send by blast
  then show ?thesis
    by (cases r) (simp_all add: ipmi_sdr_get_reservation_def)
qed

lemma bus_pieces: "len \<le> length raw \<Longrightarrow> \<exists>rc w'. add_pieces (slot_bus on n) res raw len i rid w = Inr (rc, w')"
proof (induction "len - i" arbitrary: i rid w rule: less_induct)
  case less
  show ?case
  proof (cases "len \<le> i")
    case False
    define final where "final = (len - i \<le> sdr_max_write_len)"
    define m where "m = (if final then len - i else sdr_max_write_len)"
    have m: "\<not> length raw < i + m" "len - (i + m) < len - i"
      using False less.prems by (auto simp: m_def final_def sdr_max_write_len_def)
    obtain x w1 where s: "partial_send (slot_bus on n) (sdr_add_rq res rid (of_nat (i + 5)) (if final then 1 else 0) (region raw i m)) w = Inr (x, w1)"
      using bus_partial by blast
    have "add_pieces (slot_bus on n) res raw len i rid w =
        (case x of None \<Rightarrow> Inr (-1, w1) | Some rid1 \<Rightarrow> add_pieces (slot_bus on n) res raw len (i + m) rid1 w1)"
      unfolding add_pieces.simps [of _ res raw len i rid w] Let_def final_def [symmetric] m_def [symmetric]
      using False m(1) s by (simp only: if_False bind_ok_simps prod.case)
    then show ?thesis
      using less.hyps [OF m(2) less.prems] by (cases x) simp_all
  qed (simp add: add_pieces.simps)
qed

definition whole :: "sdr_entry \<Rightarrow> bool" where
  "whole e \<longleftrightarrow> (\<forall>raw. se_raw e = Some raw \<longrightarrow> unat (se_length e) \<le> length raw)"

lemma bus_add_record:
  assumes "whole e"
  shows "\<exists>rc w'. ipmi_sdr_add_record (slot_bus on n) e w = Inr (rc, w')"
proof (cases "if unat (se_length e) < 1 then None else se_raw e")
  case None
  then show ?thesis
    by (simp add: ipmi_sdr_add_record_def Let_def)
next
  case (Some raw)
  then have len: "unat (se_length e) \<le> length raw"
    using assms by (simp add: whole_def split: if_split_asm)
  obtain r w1 where r: "ipmi_sdr_get_reservation (slot_bus on n) False w = Inr (r, w1)"
    using bus_reservation by blast
  show ?thesis
  proof (cases r)
    case (Some x)
    obtain y w2 where "partial_send (slot_bus on n) (sdr_add_rq x 0 0 0 (entry_header e)) w1 = Inr (y, w2)"
      using bus_partial by blast
    then show ?thesis
      using \<open>(if unat (se_length e) < 1 then None else se_raw e) = Some raw\<close> r Some bus_pieces [OF len]
      by (cases y) (simp_all add: ipmi_sdr_add_record_def Let_def)
  qed (use Some r in \<open>simp add: ipmi_sdr_add_record_def Let_def\<close>)
qed

lemma bus_unended_queue:
  "q \<noteq> [] \<Longrightarrow> \<forall>e \<in> set q. whole e \<Longrightarrow> add_queue (slot_bus on n) False rc q w = Inl Indeterminate"
proof (induction q arbitrary: rc w)
  case (Cons e q)
  obtain rc1 w1 where "ipmi_sdr_add_record (slot_bus on n) e w = Inr (rc1, w1)"
    using bus_add_record [of e on n w] Cons.prems(2) by auto
  then show ?case
    using Cons by (cases "q = []") simp_all
qed simp

lemma read_records_whole: "ipmi_sdr_read_records d = (rc, q) \<Longrightarrow> \<forall>e \<in> set q. whole e"
proof (induction d arbitrary: rc q rule: ipmi_sdr_read_records.induct)
  case (1 d)
  show ?case
  proof (cases "length d < 5 \<or> length (drop 5 d) < unat (d ! 4)")
    case True
    then show ?thesis
      using "1.prems" by (auto simp: ipmi_sdr_read_records.simps [of d] Let_def split: if_splits)
  next
    case False
    obtain rc1 q1 where q1: "ipmi_sdr_read_records (drop (unat (d ! 4)) (drop 5 d)) = (rc1, q1)"
      by fastforce
    have "\<forall>e \<in> set q1. whole e"
      using "1.IH" False q1 by blast
    moreover have "q = \<lparr>se_id = of_le16 d, se_version = d ! 2, se_type = d ! 3, se_length = d ! 4,
        se_raw = Some (take (unat (d ! 4)) (drop 5 d)), se_record = None\<rparr> # q1"
      using "1.prems" False q1 by (simp add: ipmi_sdr_read_records.simps [of d] Let_def)
    ultimately show ?thesis
      using False by (simp add: whole_def)
  qed
qed

text \<open>A file never fills a repository: with at least one whole record the loop follows the link of the last
  one, which was never set, after the repository has been erased; and a file that cannot be opened still erases it.
\<close>

theorem sdr_fill_from_file_fails:
  assumes "on (target_addr i)" "5 \<le> length d" "5 + unat (d ! 4) \<le> length d"
  shows "ipmi_sdr_add_from_file (slot_bus on n) (Some d) (fresh_env i b) = Inl Indeterminate \<and>
    (\<exists>w'. ipmi_sdr_add_from_file (slot_bus on n) None (fresh_env i b) = Inr (-1, w') \<and> dv_records (env_dev w' (target_addr i)) = [])"
proof -
  obtain w1 where c: "ipmi_sdr_repo_clear (slot_bus on n) (fresh_env i b) = Inr (0, w1)" "dv_records (env_dev w1 (target_addr i)) = []"
    using store.repo_clear_ok [where a = "target_addr i" and n = n and on = on and w = "fresh_env i b"] assms(1)
    by (auto simp: fresh_env_def)
  obtain rc q where q: "ipmi_sdr_read_records d = (rc, q)"
    by fastforce
  have "q \<noteq> []"
    using q assms(2,3) by (auto simp: ipmi_sdr_read_records.simps [of d] Let_def split: if_splits prod.splits)
  then have "add_queue (slot_bus on n) False rc q w1 = Inl Indeterminate"
    using read_records_whole [OF q] by (rule bus_unended_queue)
  then show ?thesis
    using c q by (simp add: ipmi_sdr_add_from_file_def)
qed

theorem sdr_fill_from_file_fails_witness:
  "ipmi_sdr_add_from_file (slot_bus (\<lambda>_. True) 8) (Some (concat (map sdr_bytes (dv_records sample_dev))))
     (fresh_env sample_intf (\<lambda>_. sample_dev)) = Inl Indeterminate"
proof -
  have "5 + unat (concat (map sdr_bytes (dv_records sample_dev)) ! 4) \<le> length (concat (map sdr_bytes (dv_records sample_dev)))"
    by (simp add: sample_dev_def sdr_bytes_def nth_append le16_def)
  then show ?thesis
    using sdr_fill_from_file_fails [where on = "\<lambda>_. True" and n = 8 and i = sample_intf and b = "\<lambda>_. sample_dev"
        and d = "concat (map sdr_bytes (dv_records sample_dev))"] by simp
qed

section \<open>Searching after a dump\<close>

text \<open>A record without content that a test looks into.\<close>

definition sensor_record :: "sdr_rec \<Rightarrow> bool" where
  "sensor_record r \<longleftrightarrow> is_sensor (sr_type r) \<or> sr_type r = 0x03"

lemma select_raw:
  assumes "\<And>r. f (raw_entry r) = (if P r then Inl Dangling else Inr False)" "\<exists>r \<in> set rs. P r"
  shows "select f (map raw_entry rs) = Inl Dangling \<and> first_of f (map raw_entry rs) = Inl Dangling"
  using assms(2)
proof (induction rs)
  case (Cons r rs)
  then show ?case
    by (cases "P r") (simp_all add: assms(1))
qed simp

lemma raw_tests:
  "match_sensortype ty (raw_entry r) = (if sensor_record r then Inl Dangling else Inr False)"
  "match_numtype g num ty (raw_entry r) = (if sensor_record r then Inl Dangling else Inr False)"
  by (auto simp: sensor_record_def match_sensortype_def match_numtype_def Let_def sdr_test_def sdr_byte_def and_then_def raw_entry_def)

context sdr_host
begin

lemma search_raw:
  assumes "closed w" "sdr_list_itr w = None" "sdr_list w = map raw_entry rs"
    "\<exists>r \<in> set rs. sensor_record r"
  shows "ipmi_sdr_find_sdr_bysensortype k send ty w = Inl Dangling" "ipmi_sdr_find_sdr_bynumtype k send g num ty w = Inl Dangling"
proof -
  obtain itr w' where s: "ipmi_sdr_start k send False w = Inr (Some itr, w')" "sdr_list w' = sdr_list w"
    using start_ok [OF assms(1)] unfolding ipmi_sdr_start_def by metis
  have o: "sdr_open k send w = Inr (Some itr, w'\<lparr>sdr_list_itr := Some itr\<rparr>)"
    using s(1) assms(2) by (simp add: sdr_open_def)
  have "select (match_sensortype ty) (map raw_entry rs) = Inl Dangling"
    using select_raw [where f = "match_sensortype ty", OF raw_tests(1) assms(4)] by blast
  moreover have "first_of (match_numtype g num ty) (map raw_entry rs) = Inl Dangling"
    using select_raw [where f = "match_numtype g num ty", OF raw_tests(2) assms(4)] by blast
  ultimately show "ipmi_sdr_find_sdr_bysensortype k send ty w = Inl Dangling" "ipmi_sdr_find_sdr_bynumtype k send g num ty w = Inl Dangling"
    using o s(2) assms(3)
    by (simp_all add: ipmi_sdr_find_sdr_bysensortype_def ipmi_sdr_find_sdr_bynumtype_def find_all_def find_first_def)
qed

end

text \<open>A dump leaves its records in the list without their decoded content: if one of them is a sensor, the
  next search for sensors of any type, or for any sensor by number, follows a null pointer.
\<close>

theorem sdr_search_after_dump_crashes:
  assumes "readable k i (b (target_addr i))" "on (target_addr i)"
    "\<exists>r \<in> set (dv_records (b (target_addr i))). sensor_record r"
  shows "\<exists>d w1. ipmi_sdr_dump_bin k (slot_bus on (extra + 5)) True (fresh_env i b) = Inr (0, Some d, w1) \<and>
    ipmi_sdr_find_sdr_bysensortype k (slot_bus on (extra + 5)) ty w1 = Inl Dangling \<and>
    ipmi_sdr_find_sdr_bynumtype k (slot_bus on (extra + 5)) g num ty w1 = Inl Dangling"
proof -
  have f: "env_dev (fresh_env i b) = b" "sdr_list (fresh_env i b) = []" "sdr_list_itr (fresh_env i b) = None"
    by (simp_all add: fresh_env_def)
  have "509 \<le> k" "length (dv_records (b (target_addr i))) < k"
    using assms(1) by (simp_all add: readable_def)
  then obtain w1 where d: "ipmi_sdr_dump_bin k (slot_bus on (extra + 5)) True (fresh_env i b) =
      Inr (0, Some (concat (map sdr_bytes (dv_records (b (target_addr i))))), w1)"
    "sdr_list w1 = map raw_entry (dv_records (b (target_addr i)))" "sdr_list_itr w1 = None" "bus.closed (target_addr i) on w1"
    using bus.dump_ok [OF fresh_closed(1) [where b = b and i = i and on = on, OF assms(1,2)], of k extra] f by auto
  show ?thesis
    using d(1) bus.search_raw [where extra = extra, OF d(4,3,2) assms(3)] by blast
qed

theorem sdr_search_after_dump_crashes_witness:
  "\<exists>d w1. ipmi_sdr_dump_bin 600 (slot_bus (\<lambda>_. True) (3 + 5)) True (fresh_env sample_intf (\<lambda>_. sample_dev)) = Inr (0, Some d, w1) \<and>
    ipmi_sdr_find_sdr_bysensortype 600 (slot_bus (\<lambda>_. True) (3 + 5)) 0x01 w1 = Inl Dangling"
proof -
  have "\<exists>r \<in> set (dv_records sample_dev). sensor_record r"
    by (simp add: sample_dev_def sensor_record_def)
  then show ?thesis
    using sdr_search_after_dump_crashes [where on = "\<lambda>_. True" and i = sample_intf and b = "\<lambda>_. sample_dev" and extra = 3] sample_readable
    by blast
qed

end
