(* ===== verification/SdrList.thy ===== *)
theory SdrList
  imports SdrFile
begin

text \<open>
  The list of slave addresses as the parser of \<open>lib/ipmi_sdradd.c\<close> reads it: what a range stands for, and the
  lists it refuses.
\<close>

section \<open>Ranges\<close>

text \<open>Rounds of a range that has not reached its end.\<close>

lemma put_range_steps:
  assumes "\<forall>j < n. v + 2 * of_nat (j + 1) \<noteq> e" "length hex + n \<le> MAX_NUM_SLOT"
  shows "put_range (n + k) v e hex = put_range k (v + 2 * of_nat n) e (hex @ map (\<lambda>j. v + 2 * of_nat j) [0..<n])"
  using assms
proof (induction n arbitrary: k)
  case (Suc n)
  have "put_range (n + Suc k) v e hex = put_range (Suc k) (v + 2 * of_nat n) e (hex @ map (\<lambda>j. v + 2 * of_nat j) [0..<n])"
    using Suc.prems by (intro Suc.IH) simp_all
  also have "\<dots> = put_range k (v + 2 * of_nat (Suc n)) e (hex @ map (\<lambda>j. v + 2 * of_nat j) [0..<Suc n])"
  proof -
    have "v + 2 * of_nat n + 2 \<noteq> e"
      using Suc.prems(1) by (auto simp: algebra_simps)
    moreover have "length (hex @ map (\<lambda>j. v + 2 * of_nat j) [0..<n]) < MAX_NUM_SLOT"
      using Suc.prems(2) by simp
    ultimately show ?thesis
      by (simp add: put_slot_def algebra_simps)
  qed
  finally show ?case
    by simp
qed simp

text \<open>Strings within the buffer.\<close>

lemma takeWhile_stop: "c \<notin> set x \<Longrightarrow> takeWhile (\<lambda>u. u \<noteq> c) (x @ c # y) = x"
  by (induction x) auto

lemma c_string_at: "0 \<notin> set x \<Longrightarrow> c_string (z @ x @ 0 # y) (length z) = x"
  by (simp add: c_string_def takeWhile_stop)

lemma find_char_at:
  "0 \<notin> set x \<Longrightarrow> find_char c (z @ x @ 0 # y) (length z) =
     (if c \<in> set x then Some (length z + length (takeWhile (\<lambda>u. u \<noteq> c) x)) else None)"
  by (simp add: find_char_def c_string_at Let_def)

lemma split_at_char:
  assumes "c \<in> set x"
  obtains u v where "x = u @ c # v" "c \<notin> set u" "length (takeWhile (\<lambda>w. w \<noteq> c) x) = length u"
proof -
  obtain u v where "x = u @ c # v" "c \<notin> set u"
    using split_list_first [OF assms] by blast
  then show thesis
    by (intro that [of u v]) (simp_all add: takeWhile_stop)
qed

lemma slave_hex_chars: "slave_hex_digit c = Some d \<Longrightarrow> c \<noteq> 0 \<and> c \<noteq> 0x2C \<and> c \<noteq> 0x2D"
  by (auto simp: slave_hex_digit_def split: if_splits)

lemma hex_to_dec_chars:
  assumes "ipmi_hex_to_dec s = Some v"
  shows "length s = 4" "0 \<notin> set s" "0x2C \<notin> set s" "0x2D \<notin> set s"
proof -
  obtain a b where d: "length s = 4" "s ! 0 = 0x30" "s ! 1 = 0x78" "slave_hex_digit (s ! 2) = Some a" "slave_hex_digit (s ! 3) = Some b"
    using assms by (auto simp: ipmi_hex_to_dec_def split: if_splits option.splits)
  have "s = [s ! 0, s ! 1, s ! 2, s ! 3]"
    using d(1) by (auto simp: list_eq_iff_nth_eq numeral_eq_Suc less_Suc_eq)
  then have s: "s = [0x30, 0x78, s ! 2, s ! 3]"
    unfolding d(2,3) .
  show "length s = 4" "0 \<notin> set s" "0x2C \<notin> set s" "0x2D \<notin> set s"
    using d(1) slave_hex_chars [OF d(4)] slave_hex_chars [OF d(5)] by (simp, (subst s, simp)+)
qed

text \<open>A single range.\<close>

lemma parse_one_range:
  assumes "ipmi_hex_to_dec x = Some v" "ipmi_hex_to_dec y = Some e" "v AND 1 = 0" "e AND 1 = 0"
  shows "ipmi_parse_range_list (x @ 0x2D # y) = bind_ok (put_range 128 v e []) (\<lambda>hex. Inr (True, hex))"
proof -
  note x = hex_to_dec_chars [OF assms(1)] and y = hex_to_dec_chars [OF assms(2)]
  define buf where "buf = (x @ 0x2D # y) @ [0 :: byte]"
  have n: "0 \<notin> set (x @ 0x2D # y)"
    using x y by simp
  have "find_char 0x2C buf 0 = None"
    using find_char_at [where z = "[]" and c = "0x2C" and y = "[]", OF n] x y by (simp add: buf_def)
  moreover have "find_char 0x2D buf 0 = Some (length x)"
    using find_char_at [where z = "[]" and c = "0x2D" and y = "[]", OF n] x y by (simp add: buf_def takeWhile_stop)
  moreover have "buf[length x := 0] = x @ 0 # y @ [0]"
    by (simp add: buf_def list_update_append)
  moreover have "c_string (x @ 0 # y @ [0]) 0 = x" "c_string (x @ 0 # y @ [0]) (length x + 1) = y"
    using c_string_at [where x = x and z = "[]"] c_string_at [where x = y and z = "x @ [0]" and y = "[]"] x y by simp_all
  ultimately have "range_loop buf 0 [] = bind_ok (put_range 128 v e []) (\<lambda>hex. Inr (True, hex))"
    using assms by (cases "put_range 128 v e []") (simp_all add: range_loop.simps [of buf 0 "[]"] parse_entry_def Let_def)
  moreover have "x \<noteq> []" "hd x \<noteq> 0x2C"
    using x by (cases x; auto)+
  ultimately show ?thesis
    by (simp add: ipmi_parse_range_list_def buf_def)
qed

text \<open>
  The addresses of a range of two: the even values from the first to the second, modulo 256; of a range of one:
  129 values, one more than the array has room for.
\<close>

lemma even_distance:
  fixes v e :: byte
  assumes "v AND 1 = 0" "e AND 1 = 0"
  shows "e = v + 2 * of_nat (unat (e - v) div 2)"
proof -
  have "even (unat x)" if "x AND 1 = 0" for x :: byte
  proof -
    have "unat x AND unat (1 :: byte) = unat (0 :: byte)"
      unfolding that [symmetric] by (rule unsigned_and_eq [symmetric])
    then show ?thesis
      by (simp add: and_one_eq mod_2_eq_odd split: if_splits)
  qed
  then have "even (unat v)" "even (unat e)"
    using assms by blast+
  moreover have "unat (e - v) = (if unat v \<le> unat e then unat e - unat v else 256 + unat e - unat v)"
    by (auto simp: unat_sub_if_size word_size)
  ultimately have "even (unat (e - v))"
    using unat_byte_less [of v] by auto
  then have "2 * (unat (e - v) div 2) = unat (e - v)"
    by simp
  then have "(2 :: byte) * of_nat (unat (e - v) div 2) = of_nat (unat (e - v))"
    by (metis of_nat_mult of_nat_numeral)
  then show ?thesis
    by simp
qed

lemma double_of_nat: "0 < m \<Longrightarrow> m \<le> 127 \<Longrightarrow> unat (of_nat (2 * m) :: byte) = 2 * m"
  by (simp only: unat_of_nat) simp

lemma put_range_reaches:
  assumes "0 < n" "n \<le> 127" "e = v + of_nat (2 * n)"
  shows "put_range 128 v e [] = Inr (map (\<lambda>j. v + 2 * of_nat j) [0..<n] @ [e])"
proof -
  have ne: "v + 2 * of_nat (j + 1) \<noteq> e" if "j < n - 1" for j
  proof
    assume "v + 2 * of_nat (j + 1) = e"
    then have "(of_nat (2 * (j + 1)) :: byte) = of_nat (2 * n)"
      unfolding assms(3) by simp
    then have "unat (of_nat (2 * (j + 1)) :: byte) = unat (of_nat (2 * n) :: byte)"
      by (rule arg_cong)
    moreover have "unat (of_nat (2 * (j + 1)) :: byte) = 2 * (j + 1)" "unat (of_nat (2 * n) :: byte) = 2 * n"
      by (rule double_of_nat; use that assms(1,2) in linarith)+
    ultimately have "2 * (j + 1) = 2 * n"
      by metis
    then show False
      using that by simp
  qed
  have "put_range ((n - 1) + Suc (128 - n)) v e [] =
      put_range (Suc (128 - n)) (v + 2 * of_nat (n - 1)) e ([] @ map (\<lambda>j. v + 2 * of_nat j) [0..<n - 1])"
    using ne assms(1,2) by (intro put_range_steps) (simp_all add: MAX_NUM_SLOT_def)
  moreover have "(n - 1) + Suc (128 - n) = 128"
    using assms(1,2) by simp
  moreover have "v + 2 * of_nat (n - 1) + 2 = e"
    unfolding assms(3) using assms(1) by (cases n) (simp_all add: algebra_simps)
  moreover have "map (\<lambda>j. v + 2 * of_nat j) [0..<n] = map (\<lambda>j. v + 2 * of_nat j) [0..<n - 1] @ [v + 2 * of_nat (n - 1)]"
    using assms(1) by (cases n) simp_all
  ultimately show ?thesis
    using assms(1,2) by (simp add: put_slot_def MAX_NUM_SLOT_def)
qed

lemma put_range_two:
  assumes "v AND 1 = 0" "e AND 1 = 0" "v \<noteq> e"
  shows "put_range 128 v e [] = Inr (map (\<lambda>j. v + 2 * of_nat j) [0..<unat (e - v) div 2] @ [e])"
proof (rule put_range_reaches)
  have d: "e = v + 2 * of_nat (unat (e - v) div 2)"
    by (rule even_distance [OF assms(1,2)])
  then show "e = v + of_nat (2 * (unat (e - v) div 2))"
    by (simp only: of_nat_mult of_nat_numeral)
  show "0 < unat (e - v) div 2"
  proof (rule ccontr)
    assume "\<not> 0 < unat (e - v) div 2"
    then have z: "unat (e - v) div 2 = 0"
      by simp
    have "e = v"
      using d unfolding z by simp
    then show False
      using assms(3) by simp
  qed
  show "unat (e - v) div 2 \<le> 127"
    using unat_byte_less [of "e - v"] by simp
qed

lemma put_range_one: "put_range 128 v v [] = Inl OutOfBounds"
proof -
  have "v + 2 * of_nat (j + 1) \<noteq> v" if "j < 127" for j
  proof
    assume "v + 2 * of_nat (j + 1) = v"
    then have "(of_nat (2 * (j + 1)) :: byte) = 0"
      by simp
    then have "unat (of_nat (2 * (j + 1)) :: byte) = 0"
      by simp
    moreover have "unat (of_nat (2 * (j + 1)) :: byte) = 2 * (j + 1)"
      by (rule double_of_nat; use that in linarith)
    ultimately have "2 * (j + 1) = 0"
      by metis
    then show False
      by simp
  qed
  then have "put_range (127 + Suc 0) v v [] = put_range (Suc 0) (v + 2 * of_nat 127) v ([] @ map (\<lambda>j. v + 2 * of_nat j) [0..<127])"
    by (intro put_range_steps) (simp_all add: MAX_NUM_SLOT_def)
  also have "\<dots> = Inl OutOfBounds"
  proof -
    define xs where "xs = [] @ map (\<lambda>j. v + 2 * of_nat j) [0..<127]"
    have "length xs = 127"
      unfolding xs_def by (simp only: length_append length_map length_upt list.size)
    then show ?thesis
      unfolding xs_def [symmetric] by (simp add: put_slot_def MAX_NUM_SLOT_def)
  qed
  finally show ?thesis
    by simp
qed

text \<open>Two even addresses with a hyphen between them stand for the even values from the first to the
  second, modulo 256; if they are the same, the parser writes 129 addresses into the array of 128.
\<close>

theorem slave_range_parsed:
  assumes "ipmi_hex_to_dec x = Some v" "ipmi_hex_to_dec y = Some e" "v AND 1 = 0" "e AND 1 = 0"
  shows "ipmi_parse_range_list (x @ 0x2D # y) =
    (if v = e then Inl OutOfBounds else Inr (True, map (\<lambda>j. v + 2 * of_nat j) [0..<unat (e - v) div 2] @ [e]))"
  using parse_one_range [OF assms] put_range_one [of v] put_range_two [OF assms(3,4)] by (cases "v = e") simp_all

theorem slave_range_parsed_witness:
  "ipmi_parse_range_list [0x30, 0x78, 0x46, 0x43, 0x2D, 0x30, 0x78, 0x30, 0x32] = Inr (True, [0xFC, 0xFE, 0, 2]) \<and>
   ipmi_parse_range_list [0x30, 0x78, 0x32, 0x34, 0x2D, 0x30, 0x78, 0x32, 0x34] = Inl OutOfBounds"
proof -
  have h: "ipmi_hex_to_dec [0x30, 0x78, 0x46, 0x43] = Some 0xFC" "ipmi_hex_to_dec [0x30, 0x78, 0x30, 0x32] = Some 0x02"
    "ipmi_hex_to_dec [0x30, 0x78, 0x32, 0x34] = Some 0x24"
    by (simp_all add: ipmi_hex_to_dec_def slave_hex_digit_def)
  show ?thesis
    using slave_range_parsed [OF h(1,2)] slave_range_parsed [OF h(3,3)] by (simp add: upt_rec)
qed

text \<open>A comma never is part of an address.\<close>

lemma hex_to_dec_comma: "0x2C \<in> set s \<Longrightarrow> ipmi_hex_to_dec s = None"
  using hex_to_dec_chars(3) by fastforce

lemma parse_entry_comma:
  assumes "0 \<notin> set b" "0x2C \<in> set b" "length z = p"
  shows "\<exists>buf1. parse_entry (z @ b @ [0]) p hex = Inr (buf1, False, hex)"
proof (cases "0x2D \<in> set b")
  case False
  then show ?thesis
    using find_char_at [where x = b and z = z and c = "0x2D" and y = "[]", OF assms(1)] c_string_at [where x = b and z = z and y = "[]", OF assms(1)]
      hex_to_dec_comma [OF assms(2)] assms(3) by (simp add: parse_entry_def)
next
  case True
  then obtain u v where uv: "b = u @ 0x2D # v" "length (takeWhile (\<lambda>w. w \<noteq> 0x2D) b) = length u"
    by (rule split_at_char)
  have r: "find_char 0x2D (z @ b @ [0]) p = Some (p + length u)"
    using find_char_at [where x = b and z = z and c = "0x2D" and y = "[]", OF assms(1)] assms(3) True uv(2) by simp
  have "(z @ b @ [0])[p + length u := 0] = z @ u @ 0 # v @ [0]"
    using assms(3) uv(1) by (simp add: list_update_append)
  moreover have "c_string (z @ u @ 0 # v @ [0]) p = u" "c_string (z @ u @ 0 # v @ [0]) (p + length u + 1) = v"
    using c_string_at [where x = u and z = z] c_string_at [where x = v and z = "z @ u @ [0]" and y = "[]"] assms(1,3) uv(1)
    by (auto simp: add.assoc)
  moreover have "ipmi_hex_to_dec u = None \<or> ipmi_hex_to_dec v = None"
    using assms(2) uv(1) hex_to_dec_comma by auto
  ultimately show ?thesis
    using r by (auto simp: parse_entry_def Let_def split: option.splits)
qed

lemma parse_entry_buffer:
  assumes "parse_entry buf p hex = Inr (buf1, ok, hex1)"
  shows "buf1 = buf \<or> (\<exists>r. find_char 0x2D buf p = Some r \<and> buf1 = buf[r := 0])"
  using assms by (auto simp: parse_entry_def Let_def bind_ok_Inr_iff split: option.splits if_splits)

text \<open>A list of three or more entries is refused, since the second comma is looked for before the
  first one, where the parser has already put a terminator; the usage text offers \<open>0x28,0x32,0x40-0x44\<close>.
\<close>

theorem slave_list_third_entry_refused:
  assumes "a \<noteq> []" "0 \<notin> set (a @ b)" "0x2C \<notin> set a" "0x2C \<in> set b"
  shows "ipmi_parse_range_list (a @ 0x2C # b) \<noteq> Inr (True, hex)"
proof -
  define buf where "buf = a @ 0x2C # b @ [0 :: byte]"
  have n: "0 \<notin> set (a @ 0x2C # b)"
    using assms(2) by simp
  have c: "find_char 0x2C buf 0 = Some (length a)"
    using find_char_at [where z = "[]" and c = "0x2C" and y = "[]", OF n] assms(3) by (simp add: buf_def takeWhile_stop)
  define buf0 where "buf0 = a @ 0 # b @ [0 :: byte]"
  have buf0: "buf[length a := 0] = buf0"
    by (simp add: buf_def buf0_def list_update_append)
  have "range_loop buf1 (length a + 1) hex1 = Inr (False, hex1)" if p: "parse_entry buf0 0 [] = Inr (buf1, ok, hex1)" for buf1 ok hex1
  proof -
    have na: "0 \<notin> set a"
      using assms(2) by simp
    have "\<exists>z. buf1 = z @ b @ [0] \<and> length z = length a + 1 \<and> 0x2C \<notin> set z \<and> 0 \<in> set z"
    proof (cases "buf1 = buf0")
      case True
      then show ?thesis
        using assms(3) by (intro exI [of _ "a @ [0]"]) (simp add: buf0_def)
    next
      case False
      then obtain r where r: "find_char 0x2D buf0 0 = Some r" "buf1 = buf0[r := 0]"
        using parse_entry_buffer [OF p] by blast
      then have c: "0x2D \<in> set a" "r = length (takeWhile (\<lambda>w. w \<noteq> 0x2D) a)"
        using find_char_at [where x = a and z = "[]" and c = "0x2D" and y = "b @ [0]", OF na] by (auto simp: buf0_def split: if_splits)
      then have "r < length a"
        using split_at_char [OF c(1)] by (metis add_Suc_right length_Cons length_append less_add_Suc1)
      then show ?thesis
        using assms(3) r(2) by (intro exI [of _ "a[r := 0] @ [0]"]) (auto simp: buf0_def list_update_append dest: set_update_subset_insert [THEN subsetD])
    qed
    then obtain z where z: "buf1 = z @ b @ [0]" "length z = length a + 1" "0x2C \<notin> set z" "0 \<in> set z"
      by blast
    obtain u v where uv: "z = u @ 0 # v" "0 \<notin> set u"
      using split_list_first [OF z(4)] by blast
    have "find_char 0x2C buf1 0 = None"
      using find_char_at [where x = u and z = "[]" and c = "0x2C", OF uv(2)] z(1,3) uv(1) by simp
    moreover obtain buf2 where "parse_entry buf1 (length a + 1) hex1 = Inr (buf2, False, hex1)"
      using parse_entry_comma [of b z "length a + 1" hex1] assms(2,4) z(1,2) by auto
    ultimately show ?thesis
      by (simp add: range_loop.simps [of buf1])
  qed
  then have "range_loop buf 0 [] \<noteq> Inr (True, hex)"
    using c buf0 by (auto simp: range_loop.simps [of buf] split: sum.splits prod.splits)
  moreover have "hd (a @ 0x2C # b) \<noteq> 0x2C"
    using assms(1,3) by (cases a) auto
  ultimately show ?thesis
    by (simp add: ipmi_parse_range_list_def buf_def)
qed

theorem slave_list_third_entry_refused_witness:
  "ipmi_parse_range_list ([0x30, 0x78, 0x32, 0x38] @ 0x2C # [0x30, 0x78, 0x33, 0x32, 0x2C, 0x30, 0x78, 0x34, 0x30, 0x2D, 0x30, 0x78, 0x34, 0x34])
     \<noteq> Inr (True, [0x28, 0x32, 0x40, 0x42, 0x44])"
  by (rule slave_list_third_entry_refused) simp_all

end
