(* ===== verification/Md5.thy ===== *)
theory Md5
  imports Prelude
begin

text \<open>
  The MD5 digest, \<open>src/plugins/lan/md5.c\<close>: the state is fed pieces of a message and keeps the part of
  a block that is not complete. The specification is the digest of the whole padded message.
\<close>

section \<open>The block function\<close>

definition md5_F :: "u32 \<Rightarrow> u32 \<Rightarrow> u32 \<Rightarrow> u32" where "md5_F x y z = (x AND y) OR (NOT x AND z)"
definition md5_G :: "u32 \<Rightarrow> u32 \<Rightarrow> u32 \<Rightarrow> u32" where "md5_G x y z = (x AND z) OR (y AND NOT z)"
definition md5_H :: "u32 \<Rightarrow> u32 \<Rightarrow> u32 \<Rightarrow> u32" where "md5_H x y z = x XOR y XOR z"
definition md5_I :: "u32 \<Rightarrow> u32 \<Rightarrow> u32 \<Rightarrow> u32" where "md5_I x y z = y XOR (x OR NOT z)"

definition ROTATE_LEFT :: "u32 \<Rightarrow> nat \<Rightarrow> u32" where
  "ROTATE_LEFT x n = push_bit n x OR drop_bit (32 - n) x"

type_synonym md5_regs = "u32 \<times> u32 \<times> u32 \<times> u32"

text \<open>
  The macro \<open>SET\<close>. Its register arguments rotate from line to line, \<open>a b c d\<close>, \<open>d a b c\<close>, \<open>c d a b\<close>,
  \<open>b c d a\<close>; the result is in the order of the next line. A line is its \<open>k\<close>, \<open>s\<close> and constant.
\<close>

fun md5_set :: "(u32 \<Rightarrow> u32 \<Rightarrow> u32 \<Rightarrow> u32) \<Rightarrow> u32 list \<Rightarrow> md5_regs \<Rightarrow> nat \<times> nat \<times> u32 \<Rightarrow> md5_regs" where
  "md5_set f X (a, b, c, d) (k, s, t) = (d, ROTATE_LEFT (a + f b c d + X ! k + t) s + b, b, c)"

text \<open>The lines of the four rounds; \<open>NOT\<close> is \<open>T_MASK ^\<close>.\<close>

definition md5_round1 :: "(nat \<times> nat \<times> u32) list" where
  "md5_round1 =
    [(0, 7, NOT 0x28955b87), (1, 12, NOT 0x173848a9), (2, 17, 0x242070db), (3, 22, NOT 0x3e423111),
     (4, 7, NOT 0x0a83f050), (5, 12, 0x4787c62a), (6, 17, NOT 0x57cfb9ec), (7, 22, NOT 0x02b96afe),
     (8, 7, 0x698098d8), (9, 12, NOT 0x74bb0850), (10, 17, NOT 0x0000a44e), (11, 22, NOT 0x76a32841),
     (12, 7, 0x6b901122), (13, 12, NOT 0x02678e6c), (14, 17, NOT 0x5986bc71), (15, 22, 0x49b40821)]"

definition md5_round2 :: "(nat \<times> nat \<times> u32) list" where
  "md5_round2 =
    [(1, 5, NOT 0x09e1da9d), (6, 9, NOT 0x3fbf4cbf), (11, 14, 0x265e5a51), (0, 20, NOT 0x16493855),
     (5, 5, NOT 0x29d0efa2), (10, 9, 0x02441453), (15, 14, NOT 0x275e197e), (4, 20, NOT 0x182c0437),
     (9, 5, 0x21e1cde6), (14, 9, NOT 0x3cc8f829), (3, 14, NOT 0x0b2af278), (8, 20, 0x455a14ed),
     (13, 5, NOT 0x561c16fa), (2, 9, NOT 0x03105c07), (7, 14, 0x676f02d9), (12, 20, NOT 0x72d5b375)]"

definition md5_round3 :: "(nat \<times> nat \<times> u32) list" where
  "md5_round3 =
    [(5, 4, NOT 0x0005c6bd), (8, 11, NOT 0x788e097e), (11, 16, 0x6d9d6122), (14, 23, NOT 0x021ac7f3),
     (1, 4, NOT 0x5b4115bb), (4, 11, 0x4bdecfa9), (7, 16, NOT 0x0944b49f), (10, 23, NOT 0x4140438f),
     (13, 4, 0x289b7ec6), (0, 11, NOT 0x155ed805), (3, 16, NOT 0x2b10cf7a), (6, 23, 0x04881d05),
     (9, 4, NOT 0x262b2fc6), (12, 11, NOT 0x1924661a), (15, 16, 0x1fa27cf8), (2, 23, NOT 0x3b53a99a)]"

definition md5_round4 :: "(nat \<times> nat \<times> u32) list" where
  "md5_round4 =
    [(0, 6, NOT 0x0bd6ddbb), (7, 10, 0x432aff97), (14, 15, NOT 0x546bdc58), (5, 21, NOT 0x036c5fc6),
     (12, 6, 0x655b59c3), (3, 10, NOT 0x70f3336d), (10, 15, NOT 0x00100b82), (1, 21, NOT 0x7a7ba22e),
     (8, 6, 0x6fa87e4f), (15, 10, NOT 0x01d3191f), (6, 15, NOT 0x5cfebceb), (13, 21, 0x4e0811a1),
     (4, 6, NOT 0x08ac817d), (11, 10, NOT 0x42c50dca), (2, 15, 0x2ad7d2bb), (9, 21, NOT 0x14792c6e)]"

text \<open>The words of a block, and the block function.\<close>

definition md5_words :: "bytes \<Rightarrow> u32 list" where
  "md5_words data = map (\<lambda>i. of_le32 (drop (4 * i) data)) [0..<16]"

definition md5_process :: "bytes \<Rightarrow> md5_regs \<Rightarrow> md5_regs" where
  "md5_process data regs =
     (let X = md5_words data;
          (a, b, c, d) = foldl (md5_set md5_I X) (foldl (md5_set md5_H X) (foldl (md5_set md5_G X)
            (foldl (md5_set md5_F X) regs md5_round1) md5_round2) md5_round3) md5_round4;
          (a0, b0, c0, d0) = regs in
      (a0 + a, b0 + b, c0 + c, d0 + d))"

section \<open>The state\<close>

record md5_state =
  md_count0 :: u32
  md_count1 :: u32
  md_abcd :: md5_regs
  md_buf :: bytes

definition md5_start :: md5_regs where
  "md5_start = (0x67452301, NOT 0x10325476, NOT 0x67452301, 0x10325476)"

definition md5_init :: "md5_state \<Rightarrow> md5_state" where
  "md5_init s = s\<lparr>md_count0 := 0, md_count1 := 0, md_abcd := md5_start\<rparr>"

text \<open>The loop over whole blocks: the registers and what is left.\<close>

function md5_blocks :: "bytes \<Rightarrow> md5_regs \<Rightarrow> md5_regs \<times> bytes" where
  "md5_blocks p regs = (if 64 \<le> length p then md5_blocks (drop 64 p) (md5_process (take 64 p) regs) else (regs, p))"
  by pat_completeness auto

termination
  by (relation "measure (\<lambda>(p, regs). length p)") auto

declare md5_blocks.simps [simp del]

text \<open>The length of \<open>data\<close> is the \<open>int\<close> argument \<open>nbytes\<close>.\<close>

definition md5_count :: "nat \<Rightarrow> md5_state \<Rightarrow> md5_state" where
  "md5_count nbytes s =
     (let nbits = of_nat (8 * nbytes); c0 = md_count0 s + nbits; c1 = md_count1 s + of_nat (nbytes div 2 ^ 29) in
      s\<lparr>md_count0 := c0, md_count1 := (if c0 < nbits then c1 + 1 else c1)\<rparr>)"

definition md5_append :: "bytes \<Rightarrow> md5_state \<Rightarrow> md5_state" where
  "md5_append data s =
     (let offset = unat (drop_bit 3 (md_count0 s) AND 63); n = length data in
      if n = 0 then s
      else
        let s1 = md5_count n s;
            copy = (if offset = 0 then 0 else if offset + n > 64 then 64 - offset else n);
            s2 = s1\<lparr>md_buf := put_at (md_buf s1) offset (take copy data)\<rparr> in
        if offset \<noteq> 0 \<and> offset + copy < 64 then s2
        else
          let s3 = (if offset \<noteq> 0 then s2\<lparr>md_abcd := md5_process (md_buf s2) (md_abcd s2)\<rparr> else s2);
              (regs, rest) = md5_blocks (drop copy data) (md_abcd s3) in
          s3\<lparr>md_abcd := regs, md_buf := put_at (md_buf s3) 0 rest\<rparr>)"

definition md5_pad :: bytes where "md5_pad = 0x80 # replicate 63 0"

definition md5_finish :: "md5_state \<Rightarrow> bytes" where
  "md5_finish s =
     (let data = le32 (md_count0 s) @ le32 (md_count1 s);
          n = unat ((55 - drop_bit 3 (md_count0 s)) AND 63) + 1;
          (a, b, c, d) = md_abcd (md5_append data (md5_append (take n md5_pad) s)) in
      le32 a @ le32 b @ le32 c @ le32 d)"

end
