(* ===== verification/HpmCmd.thy ===== *)
theory HpmCmd
  imports SdrCache Md5
begin

text \<open>
  The commands of the HPM.1 firmware upgrade agent, \<open>lib/ipmi_hpmfwupg.c\<close>: \<open>HpmfwupgSendCmd\<close> with its
  retries, the single commands, and the loops that wait for the controller. Each loop is given \<open>k\<close> rounds.
\<close>

section \<open>The environment\<close>

text \<open>
  The functions of the interface: whether its name contains \<open>lan\<close>, \<open>sendrecv\<close>, \<open>close\<close>, \<open>open\<close>.
\<close>

record 's hpm_ops =
  op_lan :: bool
  op_send :: "'s intf_sendrecv"
  op_close :: "ipmi_intf \<Rightarrow> 's \<Rightarrow> (ipmi_intf \<times> 's) outcome"
  op_open :: "ipmi_intf \<Rightarrow> 's \<Rightarrow> (int \<times> ipmi_intf \<times> 's) outcome"

text \<open>\<open>VERSIONINFO\<close>; a version is its major and minor number and the four auxiliary bytes.\<close>

record version_info =
  vi_component :: nat
  vi_target :: bytes
  vi_rollback :: bytes
  vi_deferred :: bytes
  vi_image :: bytes
  vi_cold_reset :: bool
  vi_rollback_supported :: bool
  vi_deferred_supported :: bool
  vi_desc :: bytes

text \<open>
  The interface and what is behind it, the clock (\<open>hp_clock n\<close> is what the \<open>n\<close>-th call of \<open>time(NULL)\<close> gives),
  the words the user types, and the static variables: \<open>errorCount\<close> of the file, the one in
  \<open>HpmfwupgSendCmd\<close>, \<open>isValidSize\<close>, \<open>gVersionInfo\<close>.
\<close>

record 's hpm_env =
  hp_intf :: ipmi_intf
  hp_dev :: 's
  hp_clock :: "nat \<Rightarrow> u32"
  hp_ticks :: nat
  hp_answers :: "bytes list"
  error_count :: int
  resize_count :: int
  valid_size :: bool
  version_infos :: "version_info list"

definition hpm_time :: "'s hpm_env \<Rightarrow> u32 \<times> 's hpm_env" where
  "hpm_time w = (hp_clock w (hp_ticks w), w\<lparr>hp_ticks := hp_ticks w + 1\<rparr>)"

text \<open>\<open>struct HpmfwupgGetTargetUpgCapabilitiesResp\<close>.\<close>

record target_cap =
  tc_hpm_version :: byte
  tc_global :: byte
  tc_upgrade_timeout :: byte
  tc_selftest_timeout :: byte
  tc_rollback_timeout :: byte
  tc_inaccess_timeout :: byte
  tc_components :: byte

definition read_target_cap :: "bytes \<Rightarrow> target_cap" where
  "read_target_cap d = \<lparr>tc_hpm_version = d ! 1, tc_global = d ! 2, tc_upgrade_timeout = d ! 3, tc_selftest_timeout = d ! 4,
     tc_rollback_timeout = d ! 5, tc_inaccess_timeout = d ! 6, tc_components = d ! 7\<rparr>"

definition no_target_cap :: target_cap where
  "no_target_cap = \<lparr>tc_hpm_version = 0, tc_global = 0, tc_upgrade_timeout = 0, tc_selftest_timeout = 0,
     tc_rollback_timeout = 0, tc_inaccess_timeout = 0, tc_components = 0\<rparr>"

text \<open>
  \<open>struct HpmfwupgUpgradeCtx\<close>: \<open>pImageData\<close> (NULL or the bytes of the image), the properties of the
  components (the byte behind the PICMG identifier), the answer to Get Device ID.
\<close>

record hpm_ctx =
  hc_update_mask :: byte
  hc_image :: "bytes option"
  hc_component :: nat
  hc_cap :: target_cap
  hc_props :: "byte list"
  hc_devid :: bytes

definition empty_ctx :: hpm_ctx where
  "empty_ctx = \<lparr>hc_update_mask = 0, hc_image = None, hc_component = 0, hc_cap = no_target_cap,
     hc_props = replicate 8 0, hc_devid = replicate 15 0\<rparr>"

section \<open>Sending\<close>

definition HPMFWUPG_GET_TARGET_UPG_CAPABILITIES :: byte where "HPMFWUPG_GET_TARGET_UPG_CAPABILITIES = 0x2E"
definition HPMFWUPG_GET_COMPONENT_PROPERTIES :: byte where "HPMFWUPG_GET_COMPONENT_PROPERTIES = 0x2F"
definition HPMFWUPG_ABORT_UPGRADE :: byte where "HPMFWUPG_ABORT_UPGRADE = 0x30"
definition HPMFWUPG_INITIATE_UPGRADE_ACTION :: byte where "HPMFWUPG_INITIATE_UPGRADE_ACTION = 0x31"
definition HPMFWUPG_UPLOAD_FIRMWARE_BLOCK :: byte where "HPMFWUPG_UPLOAD_FIRMWARE_BLOCK = 0x32"
definition HPMFWUPG_FINISH_FIRMWARE_UPLOAD :: byte where "HPMFWUPG_FINISH_FIRMWARE_UPLOAD = 0x33"
definition HPMFWUPG_GET_UPGRADE_STATUS :: byte where "HPMFWUPG_GET_UPGRADE_STATUS = 0x34"
definition HPMFWUPG_ACTIVATE_FIRMWARE :: byte where "HPMFWUPG_ACTIVATE_FIRMWARE = 0x35"
definition HPMFWUPG_QUERY_SELFTEST_RESULT :: byte where "HPMFWUPG_QUERY_SELFTEST_RESULT = 0x36"
definition HPMFWUPG_QUERY_ROLLBACK_STATUS :: byte where "HPMFWUPG_QUERY_ROLLBACK_STATUS = 0x37"
definition HPMFWUPG_MANUAL_FIRMWARE_ROLLBACK :: byte where "HPMFWUPG_MANUAL_FIRMWARE_ROLLBACK = 0x38"
definition HPMFWUPG_COMMAND_IN_PROGRESS :: byte where "HPMFWUPG_COMMAND_IN_PROGRESS = 0x80"
definition HPMFWUPG_INT_CHECKSUM_ERROR :: byte where "HPMFWUPG_INT_CHECKSUM_ERROR = 0x82"
definition HPMFWUPG_DEFAULT_UPGRADE_TIMEOUT :: u32 where "HPMFWUPG_DEFAULT_UPGRADE_TIMEOUT = 60"
definition IPMI_CC_TIMEOUT :: byte where "IPMI_CC_TIMEOUT = 0xc3"
definition IPMI_CC_REQ_DATA_INV_LENGTH :: byte where "IPMI_CC_REQ_DATA_INV_LENGTH = 0xc7"
definition IPMI_CC_REQ_DATA_FIELD_EXCEED :: byte where "IPMI_CC_REQ_DATA_FIELD_EXCEED = 0xc8"
definition HPM_LAN_PACKET_RESIZE_LIMIT :: int where "HPM_LAN_PACKET_RESIZE_LIMIT = 6"
definition HPMFWUPG_ERROR :: int where "HPMFWUPG_ERROR = -1"
definition HPMFWUPG_UPLOAD_BLOCK_LENGTH :: int where "HPMFWUPG_UPLOAD_BLOCK_LENGTH = 1"
definition HPMFWUPG_UPLOAD_RETRY :: int where "HPMFWUPG_UPLOAD_RETRY = 2"

definition picmg_rq :: "byte \<Rightarrow> bytes \<Rightarrow> ipmi_rq" where
  "picmg_rq cmd d = mk_rq IPMI_NETFN_PICMG cmd (0 # d)"

text \<open>\<open>HPMFWUPG_IS_RETRYABLE\<close>, with the effect on \<open>errorCount\<close>.\<close>

definition HPMFWUPG_IS_RETRYABLE :: "byte \<Rightarrow> 's hpm_env \<Rightarrow> bool \<times> 's hpm_env" where
  "HPMFWUPG_IS_RETRYABLE cc w =
     (if cc = 0x83 \<or> cc = 0x82 \<or> cc = 0x80 then (error_count w < 3, w\<lparr>error_count := error_count w + 1\<rparr>) else (False, w))"

text \<open>Opening the session again until it works or the time is up: the counter and the time of the last reading.\<close>

primrec reopen_rounds :: "nat \<Rightarrow> 's hpm_ops \<Rightarrow> u32 \<Rightarrow> u32 \<Rightarrow> u32 \<Rightarrow> 's hpm_env \<Rightarrow> (u32 \<times> u32 \<times> 's hpm_env) outcome" where
  "reopen_rounds 0 ops inaccess counter t1 w = Inl Unfinished"
| "reopen_rounds (Suc k) ops inaccess counter t1 w =
     bind_ok (op_open ops (hp_intf w) (hp_dev w)) (\<lambda>(rc, i, d).
       let w1 = w\<lparr>hp_intf := i, hp_dev := d\<rparr> in
       if rc = HPMFWUPG_ERROR \<and> counter < inaccess then
         let (now, w2) = hpm_time w1; (t2, w3) = hpm_time w2 in
         reopen_rounds k ops inaccess (counter + (now - t1)) t2 w3
       else Inr (counter, t1, w1))"

text \<open>
  No response: on a LAN interface a response is made up, depending on the command. The static \<open>fakeRsp\<close>
  is all zeros but for its completion code.
\<close>

definition no_response :: "nat \<Rightarrow> 's hpm_ops \<Rightarrow> ipmi_rq \<Rightarrow> u32 \<Rightarrow> u32 \<Rightarrow> u32 \<Rightarrow> 's hpm_env
    \<Rightarrow> (ipmi_rs option \<times> u32 \<times> u32 \<times> 's hpm_env) outcome" where
  "no_response k ops rq inaccess counter t1 w =
     (let picmg = (rq_netfn rq = IPMI_NETFN_PICMG); cmd = rq_cmd rq in
      if \<not> op_lan ops then Inr (None, counter, t1, w)
      else if picmg \<and> cmd = HPMFWUPG_UPLOAD_FIRMWARE_BLOCK \<and> resize_count w < HPM_LAN_PACKET_RESIZE_LIMIT \<and> \<not> valid_size w then
        Inr (Some (reply IPMI_CC_REQ_DATA_INV_LENGTH []), counter, t1, w\<lparr>resize_count := resize_count w + 1\<rparr>)
      else if picmg \<and> (cmd = HPMFWUPG_ACTIVATE_FIRMWARE \<or> cmd = HPMFWUPG_MANUAL_FIRMWARE_ROLLBACK) then
        Inr (Some (reply HPMFWUPG_COMMAND_IN_PROGRESS []), counter, t1, w)
      else if picmg \<and> (cmd = HPMFWUPG_QUERY_ROLLBACK_STATUS \<or> cmd = HPMFWUPG_GET_UPGRADE_STATUS \<or> cmd = HPMFWUPG_QUERY_SELFTEST_RESULT) \<and>
          (target_addr (hp_intf w) = 0 \<or> target_addr (hp_intf w) = my_addr (hp_intf w)) then
        bind_ok (op_close ops ((hp_intf w)\<lparr>intf_abort := True\<rparr>) (hp_dev w)) (\<lambda>(i, d).
          bind_ok (reopen_rounds k ops inaccess counter t1 (w\<lparr>hp_intf := i, hp_dev := d\<rparr>)) (\<lambda>(counter1, t2, w1).
            Inr (Some (reply IPMI_CC_TIMEOUT []), counter1, t2, w1)))
      else Inr (None, counter, t1, w))"

text \<open>The two timeouts in seconds: of the target, or the default one outside an upgrade.\<close>

definition hpm_timeouts :: "hpm_ctx option \<Rightarrow> u32 \<times> u32" where
  "hpm_timeouts c =
     (case c of
        None \<Rightarrow> (HPMFWUPG_DEFAULT_UPGRADE_TIMEOUT, HPMFWUPG_DEFAULT_UPGRADE_TIMEOUT)
      | Some ctx \<Rightarrow> (ucast (tc_inaccess_timeout (hc_cap ctx)) * 5, ucast (tc_upgrade_timeout (hc_cap ctx)) * 5))"

text \<open>
  The loop of \<open>HpmfwupgSendCmd\<close>. While the controller cannot be reached the time between the readings is
  added to \<open>inacc\<close>; while it is busy the new time is read before it is subtracted, as in the code.
\<close>

primrec send_rounds :: "nat \<Rightarrow> nat \<Rightarrow> 's hpm_ops \<Rightarrow> ipmi_rq \<Rightarrow> u32 \<times> u32 \<Rightarrow> u32 \<Rightarrow> u32 \<Rightarrow> u32 \<Rightarrow> 's hpm_env
    \<Rightarrow> (ipmi_rs option \<times> 's hpm_env) outcome" where
  "send_rounds 0 m ops rq timeouts inacc busy t1 w = Inl Unfinished"
| "send_rounds (Suc k) m ops rq timeouts inacc busy t1 w =
     bind_ok (op_send ops (hp_intf w) rq (hp_dev w)) (\<lambda>(r, d).
       let w1 = w\<lparr>hp_dev := d\<rparr> in
       bind_ok (case r of None \<Rightarrow> no_response m ops rq (fst timeouts) inacc t1 w1 | Some rsp \<Rightarrow> Inr (Some rsp, inacc, t1, w1))
         (\<lambda>(rsp, inacc1, t2, w2).
           let cc = (case rsp of None \<Rightarrow> 0xff | Some x \<Rightarrow> rs_ccode x) in
           if cc = 0xff \<or> cc = 0xc3 \<or> cc = 0xd3 then
             (if inacc1 < fst timeouts then
                let (now, w3) = hpm_time w2 in
                if t2 < now then
                  let (t3, w4) = hpm_time w3 in send_rounds k m ops rq timeouts (inacc1 + (now - t2)) busy t3 w4
                else send_rounds k m ops rq timeouts inacc1 busy t2 w3
              else Inr (rsp, w2))
           else if cc = 0xc0 then
             (if busy < snd timeouts then
                let (now, w3) = hpm_time w2 in
                if t2 < now then
                  let (t3, w4) = hpm_time w3 in send_rounds k m ops rq timeouts inacc1 (busy + (now - t3)) t3 w4
                else send_rounds k m ops rq timeouts inacc1 busy t2 w3
              else Inr (rsp, w2))
           else
             let w3 = (if cc = 0 then w2\<lparr>error_count := 0\<rparr> else w2);
                 w4 = (if rq_netfn rq = IPMI_NETFN_PICMG \<and> rq_cmd rq = HPMFWUPG_UPLOAD_FIRMWARE_BLOCK then w3\<lparr>valid_size := True\<rparr> else w3) in
             Inr (rsp, w4)))"

declare send_rounds.simps [simp del] reopen_rounds.simps [simp del]

definition HpmfwupgSendCmd :: "nat \<Rightarrow> 's hpm_ops \<Rightarrow> ipmi_rq \<Rightarrow> hpm_ctx option \<Rightarrow> 's hpm_env \<Rightarrow> (ipmi_rs option \<times> 's hpm_env) outcome" where
  "HpmfwupgSendCmd k ops rq c w =
     (let (t1, w1) = hpm_time w in send_rounds k k ops rq (hpm_timeouts c) 0 0 t1 w1)"

section \<open>Single commands\<close>

text \<open>A command whose response is used only if the code is 0.\<close>

definition hpm_ask :: "nat \<Rightarrow> 's hpm_ops \<Rightarrow> ipmi_rq \<Rightarrow> 's hpm_env \<Rightarrow> (bytes option \<times> 's hpm_env) outcome" where
  "hpm_ask k ops rq w =
     bind_ok (HpmfwupgSendCmd k ops rq None w) (\<lambda>(r, w1). Inr (
       case r of None \<Rightarrow> (None, w1) | Some rsp \<Rightarrow> if rs_ccode rsp \<noteq> 0 then (None, w1) else (Some (rs_data rsp), w1)))"

definition HpmfwupgGetDeviceId :: "nat \<Rightarrow> 's hpm_ops \<Rightarrow> 's hpm_env \<Rightarrow> (bytes option \<times> 's hpm_env) outcome" where
  "HpmfwupgGetDeviceId k ops w =
     bind_ok (hpm_ask k ops (mk_rq IPMI_NETFN_APP BMC_GET_DEVICE_ID []) w) (\<lambda>(d, w1). Inr (map_option (take 15) d, w1))"

definition HpmfwupgGetTargetUpgCapabilities :: "nat \<Rightarrow> 's hpm_ops \<Rightarrow> 's hpm_env \<Rightarrow> (target_cap option \<times> 's hpm_env) outcome" where
  "HpmfwupgGetTargetUpgCapabilities k ops w =
     bind_ok (hpm_ask k ops (picmg_rq HPMFWUPG_GET_TARGET_UPG_CAPABILITIES []) w) (\<lambda>(d, w1). Inr (map_option read_target_cap d, w1))"

text \<open>The bytes of the response behind the PICMG identifier, as many as the selector has.\<close>

definition prop_size :: "byte \<Rightarrow> nat option" where
  "prop_size selector =
     (if selector = 0 then Some 1 else if selector = 1 \<or> selector = 3 \<or> selector = 4 then Some 6
      else if selector = 2 then Some 12 else if selector = 192 then Some 4 else None)"

definition HpmfwupgGetComponentProperties :: "nat \<Rightarrow> 's hpm_ops \<Rightarrow> byte \<Rightarrow> byte \<Rightarrow> 's hpm_env \<Rightarrow> (bytes option \<times> 's hpm_env) outcome" where
  "HpmfwupgGetComponentProperties k ops cid selector w =
     bind_ok (hpm_ask k ops (picmg_rq HPMFWUPG_GET_COMPONENT_PROPERTIES [cid, selector]) w) (\<lambda>(d, w1). Inr (
       case (d, prop_size selector) of
         (Some x, Some n) \<Rightarrow> (Some (take n (drop 1 x)), w1)
       | _ \<Rightarrow> (None, w1)))"

definition HpmfwupgAbortUpgrade :: "nat \<Rightarrow> 's hpm_ops \<Rightarrow> 's hpm_env \<Rightarrow> (int \<times> 's hpm_env) outcome" where
  "HpmfwupgAbortUpgrade k ops w =
     bind_ok (hpm_ask k ops (picmg_rq HPMFWUPG_ABORT_UPGRADE []) w) (\<lambda>(d, w1). Inr (if d = None then HPMFWUPG_ERROR else 0, w1))"

text \<open>The result is the code of the command last started, none after an error.\<close>

definition HpmfwupgGetUpgradeStatus :: "nat \<Rightarrow> 's hpm_ops \<Rightarrow> hpm_ctx option \<Rightarrow> 's hpm_env \<Rightarrow> (byte option \<times> 's hpm_env) outcome" where
  "HpmfwupgGetUpgradeStatus k ops c w =
     bind_ok (HpmfwupgSendCmd k ops (picmg_rq HPMFWUPG_GET_UPGRADE_STATUS []) c w) (\<lambda>(r, w1). Inr (
       case r of
         None \<Rightarrow> (None, w1)
       | Some rsp \<Rightarrow>
           if rs_ccode rsp = 0 then (Some (rs_data rsp ! 2), w1)
           else case HPMFWUPG_IS_RETRYABLE (rs_ccode rsp) w1 of
             (True, w2) \<Rightarrow> (Some HPMFWUPG_COMMAND_IN_PROGRESS, w2)
           | (False, w2) \<Rightarrow> (None, w2)))"

text \<open>
  Waiting for a command; after an error of the status query the code of the last command does not
  matter, the result is an error whatever it is.
\<close>

primrec wait_rounds :: "nat \<Rightarrow> nat \<Rightarrow> 's hpm_ops \<Rightarrow> hpm_ctx option \<Rightarrow> u32 \<Rightarrow> u32 \<Rightarrow> u32 \<Rightarrow> byte \<Rightarrow> 's hpm_env \<Rightarrow> (int \<times> 's hpm_env) outcome" where
  "wait_rounds 0 m ops c limit t1 t2 code w = Inl Unfinished"
| "wait_rounds (Suc k) m ops c limit t1 t2 code w =
     (if (code = 0x80 \<or> code = 0xD5) \<and> t2 - t1 < limit then
        let (t3, w1) = hpm_time w in
        bind_ok (HpmfwupgGetUpgradeStatus m ops c w1) (\<lambda>(s, w2).
          case s of None \<Rightarrow> Inr (HPMFWUPG_ERROR, w2) | Some code1 \<Rightarrow> wait_rounds k m ops c limit t1 t3 code1 w2)
      else Inr (if code \<noteq> 0 then HPMFWUPG_ERROR else 0, w))"

declare wait_rounds.simps [simp del]

definition HpmfwupgWaitLongDurationCmd :: "nat \<Rightarrow> 's hpm_ops \<Rightarrow> hpm_ctx option \<Rightarrow> 's hpm_env \<Rightarrow> (int \<times> 's hpm_env) outcome" where
  "HpmfwupgWaitLongDurationCmd k ops c w =
     bind_ok (case c of
         Some ctx \<Rightarrow> Inr (ucast (tc_upgrade_timeout (hc_cap ctx)) * 5, w)
       | None \<Rightarrow> bind_ok (HpmfwupgGetTargetUpgCapabilities k ops w) (\<lambda>(cap, w1). Inr (
           case cap of None \<Rightarrow> (HPMFWUPG_DEFAULT_UPGRADE_TIMEOUT, w1) | Some t \<Rightarrow> (ucast (tc_upgrade_timeout t) * 5, w1))))
       (\<lambda>(limit, w1).
         let (t1, w2) = hpm_time w1 in
         bind_ok (HpmfwupgGetUpgradeStatus k ops c w2) (\<lambda>(s, w3).
           case s of None \<Rightarrow> Inr (HPMFWUPG_ERROR, w3) | Some code \<Rightarrow> wait_rounds k k ops c limit t1 t1 code w3))"

text \<open>The result of a command that may take long: 0 or an error.\<close>

definition hpm_finish :: "nat \<Rightarrow> 's hpm_ops \<Rightarrow> hpm_ctx option \<Rightarrow> (byte \<Rightarrow> bool) \<Rightarrow> ipmi_rs option \<times> 's hpm_env \<Rightarrow> (int \<times> 's hpm_env) outcome" where
  "hpm_finish k ops c fine = (\<lambda>(r, w).
     case r of
       None \<Rightarrow> Inr (HPMFWUPG_ERROR, w)
     | Some rsp \<Rightarrow>
         if rs_ccode rsp = HPMFWUPG_COMMAND_IN_PROGRESS then HpmfwupgWaitLongDurationCmd k ops c w
         else Inr (if fine (rs_ccode rsp) then 0 else HPMFWUPG_ERROR, w))"

definition HpmfwupgInitiateUpgradeAction :: "nat \<Rightarrow> 's hpm_ops \<Rightarrow> byte \<Rightarrow> byte \<Rightarrow> hpm_ctx \<Rightarrow> 's hpm_env \<Rightarrow> (int \<times> 's hpm_env) outcome" where
  "HpmfwupgInitiateUpgradeAction k ops comps action ctx w =
     bind_ok (HpmfwupgSendCmd k ops (picmg_rq HPMFWUPG_INITIATE_UPGRADE_ACTION [comps, action]) (Some ctx) w)
       (hpm_finish k ops (Some ctx) (\<lambda>cc. cc = 0))"

text \<open>
  A block of firmware: the return code, and the offset and length of the next section if the response has them.
\<close>

definition HpmfwupgUploadFirmwareBlock :: "nat \<Rightarrow> 's hpm_ops \<Rightarrow> byte \<Rightarrow> bytes \<Rightarrow> hpm_ctx \<Rightarrow> 's hpm_env
    \<Rightarrow> (int \<times> u32 \<times> u32 \<times> 's hpm_env) outcome" where
  "HpmfwupgUploadFirmwareBlock k ops block dat ctx w =
     bind_ok (HpmfwupgSendCmd k ops (picmg_rq HPMFWUPG_UPLOAD_FIRMWARE_BLOCK (block # dat)) (Some ctx) w) (\<lambda>(r, w1).
       case r of
         None \<Rightarrow> Inr (HPMFWUPG_ERROR, 0, 0, w1)
       | Some rsp \<Rightarrow>
           let section = ((rs_ccode rsp = 0x80 \<or> rs_ccode rsp = 0) \<and> rs_data_len rsp > 1);
               (off, len) = (if section \<and> rs_data_len rsp = 9 then (of_le32 (drop 1 (rs_data rsp)), of_le32 (drop 5 (rs_data rsp))) else (0, 0));
               cc = (if section \<and> rs_data_len rsp \<noteq> 9 then HPMFWUPG_INT_CHECKSUM_ERROR else rs_ccode rsp) in
           if cc = HPMFWUPG_COMMAND_IN_PROGRESS then
             bind_ok (HpmfwupgWaitLongDurationCmd k ops (Some ctx) w1) (\<lambda>(rc, w2). Inr (rc, off, len, w2))
           else if cc = 0 then Inr (0, off, len, w1)
           else case HPMFWUPG_IS_RETRYABLE cc w1 of
             (True, w2) \<Rightarrow> Inr (HPMFWUPG_UPLOAD_RETRY, off, len, w2)
           | (False, w2) \<Rightarrow>
               Inr (if cc = IPMI_CC_REQ_DATA_INV_LENGTH \<or> cc = IPMI_CC_REQ_DATA_FIELD_EXCEED then HPMFWUPG_UPLOAD_BLOCK_LENGTH
                    else HPMFWUPG_ERROR, off, len, w2))"

definition HpmfwupgFinishFirmwareUpload :: "nat \<Rightarrow> 's hpm_ops \<Rightarrow> bool \<Rightarrow> byte \<Rightarrow> u32 \<Rightarrow> hpm_ctx \<Rightarrow> 's hpm_env \<Rightarrow> (int \<times> 's hpm_env) outcome" where
  "HpmfwupgFinishFirmwareUpload k ops compare cid len ctx w =
     bind_ok (HpmfwupgSendCmd k ops (picmg_rq HPMFWUPG_FINISH_FIRMWARE_UPLOAD (cid # le32 len)) (Some ctx) w)
       (hpm_finish k ops (Some ctx) (\<lambda>cc. cc = 0 \<or> compare \<and> cc = 0x83))"

definition HpmfwupgActivateFirmware :: "nat \<Rightarrow> 's hpm_ops \<Rightarrow> byte \<Rightarrow> hpm_ctx option \<Rightarrow> 's hpm_env \<Rightarrow> (int \<times> 's hpm_env) outcome" where
  "HpmfwupgActivateFirmware k ops rollback_override c w =
     bind_ok (HpmfwupgSendCmd k ops (picmg_rq HPMFWUPG_ACTIVATE_FIRMWARE (if rollback_override = 0 then [] else [rollback_override])) c w)
       (hpm_finish k ops c (\<lambda>cc. cc = 0))"

section \<open>Polling\<close>

text \<open>
  The loop that asks for a result until it is there, a retryable code counting as in progress; \<open>again_on\<close>
  are the codes it goes on with.
\<close>

primrec poll_rounds :: "nat \<Rightarrow> nat \<Rightarrow> 's hpm_ops \<Rightarrow> ipmi_rq \<Rightarrow> hpm_ctx option \<Rightarrow> (byte \<Rightarrow> bool) \<Rightarrow> u32 \<Rightarrow> u32 \<Rightarrow> 's hpm_env
    \<Rightarrow> ((byte \<times> bytes) option \<times> 's hpm_env) outcome" where
  "poll_rounds 0 m ops rq c again_on limit t1 w = Inl Unfinished"
| "poll_rounds (Suc k) m ops rq c again_on limit t1 w =
     bind_ok (HpmfwupgSendCmd m ops rq c w) (\<lambda>(r, w1).
       case r of
         None \<Rightarrow> let (t2, w2) = hpm_time w1 in Inr (None, w2)
       | Some rsp \<Rightarrow>
           let (again, w2) = HPMFWUPG_IS_RETRYABLE (rs_ccode rsp) w1;
               cc = (if again then HPMFWUPG_COMMAND_IN_PROGRESS else rs_ccode rsp);
               (t2, w3) = hpm_time w2 in
           if again_on cc \<and> t2 - t1 < limit then poll_rounds k m ops rq c again_on limit t1 w3
           else Inr (Some (cc, rs_data rsp), w3))"

declare poll_rounds.simps [simp del]

text \<open>A byte of the image; the code reads the image without regard to its size.\<close>

definition img_byte :: "bytes \<Rightarrow> nat \<Rightarrow> byte outcome" where
  "img_byte d i = (if i < length d then Inr (d ! i) else Inl OutOfBounds)"

definition HpmfwupgQueryRollbackStatus :: "nat \<Rightarrow> 's hpm_ops \<Rightarrow> hpm_ctx option \<Rightarrow> 's hpm_env \<Rightarrow> (int \<times> 's hpm_env) outcome" where
  "HpmfwupgQueryRollbackStatus k ops c w =
     bind_ok (case c of
         None \<Rightarrow> Inr HPMFWUPG_DEFAULT_UPGRADE_TIMEOUT
       | Some ctx \<Rightarrow> bind_ok (case hc_image ctx of None \<Rightarrow> Inr 0 | Some d \<Rightarrow> img_byte d 22) (\<lambda>t. Inr (ucast (max t (tc_rollback_timeout (hc_cap ctx))) * 5)))
       (\<lambda>limit.
         let (t0, w1) = hpm_time w; (t1, w2) = hpm_time w1 in
         bind_ok (poll_rounds k k ops (picmg_rq HPMFWUPG_QUERY_ROLLBACK_STATUS []) c (\<lambda>cc. cc = 0x80 \<or> cc = IPMI_CC_TIMEOUT) limit t0 w2)
           (\<lambda>(r, w3). Inr (case r of None \<Rightarrow> HPMFWUPG_ERROR | Some (cc, d) \<Rightarrow> if cc = 0 then 0 else HPMFWUPG_ERROR, w3)))"

text \<open>The two bytes of the self test, none after an error; the timeout is an \<open>unsigned char\<close>.\<close>

definition selftest_timeout :: "byte \<Rightarrow> byte \<Rightarrow> byte" where
  "selftest_timeout img cap = of_nat (unat (max img cap) * 5)"

definition HpmfwupgQuerySelftestResult :: "nat \<Rightarrow> 's hpm_ops \<Rightarrow> hpm_ctx option \<Rightarrow> 's hpm_env \<Rightarrow> ((byte \<times> byte) option \<times> 's hpm_env) outcome" where
  "HpmfwupgQuerySelftestResult k ops c w =
     bind_ok (case c of
         None \<Rightarrow> Inr 60
       | Some ctx \<Rightarrow> (case hc_image ctx of None \<Rightarrow> Inl Dangling | Some d \<Rightarrow>
           bind_ok (img_byte d 21) (\<lambda>t. Inr (selftest_timeout t (tc_selftest_timeout (hc_cap ctx))))))
       (\<lambda>limit.
         let (t0, w1) = hpm_time w; (t1, w2) = hpm_time w1 in
         bind_ok (poll_rounds k k ops (picmg_rq HPMFWUPG_QUERY_SELFTEST_RESULT []) c (\<lambda>cc. cc = 0x80) (ucast limit) t0 w2)
           (\<lambda>(r, w3). Inr (case r of None \<Rightarrow> None | Some (cc, d) \<Rightarrow> if cc = 0 then Some (d ! 1, d ! 2) else None, w3)))"

definition HpmfwupgManualFirmwareRollback :: "nat \<Rightarrow> 's hpm_ops \<Rightarrow> 's hpm_env \<Rightarrow> (int \<times> 's hpm_env) outcome" where
  "HpmfwupgManualFirmwareRollback k ops w =
     bind_ok (HpmfwupgGetTargetUpgCapabilities k ops w) (\<lambda>(cap, w1).
       case cap of
         None \<Rightarrow> Inr (HPMFWUPG_ERROR, w1)
       | Some t \<Rightarrow>
           let ctx = empty_ctx\<lparr>hc_cap := t\<rparr> in
           bind_ok (HpmfwupgSendCmd k ops (picmg_rq HPMFWUPG_MANUAL_FIRMWARE_ROLLBACK []) (Some ctx) w1) (\<lambda>(r, w2).
             case r of
               None \<Rightarrow> Inr (HPMFWUPG_ERROR, w2)
             | Some rsp \<Rightarrow>
                 if rs_ccode rsp = 0 \<or> rs_ccode rsp = HPMFWUPG_COMMAND_IN_PROGRESS then HpmfwupgQueryRollbackStatus k ops (Some ctx) w2
                 else Inr (HPMFWUPG_ERROR, w2)))"

end
