(* ===== verification/HpmImage.thy ===== *)
theory HpmImage
  imports HpmCmd
begin

text \<open>
  Upgrade images of \<open>lib/ipmi_hpmfwupg.c\<close>: reading a file, checking its digest and header, going through
  its action records before the upgrade. An image is the bytes of the file (below 2 GB): a header of 34 bytes, OEM
  data, a checksum, action records, the MD5 digest.
\<close>

section \<open>Options and answers\<close>

record hpm_opts =
  opt_view :: bool
  opt_debug :: bool
  opt_force :: bool
  opt_compare :: bool

definition no_opts :: hpm_opts where
  "no_opts = \<lparr>opt_view = False, opt_debug = False, opt_force = False, opt_compare = False\<rparr>"

text \<open>
  Asking the user: a word of one character is read into two bytes, a longer one does not fit, and
  without a word the bytes are not set.
\<close>

definition HpmGetUserInput :: "'s hpm_env \<Rightarrow> (bool \<times> 's hpm_env) outcome" where
  "HpmGetUserInput w =
     (case hp_answers w of
        [c] # rest \<Rightarrow> Inr (c = 0x59 \<or> c = 0x79, w\<lparr>hp_answers := rest\<rparr>)
      | (_ # _ # _) # rest \<Rightarrow> Inl OutOfBounds
      | _ \<Rightarrow> Inl Indeterminate)"

section \<open>The image\<close>

definition HpmfwupgGetBufferFromFile :: "bytes option \<Rightarrow> hpm_ctx \<Rightarrow> int \<times> hpm_ctx" where
  "HpmfwupgGetBufferFromFile f ctx =
     (case f of None \<Rightarrow> (HPMFWUPG_ERROR, ctx) | Some d \<Rightarrow> (0, ctx\<lparr>hc_image := Some d\<rparr>))"

definition HpmfwupgCalculateChecksum :: "bytes \<Rightarrow> byte" where
  "HpmfwupgCalculateChecksum d = foldl (+) 0 d"

definition checksum_at :: "bytes \<Rightarrow> nat \<Rightarrow> nat \<Rightarrow> byte outcome" where
  "checksum_at d p n = (if p + n \<le> length d then Inr (HpmfwupgCalculateChecksum (region d p n)) else Inl OutOfBounds)"

definition HPMFWUPG_IMAGE_SIGNATURE :: bytes where
  "HPMFWUPG_IMAGE_SIGNATURE = [0x50, 0x49, 0x43, 0x4D, 0x47, 0x46, 0x57, 0x55]"

definition md5_zero :: md5_state where
  "md5_zero = \<lparr>md_count0 = 0, md_count1 = 0, md_abcd = (0, 0, 0, 0), md_buf = replicate 64 0\<rparr>"

definition HPMFWUPG_MD5_SIGNATURE_LENGTH :: nat where "HPMFWUPG_MD5_SIGNATURE_LENGTH = 16"
definition sizeof_image_header :: nat where "sizeof_image_header = 34"
definition sizeof_action_record :: nat where "sizeof_action_record = 3"
definition sizeof_firmware_image :: nat where "sizeof_firmware_image = 31"

text \<open>An image shorter than a digest is read before its start.\<close>

definition HpmfwupgValidateImageIntegrity :: "bytes \<Rightarrow> int outcome" where
  "HpmfwupgValidateImageIntegrity d =
     (if length d < HPMFWUPG_MD5_SIGNATURE_LENGTH then Inl OutOfBounds
      else let n = length d - HPMFWUPG_MD5_SIGNATURE_LENGTH in
        if md5_finish (md5_append (take n d) (md5_init md5_zero)) \<noteq> drop n d then Inr HPMFWUPG_ERROR
        else bind_ok (strncmp_eq d (HPMFWUPG_IMAGE_SIGNATURE @ [0]) 8) (\<lambda>same.
          if \<not> same then Inr HPMFWUPG_ERROR
          else bind_ok (img_byte d 8) (\<lambda>version.
            if version \<noteq> 0 then Inr HPMFWUPG_ERROR
            else bind_ok (img_byte d 32) (\<lambda>lo. bind_ok (img_byte d 33) (\<lambda>hi.
              bind_ok (checksum_at d 0 (sizeof_image_header + unat (of_le16 [lo, hi]) + 1)) (\<lambda>c.
                Inr (if c \<noteq> 0 then HPMFWUPG_ERROR else 0)))))))"

text \<open>The fields of a header; only an image that has its header gets as far as reading them.\<close>

definition hdr_device_id :: "bytes \<Rightarrow> byte" where "hdr_device_id d = d ! 9"
definition hdr_man_id :: "bytes \<Rightarrow> bytes" where "hdr_man_id d = region d 10 3"
definition hdr_prod_id :: "bytes \<Rightarrow> bytes" where "hdr_prod_id d = region d 13 2"
definition hdr_capabilities :: "bytes \<Rightarrow> byte" where "hdr_capabilities d = d ! 19"
definition hdr_components :: "bytes \<Rightarrow> byte" where "hdr_components d = d ! 20"
definition hdr_major :: "bytes \<Rightarrow> byte" where "hdr_major d = d ! 24"
definition hdr_minor :: "bytes \<Rightarrow> byte" where "hdr_minor d = d ! 25"
definition hdr_oem_length :: "bytes \<Rightarrow> nat" where "hdr_oem_length d = unat (of_le16 (region d 32 2))"

definition first_record :: "bytes \<Rightarrow> nat" where
  "first_record d = sizeof_image_header + hdr_oem_length d + 1"

section \<open>Versions and records\<close>

definition image_version_upgradable :: "version_info \<Rightarrow> bool" where
  "image_version_upgradable v =
     (if vi_image v \<noteq> vi_target v then True
      else if \<not> vi_rollback_supported v then False
      else vi_image v \<noteq> vi_rollback v)"

text \<open>The checksum of a record: over its 3 bytes or, for firmware, over the 34 bytes in front of the data.\<close>

definition HpmfwupgValidateActionRecordChecksum :: "bytes \<Rightarrow> nat \<Rightarrow> bool outcome" where
  "HpmfwupgValidateActionRecordChecksum d p =
     bind_ok (checksum_at d p sizeof_action_record) (\<lambda>c.
       if c = 0 then Inr True
       else if d ! p \<noteq> 2 then Inr False
       else bind_ok (checksum_at d p (sizeof_action_record + sizeof_firmware_image)) (\<lambda>c. Inr (c = 0)))"

text \<open>The component of a set of components: the highest one; 0 for none.\<close>

function component_of :: "byte \<Rightarrow> nat" where
  "component_of b = (if drop_bit 1 b \<noteq> 0 then Suc (component_of (drop_bit 1 b)) else 0)"
  by pat_completeness auto

termination
proof (relation "measure unat")
  fix b :: byte
  assume "drop_bit 1 b \<noteq> 0"
  then have "0 < unat b"
    by (auto simp: unat_gt_0)
  then show "(drop_bit 1 b, b) \<in> measure unat"
    by (simp only: in_measure unat_drop_bit_eq) (simp add: drop_bit_eq_div)
qed simp

declare component_of.simps [simp del]

text \<open>The firmware record at \<open>p\<close>.\<close>

definition fw_version :: "bytes \<Rightarrow> nat \<Rightarrow> bytes" where "fw_version d p = region d (p + sizeof_action_record) 6"
definition fw_length :: "bytes \<Rightarrow> nat \<Rightarrow> u32" where "fw_length d p = of_le32 (drop (p + 30) d)"
definition fw_data :: "nat \<Rightarrow> nat" where "fw_data p = p + sizeof_action_record + sizeof_firmware_image"

definition supports_backup :: "byte \<Rightarrow> bool" where "supports_backup prop = (prop AND 3 \<noteq> 0)"
definition supports_preparation :: "byte \<Rightarrow> bool" where "supports_preparation prop = bit prop 2"
definition supports_comparison :: "byte \<Rightarrow> bool" where "supports_comparison prop = bit prop 3"

definition all_support :: "(byte \<Rightarrow> bool) \<Rightarrow> byte \<Rightarrow> byte list \<Rightarrow> bool" where
  "all_support f comps props = list_all (\<lambda>i. bit comps i \<longrightarrow> f (props ! i)) [0..<8]"

text \<open>
  Going through the records from position \<open>p\<close>: the versions of the image are noted and the components
  to update are collected; \<open>sel\<close> is the selection of the user.
\<close>

definition note_firmware :: "byte \<Rightarrow> bytes \<Rightarrow> u32 \<Rightarrow> hpm_opts \<Rightarrow> hpm_ctx \<Rightarrow> version_info list \<Rightarrow> hpm_ctx \<times> version_info list" where
  "note_firmware comps version sel opts ctx vs =
     (let cid = component_of comps;
          v = (vs ! cid)\<lparr>vi_image := version\<rparr>;
          chosen = (sel = 0 \<or> sel AND ucast comps \<noteq> 0);
          up = (if chosen \<and> \<not> (opt_force opts \<or> opt_compare opts) then image_version_upgradable v else chosen) in
      (if up then ctx\<lparr>hc_update_mask := hc_update_mask ctx OR push_bit cid 1\<rparr> else ctx, vs[cid := v]))"

function pre_check :: "bytes \<Rightarrow> u32 \<Rightarrow> hpm_opts \<Rightarrow> nat \<Rightarrow> hpm_ctx \<Rightarrow> version_info list \<Rightarrow> (int \<times> hpm_ctx \<times> version_info list) outcome" where
  "pre_check d sel opts p ctx vs =
     (if length d - HPMFWUPG_MD5_SIGNATURE_LENGTH \<le> p then Inr (0, ctx, vs)
      else bind_ok (HpmfwupgValidateActionRecordChecksum d p) (\<lambda>ok.
        if \<not> ok then Inr (HPMFWUPG_ERROR, ctx, vs)
        else if d ! (p + 1) \<noteq> 0 \<and> tc_components (hc_cap ctx) = 0 then Inr (HPMFWUPG_ERROR, ctx, vs)
        else if d ! p = 0 then
          (if all_support supports_backup (d ! (p + 1)) (hc_props ctx) then pre_check d sel opts (p + 3) ctx vs
           else Inr (HPMFWUPG_ERROR, ctx, vs))
        else if d ! p = 1 then
          (if all_support supports_preparation (d ! (p + 1)) (hc_props ctx) then pre_check d sel opts (p + 3) ctx vs
           else Inr (HPMFWUPG_ERROR, ctx, vs))
        else if d ! p = 2 then
          (if length d < fw_data p then Inl OutOfBounds
           else pre_check d sel opts (p + 34 + unat (fw_length d p))
             (fst (note_firmware (d ! (p + 1)) (fw_version d p) sel opts ctx vs))
             (snd (note_firmware (d ! (p + 1)) (fw_version d p) sel opts ctx vs)))
        else Inr (HPMFWUPG_ERROR, ctx, vs)))"
  by pat_completeness auto

termination
  by (relation "measure (\<lambda>(d, sel, opts, p, ctx, vs). length d - p)") auto

declare pre_check.simps [simp del]

definition HpmfwupgPreUpgradeCheck :: "u32 \<Rightarrow> hpm_opts \<Rightarrow> hpm_ctx \<Rightarrow> 's hpm_env \<Rightarrow> (int \<times> hpm_ctx \<times> 's hpm_env) outcome" where
  "HpmfwupgPreUpgradeCheck sel opts ctx w =
     (let d = the (hc_image ctx) in
      bind_ok (pre_check d sel opts (first_record d) ctx (version_infos w)) (\<lambda>(rc, ctx1, vs).
        Inr (rc, ctx1, w\<lparr>version_infos := vs\<rparr>)))"

end
