(* ===== verification/HpmUpgrade.thy ===== *)
theory HpmUpgrade
  imports HpmImage
begin

text \<open>
  The stages of an upgrade and the command \<open>hpm\<close> of \<open>lib/ipmi_hpmfwupg.c\<close>. What the program shows while
  it works is not modelled.
\<close>

section \<open>The target\<close>

definition no_version :: version_info where
  "no_version = \<lparr>vi_component = 0, vi_target = replicate 6 0, vi_rollback = replicate 6 0, vi_deferred = replicate 6 0,
     vi_image = replicate 6 0, vi_cold_reset = False, vi_rollback_supported = False, vi_deferred_supported = False,
     vi_desc = replicate 13 0\<rparr>"

definition set_version :: "nat \<Rightarrow> (version_info \<Rightarrow> version_info) \<Rightarrow> 's hpm_env \<Rightarrow> 's hpm_env" where
  "set_version cid f w = w\<lparr>version_infos := (version_infos w)[cid := f (version_infos w ! cid)]\<rparr>"

text \<open>The version of a copy that is asked for only if the component has it.\<close>

definition ask_version :: "nat \<Rightarrow> 's hpm_ops \<Rightarrow> bool \<Rightarrow> nat \<Rightarrow> byte \<Rightarrow> (bytes \<Rightarrow> version_info \<Rightarrow> version_info) \<Rightarrow> 's hpm_env \<Rightarrow> 's hpm_env outcome" where
  "ask_version k ops has cid selector f w =
     (if \<not> has then Inr (set_version cid (f (replicate 6 0xff)) w)
      else bind_ok (HpmfwupgGetComponentProperties k ops (of_nat cid) selector w) (\<lambda>(p, w1).
        Inr (case p of None \<Rightarrow> w1 | Some v \<Rightarrow> set_version cid (f v) w1)))"

definition check_component :: "nat \<Rightarrow> 's hpm_ops \<Rightarrow> nat \<Rightarrow> 's hpm_env \<Rightarrow> (int \<times> 's hpm_env) outcome" where
  "check_component k ops cid w =
     bind_ok (HpmfwupgGetComponentProperties k ops (of_nat cid) 0 (set_version cid (\<lambda>v. no_version) w)) (\<lambda>(p, w1).
       case p of None \<Rightarrow> Inr (HPMFWUPG_ERROR, w1) | Some prop \<Rightarrow>
         let g = hd prop;
             w2 = set_version cid (\<lambda>v. v\<lparr>vi_rollback_supported := (g AND 3 \<noteq> 0), vi_cold_reset := bit g 5,
                    vi_deferred_supported := bit g 4\<rparr>) w1 in
         bind_ok (HpmfwupgGetComponentProperties k ops (of_nat cid) 2 w2) (\<lambda>(p, w3).
           case p of None \<Rightarrow> Inr (HPMFWUPG_ERROR, w3) | Some desc \<Rightarrow>
             let w4 = set_version cid (\<lambda>v. v\<lparr>vi_desc := desc @ [0]\<rparr>) w3 in
             bind_ok (HpmfwupgGetComponentProperties k ops (of_nat cid) 1 w4) (\<lambda>(p, w5).
               case p of None \<Rightarrow> Inr (HPMFWUPG_ERROR, w5) | Some version \<Rightarrow>
                 let w6 = set_version cid (\<lambda>v. v\<lparr>vi_component := cid, vi_target := version\<rparr>) w5 in
                 bind_ok (ask_version k ops (g AND 3 \<noteq> 0) cid 3 (\<lambda>x v. v\<lparr>vi_rollback := x\<rparr>) w6) (\<lambda>w7.
                   bind_ok (ask_version k ops (bit g 4) cid 4 (\<lambda>x v. v\<lparr>vi_deferred := x\<rparr>) w7) (\<lambda>w8.
                     Inr (0, w8))))))"

primrec check_components :: "nat \<Rightarrow> 's hpm_ops \<Rightarrow> byte \<Rightarrow> nat list \<Rightarrow> 's hpm_env \<Rightarrow> (int \<times> 's hpm_env) outcome" where
  "check_components k ops present [] w = Inr (0, w)"
| "check_components k ops present (cid # cids) w =
     (if bit present cid then
        bind_ok (check_component k ops cid w) (\<lambda>(rc, w1).
          if rc \<noteq> 0 then Inr (rc, w1) else check_components k ops present cids w1)
      else check_components k ops present cids w)"

definition HpmfwupgTargetCheck :: "nat \<Rightarrow> 's hpm_ops \<Rightarrow> 's hpm_env \<Rightarrow> (int \<times> 's hpm_env) outcome" where
  "HpmfwupgTargetCheck k ops w =
     bind_ok (HpmfwupgGetDeviceId k ops w) (\<lambda>(i, w1).
       if i = None then Inr (HPMFWUPG_ERROR, w1)
       else bind_ok (HpmfwupgGetTargetUpgCapabilities k ops w1) (\<lambda>(cap, w2).
         case cap of None \<Rightarrow> Inr (HPMFWUPG_ERROR, w2)
         | Some t \<Rightarrow> check_components k ops (tc_components t) [0..<8] w2))"

section \<open>Preparation\<close>

text \<open>Going on in spite of a mismatch: only with force or when viewing, and if the user says so.\<close>

definition go_on :: "bool \<Rightarrow> hpm_opts \<Rightarrow> 's hpm_env \<Rightarrow> (bool \<times> 's hpm_env) outcome" where
  "go_on fine opts w =
     (if fine then Inr (True, w)
      else if \<not> (opt_force opts \<or> opt_view opts) then Inr (False, w)
      else HpmGetUserInput w)"

definition ids_match :: "bytes \<Rightarrow> bytes \<Rightarrow> bool" where
  "ids_match d i = (hdr_device_id d = i ! 0 \<and> hdr_prod_id d = region i 9 2 \<and> hdr_man_id d = region i 6 3)"

definition revision_fits :: "bytes \<Rightarrow> bytes \<Rightarrow> bool" where
  "revision_fits d i = (\<not> (hdr_major d > i ! 2 \<or> hdr_major d = i ! 2 \<and> hdr_minor d > i ! 3))"

definition target_allows :: "hpm_opts \<Rightarrow> bytes \<Rightarrow> target_cap \<Rightarrow> 's hpm_env \<Rightarrow> (bool \<times> 's hpm_env) outcome" where
  "target_allows opts d cap w =
     (if opt_view opts then Inr (True, w)
      else if hdr_components d AND tc_components cap \<noteq> hdr_components d then Inr (False, w)
      else if bit (tc_global cap) 7 then Inr (False, w)
      else if \<not> opt_compare opts \<and> (bit (tc_global cap) 3 \<or> bit (hdr_capabilities d) 4) then HpmGetUserInput w
      else Inr (True, w))"

text \<open>The properties of the components of the image; the result is that of the last query.\<close>

primrec prep_props :: "nat \<Rightarrow> 's hpm_ops \<Rightarrow> byte \<Rightarrow> nat list \<Rightarrow> int \<Rightarrow> hpm_ctx \<Rightarrow> 's hpm_env \<Rightarrow> (int \<times> hpm_ctx \<times> 's hpm_env) outcome" where
  "prep_props k ops comps [] rc ctx w = Inr (rc, ctx, w)"
| "prep_props k ops comps (cid # cids) rc ctx w =
     (let ctx1 = ctx\<lparr>hc_props := (hc_props ctx)[cid := 0]\<rparr> in
      if bit comps cid then
        bind_ok (HpmfwupgGetComponentProperties k ops (of_nat cid) 0 w) (\<lambda>(p, w1).
          case p of
            None \<Rightarrow> prep_props k ops comps cids HPMFWUPG_ERROR ctx1 w1
          | Some prop \<Rightarrow> prep_props k ops comps cids 0 (ctx1\<lparr>hc_props := (hc_props ctx1)[cid := hd prop]\<rparr>) w1)
      else prep_props k ops comps cids rc ctx1 w)"

definition HpmfwupgPreparationStage :: "nat \<Rightarrow> 's hpm_ops \<Rightarrow> hpm_opts \<Rightarrow> hpm_ctx \<Rightarrow> 's hpm_env \<Rightarrow> (int \<times> hpm_ctx \<times> 's hpm_env) outcome" where
  "HpmfwupgPreparationStage k ops opts ctx w =
     (let d = the (hc_image ctx) in
      bind_ok (HpmfwupgGetDeviceId k ops w) (\<lambda>(r, w1).
        case r of None \<Rightarrow> Inr (HPMFWUPG_ERROR, ctx, w1) | Some i \<Rightarrow>
          let ctx1 = ctx\<lparr>hc_devid := i\<rparr> in
          bind_ok (go_on (ids_match d i) opts w1) (\<lambda>(go, w2).
            if \<not> go then Inr (HPMFWUPG_ERROR, ctx1, w2)
            else bind_ok (go_on (revision_fits d i) opts w2) (\<lambda>(go, w3).
              if \<not> go then Inr (HPMFWUPG_ERROR, ctx1, w3)
              else bind_ok (HpmfwupgGetTargetUpgCapabilities k ops w3) (\<lambda>(cap, w4).
                case cap of None \<Rightarrow> Inr (HPMFWUPG_ERROR, ctx1, w4) | Some t \<Rightarrow>
                  let ctx2 = ctx1\<lparr>hc_cap := t\<rparr> in
                  bind_ok (target_allows opts d t w4) (\<lambda>(go, w5).
                    if \<not> go then Inr (HPMFWUPG_ERROR, ctx2, w5)
                    else prep_props k ops (hdr_components d) [0..<8] 0 ctx2 w5))))))"

section \<open>Upload\<close>

text \<open>
  The loop that sends the firmware. Positions are relative to its first byte, which is at \<open>q\<close> of
  the image: \<open>pData\<close>, \<open>pDataTemp\<close>, \<open>lengthOfBlock\<close>, \<open>totalSent\<close>, \<open>bufLength\<close>, \<open>bufLengthIsSet\<close>, \<open>blockNumber\<close>.
\<close>

record upload =
  up_data :: nat
  up_base :: nat
  up_length :: u32
  up_sent :: u32
  up_buf :: nat
  up_buf_set :: bool
  up_block :: byte

definition up_count :: "upload \<Rightarrow> nat" where
  "up_count u = (if up_data u + up_buf u \<le> up_base u + unat (up_length u) then up_buf u
                 else up_base u + unat (up_length u) - up_data u)"

text \<open>After an accepted block: on with the next section if the target named one, else behind the block.\<close>

definition up_next :: "nat \<Rightarrow> u32 \<Rightarrow> u32 \<Rightarrow> upload \<Rightarrow> upload" where
  "up_next count off len u =
     (let u1 = u\<lparr>up_buf_set := True, up_sent := up_sent u + of_nat count, up_block := up_block u + 1\<rparr> in
      if off \<noteq> 0 then u1\<lparr>up_length := len, up_base := unat off, up_data := unat off\<rparr>
      else u1\<lparr>up_data := up_data u + count\<rparr>)"

primrec upload_rounds :: "nat \<Rightarrow> nat \<Rightarrow> 's hpm_ops \<Rightarrow> bytes \<Rightarrow> nat \<Rightarrow> u32 \<Rightarrow> hpm_ctx \<Rightarrow> upload \<Rightarrow> 's hpm_env \<Rightarrow> (int \<times> u32 \<times> 's hpm_env) outcome" where
  "upload_rounds 0 m ops d q fwlen ctx u w = Inl Unfinished"
| "upload_rounds (Suc k) m ops d q fwlen ctx u w =
     (if up_base u + unat (up_length u) \<le> up_data u then Inr (0, up_sent u, w)
      else let count = up_count u in
        if length d < q + up_data u + count then Inl OutOfBounds
        else bind_ok (HpmfwupgUploadFirmwareBlock m ops (up_block u) (region d (q + up_data u) count) ctx w) (\<lambda>(rc, off, len, w1).
          if rc = HPMFWUPG_UPLOAD_BLOCK_LENGTH \<and> \<not> up_buf_set u then
            (if op_lan ops \<and> 8 < up_buf u then upload_rounds k m ops d q fwlen ctx (u\<lparr>up_buf := up_buf u - 8\<rparr>) w1
             else if up_buf u \<noteq> 0 then upload_rounds k m ops d q fwlen ctx (u\<lparr>up_buf := up_buf u - 1\<rparr>) w1
             else Inr (HPMFWUPG_ERROR, up_sent u, w1))
          else if rc = HPMFWUPG_UPLOAD_RETRY then upload_rounds k m ops d q fwlen ctx u w1
          else if rc \<noteq> 0 then Inr (HPMFWUPG_ERROR, up_sent u, w1)
          else if off + len > fwlen \<or> off + len < len then Inr (HPMFWUPG_ERROR, up_sent u, w1)
          else let (now, w2) = hpm_time w1 in upload_rounds k m ops d q fwlen ctx (up_next count off len u) w2))"

declare upload_rounds.simps [simp del]

definition up_start :: "u32 \<Rightarrow> nat \<Rightarrow> upload" where
  "up_start fwlen buf = \<lparr>up_data = 0, up_base = 0, up_length = fwlen, up_sent = 0, up_buf = buf, up_buf_set = False, up_block = 0\<rparr>"

definition HpmFwupgActionUploadFirmware :: "nat \<Rightarrow> 's hpm_ops \<Rightarrow> hpm_opts \<Rightarrow> nat \<Rightarrow> hpm_ctx \<Rightarrow> 's hpm_env \<Rightarrow> (int \<times> hpm_ctx \<times> 's hpm_env) outcome" where
  "HpmFwupgActionUploadFirmware k ops opts p ctx w =
     (let d = the (hc_image ctx); comps = d ! (p + 1); cid = component_of comps; ctx1 = ctx\<lparr>hc_component := cid\<rparr>;
          rq_size = unat (ipmi_intf_get_max_request_data_size (hp_intf w)) in
      if rq_size \<le> 2 then Inr (HPMFWUPG_ERROR, ctx1, w)
      else if length d < fw_data p then Inl OutOfBounds
      else if \<not> bit (hc_update_mask ctx1) cid then Inr (0, ctx1, w)
      else bind_ok (HpmfwupgInitiateUpgradeAction k ops comps (if opt_compare opts then 3 else 2) ctx1 w) (\<lambda>(rc, w1).
        let (start, w2) = hpm_time w1 in
        if rc \<noteq> 0 then Inr (rc, ctx1, w2)
        else bind_ok (upload_rounds k k ops d (fw_data p) (fw_length d p) ctx1 (up_start (fw_length d p) (rq_size - 2)) w2) (\<lambda>(rc, sent, w3).
          if rc \<noteq> 0 then Inr (rc, ctx1, w3)
          else bind_ok (HpmfwupgFinishFirmwareUpload k ops (opt_compare opts) (of_nat cid) sent ctx1 w3) (\<lambda>(rc, w4).
            Inr (rc, ctx1, w4)))))"

section \<open>The stages\<close>

text \<open>The actions backup (0) and prepare (1) for the components of a record that are updated.\<close>

definition act_on_components :: "nat \<Rightarrow> 's hpm_ops \<Rightarrow> hpm_opts \<Rightarrow> byte \<Rightarrow> byte \<Rightarrow> hpm_ctx \<Rightarrow> 's hpm_env \<Rightarrow> (int \<times> 's hpm_env) outcome" where
  "act_on_components k ops opts comps act ctx w =
     (if \<not> opt_compare opts \<and> hc_update_mask ctx AND comps \<noteq> 0 then
        HpmfwupgInitiateUpgradeAction k ops (hc_update_mask ctx AND comps) act ctx w
      else Inr (0, w))"

text \<open>A record: the result, and the position of the next one.\<close>

definition upgrade_record :: "nat \<Rightarrow> 's hpm_ops \<Rightarrow> hpm_opts \<Rightarrow> nat \<Rightarrow> hpm_ctx \<Rightarrow> 's hpm_env \<Rightarrow> (int \<times> hpm_ctx \<times> 's hpm_env) outcome" where
  "upgrade_record k ops opts p ctx w =
     (let d = the (hc_image ctx) in
      bind_ok (HpmfwupgValidateActionRecordChecksum d p) (\<lambda>ok.
        if \<not> ok then Inr (HPMFWUPG_ERROR, ctx, w)
        else if d ! p = 0 \<or> d ! p = 1 then
          bind_ok (act_on_components k ops opts (d ! (p + 1)) (d ! p) ctx w) (\<lambda>(rc, w1). Inr (rc, ctx, w1))
        else if d ! p = 2 then HpmFwupgActionUploadFirmware k ops opts p ctx w
        else Inr (HPMFWUPG_ERROR, ctx, w)))"

definition record_size :: "bytes \<Rightarrow> nat \<Rightarrow> nat" where
  "record_size d p = (if d ! p = 2 then 34 + unat (fw_length d p) else 3)"

function upgrade_records :: "nat \<Rightarrow> 's hpm_ops \<Rightarrow> hpm_opts \<Rightarrow> bytes \<Rightarrow> nat \<Rightarrow> hpm_ctx \<Rightarrow> 's hpm_env \<Rightarrow> (int \<times> hpm_ctx \<times> 's hpm_env) outcome" where
  "upgrade_records k ops opts d p ctx w =
     (if length d - HPMFWUPG_MD5_SIGNATURE_LENGTH \<le> p then Inr (0, ctx, w)
      else bind_ok (upgrade_record k ops opts p ctx w) (\<lambda>(rc, ctx1, w1).
        if rc \<noteq> 0 then Inr (rc, ctx1, w1) else upgrade_records k ops opts d (p + record_size d p) ctx1 w1))"
  by pat_completeness auto

termination
  by (relation "measure (\<lambda>(k, ops, opts, d, p, ctx, w). length d - p)") (auto simp: record_size_def)

declare upgrade_records.simps [simp del]

definition HpmfwupgUpgradeStage :: "nat \<Rightarrow> 's hpm_ops \<Rightarrow> hpm_opts \<Rightarrow> hpm_ctx \<Rightarrow> 's hpm_env \<Rightarrow> (int \<times> hpm_ctx \<times> 's hpm_env) outcome" where
  "HpmfwupgUpgradeStage k ops opts ctx w =
     (let d = the (hc_image ctx) in upgrade_records k ops opts d (first_record d) ctx w)"

definition HpmfwupgActivationStage :: "nat \<Rightarrow> 's hpm_ops \<Rightarrow> hpm_ctx \<Rightarrow> 's hpm_env \<Rightarrow> (int \<times> 's hpm_env) outcome" where
  "HpmfwupgActivationStage k ops ctx w =
     bind_ok (HpmfwupgActivateFirmware k ops 0 (Some ctx) w) (\<lambda>(rc, w1).
       bind_ok (if rc = 0 \<and> (bit (tc_global (hc_cap ctx)) 0 \<or> bit (hdr_capabilities (the (hc_image ctx))) 7) then
           bind_ok (HpmfwupgQuerySelftestResult k ops (Some ctx) w1) (\<lambda>(r, w2).
             Inr (case r of None \<Rightarrow> HPMFWUPG_ERROR | Some (r1, r2) \<Rightarrow> if r1 \<noteq> 0x55 then HPMFWUPG_ERROR else 0, w2))
         else Inr (rc, w1))
       (\<lambda>(rc, w2).
         if rc = HPMFWUPG_ERROR \<and> bit (tc_global (hc_cap ctx)) 1 \<and> supports_backup (hc_props ctx ! hc_component ctx) then
           HpmfwupgQueryRollbackStatus k ops (Some ctx) w2
         else Inr (rc, w2)))"

text \<open>When viewing, the check of the records is done without the other options, and nothing is uploaded.\<close>

definition upgrade_or_view :: "nat \<Rightarrow> 's hpm_ops \<Rightarrow> u32 \<Rightarrow> hpm_opts \<Rightarrow> hpm_ctx \<Rightarrow> 's hpm_env \<Rightarrow> (int \<times> hpm_ctx \<times> 's hpm_env) outcome" where
  "upgrade_or_view k ops sel opts ctx w =
     (if opt_view opts then HpmfwupgPreUpgradeCheck sel (no_opts\<lparr>opt_view := True\<rparr>) ctx w
      else bind_ok (HpmfwupgPreUpgradeCheck sel opts ctx w) (\<lambda>(rc, ctx1, w1).
        if rc \<noteq> 0 then Inr (rc, ctx1, w1) else HpmfwupgUpgradeStage k ops opts ctx1 w1))"

definition HpmfwupgUpgrade :: "nat \<Rightarrow> 's hpm_ops \<Rightarrow> bytes option \<Rightarrow> bool \<Rightarrow> u32 \<Rightarrow> hpm_opts \<Rightarrow> 's hpm_env \<Rightarrow> (int \<times> 's hpm_env) outcome" where
  "HpmfwupgUpgrade k ops f activate sel opts w =
     (let (rc, ctx) = HpmfwupgGetBufferFromFile f empty_ctx in
      if rc \<noteq> 0 then Inr (rc, w)
      else bind_ok (HpmfwupgValidateImageIntegrity (the (hc_image ctx))) (\<lambda>rc.
        if rc \<noteq> 0 then Inr (rc, w)
        else bind_ok (HpmfwupgPreparationStage k ops opts ctx w) (\<lambda>(rc, ctx1, w1).
          if rc \<noteq> 0 then Inr (rc, w1)
          else bind_ok (upgrade_or_view k ops sel opts ctx1 w1) (\<lambda>(rc, ctx2, w2).
            if rc = 0 \<and> activate \<and> hc_update_mask ctx2 \<noteq> 0 then HpmfwupgActivationStage k ops ctx2 w2
            else Inr (rc, w2)))))"

section \<open>The command\<close>

text \<open>
  The arguments of \<open>upgrade\<close> and \<open>compare\<close> behind the word: whether to activate, the components selected
  and the options, none after an error. A component number is itself looked at as a word afterwards.
\<close>

fun component_arg :: "string list \<Rightarrow> u32 option" where
  "component_arg [] = None"
| "component_arg (a # as) =
     (case str2int (Some a) (Some 0) of (rc, v) \<Rightarrow>
        if rc \<noteq> 0 \<or> the v < 0 \<or> the v > 8 then None else Some (push_bit (nat (the v)) 1))"

fun upgrade_args :: "string list \<Rightarrow> bool \<Rightarrow> u32 \<Rightarrow> hpm_opts \<Rightarrow> (bool \<times> u32 \<times> hpm_opts) option" where
  "upgrade_args [] act sel opts = Some (act, sel, opts)"
| "upgrade_args (a # as) act sel opts =
     (if a = ''activate'' then upgrade_args as True sel opts
      else if a = ''force'' then upgrade_args as act sel (opts\<lparr>opt_force := True\<rparr>)
      else if a = ''component'' then
        (case component_arg as of None \<Rightarrow> None | Some b \<Rightarrow> upgrade_args as act (sel OR b) opts)
      else if a = ''debug'' then upgrade_args as act sel (opts\<lparr>opt_debug := True\<rparr>)
      else upgrade_args as act sel opts)"

fun compare_args :: "string list \<Rightarrow> u32 \<Rightarrow> hpm_opts \<Rightarrow> (u32 \<times> hpm_opts) option" where
  "compare_args [] sel opts = Some (sel, opts\<lparr>opt_compare := True\<rparr>)"
| "compare_args (a # as) sel opts =
     (if a = ''component'' then (case component_arg as of None \<Rightarrow> None | Some b \<Rightarrow> compare_args as (sel OR b) opts)
      else if a = ''debug'' then compare_args as sel (opts\<lparr>opt_debug := True\<rparr>)
      else compare_args as sel opts)"

text \<open>Checking the target and then upgrading; without a file name \<open>fopen\<close> is given a null pointer.\<close>

definition check_and_upgrade :: "nat \<Rightarrow> 's hpm_ops \<Rightarrow> (string \<Rightarrow> bytes option) \<Rightarrow> string list \<Rightarrow> bool \<Rightarrow> u32 \<Rightarrow> hpm_opts \<Rightarrow> 's hpm_env
    \<Rightarrow> (int \<times> 's hpm_env) outcome" where
  "check_and_upgrade k ops files args act sel opts w =
     bind_ok (HpmfwupgTargetCheck k ops w) (\<lambda>(rc, w1).
       if rc \<noteq> 0 then Inr (rc, w1)
       else case args of [] \<Rightarrow> Inl Dangling | f # _ \<Rightarrow> HpmfwupgUpgrade k ops (files f) act sel opts w1)"

definition result_of :: "('a option \<times> 's hpm_env) outcome \<Rightarrow> (int \<times> 's hpm_env) outcome" where
  "result_of r = bind_ok r (\<lambda>(x, w). Inr (if x = None then HPMFWUPG_ERROR else 0, w))"

text \<open>The commands that take no further argument.\<close>

definition plain_command :: "nat \<Rightarrow> 's hpm_ops \<Rightarrow> string \<Rightarrow> 's hpm_env \<Rightarrow> (int \<times> 's hpm_env) outcome" where
  "plain_command k ops name w =
     (if name = ''targetcap'' then result_of (HpmfwupgGetTargetUpgCapabilities k ops w)
      else if name = ''abort'' then HpmfwupgAbortUpgrade k ops w
      else if name = ''upgstatus'' then result_of (HpmfwupgGetUpgradeStatus k ops None w)
      else if name = ''rollback'' then HpmfwupgManualFirmwareRollback k ops w
      else if name = ''rollbackstatus'' then HpmfwupgQueryRollbackStatus k ops None w
      else if name = ''selftestresult'' then result_of (HpmfwupgQuerySelftestResult k ops None w)
      else Inr (HPMFWUPG_ERROR, w))"

definition compprop_command :: "nat \<Rightarrow> 's hpm_ops \<Rightarrow> string \<Rightarrow> string \<Rightarrow> 's hpm_env \<Rightarrow> (int \<times> 's hpm_env) outcome" where
  "compprop_command k ops a b w =
     (case str2uchar (Some a) (Some 0) of (rc, cid) \<Rightarrow>
        if rc \<noteq> 0 \<or> the cid > 7 then Inr (HPMFWUPG_ERROR, w)
        else case str2uchar (Some b) (Some 0) of (rc, selector) \<Rightarrow>
          if rc \<noteq> 0 \<or> the selector > 4 then Inr (HPMFWUPG_ERROR, w)
          else result_of (HpmfwupgGetComponentProperties k ops (word_of_int (the cid)) (word_of_int (the selector)) w))"

definition ipmi_hpmfwupg_main :: "nat \<Rightarrow> 's hpm_ops \<Rightarrow> (string \<Rightarrow> bytes option) \<Rightarrow> string list \<Rightarrow> 's hpm_env \<Rightarrow> (int \<times> 's hpm_env) outcome" where
  "ipmi_hpmfwupg_main k ops files argv w =
     (case argv of
        [] \<Rightarrow> Inr (HPMFWUPG_ERROR, w)
      | name # args \<Rightarrow>
          if name = ''help'' then Inr (0, w)
          else if name = ''check'' then
            (if args = [] then HpmfwupgTargetCheck k ops w
             else check_and_upgrade k ops files args False 0 (no_opts\<lparr>opt_view := True\<rparr>) w)
          else if name = ''upgrade'' then
            (case upgrade_args args False 0 no_opts of
               None \<Rightarrow> Inr (HPMFWUPG_ERROR, w)
             | Some (act, sel, opts) \<Rightarrow> check_and_upgrade k ops files args act sel opts w)
          else if name = ''compare'' then
            (case compare_args args 0 no_opts of
               None \<Rightarrow> Inr (HPMFWUPG_ERROR, w)
             | Some (sel, opts) \<Rightarrow> check_and_upgrade k ops files args False sel opts w)
          else if name = ''activate'' then
            HpmfwupgActivateFirmware k ops (if args = [''norollback''] then 1 else 0) None w
          else if name = ''compprop'' then
            (case args of [a, b] \<Rightarrow> compprop_command k ops a b w | _ \<Rightarrow> Inr (HPMFWUPG_ERROR, w))
          else if args = [] then plain_command k ops name w
          else Inr (HPMFWUPG_ERROR, w))"

end
