(* ===== verification/HpmTarget.thy ===== *)
theory HpmTarget
  imports HpmUpgrade
begin

text \<open>
  A controller that takes firmware: the locale \<open>hpm_receiver\<close> says what it does with the commands of an
  upload; inside it the upload loop delivers the firmware whatever the size of the requests. Interpreted for
  a device that takes blocks up to a size.
\<close>

section \<open>Commands that are answered\<close>

text \<open>What the commands leave alone.\<close>

definition same_side :: "'s hpm_env \<Rightarrow> 's hpm_env \<Rightarrow> bool" where
  "same_side w w' \<longleftrightarrow> hp_intf w' = hp_intf w \<and> hp_answers w' = hp_answers w \<and> version_infos w' = version_infos w"

lemma same_side_refl [simp]: "same_side w w"
  by (simp add: same_side_def)

lemma same_side_trans [trans]: "same_side a b \<Longrightarrow> same_side b c \<Longrightarrow> same_side a c"
  by (simp add: same_side_def)

lemma same_sideD: "same_side w w' \<Longrightarrow> hp_intf w' = hp_intf w"
  by (simp add: same_side_def)

lemma same_side_update [simp]:
  "same_side w (w'\<lparr>hp_ticks := n\<rparr>) = same_side w w'" "same_side w (w'\<lparr>error_count := e\<rparr>) = same_side w w'"
  "same_side w (w'\<lparr>hp_dev := s\<rparr>) = same_side w w'" "same_side w (w'\<lparr>valid_size := b\<rparr>) = same_side w w'"
  by (simp_all add: same_side_def)

lemma hpm_time_side [simp]:
  "same_side w (snd (hpm_time w'))  = same_side w w'" "hp_dev (snd (hpm_time w)) = hp_dev w" "same_side (snd (hpm_time w)) w' = same_side w w'"
  by (simp_all add: hpm_time_def same_side_def)

definition answers :: "'s hpm_ops \<Rightarrow> ipmi_intf \<Rightarrow> ipmi_rq \<Rightarrow> 's \<Rightarrow> (ipmi_rs \<Rightarrow> 's \<Rightarrow> bool) \<Rightarrow> bool" where
  "answers ops i rq s P \<longleftrightarrow> (\<exists>rsp s'. op_send ops i rq s = Inr (Some rsp, s') \<and> P rsp s')"

text \<open>A response that says done or in progress.\<close>

definition prompt :: "ipmi_rs \<Rightarrow> bool" where
  "prompt rsp \<longleftrightarrow> rs_ccode rsp = 0 \<or> rs_ccode rsp = 0x80"

definition final_code :: "byte \<Rightarrow> bool" where
  "final_code cc \<longleftrightarrow> cc \<noteq> 0xff \<and> cc \<noteq> 0xc3 \<and> cc \<noteq> 0xd3 \<and> cc \<noteq> 0xc0"

lemma prompt_final: "prompt rsp \<Longrightarrow> final_code (rs_ccode rsp)"
  by (auto simp: prompt_def final_code_def)

lemma send_answered:
  assumes "answers ops (hp_intf w) rq (hp_dev w) (\<lambda>rsp s'. final_code (rs_ccode rsp) \<and> P rsp s')" "0 < k"
  obtains rsp w' where "HpmfwupgSendCmd k ops rq c w = Inr (Some rsp, w')" "same_side w w'" "P rsp (hp_dev w')"
    "final_code (rs_ccode rsp)"
proof -
  obtain rsp s' where r: "op_send ops (hp_intf w) rq (hp_dev w) = Inr (Some rsp, s')" "final_code (rs_ccode rsp)" "P rsp s'"
    using assms(1) by (auto simp: answers_def)
  obtain k' where k: "k = Suc k'"
    using assms(2) gr0_conv_Suc by blast
  show thesis
  proof (rule that)
    show "HpmfwupgSendCmd k ops rq c w = Inr (Some rsp,
        (let w1 = (snd (hpm_time w))\<lparr>hp_dev := s'\<rparr>; w2 = (if rs_ccode rsp = 0 then w1\<lparr>error_count := 0\<rparr> else w1) in
         if rq_netfn rq = IPMI_NETFN_PICMG \<and> rq_cmd rq = HPMFWUPG_UPLOAD_FIRMWARE_BLOCK then w2\<lparr>valid_size := True\<rparr> else w2))"
      using r(1,2) by (simp add: HpmfwupgSendCmd_def send_rounds.simps k hpm_time_def final_code_def Let_def)
  qed (use r(2,3) in \<open>simp_all add: Let_def\<close>)
qed

lemma component_of_less: "component_of b < 8"
proof -
  have "unat b < 2 ^ n \<Longrightarrow> 0 < n \<Longrightarrow> component_of b < n" for n
  proof (induction b arbitrary: n rule: component_of.induct)
    case (1 b)
    show ?case
    proof (cases "drop_bit 1 b = 0")
      case False
      have half: "unat (drop_bit 1 b) = unat b div 2"
        by (simp only: unat_drop_bit_eq) (simp add: drop_bit_eq_div)
      have "unat (drop_bit 1 b) \<noteq> 0"
        using False by (simp only: unat_eq_0 not_False_eq_True)
      then have "2 \<le> unat b"
        unfolding half by simp
      then obtain j where n: "n = Suc j" "0 < j"
        using 1(2,3) by (cases n; cases "n - 1") auto
      then have "component_of (drop_bit 1 b) < j"
        using 1(1) [OF False, of j] 1(2) half by simp
      then show ?thesis
        by (simp add: component_of.simps [of b] n)
    qed (simp add: component_of.simps [of b] 1(3))
  qed
  from this [of 8] show ?thesis
    using unsigned_less [of b] by simp
qed

text \<open>A firmware record at \<open>p\<close> with this firmware.\<close>

definition firmware_at :: "bytes \<Rightarrow> nat \<Rightarrow> bytes \<Rightarrow> bool" where
  "firmware_at d p fw \<longleftrightarrow> fw_data p + length fw \<le> length d \<and> region d (fw_data p) (length fw) = fw \<and>
     unat (fw_length d p) = length fw"

section \<open>The contract\<close>

text \<open>
  \<open>incoming\<close> is what has arrived since the upload was started, \<open>held\<close> the firmware of each component,
  \<open>limit\<close> the size of block it takes.
\<close>

locale hpm_receiver =
  fixes ops :: "'s hpm_ops" and incoming :: "'s \<Rightarrow> bytes option" and held :: "'s \<Rightarrow> nat \<Rightarrow> bytes" and limit :: nat
  assumes initiate: "answers ops i (picmg_rq HPMFWUPG_INITIATE_UPGRADE_ACTION [comps, act]) s
        (\<lambda>rsp s'. prompt rsp \<and> held s' = held s \<and> (act = 2 \<longrightarrow> incoming s' = Some []))"
    and block: "incoming s = Some got \<Longrightarrow> length dat \<le> limit \<Longrightarrow>
      answers ops i (picmg_rq HPMFWUPG_UPLOAD_FIRMWARE_BLOCK (n # dat)) s
        (\<lambda>rsp s'. prompt rsp \<and> rs_data_len rsp \<le> 1 \<and> held s' = held s \<and> incoming s' = Some (got @ dat))"
    and too_long: "limit < length dat \<Longrightarrow>
      answers ops i (picmg_rq HPMFWUPG_UPLOAD_FIRMWARE_BLOCK (n # dat)) s
        (\<lambda>rsp s'. (rs_ccode rsp = IPMI_CC_REQ_DATA_INV_LENGTH \<or> rs_ccode rsp = IPMI_CC_REQ_DATA_FIELD_EXCEED) \<and>
           held s' = held s \<and> incoming s' = incoming s)"
    and finish: "incoming s = Some got \<Longrightarrow> unat len = length got \<Longrightarrow>
      answers ops i (picmg_rq HPMFWUPG_FINISH_FIRMWARE_UPLOAD (cid # le32 len)) s
        (\<lambda>rsp s'. prompt rsp \<and> held s' = (held s)(unat cid := got))"
    and status: "answers ops i (picmg_rq HPMFWUPG_GET_UPGRADE_STATUS []) s
        (\<lambda>rsp s'. rs_ccode rsp = 0 \<and> rs_data rsp ! 2 = 0 \<and> held s' = held s \<and> incoming s' = incoming s)"
begin

abbreviation keeps :: "'s \<Rightarrow> 's \<Rightarrow> bool" where
  "keeps s s' \<equiv> held s' = held s \<and> incoming s' = incoming s"

lemma status_ok:
  assumes "0 < k"
  obtains w' where "HpmfwupgGetUpgradeStatus k ops c w = Inr (Some 0, w')" "same_side w w'" "keeps (hp_dev w) (hp_dev w')"
proof -
  have "answers ops (hp_intf w) (picmg_rq HPMFWUPG_GET_UPGRADE_STATUS []) (hp_dev w)
      (\<lambda>rsp s'. final_code (rs_ccode rsp) \<and> (rs_ccode rsp = 0 \<and> rs_data rsp ! 2 = 0 \<and> keeps (hp_dev w) s'))"
    using status by (fastforce simp: answers_def final_code_def)
  from send_answered [OF this assms] obtain rsp w' where
    "HpmfwupgSendCmd k ops (picmg_rq HPMFWUPG_GET_UPGRADE_STATUS []) c w = Inr (Some rsp, w')"
    "same_side w w'" "rs_ccode rsp = 0 \<and> rs_data rsp ! 2 = 0 \<and> keeps (hp_dev w) (hp_dev w')"
    by metis
  then show thesis
    by (intro that [of w']) (simp_all add: HpmfwupgGetUpgradeStatus_def)
qed

lemma wait_ok:
  assumes "0 < k"
  obtains w' where "HpmfwupgWaitLongDurationCmd k ops (Some ctx) w = Inr (0, w')" "same_side w w'" "keeps (hp_dev w) (hp_dev w')"
proof -
  obtain k' where k: "k = Suc k'"
    using assms gr0_conv_Suc by blast
  obtain w' where "HpmfwupgGetUpgradeStatus k ops (Some ctx) (snd (hpm_time w)) = Inr (Some 0, w')"
    "same_side (snd (hpm_time w)) w'" "keeps (hp_dev (snd (hpm_time w))) (hp_dev w')"
    using status_ok [OF assms] by blast
  then show thesis
    by (intro that [of w'])
      (auto simp: HpmfwupgWaitLongDurationCmd_def wait_rounds.simps k split_beta Let_def)
qed

text \<open>A command with a prompt answer succeeds, and what the answer did to the target stays.\<close>

lemma finish_command:
  assumes "answers ops (hp_intf w) rq (hp_dev w) (\<lambda>rsp s'. prompt rsp \<and> P s')" "0 < k"
    and keep: "\<forall>s s'. P s \<longrightarrow> keeps s s' \<longrightarrow> P s'" and "fine 0"
  obtains w' where "bind_ok (HpmfwupgSendCmd k ops rq (Some ctx) w) (hpm_finish k ops (Some ctx) fine) = Inr (0, w')"
    "same_side w w'" "P (hp_dev w')"
proof -
  have "answers ops (hp_intf w) rq (hp_dev w) (\<lambda>rsp s'. final_code (rs_ccode rsp) \<and> (prompt rsp \<and> P s'))"
    using assms(1) prompt_final by (fastforce simp: answers_def)
  from send_answered [OF this assms(2)] obtain rsp w1 where s:
    "HpmfwupgSendCmd k ops rq (Some ctx) w = Inr (Some rsp, w1)" "same_side w w1" "prompt rsp" "P (hp_dev w1)"
    by metis
  obtain w2 where w2: "HpmfwupgWaitLongDurationCmd k ops (Some ctx) w1 = Inr (0, w2)" "same_side w1 w2" "keeps (hp_dev w1) (hp_dev w2)"
    using wait_ok [OF assms(2)] by blast
  show thesis
  proof (cases "rs_ccode rsp = 0x80")
    case True
    then show thesis
      using s w2 keep same_side_trans [OF s(2) w2(2)]
      by (intro that [of w2]) (auto simp: hpm_finish_def HPMFWUPG_COMMAND_IN_PROGRESS_def)
  next
    case False
    then show thesis
      using s \<open>fine 0\<close> by (intro that [of w1]) (auto simp: hpm_finish_def HPMFWUPG_COMMAND_IN_PROGRESS_def prompt_def)
  qed
qed

text \<open>An accepted block, and one that is too long.\<close>

lemma block_ok:
  assumes "incoming (hp_dev w) = Some got" "length dat \<le> limit" "0 < k"
  obtains w' where "HpmfwupgUploadFirmwareBlock k ops n dat ctx w = Inr (0, 0, 0, w')" "same_side w w'"
    "held (hp_dev w') = held (hp_dev w)" "incoming (hp_dev w') = Some (got @ dat)"
proof -
  have "answers ops (hp_intf w) (picmg_rq HPMFWUPG_UPLOAD_FIRMWARE_BLOCK (n # dat)) (hp_dev w)
      (\<lambda>rsp s'. final_code (rs_ccode rsp) \<and>
        (prompt rsp \<and> rs_data_len rsp \<le> 1 \<and> held s' = held (hp_dev w) \<and> incoming s' = Some (got @ dat)))"
    using block [OF assms(1,2)] prompt_final by (fastforce simp: answers_def)
  from send_answered [OF this assms(3)] obtain rsp w1 where s:
    "HpmfwupgSendCmd k ops (picmg_rq HPMFWUPG_UPLOAD_FIRMWARE_BLOCK (n # dat)) (Some ctx) w = Inr (Some rsp, w1)"
    "same_side w w1" "prompt rsp" "rs_data_len rsp \<le> 1" "held (hp_dev w1) = held (hp_dev w)"
    "incoming (hp_dev w1) = Some (got @ dat)"
    by metis
  obtain w2 where w2: "HpmfwupgWaitLongDurationCmd k ops (Some ctx) w1 = Inr (0, w2)" "same_side w1 w2" "keeps (hp_dev w1) (hp_dev w2)"
    using wait_ok [OF assms(3)] by blast
  show thesis
  proof (cases "rs_ccode rsp = 0x80")
    case True
    then show thesis
      using s w2 same_side_trans [OF s(2) w2(2)]
      by (intro that [of w2]) (auto simp: HpmfwupgUploadFirmwareBlock_def HPMFWUPG_COMMAND_IN_PROGRESS_def)
  next
    case False
    then show thesis
      using s by (intro that [of w1]) (auto simp: HpmfwupgUploadFirmwareBlock_def HPMFWUPG_COMMAND_IN_PROGRESS_def prompt_def)
  qed
qed

lemma block_refused:
  assumes "limit < length dat" "0 < k"
  obtains w' where "HpmfwupgUploadFirmwareBlock k ops n dat ctx w = Inr (HPMFWUPG_UPLOAD_BLOCK_LENGTH, 0, 0, w')" "same_side w w'"
    "keeps (hp_dev w) (hp_dev w')"
proof -
  have "answers ops (hp_intf w) (picmg_rq HPMFWUPG_UPLOAD_FIRMWARE_BLOCK (n # dat)) (hp_dev w)
      (\<lambda>rsp s'. final_code (rs_ccode rsp) \<and>
        ((rs_ccode rsp = IPMI_CC_REQ_DATA_INV_LENGTH \<or> rs_ccode rsp = IPMI_CC_REQ_DATA_FIELD_EXCEED) \<and> keeps (hp_dev w) s'))"
    using too_long [OF assms(1)]
    by (fastforce simp: answers_def final_code_def IPMI_CC_REQ_DATA_INV_LENGTH_def IPMI_CC_REQ_DATA_FIELD_EXCEED_def)
  from send_answered [OF this assms(2)] obtain rsp w1 where s:
    "HpmfwupgSendCmd k ops (picmg_rq HPMFWUPG_UPLOAD_FIRMWARE_BLOCK (n # dat)) (Some ctx) w = Inr (Some rsp, w1)"
    "same_side w w1" "keeps (hp_dev w) (hp_dev w1)"
    "rs_ccode rsp = IPMI_CC_REQ_DATA_INV_LENGTH \<or> rs_ccode rsp = IPMI_CC_REQ_DATA_FIELD_EXCEED"
    by metis
  have "HpmfwupgUploadFirmwareBlock k ops n dat ctx w = Inr (HPMFWUPG_UPLOAD_BLOCK_LENGTH, 0, 0, w1)"
    using s(4) by (rule disjE) (simp_all add: HpmfwupgUploadFirmwareBlock_def s(1) HPMFWUPG_COMMAND_IN_PROGRESS_def Let_def
        HPMFWUPG_IS_RETRYABLE_def IPMI_CC_REQ_DATA_INV_LENGTH_def IPMI_CC_REQ_DATA_FIELD_EXCEED_def)
  then show thesis
    using s(2,3) by (rule that)
qed

text \<open>
  The loop: \<open>fw\<close> is the firmware at \<open>q\<close>. As long as no block was accepted its size may be too large; then it
  shrinks, by 8 or by 1, but never to nothing.
\<close>

definition uploading :: "bytes \<Rightarrow> upload \<Rightarrow> 's hpm_env \<Rightarrow> bool" where
  "uploading fw u w \<longleftrightarrow> up_base u = 0 \<and> unat (up_length u) = length fw \<and> up_data u \<le> length fw \<and> up_sent u = of_nat (up_data u) \<and>
     0 < up_buf u \<and> incoming (hp_dev w) = Some (take (up_data u) fw) \<and>
     (up_buf u \<le> limit \<or> \<not> up_buf_set u \<or> up_data u = length fw)"

lemma upload_ok:
  assumes "region d q (length fw) = fw" "q + length fw \<le> length d" "0 < limit" "0 < m" "unat fwlen = length fw"
    and "uploading fw u w" "length fw - up_data u + up_buf u < k"
  shows "\<exists>w'. upload_rounds k m ops d q fwlen ctx u w = Inr (0, of_nat (length fw), w') \<and> same_side w w' \<and>
    held (hp_dev w') = held (hp_dev w) \<and> incoming (hp_dev w') = Some fw"
  using assms(6,7)
proof (induction k arbitrary: u w)
  case (Suc k)
  show ?case
  proof (cases "up_data u = length fw")
    case True
    then show ?thesis
      using Suc.prems(1) by (auto simp: upload_rounds.simps uploading_def)
  next
    case False
    define n where "n = up_count u"
    have lt: "up_data u < length fw"
      using False Suc.prems(1) by (simp add: uploading_def)
    have n: "0 < n" "n \<le> up_buf u" "up_data u + n \<le> length fw" "n = up_buf u \<or> up_data u + n = length fw"
      using Suc.prems(1) lt by (auto simp: n_def up_count_def uploading_def)
    define dat where "dat = region d (q + up_data u) n"
    have "drop (up_data u) fw = take (length fw - up_data u) (drop (q + up_data u) d)"
      using arg_cong [OF assms(1), of "drop (up_data u)"] by (simp add: region_def drop_take add.commute)
    then have "dat = take n (drop (up_data u) fw)"
      using n(3) by (simp add: dat_def region_def)
    then have dat: "length dat = n" "take (up_data u) fw @ dat = take (up_data u + n) fw"
      using n(3) by (simp_all add: take_add)
    have in_range: "\<not> length d < q + up_data u + n" "\<not> up_base u + unat (up_length u) \<le> up_data u"
      using assms(2) n(3) lt Suc.prems(1) by (simp_all add: uploading_def)
    have step: "upload_rounds (Suc k) m ops d q fwlen ctx u w =
        bind_ok (HpmfwupgUploadFirmwareBlock m ops (up_block u) dat ctx w) (\<lambda>(rc, off, len, w1).
          if rc = HPMFWUPG_UPLOAD_BLOCK_LENGTH \<and> \<not> up_buf_set u then
            (if op_lan ops \<and> 8 < up_buf u then upload_rounds k m ops d q fwlen ctx (u\<lparr>up_buf := up_buf u - 8\<rparr>) w1
             else if up_buf u \<noteq> 0 then upload_rounds k m ops d q fwlen ctx (u\<lparr>up_buf := up_buf u - 1\<rparr>) w1
             else Inr (HPMFWUPG_ERROR, up_sent u, w1))
          else if rc = HPMFWUPG_UPLOAD_RETRY then upload_rounds k m ops d q fwlen ctx u w1
          else if rc \<noteq> 0 then Inr (HPMFWUPG_ERROR, up_sent u, w1)
          else if off + len > fwlen \<or> off + len < len then Inr (HPMFWUPG_ERROR, up_sent u, w1)
          else let (now, w2) = hpm_time w1 in upload_rounds k m ops d q fwlen ctx (up_next n off len u) w2)"
      using in_range by (simp add: upload_rounds.simps dat_def split_beta Let_def flip: n_def)
    show ?thesis
    proof (cases "n \<le> limit")
      case True
      obtain w1 where w1: "HpmfwupgUploadFirmwareBlock m ops (up_block u) dat ctx w = Inr (0, 0, 0, w1)" "same_side w w1"
        "held (hp_dev w1) = held (hp_dev w)" "incoming (hp_dev w1) = Some (take (up_data u) fw @ dat)"
        using block_ok [of w "take (up_data u) fw" dat m "up_block u" ctx] Suc.prems(1) True dat(1) \<open>0 < m\<close>
        by (auto simp: uploading_def)
      define u1 where "u1 = up_next n 0 0 u"
      have u1: "uploading fw u1 (snd (hpm_time w1))" "up_data u1 = up_data u + n" "up_buf u1 = up_buf u"
        using Suc.prems(1) w1(4) n True by (auto simp: uploading_def u1_def up_next_def Let_def dat(2))
      have "length fw - up_data u1 + up_buf u1 < k"
        using Suc.prems(2) n(1) u1 lt n(3) by simp
      with Suc.IH [OF u1(1)] obtain w' where "upload_rounds k m ops d q fwlen ctx u1 (snd (hpm_time w1)) = Inr (0, of_nat (length fw), w')"
        "same_side w1 w'" "held (hp_dev w') = held (hp_dev w1)" "incoming (hp_dev w') = Some fw"
        by auto
      then show ?thesis
        using step w1 same_side_trans [OF w1(2)]
        by (auto simp: u1_def HPMFWUPG_UPLOAD_BLOCK_LENGTH_def HPMFWUPG_UPLOAD_RETRY_def split_beta Let_def)
    next
      case long: False
      obtain w1 where w1: "HpmfwupgUploadFirmwareBlock m ops (up_block u) dat ctx w = Inr (HPMFWUPG_UPLOAD_BLOCK_LENGTH, 0, 0, w1)"
        "same_side w w1" "keeps (hp_dev w) (hp_dev w1)"
        using block_refused [of dat m "up_block u" ctx w] long dat(1) \<open>0 < m\<close> by auto
      have unset: "\<not> up_buf_set u" "1 < up_buf u"
        using Suc.prems(1) long n(2) lt assms(3) by (auto simp: uploading_def)
      define less where "less = (if op_lan ops \<and> 8 < up_buf u then up_buf u - 8 else up_buf u - 1)"
      define u1 where "u1 = u\<lparr>up_buf := less\<rparr>"
      have less: "0 < less" "less < up_buf u"
        using unset(2) by (auto simp: less_def)
      have u1: "uploading fw u1 w1" "length fw - up_data u1 + up_buf u1 < k"
        using Suc.prems w1(3) less unset(1) by (auto simp: uploading_def u1_def)
      with Suc.IH [OF u1] obtain w' where "upload_rounds k m ops d q fwlen ctx u1 w1 = Inr (0, of_nat (length fw), w')"
        "same_side w1 w'" "held (hp_dev w') = held (hp_dev w1)" "incoming (hp_dev w') = Some fw"
        by auto
      then show ?thesis
        using step w1 same_side_trans [OF w1(2)] unset
        by (auto simp: u1_def less_def split: if_splits)
    qed
  qed
qed simp

text \<open>A whole firmware record.\<close>

lemma action_upload_ok:
  fixes d p
  defines "cid \<equiv> component_of (d ! (p + 1))"
  assumes "firmware_at d p fw" "hc_image ctx = Some d" "bit (hc_update_mask ctx) cid" "\<not> opt_compare opts"
    and "2 < ipmi_intf_get_max_request_data_size (hp_intf w)" "0 < limit" "length fw + 65536 \<le> k"
  shows "\<exists>w'. HpmFwupgActionUploadFirmware k ops opts p ctx w = Inr (0, ctx\<lparr>hc_component := cid\<rparr>, w') \<and> same_side w w' \<and>
    held (hp_dev w') = (held (hp_dev w))(cid := fw)"
proof -
  define ctx1 where "ctx1 = ctx\<lparr>hc_component := cid\<rparr>"
  have k: "0 < k" using assms(8) by simp
  define rq where "rq = unat (ipmi_intf_get_max_request_data_size (hp_intf w))"
  have rq: "2 < rq" "rq < 65536"
    using assms(6) unat_u16_less by (simp_all add: rq_def word_less_nat_alt)
  have cid: "unat (of_nat cid :: byte) = cid"
    using component_of_less [of "d ! (p + 1)"] by (simp add: cid_def unat_of_nat)
  have "answers ops (hp_intf w) (picmg_rq HPMFWUPG_INITIATE_UPGRADE_ACTION [d ! (p + 1), 2]) (hp_dev w)
      (\<lambda>rsp s'. prompt rsp \<and> (held s' = held (hp_dev w) \<and> incoming s' = Some []))"
    using initiate [of "hp_intf w" "d ! (p + 1)" 2 "hp_dev w"] by (simp add: answers_def)
  from finish_command [OF this k, of "\<lambda>cc. cc = 0" ctx1] obtain w1 where w1:
    "HpmfwupgInitiateUpgradeAction k ops (d ! (p + 1)) 2 ctx1 w = Inr (0, w1)" "same_side w w1"
    "held (hp_dev w1) = held (hp_dev w)" "incoming (hp_dev w1) = Some []"
    by (auto simp: HpmfwupgInitiateUpgradeAction_def)
  have "uploading fw (up_start (fw_length d p) (rq - 2)) (snd (hpm_time w1))"
    using w1(4) rq assms(2) by (simp add: uploading_def up_start_def firmware_at_def)
  moreover have "length fw - up_data (up_start (fw_length d p) (rq - 2)) + up_buf (up_start (fw_length d p) (rq - 2)) < k"
    unfolding up_start_def upload.simps using assms(8) rq by linarith
  moreover have "region d (fw_data p) (length fw) = fw" "fw_data p + length fw \<le> length d" "unat (fw_length d p) = length fw"
    using assms(2) by (simp_all add: firmware_at_def)
  ultimately obtain w2 where w2:
    "upload_rounds k k ops d (fw_data p) (fw_length d p) ctx1 (up_start (fw_length d p) (rq - 2)) (snd (hpm_time w1)) =
       Inr (0, of_nat (length fw), w2)" "same_side w1 w2"
    "held (hp_dev w2) = held (hp_dev w1)" "incoming (hp_dev w2) = Some fw"
    using upload_ok [where d = d and q = "fw_data p" and fw = fw and m = k and fwlen = "fw_length d p" and k = k and ctx = ctx1
        and u = "up_start (fw_length d p) (rq - 2)" and w = "snd (hpm_time w1)"] assms(7) k
    by auto
  have "unat (fw_length d p) < 4294967296"
    by (rule order_less_le_trans [OF unsigned_less]) simp
  then have len: "unat (of_nat (length fw) :: u32) = length fw"
    using assms(2) by (simp add: firmware_at_def unat_of_nat)
  have "answers ops (hp_intf w2) (picmg_rq HPMFWUPG_FINISH_FIRMWARE_UPLOAD (of_nat cid # le32 (of_nat (length fw)))) (hp_dev w2)
      (\<lambda>rsp s'. prompt rsp \<and> held s' = (held (hp_dev w))(cid := fw))"
    using finish [OF w2(4) len, of "hp_intf w2" "of_nat cid"] w1(3) w2(3) by (simp add: cid)
  from finish_command [OF this k, of "\<lambda>cc. cc = 0 \<or> opt_compare opts \<and> cc = 0x83" ctx1] obtain w3 where w3:
    "HpmfwupgFinishFirmwareUpload k ops (opt_compare opts) (of_nat cid) (of_nat (length fw)) ctx1 w2 = Inr (0, w3)" "same_side w2 w3"
    "held (hp_dev w3) = (held (hp_dev w))(cid := fw)"
    by (auto simp: HpmfwupgFinishFirmwareUpload_def)
  have "HpmFwupgActionUploadFirmware k ops opts p ctx w = Inr (0, ctx1, w3)"
    using assms(2-5) rq w1(1) w2(1) w3(1)
    by (simp add: HpmFwupgActionUploadFirmware_def Let_def firmware_at_def ctx1_def cid_def rq_def split_beta)
  then show ?thesis
    using w3(3) same_side_trans [OF same_side_trans [OF w1(2) w2(2)] w3(2)] by (auto simp: ctx1_def)
qed

end

end
