(* ===== verification/Md5Props.thy ===== *)
theory Md5Props
  imports Md5
begin

text \<open>
  However a message is cut into pieces, feeding them one after the other and finishing gives the digest
  of the padded message.
\<close>

section \<open>The digest of a message\<close>

definition md5_bits :: "bytes \<Rightarrow> nat" where "md5_bits m = 8 * length m"

definition md5_padded :: "bytes \<Rightarrow> bytes" where
  "md5_padded m = m @ [0x80] @ replicate ((119 - length m mod 64) mod 64) 0 @
     le32 (of_nat (md5_bits m)) @ le32 (of_nat (md5_bits m div 2 ^ 32))"

fun regs_bytes :: "md5_regs \<Rightarrow> bytes" where
  "regs_bytes (a, b, c, d) = le32 a @ le32 b @ le32 c @ le32 d"

definition md5_digest :: "bytes \<Rightarrow> bytes" where
  "md5_digest m = regs_bytes (fst (md5_blocks (md5_padded m) md5_start))"

lemma length_md5_digest [simp]: "length (md5_digest m) = 16"
  by (cases "fst (md5_blocks (md5_padded m) md5_start)") (simp add: md5_digest_def)

section \<open>Blocks\<close>

lemma md5_blocks_short: "length p < 64 \<Longrightarrow> md5_blocks p r = (r, p)"
  by (simp add: md5_blocks.simps)

lemma md5_blocks_long: "length x = 64 \<Longrightarrow> md5_blocks (x @ p) r = md5_blocks p (md5_process x r)"
  by (simp add: md5_blocks.simps [of "x @ p"])

lemma md5_blocks_rest: "length (snd (md5_blocks p r)) = length p mod 64"
proof (induction p r rule: md5_blocks.induct)
  case (1 p r)
  then show ?case
    by (cases "64 \<le> length p") (simp_all add: md5_blocks.simps [of p] le_mod_geq)
qed

lemma md5_blocks_append: "md5_blocks (p @ q) r = md5_blocks (snd (md5_blocks p r) @ q) (fst (md5_blocks p r))"
proof (induction p r rule: md5_blocks.induct)
  case (1 p r)
  show ?case
  proof (cases "64 \<le> length p")
    case True
    have "md5_blocks (p @ q) r = md5_blocks (drop 64 p @ q) (md5_process (take 64 p) r)"
      using md5_blocks_long [of "take 64 p" "drop 64 p @ q" r] True by (simp flip: append_assoc)
    then show ?thesis
      using "1.IH" [OF True] True by (simp add: md5_blocks.simps [of p])
  next
    case False
    then show ?thesis
      by (simp add: md5_blocks.simps [of p])
  qed
qed

section \<open>The state after a message\<close>

definition md5_after :: "bytes \<Rightarrow> md5_state \<Rightarrow> bool" where
  "md5_after m s \<longleftrightarrow> md_count0 s = of_nat (md5_bits m) \<and> md_count1 s = of_nat (md5_bits m div 2 ^ 32) \<and>
     md_abcd s = fst (md5_blocks m md5_start) \<and> length (md_buf s) = 64 \<and>
     take (length m mod 64) (md_buf s) = snd (md5_blocks m md5_start)"

lemma md5_after_init: "length (md_buf s) = 64 \<Longrightarrow> md5_after [] (md5_init s)"
  by (simp add: md5_after_def md5_init_def md5_bits_def md5_blocks_short)

text \<open>The count in bits, in two words.\<close>

lemma mod_64_of_bits: "8 * n mod 2 ^ 32 div 8 mod 64 = n mod (64 :: nat)"
proof -
  have "8 * n mod 2 ^ 32 = 8 * (n mod 2 ^ 29)"
    using mult_mod_right [of 8 n "2 ^ 29"] by simp
  moreover have "n mod 2 ^ 29 mod 64 = n mod 64"
    by (rule mod_mod_cancel) (rule dvdI [of _ _ "2 ^ 23"], simp)
  ultimately show ?thesis
    by simp
qed

lemma and_63: "unat (w AND 63 :: u32) = unat w mod 64"
proof -
  have "(63 :: u32) = mask 6"
    by (simp add: mask_numeral)
  then show ?thesis
    by (simp only: take_bit_eq_mask [symmetric] unsigned_take_bit_eq) (simp add: take_bit_eq_mod)
qed

lemma offset_of_count: "unat (drop_bit 3 (of_nat (8 * n) :: u32) AND 63) = n mod 64"
proof -
  have "unat (of_nat (8 * n) :: u32) = 8 * n mod 2 ^ 32"
    by (simp only: unat_of_nat) simp
  then have "unat (drop_bit 3 (of_nat (8 * n) :: u32)) = 8 * n mod 2 ^ 32 div 8"
    unfolding unat_drop_bit_eq by (simp only: drop_bit_eq_div) simp
  then show ?thesis
    by (simp only: and_63 mod_64_of_bits)
qed

lemma mod_carry:
  assumes "0 < (M :: nat)"
  shows "(x + y) mod M < y mod M \<longleftrightarrow> M \<le> x mod M + y mod M"
    "(x + y) div M = x div M + y div M + (if M \<le> x mod M + y mod M then 1 else 0)"
proof -
  have l: "x mod M < M" "y mod M < M"
    using assms by simp_all
  have cases: "r = (if M \<le> a + b then a + b - M else a + b) \<Longrightarrow> a < M \<Longrightarrow> b < M \<Longrightarrow> r < b \<longleftrightarrow> M \<le> a + b" for a b r :: nat
    by auto
  have "(x + y) mod M = (if M \<le> x mod M + y mod M then x mod M + y mod M - M else x mod M + y mod M)"
    using l mod_add_eq [of x M y] le_mod_geq [of M "x mod M + y mod M"] by (metis add_less_mono less_diff_conv2 mod_less mult_2 not_le mod_if)
  then show "(x + y) mod M < y mod M \<longleftrightarrow> M \<le> x mod M + y mod M"
    using cases l by blast
  have "(a + b) div M = (if M \<le> a + b then 1 else 0)" if "a < M" "b < M" for a b :: nat
    using that by (auto intro!: div_nat_eqI)
  then have "(x mod M + y mod M) div M = (if M \<le> x mod M + y mod M then 1 else 0)"
    using l by blast
  then show "(x + y) div M = x div M + y div M + (if M \<le> x mod M + y mod M then 1 else 0)"
    by (simp only: div_add1_eq [of x y M])
qed

lemma md5_count_ok:
  assumes "md_count0 s = of_nat (8 * l)" "md_count1 s = of_nat (8 * l div 2 ^ 32)"
  shows "md_count0 (md5_count n s) = of_nat (8 * (l + n))" "md_count1 (md5_count n s) = of_nat (8 * (l + n) div 2 ^ 32)"
proof -
  show "md_count0 (md5_count n s) = of_nat (8 * (l + n))"
    using assms(1) by (simp add: md5_count_def Let_def algebra_simps)
  define x where "x = 8 * l"
  define y where "y = 8 * n"
  have u: "unat (of_nat x + of_nat y :: u32) = (x + y) mod 2 ^ 32" "unat (of_nat y :: u32) = y mod 2 ^ 32"
    by (simp_all add: unat_of_nat flip: of_nat_add)
  have carry: "(of_nat x + of_nat y :: u32) < of_nat y \<longleftrightarrow> 2 ^ 32 \<le> x mod 2 ^ 32 + y mod 2 ^ 32"
    unfolding word_less_nat_alt u by (rule mod_carry) simp
  have "(x + y) div 2 ^ 32 = x div 2 ^ 32 + y div 2 ^ 32 + (if 2 ^ 32 \<le> x mod 2 ^ 32 + y mod 2 ^ 32 then 1 else 0)"
    by (rule mod_carry) simp
  moreover have "n div 2 ^ 29 = y div 2 ^ 32"
    using div_mult_mult1 [of 8 n "2 ^ 29"] by (simp add: y_def)
  ultimately show "md_count1 (md5_count n s) = of_nat (8 * (l + n) div 2 ^ 32)"
    using assms carry unfolding md5_count_def Let_def by (simp add: x_def y_def algebra_simps)
qed

section \<open>Feeding pieces\<close>

text \<open>What the steps of \<open>md5_append\<close> do to the registers and the partial block.\<close>

lemma take_put_front: "length buf = 64 \<Longrightarrow> length rest \<le> 64 \<Longrightarrow> take (length rest) (put_at buf 0 rest) = rest"
  using take_end_put_at [of 0 buf rest] by simp

lemma md5_append_ok:
  assumes "md5_after m s"
  shows "md5_after (m @ d) (md5_append d s)"
proof -
  define rest where "rest = snd (md5_blocks m md5_start)"
  define o' where "o' = length m mod 64"
  have s: "md_count0 s = of_nat (8 * length m)" "md_count1 s = of_nat (8 * length m div 2 ^ 32)"
    "md_abcd s = fst (md5_blocks m md5_start)" "length (md_buf s) = 64" "take o' (md_buf s) = rest"
    using assms by (simp_all add: md5_after_def md5_bits_def rest_def o'_def)
  have len: "length rest = o'" "o' < 64"
    by (simp_all add: rest_def o'_def md5_blocks_rest)
  have off: "unat (drop_bit 3 (md_count0 s) AND 63) = o'"
    by (simp only: s(1) offset_of_count o'_def)
  define n where "n = length d"
  define s1 where "s1 = md5_count n s"
  have s1: "md_count0 s1 = of_nat (md5_bits (m @ d))" "md_count1 s1 = of_nat (md5_bits (m @ d) div 2 ^ 32)"
    "md_abcd s1 = md_abcd s" "md_buf s1 = md_buf s"
    using md5_count_ok [OF s(1,2), of n] by (simp_all add: s1_def n_def md5_bits_def) (simp_all add: md5_count_def Let_def)
  have blocks: "md5_blocks (m @ d) md5_start = md5_blocks (rest @ d) (md_abcd s)"
    using md5_blocks_append [of m d md5_start] by (simp add: rest_def s(3))
  consider "n = 0" | "n \<noteq> 0" "o' \<noteq> 0" "o' + n < 64" | "n \<noteq> 0" "o' \<noteq> 0" "64 \<le> o' + n" | "n \<noteq> 0" "o' = 0"
    by linarith
  then show ?thesis
  proof cases
    case 1
    then show ?thesis
      using assms by (simp add: md5_append_def Let_def n_def)
  next
    case 2
    have app: "md5_append d s = s1\<lparr>md_buf := put_at (md_buf s) o' d\<rparr>"
      using 2 s1(4) by (simp add: md5_append_def Let_def off n_def [symmetric] s1_def [symmetric])
    have b: "md5_blocks (m @ d) md5_start = (md_abcd s, rest @ d)"
      unfolding blocks using 2(3) len by (intro md5_blocks_short) (simp add: n_def)
    have "take (o' + n) (put_at (md_buf s) o' d) = rest @ d"
      using take_end_put_at [of o' "md_buf s" d] s(4,5) len(2) by (simp add: n_def)
    moreover have "length (m @ d) mod 64 = o' + n"
      using mod_add_left_eq [of "length m" 64 n] 2(3) by (simp add: o'_def n_def)
    moreover have "length (put_at (md_buf s) o' d) = 64"
      using 2(3) s(4) by (simp add: n_def)
    ultimately show ?thesis
      using s1 unfolding md5_after_def app b by simp
  next
    case 3
    define c where "c = 64 - o'"
    define block where "block = rest @ take c d"
    have c: "c \<le> n" "length block = 64" "put_at (md_buf s) o' (take c d) = block"
    proof -
      show "c \<le> n"
        using 3 by (simp add: c_def)
      then show "length block = 64"
        using len by (simp add: block_def c_def n_def)
      have "put_at (md_buf s) o' (take c d) = take 64 (put_at (md_buf s) o' (take c d))"
        using s(4) len(2) \<open>c \<le> n\<close> by (simp add: c_def n_def)
      also have "\<dots> = rest @ take c d"
        using take_end_put_at [of o' "md_buf s" "take c d"] s(4,5) len \<open>c \<le> n\<close> by (simp add: c_def n_def)
      finally show "put_at (md_buf s) o' (take c d) = block"
        by (simp add: block_def)
    qed
    obtain regs left where l: "md5_blocks (drop c d) (md5_process block (md_abcd s)) = (regs, left)"
      by fastforce
    have copy: "(if o' + n > 64 then 64 - o' else n) = c"
      using 3 by (auto simp: c_def)
    have app: "md5_append d s = s1\<lparr>md_buf := put_at block 0 left, md_abcd := regs\<rparr>"
      using 3 c l s1(3,4) len(2)
      by (simp add: md5_append_def Let_def off n_def [symmetric] s1_def [symmetric] copy) (simp add: c_def)
    have b: "md5_blocks (m @ d) md5_start = (regs, left)"
      using md5_blocks_long [OF c(2), of "drop c d" "md_abcd s"] l unfolding blocks by (simp add: block_def)
    then have "length left = length (m @ d) mod 64"
      using md5_blocks_rest [of "m @ d" md5_start] by simp
    moreover from this have "length left \<le> 64"
      by simp
    then have "take (length left) (put_at block 0 left) = left" "length (put_at block 0 left) = 64"
      using c(2) take_put_front [of "block" left] by (simp_all add: put_at_def)
    ultimately show ?thesis
      using s1 unfolding md5_after_def app b by simp
  next
    case 4
    obtain regs left where l: "md5_blocks d (md_abcd s) = (regs, left)"
      by fastforce
    have app: "md5_append d s = s1\<lparr>md_buf := put_at (md_buf s) 0 left, md_abcd := regs\<rparr>"
      using 4 l s1(3,4) by (simp add: md5_append_def Let_def off n_def [symmetric] s1_def [symmetric])
    have b: "md5_blocks (m @ d) md5_start = (regs, left)"
      using l 4 len unfolding blocks by simp
    then have "length left = length (m @ d) mod 64"
      using md5_blocks_rest [of "m @ d" md5_start] by simp
    moreover from this have "length left \<le> 64"
      by simp
    then have "take (length left) (put_at (md_buf s) 0 left) = left" "length (put_at (md_buf s) 0 left) = 64"
      using s(4) take_put_front [of "md_buf s" left] by (simp_all add: put_at_def)
    ultimately show ?thesis
      using s1 unfolding md5_after_def app b by simp
  qed
qed

lemma md5_pieces: "md5_after m s \<Longrightarrow> md5_after (m @ concat ds) (fold md5_append ds s)"
proof (induction ds arbitrary: m s)
  case (Cons d ds)
  then show ?case
    using md5_append_ok Cons.IH [of "m @ d" "md5_append d s"] by simp
qed simp

section \<open>Finishing\<close>

lemma pad_length: "unat ((55 - drop_bit 3 (of_nat (8 * n) :: u32)) AND 63) + 1 = (119 - n mod 64) mod 64 + 1"
proof -
  define w where "w = drop_bit 3 (of_nat (8 * n) :: u32)"
  have "unat w mod 64 = n mod 64"
    using offset_of_count [of n] by (simp only: w_def and_63)
  then have w: "uint w mod 64 = int n mod 64"
    by (metis of_nat_mod of_nat_numeral uint_nat)
  have "int (unat (55 - w) mod 64) = uint (55 - w) mod 64"
    by (simp only: zmod_int uint_nat of_nat_numeral)
  also have "\<dots> = (55 - uint w) mod 2 ^ 32 mod 64"
    by (simp add: uint_word_ariths)
  also have "\<dots> = (55 - uint w) mod 64"
    by (rule mod_mod_cancel) (rule dvdI [of _ _ "2 ^ 26"], simp)
  also have "\<dots> = (55 - int n) mod 64"
    using w by (metis mod_diff_right_eq)
  also have "\<dots> = (119 - int n mod 64) mod 64"
    using mod_diff_right_eq [of 119 "int n" 64] mod_add_self2 [of "55 - int n" 64] by (simp add: algebra_simps)
  also have "\<dots> = int ((119 - n mod 64) mod 64)"
  proof -
    have "int (119 - n mod 64) = 119 - int n mod 64"
      using mod_less_divisor [of 64 n] by (subst of_nat_diff) (linarith, simp add: zmod_int)
    then show ?thesis
      by (simp only: zmod_int) simp
  qed
  finally have "unat (55 - w) mod 64 = (119 - n mod 64) mod 64"
    by (simp only: of_nat_eq_iff)
  then show ?thesis
    by (simp only: and_63 w_def)
qed

lemma md5_finish_ok:
  assumes "md5_after m s"
  shows "md5_finish s = md5_digest m"
proof -
  define z where "z = (119 - length m mod 64) mod 64"
  have z: "z < 64"
    by (simp add: z_def)
  have c: "md_count0 s = of_nat (md5_bits m)" "md_count1 s = of_nat (md5_bits m div 2 ^ 32)"
    using assms by (simp_all add: md5_after_def)
  have "unat ((55 - drop_bit 3 (md_count0 s)) AND 63) + 1 = z + 1"
    using pad_length [of "length m"] by (simp only: c(1) md5_bits_def z_def)
  moreover have "take (z + 1) md5_pad = [0x80] @ replicate z 0"
    using z by (simp add: md5_pad_def take_replicate)
  ultimately have f: "md5_finish s = regs_bytes (md_abcd (md5_append (le32 (of_nat (md5_bits m)) @ le32 (of_nat (md5_bits m div 2 ^ 32)))
      (md5_append ([0x80] @ replicate z 0) s)))"
    unfolding md5_finish_def Let_def c by (simp split: prod.splits)
  have "md5_after ((m @ [0x80] @ replicate z 0) @ le32 (of_nat (md5_bits m)) @ le32 (of_nat (md5_bits m div 2 ^ 32)))
    (md5_append (le32 (of_nat (md5_bits m)) @ le32 (of_nat (md5_bits m div 2 ^ 32))) (md5_append ([0x80] @ replicate z 0) s))"
    by (intro md5_append_ok assms)
  then show ?thesis
    unfolding f md5_digest_def md5_padded_def z_def [symmetric] by (simp add: md5_after_def)
qed

text \<open>C25: However a message is cut into pieces, the digest computed is that of the padded message as
  a whole: from any state, initialising it, appending the pieces and finishing gives the digest of their concatenation.\<close>

theorem md5_of_pieces:
  assumes "length (md_buf s) = 64"
  shows "md5_finish (fold md5_append ds (md5_init s)) = md5_digest (concat ds)"
  using md5_finish_ok [OF md5_pieces [OF md5_after_init [OF assms], of ds]] by simp

theorem md5_of_pieces_witness:
  "md5_finish (fold md5_append [[0x61], [], [0x62, 0x63]]
     (md5_init \<lparr>md_count0 = 7, md_count1 = 0, md_abcd = (0, 0, 0, 0), md_buf = replicate 64 0\<rparr>)) = md5_digest [0x61, 0x62, 0x63]"
  using md5_of_pieces [of "\<lparr>md_count0 = 7, md_count1 = 0, md_abcd = (0, 0, 0, 0), md_buf = replicate 64 0\<rparr>" "[[0x61], [], [0x62, 0x63]]"]
  by simp

end
