(* ===== verification/HpmActions.thy ===== *)
theory HpmActions
  imports HpmTarget Md5Props
begin

text \<open>
  Upgrade images as a header and a list of actions: how they are laid out in a file, which files pass the
  integrity check, and what the check before the upgrade finds in them.
\<close>

section \<open>Checksums\<close>

lemma checksum_sum: "HpmfwupgCalculateChecksum d = sum_list d"
proof -
  have "foldl (+) a d = a + sum_list d" for a
    by (induction d arbitrary: a) (simp_all add: add.assoc)
  then show ?thesis
    by (simp add: HpmfwupgCalculateChecksum_def)
qed

lemma checksum_at_append:
  "length a = p \<Longrightarrow> n \<le> length b \<Longrightarrow> checksum_at (a @ b) p n = Inr (sum_list (take n b))"
  by (simp add: checksum_at_def checksum_sum region_def)

section \<open>Accepted files\<close>

lemma strncmp_eq_all:
  "0 \<notin> set b \<Longrightarrow> length b \<le> length a \<Longrightarrow> strncmp_eq a (b @ c) (length b) = Inr (take (length b) a = b)"
proof (induction b arbitrary: a)
  case (Cons y b)
  then obtain x a' where "a = x # a'"
    by (cases a) auto
  with Cons show ?case
    by auto
qed simp

lemma signature_checked:
  "8 \<le> length d \<Longrightarrow> strncmp_eq d (HPMFWUPG_IMAGE_SIGNATURE @ [0]) 8 = Inr (take 8 d = HPMFWUPG_IMAGE_SIGNATURE)"
proof -
  have "length HPMFWUPG_IMAGE_SIGNATURE = 8" "0 \<notin> set HPMFWUPG_IMAGE_SIGNATURE"
    by (simp_all add: HPMFWUPG_IMAGE_SIGNATURE_def)
  then show "8 \<le> length d \<Longrightarrow> ?thesis"
    using strncmp_eq_all [of HPMFWUPG_IMAGE_SIGNATURE d "[0]"] by simp
qed

definition well_formed_image :: "bytes \<Rightarrow> bool" where
  "well_formed_image d \<longleftrightarrow>
     16 \<le> length d \<and> drop (length d - 16) d = md5_digest (take (length d - 16) d) \<and>
     take 8 d = HPMFWUPG_IMAGE_SIGNATURE \<and> d ! 8 = 0 \<and> first_record d \<le> length d \<and> sum_list (take (first_record d) d) = 0"

lemma md5_once: "md5_finish (md5_append m (md5_init md5_zero)) = md5_digest m"
  using md5_finish_ok [OF md5_pieces [OF md5_after_init, of md5_zero "[m]"]] by (simp add: md5_zero_def)

lemma integrity_iff: "HpmfwupgValidateImageIntegrity d = Inr 0 \<longleftrightarrow> well_formed_image d"
proof (cases "16 \<le> length d")
  case True
  have oem: "of_le16 [d ! 32, d ! 33] = of_le16 (region d 32 2)" if "34 \<le> length d"
    using that by (simp add: of_le16_def region_def)
  show ?thesis
    using True oem
    by (auto simp: HpmfwupgValidateImageIntegrity_def HPMFWUPG_MD5_SIGNATURE_LENGTH_def md5_once Let_def signature_checked
        img_byte_def well_formed_image_def HPMFWUPG_ERROR_def checksum_at_def checksum_sum region_def first_record_def
        sizeof_image_header_def hdr_oem_length_def bind_ok_Inr_iff)
qed (simp add: HpmfwupgValidateImageIntegrity_def HPMFWUPG_MD5_SIGNATURE_LENGTH_def well_formed_image_def)

section \<open>Actions\<close>

text \<open>Backup (0) and prepare (1) on a set of components; firmware for one, with its version and description.\<close>

datatype hpm_action = Other byte byte | Firmware byte bytes bytes bytes

fun encode_action :: "hpm_action \<Rightarrow> bytes" where
  "encode_action (Other k comps) = [k, comps, - (k + comps)]"
| "encode_action (Firmware comps version desc fw) =
     [2, comps, - (2 + comps)] @ version @ desc @ le32 (of_nat (length fw)) @ fw"

fun action_ok :: "byte list \<Rightarrow> hpm_action \<Rightarrow> bool" where
  "action_ok props (Other k comps) =
     (k = 0 \<and> all_support supports_backup comps props \<or> k = 1 \<and> all_support supports_preparation comps props)"
| "action_ok props (Firmware comps version desc fw) = (length version = 6 \<and> length desc = 21 \<and> length fw < 2 ^ 32)"

fun note_actions :: "u32 \<Rightarrow> hpm_opts \<Rightarrow> hpm_action list \<Rightarrow> hpm_ctx \<times> version_info list \<Rightarrow> hpm_ctx \<times> version_info list" where
  "note_actions sel opts [] cv = cv"
| "note_actions sel opts (Other k comps # acts) cv = note_actions sel opts acts cv"
| "note_actions sel opts (Firmware comps version desc fw # acts) (ctx, vs) =
     note_actions sel opts acts (note_firmware comps version sel opts ctx vs)"

lemma length_encode_firmware:
  "action_ok props (Firmware comps version desc fw) \<Longrightarrow> length (encode_action (Firmware comps version desc fw)) = 34 + length fw"
  by simp

text \<open>What the record at \<open>p\<close> is read as.\<close>

lemma read_other:
  assumes "drop p d = encode_action (Other k comps) @ rest"
  shows "d ! p = k" "d ! (p + 1) = comps" "drop (p + 3) d = rest" "length d = p + 3 + length rest"
    "k \<noteq> 2 \<Longrightarrow> HpmfwupgValidateActionRecordChecksum d p = Inr True"
proof -
  have p: "p < length d"
    using assms by (cases "p < length d") simp_all
  have nth: "d ! (p + i) = drop p d ! i" for i
    using p by simp
  show "d ! p = k" "d ! (p + 1) = comps"
    using nth [of 0] nth [of 1] by (simp_all add: assms)
  have "drop (p + 3) d = drop 3 (drop p d)"
    by (simp add: add.commute)
  then show "drop (p + 3) d = rest"
    by (simp add: assms)
  have "length (drop p d) = 3 + length rest"
    by (simp add: assms)
  then show len: "length d = p + 3 + length rest"
    using p by simp
  have "checksum_at d p 3 = Inr 0"
    using len by (simp add: checksum_at_def checksum_sum region_def assms add.assoc)
  then show "HpmfwupgValidateActionRecordChecksum d p = Inr True"
    by (simp add: HpmfwupgValidateActionRecordChecksum_def sizeof_action_record_def)
qed

lemma read_firmware:
  assumes "drop p d = encode_action (Firmware comps version desc fw) @ rest" "action_ok props (Firmware comps version desc fw)"
  shows "d ! p = 2" "d ! (p + 1) = comps" "fw_version d p = version" "firmware_at d p fw"
    "drop (p + 34 + length fw) d = rest" "length d = p + 34 + length fw + length rest"
    "HpmfwupgValidateActionRecordChecksum d p = Inr True"
proof -
  have p: "p < length d"
    using assms(1) by (cases "p < length d") simp_all
  have nth: "d ! (p + i) = drop p d ! i" for i
    using p by simp
  show "d ! p = 2" "d ! (p + 1) = comps"
    using nth [of 0] nth [of 1] by (simp_all add: assms(1))
  have at: "drop (p + i) d = drop i (drop p d)" for i
    by (simp add: add.commute)
  show "fw_version d p = version"
    unfolding fw_version_def region_def at using assms by (simp add: sizeof_action_record_def)
  have "length (drop p d) = 34 + length fw + length rest"
    unfolding assms(1) using assms(2) by simp
  then show len: "length d = p + 34 + length fw + length rest"
    using p by simp
  have l: "fw_length d p = of_nat (length fw)"
    unfolding fw_length_def at using assms by simp
  show "firmware_at d p fw"
    unfolding firmware_at_def l fw_data_def sizeof_action_record_def sizeof_firmware_image_def region_def add.assoc at
    using assms len by (simp add: unat_of_nat)
  show "drop (p + 34 + length fw) d = rest"
    unfolding add.assoc at assms(1) length_encode_firmware [OF assms(2), symmetric]
    by (simp only: drop_append diff_self_eq_0 drop_0 drop_all order_refl append_Nil)
  have "checksum_at d p 3 = Inr 0"
    using len by (simp add: checksum_at_def checksum_sum region_def assms(1) add.assoc)
  then show "HpmfwupgValidateActionRecordChecksum d p = Inr True"
    by (simp add: HpmfwupgValidateActionRecordChecksum_def sizeof_action_record_def)
qed

lemma note_firmware_keeps:
  "hc_cap (fst (note_firmware comps version sel opts ctx vs)) = hc_cap ctx"
  "hc_props (fst (note_firmware comps version sel opts ctx vs)) = hc_props ctx"
  "hc_image (fst (note_firmware comps version sel opts ctx vs)) = hc_image ctx"
  "hc_component (fst (note_firmware comps version sel opts ctx vs)) = hc_component ctx"
  "hc_devid (fst (note_firmware comps version sel opts ctx vs)) = hc_devid ctx"
  by (simp_all add: note_firmware_def Let_def)

lemma note_actions_keeps:
  "hc_cap (fst (note_actions sel opts acts cv)) = hc_cap (fst cv)"
  "hc_props (fst (note_actions sel opts acts cv)) = hc_props (fst cv)"
  "hc_image (fst (note_actions sel opts acts cv)) = hc_image (fst cv)"
  by (induction sel opts acts cv rule: note_actions.induct) (simp_all add: note_firmware_keeps)

text \<open>The check before the upgrade accepts such records and notes what they contain.\<close>

lemma pre_check_actions:
  assumes "drop p d = concat (map encode_action acts) @ sig" "length sig = 16" "p \<le> length d"
    and "tc_components (hc_cap ctx) \<noteq> 0" "list_all (action_ok (hc_props ctx)) acts"
  shows "pre_check d sel opts p ctx vs = Inr (0, note_actions sel opts acts (ctx, vs))"
  using assms
proof (induction acts arbitrary: p ctx vs)
  case Nil
  then have "length (drop p d) = 16"
    by (simp del: length_drop)
  then have "length d - 16 \<le> p"
    by simp
  then show ?case
    by (simp add: pre_check.simps HPMFWUPG_MD5_SIGNATURE_LENGTH_def)
next
  case (Cons a acts)
  have rest: "drop p d = encode_action a @ concat (map encode_action acts) @ sig"
    using Cons.prems(1) by simp
  show ?case
  proof (cases a)
    case (Other k comps)
    note r = read_other [OF rest [unfolded Other]]
    have "pre_check d sel opts (p + 3) ctx vs = Inr (0, note_actions sel opts acts (ctx, vs))"
      using Cons.prems r(3,4) by (intro Cons.IH) simp_all
    then show ?thesis
      using Cons.prems r Other
      by (subst pre_check.simps) (auto simp: HPMFWUPG_MD5_SIGNATURE_LENGTH_def)
  next
    case (Firmware comps version desc fw)
    have ok: "action_ok (hc_props ctx) (Firmware comps version desc fw)"
      using Cons.prems(5) Firmware by simp
    note r = read_firmware [OF rest [unfolded Firmware] ok]
    define cv where "cv = note_firmware comps version sel opts ctx vs"
    have "pre_check d sel opts (p + 34 + length fw) (fst cv) (snd cv) = Inr (0, note_actions sel opts acts (fst cv, snd cv))"
      using Cons.prems r(5,6) by (intro Cons.IH) (simp_all add: cv_def note_firmware_keeps)
    moreover have "unat (fw_length d p) = length fw" "fw_data p \<le> length d"
      using r(4) by (simp_all add: firmware_at_def)
    ultimately show ?thesis
      using Cons.prems(2,4) r(1-3,6,7) Firmware
      by (subst pre_check.simps) (simp add: HPMFWUPG_MD5_SIGNATURE_LENGTH_def flip: cv_def)
  qed
qed

section \<open>Which components are updated\<close>

fun act_component :: "hpm_action \<Rightarrow> nat" where
  "act_component (Other k comps) = component_of comps"
| "act_component (Firmware comps version desc fw) = component_of comps"

text \<open>Firmware is wanted if it is selected and, without force, its version is not one the component has.\<close>

fun wanted :: "u32 \<Rightarrow> hpm_opts \<Rightarrow> version_info list \<Rightarrow> hpm_action \<Rightarrow> bool" where
  "wanted sel opts vs (Other k comps) = False"
| "wanted sel opts vs (Firmware comps version desc fw) =
     ((sel = 0 \<or> sel AND ucast comps \<noteq> 0) \<and>
      (opt_force opts \<or> opt_compare opts \<or> image_version_upgradable ((vs ! component_of comps)\<lparr>vi_image := version\<rparr>)))"

lemma wanted_noted: "wanted sel opts (vs[c := (vs ! c)\<lparr>vi_image := x\<rparr>]) a = wanted sel opts vs a"
  by (cases a; cases "c < length vs") (auto simp: nth_list_update image_version_upgradable_def list_update_beyond not_less)

lemma note_firmware_mask:
  assumes "c < 8"
  shows "bit (hc_update_mask (fst (note_firmware comps version sel opts ctx vs))) c \<longleftrightarrow>
    bit (hc_update_mask ctx) c \<or> wanted sel opts vs (Firmware comps version desc fw) \<and> component_of comps = c"
  using assms by (auto simp: note_firmware_def Let_def bit_simps)

lemma note_actions_mask:
  assumes "c < 8"
  shows "bit (hc_update_mask (fst (note_actions sel opts acts cv))) c \<longleftrightarrow>
    bit (hc_update_mask (fst cv)) c \<or> (\<exists>a\<in>set acts. wanted sel opts (snd cv) a \<and> act_component a = c)"
proof (induction sel opts acts cv rule: note_actions.induct)
  case (3 sel opts comps version desc fw acts ctx vs)
  have "snd (note_firmware comps version sel opts ctx vs) = vs[component_of comps := (vs ! component_of comps)\<lparr>vi_image := version\<rparr>]"
    by (simp add: note_firmware_def Let_def)
  then show ?case
    using 3 by (simp only: note_actions.simps note_firmware_mask [OF assms, where desc = desc and fw = fw] wanted_noted) (auto simp del: wanted.simps)
qed simp_all

lemma note_actions_versions: "length (snd (note_actions sel opts acts cv)) = length (snd cv)"
  by (induction sel opts acts cv rule: note_actions.induct) (simp_all add: note_firmware_def Let_def)

text \<open>What the records put into the components, those in \<open>up\<close> being updated.\<close>

fun install :: "(nat \<Rightarrow> bool) \<Rightarrow> hpm_action \<Rightarrow> (nat \<Rightarrow> bytes) \<Rightarrow> nat \<Rightarrow> bytes" where
  "install up (Other k comps) h = h"
| "install up (Firmware comps version desc fw) h = (if up (component_of comps) then h(component_of comps := fw) else h)"

lemma install_cong: "(\<And>c. c < 8 \<Longrightarrow> up c = up' c) \<Longrightarrow> install up a h = install up' a h"
  by (cases a) (simp_all add: component_of_less)

end
