(* ===== verification/HpmDeliver.thy ===== *)
theory HpmDeliver
  imports HpmActions
begin

text \<open>
  A whole upgrade: \<open>hpm_target\<close> adds to \<open>hpm_receiver\<close> what the target says about itself. Inside it the
  stages of an upgrade succeed for an image made for the target, and the firmware arrives.
\<close>

section \<open>The upgrade stage\<close>

context hpm_receiver
begin

lemma action_ok_stage:
  assumes "k0 = 0 \<or> k0 = 1" "0 < k" "\<not> opt_compare opts"
  obtains w' where "act_on_components k ops opts comps k0 ctx w = Inr (0, w')" "same_side w w'" "held (hp_dev w') = held (hp_dev w)"
proof (cases "hc_update_mask ctx AND comps = 0")
  case True
  then show thesis
    by (intro that [of w]) (simp_all add: act_on_components_def)
next
  case False
  have "answers ops (hp_intf w) (picmg_rq HPMFWUPG_INITIATE_UPGRADE_ACTION [hc_update_mask ctx AND comps, k0]) (hp_dev w)
      (\<lambda>rsp s'. prompt rsp \<and> held s' = held (hp_dev w))"
    using initiate [of "hp_intf w" "hc_update_mask ctx AND comps" k0 "hp_dev w"] by (auto simp: answers_def)
  from finish_command [OF this assms(2), of "\<lambda>cc. cc = 0" ctx] show thesis
    using False assms(3) that by (auto simp: act_on_components_def HpmfwupgInitiateUpgradeAction_def)
qed

lemma stage_ok:
  assumes "drop p d = concat (map encode_action acts) @ sig" "length sig = 16" "p \<le> length d" "list_all (action_ok props) acts"
    and "hc_image ctx = Some d" "\<not> opt_compare opts" "2 < ipmi_intf_get_max_request_data_size (hp_intf w)" "0 < limit"
    and "length d + 65536 \<le> k"
  shows "\<exists>ctx' w'. upgrade_records k ops opts d p ctx w = Inr (0, ctx', w') \<and> hc_update_mask ctx' = hc_update_mask ctx \<and>
    same_side w w' \<and> held (hp_dev w') = fold (install (bit (hc_update_mask ctx))) acts (held (hp_dev w))"
  using assms
proof (induction acts arbitrary: p ctx w)
  case Nil
  then have "length (drop p d) = 16"
    by (simp del: length_drop)
  then have "length d - 16 \<le> p"
    by simp
  then show ?case
    by (simp add: upgrade_records.simps HPMFWUPG_MD5_SIGNATURE_LENGTH_def)
next
  case (Cons a acts)
  have k: "0 < k" using Cons.prems(9) by simp
  have rest: "drop p d = encode_action a @ concat (map encode_action acts) @ sig"
    using Cons.prems(1) by simp
  show ?case
  proof (cases a)
    case (Other k0 comps)
    note r = read_other [OF rest [unfolded Other]]
    have k0: "k0 = 0 \<or> k0 = 1"
      using Cons.prems(4) Other by auto
    obtain w1 where w1: "act_on_components k ops opts comps k0 ctx w = Inr (0, w1)" "same_side w w1" "held (hp_dev w1) = held (hp_dev w)"
      using action_ok_stage [OF k0 k Cons.prems(6)] by metis
    have "\<exists>ctx' w'. upgrade_records k ops opts d (p + 3) ctx w1 = Inr (0, ctx', w') \<and> hc_update_mask ctx' = hc_update_mask ctx \<and>
        same_side w1 w' \<and> held (hp_dev w') = fold (install (bit (hc_update_mask ctx))) acts (held (hp_dev w1))"
      using Cons.prems r(3,4) same_sideD [OF w1(2)] by (intro Cons.IH) simp_all
    moreover have "upgrade_records k ops opts d p ctx w = upgrade_records k ops opts d (p + 3) ctx w1"
      using Cons.prems(2,5) r k0 w1(1)
      by (subst upgrade_records.simps) (auto simp: HPMFWUPG_MD5_SIGNATURE_LENGTH_def upgrade_record_def record_size_def)
    ultimately show ?thesis
      using w1 same_side_trans [OF w1(2)] Other by auto
  next
    case (Firmware comps version desc fw)
    have ok: "action_ok props (Firmware comps version desc fw)"
      using Cons.prems(4) Firmware by simp
    note r = read_firmware [OF rest [unfolded Firmware] ok]
    have size: "fw_data p \<le> length d" "record_size d p = 34 + length fw"
      using r(1,4) by (simp_all add: firmware_at_def record_size_def)
    have "\<exists>w1. HpmFwupgActionUploadFirmware k ops opts p ctx w = Inr (0, ctx\<lparr>hc_component := component_of comps\<rparr>, w1) \<and> same_side w w1 \<and>
        held (hp_dev w1) = install (bit (hc_update_mask ctx)) a (held (hp_dev w))"
    proof (cases "bit (hc_update_mask ctx) (component_of comps)")
      case True
      have "length fw + 65536 \<le> k"
        using r(6) Cons.prems(9) by simp
      with action_upload_ok [OF r(4) Cons.prems(5) _ Cons.prems(6-8) this] True show ?thesis
        using r(2) Firmware by auto
    next
      case False
      then show ?thesis
        using Cons.prems(5,7) r(2) size(1) Firmware
        by (auto simp: HpmFwupgActionUploadFirmware_def Let_def word_less_nat_alt)
    qed
    then obtain w1 where w1: "HpmFwupgActionUploadFirmware k ops opts p ctx w = Inr (0, ctx\<lparr>hc_component := component_of comps\<rparr>, w1)"
      "same_side w w1" "held (hp_dev w1) = install (bit (hc_update_mask ctx)) a (held (hp_dev w))"
      by blast
    let ?ctx = "ctx\<lparr>hc_component := component_of comps\<rparr>"
    have "\<exists>ctx' w'. upgrade_records k ops opts d (p + 34 + length fw) ?ctx w1 = Inr (0, ctx', w') \<and> hc_update_mask ctx' = hc_update_mask ?ctx \<and>
        same_side w1 w' \<and> held (hp_dev w') = fold (install (bit (hc_update_mask ?ctx))) acts (held (hp_dev w1))"
      using Cons.prems r(5,6) same_sideD [OF w1(2)] by (intro Cons.IH) simp_all
    moreover have "upgrade_records k ops opts d p ctx w = upgrade_records k ops opts d (p + 34 + length fw) ?ctx w1"
      using Cons.prems(2,5) r(1,6,7) w1(1) size(2)
      by (subst upgrade_records.simps) (simp add: HPMFWUPG_MD5_SIGNATURE_LENGTH_def upgrade_record_def add.assoc)
    ultimately show ?thesis
      using w1 same_side_trans [OF w1(2)] by auto
  qed
qed

end

section \<open>What the target says about itself\<close>

text \<open>Firmware that is due: selected, and not a version the component has in one of its copies, or forced.\<close>

fun due :: "(nat \<Rightarrow> bytes) \<Rightarrow> (nat \<Rightarrow> bytes) \<Rightarrow> (nat \<Rightarrow> byte) \<Rightarrow> u32 \<Rightarrow> hpm_opts \<Rightarrow> hpm_action \<Rightarrow> bool" where
  "due current backup general sel opts (Other k comps) = False"
| "due current backup general sel opts (Firmware comps version desc fw) =
     ((sel = 0 \<or> sel AND ucast comps \<noteq> 0) \<and>
      (opt_force opts \<or> version \<noteq> current (component_of comps) \<or>
       general (component_of comps) AND 3 \<noteq> 0 \<and> version \<noteq> backup (component_of comps)))"

definition image_props :: "(nat \<Rightarrow> byte) \<Rightarrow> byte \<Rightarrow> byte list" where
  "image_props general comps = map (\<lambda>c. if bit comps c then general c else 0) [0..<8]"

text \<open>An image for a target: its identifiers and its components, and a target that has no objections.\<close>

definition suits :: "bytes \<Rightarrow> target_cap \<Rightarrow> bytes \<Rightarrow> bool" where
  "suits devid cap d \<longleftrightarrow> ids_match d devid \<and> revision_fits d devid \<and> hdr_components d AND tc_components cap = hdr_components d \<and>
     tc_components cap \<noteq> 0 \<and> \<not> bit (tc_global cap) 7 \<and> \<not> bit (tc_global cap) 3 \<and> \<not> bit (hdr_capabilities d) 4"

definition made_for :: "bytes \<Rightarrow> target_cap \<Rightarrow> (nat \<Rightarrow> byte) \<Rightarrow> bytes \<Rightarrow> hpm_action list \<Rightarrow> bool" where
  "made_for devid cap general d acts \<longleftrightarrow> well_formed_image d \<and> suits devid cap d \<and>
     list_all (action_ok (image_props general (hdr_components d))) acts \<and>
     (\<exists>sig. length sig = 16 \<and> drop (first_record d) d = concat (map encode_action acts) @ sig) \<and>
     (\<forall>a\<in>set acts. bit (tc_components cap) (act_component a))"

text \<open>
  \<open>general\<close> is the byte of general properties of a component, \<open>current\<close> and \<open>backup\<close> are the versions of its two copies.
\<close>

locale hpm_target = hpm_receiver ops incoming held limit
  for ops :: "'s hpm_ops" and incoming :: "'s \<Rightarrow> bytes option" and held :: "'s \<Rightarrow> nat \<Rightarrow> bytes" and limit :: nat +
  fixes devid :: bytes and cap :: target_cap and general :: "nat \<Rightarrow> byte" and current :: "nat \<Rightarrow> bytes" and backup :: "nat \<Rightarrow> bytes"
  assumes get_devid: "answers ops i (mk_rq IPMI_NETFN_APP BMC_GET_DEVICE_ID []) s
        (\<lambda>rsp s'. rs_ccode rsp = 0 \<and> take 15 (rs_data rsp) = devid \<and> keeps s s')"
    and get_cap: "answers ops i (picmg_rq HPMFWUPG_GET_TARGET_UPG_CAPABILITIES []) s
        (\<lambda>rsp s'. rs_ccode rsp = 0 \<and> read_target_cap (rs_data rsp) = cap \<and> keeps s s')"
    and get_prop: "bit (tc_components cap) cid \<Longrightarrow>
      answers ops i (picmg_rq HPMFWUPG_GET_COMPONENT_PROPERTIES [of_nat cid, selector]) s
        (\<lambda>rsp s'. rs_ccode rsp = 0 \<and> 1 < length (rs_data rsp) \<and> (selector = 0 \<longrightarrow> rs_data rsp ! 1 = general cid) \<and>
           (selector = 1 \<longrightarrow> region (rs_data rsp) 1 6 = current cid) \<and>
           (selector = 3 \<longrightarrow> region (rs_data rsp) 1 6 = backup cid) \<and> keeps s s')"
begin

lemma ask_ok:
  assumes "answers ops (hp_intf w) rq (hp_dev w) (\<lambda>rsp s'. rs_ccode rsp = 0 \<and> P (rs_data rsp) \<and> keeps (hp_dev w) s')" "0 < k"
  shows "\<exists>dat w'. hpm_ask k ops rq w = Inr (Some dat, w') \<and> P dat \<and> same_side w w' \<and> keeps (hp_dev w) (hp_dev w')"
proof -
  have "answers ops (hp_intf w) rq (hp_dev w)
      (\<lambda>rsp s'. final_code (rs_ccode rsp) \<and> (rs_ccode rsp = 0 \<and> P (rs_data rsp) \<and> keeps (hp_dev w) s'))"
    using assms(1) by (auto simp: answers_def final_code_def)
  from send_answered [OF this assms(2)] obtain rsp w' where "HpmfwupgSendCmd k ops rq None w = Inr (Some rsp, w')"
    "same_side w w'" "rs_ccode rsp = 0 \<and> P (rs_data rsp) \<and> keeps (hp_dev w) (hp_dev w')"
    by metis
  then show ?thesis
    by (auto simp: hpm_ask_def)
qed

lemma devid_ok:
  assumes "0 < k"
  shows "\<exists>w'. HpmfwupgGetDeviceId k ops w = Inr (Some devid, w') \<and> same_side w w' \<and> keeps (hp_dev w) (hp_dev w')"
  using ask_ok [OF _ assms, where P = "\<lambda>d. take 15 d = devid" and w = w, OF get_devid] by (auto simp: HpmfwupgGetDeviceId_def)

lemma cap_ok:
  assumes "0 < k"
  shows "\<exists>w'. HpmfwupgGetTargetUpgCapabilities k ops w = Inr (Some cap, w') \<and> same_side w w' \<and> keeps (hp_dev w) (hp_dev w')"
  using ask_ok [OF _ assms, where P = "\<lambda>d. read_target_cap d = cap" and w = w, OF get_cap] by (auto simp: HpmfwupgGetTargetUpgCapabilities_def)

definition told :: "nat \<Rightarrow> byte \<Rightarrow> bytes \<Rightarrow> bool" where
  "told cid selector x \<longleftrightarrow> (selector = 0 \<longrightarrow> hd x = general cid) \<and> (selector = 1 \<longrightarrow> x = current cid) \<and> (selector = 3 \<longrightarrow> x = backup cid)"

lemma prop_ok:
  assumes "bit (tc_components cap) cid" "selector \<in> {0, 1, 2, 3, 4}" "0 < k"
  shows "\<exists>x w'. HpmfwupgGetComponentProperties k ops (of_nat cid) selector w = Inr (Some x, w') \<and> told cid selector x \<and>
    same_side w w' \<and> keeps (hp_dev w) (hp_dev w')"
proof -
  obtain n where n: "prop_size selector = Some n" "selector = 0 \<longrightarrow> n = 1" "selector = 1 \<or> selector = 3 \<longrightarrow> n = 6"
    using assms(2) that by (auto simp: prop_size_def)
  have "answers ops (hp_intf w) (picmg_rq HPMFWUPG_GET_COMPONENT_PROPERTIES [of_nat cid, selector]) (hp_dev w)
      (\<lambda>rsp s'. rs_ccode rsp = 0 \<and> told cid selector (take n (drop 1 (rs_data rsp))) \<and> keeps (hp_dev w) s')"
    using get_prop [OF assms(1), of "hp_intf w" selector "hp_dev w"] n(2,3)
    by (fastforce simp: answers_def told_def region_def hd_take hd_drop_conv_nth)
  from ask_ok [OF this assms(3)] show ?thesis
    using n(1) by (auto simp: HpmfwupgGetComponentProperties_def)
qed

text \<open>Checking the target: what is then known about the components.\<close>

definition knows :: "nat \<Rightarrow> version_info \<Rightarrow> bool" where
  "knows cid v \<longleftrightarrow> vi_target v = current cid \<and> vi_rollback_supported v = (general cid AND 3 \<noteq> 0) \<and>
     (general cid AND 3 \<noteq> 0 \<longrightarrow> vi_rollback v = backup cid)"

definition near :: "'s hpm_env \<Rightarrow> 's hpm_env \<Rightarrow> bool" where
  "near w w' \<longleftrightarrow> hp_intf w' = hp_intf w \<and> hp_answers w' = hp_answers w \<and> keeps (hp_dev w) (hp_dev w')"

lemma near_set_version [simp]: "near (set_version cid f w) w' = near w w'" "near w (set_version cid f w') = near w w'"
  by (simp_all add: near_def set_version_def)

lemma near_trans: "near a b \<Longrightarrow> near b c \<Longrightarrow> near a c"
  by (simp add: near_def)

lemma near_side: "same_side w w' \<Longrightarrow> keeps (hp_dev w) (hp_dev w') \<Longrightarrow> near w w'"
  by (simp add: near_def same_side_def)

lemma ask_version_ok:
  assumes "bit (tc_components cap) cid" "selector = 3 \<or> selector = 4" "0 < k" "cid < length (version_infos w)"
  shows "\<exists>x w'. ask_version k ops has cid selector f w = Inr w' \<and> near w w' \<and>
    version_infos w' = (version_infos w)[cid := f x (version_infos w ! cid)] \<and> (has \<and> selector = 3 \<longrightarrow> x = backup cid)"
proof (cases has)
  case True
  obtain x w1 where w1: "HpmfwupgGetComponentProperties k ops (of_nat cid) selector w = Inr (Some x, w1)" "told cid selector x"
    "same_side w w1" "keeps (hp_dev w) (hp_dev w1)"
    using prop_ok [OF assms(1) _ assms(3), of selector w] assms(2) by auto
  then have "ask_version k ops has cid selector f w = Inr (set_version cid (f x) w1)"
    using True by (simp add: ask_version_def)
  moreover have "version_infos (set_version cid (f x) w1) = (version_infos w)[cid := f x (version_infos w ! cid)]"
    using w1(3) by (simp add: set_version_def same_side_def)
  ultimately show ?thesis
    using w1 near_side [OF w1(3,4)] True by (auto simp: told_def)
next
  case False
  then show ?thesis
    by (auto simp: ask_version_def set_version_def near_def)
qed

lemma check_component_ok:
  assumes "bit (tc_components cap) cid" "0 < k" "cid < length (version_infos w)"
  shows "\<exists>v w'. check_component k ops cid w = Inr (0, w') \<and> near w w' \<and> version_infos w' = (version_infos w)[cid := v] \<and> knows cid v"
proof -
  have ask: "\<exists>x w'. HpmfwupgGetComponentProperties k ops (of_nat cid) sel w = Inr (Some x, w') \<and> told cid sel x \<and>
      near w w' \<and> version_infos w' = version_infos w" if "sel \<in> {0, 1, 2}" for sel w
    using prop_ok [OF assms(1) _ assms(2), of sel w] that near_side by (fastforce simp: same_side_def)
  define w0 where "w0 = set_version cid (\<lambda>v. no_version) w"
  obtain g w1 where g: "HpmfwupgGetComponentProperties k ops (of_nat cid) 0 w0 = Inr (Some g, w1)" "told cid 0 g"
    "near w0 w1" "version_infos w1 = version_infos w0"
    using ask [of 0 w0] by auto
  have hd: "hd g = general cid"
    using g(2) by (simp add: told_def)
  define w2 where "w2 = set_version cid (\<lambda>v. v\<lparr>vi_rollback_supported := (general cid AND 3 \<noteq> 0), vi_cold_reset := bit (general cid) 5,
                    vi_deferred_supported := bit (general cid) 4\<rparr>) w1"
  obtain x w3 where x: "HpmfwupgGetComponentProperties k ops (of_nat cid) 2 w2 = Inr (Some x, w3)"
    "near w2 w3" "version_infos w3 = version_infos w2"
    using ask [of 2 w2] by auto
  define w4 where "w4 = set_version cid (\<lambda>v. v\<lparr>vi_desc := x @ [0]\<rparr>) w3"
  obtain c w5 where c: "HpmfwupgGetComponentProperties k ops (of_nat cid) 1 w4 = Inr (Some c, w5)" "told cid 1 c"
    "near w4 w5" "version_infos w5 = version_infos w4"
    using ask [of 1 w4] by auto
  define w6 where "w6 = set_version cid (\<lambda>v. v\<lparr>vi_component := cid, vi_target := c\<rparr>) w5"
  define v6 where "v6 = no_version\<lparr>vi_rollback_supported := (general cid AND 3 \<noteq> 0), vi_cold_reset := bit (general cid) 5,
      vi_deferred_supported := bit (general cid) 4, vi_desc := x @ [0], vi_component := cid, vi_target := current cid\<rparr>"
  have v6: "version_infos w6 = (version_infos w)[cid := v6]"
    using assms(3) g(4) x(3) c(4) c(2)
    by (simp add: w6_def w4_def w2_def w0_def set_version_def v6_def told_def no_version_def)
  have near6: "near w w6"
    using near_trans [OF near_trans [OF g(3) x(2) [unfolded w2_def near_set_version]] c(3) [unfolded w4_def near_set_version]]
    by (simp add: w0_def w6_def)
  obtain b w7 where b: "ask_version k ops (general cid AND 3 \<noteq> 0) cid 3 (\<lambda>x v. v\<lparr>vi_rollback := x\<rparr>) w6 = Inr w7" "near w6 w7"
    "version_infos w7 = (version_infos w)[cid := v6\<lparr>vi_rollback := b\<rparr>]" "general cid AND 3 \<noteq> 0 \<longrightarrow> b = backup cid"
    using ask_version_ok [OF assms(1) _ assms(2), of 3 w6 "general cid AND 3 \<noteq> 0" "\<lambda>x v. v\<lparr>vi_rollback := x\<rparr>"] assms(3)
    by (auto simp: v6)
  obtain e w8 where e: "ask_version k ops (bit (general cid) 4) cid 4 (\<lambda>x v. v\<lparr>vi_deferred := x\<rparr>) w7 = Inr w8" "near w7 w8"
    "version_infos w8 = (version_infos w)[cid := v6\<lparr>vi_rollback := b, vi_deferred := e\<rparr>]"
    using ask_version_ok [OF assms(1) _ assms(2), of 4 w7 "bit (general cid) 4" "\<lambda>x v. v\<lparr>vi_deferred := x\<rparr>"] assms(3)
    by (auto simp: b(3))
  have "check_component k ops cid w = Inr (0, w8)"
    using g(1) x(1) c(1) b(1) e(1)
    by (simp add: check_component_def hd Let_def flip: w0_def w2_def w4_def w6_def)
  moreover have "knows cid (v6\<lparr>vi_rollback := b, vi_deferred := e\<rparr>)"
    using b(4) by (simp add: knows_def v6_def)
  ultimately show ?thesis
    using e(3) near_trans [OF near_trans [OF near6 b(2)] e(2)] by blast
qed

lemma check_components_ok:
  assumes "0 < k" "length (version_infos w) = 8" "set cids \<subseteq> {..<8}" "distinct cids"
  shows "\<exists>w'. check_components k ops (tc_components cap) cids w = Inr (0, w') \<and> near w w' \<and> length (version_infos w') = 8 \<and>
    (\<forall>c. c \<notin> set cids \<longrightarrow> version_infos w' ! c = version_infos w ! c) \<and>
    (\<forall>c\<in>set cids. bit (tc_components cap) c \<longrightarrow> knows c (version_infos w' ! c))"
  using assms
proof (induction cids arbitrary: w)
  case Nil
  then show ?case
    by (simp add: near_def)
next
  case (Cons c cids)
  show ?case
  proof (cases "bit (tc_components cap) c")
    case True
    obtain v w1 where w1: "check_component k ops c w = Inr (0, w1)" "near w w1" "version_infos w1 = (version_infos w)[c := v]" "knows c v"
      using check_component_ok [OF True Cons.prems(1), of w] Cons.prems by auto
    obtain w2 where w2: "check_components k ops (tc_components cap) cids w1 = Inr (0, w2)" "near w1 w2" "length (version_infos w2) = 8"
      "\<forall>c. c \<notin> set cids \<longrightarrow> version_infos w2 ! c = version_infos w1 ! c"
      "\<forall>c\<in>set cids. bit (tc_components cap) c \<longrightarrow> knows c (version_infos w2 ! c)"
      using Cons.IH [of w1] Cons.prems w1(3) by auto
    have "knows c (version_infos w2 ! c)"
      using w2(4) w1(3,4) Cons.prems by simp
    moreover have "check_components k ops (tc_components cap) (c # cids) w = Inr (0, w2)"
      using w1(1) w2(1) True by simp
    ultimately show ?thesis
      using w2(3-5) w1(3) near_trans [OF w1(2) w2(2)] by auto
  next
    case False
    then show ?thesis
      using Cons.IH [of w] Cons.prems by auto
  qed
qed

lemma target_check_ok:
  assumes "0 < k" "length (version_infos w) = 8"
  shows "\<exists>w'. HpmfwupgTargetCheck k ops w = Inr (0, w') \<and> near w w' \<and> length (version_infos w') = 8 \<and>
    (\<forall>c<8. bit (tc_components cap) c \<longrightarrow> knows c (version_infos w' ! c))"
proof -
  obtain w1 where w1: "HpmfwupgGetDeviceId k ops w = Inr (Some devid, w1)" "same_side w w1" "keeps (hp_dev w) (hp_dev w1)"
    using devid_ok [OF assms(1)] by blast
  obtain w2 where w2: "HpmfwupgGetTargetUpgCapabilities k ops w1 = Inr (Some cap, w2)" "same_side w1 w2" "keeps (hp_dev w1) (hp_dev w2)"
    using cap_ok [OF assms(1)] by blast
  have "length (version_infos w2) = 8"
    using w1(2) w2(2) assms(2) by (simp add: same_side_def)
  then obtain w3 where w3: "check_components k ops (tc_components cap) [0..<8] w2 = Inr (0, w3)" "near w2 w3" "length (version_infos w3) = 8"
    "\<forall>c\<in>set [0..<8]. bit (tc_components cap) c \<longrightarrow> knows c (version_infos w3 ! c)"
    using check_components_ok [OF assms(1), of w2 "[0..<8]"] by (auto simp: lessThan_atLeast0 simp del: upt_Suc)
  have "HpmfwupgTargetCheck k ops w = Inr (0, w3)"
    using w1(1) w2(1) w3(1) by (simp add: HpmfwupgTargetCheck_def del: upt_Suc)
  then show ?thesis
    using w3(3,4) near_trans [OF near_trans [OF near_side [OF w1(2,3)] near_side [OF w2(2,3)]] w3(2)]
    by (auto simp del: upt_Suc)
qed

text \<open>The preparation stage.\<close>

lemma fill_nth:
  "i < length ps \<Longrightarrow> fold (\<lambda>c ps. ps[c := f c]) cids ps ! i = (if i \<in> set cids then f i else ps ! i)"
  by (induction cids arbitrary: ps) (auto simp: nth_list_update)

lemma length_fill: "length (fold (\<lambda>c ps. ps[c := f c]) cids ps) = length ps"
  by (induction cids arbitrary: ps) simp_all

lemma prep_props_ok:
  assumes "0 < k" "\<forall>c\<in>set cids. bit comps c \<longrightarrow> bit (tc_components cap) c"
  shows "\<exists>w'. prep_props k ops comps cids 0 ctx w =
      Inr (0, ctx\<lparr>hc_props := fold (\<lambda>c ps. ps[c := if bit comps c then general c else 0]) cids (hc_props ctx)\<rparr>, w') \<and>
    same_side w w' \<and> keeps (hp_dev w) (hp_dev w')"
  using assms(2)
proof (induction cids arbitrary: ctx w)
  case (Cons c cids)
  show ?case
  proof (cases "bit comps c")
    case True
    obtain x w1 where w1: "HpmfwupgGetComponentProperties k ops (of_nat c) 0 w = Inr (Some x, w1)" "told c 0 x"
      "same_side w w1" "keeps (hp_dev w) (hp_dev w1)"
      using prop_ok [OF _ _ assms(1), of c 0 w] Cons.prems True by auto
    then have x: "hd x = general c" by (simp add: told_def)
    obtain w2 where "prep_props k ops comps cids 0 (ctx\<lparr>hc_props := (hc_props ctx)[c := general c]\<rparr>) w1 =
        Inr (0, ctx\<lparr>hc_props := fold (\<lambda>c ps. ps[c := if bit comps c then general c else 0]) cids ((hc_props ctx)[c := general c])\<rparr>, w2)"
      "same_side w1 w2" "keeps (hp_dev w1) (hp_dev w2)"
      using Cons.IH [of "ctx\<lparr>hc_props := (hc_props ctx)[c := general c]\<rparr>" w1] Cons.prems by auto
    then show ?thesis
      using w1(1,4) x True same_side_trans [OF w1(3)] by (auto simp: Let_def)
  next
    case False
    then show ?thesis
      using Cons.IH [of "ctx\<lparr>hc_props := (hc_props ctx)[c := 0]\<rparr>" w] Cons.prems by (auto simp: Let_def)
  qed
qed simp

lemma preparation_ok:
  assumes "0 < k" "hc_image ctx = Some d" "suits devid cap d" "length (hc_props ctx) = 8" "\<not> opt_view opts"
  shows "\<exists>w'. HpmfwupgPreparationStage k ops opts ctx w =
      Inr (0, ctx\<lparr>hc_devid := devid, hc_cap := cap, hc_props := image_props general (hdr_components d)\<rparr>, w') \<and>
    same_side w w' \<and> keeps (hp_dev w) (hp_dev w')"
proof -
  obtain w1 where w1: "HpmfwupgGetDeviceId k ops w = Inr (Some devid, w1)" "same_side w w1" "keeps (hp_dev w) (hp_dev w1)"
    using devid_ok [OF assms(1)] by blast
  obtain w2 where w2: "HpmfwupgGetTargetUpgCapabilities k ops w1 = Inr (Some cap, w2)" "same_side w1 w2" "keeps (hp_dev w1) (hp_dev w2)"
    using cap_ok [OF assms(1)] by blast
  define ctx2 where "ctx2 = ctx\<lparr>hc_devid := devid, hc_cap := cap\<rparr>"
  have "\<forall>c\<in>set [0..<8]. bit (hdr_components d) c \<longrightarrow> bit (tc_components cap) c"
    using assms(3) unfolding suits_def by (metis bit_and_iff)
  then obtain w3 where w3: "prep_props k ops (hdr_components d) [0..<8] 0 ctx2 w2 =
      Inr (0, ctx2\<lparr>hc_props := fold (\<lambda>c ps. ps[c := if bit (hdr_components d) c then general c else 0]) [0..<8] (hc_props ctx2)\<rparr>, w3)"
    "same_side w2 w3" "keeps (hp_dev w2) (hp_dev w3)"
    using prep_props_ok [OF assms(1), of "[0..<8]" "hdr_components d" ctx2 w2] by auto
  have "fold (\<lambda>c ps. ps[c := if bit (hdr_components d) c then general c else 0]) [0..<8] (hc_props ctx2) = image_props general (hdr_components d)"
    using assms(4) by (intro nth_equalityI) (simp_all add: image_props_def length_fill fill_nth ctx2_def del: upt_Suc)
  then have "HpmfwupgPreparationStage k ops opts ctx w =
      Inr (0, ctx\<lparr>hc_devid := devid, hc_cap := cap, hc_props := image_props general (hdr_components d)\<rparr>, w3)"
    using assms(2,3,5) w1(1) w2(1) w3(1)
    by (simp add: HpmfwupgPreparationStage_def suits_def go_on_def target_allows_def ctx2_def Let_def del: upt_Suc)
  then show ?thesis
    using w1(3) w2(3) w3(3) same_side_trans [OF same_side_trans [OF w1(2) w2(2)] w3(2)] by auto
qed

text \<open>The whole command: the components whose firmware is due hold it afterwards, the others are as before.\<close>

lemma wanted_due:
  assumes "\<forall>c<8. bit (tc_components cap) c \<longrightarrow> knows c (vs ! c)" "\<not> opt_compare opts" "bit (tc_components cap) (act_component a)"
  shows "wanted sel opts vs a = due current backup general sel opts a"
proof (cases a)
  case (Firmware comps version desc fw)
  then have "knows (component_of comps) (vs ! component_of comps)"
    using assms(1,3) component_of_less [of comps] by simp
  then show ?thesis
    using assms(2) Firmware by (auto simp: knows_def image_version_upgradable_def)
qed simp

lemma deliver:
  assumes "made_for devid cap general d acts" "files f = Some d" "\<not> opt_view opts" "\<not> opt_compare opts"
    and "2 < ipmi_intf_get_max_request_data_size (hp_intf w)" "0 < limit" "length d + 65536 \<le> k" "length (version_infos w) = 8"
  shows "\<exists>w'. check_and_upgrade k ops files (f # args) False sel opts w = Inr (0, w') \<and>
    held (hp_dev w') = fold (install (\<lambda>c. \<exists>a\<in>set acts. due current backup general sel opts a \<and> act_component a = c)) acts (held (hp_dev w))"
proof -
  have k: "0 < k" using assms(7) by simp
  obtain w1 where w1: "HpmfwupgTargetCheck k ops w = Inr (0, w1)" "near w w1" "length (version_infos w1) = 8"
    "\<forall>c<8. bit (tc_components cap) c \<longrightarrow> knows c (version_infos w1 ! c)"
    using target_check_ok [OF k assms(8)] by blast
  define ctx0 where "ctx0 = empty_ctx\<lparr>hc_image := Some d\<rparr>"
  have image: "well_formed_image d" "suits devid cap d" "list_all (action_ok (image_props general (hdr_components d))) acts"
    "\<forall>a\<in>set acts. bit (tc_components cap) (act_component a)"
    using assms(1) by (simp_all add: made_for_def)
  obtain sig where sig: "length sig = 16" "drop (first_record d) d = concat (map encode_action acts) @ sig"
    using assms(1) by (auto simp: made_for_def)
  define ctx1 where "ctx1 = ctx0\<lparr>hc_devid := devid, hc_cap := cap, hc_props := image_props general (hdr_components d)\<rparr>"
  obtain w2 where w2: "HpmfwupgPreparationStage k ops opts ctx0 w1 = Inr (0, ctx1, w2)" "same_side w1 w2" "keeps (hp_dev w1) (hp_dev w2)"
    using preparation_ok [OF k _ image(2), of ctx0 opts w1] assms(3) by (auto simp: ctx0_def ctx1_def empty_ctx_def)
  define cv where "cv = note_actions sel opts acts (ctx1, version_infos w2)"
  have first: "first_record d \<le> length d"
    using image(1) by (simp add: well_formed_image_def)
  have "pre_check d sel opts (first_record d) ctx1 (version_infos w2) = Inr (0, cv)"
    unfolding cv_def using image(2,3) sig first
    by (intro pre_check_actions [where sig = sig]) (simp_all add: ctx1_def suits_def)
  then have pre: "HpmfwupgPreUpgradeCheck sel opts ctx1 w2 = Inr (0, fst cv, w2\<lparr>version_infos := snd cv\<rparr>)"
    by (simp add: HpmfwupgPreUpgradeCheck_def ctx1_def ctx0_def split_beta)
  have ctx: "hc_image (fst cv) = Some d" "hc_props (fst cv) = image_props general (hdr_components d)"
    by (simp_all add: cv_def note_actions_keeps ctx1_def ctx0_def)
  have rq: "2 < ipmi_intf_get_max_request_data_size (hp_intf (w2\<lparr>version_infos := snd cv\<rparr>))"
    using assms(5) w1(2) w2(2) by (simp add: near_def same_side_def)
  obtain ctx' w3 where w3: "upgrade_records k ops opts d (first_record d) (fst cv) (w2\<lparr>version_infos := snd cv\<rparr>) = Inr (0, ctx', w3)"
    "held (hp_dev w3) = fold (install (bit (hc_update_mask (fst cv)))) acts (held (hp_dev w2))"
    using stage_ok [OF sig(2,1) first image(3) ctx(1) assms(4) rq assms(6,7)] by auto
  have mask: "bit (hc_update_mask (fst cv)) c = (\<exists>a\<in>set acts. due current backup general sel opts a \<and> act_component a = c)" if "c < 8" for c
    using note_actions_mask [OF that, of sel opts acts "(ctx1, version_infos w2)"] w1(4) w2(2) image(4)
      wanted_due [of "version_infos w2" opts _ sel] assms(4)
    by (auto simp: cv_def ctx1_def ctx0_def empty_ctx_def same_side_def)
  have "held (hp_dev w3) = fold (install (\<lambda>c. \<exists>a\<in>set acts. due current backup general sel opts a \<and> act_component a = c)) acts (held (hp_dev w2))"
    unfolding w3(2) by (intro fold_cong refl ext install_cong mask)
  moreover have "check_and_upgrade k ops files (f # args) False sel opts w = Inr (0, w3)"
    using w1(1) integrity_iff [of d] image(1) w2(1) pre w3(1) ctx(1) assms(2,3)
    by (simp add: check_and_upgrade_def HpmfwupgUpgrade_def HpmfwupgGetBufferFromFile_def upgrade_or_view_def
        HpmfwupgUpgradeStage_def Let_def ctx0_def)
  ultimately show ?thesis
    using w1(2) w2(3) by (auto simp: near_def)
qed

end

end
