(* ===== verification/HpmProps.thy ===== *)
theory HpmProps
  imports HpmDeliver
begin

text \<open>
  The properties of firmware upgrades: a device for which \<open>hpm_target\<close> is interpreted, images made for a
  target, delivery, and targets with which the program does not come to an end.
\<close>

section \<open>A device\<close>

text \<open>A device that takes blocks up to a size and reports each action as in progress; its state as in the locale.\<close>

record fw_box =
  box_lan :: bool
  box_limit :: nat
  box_devid :: bytes
  box_caps :: bytes
  box_general :: "nat \<Rightarrow> byte"
  box_current :: "nat \<Rightarrow> bytes"
  box_backup :: "nat \<Rightarrow> bytes"

type_synonym fw_state = "bytes option \<times> (nat \<Rightarrow> bytes)"

definition pad :: "nat \<Rightarrow> bytes \<Rightarrow> bytes" where
  "pad n x = take n (x @ replicate n 0)"

definition box_prop :: "fw_box \<Rightarrow> nat \<Rightarrow> byte \<Rightarrow> bytes" where
  "box_prop b cid selector =
     (if selector = 0 then [0, box_general b cid] else if selector = 1 then 0 # pad 6 (box_current b cid)
      else if selector = 3 then 0 # pad 6 (box_backup b cid) else replicate 13 0)"

definition box_answer :: "fw_box \<Rightarrow> ipmi_rq \<Rightarrow> fw_state \<Rightarrow> ipmi_rs \<times> fw_state" where
  "box_answer b rq s =
     (let cmd = rq_cmd rq; dat = rq_data rq in
      if rq_netfn rq \<noteq> IPMI_NETFN_PICMG then (reply 0 (pad 15 (box_devid b)), s)
      else if cmd = HPMFWUPG_GET_TARGET_UPG_CAPABILITIES then (reply 0 (pad 8 (box_caps b)), s)
      else if cmd = HPMFWUPG_GET_COMPONENT_PROPERTIES then (reply 0 (box_prop b (unat (dat ! 1)) (dat ! 2)), s)
      else if cmd = HPMFWUPG_INITIATE_UPGRADE_ACTION then (reply 0x80 [0], (Some [], snd s))
      else if cmd = HPMFWUPG_UPLOAD_FIRMWARE_BLOCK then
        (if box_limit b < length dat - 2 then (reply 0xc7 [0], s)
         else (reply 0 [0], (map_option (\<lambda>got. got @ drop 2 dat) (fst s), snd s)))
      else if cmd = HPMFWUPG_FINISH_FIRMWARE_UPLOAD then
        (reply 0x80 [0], (fst s, (snd s)(unat (dat ! 1) := the (fst s))))
      else if cmd = HPMFWUPG_GET_UPGRADE_STATUS then (reply 0 [0, 0, 0], s)
      else (reply 0xc1 [], s))"

definition box_ops :: "fw_box \<Rightarrow> fw_state hpm_ops" where
  "box_ops b = \<lparr>op_lan = box_lan b, op_send = (\<lambda>i rq s. Inr (Some (fst (box_answer b rq s)), snd (box_answer b rq s))),
     op_close = (\<lambda>i s. Inr (i, s)), op_open = (\<lambda>i s. Inr (0, i, s))\<rparr>"

lemma box_send: "op_send (box_ops b) i rq s = Inr (Some (fst (box_answer b rq s)), snd (box_answer b rq s))"
  by (simp add: box_ops_def)

lemma length_pad [simp]: "length (pad n x) = n"
  by (simp add: pad_def)

lemma rs_data_reply: "length d \<le> 1024 \<Longrightarrow> rs_data (reply cc d) = d @ replicate (1024 - length d) 0"
  by (simp add: reply_def put_at_def)

lemmas hpm_commands = HPMFWUPG_GET_TARGET_UPG_CAPABILITIES_def HPMFWUPG_GET_COMPONENT_PROPERTIES_def
  HPMFWUPG_INITIATE_UPGRADE_ACTION_def HPMFWUPG_UPLOAD_FIRMWARE_BLOCK_def HPMFWUPG_FINISH_FIRMWARE_UPLOAD_def
  HPMFWUPG_GET_UPGRADE_STATUS_def HPMFWUPG_ACTIVATE_FIRMWARE_def HPMFWUPG_QUERY_ROLLBACK_STATUS_def

interpretation box: hpm_target "box_ops b" fst snd "box_limit b" "pad 15 (box_devid b)" "read_target_cap (pad 8 (box_caps b))"
  "box_general b" "\<lambda>c. pad 6 (box_current b c)" "\<lambda>c. pad 6 (box_backup b c)"
proof
  have small: "unat (of_nat cid :: byte) = cid" if "bit (tc_components (read_target_cap (pad 8 (box_caps b)))) cid" for cid
    using that bit_imp_le_length [OF that] by (simp add: unat_of_nat)
  show "answers (box_ops b) i (picmg_rq HPMFWUPG_GET_COMPONENT_PROPERTIES [of_nat cid, selector]) s
      (\<lambda>rsp s'. rs_ccode rsp = 0 \<and> 1 < length (rs_data rsp) \<and> (selector = 0 \<longrightarrow> rs_data rsp ! 1 = box_general b cid) \<and>
         (selector = 1 \<longrightarrow> region (rs_data rsp) 1 6 = pad 6 (box_current b cid)) \<and>
         (selector = 3 \<longrightarrow> region (rs_data rsp) 1 6 = pad 6 (box_backup b cid)) \<and> snd s' = snd s \<and> fst s' = fst s)"
    if "bit (tc_components (read_target_cap (pad 8 (box_caps b)))) cid" for i cid selector s
    using small [OF that]
    by (auto simp: answers_def box_send box_answer_def picmg_rq_def hpm_commands box_prop_def rs_data_reply region_def Let_def)
qed (auto simp: answers_def box_send box_answer_def picmg_rq_def hpm_commands Let_def prompt_def rs_data_reply
    IPMI_CC_REQ_DATA_INV_LENGTH_def IPMI_NETFN_APP_def IPMI_NETFN_PICMG_def read_target_cap_def nth_append)

section \<open>Images for a target\<close>

text \<open>A header without OEM data that names the target and compatible revision 0.0; an image around the actions.\<close>

definition build_header :: "bytes \<Rightarrow> byte \<Rightarrow> bytes" where
  "build_header devid comps =
     HPMFWUPG_IMAGE_SIGNATURE @ [0, devid ! 0] @ region devid 6 3 @ region devid 9 2 @ replicate 5 0 @ [comps] @ replicate 13 0"

definition build_image :: "bytes \<Rightarrow> byte \<Rightarrow> hpm_action list \<Rightarrow> bytes" where
  "build_image devid comps acts =
     (let h = build_header devid comps; body = h @ [- sum_list h] @ concat (map encode_action acts) in body @ md5_digest body)"

lemma read_header:
  assumes "length devid = 15" "d = build_header devid comps @ rest"
  shows "take 8 d = HPMFWUPG_IMAGE_SIGNATURE" "d ! 8 = 0" "hdr_device_id d = devid ! 0" "hdr_man_id d = region devid 6 3"
    "hdr_prod_id d = region devid 9 2" "hdr_capabilities d = 0" "hdr_components d = comps" "hdr_major d = 0" "hdr_minor d = 0"
    "hdr_oem_length d = 0"
  using assms
  by (simp_all add: build_header_def HPMFWUPG_IMAGE_SIGNATURE_def hdr_device_id_def hdr_man_id_def hdr_prod_id_def hdr_capabilities_def
      hdr_components_def hdr_major_def hdr_minor_def hdr_oem_length_def region_def nth_append of_le16_def)

lemma build_image_made:
  assumes "length devid = 15" "comps AND tc_components cap = comps" "tc_components cap \<noteq> 0"
    and "\<not> bit (tc_global cap) 7" "\<not> bit (tc_global cap) 3"
    and "list_all (action_ok (image_props general comps)) acts" "\<forall>a\<in>set acts. bit (tc_components cap) (act_component a)"
  shows "made_for devid cap general (build_image devid comps acts) acts"
proof -
  define h where "h = build_header devid comps"
  define body where "body = h @ [- sum_list h] @ concat (map encode_action acts)"
  define d where "d = body @ md5_digest body"
  have h: "length h = 34"
    using assms(1) by (simp add: h_def build_header_def HPMFWUPG_IMAGE_SIGNATURE_def region_def)
  note r = read_header [OF assms(1), of d comps "[- sum_list h] @ concat (map encode_action acts) @ md5_digest body"]
  have d: "d = h @ [- sum_list h] @ concat (map encode_action acts) @ md5_digest body"
    by (simp add: d_def body_def)
  have first: "first_record d = 35"
    using r(10) d by (simp add: first_record_def sizeof_image_header_def h_def)
  have "well_formed_image d"
    unfolding well_formed_image_def first
    using r(1,2) d by (simp add: h_def [symmetric] d_def length_md5_digest body_def h)
  moreover have "suits devid cap d"
    using r d assms(2-5) by (simp add: suits_def ids_match_def revision_fits_def h_def)
  moreover have "drop 35 d = concat (map encode_action acts) @ md5_digest body"
    using d h by simp
  then have "drop (first_record d) d = concat (map encode_action acts) @ md5_digest body"
    by (simp only: first)
  moreover have "hdr_components d = comps"
    using r(7) d by (simp add: h_def)
  ultimately have "made_for devid cap general d acts"
    unfolding made_for_def using assms(6,7) length_md5_digest by auto
  then show ?thesis
    unfolding build_image_def Let_def d_def body_def h_def .
qed

section \<open>Delivery\<close>

text \<open>C7: An upgrade delivers the firmware. With a file made for the target and any selection of components
  and options (not to activate), the command succeeds, and every component whose firmware is due, that is selected and of a
  version that neither of its copies has, or forced, holds exactly the firmware of the file; all other components are as before.
  This is for a target that takes blocks of any size from 1 on, and answers done or in progress.\<close>

theorem hpm_upgrade_delivers:
  assumes "hpm_target ops incoming held limit devid cap general current backup" "0 < limit"
    and "made_for devid cap general d acts" "files f = Some d" "upgrade_args (f # args) False 0 no_opts = Some (False, sel, opts)"
    and "2 < ipmi_intf_get_max_request_data_size (hp_intf w)" "length d + 65536 \<le> k" "length (version_infos w) = 8"
  shows "\<exists>w'. ipmi_hpmfwupg_main k ops files (''upgrade'' # f # args) w = Inr (0, w') \<and>
    held (hp_dev w') = fold (install (\<lambda>c. \<exists>a\<in>set acts. due current backup general sel opts a \<and> act_component a = c)) acts (held (hp_dev w))"
proof -
  have "upgrade_args as act sel opts = Some (act', sel', opts') \<Longrightarrow> opt_view opts' = opt_view opts \<and> opt_compare opts' = opt_compare opts"
    for as act sel opts act' sel' opts'
    by (induction as act sel opts rule: upgrade_args.induct) (auto split: if_splits option.splits)
  from this [OF assms(5)] have "\<not> opt_view opts" "\<not> opt_compare opts"
    by (simp_all add: no_opts_def)
  from hpm_target.deliver [where files = files and f = f, OF assms(1,3,4) this assms(6,2,7,8)] assms(5) show ?thesis
    by (simp add: ipmi_hpmfwupg_main_def del: upgrade_args.simps)
qed

text \<open>Two components of which the second already runs the version of the file; the device takes 4 bytes at a time.\<close>

definition sample_box :: fw_box where
  "sample_box = \<lparr>box_lan = True, box_limit = 4, box_devid = [0x20], box_caps = [0, 1, 0, 2, 2, 2, 2, 3], box_general = (\<lambda>c. 0),
     box_current = (\<lambda>c. [1, 0, 0, 0, 0, 0]), box_backup = (\<lambda>c. [])\<rparr>"

definition sample_acts :: "hpm_action list" where
  "sample_acts = [Firmware 1 [2, 0, 0, 0, 0, 0] (replicate 21 0) [1, 2, 3, 4, 5, 6, 7], Firmware 2 [1, 0, 0, 0, 0, 0] (replicate 21 0) [8, 9]]"

definition sample_image :: bytes where
  "sample_image = build_image (pad 15 [0x20]) 3 sample_acts"

definition sample_env :: "fw_state hpm_env" where
  "sample_env = \<lparr>hp_intf = sample_intf, hp_dev = (None, \<lambda>c. []), hp_clock = (\<lambda>n. of_nat n), hp_ticks = 0, hp_answers = [],
     error_count = 0, resize_count = 0, valid_size = False, version_infos = replicate 8 no_version\<rparr>"

lemma sample_rq: "2 < ipmi_intf_get_max_request_data_size sample_intf"
  by (simp_all add: ipmi_intf_get_max_request_data_size_def ipmi_intf_get_bridging_level_def sample_intf_def int16_def
      IPMI_DEFAULT_PAYLOAD_SIZE_def)

lemma component_of_samples [simp]: "component_of 1 = 0" "component_of 2 = 1"
  by (simp_all add: component_of.simps [of 1] component_of.simps [of 2])

lemma sample_made: "made_for (pad 15 [0x20]) (read_target_cap (pad 8 (box_caps sample_box))) (\<lambda>c. 0) sample_image sample_acts"
  unfolding sample_image_def
  by (rule build_image_made) (simp_all add: sample_box_def sample_acts_def pad_def read_target_cap_def bit_numeral_rec)

theorem hpm_upgrade_delivers_witness:
  "\<exists>w'. ipmi_hpmfwupg_main 1000000 (box_ops sample_box) (\<lambda>f. Some sample_image) [''upgrade'', ''image''] sample_env = Inr (0, w') \<and>
    snd (hp_dev w') = (\<lambda>c. [])(0 := [1, 2, 3, 4, 5, 6, 7])"
proof -
  have "length sample_image + 65536 \<le> 1000000"
    by (simp add: sample_image_def build_image_def Let_def sample_acts_def length_md5_digest build_header_def HPMFWUPG_IMAGE_SIGNATURE_def region_def)
  from hpm_upgrade_delivers [OF box.hpm_target_axioms, of sample_box sample_image sample_acts "\<lambda>f. Some sample_image" "''image''" "[]" 0 no_opts
      sample_env 1000000] this sample_made sample_rq
  show ?thesis
    by (simp add: sample_box_def sample_env_def sample_acts_def pad_def no_opts_def)
qed

section \<open>Which files are accepted\<close>

text \<open>C15: The integrity check of an image accepts exactly the files of at least 16 bytes whose last 16 bytes are
  the MD5 digest of what is before them and whose header has the signature, format version 0 and, with the
  OEM data it announces and the byte behind, lies in the file and sums up to 0.\<close>

theorem hpm_image_accepted: "HpmfwupgValidateImageIntegrity d = Inr 0 \<longleftrightarrow> well_formed_image d"
  by (rule integrity_iff)

section \<open>Targets the program does not get away from\<close>


definition always_answers :: "'s hpm_ops \<Rightarrow> (ipmi_rs \<Rightarrow> bool) \<Rightarrow> ipmi_rq \<Rightarrow> bool" where
  "always_answers ops P rq \<longleftrightarrow> (\<forall>i s. answers ops i rq s (\<lambda>rsp s'. P rsp))"



text \<open>A device with one answer; the clock shows a new second every third reading.\<close>

definition fixed_ops :: "ipmi_rs \<Rightarrow> unit hpm_ops" where
  "fixed_ops rsp = \<lparr>op_lan = False, op_send = (\<lambda>i rq s. Inr (Some rsp, s)), op_close = (\<lambda>i s. Inr (i, s)), op_open = (\<lambda>i s. Inr (0, i, s))\<rparr>"

definition slow_clock :: "nat \<Rightarrow> u32" where
  "slow_clock n = of_nat (min n 1000 div 3)"

definition fixed_env :: "unit hpm_env" where
  "fixed_env = \<lparr>hp_intf = sample_intf, hp_dev = (), hp_clock = slow_clock, hp_ticks = 0, hp_answers = [],
     error_count = 0, resize_count = 0, valid_size = False, version_infos = replicate 8 no_version\<rparr>"



text \<open>A response to a block that is neither the short one nor has 9 bytes counts as an error that may be repeated.\<close>

definition odd_response :: "ipmi_rs \<Rightarrow> bool" where
  "odd_response rsp \<longleftrightarrow> rs_ccode rsp = 0 \<and> 1 < rs_data_len rsp \<and> rs_data_len rsp \<noteq> 9"

lemma odd_block_retried:
  assumes "\<forall>n dat. always_answers ops odd_response (picmg_rq HPMFWUPG_UPLOAD_FIRMWARE_BLOCK (n # dat))" "0 < m"
  shows "\<exists>off len w'. HpmfwupgUploadFirmwareBlock m ops n dat ctx w = Inr (HPMFWUPG_UPLOAD_RETRY, off, len, w')"
proof -
  obtain m' where m: "m = Suc m'"
    using assms(2) gr0_conv_Suc by blast
  obtain rsp s' where r: "op_send ops (hp_intf w) (picmg_rq HPMFWUPG_UPLOAD_FIRMWARE_BLOCK (n # dat)) (hp_dev w) = Inr (Some rsp, s')"
    "odd_response rsp"
    using assms(1) unfolding always_answers_def answers_def by metis
  then show ?thesis
    by (simp add: HpmfwupgUploadFirmwareBlock_def HpmfwupgSendCmd_def send_rounds.simps m hpm_time_def odd_response_def Let_def
        HPMFWUPG_INT_CHECKSUM_ERROR_def HPMFWUPG_COMMAND_IN_PROGRESS_def HPMFWUPG_IS_RETRYABLE_def)
qed

text \<open>C31: A target that answers every block of firmware with an offset but no length, or with any other wrong number of bytes,
  is sent the same block forever: the limit of three repetitions never applies, because each answer has completion code 0
  and so resets the count of errors before the length is looked at.\<close>

theorem hpm_odd_answers_forever:
  assumes "\<forall>n dat. always_answers ops odd_response (picmg_rq HPMFWUPG_UPLOAD_FIRMWARE_BLOCK (n # dat))" "0 < m"
    and "up_data u < up_base u + unat (up_length u)" "q + up_data u + up_count u \<le> length d"
  shows "upload_rounds k m ops d q fwlen ctx u w = Inl Unfinished"
proof (induction k arbitrary: w)
  case (Suc k)
  obtain off len w' where "HpmfwupgUploadFirmwareBlock m ops (up_block u) (region d (q + up_data u) (up_count u)) ctx w =
      Inr (HPMFWUPG_UPLOAD_RETRY, off, len, w')"
    using odd_block_retried [OF assms(1,2)] by metis
  then show ?case
    using assms(3,4) Suc.IH
    by (simp add: upload_rounds.simps Let_def HPMFWUPG_UPLOAD_RETRY_def HPMFWUPG_UPLOAD_BLOCK_LENGTH_def)
qed (simp add: upload_rounds.simps)

theorem hpm_odd_answers_forever_witness:
  "upload_rounds 1000000 5 (fixed_ops (reply 0 (replicate 5 0))) (replicate 100 0) 69 15 empty_ctx (up_start 15 20) fixed_env = Inl Unfinished"
  by (rule hpm_odd_answers_forever)
    (simp_all add: always_answers_def answers_def fixed_ops_def odd_response_def up_start_def up_count_def)

section \<open>Activation\<close>

lemma final_zero: "final_code 0"
  by (simp add: final_code_def)

text \<open>C30: When the target refuses to activate the new firmware, the activation stage, and with it the upgrade, is reported as a
  success all the same, if the target rolls back by itself and answers the question what was rolled back: the result of
  that question replaces the error.\<close>

theorem hpm_refused_activation_succeeds:
  assumes "answers ops (hp_intf w) (picmg_rq HPMFWUPG_ACTIVATE_FIRMWARE []) (hp_dev w)
      (\<lambda>rsp s'. rs_ccode rsp \<noteq> 0 \<and> rs_ccode rsp \<noteq> 0x80 \<and> final_code (rs_ccode rsp))"
    and "always_answers ops (\<lambda>rsp. rs_ccode rsp = 0) (picmg_rq HPMFWUPG_QUERY_ROLLBACK_STATUS [])"
    and "hc_image ctx = Some d" "22 < length d" "bit (tc_global (hc_cap ctx)) 1" "supports_backup (hc_props ctx ! hc_component ctx)" "0 < k"
  shows "\<exists>w'. HpmfwupgActivationStage k ops ctx w = Inr (0, w')"
proof -
  obtain k' where k: "k = Suc k'"
    using assms(7) gr0_conv_Suc by blast
  have "answers ops (hp_intf w) (picmg_rq HPMFWUPG_ACTIVATE_FIRMWARE []) (hp_dev w)
      (\<lambda>rsp s'. final_code (rs_ccode rsp) \<and> (rs_ccode rsp \<noteq> 0 \<and> rs_ccode rsp \<noteq> 0x80))"
    using assms(1) by (auto simp: answers_def)
  from send_answered [OF this assms(7)] obtain rsp w1 where
    "HpmfwupgSendCmd k ops (picmg_rq HPMFWUPG_ACTIVATE_FIRMWARE []) (Some ctx) w = Inr (Some rsp, w1)"
    "rs_ccode rsp \<noteq> 0" "rs_ccode rsp \<noteq> 0x80"
    by metis
  then have act: "HpmfwupgActivateFirmware k ops 0 (Some ctx) w = Inr (HPMFWUPG_ERROR, w1)"
    by (simp add: HpmfwupgActivateFirmware_def hpm_finish_def HPMFWUPG_COMMAND_IN_PROGRESS_def)
  define w2 where "w2 = snd (hpm_time (snd (hpm_time w1)))"
  have "answers ops (hp_intf w2) (picmg_rq HPMFWUPG_QUERY_ROLLBACK_STATUS []) (hp_dev w2)
      (\<lambda>rsp s'. final_code (rs_ccode rsp) \<and> rs_ccode rsp = 0)"
    using assms(2) final_zero unfolding always_answers_def answers_def by metis
  from send_answered [OF this assms(7)] obtain rsp2 w3 where
    "HpmfwupgSendCmd k ops (picmg_rq HPMFWUPG_QUERY_ROLLBACK_STATUS []) (Some ctx) w2 = Inr (Some rsp2, w3)" "rs_ccode rsp2 = 0"
    by metis
  then have "HpmfwupgQueryRollbackStatus k ops (Some ctx) w1 = Inr (0, snd (hpm_time w3))"
    using assms(3,4)
    by (simp add: HpmfwupgQueryRollbackStatus_def img_byte_def poll_rounds.simps k w2_def split_beta Let_def
        HPMFWUPG_IS_RETRYABLE_def IPMI_CC_TIMEOUT_def)
  then show ?thesis
    using act assms(5,6) by (auto simp: HpmfwupgActivationStage_def HPMFWUPG_ERROR_def)
qed

definition refusing_ops :: "unit hpm_ops" where
  "refusing_ops = (fixed_ops (reply 0 [0, 1]))\<lparr>op_send := (\<lambda>i rq s.
     Inr (Some (reply (if rq_cmd rq = HPMFWUPG_ACTIVATE_FIRMWARE then 0xd5 else 0) [0, 1]), s))\<rparr>"

theorem hpm_refused_activation_succeeds_witness:
  "\<exists>w'. HpmfwupgActivationStage 5 refusing_ops
     (empty_ctx\<lparr>hc_image := Some (replicate 100 0), hc_cap := no_target_cap\<lparr>tc_global := 2\<rparr>, hc_props := replicate 8 1\<rparr>) fixed_env = Inr (0, w')"
  by (rule hpm_refused_activation_succeeds [where d = "replicate 100 0"])
    (simp_all add: always_answers_def answers_def refusing_ops_def fixed_ops_def final_code_def picmg_rq_def
      HPMFWUPG_ACTIVATE_FIRMWARE_def HPMFWUPG_QUERY_ROLLBACK_STATUS_def empty_ctx_def supports_backup_def bit_numeral_rec)

end
