(* ===== verification/LanMsg.thy ===== *)
theory LanMsg
  imports LanplusSend Md5Props
begin

text \<open>
  The packets of the LAN 1.5 transport (\<open>src/plugins/lan/lan.c\<close>, \<open>auth.c\<close>): the session state,
  the authentication codes, and the commands and Serial over LAN packets it builds. The list of pending
  requests is the one of the RMCP+ transport, whose functions the two files have in common.
\<close>

section \<open>The session\<close>

text \<open>The part of \<open>struct ipmi_session\<close> this transport uses; \<open>ls_authcode\<close> has 21 bytes, \<open>ls_challenge\<close> 16.\<close>

record lan_session =
  ls_active :: bool
  ls_session_id :: u32
  ls_in_seq :: u32
  ls_authcode :: bytes
  ls_challenge :: bytes
  ls_authtype :: byte
  ls_authstatus :: byte
  ls_timeout :: u32
  ls_sol_sequence :: byte

definition IPMI_SESSION_AUTHTYPE_NONE :: byte where "IPMI_SESSION_AUTHTYPE_NONE = 0"
definition IPMI_SESSION_AUTHTYPE_MD2 :: byte where "IPMI_SESSION_AUTHTYPE_MD2 = 1"
definition IPMI_SESSION_AUTHTYPE_MD5 :: byte where "IPMI_SESSION_AUTHTYPE_MD5 = 2"
definition IPMI_SESSION_AUTHTYPE_PASSWORD :: byte where "IPMI_SESSION_AUTHTYPE_PASSWORD = 4"
definition IPMI_SESSION_AUTHTYPE_OEM :: byte where "IPMI_SESSION_AUTHTYPE_OEM = 5"

lemmas authtypes = IPMI_SESSION_AUTHTYPE_NONE_def IPMI_SESSION_AUTHTYPE_MD2_def IPMI_SESSION_AUTHTYPE_MD5_def
  IPMI_SESSION_AUTHTYPE_PASSWORD_def IPMI_SESSION_AUTHTYPE_OEM_def

section \<open>Authentication codes\<close>

text \<open>
  \<open>auth.c\<close> without OpenSSL takes the digest of \<open>md5.c\<close>. MD2 comes from OpenSSL: the parameter \<open>md2\<close> is its
  function from a message to 16 bytes, and \<open>None\<close> when the program is compiled without it.
\<close>

type_synonym digest2 = "(bytes \<Rightarrow> bytes) option"

definition md5_zero :: md5_state where
  "md5_zero = \<lparr>md_count0 = 0, md_count1 = 0, md_abcd = (0, 0, 0, 0), md_buf = replicate 64 0\<rparr>"

definition ipmi_auth_md5 :: "lan_session \<Rightarrow> bytes \<Rightarrow> bytes" where
  "ipmi_auth_md5 s data =
     (let st1 = md5_append (take 16 (ls_authcode s)) (md5_init md5_zero);
          st2 = md5_append (le32 (ls_session_id s)) st1;
          st3 = md5_append data st2;
          st4 = md5_append (le32 (ls_in_seq s)) st3;
          st5 = md5_append (take 16 (ls_authcode s)) st4
      in md5_finish st5)"

definition ipmi_auth_md2 :: "digest2 \<Rightarrow> lan_session \<Rightarrow> bytes \<Rightarrow> bytes" where
  "ipmi_auth_md2 md2 s data =
     (case md2 of
        None \<Rightarrow> replicate 16 0
      | Some h \<Rightarrow> h (take 16 (ls_authcode s) @ le32 (ls_session_id s) @ data @ le32 (ls_in_seq s) @ take 16 (ls_authcode s)))"

text \<open>\<open>strlen\<close> of the code: it is the password in a buffer whose last byte is 0.\<close>

definition ipmi_auth_special :: "lan_session \<Rightarrow> bytes" where
  "ipmi_auth_special s =
     (let d = md5_finish (md5_append (takeWhile (\<lambda>b. b \<noteq> 0) (ls_authcode s)) (md5_init md5_zero));
          challenge = map (\<lambda>i. ls_challenge s ! i XOR d ! i) [0..<16]
      in md5_finish (md5_append challenge (md5_init md5_zero)))"

section \<open>A command\<close>

text \<open>The number of Send Message wrappers.\<close>

definition lan_bridging :: "bool \<Rightarrow> ipmi_intf \<Rightarrow> nat" where
  "lan_bridging bridge i =
     (if target_addr i = ucast (our_address i) \<or> \<not> bridge then 0
      else if transit_addr i = my_addr i \<or> transit_addr i = 0 then 1 else 2)"

text \<open>The message behind the session header; \<open>sq\<close> is \<open>curr_seq\<close>.\<close>

definition lan_message :: "bool \<Rightarrow> ipmi_intf \<Rightarrow> ipmi_rq \<Rightarrow> byte \<Rightarrow> bytes" where
  "lan_message bridge i req sq =
     (let b = lan_bridging bridge i;
          inner = ipmb_head (if b \<noteq> 0 then ucast (target_addr i) else IPMI_BMC_SLAVE_ADDR) (lp_netfn_lun req) @
            close_csum ([if b = 0 then IPMI_REMOTE_SWID else ucast (my_addr i), push_bit 2 sq, rq_cmd req] @ rq_data req);
          send = (\<lambda>from ch m. close_csum ([from, push_bit 2 sq, 0x34, 0x40 OR ch] @ m))
      in if b = 0 then inner
         else if b = 1 then ipmb_head IPMI_BMC_SLAVE_ADDR 0x18 @ send IPMI_REMOTE_SWID (target_channel i) inner
         else ipmb_head IPMI_BMC_SLAVE_ADDR 0x18 @ send IPMI_REMOTE_SWID (transit_channel i)
                (ipmb_head (ucast (transit_addr i)) 0x18 @ send (ucast (my_addr i)) (target_channel i) inner))"

text \<open>The message length is one byte; the authentication code covers as many bytes as it says.\<close>

definition lan_msg_length :: "bool \<Rightarrow> ipmi_intf \<Rightarrow> ipmi_rq \<Rightarrow> byte" where
  "lan_msg_length bridge i req = of_nat (length (rq_data req) + 7 + 8 * lan_bridging bridge i)"

definition lan_auth :: "digest2 \<Rightarrow> lan_session \<Rightarrow> bytes \<Rightarrow> bytes" where
  "lan_auth md2 s covered =
     (if \<not> ls_active s \<or> ls_authtype s = 0 then []
      else if ls_authtype s = IPMI_SESSION_AUTHTYPE_MD5 then ipmi_auth_md5 s covered
      else if ls_authtype s = IPMI_SESSION_AUTHTYPE_MD2 then ipmi_auth_md2 md2 s covered
      else take 16 (ls_authcode s))"

definition lan_packet :: "digest2 \<Rightarrow> bool \<Rightarrow> ipmi_intf \<Rightarrow> lan_session \<Rightarrow> ipmi_rq \<Rightarrow> byte \<Rightarrow> bytes" where
  "lan_packet md2 bridge i s req sq =
     (let m = lan_message bridge i req sq; n = lan_msg_length bridge i req in
      [0x06, 0x00, 0xFF, 0x07] @ [if ls_active s then ls_authtype s else 0] @ le32 (ls_in_seq s) @ le32 (ls_session_id s) @
      lan_auth md2 s (take (unat n) m) @ [n] @ m)"

text \<open>The bytes allocated for it.\<close>

definition lan_alloc :: "ipmi_intf \<Rightarrow> lan_session \<Rightarrow> ipmi_rq \<Rightarrow> nat" where
  "lan_alloc i s req = length (rq_data req) + 29 + (if ls_active s \<and> ls_authtype s \<noteq> 0 then 16 else 0)
     + (if transit_addr i \<noteq> my_addr i \<and> transit_addr i \<noteq> 0 then 8 else 0)"

text \<open>A sequence number counts up once it is set, and never becomes 0 again.\<close>

definition lan_used_seq :: "lan_session \<Rightarrow> lan_session" where
  "lan_used_seq s = (if ls_in_seq s \<noteq> 0 then s\<lparr>ls_in_seq := next_out_seq (ls_in_seq s)\<rparr> else s)"

section \<open>Serial over LAN\<close>

text \<open>The session id has 0x10 added to its last byte, and a fifth header byte is left 0.\<close>

definition ipmi_lan_build_sol_msg :: "lan_session \<Rightarrow> sol_tx \<Rightarrow> bytes \<times> lan_session" where
  "ipmi_lan_build_sol_msg s tx =
     ([0x06, 0x00, 0xFF, 0x07] @ [0] @ le32 (ls_in_seq s) @ le32 (ls_session_id s + 0x10000000) @
      [of_nat (length (tx_data tx) + 5)] @ getSolPayloadWireRep (tx\<lparr>tx_data := []\<rparr>) @ [0] @ tx_data tx,
      s\<lparr>ls_in_seq := next_out_seq (ls_in_seq s)\<rparr>)"

end
