(* ===== verification/LanPoll.thy ===== *)
theory LanPoll
  imports LanMsg
begin

text \<open>
  Receiving in the LAN 1.5 transport (\<open>src/plugins/lan/lan.c\<close>): its state, and the loop that looks at
  the packets until one answers a pending request or carries Serial over LAN.
\<close>

section \<open>The state\<close>

text \<open>
  As for RMCP+: the session behind the interface, the static variables, and the environment. The \<open>k\<close>-th
  call of \<open>send\<close> succeeds when \<open>ln_up k\<close>, \<open>ln_sends\<close> of them have been made, \<open>ln_sent\<close> are the datagrams
  that left. \<open>ln_rand\<close> is what the reads of \<open>/dev/urandom\<close> deliver, and zeros behind it.
\<close>

record lan_state =
  ln_intf :: ipmi_intf
  ln_live :: bool
  ln_ssn :: lan_session
  ln_bridge :: bool
  ln_reqs :: rq_table
  ln_rsp :: ipmi_rs
  ln_curr_seq :: byte
  ln_sol_seq :: byte
  ln_sol_count :: byte
  ln_net :: "net_event list"
  ln_sent :: "bytes list"
  ln_console :: "bytes list"
  ln_up :: "nat \<Rightarrow> bool"
  ln_sends :: nat
  ln_rand :: "bytes list"

section \<open>Reading a datagram\<close>

definition lan_on_packet :: "bytes \<Rightarrow> net_event list \<Rightarrow> lan_state \<Rightarrow> (bool \<times> lan_state) outcome" where
  "lan_on_packet pkt rest st =
     bind_ok (store_packet pkt (ln_rsp st)) (\<lambda>(got, r). Inr (got, st\<lparr>ln_net := rest, ln_rsp := r\<rparr>))"

definition lan_recv_packet :: "lan_state \<Rightarrow> (bool \<times> lan_state) outcome" where
  "lan_recv_packet st =
     (case ln_net st of
        [] \<Rightarrow> Inr (False, st)
      | NetNone # rest \<Rightarrow> Inr (False, st\<lparr>ln_net := rest\<rparr>)
      | NetPkt p # rest \<Rightarrow> lan_on_packet p rest st
      | NetErr # rest \<Rightarrow>
          (case rest of
             [] \<Rightarrow> Inr (False, st\<lparr>ln_net := []\<rparr>)
           | NetPkt p # rest' \<Rightarrow> lan_on_packet p rest' st
           | e # rest' \<Rightarrow> Inr (False, st\<lparr>ln_net := rest'\<rparr>)))"

section \<open>Looking at a packet\<close>

definition lan_session_header :: "ipmi_rs \<Rightarrow> ipmi_rs" where
  "lan_session_header rs =
     (let d = rs_data rs in rs\<lparr>rs_authtype := d ! 4, rs_seq := of_le32 (drop 5 d), rs_id := of_le32 (drop 9 d)\<rparr>)"

text \<open>A Serial over LAN packet, and the offset of its characters.\<close>

definition lan_read_sol :: "ipmi_rs \<Rightarrow> ipmi_rs \<times> nat" where
  "lan_read_sol rs =
     (let (r, x) = read_sol_packet (rs\<lparr>rs_payloadtype := IPMI_PAYLOAD_TYPE_SOL, rs_msglen := ucast (rs_data rs ! 13)\<rparr>) 14
      in (r, x + 1))"

text \<open>Where the message length stands: behind an authentication code if there is one.\<close>

definition lan_length_at :: "lan_session \<Rightarrow> ipmi_rs \<Rightarrow> nat" where
  "lan_length_at s rs = (if ls_active s \<and> (rs_authtype rs \<noteq> 0 \<or> ls_authtype s \<noteq> 0) then 29 else 13)"

definition lan_read_ipmi :: "lan_session \<Rightarrow> ipmi_rs \<Rightarrow> ipmi_rs \<times> nat" where
  "lan_read_ipmi s rs =
     (let x = lan_length_at s rs in
      read_ipmi_response (rs\<lparr>rs_payloadtype := IPMI_PAYLOAD_TYPE_IPMI, rs_msglen := ucast (rs_data rs ! x)\<rparr>) (x + 1))"

text \<open>
  After a look at a packet there is no response, a pong, a response whose data stand at an offset, or
  another packet to look at.
\<close>

datatype lan_verdict = LnNull | LnPong | LnTaken nat | LnGo

definition lan_next_packet :: "lan_state \<Rightarrow> (lan_verdict \<times> lan_state) outcome" where
  "lan_next_packet st = bind_ok (lan_recv_packet st) (\<lambda>(got, st'). Inr (if got then LnGo else LnNull, st'))"

text \<open>
  The answer in the data of a Send Message response is moved over its header; \<open>x\<close> is the offset of the
  data, and \<open>memmove\<close> is given the difference as a \<open>size_t\<close>.
\<close>

definition lan_embedded :: "nat \<Rightarrow> ipmi_rs \<Rightarrow> ipmi_rs outcome" where
  "lan_embedded x rs =
     (if rs_data_len rs - int x - 1 < 0 then Inl OutOfBounds
      else let d = put_at (rs_data rs) (x - 7) (region (rs_data rs) x (nat (rs_data_len rs) - x - 1))
           in Inr (rs\<lparr>rs_data := d[x - 8 := d ! (x - 8) - 8], rs_data_len := rs_data_len rs - 8\<rparr>))"

text \<open>Whether a response only says that a request was passed on: \<open>e\<close> is the request.\<close>

definition lan_passed_on :: "rq_entry \<Rightarrow> ipmi_rs \<Rightarrow> byte \<Rightarrow> bool" where
  "lan_passed_on e rs cm \<longleftrightarrow> e_bridging e \<noteq> 0 \<and> cm = 0x34
     \<and> (case rs_payload rs of PIpmi p \<Rightarrow> ir_netfn p = 7 | _ \<Rightarrow> False)"

text \<open>
  The response to a Send Message request without data: the answer comes in a packet of its own. When it
  does not, or the request was refused, the request is given up.
\<close>

definition lan_await_bridged :: "nat \<Rightarrow> rq_entry \<Rightarrow> lan_state \<Rightarrow> (lan_verdict \<times> lan_state) outcome" where
  "lan_await_bridged a e st =
     (let e' = unbridge e in
      bind_ok (if rs_ccode (ln_rsp st) = 0 then lan_recv_packet st else Inr (False, st)) (\<lambda>(got, st1).
        let t = set_entry a e' (ln_reqs st1) in
        if got then Inr (LnGo, st1\<lparr>ln_reqs := t\<rparr>)
        else bind_ok (ipmi_req_remove_entry (e_rq_seq e') (rq_cmd (e_req e')) t) (\<lambda>t'.
          Inr (LnNull, st1\<lparr>ln_reqs := t'\<rparr>))))"

definition lan_unwrap_bridged :: "nat \<Rightarrow> rq_entry \<Rightarrow> nat \<Rightarrow> lan_state \<Rightarrow> (lan_verdict \<times> lan_state) outcome" where
  "lan_unwrap_bridged a e x st =
     bind_ok (lan_embedded x (ln_rsp st)) (\<lambda>r.
       Inr (LnGo, st\<lparr>ln_rsp := r,
         ln_reqs := set_entry a ((unbridge e)\<lparr>e_rq_seq := drop_bit 2 (rs_data r ! (x - 3))\<rparr>) (ln_reqs st)\<rparr>))"

definition lan_look_ipmi :: "lan_state \<Rightarrow> (lan_verdict \<times> lan_state) outcome" where
  "lan_look_ipmi st =
     (let (r, x) = lan_read_ipmi (ln_ssn st) (ln_rsp st); d = rs_data r;
          sq = drop_bit 2 (d ! (x - 3)); cm = d ! (x - 2); st1 = st\<lparr>ln_rsp := r\<rparr>
      in bind_ok (ipmi_req_lookup_entry sq cm (ln_reqs st)) (\<lambda>found.
         case found of
           None \<Rightarrow> lan_next_packet st1
         | Some a \<Rightarrow> bind_ok (deref (ln_reqs st) (Some a)) (\<lambda>e.
             if target_addr (ln_intf st) \<noteq> ucast (our_address (ln_intf st)) \<and> ln_bridge st \<and> lan_passed_on e r cm then
               (if rs_data_len r - int x - 1 = 0 then lan_await_bridged a e st1 else lan_unwrap_bridged a e x st1)
             else bind_ok (ipmi_req_remove_entry sq cm (ln_reqs st)) (\<lambda>t.
               Inr (LnTaken x, st1\<lparr>ln_reqs := t\<rparr>)))))"

definition lan_look :: "lan_state \<Rightarrow> (lan_verdict \<times> lan_state) outcome" where
  "lan_look st =
     (let rs = ln_rsp st; class = rs_data rs ! 3 in
      if class = RMCP_CLASS_ASF then Inr (if ipmi_handle_pong rs \<le> 0 then LnNull else LnPong, st)
      else if class \<noteq> RMCP_CLASS_IPMI then lan_next_packet st
      else
        let r = lan_session_header rs in
        if rs_id r = ls_session_id (ln_ssn st) + 0x10000000 then
          (let (r', x) = lan_read_sol r in Inr (LnTaken x, st\<lparr>ln_rsp := r'\<rparr>))
        else lan_look_ipmi (st\<lparr>ln_rsp := r\<rparr>))"

section \<open>The loop\<close>

text \<open>Another packet to look at has taken an event, or is the rest of the one before.\<close>

definition lan_work :: "lan_state \<Rightarrow> nat" where
  "lan_work st = length (ln_net st) * 1024 + nat (rs_data_len (ln_rsp st))"

lemma lan_on_packet_cases:
  assumes "lan_on_packet p rest st = Inr (got, st')"
  obtains "\<not> got" "p = []" "st' = st\<lparr>ln_net := rest\<rparr>"
    | "got" "p \<noteq> []" "length p < 1024" "st' = st\<lparr>ln_net := rest, ln_rsp := (ln_rsp st)
        \<lparr>rs_data := put_at (rs_data (ln_rsp st)) 0 (p @ [0]), rs_data_len := int (length p)\<rparr>\<rparr>"
  using assms by (auto simp: lan_on_packet_def store_packet_def IPMI_BUF_SIZE_def split: if_split_asm)

lemma lan_recv_shorter:
  assumes "lan_recv_packet st = Inr (got, st')"
  shows "length (ln_net st') \<le> length (ln_net st) \<and> (got \<longrightarrow> lan_work st' < lan_work st)"
proof -
  have one: "length (ln_net st') \<le> length rest \<and> (got \<longrightarrow> lan_work st' < lan_work st)"
    if "lan_on_packet p rest st = Inr (got, st')" "length rest < length (ln_net st)" for p rest
    using that(1)
  proof (cases rule: lan_on_packet_cases)
    case 2
    moreover have "(length rest + 1) * 1024 \<le> length (ln_net st) * 1024"
      using that(2) by (intro mult_right_mono) simp_all
    ultimately show ?thesis
      by (simp add: lan_work_def)
  qed simp
  show ?thesis
    using assms
    by (auto simp: lan_recv_packet_def split: list.splits net_event.splits dest!: one)
qed

lemma lan_next_work: "lan_next_packet st = Inr (LnGo, st') \<Longrightarrow> lan_work st' < lan_work st"
  by (auto simp: lan_next_packet_def bind_ok_Inr_iff dest!: lan_recv_shorter split: if_split_asm)

lemma lan_read_ipmi_len: "lan_read_ipmi s rs = (r, x) \<Longrightarrow> rs_data_len r = rs_data_len rs \<and> rs_data r = rs_data rs \<and> 21 \<le> x"
  by (auto simp: lan_read_ipmi_def read_ipmi_response_def lan_length_at_def Let_def)

lemma lan_work_simps [simp]: "lan_work (st\<lparr>ln_reqs := t\<rparr>) = lan_work st"
  by (simp add: lan_work_def)

lemma lan_unwrap_work:
  assumes "lan_unwrap_bridged a e x st = Inr (k, st')"
  shows "lan_work st' < lan_work st"
  using assms by (auto simp: lan_unwrap_bridged_def lan_embedded_def lan_work_def bind_ok_Inr_iff Let_def split: if_split_asm)

lemma lan_look_ipmi_work:
  assumes "lan_look_ipmi st = Inr (LnGo, st')"
  shows "lan_work st' < lan_work st"
proof -
  obtain r x where r: "lan_read_ipmi (ln_ssn st) (ln_rsp st) = (r, x)"
    by fastforce
  let ?st1 = "st\<lparr>ln_rsp := r\<rparr>"
  have w: "lan_work ?st1 = lan_work st"
    using lan_read_ipmi_len [OF r] by (simp add: lan_work_def)
  have await: "lan_work st' < lan_work ?st1" if "lan_await_bridged a e ?st1 = Inr (LnGo, st')" for a e
    using that lan_recv_shorter
    by (auto simp: lan_await_bridged_def bind_ok_Inr_iff Let_def split: if_split_asm) 
  show ?thesis
    using assms lan_next_work [of ?st1 st'] lan_unwrap_work [of _ _ _ ?st1 LnGo st'] await
    by (auto simp: lan_look_ipmi_def r Let_def bind_ok_Inr_iff w split: option.split_asm if_split_asm)
qed

lemma lan_look_work:
  assumes "lan_look st = Inr (LnGo, st')"
  shows "lan_work st' < lan_work st"
proof -
  have "lan_work (st\<lparr>ln_rsp := lan_session_header (ln_rsp st)\<rparr>) = lan_work st"
    by (simp add: lan_work_def lan_session_header_def Let_def)
  then show ?thesis
    using assms lan_next_work [of st st'] lan_look_ipmi_work [of "st\<lparr>ln_rsp := lan_session_header (ln_rsp st)\<rparr>" st']
    by (auto simp: lan_look_def Let_def split: if_split_asm prod.split_asm)
qed

function lan_poll_loop :: "lan_state \<Rightarrow> (lan_verdict \<times> lan_state) outcome" where
  "lan_poll_loop st =
     (case lan_look st of
        Inl f \<Rightarrow> Inl f
      | Inr (k, st') \<Rightarrow> if k = LnGo then lan_poll_loop st' else Inr (k, st'))"
  by pat_completeness auto

termination
  by (relation "measure lan_work") (auto dest: lan_look_work)

declare lan_poll_loop.simps [simp del]

text \<open>
  The data come to the front of the buffer, without the checksum of an IPMI response; the rest is
  cleared. A packet that ends before its data stays as it is.
\<close>

definition lan_shift :: "nat \<Rightarrow> ipmi_rs \<Rightarrow> ipmi_rs" where
  "lan_shift x rs =
     (if int x < rs_data_len rs then
        let n = nat (rs_data_len rs) - x - (if rs_payloadtype rs = IPMI_PAYLOAD_TYPE_IPMI then 1 else 0) in
        rs\<lparr>rs_data := put_at (move_front (rs_data rs) x n) n (replicate (IPMI_BUF_SIZE - n) 0), rs_data_len := int n\<rparr>
      else rs)"

definition lan_poll_recv :: "lan_state \<Rightarrow> (bool \<times> lan_state) outcome" where
  "lan_poll_recv st =
     bind_ok (lan_recv_packet st) (\<lambda>(got, st1).
       if \<not> got then Inr (False, st1)
       else bind_ok (lan_poll_loop st1) (\<lambda>(k, st2). Inr (
         case k of LnTaken x \<Rightarrow> (True, st2\<lparr>ln_rsp := lan_shift x (ln_rsp st2)\<rparr>) | _ \<Rightarrow> (k = LnPong, st2))))"

end
