(* ===== verification/LanMsgProps.thy ===== *)
theory LanMsgProps
  imports LanMsg LanplusMsgProps
begin

text \<open>
  The properties of the packets of the LAN 1.5 transport: the messages are valid at each level of
  bridging, and the authentication code is the digest the specification asks for.
\<close>

lemma lan_bridging_le: "lan_bridging bridge i \<in> {0, 1, 2}"
  by (simp add: lan_bridging_def)

lemma length_lan_message: "length (lan_message bridge i req sq) = length (rq_data req) + 7 + 8 * lan_bridging bridge i"
  using lan_bridging_le [of bridge i] by (auto simp: lan_message_def Let_def simp del: append_Cons)

lemma lan_message_valid:
  "ipmb_valid (lan_message bridge i req sq)"
  "lan_bridging bridge i \<noteq> 0 \<Longrightarrow> ipmb_valid (ipmb_unwrap (lan_message bridge i req sq))"
  "lan_bridging bridge i = 2 \<Longrightarrow> ipmb_valid (ipmb_unwrap (ipmb_unwrap (lan_message bridge i req sq)))"
  using lan_bridging_le [of bridge i]
  by (auto simp: lan_message_def Let_def ipmb_valid_msg ipmb_unwrap_msg simp del: append_Cons)

lemma ipmi_auth_md5_digest:
  "ipmi_auth_md5 s m = md5_digest (take 16 (ls_authcode s) @ le32 (ls_session_id s) @ m @ le32 (ls_in_seq s) @ take 16 (ls_authcode s))"
  using md5_finish_ok [OF md5_pieces [OF md5_after_init,
      of md5_zero "[take 16 (ls_authcode s), le32 (ls_session_id s), m, le32 (ls_in_seq s), take 16 (ls_authcode s)]"]]
  by (simp add: ipmi_auth_md5_def md5_zero_def)

text \<open>The digest function of MD2 gives 16 bytes.\<close>

definition md2_ok :: "digest2 \<Rightarrow> bool" where
  "md2_ok md2 \<longleftrightarrow> (\<forall>h x. md2 = Some h \<longrightarrow> length (h x) = 16)"

lemma length_lan_auth:
  assumes "16 \<le> length (ls_authcode s)" "md2_ok md2"
  shows "length (lan_auth md2 s m) = (if ls_active s \<and> ls_authtype s \<noteq> 0 then 16 else 0)"
  using assms by (auto simp: lan_auth_def ipmi_auth_md5_digest ipmi_auth_md2_def md2_ok_def split: option.splits)

text \<open>C23: a packet built for a command announces the length of its message, which is a valid IPMB message at
  every level of bridging, fits the bytes allocated for it, and with MD5 carries the digest of password,
  session id, message, sequence number and password, as the BMC computes it to check the packet.\<close>

theorem lan_packet_valid:
  assumes "length (rq_data req) \<le> 232" "length (ls_authcode s) = 21" "md2_ok md2"
    and "p = lan_packet md2 bridge i s req sq" "n = (if ls_active s \<and> ls_authtype s \<noteq> 0 then 29 else 13)" "m = drop (n + 1) p"
  shows "unat (p ! n) = length m \<and> ipmb_valid m
    \<and> (lan_bridging bridge i \<noteq> 0 \<longrightarrow> ipmb_valid (ipmb_unwrap m))
    \<and> (lan_bridging bridge i = 2 \<longrightarrow> ipmb_valid (ipmb_unwrap (ipmb_unwrap m)))
    \<and> length p \<le> lan_alloc i s req
    \<and> (ls_active s \<and> ls_authtype s = IPMI_SESSION_AUTHTYPE_MD5 \<longrightarrow> region p 13 16 =
        md5_digest (take 16 (ls_authcode s) @ le32 (ls_session_id s) @ m @ le32 (ls_in_seq s) @ take 16 (ls_authcode s)))"
proof -
  define msg where "msg = lan_message bridge i req sq"
  define hd where "hd = [0x06, 0x00, 0xFF, 0x07] @ [if ls_active s then ls_authtype s else 0] @ le32 (ls_in_seq s) @ le32 (ls_session_id s)"
  have len: "length msg \<le> 255" "length msg = length (rq_data req) + 7 + 8 * lan_bridging bridge i"
    using assms(1) lan_bridging_le [of bridge i] by (auto simp: msg_def length_lan_message)
  then have nb: "unat (lan_msg_length bridge i req) = length msg"
    unfolding lan_msg_length_def by (simp add: unat_of_nat del: of_nat_add of_nat_mult)
  have p: "p = hd @ lan_auth md2 s msg @ [lan_msg_length bridge i req] @ msg"
    using nb by (simp add: assms(4) lan_packet_def msg_def hd_def Let_def)
  have hd: "length hd = 13"
    by (simp add: hd_def)
  have la: "length (lan_auth md2 s msg) = (if ls_active s \<and> ls_authtype s \<noteq> 0 then 16 else 0)"
    using length_lan_auth [of s md2] assms(2,3) by simp
  have n: "n = length (hd @ lan_auth md2 s msg)"
    using la hd assms(5) by simp
  have m: "m = msg" and at: "p ! n = lan_msg_length bridge i req"
    unfolding assms(6) p n by (simp_all add: nth_append)
  have r: "region p 13 16 = ipmi_auth_md5 s msg" if "ls_active s" "ls_authtype s = IPMI_SESSION_AUTHTYPE_MD5"
  proof -
    have "lan_auth md2 s msg = ipmi_auth_md5 s msg" "length (ipmi_auth_md5 s msg) = 16"
      using that by (simp_all add: lan_auth_def ipmi_auth_md5_digest authtypes)
    then show ?thesis
      using hd by (simp add: p region_append_right)
  qed
  have "length p \<le> lan_alloc i s req"
    using hd la len(2) by (simp add: p lan_alloc_def) (auto simp: lan_bridging_def)
  then show ?thesis
    using nb at r lan_message_valid [of bridge i req sq] by (simp add: m ipmi_auth_md5_digest msg_def)
qed

definition sample_lan_session :: lan_session where
  "sample_lan_session = \<lparr>ls_active = True, ls_session_id = 0x01020304, ls_in_seq = 7, ls_authcode = 0x70 # replicate 20 0,
     ls_challenge = replicate 16 5, ls_authtype = 2, ls_authstatus = 0, ls_timeout = 2, ls_sol_sequence = 1\<rparr>"

theorem lan_packet_valid_witness:
  "let p = lan_packet None True (sample_intf\<lparr>target_addr := 0x72, transit_addr := 0x82\<rparr>) sample_lan_session sample_rq 5
   in unat (p ! 29) = length (drop 30 p) \<and> ipmb_valid (ipmb_unwrap (ipmb_unwrap (drop 30 p)))
    \<and> region p 13 16 = md5_digest (0x70 # replicate 15 0 @ [4, 3, 2, 1] @ drop 30 p @ [7, 0, 0, 0] @ 0x70 # replicate 15 0)"
proof -
  let ?i = "sample_intf\<lparr>target_addr := 0x72, transit_addr := 0x82\<rparr>"
  have b: "lan_bridging True ?i = 2"
    by (simp add: lan_bridging_def our_address_def sample_intf_def)
  have s: "ls_active sample_lan_session" "ls_authtype sample_lan_session = 2" "length (ls_authcode sample_lan_session) = 21"
    "take 16 (ls_authcode sample_lan_session) = 0x70 # replicate 15 0" "le32 (ls_session_id sample_lan_session) = [4, 3, 2, 1]"
    "le32 (ls_in_seq sample_lan_session) = [7, 0, 0, 0]"
    by (simp_all add: sample_lan_session_def le32_def)
  show ?thesis
    using lan_packet_valid [of sample_rq sample_lan_session None "lan_packet None True ?i sample_lan_session sample_rq 5" True ?i 5 29] b s
    by (simp add: sample_rq_def md2_ok_def authtypes Let_def)
qed

end
