(* ===== verification/LanFacts.thy ===== *)
theory LanFacts
  imports LanPoll LanMsgProps LanplusSendProps
begin

text \<open>
  Facts about receiving in the LAN 1.5 transport: what a look at each kind of packet gives, and that
  polling goes on past foreign packets to the answer.
\<close>

section \<open>Packets in the buffer\<close>

definition lan_holds :: "ipmi_rs \<Rightarrow> bytes \<Rightarrow> bool" where
  "lan_holds rs p \<longleftrightarrow> length (rs_data rs) = 1024 \<and> take (length p) (rs_data rs) = p \<and> rs_data_len rs = int (length p)
     \<and> length p < 1024"

lemma lan_holds_nth: "lan_holds rs p \<Longrightarrow> i < length p \<Longrightarrow> rs_data rs ! i = p ! i"
  unfolding lan_holds_def by (metis nth_take)

lemma of_le32_nth: "of_le32 b = of_le32 [b ! 0, b ! 1, b ! 2, b ! 3]"
  by (simp add: of_le32_def)

lemma lan_holds_le32:
  assumes "lan_holds rs p" "i + 4 \<le> length p"
  shows "of_le32 (drop i (rs_data rs)) = of_le32 (drop i p)"
proof -
  have "length p < length (rs_data rs)"
    using assms(1) by (simp add: lan_holds_def)
  then have "drop i (rs_data rs) ! j = drop i p ! j" if "j < 4" for j
    using lan_holds_nth [OF assms(1), of "i + j"] assms(2) that by simp
  then show ?thesis
    by (subst (1 2) of_le32_nth) simp
qed

lemma lan_store_packet:
  assumes "length (rs_data rs) = 1024" "p \<noteq> []" "length p < 1024"
  obtains rs' where "store_packet p rs = Inr (True, rs')" "lan_holds rs' p"
  using assms that [of "rs\<lparr>rs_data := put_at (rs_data rs) 0 (p @ [0]), rs_data_len := int (length p)\<rparr>"]
  by (auto simp: store_packet_def lan_holds_def IPMI_BUF_SIZE_def put_at_def)

lemma lan_recv_pkt:
  assumes "length (rs_data (ln_rsp st)) = 1024" "p \<noteq> []" "length p < 1024" "ln_net st = NetPkt p # rest"
  obtains rs where "lan_recv_packet st = Inr (True, st\<lparr>ln_net := rest, ln_rsp := rs\<rparr>)" "lan_holds rs p"
proof -
  obtain rs where "store_packet p (ln_rsp st) = Inr (True, rs)" "lan_holds rs p"
    by (rule lan_store_packet [OF assms(1-3)])
  then show thesis
    using assms(4) that [of rs] by (simp add: lan_recv_packet_def lan_on_packet_def)
qed

section \<open>Foreign packets\<close>

text \<open>Where the message length stands in a packet.\<close>

definition lan_at :: "lan_session \<Rightarrow> bytes \<Rightarrow> nat" where
  "lan_at s p = (if ls_active s \<and> (p ! 4 \<noteq> 0 \<or> ls_authtype s \<noteq> 0) then 29 else 13)"

text \<open>
  A datagram that is not for a request with this number and command: another class of RMCP message, or a
  response to another request.
\<close>

definition lan_foreign :: "lan_session \<Rightarrow> byte \<Rightarrow> byte \<Rightarrow> bytes \<Rightarrow> bool" where
  "lan_foreign s sq cm p \<longleftrightarrow> length p < 1024 \<and> 4 \<le> length p \<and>
     (p ! 3 \<noteq> RMCP_CLASS_ASF \<and> p ! 3 \<noteq> RMCP_CLASS_IPMI \<or>
      p ! 3 = RMCP_CLASS_IPMI \<and> lan_at s p + 8 \<le> length p
        \<and> of_le32 (drop 9 p) \<noteq> ls_session_id s + 0x10000000
        \<and> (drop_bit 2 (p ! (lan_at s p + 5)), p ! (lan_at s p + 6)) \<noteq> (sq, cm))"

lemma lan_foreign_len: "lan_foreign s sq cm p \<Longrightarrow> length p < 1024 \<and> p \<noteq> []"
  by (cases p) (simp_all add: lan_foreign_def)

text \<open>The request that waits alone, not bridged.\<close>

definition lan_waits :: "byte \<Rightarrow> byte \<Rightarrow> lan_state \<Rightarrow> bool" where
  "lan_waits sq cm st \<longleftrightarrow> table_ok (ln_reqs st) \<and> length (rs_data (ln_rsp st)) = 1024
     \<and> (\<exists>a e. pending (ln_reqs st) = [(a, e)] \<and> matches sq cm e \<and> e_bridging e = 0)"

lemma lan_waits_lookup:
  assumes "lan_waits sq cm st"
  obtains a e where "ipmi_req_lookup_entry sq cm (ln_reqs st) = Inr (Some a)" "deref (ln_reqs st) (Some a) = Inr e"
    "e_bridging e = 0" "\<forall>sq' cm'. (sq', cm') \<noteq> (sq, cm) \<longrightarrow> ipmi_req_lookup_entry sq' cm' (ln_reqs st) = Inr None"
    "\<exists>t. ipmi_req_remove_entry sq cm (ln_reqs st) = Inr t \<and> table_ok t \<and> pending t = []"
proof -
  obtain a x where x: "pending (ln_reqs st) = [(a, x)]" "matches sq cm x" "e_bridging x = 0"
    and ok: "table_ok (ln_reqs st)"
    using assms by (auto simp: lan_waits_def)
  have look: "ipmi_req_lookup_entry sq cm (ln_reqs st) = Inr (Some a)"
    using lp.lookup [OF ok, of sq cm] x by simp
  obtain e where e: "deref (ln_reqs st) (Some a) = Inr e" "(a, e\<lparr>e_next := None\<rparr>) \<in> set (pending (ln_reqs st))"
    by (rule lookup_deref [OF ok look])
  have "e\<lparr>e_next := None\<rparr> = x"
    using e(2) x(1) by simp
  then have b: "e_bridging e = 0"
    using x(3) by auto
  show thesis
  proof (rule that [OF look e(1) b])
    have "\<not> matches sq' cm' x" if "(sq', cm') \<noteq> (sq, cm)" for sq' cm'
      using x(2) that by (auto simp: matches_def)
    then show "\<forall>sq' cm'. (sq', cm') \<noteq> (sq, cm) \<longrightarrow> ipmi_req_lookup_entry sq' cm' (ln_reqs st) = Inr None"
      using lp.lookup [OF ok] x(1) by simp
  next
    show "\<exists>t. ipmi_req_remove_entry sq cm (ln_reqs st) = Inr t \<and> table_ok t \<and> pending t = []"
      using lp.remove [OF ok, of sq cm] x(1,2) by auto
  qed
qed

lemma lan_session_header_simps [simp]:
  "rs_data (lan_session_header rs) = rs_data rs" "rs_data_len (lan_session_header rs) = rs_data_len rs"
  "rs_authtype (lan_session_header rs) = rs_data rs ! 4" "rs_id (lan_session_header rs) = of_le32 (drop 9 (rs_data rs))"
  by (simp_all add: lan_session_header_def Let_def)

lemma lan_read_ipmi_holds:
  assumes "lan_holds rs p" "rs_authtype rs = p ! 4" "lan_at s p + 8 \<le> length p"
  obtains r where "lan_read_ipmi s rs = (r, lan_at s p + 8)" "rs_data r = rs_data rs" "rs_data_len r = rs_data_len rs"
    "rs_payloadtype r = IPMI_PAYLOAD_TYPE_IPMI" "rs_ccode r = p ! (lan_at s p + 7)"
    "rs_data rs ! (lan_at s p + 5) = p ! (lan_at s p + 5)" "rs_data rs ! (lan_at s p + 6) = p ! (lan_at s p + 6)"
proof -
  have "lan_length_at s rs = lan_at s p"
    using assms(2) by (simp add: lan_length_at_def lan_at_def)
  then show thesis
    using that [of "fst (lan_read_ipmi s rs)"] lan_holds_nth [OF assms(1)] assms(3)
    by (simp add: lan_read_ipmi_def read_ipmi_response_def Let_def add.commute)
qed

lemma lan_look_foreign:
  assumes "lan_waits sq cm st" "lan_holds (ln_rsp st) p" "lan_foreign (ln_ssn st) sq cm p"
  obtains r where "lan_look st = lan_next_packet (st\<lparr>ln_rsp := r\<rparr>)" "length (rs_data r) = 1024"
proof (cases "p ! 3 = RMCP_CLASS_IPMI")
  case False
  then have "lan_look st = lan_next_packet (st\<lparr>ln_rsp := ln_rsp st\<rparr>)"
    using assms(3) lan_holds_nth [OF assms(2), of 3] by (simp add: lan_look_def lan_foreign_def Let_def)
  then show thesis
    using that [of "ln_rsp st"] assms(2) by (simp add: lan_holds_def)
next
  case True
  let ?s = "ln_ssn st" and ?h = "lan_session_header (ln_rsp st)"
  have f: "lan_at ?s p + 8 \<le> length p" "of_le32 (drop 9 p) \<noteq> ls_session_id ?s + 0x10000000"
    "(drop_bit 2 (p ! (lan_at ?s p + 5)), p ! (lan_at ?s p + 6)) \<noteq> (sq, cm)"
    using assms(3) True by (auto simp: lan_foreign_def RMCP_CLASS_ASF_def RMCP_CLASS_IPMI_def)
  have len: "13 \<le> length p"
    using f(1) by (simp add: lan_at_def split: if_splits)
  then have h: "lan_holds ?h p" "rs_authtype ?h = p ! 4" "rs_id ?h = of_le32 (drop 9 p)" "rs_data (ln_rsp st) ! 3 = p ! 3"
    using assms(2) lan_holds_nth [OF assms(2)] lan_holds_le32 [OF assms(2), of 9] by (simp_all add: lan_holds_def)
  obtain r where r: "lan_read_ipmi ?s ?h = (r, lan_at ?s p + 8)" "rs_data r = rs_data ?h" "rs_data_len r = rs_data_len ?h"
    "rs_data ?h ! (lan_at ?s p + 5) = p ! (lan_at ?s p + 5)" "rs_data ?h ! (lan_at ?s p + 6) = p ! (lan_at ?s p + 6)"
    by (rule lan_read_ipmi_holds [OF h(1,2) f(1)])
  have "\<forall>sq' cm'. (sq', cm') \<noteq> (sq, cm) \<longrightarrow> ipmi_req_lookup_entry sq' cm' (ln_reqs st) = Inr None"
    by (rule lan_waits_lookup [OF assms(1)])
  then have none: "ipmi_req_lookup_entry (drop_bit 2 (p ! (lan_at ?s p + 5))) (p ! (lan_at ?s p + 6)) (ln_reqs st) = Inr None"
    using f(3) by blast
  have at_sq: "rs_data ?h ! (5 + lan_at ?s p) = p ! (5 + lan_at ?s p)" and at_cm: "rs_data ?h ! (6 + lan_at ?s p) = p ! (6 + lan_at ?s p)"
    using r(4,5) by (simp_all only: add.commute)
  have "lan_look st = lan_look_ipmi (st\<lparr>ln_rsp := ?h\<rparr>)"
    using True f(2) h(3,4) by (simp add: lan_look_def Let_def RMCP_CLASS_ASF_def RMCP_CLASS_IPMI_def del: lan_session_header_simps)
  also have "\<dots> = lan_next_packet (st\<lparr>ln_rsp := r\<rparr>)"
    using r none [unfolded add.commute [of "lan_at ?s p"]] at_sq at_cm by (simp add: lan_look_ipmi_def Let_def)
  finally show thesis
    using that r(2) h(1) by (simp add: lan_holds_def)
qed

section \<open>The answer\<close>

text \<open>
  The response of a BMC: \<open>hdr\<close> holds authentication type, sequence number and session id, \<open>code\<close> the
  authentication code.
\<close>

definition lan_reply :: "byte \<Rightarrow> byte \<Rightarrow> byte \<Rightarrow> byte \<Rightarrow> bytes \<Rightarrow> bytes" where
  "lan_reply nf sq cm cc d = ipmb_head IPMI_REMOTE_SWID nf @ close_csum ([IPMI_BMC_SLAVE_ADDR, push_bit 2 sq, cm, cc] @ d)"

definition lan_answer :: "bytes \<Rightarrow> bytes \<Rightarrow> bytes \<Rightarrow> bytes" where
  "lan_answer hdr code m = [0x06, 0x00, 0xFF, RMCP_CLASS_IPMI] @ hdr @ code @ [of_nat (length m)] @ m"

text \<open>It has a code when the session is active and either side says so; what the code is does not matter.\<close>

definition lan_header_for :: "lan_session \<Rightarrow> bytes \<Rightarrow> bytes \<Rightarrow> bool" where
  "lan_header_for s hdr code \<longleftrightarrow> length hdr = 9 \<and> of_le32 (drop 5 hdr) \<noteq> ls_session_id s + 0x10000000
     \<and> length code = (if ls_active s \<and> (hdr ! 0 \<noteq> 0 \<or> ls_authtype s \<noteq> 0) then 16 else 0)"

lemma lan_answer_parts:
  assumes "lan_header_for s hdr code" "p = lan_answer hdr code (lan_reply nf sq cm cc d)"
  shows "length p = lan_at s p + 9 + length d" "p ! 3 = RMCP_CLASS_IPMI" "p ! 4 = hdr ! 0" "of_le32 (drop 9 p) = of_le32 (drop 5 hdr)"
    "p ! (lan_at s p + 5) = push_bit 2 sq" "p ! (lan_at s p + 6) = cm" "p ! (lan_at s p + 7) = cc"
    "region p (lan_at s p + 8) (length d) = d"
proof -
  define pre where "pre = [0x06, 0x00, 0xFF, RMCP_CLASS_IPMI] @ hdr @ code"
  define n where "n = length (lan_reply nf sq cm cc d)"
  have p: "p = pre @ (of_nat n # lan_reply nf sq cm cc d)"
    by (simp add: assms(2) lan_answer_def pre_def n_def)
  obtain h hs where hdr: "hdr = h # hs" "length hs = 8"
    using assms(1) by (cases hdr) (auto simp: lan_header_for_def)
  show p4: "p ! 4 = hdr ! 0" and "p ! 3 = RMCP_CLASS_IPMI"
    by (simp_all add: p pre_def hdr)
  have at: "lan_at s p = length pre"
    using assms(1) p4 by (auto simp: lan_at_def pre_def lan_header_for_def)
  have "drop 9 p = drop 5 hdr @ code @ (of_nat n # lan_reply nf sq cm cc d)"
    using hdr by (simp add: p pre_def)
  moreover have "length (drop 5 hdr) = 4"
    using hdr by simp
  ultimately show "of_le32 (drop 9 p) = of_le32 (drop 5 hdr)"
    by (subst (1 2) of_le32_nth) (simp add: nth_append)
  have "length p = length pre + 9 + length d" "p ! (length pre + 5) = push_bit 2 sq" "p ! (length pre + 6) = cm"
    "p ! (length pre + 7) = cc" "region p (length pre + 8) (length d) = d"
    unfolding p by (simp_all add: nth_append lan_reply_def ipmb_head_def close_csum_def region_def)
  then show "length p = lan_at s p + 9 + length d" "p ! (lan_at s p + 5) = push_bit 2 sq" "p ! (lan_at s p + 6) = cm"
    "p ! (lan_at s p + 7) = cc" "region p (lan_at s p + 8) (length d) = d"
    by (simp_all only: at)
qed

lemma lan_look_answer:
  assumes "lan_waits sq cm st" "lan_holds (ln_rsp st) p" "p = lan_answer hdr code (lan_reply nf sq cm cc d)"
    "lan_header_for (ln_ssn st) hdr code" "sq < 64"
  obtains r t where "lan_look st = Inr (LnTaken (length p - length d - 1), st\<lparr>ln_rsp := r, ln_reqs := t\<rparr>)" "lan_holds r p"
    "rs_ccode r = cc" "rs_payloadtype r = IPMI_PAYLOAD_TYPE_IPMI" "table_ok t" "pending t = []"
proof -
  let ?s = "ln_ssn st" and ?h = "lan_session_header (ln_rsp st)"
  note parts = lan_answer_parts [OF assms(4,3)]
  have at: "13 \<le> lan_at ?s p"
    by (simp add: lan_at_def)
  then have h: "lan_holds ?h p" "rs_authtype ?h = p ! 4" "rs_id ?h = of_le32 (drop 9 p)" "rs_data (ln_rsp st) ! 3 = p ! 3"
    using assms(2) parts(1) lan_holds_nth [OF assms(2)] lan_holds_le32 [OF assms(2), of 9] by (simp_all add: lan_holds_def)
  have len: "lan_at ?s p + 8 \<le> length p"
    using parts(1) by simp
  obtain r where r: "lan_read_ipmi ?s ?h = (r, lan_at ?s p + 8)" "rs_data r = rs_data ?h" "rs_data_len r = rs_data_len ?h"
    "rs_payloadtype r = IPMI_PAYLOAD_TYPE_IPMI" "rs_ccode r = p ! (lan_at ?s p + 7)"
    "rs_data ?h ! (lan_at ?s p + 5) = p ! (lan_at ?s p + 5)" "rs_data ?h ! (lan_at ?s p + 6) = p ! (lan_at ?s p + 6)"
    by (rule lan_read_ipmi_holds [OF h(1,2) len])
  obtain a e where e: "ipmi_req_lookup_entry sq cm (ln_reqs st) = Inr (Some a)" "deref (ln_reqs st) (Some a) = Inr e"
    "e_bridging e = 0" "\<exists>t. ipmi_req_remove_entry sq cm (ln_reqs st) = Inr t \<and> table_ok t \<and> pending t = []"
    by (rule lan_waits_lookup [OF assms(1)])
  then obtain t where t: "ipmi_req_remove_entry sq cm (ln_reqs st) = Inr t" "table_ok t" "pending t = []"
    by blast
  have at_sq: "rs_data ?h ! (5 + lan_at ?s p) = push_bit 2 sq" and at_cm: "rs_data ?h ! (6 + lan_at ?s p) = cm"
    using r(6,7) by (simp_all only: parts(5,6) add.commute)
  have "lan_look st = lan_look_ipmi (st\<lparr>ln_rsp := ?h\<rparr>)"
    using parts(2,4) h(3,4) assms(4)
    by (simp add: lan_look_def Let_def RMCP_CLASS_ASF_def RMCP_CLASS_IPMI_def lan_header_for_def del: lan_session_header_simps)
  also have "\<dots> = Inr (LnTaken (lan_at ?s p + 8), st\<lparr>ln_rsp := r, ln_reqs := t\<rparr>)"
    using r(1,2) at_sq at_cm seq_shift [OF assms(5)] e(1-3) t(1)
    by (simp add: lan_look_ipmi_def Let_def lan_passed_on_def)
  finally show thesis
    using that [where r = r and t = t] r h(1) t parts(1,7) by (simp add: lan_holds_def)
qed

lemma lan_shift_answer:
  assumes "lan_holds r p" "rs_payloadtype r = IPMI_PAYLOAD_TYPE_IPMI" "length d < length p" "x = length p - length d - 1"
    "region p x (length d) = d"
  shows "length (rs_data (lan_shift x r)) = 1024 \<and> rs_data_len (lan_shift x r) = int (length d)
    \<and> take (length d) (rs_data (lan_shift x r)) = d \<and> rs_ccode (lan_shift x r) = rs_ccode r"
proof -
  have lens: "length (rs_data r) = 1024" "length p < 1024" "rs_data_len r = int (length p)" "take (length p) (rs_data r) = p"
    using assms(1) by (simp_all add: lan_holds_def)
  have x: "x < length p" "nat (rs_data_len r) - x - 1 = length d" "x + length d \<le> length p"
    using assms(3,4) lens(3) by auto
  have "region (rs_data r) x (length d) = region (take (length p) (rs_data r)) x (length d)"
    using x(3) by (simp add: region_def drop_take min_def)
  then have reg: "region (rs_data r) x (length d) = d"
    using lens(4) assms(5) by simp
  have sh: "lan_shift x r = r\<lparr>rs_data := put_at (move_front (rs_data r) x (length d)) (length d) (replicate (1024 - length d) 0),
      rs_data_len := int (length d)\<rparr>"
    using x lens(3) assms(2) by (simp add: lan_shift_def IPMI_BUF_SIZE_def Let_def)
  show ?thesis
    using x lens(1,2) reg by (simp add: sh move_front_def take_put_at) (simp add: put_at_def)
qed

section \<open>Polling\<close>

lemma lan_waits_rsp: "lan_waits sq cm st \<Longrightarrow> length (rs_data r) = 1024 \<Longrightarrow> lan_waits sq cm (st\<lparr>ln_rsp := r, ln_net := n\<rparr>)"
  by (simp add: lan_waits_def)

text \<open>Foreign packets before the answer are skipped.\<close>

lemma lan_loop_answer:
  assumes "p = lan_answer hdr code (lan_reply nf sq cm cc d)" "lan_header_for s hdr code" "sq < 64" "length p < 1024"
    and "\<forall>x \<in> set ns. lan_foreign s sq cm x"
    and "lan_waits sq cm st" "ln_ssn st = s" "lan_holds (ln_rsp st) q" "q # ps = ns @ [p]" "ln_net st = map NetPkt ps @ rest"
  shows "\<exists>r t. lan_poll_loop st = Inr (LnTaken (length p - length d - 1), st\<lparr>ln_rsp := r, ln_reqs := t, ln_net := rest\<rparr>)
    \<and> lan_holds r p \<and> rs_ccode r = cc \<and> rs_payloadtype r = IPMI_PAYLOAD_TYPE_IPMI \<and> table_ok t \<and> pending t = []"
  using assms(5-)
proof (induction ns arbitrary: st q ps)
  case Nil
  then have q: "q = p" "ps = []"
    by simp_all
  obtain r t where "lan_look st = Inr (LnTaken (length p - length d - 1), st\<lparr>ln_rsp := r, ln_reqs := t\<rparr>)" "lan_holds r p"
    "rs_ccode r = cc" "rs_payloadtype r = IPMI_PAYLOAD_TYPE_IPMI" "table_ok t" "pending t = []"
    by (rule lan_look_answer [OF Nil.prems(2) Nil.prems(4) [unfolded q] assms(1) _ assms(3)])
      (use assms(2) Nil.prems in simp)
  then show ?case
    using Nil.prems(6) q by (subst lan_poll_loop.simps) (intro exI [of _ r] exI [of _ t], simp)
next
  case (Cons x ns)
  have q: "q = x" "ps = ns @ [p]"
    using Cons.prems(5) by simp_all
  obtain r where r: "lan_look st = lan_next_packet (st\<lparr>ln_rsp := r\<rparr>)" "length (rs_data r) = 1024"
    by (rule lan_look_foreign [OF Cons.prems(2) Cons.prems(4)]) (use Cons.prems(1,3) q in simp)
  obtain y ps' where ys: "ps = y # ps'" "length y < 1024" "y \<noteq> []"
  proof (cases ns)
    case Nil
    then show ?thesis
      using that [of p "[]"] q assms(1,4) by (simp add: lan_answer_def)
  next
    case (Cons y zs)
    then show ?thesis
      using that [of y "zs @ [p]"] q Cons.prems(1) lan_foreign_len [of s sq cm y] by simp
  qed
  let ?st = "st\<lparr>ln_rsp := r\<rparr>"
  obtain r' where r': "lan_recv_packet ?st = Inr (True, ?st\<lparr>ln_net := map NetPkt ps' @ rest, ln_rsp := r'\<rparr>)" "lan_holds r' y"
    by (rule lan_recv_pkt [of ?st y "map NetPkt ps' @ rest"]) (use ys r Cons.prems(6) in simp_all)
  define st1 where "st1 = st\<lparr>ln_rsp := r', ln_net := map NetPkt ps' @ rest\<rparr>"
  have st1: "lan_look st = Inr (LnGo, st1)"
    using r r' by (simp add: lan_next_packet_def st1_def)
  have "length (rs_data r') = 1024"
    using r'(2) by (simp add: lan_holds_def)
  then have "\<exists>r t. lan_poll_loop st1 = Inr (LnTaken (length p - length d - 1), st1\<lparr>ln_rsp := r, ln_reqs := t, ln_net := rest\<rparr>)
    \<and> lan_holds r p \<and> rs_ccode r = cc \<and> rs_payloadtype r = IPMI_PAYLOAD_TYPE_IPMI \<and> table_ok t \<and> pending t = []"
    using Cons.prems ys q r'(2)
    by (intro Cons.IH [of st1 y ps']) (simp_all add: st1_def lan_waits_rsp)
  moreover have "lan_poll_loop st = lan_poll_loop st1"
    using st1 by (subst lan_poll_loop.simps) simp
  ultimately show ?case
    by (simp add: st1_def)
qed

lemma lan_poll_answer:
  assumes "p = lan_answer hdr code (lan_reply nf sq cm cc d)" "lan_header_for (ln_ssn st) hdr code" "sq < 64" "length p < 1024"
    and "\<forall>x \<in> set ns. lan_foreign (ln_ssn st) sq cm x"
    and "lan_waits sq cm st" "ln_net st = map NetPkt (ns @ [p]) @ rest"
  shows "\<exists>r t. lan_poll_recv st = Inr (True, st\<lparr>ln_rsp := r, ln_reqs := t, ln_net := rest\<rparr>)
    \<and> length (rs_data r) = 1024 \<and> rs_ccode r = cc \<and> rs_data_len r = int (length d) \<and> take (length d) (rs_data r) = d
    \<and> table_ok t \<and> pending t = []"
proof -
  obtain q ps where qs: "ns @ [p] = q # ps"
    by (cases ns) auto
  have "q \<in> set (ns @ [p])"
    by (simp add: qs)
  then have q: "length q < 1024" "q \<noteq> []"
    using assms(1,4,5) lan_foreign_len [of "ln_ssn st" sq cm q] by (auto simp: lan_answer_def)
  have len: "length (rs_data (ln_rsp st)) = 1024"
    using assms(6) by (simp add: lan_waits_def)
  obtain r0 where r0: "lan_recv_packet st = Inr (True, st\<lparr>ln_net := map NetPkt ps @ rest, ln_rsp := r0\<rparr>)" "lan_holds r0 q"
    by (rule lan_recv_pkt [OF len q(2,1), of "map NetPkt ps @ rest"]) (use assms(7) qs in simp_all)
  let ?st = "st\<lparr>ln_net := map NetPkt ps @ rest, ln_rsp := r0\<rparr>"
  have w: "lan_waits sq cm ?st"
    using assms(6) r0(2) by (simp add: lan_waits_def lan_holds_def)
  obtain r t where rt: "lan_poll_loop ?st = Inr (LnTaken (length p - length d - 1), ?st\<lparr>ln_rsp := r, ln_reqs := t, ln_net := rest\<rparr>)"
    "lan_holds r p" "rs_ccode r = cc" "rs_payloadtype r = IPMI_PAYLOAD_TYPE_IPMI" "table_ok t" "pending t = []"
    using lan_loop_answer [OF assms(1-5) w _ _ qs [symmetric], of rest] r0(2) by auto
  note parts = lan_answer_parts [OF assms(2,1)]
  have sh: "length (rs_data (lan_shift (length p - length d - 1) r)) = 1024 \<and> rs_data_len (lan_shift (length p - length d - 1) r) = int (length d)
    \<and> take (length d) (rs_data (lan_shift (length p - length d - 1) r)) = d \<and> rs_ccode (lan_shift (length p - length d - 1) r) = rs_ccode r"
    using parts(1,8) by (intro lan_shift_answer [OF rt(2,4)]) (simp_all add: add.commute)
  show ?thesis
    using r0(1) rt sh
    by (intro exI [of _ "lan_shift (length p - length d - 1) r"] exI [of _ t]) (simp add: lan_poll_recv_def)
qed

text \<open>Foreign packets until the time is up: there is no response, and the request still waits.\<close>

lemma lan_loop_silent:
  assumes "\<forall>x \<in> set (q # ps). lan_foreign s sq cm x"
    and "lan_waits sq cm st" "ln_ssn st = s" "lan_holds (ln_rsp st) q" "ln_net st = map NetPkt ps @ NetNone # rest"
  shows "\<exists>r. lan_poll_loop st = Inr (LnNull, st\<lparr>ln_rsp := r, ln_net := rest\<rparr>) \<and> length (rs_data r) = 1024"
  using assms
proof (induction ps arbitrary: st q)
  case Nil
  obtain r where "lan_look st = lan_next_packet (st\<lparr>ln_rsp := r\<rparr>)" "length (rs_data r) = 1024"
    by (rule lan_look_foreign [OF Nil(2,4)]) (use Nil in simp)
  then show ?case
    using Nil(5) by (subst lan_poll_loop.simps) (auto simp: lan_next_packet_def lan_recv_packet_def)
next
  case (Cons y ps)
  obtain r where r: "lan_look st = lan_next_packet (st\<lparr>ln_rsp := r\<rparr>)" "length (rs_data r) = 1024"
    by (rule lan_look_foreign [OF Cons.prems(2,4)]) (use Cons.prems in simp)
  let ?st = "st\<lparr>ln_rsp := r\<rparr>"
  obtain r' where r': "lan_recv_packet ?st = Inr (True, ?st\<lparr>ln_net := map NetPkt ps @ NetNone # rest, ln_rsp := r'\<rparr>)" "lan_holds r' y"
    by (rule lan_recv_pkt [of ?st y "map NetPkt ps @ NetNone # rest"]) (use r Cons.prems lan_foreign_len [of s sq cm y] in simp_all)
  define st1 where "st1 = st\<lparr>ln_rsp := r', ln_net := map NetPkt ps @ NetNone # rest\<rparr>"
  have st1: "lan_look st = Inr (LnGo, st1)"
    using r r' by (simp add: lan_next_packet_def st1_def)
  have "length (rs_data r') = 1024"
    using r'(2) by (simp add: lan_holds_def)
  then have "\<exists>r. lan_poll_loop st1 = Inr (LnNull, st1\<lparr>ln_rsp := r, ln_net := rest\<rparr>) \<and> length (rs_data r) = 1024"
    using Cons.prems r'(2) by (intro Cons.IH [of y st1]) (simp_all add: st1_def lan_waits_rsp)
  moreover have "lan_poll_loop st = lan_poll_loop st1"
    using st1 by (subst lan_poll_loop.simps) simp
  ultimately show ?case
    by (simp add: st1_def)
qed

lemma lan_poll_silent:
  assumes "\<forall>x \<in> set ns. lan_foreign (ln_ssn st) sq cm x" "lan_waits sq cm st" "ln_net st = map NetPkt ns @ NetNone # rest"
  shows "\<exists>r. lan_poll_recv st = Inr (False, st\<lparr>ln_rsp := r, ln_net := rest\<rparr>) \<and> length (rs_data r) = 1024"
proof (cases ns)
  case Nil
  then show ?thesis
    using assms(2,3)
    by (intro exI [of _ "ln_rsp st"]) (simp add: lan_poll_recv_def lan_recv_packet_def lan_waits_def)
next
  case (Cons q ps)
  have len: "length (rs_data (ln_rsp st)) = 1024"
    using assms(2) by (simp add: lan_waits_def)
  obtain r0 where r0: "lan_recv_packet st = Inr (True, st\<lparr>ln_net := map NetPkt ps @ NetNone # rest, ln_rsp := r0\<rparr>)" "lan_holds r0 q"
    by (rule lan_recv_pkt [OF len, of q "map NetPkt ps @ NetNone # rest"]) (use assms(1,3) Cons lan_foreign_len [of "ln_ssn st" sq cm q] in simp_all)
  let ?st = "st\<lparr>ln_net := map NetPkt ps @ NetNone # rest, ln_rsp := r0\<rparr>"
  have "lan_waits sq cm ?st"
    using assms(2) r0(2) by (simp add: lan_waits_def lan_holds_def)
  then have "\<exists>r. lan_poll_loop ?st = Inr (LnNull, ?st\<lparr>ln_rsp := r, ln_net := rest\<rparr>) \<and> length (rs_data r) = 1024"
    using assms(1) Cons r0(2) by (intro lan_loop_silent [of q ps "ln_ssn st" sq cm]) simp_all
  then show ?thesis
    using r0(1) by (auto simp: lan_poll_recv_def)
qed

end
