(* ===== verification/LanSend.thy ===== *)
theory LanSend
  imports LanPoll Sendrecv
begin

text \<open>
  Sending in the LAN 1.5 transport (\<open>src/plugins/lan/lan.c\<close>): commands with their retries, and Serial
  over LAN packets. A call of \<open>send\<close> that fails is repeated without counting the attempts, so the loops
  may run forever; they are given a number of rounds. Memory is available.
\<close>

definition on_lan_ssn :: "(lan_session \<Rightarrow> lan_session) \<Rightarrow> lan_state \<Rightarrow> lan_state" where
  "on_lan_ssn f st = st\<lparr>ln_ssn := f (ln_ssn st)\<rparr>"

section \<open>The environment\<close>

definition lan_send_packet :: "bytes \<Rightarrow> lan_state \<Rightarrow> bool \<times> lan_state" where
  "lan_send_packet m st =
     (let ok = ln_up st (ln_sends st) in
      (ok, st\<lparr>ln_sends := ln_sends st + 1, ln_sent := (if ok then ln_sent st @ [m] else ln_sent st)\<rparr>))"

definition lan_random :: "lan_state \<Rightarrow> bytes \<times> lan_state" where
  "lan_random st = (if ln_rand st = [] then replicate 4 0 else hd (ln_rand st), st\<lparr>ln_rand := tl (ln_rand st)\<rparr>)"

section \<open>Presence\<close>

definition lan_ping_packet :: bytes where
  "lan_ping_packet = [0x06, 0, 0xFF, 0x06] @ [0, 0, 0x11, 0xBE, 0x80, 0, 0, 0]"

text \<open>The result is -1, 0 without a pong, or 1.\<close>

definition ipmi_lan_ping :: "lan_state \<Rightarrow> (int \<times> lan_state) outcome" where
  "ipmi_lan_ping st =
     (let (ok, st1) = lan_send_packet lan_ping_packet st in
      if \<not> ok then Inr (-1, st1)
      else bind_ok (lan_poll_recv st1) (\<lambda>(got, st2). Inr (if got then 1 else 0, st2)))"

definition ipmi_lan_thump_first :: "lan_state \<Rightarrow> lan_state" where
  "ipmi_lan_thump_first st =
     snd (lan_send_packet [0, 0, 0, 0, 0, 0, 0, 0, 0x07, 0x20, 0x18, 0xc8, 0xc2, 0x01, 0x01, 0x3c] st)"

definition ipmi_lan_thump :: "lan_state \<Rightarrow> lan_state" where
  "ipmi_lan_thump st = snd (lan_send_packet [0x74, 0x68, 0x75, 0x6d, 0x70, 0, 0, 0, 0, 0] st)"

section \<open>Commands\<close>

text \<open>The number of a command: a retry keeps it, and 63 is followed by 0.\<close>

definition lan_next_seq :: "bool \<Rightarrow> byte \<Rightarrow> byte" where
  "lan_next_seq isRetry sq = (let n = (if isRetry then sq else sq + 1) in if 64 \<le> n then 0 else n)"

text \<open>The entry of a request: the one with its number and command when there is one, and a new one else.\<close>

definition lan_entry :: "ipmi_rq \<Rightarrow> byte \<Rightarrow> rq_table \<Rightarrow> (nat \<times> rq_entry \<times> rq_table) outcome" where
  "lan_entry req sq t =
     bind_ok (ipmi_req_lookup_entry sq (rq_cmd req) t) (\<lambda>found.
       bind_ok (case found of None \<Rightarrow> ipmi_req_add_entry req sq t | Some a \<Rightarrow> Inr (a, t)) (\<lambda>(a, t').
         bind_ok (deref t' (Some a)) (\<lambda>e. Inr (a, e\<lparr>e_msg := None\<rparr>, t'))))"

text \<open>A bridged request waits for the Send Message command first.\<close>

definition lan_bridge_entry :: "nat \<Rightarrow> rq_entry \<Rightarrow> rq_entry" where
  "lan_bridge_entry b e =
     (if b = 0 then e\<lparr>e_bridging := 0\<rparr>
      else e\<lparr>e_bridging := b, e_req := (e_req e)\<lparr>rq_target_cmd := rq_cmd (e_req e), rq_cmd := 0x34\<rparr>\<rparr>)"

definition ipmi_lan_build_cmd :: "digest2 \<Rightarrow> ipmi_rq \<Rightarrow> bool \<Rightarrow> lan_state \<Rightarrow> (nat \<times> bytes \<times> lan_state) outcome" where
  "ipmi_lan_build_cmd md2 req isRetry st =
     (let sq = lan_next_seq isRetry (ln_curr_seq st) in
      bind_ok (lan_entry req sq (ln_reqs st)) (\<lambda>(a, e, t).
        let e1 = lan_bridge_entry (lan_bridging (ln_bridge st) (ln_intf st)) e;
            m = lan_packet md2 (ln_bridge st) (ln_intf st) (ln_ssn st) req sq
        in Inr (a, m, (on_lan_ssn lan_used_seq st)\<lparr>ln_curr_seq := sq,
                 ln_reqs := set_entry a (e1\<lparr>e_rq_seq := sq, e_msg := Some m\<rparr>) t\<rparr>)))"

text \<open>Waiting for the response; one with the code of a duplicate request is skipped once.\<close>

definition lan_await :: "lan_state \<Rightarrow> (bool \<times> lan_state) outcome" where
  "lan_await st =
     bind_ok (lan_poll_recv st) (\<lambda>(got, st1).
       if got \<and> rs_ccode (ln_rsp st1) = 0xCF then lan_poll_recv st1 else Inr (got, st1))"

text \<open>
  The loop, \<open>tries\<close> attempts made. After a failure of \<open>send\<close> it removes the request with the number and the
  target command of the entry, and goes on whatever the number of attempts.
\<close>

fun lan_send_rounds :: "nat \<Rightarrow> digest2 \<Rightarrow> ipmi_rq \<Rightarrow> int \<Rightarrow> lan_state \<Rightarrow> (bool \<times> lan_state) outcome" where
  "lan_send_rounds 0 md2 req tries st = Inl Unfinished"
| "lan_send_rounds (Suc k) md2 req tries st =
     bind_ok (ipmi_lan_build_cmd md2 req (0 < tries) st) (\<lambda>(a, m, st1).
       let (ok, st2) = lan_send_packet m st1 in
       if \<not> ok then
         bind_ok (deref (ln_reqs st2) (Some a)) (\<lambda>e.
         bind_ok (ipmi_req_remove_entry (e_rq_seq e) (rq_target_cmd (e_req e)) (ln_reqs st2)) (\<lambda>t.
           lan_send_rounds k md2 req (tries + 1) (st2\<lparr>ln_reqs := t\<rparr>)))
       else if noanswer (ln_intf st2) then Inr (False, st2)
       else
         bind_ok (lan_await (if ipmi_oem_active (ln_intf st2) ''intelwv2'' then ipmi_lan_thump st2 else st2)) (\<lambda>(got, st3).
           if got then Inr (True, st3)
           else if retry (ssn_params (ln_intf st3)) \<le> tries + 1 then Inr (False, st3)
           else lan_send_rounds k md2 req (tries + 1) st3))"

text \<open>The interface is open; all pending requests are dropped at the end.\<close>

definition lan_command :: "nat \<Rightarrow> digest2 \<Rightarrow> lan_state sendrecv" where
  "lan_command k md2 req st =
     bind_ok (lan_send_rounds k md2 req 0 st) (\<lambda>(got, st').
     bind_ok (ipmi_req_clear_entries (ln_reqs st')) (\<lambda>t.
       Inr (if got then Some (ln_rsp st') else None, st'\<lparr>ln_reqs := t\<rparr>)))"

section \<open>Serial over LAN\<close>

definition lan_is_sol_packet :: "ipmi_rs \<Rightarrow> bool" where
  "lan_is_sol_packet rsp \<longleftrightarrow> rs_payloadtype rsp = IPMI_PAYLOAD_TYPE_SOL"

definition lan_sol_acks_packet :: "ipmi_rs \<Rightarrow> sol_tx \<Rightarrow> bool outcome" where
  "lan_sol_acks_packet rsp tx =
     (if lan_is_sol_packet rsp then bind_ok (sol_packet rsp) (\<lambda>s. Inr (sp_acked s = tx_seq tx)) else Inr False)"

definition lan_sol_input :: "lan_state \<Rightarrow> lan_state" where
  "lan_sol_input st = st\<lparr>ln_console := ln_console st @ [take (nat (rs_data_len (ln_rsp st))) (rs_data (ln_rsp st))]\<rparr>"

text \<open>
  The loop of \<open>ipmi_lan_send_sol_payload\<close>; \<open>sol\<close> is \<open>ipmi_lan_recv_sol\<close> and \<open>rsp\<close> says whether the
  variable holds a response.
\<close>

fun lan_sol_rounds :: "nat \<Rightarrow> (lan_state \<Rightarrow> (bool \<times> lan_state) outcome) \<Rightarrow> bytes \<Rightarrow> sol_tx \<Rightarrow> int \<Rightarrow> bool \<Rightarrow> lan_state
    \<Rightarrow> (bool \<times> lan_state) outcome" where
  "lan_sol_rounds 0 sol m tx tries rsp st = Inl Unfinished"
| "lan_sol_rounds (Suc k) sol m tx tries rsp st =
     (let (ok, st1) = lan_send_packet m st in
      if \<not> ok then lan_sol_rounds k sol m tx (tries + 1) rsp st1
      else if noanswer (ln_intf st1) \<or> tx_seq tx = 0 then Inr (rsp, st1)
      else bind_ok (sol st1) (\<lambda>(got, st2).
        bind_ok (if got then lan_sol_acks_packet (ln_rsp st2) tx else Inr False) (\<lambda>acks.
          if acks then Inr (True, st2)
          else
            let st3 = (if got \<and> lan_is_sol_packet (ln_rsp st2) \<and> rs_data_len (ln_rsp st2) \<noteq> 0
                       then lan_sol_input st2 else st2)
            in if retry (ssn_params (ln_intf st3)) \<le> tries + 1 then Inr (got, st3)
               else lan_sol_rounds k sol m tx (tries + 1) got st3)))"

definition lan_send_sol_payload :: "nat \<Rightarrow> (lan_state \<Rightarrow> (bool \<times> lan_state) outcome) \<Rightarrow> sol_tx \<Rightarrow> lan_state
    \<Rightarrow> (bool \<times> lan_state) outcome" where
  "lan_send_sol_payload k sol tx st =
     (let (m, s) = ipmi_lan_build_sol_msg (ln_ssn st) tx in lan_sol_rounds k sol m tx 0 False (st\<lparr>ln_ssn := s\<rparr>))"

text \<open>The acknowledgement says how many characters came; it does not wait, so it does not receive.\<close>

definition lan_ack :: "byte \<Rightarrow> int \<Rightarrow> sol_tx" where
  "lan_ack sq n = \<lparr>tx_data = [], tx_seq = 0, tx_acked = sq, tx_accepted = word_of_int n, tx_is_nack = False,
     tx_ring = False, tx_break = False, tx_cts = False, tx_dcd = False, tx_flush_in = False, tx_flush_out = False\<rparr>"

definition lan_ack_sol_packet :: "nat \<Rightarrow> lan_state \<Rightarrow> lan_state outcome" where
  "lan_ack_sol_packet k st =
     (if lan_is_sol_packet (ln_rsp st) then
        bind_ok (sol_packet (ln_rsp st)) (\<lambda>s.
          if sp_seq s \<noteq> 0 then
            bind_ok (lan_send_sol_payload k (\<lambda>_. Inl Dangling) (lan_ack (sp_seq s) (rs_data_len (ln_rsp st))) st)
              (\<lambda>(_, st'). Inr st')
          else Inr st)
      else Inr st)"

definition lan_check_sol_packet :: "lan_state \<Rightarrow> (int \<times> lan_state) outcome" where
  "lan_check_sol_packet st =
     (let rsp = ln_rsp st in
      if lan_is_sol_packet rsp then
        bind_ok (sol_packet rsp) (\<lambda>s.
          let repeated = (sp_seq s = ln_sol_seq st);
              n = (if repeated then rs_data_len rsp - int (unat (ln_sol_count st)) else 0);
              rsp1 = (if repeated
                then rsp\<lparr>rs_data := (if n > 0 then move_front (rs_data rsp) (nat (rs_data_len rsp - n)) (nat n)
                                    else rs_data rsp), rs_data_len := n\<rparr>
                else rsp)
          in Inr (n, if sp_seq s \<noteq> 0
               then st\<lparr>ln_rsp := rsp1, ln_sol_seq := sp_seq s, ln_sol_count := word_of_int (rs_data_len rsp)\<rparr>
               else st\<lparr>ln_rsp := rsp1\<rparr>))
      else Inr (0, st))"

definition lan_recv_sol :: "nat \<Rightarrow> lan_state \<Rightarrow> (bool \<times> lan_state) outcome" where
  "lan_recv_sol k st =
     bind_ok (lan_poll_recv st) (\<lambda>(got, st1).
       if got then
         bind_ok (lan_ack_sol_packet k st1) (\<lambda>st2.
         bind_ok (lan_check_sol_packet st2) (\<lambda>(n, st3). Inr (True, st3)))
       else Inr (False, st1))"

text \<open>The characters to send again: none when none was accepted.\<close>

definition lan_sol_partial_ack :: "sol_tx \<Rightarrow> bool \<Rightarrow> ipmi_rs \<Rightarrow> nat outcome" where
  "lan_sol_partial_ack tx got rsp =
     (if got \<and> lan_is_sol_packet rsp then
        bind_ok (lan_sol_acks_packet rsp tx) (\<lambda>acks. bind_ok (sol_packet rsp) (\<lambda>s. Inr (
          if acks \<and> unat (sp_accepted s) < length (tx_data tx) \<and> sp_accepted s \<noteq> 0
          then length (tx_data tx) - unat (sp_accepted s) else 0)))
      else Inr 0)"

definition lan_sol_number :: "lan_session \<Rightarrow> sol_tx \<Rightarrow> lan_session \<times> sol_tx" where
  "lan_sol_number s tx =
     (let n = (if 0x0F < ls_sol_sequence s then 1 else ls_sol_sequence s)
      in (s\<lparr>ls_sol_sequence := n + 1\<rparr>, tx\<lparr>tx_seq := n\<rparr>))"

definition lan_sol_round :: "nat \<Rightarrow> sol_tx \<Rightarrow> lan_state \<Rightarrow> (bool \<times> sol_tx \<times> nat \<times> lan_state) outcome" where
  "lan_sol_round k tx st =
     (let (s, tx1) = lan_sol_number (ln_ssn st) tx in
      bind_ok (lan_send_sol_payload k (lan_recv_sol k) tx1 (st\<lparr>ln_ssn := s\<rparr>)) (\<lambda>(got, st1).
      bind_ok (lan_sol_partial_ack tx1 got (ln_rsp st1)) (\<lambda>n. Inr (got, tx1, n, st1))))"

text \<open>
  The rest is sent again as long as the BMC accepts a part: each time there are fewer characters, so
  \<open>fuel\<close> for each of them is enough.
\<close>

fun lan_sol_resend :: "nat \<Rightarrow> nat \<Rightarrow> bool \<Rightarrow> sol_tx \<Rightarrow> nat \<Rightarrow> lan_state \<Rightarrow> (bool \<times> sol_tx \<times> lan_state) outcome" where
  "lan_sol_resend fuel k got tx n st =
     (if n = 0 then Inr (got, tx, st)
      else case fuel of
        0 \<Rightarrow> Inl Unfinished
      | Suc fuel' \<Rightarrow>
          bind_ok (sol_packet (ln_rsp st)) (\<lambda>s.
            let st1 = (if rs_data_len (ln_rsp st) \<noteq> 0 then lan_sol_input st else st);
                tx1 = tx\<lparr>tx_data := region (tx_data tx) (unat (sp_accepted s)) n\<rparr>
            in bind_ok (lan_sol_round k tx1 st1) (\<lambda>(got', tx', n', st').
                 lan_sol_resend fuel' k got' tx' n' st')))"

declare lan_sol_resend.simps [simp del]

definition ipmi_lan_send_sol :: "nat \<Rightarrow> sol_tx \<Rightarrow> lan_state \<Rightarrow> (bool \<times> sol_tx \<times> lan_state) outcome" where
  "ipmi_lan_send_sol k tx st =
     bind_ok (lan_sol_round k (tx\<lparr>tx_acked := 0, tx_accepted := 0\<rparr>) st) (\<lambda>(got, tx', n, st').
       lan_sol_resend (length (tx_data tx)) k got tx' n st')"

end
