(* ===== verification/LanSession.thy ===== *)
theory LanSession
  imports LanSend Hpm2
begin

text \<open>
  The session of the LAN 1.5 transport (\<open>src/plugins/lan/lan.c\<close>): the commands that open it, with the
  choice of the authentication type, closing it and keeping it alive, and \<open>sendrecv\<close>, which opens the interface when
  it is not open. Memory is available. \<open>k\<close> is the number of rounds the sending loops are given.
\<close>

definition on_lan_intf :: "(ipmi_intf \<Rightarrow> ipmi_intf) \<Rightarrow> lan_state \<Rightarrow> lan_state" where
  "on_lan_intf f st = st\<lparr>ln_intf := f (ln_intf st)\<rparr>"

section \<open>Opening commands\<close>

text \<open>
  The authentication type: the strongest one the BMC offers of those the user allows; \<open>offered\<close> is the byte of the
  capabilities. Types other than none need a password.
\<close>

definition lan_pick_authtype :: "ipmi_session_params \<Rightarrow> byte \<Rightarrow> byte option" where
  "lan_pick_authtype p offered =
     (let ok = (\<lambda>t. (authtype_set p = 0 \<or> authtype_set p = t) \<and> bit offered (unat t)) in
      if has_password p \<and> ok IPMI_SESSION_AUTHTYPE_MD5 then Some IPMI_SESSION_AUTHTYPE_MD5
      else if has_password p \<and> ok IPMI_SESSION_AUTHTYPE_MD2 then Some IPMI_SESSION_AUTHTYPE_MD2
      else if has_password p \<and> ok IPMI_SESSION_AUTHTYPE_PASSWORD then Some IPMI_SESSION_AUTHTYPE_PASSWORD
      else if has_password p \<and> ok IPMI_SESSION_AUTHTYPE_OEM then Some IPMI_SESSION_AUTHTYPE_OEM
      else if ok IPMI_SESSION_AUTHTYPE_NONE then Some IPMI_SESSION_AUTHTYPE_NONE
      else None)"

definition lan_auth_capabilities_cmd :: "nat \<Rightarrow> digest2 \<Rightarrow> lan_state \<Rightarrow> (int \<times> lan_state) outcome" where
  "lan_auth_capabilities_cmd k md2 st =
     bind_ok (lan_command k md2 (mk_rq IPMI_NETFN_APP 0x38 [0x0E, privlvl (ssn_params (ln_intf st))]) st) (\<lambda>(r, st1).
       case r of
         None \<Rightarrow> Inr (-1, st1)
       | Some rsp \<Rightarrow>
           if rs_ccode rsp \<noteq> 0 then Inr (-1, st1)
           else
             let st2 = on_lan_ssn (\<lambda>s. s\<lparr>ls_authstatus := rs_data rsp ! 2\<rparr>) st1 in
             case lan_pick_authtype (ssn_params (ln_intf st2)) (rs_data rsp ! 1) of
               None \<Rightarrow> Inr (-1, st2)
             | Some t \<Rightarrow> Inr (0, on_lan_ssn (\<lambda>s. s\<lparr>ls_authtype := t\<rparr>) st2))"

text \<open>The temporary session id and the challenge.\<close>

definition ipmi_get_session_challenge_cmd :: "nat \<Rightarrow> digest2 \<Rightarrow> lan_state \<Rightarrow> (int \<times> lan_state) outcome" where
  "ipmi_get_session_challenge_cmd k md2 st =
     (let u = username (ssn_params (ln_intf st)) in
      bind_ok (lan_command k md2 (mk_rq IPMI_NETFN_APP 0x39 (ls_authtype (ln_ssn st) # take 16 (u @ replicate 16 0))) st) (\<lambda>(r, st1).
        case r of
          None \<Rightarrow> Inr (-1, st1)
        | Some rsp \<Rightarrow>
            if rs_ccode rsp \<noteq> 0 then Inr (-1, st1)
            else Inr (0, on_lan_ssn (\<lambda>s. s\<lparr>ls_session_id := of_le32 (rs_data rsp), ls_challenge := region (rs_data rsp) 4 16\<rparr>) st1)))"

text \<open>The session after the response to Activate Session, and whether the authentication type agrees.\<close>

definition lan_activated :: "bytes \<Rightarrow> lan_session \<Rightarrow> int \<times> lan_session" where
  "lan_activated d s =
     (let n = of_le32 (drop 5 d);
          s1 = s\<lparr>ls_session_id := of_le32 (drop 1 d), ls_in_seq := (if n = 0 then 1 else n)\<rparr>
      in if ls_authstatus s AND 0x10 \<noteq> 0 then (0, s1\<lparr>ls_authtype := IPMI_SESSION_AUTHTYPE_NONE\<rparr>)
         else if ls_authtype s \<noteq> d ! 0 AND 0xF then (-1, s1)
         else (0, s1))"

text \<open>
  The challenge goes back, or with the OEM handle of Supermicro a code made of it that also replaces the
  password. A read of fewer than four random bytes leaves indeterminate ones in the message.
\<close>

definition ipmi_activate_session_cmd :: "nat \<Rightarrow> digest2 \<Rightarrow> lan_state \<Rightarrow> (int \<times> lan_state) outcome" where
  "ipmi_activate_session_cmd k md2 st =
     (let s = ln_ssn st; special = ipmi_oem_active (ln_intf st) ''supermicro'';
          code = (if special then replicate 16 0 else ls_challenge s);
          st1 = (if special then on_lan_ssn (\<lambda>s. s\<lparr>ls_authcode := put_at (ls_authcode s) 0 (ipmi_auth_special s)\<rparr>) st else st);
          (rnd, st2) = lan_random st1
      in if length rnd < 4 then Inl Indeterminate
         else
           bind_ok (lan_command k md2 (mk_rq IPMI_NETFN_APP 0x3a
                ([ls_authtype s, privlvl (ssn_params (ln_intf st))] @ code @ take 4 rnd))
                (on_lan_ssn (\<lambda>s. s\<lparr>ls_active := True\<rparr>) st2)) (\<lambda>(r, st3).
             case r of
               None \<Rightarrow> Inr (-1, on_lan_ssn (\<lambda>s. s\<lparr>ls_active := False\<rparr>) st3)
             | Some rsp \<Rightarrow>
                 if rs_ccode rsp \<noteq> 0 then Inr (-1, st3)
                 else let (rc, s') = lan_activated (rs_data rsp) (ln_ssn st3) in Inr (rc, st3\<lparr>ln_ssn := s'\<rparr>)))"

text \<open>The interface sends this one to the BMC itself, whatever the target.\<close>

definition lan_set_session_privlvl_cmd :: "nat \<Rightarrow> digest2 \<Rightarrow> lan_state \<Rightarrow> (int \<times> lan_state) outcome" where
  "lan_set_session_privlvl_cmd k md2 st =
     (let p = privlvl (ssn_params (ln_intf st)) in
      if p \<le> 2 then Inr (0, st)
      else bind_ok (lan_command k md2 (mk_rq IPMI_NETFN_APP 0x3b [p]) (st\<lparr>ln_bridge := False\<rparr>)) (\<lambda>(r, st').
        Inr (case r of None \<Rightarrow> -1 | Some rsp \<Rightarrow> if rs_ccode rsp \<noteq> 0 then -1 else 0, st'\<lparr>ln_bridge := ln_bridge st\<rparr>)))"

definition lan_close_session_cmd :: "nat \<Rightarrow> digest2 \<Rightarrow> lan_state \<Rightarrow> (int \<times> lan_state) outcome" where
  "lan_close_session_cmd k md2 st =
     (if \<not> ls_active (ln_ssn st) then Inr (-1, st)
      else bind_ok (lan_command k md2 (mk_rq IPMI_NETFN_APP 0x3c (le32 (ls_session_id (ln_ssn st))))
             ((on_lan_intf (\<lambda>i. i\<lparr>target_addr := ucast IPMI_BMC_SLAVE_ADDR\<rparr>) st)\<lparr>ln_bridge := False\<rparr>)) (\<lambda>(r, st').
        Inr (case r of None \<Rightarrow> -1 | Some rsp \<Rightarrow> if rs_ccode rsp \<noteq> 0 then -1 else 0, st')))"

section \<open>Activation\<close>

text \<open>Each step is made when the one before gave 0; the result of the ping does not matter.\<close>

definition lan_then :: "(int \<times> lan_state) outcome \<Rightarrow> (lan_state \<Rightarrow> (int \<times> lan_state) outcome) \<Rightarrow> (int \<times> lan_state) outcome" where
  "lan_then r f = bind_ok r (\<lambda>(rc, st). if rc < 0 then Inr (-1, st) else f st)"

definition ipmi_lan_activate_session :: "nat \<Rightarrow> digest2 \<Rightarrow> lan_state \<Rightarrow> (int \<times> lan_state) outcome" where
  "ipmi_lan_activate_session k md2 st =
     bind_ok (if ipmi_oem_active (ln_intf st) ''supermicro'' then Inr (0, st) else ipmi_lan_ping st) (\<lambda>(_, st1).
       let st2 = (if ipmi_oem_active (ln_intf st1) ''intelwv2'' then ipmi_lan_thump_first st1 else st1) in
       lan_then (lan_auth_capabilities_cmd k md2 st2) (\<lambda>st3.
       lan_then (ipmi_get_session_challenge_cmd k md2 st3) (\<lambda>st4.
       lan_then (ipmi_activate_session_cmd k md2 st4) (\<lambda>st5.
         bind_ok (lan_set_session_privlvl_cmd k md2 (on_lan_intf (\<lambda>i. i\<lparr>intf_abort := False\<rparr>) st5)) (\<lambda>(rc, st6).
           if rc < 0 then bind_ok (lan_close_session_cmd k md2 st6) (\<lambda>(_, st7). Inr (-1, st7))
           else Inr (0, st6))))))"

section \<open>Opening and closing\<close>

definition ipmi_lan_close :: "nat \<Rightarrow> digest2 \<Rightarrow> lan_state \<Rightarrow> lan_state outcome" where
  "ipmi_lan_close k md2 st =
     bind_ok (if \<not> intf_abort (ln_intf st) \<and> ln_live st then lan_close_session_cmd k md2 st else Inr (0, st)) (\<lambda>(rc, st1).
     bind_ok (ipmi_req_clear_entries (ln_reqs st1)) (\<lambda>t.
       Inr (on_lan_intf (\<lambda>i. i\<lparr>fd := (if 0 \<le> fd i then -1 else fd i), opened := False, manufacturer_id := IPMI_OEM_UNKNOWN\<rparr>)
              (st1\<lparr>ln_reqs := t, ln_live := False\<rparr>))))"

definition lan_default_params :: "ipmi_session_params \<Rightarrow> ipmi_session_params" where
  "lan_default_params p = p\<lparr>port := (if port p = 0 then 0x26f else port p),
     privlvl := (if privlvl p = 0 then 4 else privlvl p),
     timeout := (if timeout p = 0 then 2 else timeout p),
     retry := (if retry p = 0 then 4 else retry p)\<rparr>"

definition lan_new_session :: "ipmi_session_params \<Rightarrow> lan_session" where
  "lan_new_session p = \<lparr>ls_active = False, ls_session_id = 0, ls_in_seq = 0, ls_authcode = authcode_set p,
     ls_challenge = replicate 16 0, ls_authtype = 0, ls_authstatus = 0, ls_timeout = timeout p, ls_sol_sequence = 1\<rparr>"

definition ipmi_lan_set_max_rq_data_size :: "ipmi_intf \<Rightarrow> u16 \<Rightarrow> ipmi_intf" where
  "ipmi_lan_set_max_rq_data_size i sz = i\<lparr>max_request_data_size := (if uint sz + 7 > 0xFF then 0xFF - 7 else sz)\<rparr>"

definition ipmi_lan_set_max_rp_data_size :: "ipmi_intf \<Rightarrow> u16 \<Rightarrow> ipmi_intf" where
  "ipmi_lan_set_max_rp_data_size i sz = i\<lparr>max_response_data_size := (if uint sz + 8 > 0xFF then 0xFF - 8 else sz)\<rparr>"

definition ipmi_lan_setup :: "ipmi_intf \<Rightarrow> int \<times> ipmi_intf" where
  "ipmi_lan_setup i = (0, i\<lparr>max_request_data_size := 38, max_response_data_size := 34\<rparr>)"

text \<open>
  \<open>sock\<close> is what \<open>ipmi_intf_socket_connect\<close> leaves, whether it succeeded and the descriptor, and \<open>named\<close>
  says whether \<open>getsockname\<close> succeeds. The result is the descriptor or -1.
\<close>

definition ipmi_lan_open :: "nat \<Rightarrow> digest2 \<Rightarrow> u32 \<Rightarrow> bool \<times> int \<Rightarrow> bool \<Rightarrow> lan_state \<Rightarrow> (int \<times> lan_state) outcome" where
  "ipmi_lan_open k md2 sel_iana sock named st =
     (if opened (ln_intf st) then Inr (-1, st)
      else
        let st1 = on_lan_intf (on_params lan_default_params) st in
        if hostname (ssn_params (ln_intf st1)) = None \<or> hostname (ssn_params (ln_intf st1)) = Some [] then Inr (-1, st1)
        else
          let st2 = on_lan_intf (\<lambda>i. i\<lparr>fd := snd sock\<rparr>) st1 in
          if \<not> fst sock then Inr (-1, st2)
          else
            let st3 = (on_lan_intf (\<lambda>i. i\<lparr>opened := True, intf_abort := True\<rparr>) st2)
                  \<lparr>ln_live := True, ln_ssn := lan_new_session (ssn_params (ln_intf st2))\<rparr>
            in bind_ok (if named then ipmi_lan_activate_session k md2 st3 else Inr (-1, st3)) (\<lambda>(rc, st4).
                 if rc < 0 then bind_ok (ipmi_lan_close k md2 st4) (\<lambda>st5. Inr (-1, st5))
                 else
                   bind_ok (hpm2_detect_max_payload_size (lan_command k md2)
                       (\<lambda>n. on_lan_intf (\<lambda>i. ipmi_intf_set_max_request_data_size (Some ipmi_lan_set_max_rq_data_size) i n))
                       (\<lambda>n. on_lan_intf (\<lambda>i. ipmi_intf_set_max_response_data_size (Some ipmi_lan_set_max_rp_data_size) i n)) st4)
                     (\<lambda>(err, st5).
                   bind_ok (ipmi_get_oem (lan_command k md2) sel_iana (ln_intf st5) st5) (\<lambda>(m, st6).
                     let st7 = (on_lan_intf (\<lambda>i. i\<lparr>manufacturer_id := m\<rparr>) st6)\<lparr>ln_bridge := True\<rparr> in
                     Inr (fd (ln_intf st7), st7)))))"

section \<open>Sending through the interface\<close>

definition ipmi_lan_send_cmd :: "nat \<Rightarrow> digest2 \<Rightarrow> u32 \<Rightarrow> bool \<times> int \<Rightarrow> bool \<Rightarrow> lan_state sendrecv" where
  "ipmi_lan_send_cmd k md2 sel_iana sock named req st =
     bind_ok (if opened (ln_intf st) then Inr (0, st) else ipmi_lan_open k md2 sel_iana sock named st) (\<lambda>(rc, st1).
       if rc < 0 then Inr (None, st1) else lan_command k md2 req st1)"

definition ipmi_lan_keepalive :: "nat \<Rightarrow> digest2 \<Rightarrow> lan_state \<Rightarrow> (int \<times> lan_state) outcome" where
  "ipmi_lan_keepalive k md2 st =
     (if \<not> opened (ln_intf st) then Inr (0, st)
      else bind_ok (lan_command k md2 (mk_rq IPMI_NETFN_APP 1 []) st) (\<lambda>(r, st').
        Inr (case r of None \<Rightarrow> -1 | Some rsp \<Rightarrow> if rs_ccode rsp \<noteq> 0 then -1 else 0, st')))"

end
