(* ===== verification/LanKeep.thy ===== *)
theory LanKeep
  imports LanSession
begin

text \<open>
  What the commands of the LAN 1.5 transport leave alone: a poll changes the response, the requests
  and the events, a command also the sequence numbers and what was sent. So the session stays the one
  that was set up, and the transport keeps the contract commands rely on.
\<close>

section \<open>Polling\<close>

text \<open>The response buffer keeps its size.\<close>

definition lan_polled :: "lan_state \<Rightarrow> lan_state \<Rightarrow> bool" where
  "lan_polled st st' \<longleftrightarrow> ln_intf st' = ln_intf st \<and> ln_live st' = ln_live st \<and> ln_ssn st' = ln_ssn st
     \<and> ln_bridge st' = ln_bridge st \<and> ln_curr_seq st' = ln_curr_seq st \<and> ln_sol_seq st' = ln_sol_seq st
     \<and> ln_sol_count st' = ln_sol_count st \<and> ln_sent st' = ln_sent st \<and> ln_console st' = ln_console st
     \<and> ln_up st' = ln_up st \<and> ln_sends st' = ln_sends st \<and> ln_rand st' = ln_rand st
     \<and> (length (rs_data (ln_rsp st)) = 1024 \<longrightarrow> length (rs_data (ln_rsp st')) = 1024)"

lemma lan_polled_trans: "lan_polled st st1 \<Longrightarrow> lan_polled st1 st2 \<Longrightarrow> lan_polled st st2"
  by (simp add: lan_polled_def)

lemma lan_polled_upd [simp]:
  "lan_polled st st" "lan_polled st (st\<lparr>ln_net := n\<rparr>)" "lan_polled st (st\<lparr>ln_reqs := t\<rparr>)"
  by (simp_all add: lan_polled_def)

lemma lan_polled_rsp [simp]:
  assumes "length (rs_data r) = length (rs_data (ln_rsp st))"
  shows "lan_polled st (st\<lparr>ln_rsp := r\<rparr>)" "lan_polled st (st\<lparr>ln_rsp := r, ln_reqs := t\<rparr>)"
    "lan_polled st (st\<lparr>ln_net := n, ln_rsp := r\<rparr>)" 
  using assms by (simp_all add: lan_polled_def)

lemma lan_on_packet_polled:
  assumes "lan_on_packet p rest st = Inr (got, st')"
  shows "lan_polled st st'"
  using assms
proof (cases rule: lan_on_packet_cases)
  case 2
  then show ?thesis
    by (simp add: lan_polled_def)
qed simp

lemma lan_recv_polled: "lan_recv_packet st = Inr (got, st') \<Longrightarrow> lan_polled st st'"
  by (auto simp: lan_recv_packet_def dest!: lan_on_packet_polled split: list.splits net_event.splits)

lemma lan_next_polled: "lan_next_packet st = Inr (k, st') \<Longrightarrow> lan_polled st st'"
  by (auto simp: lan_next_packet_def bind_ok_Inr_iff dest: lan_recv_polled)

lemma lan_await_bridged_polled:
  assumes "lan_await_bridged a e st = Inr (k, st')"
  shows "lan_polled st st'"
proof -
  obtain got st1 where st1: "(if rs_ccode (ln_rsp st) = 0 then lan_recv_packet st else Inr (False, st)) = Inr (got, st1)"
    using assms by (auto simp: lan_await_bridged_def Let_def bind_ok_Inr_iff)
  have "lan_polled st st1"
    using st1 by (auto dest: lan_recv_polled split: if_split_asm)
  moreover have "lan_polled st1 st'"
    using assms unfolding lan_await_bridged_def st1 by (auto simp: Let_def bind_ok_Inr_iff split: if_split_asm)
  ultimately show ?thesis
    by (rule lan_polled_trans)
qed

lemma lan_unwrap_bridged_polled:
  assumes "lan_unwrap_bridged a e x st = Inr (k, st')" "7 \<le> x"
  shows "lan_polled st st'"
proof -
  obtain r where r: "lan_embedded x (ln_rsp st) = Inr r" and st': "\<exists>t. st' = st\<lparr>ln_rsp := r, ln_reqs := t\<rparr>"
    using assms(1) by (fastforce simp: lan_unwrap_bridged_def bind_ok_Inr_iff)
  let ?d = "region (rs_data (ln_rsp st)) x (nat (rs_data_len (ln_rsp st)) - x - 1)"
  have "x - 7 + length ?d \<le> length (rs_data (ln_rsp st)) \<or> length (rs_data (ln_rsp st)) < x"
    using assms(2) by auto
  then have "length (rs_data r) = 1024" if "length (rs_data (ln_rsp st)) = 1024"
    using r that by (auto simp: lan_embedded_def Let_def put_at_def split: if_split_asm)
  then show ?thesis
    using st' by (auto simp: lan_polled_def)
qed

lemma lan_look_polled:
  assumes "lan_look st = Inr (k, st')"
  shows "lan_polled st st'"
proof -
  let ?h = "lan_session_header (ln_rsp st)"
  have h: "rs_data ?h = rs_data (ln_rsp st)"
    by (simp add: lan_session_header_def Let_def)
  have ipmi: "lan_polled (st\<lparr>ln_rsp := ?h\<rparr>) st'" if look: "lan_look_ipmi (st\<lparr>ln_rsp := ?h\<rparr>) = Inr (k, st')"
  proof -
    obtain r x where r: "lan_read_ipmi (ln_ssn st) ?h = (r, x)"
      by fastforce
    have x: "rs_data r = rs_data ?h" "21 \<le> x"
      using lan_read_ipmi_len [OF r] by simp_all
    have pr: "lan_polled (st\<lparr>ln_rsp := ?h\<rparr>) (st\<lparr>ln_rsp := r\<rparr>)"
      using x(1) by (simp add: lan_polled_def)
    have "lan_polled (st\<lparr>ln_rsp := r\<rparr>) st'"
      using look r x(2) lan_next_polled lan_await_bridged_polled lan_unwrap_bridged_polled [of _ _ x]
      by (auto simp: lan_look_ipmi_def Let_def bind_ok_Inr_iff split: option.split_asm if_split_asm)
    then show ?thesis
      using pr lan_polled_trans by blast
  qed
  have "lan_polled st (st\<lparr>ln_rsp := ?h\<rparr>)"
    using h by simp
  then show ?thesis
    using assms ipmi lan_next_polled [of st k st'] lan_polled_trans [of st "st\<lparr>ln_rsp := ?h\<rparr>" st']
    by (auto simp: lan_look_def Let_def lan_read_sol_def read_sol_packet_def h split: if_split_asm)
qed

lemma lan_loop_polled: "lan_poll_loop st = Inr (k, st') \<Longrightarrow> lan_polled st st'"
proof (induction st rule: lan_poll_loop.induct)
  case (1 st)
  obtain k1 st1 where st1: "lan_look st = Inr (k1, st1)"
    using 1(2) by (subst (asm) lan_poll_loop.simps) (auto split: sum.splits)
  show ?case
  proof (cases "k1 = LnGo")
    case True
    then have "lan_poll_loop st1 = Inr (k, st')"
      using 1(2) st1 by (subst (asm) lan_poll_loop.simps) simp
    then have "lan_polled st1 st'"
      using "1.IH" [OF st1 refl True] by simp
    then show ?thesis
      using lan_look_polled [OF st1] lan_polled_trans by blast
  next
    case False
    then show ?thesis
      using 1(2) st1 lan_look_polled [OF st1] by (subst (asm) lan_poll_loop.simps) simp
  qed
qed

lemma length_cleared: "length buf = 1024 \<Longrightarrow> length (put_at (move_front buf x n) n (replicate (1024 - n) 0)) = 1024"
  by (cases "n \<le> 1024") (simp, simp add: put_at_def)

lemma length_lan_shift: "length (rs_data rs) = 1024 \<Longrightarrow> length (rs_data (lan_shift x rs)) = 1024"
  by (simp add: lan_shift_def Let_def IPMI_BUF_SIZE_def length_cleared)

lemma lan_poll_polled:
  assumes "lan_poll_recv st = Inr (got, st')"
  shows "lan_polled st st'"
proof -
  obtain g st1 where st1: "lan_recv_packet st = Inr (g, st1)"
    using assms by (auto simp: lan_poll_recv_def bind_ok_Inr_iff)
  show ?thesis
  proof (cases g)
    case True
    then obtain k st2 where st2: "lan_poll_loop st1 = Inr (k, st2)"
      and st': "(case k of LnTaken x \<Rightarrow> (True, st2\<lparr>ln_rsp := lan_shift x (ln_rsp st2)\<rparr>) | _ \<Rightarrow> (k = LnPong, st2)) = (got, st')"
      using assms st1 by (auto simp: lan_poll_recv_def bind_ok_Inr_iff)
    have "lan_polled st2 st'"
      using st' length_lan_shift by (cases k) (auto simp: lan_polled_def)
    then show ?thesis
      using lan_recv_polled [OF st1] lan_loop_polled [OF st2] lan_polled_trans by blast
  next
    case False
    then show ?thesis
      using assms st1 lan_recv_polled [OF st1] by (simp add: lan_poll_recv_def)
  qed
qed

section \<open>Commands\<close>

text \<open>The session is the same but for its sequence number, which stays 0 or not 0.\<close>

definition lan_same_ssn :: "lan_session \<Rightarrow> lan_session \<Rightarrow> bool" where
  "lan_same_ssn s s' \<longleftrightarrow> s' = s\<lparr>ls_in_seq := ls_in_seq s'\<rparr> \<and> (ls_in_seq s' = 0 \<longleftrightarrow> ls_in_seq s = 0)"

definition lan_kept :: "lan_state \<Rightarrow> lan_state \<Rightarrow> bool" where
  "lan_kept st st' \<longleftrightarrow> ln_intf st' = ln_intf st \<and> ln_live st' = ln_live st \<and> ln_bridge st' = ln_bridge st
     \<and> ln_up st' = ln_up st \<and> ln_rand st' = ln_rand st \<and> lan_same_ssn (ln_ssn st) (ln_ssn st')
     \<and> (length (rs_data (ln_rsp st)) = 1024 \<longrightarrow> length (rs_data (ln_rsp st')) = 1024)"

lemma lan_same_ssn_refl [simp]: "lan_same_ssn s s"
  by (simp add: lan_same_ssn_def)

lemma lan_same_ssn_trans: "lan_same_ssn s s1 \<Longrightarrow> lan_same_ssn s1 s2 \<Longrightarrow> lan_same_ssn s s2"
  by (cases s; cases s1; cases s2) (auto simp: lan_same_ssn_def)

lemma next_out_seq_nonzero: "next_out_seq n \<noteq> 0"
  by (simp add: next_out_seq_def)

lemma lan_same_used [simp]: "lan_same_ssn s (lan_used_seq s)"
  by (simp add: lan_same_ssn_def lan_used_seq_def next_out_seq_nonzero)

lemma lan_kept_refl [simp]: "lan_kept st st"
  by (simp add: lan_kept_def)

lemma lan_kept_trans: "lan_kept st st1 \<Longrightarrow> lan_kept st1 st2 \<Longrightarrow> lan_kept st st2"
  unfolding lan_kept_def using lan_same_ssn_trans by metis

lemma lan_kept_upd [simp]:
  "lan_kept st (st\<lparr>ln_reqs := t\<rparr>)"
  "lan_kept st (st\<lparr>ln_sends := n, ln_sent := m\<rparr>)"
  by (simp_all add: lan_kept_def)

lemma lan_polled_kept: "lan_polled st st' \<Longrightarrow> lan_kept st st'"
  by (auto simp: lan_polled_def lan_kept_def)

lemma lan_send_kept: "lan_send_packet m st = (ok, st') \<Longrightarrow> lan_kept st st'"
  by (auto simp: lan_send_packet_def lan_kept_def Let_def)

lemma lan_build_kept:
  assumes "ipmi_lan_build_cmd md2 req isRetry st = Inr (a, m, st')"
  shows "lan_kept st st'"
proof -
  obtain t where "st' = (on_lan_ssn lan_used_seq st)\<lparr>ln_curr_seq := lan_next_seq isRetry (ln_curr_seq st), ln_reqs := t\<rparr>"
    using assms by (fastforce simp: ipmi_lan_build_cmd_def Let_def bind_ok_Inr_iff)
  then show ?thesis
    by (simp add: lan_kept_def on_lan_ssn_def)
qed

lemma lan_await_kept:
  assumes "lan_await st = Inr (got, st')"
  shows "lan_kept st st'"
proof -
  obtain g st1 where st1: "lan_poll_recv st = Inr (g, st1)"
    using assms by (auto simp: lan_await_def bind_ok_Inr_iff)
  have "lan_polled st1 st'"
    using assms st1 by (auto simp: lan_await_def dest: lan_poll_polled split: if_split_asm)
  then show ?thesis
    using lan_poll_polled [OF st1] lan_polled_kept lan_kept_trans by blast
qed

lemma lan_thump_kept: "lan_kept st (if b then ipmi_lan_thump st else st)"
  by (simp add: ipmi_lan_thump_def lan_send_packet_def Let_def)

lemma lan_rounds_kept: "lan_send_rounds k md2 req tries st = Inr (got, st') \<Longrightarrow> lan_kept st st'"
proof (induction k arbitrary: tries st)
  case (Suc k)
  obtain a m st1 where st1: "ipmi_lan_build_cmd md2 req (0 < tries) st = Inr (a, m, st1)"
    using Suc.prems by (auto simp: bind_ok_Inr_iff)
  obtain ok st2 where st2: "lan_send_packet m st1 = (ok, st2)"
    by fastforce
  have k2: "lan_kept st st2"
    using lan_build_kept [OF st1] lan_send_kept [OF st2] lan_kept_trans by blast
  note def = Suc.prems [unfolded lan_send_rounds.simps st1 bind_ok_simps prod.case st2 Let_def]
  consider (failed) t where "lan_send_rounds k md2 req (tries + 1) (st2\<lparr>ln_reqs := t\<rparr>) = Inr (got, st')"
    | (quiet) "st' = st2"
    | (waited) g st3 where "lan_await (if ipmi_oem_active (ln_intf st2) ''intelwv2'' then ipmi_lan_thump st2 else st2) = Inr (g, st3)"
      "st' = st3 \<or> lan_send_rounds k md2 req (tries + 1) st3 = Inr (got, st')"
  proof (cases ok)
    case False
    then show thesis
      using def failed by (auto simp: bind_ok_Inr_iff)
  next
    case True
    show thesis
    proof (cases "noanswer (ln_intf st2)")
      case True
      then show thesis
        using def \<open>ok\<close> quiet by simp
    next
      case False
      then obtain g st3 where "lan_await (if ipmi_oem_active (ln_intf st2) ''intelwv2'' then ipmi_lan_thump st2 else st2) = Inr (g, st3)"
        "(if g then Inr (True, st3)
          else if retry (ssn_params (ln_intf st3)) \<le> tries + 1 then Inr (False, st3)
          else lan_send_rounds k md2 req (tries + 1) st3) = Inr (got, st')"
        using def \<open>ok\<close> by (auto simp only: bind_ok_Inr_iff prod.case if_False if_True simp_thms)
      then show thesis
        by (intro waited [of g st3]) (auto split: if_split_asm)
    qed
  qed
  then show ?case
  proof cases
    case failed
    show ?thesis
      by (rule lan_kept_trans [OF k2 lan_kept_trans [OF lan_kept_upd(1) Suc.IH [OF failed]]])
  next
    case waited
    have "lan_kept st st3"
      by (rule lan_kept_trans [OF k2 lan_kept_trans [OF lan_thump_kept lan_await_kept [OF waited(1)]]])
    then show ?thesis
      using waited(2) lan_kept_trans [OF _ Suc.IH] by blast
  qed (use k2 in simp)
qed simp

lemma lan_command_kept:
  assumes "lan_command k md2 req st = Inr (r, st')"
  shows "lan_kept st st' \<and> (\<forall>rsp. r = Some rsp \<longrightarrow> rsp = ln_rsp st')"
proof -
  obtain got st1 t where "lan_send_rounds k md2 req 0 st = Inr (got, st1)" "st' = st1\<lparr>ln_reqs := t\<rparr>"
    "r = (if got then Some (ln_rsp st1) else None)"
    using assms by (auto simp: lan_command_def bind_ok_Inr_iff)
  then show ?thesis
    using lan_rounds_kept [of k md2 req 0 st got st1] by (auto simp: lan_kept_def)
qed

text \<open>The transport keeps its promises: whatever a command relies on holds for it.\<close>

interpretation lan: transport "lan_command k md2"
  "\<lambda>st. length (rs_data (ln_rsp st)) = 1024 \<and> Q (ln_intf st) (ln_live st) \<and> lan_same_ssn s (ln_ssn st)"
proof
  fix st rq r st'
  assume *: "length (rs_data (ln_rsp st)) = 1024 \<and> Q (ln_intf st) (ln_live st) \<and> lan_same_ssn s (ln_ssn st)"
    "lan_command k md2 rq st = Inr (r, st')"
  show "length (rs_data (ln_rsp st')) = 1024 \<and> Q (ln_intf st') (ln_live st') \<and> lan_same_ssn s (ln_ssn st')"
    using lan_command_kept [OF *(2)] * lan_same_ssn_trans by (auto simp: lan_kept_def)
next
  fix st rq rsp st'
  assume *: "length (rs_data (ln_rsp st)) = 1024 \<and> Q (ln_intf st) (ln_live st) \<and> lan_same_ssn s (ln_ssn st)"
    "lan_command k md2 rq st = Inr (Some rsp, st')"
  show "IPMI_BUF_SIZE \<le> length (rs_data rsp)"
    using lan_command_kept [OF *(2)] * by (simp add: lan_kept_def IPMI_BUF_SIZE_def)
qed

end
