(* ===== verification/LanSendProps.thy ===== *)
theory LanSendProps
  imports LanFacts LanKeep SeqCounter
begin

text \<open>
  The properties of sending in the LAN 1.5 transport: a command gets its answer whatever foreign packets and
  missed attempts come before, a socket that sends nothing is tried for ever, and an acknowledgement
  without characters hands its own header on.
\<close>

section \<open>The number of a command\<close>

interpretation lan_counter: seq_counter "lan_next_seq False"
proof unfold_locales
  fix s :: byte
  assume s: "unat s < 64"
  then have "unat (s + 1) = unat s + 1"
    by (simp add: unat_word_ariths)
  then show "unat (lan_next_seq False s) = (unat s + 1) mod 64"
    using s by (cases "unat s = 63") (auto simp: lan_next_seq_def word_le_nat_alt)
qed

text \<open>64 successive commands have different numbers in their message, and a retry has the one of its command.\<close>

lemma lan_seq_distinct:
  assumes "unat s < 64" "j < 64" "k < 64" "push_bit 2 ((lan_next_seq False ^^ j) s) = push_bit 2 ((lan_next_seq False ^^ k) s)"
  shows "j = k"
  using assms lan_counter.distinct_window [OF assms(1-3)] lan_counter.shifted_inject lan_counter.iterate [OF assms(1)] by simp

lemma lan_seq_retry: "unat s < 64 \<Longrightarrow> lan_next_seq True s = s"
  by (simp add: lan_next_seq_def word_le_nat_alt)

section \<open>Building a command\<close>

lemma lan_same_foreign: "lan_same_ssn s s' \<Longrightarrow> lan_foreign s' sq cm p = lan_foreign s sq cm p"
  by (cases s; cases s') (simp add: lan_same_ssn_def lan_foreign_def lan_at_def)

lemma lan_same_header: "lan_same_ssn s s' \<Longrightarrow> lan_header_for s' hdr code = lan_header_for s hdr code"
  by (cases s; cases s') (simp add: lan_same_ssn_def lan_header_for_def)

text \<open>The request is the only one that waits, or none does.\<close>

definition lan_ready :: "byte \<Rightarrow> byte \<Rightarrow> lan_state \<Rightarrow> bool" where
  "lan_ready sq cm st \<longleftrightarrow> table_ok (ln_reqs st) \<and> length (rs_data (ln_rsp st)) = 1024
     \<and> (pending (ln_reqs st) = [] \<or> lan_waits sq cm st)"

lemma lan_entry_ok:
  assumes "lan_ready sq (rq_cmd req) st"
  obtains a e t where "lan_entry req sq (ln_reqs st) = Inr (a, e\<lparr>e_msg := None\<rparr>, t)" "table_ok t" "deref t (Some a) = Inr e"
    "matches sq (rq_cmd req) e" "pending t = [(a, e\<lparr>e_next := None\<rparr>)]"
proof -
  let ?t0 = "ln_reqs st" and ?cm = "rq_cmd req"
  have ok: "table_ok ?t0"
    using assms by (simp add: lan_ready_def)
  note found = that
  have fin: thesis if "ipmi_req_lookup_entry sq ?cm t = Inr (Some a)" "table_ok t" "\<exists>x. pending t = [(a, x)]"
      "\<And>e. deref t (Some a) = Inr e \<Longrightarrow> lan_entry req sq ?t0 = Inr (a, e\<lparr>e_msg := None\<rparr>, t)" for a t
  proof -
    note hyps = that
    obtain e where "deref t (Some a) = Inr e" "matches sq ?cm e" "(a, e\<lparr>e_next := None\<rparr>) \<in> set (pending t)"
      by (rule lookup_deref [OF hyps(2,1)])
    then show thesis
      using hyps found by auto
  qed
  show thesis
  proof (cases "pending ?t0 = []")
    case True
    obtain a t where t: "ipmi_req_add_entry req sq ?t0 = Inr (a, t)" "table_ok t" "pending t = [(a, new_entry req sq)]"
      using lp.add [OF ok, of req sq] True by auto
    have "ipmi_req_lookup_entry sq ?cm ?t0 = Inr None" "ipmi_req_lookup_entry sq ?cm t = Inr (Some a)"
      using lp.lookup [OF ok] lp.lookup [OF t(2)] True t(3) by (simp_all add: matches_def new_entry_def)
    then show thesis
      using t by (intro fin [of t a]) (simp_all add: lan_entry_def)
  next
    case False
    then obtain a x where x: "pending ?t0 = [(a, x)]" "matches sq ?cm x"
      using assms by (auto simp: lan_ready_def lan_waits_def)
    then have "ipmi_req_lookup_entry sq ?cm ?t0 = Inr (Some a)"
      using lp.lookup [OF ok] by simp
    then show thesis
      using x ok by (intro fin [of ?t0 a]) (simp_all add: lan_entry_def)
  qed
qed

lemma lan_build_ok:
  assumes "lan_ready sq (rq_cmd req) st" "lan_next_seq isRetry (ln_curr_seq st) = sq" "lan_bridging (ln_bridge st) (ln_intf st) = 0"
  obtains a t where "ipmi_lan_build_cmd md2 req isRetry st =
      Inr (a, lan_packet md2 (ln_bridge st) (ln_intf st) (ln_ssn st) req sq,
        (on_lan_ssn lan_used_seq st)\<lparr>ln_curr_seq := sq, ln_reqs := t\<rparr>)"
    "lan_waits sq (rq_cmd req) (st\<lparr>ln_reqs := t\<rparr>)" "\<exists>e. deref t (Some a) = Inr e \<and> e_rq_seq e = sq \<and> rq_cmd (e_req e) = rq_cmd req"
proof -
  let ?m = "lan_packet md2 (ln_bridge st) (ln_intf st) (ln_ssn st) req sq"
  obtain a e t where e: "lan_entry req sq (ln_reqs st) = Inr (a, e\<lparr>e_msg := None\<rparr>, t)" "table_ok t" "deref t (Some a) = Inr e"
    "matches sq (rq_cmd req) e" "pending t = [(a, e\<lparr>e_next := None\<rparr>)]"
    by (rule lan_entry_ok [OF assms(1)])
  define e' where "e' = (lan_bridge_entry 0 (e\<lparr>e_msg := None\<rparr>))\<lparr>e_rq_seq := sq, e_msg := Some ?m\<rparr>"
  have e': "e_next e' = e_next e" "matches sq (rq_cmd req) e'" "e_bridging e' = 0"
    using e(4) by (simp_all add: e'_def lan_bridge_entry_def matches_def)
  note set = set_entry_refines [OF e(2,3) e'(1)]
  have "ipmi_lan_build_cmd md2 req isRetry st =
      Inr (a, ?m, (on_lan_ssn lan_used_seq st)\<lparr>ln_curr_seq := sq, ln_reqs := set_entry a e' t\<rparr>)"
    using e(1) assms(2,3) by (simp add: ipmi_lan_build_cmd_def Let_def e'_def)
  moreover have "lan_waits sq (rq_cmd req) (st\<lparr>ln_reqs := set_entry a e' t\<rparr>)"
    using set e(5) e' assms(1) by (simp add: lan_waits_def lan_ready_def)
  moreover have "deref (set_entry a e' t) (Some a) = Inr e'" "e_rq_seq e' = sq" "rq_cmd (e_req e') = rq_cmd req"
    using e'(2) by (simp_all add: set_entry_def deref_def matches_def)
  ultimately show thesis
    using that by blast
qed

section \<open>The answer\<close>

text \<open>What the caller gets: the response with its code and exactly its data.\<close>

definition lan_got :: "byte \<Rightarrow> bytes \<Rightarrow> lan_state \<Rightarrow> bool" where
  "lan_got cc d st \<longleftrightarrow> length (rs_data (ln_rsp st)) = 1024 \<and> rs_ccode (ln_rsp st) = cc \<and> rs_data_len (ln_rsp st) = int (length d)
     \<and> take (length d) (rs_data (ln_rsp st)) = d"

text \<open>An attempt sends the packet and then waits in this state.\<close>

lemma lan_attempt:
  assumes "lan_ready sq (rq_cmd req) st" "lan_next_seq (0 < n) (ln_curr_seq st) = sq" "lan_bridging (ln_bridge st) (ln_intf st) = 0"
    and "\<forall>j. ln_up st j" "\<not> noanswer (ln_intf st)"
  obtains st2 where "lan_waits sq (rq_cmd req) st2" "lan_kept st st2" "ln_net st2 = ln_net st" "ln_curr_seq st2 = sq"
    "lan_send_rounds (Suc k) md2 req n st = bind_ok (lan_await st2) (\<lambda>(got, st3).
       if got then Inr (True, st3)
       else if retry (ssn_params (ln_intf st3)) \<le> n + 1 then Inr (False, st3) else lan_send_rounds k md2 req (n + 1) st3)"
    "\<exists>rest. ln_sent st2 = ln_sent st @ lan_packet md2 (ln_bridge st) (ln_intf st) (ln_ssn st) req sq # rest"
proof -
  let ?m = "lan_packet md2 (ln_bridge st) (ln_intf st) (ln_ssn st) req sq"
  obtain a t where b: "ipmi_lan_build_cmd md2 req (0 < n) st =
      Inr (a, ?m, (on_lan_ssn lan_used_seq st)\<lparr>ln_curr_seq := sq, ln_reqs := t\<rparr>)" "lan_waits sq (rq_cmd req) (st\<lparr>ln_reqs := t\<rparr>)"
    by (rule lan_build_ok [OF assms(1-3), where ?md2.0 = md2])
  let ?st1 = "(on_lan_ssn lan_used_seq st)\<lparr>ln_curr_seq := sq, ln_reqs := t\<rparr>"
  let ?st2 = "?st1\<lparr>ln_sends := ln_sends st + 1, ln_sent := ln_sent st @ [?m]\<rparr>"
  let ?st3 = "if ipmi_oem_active (ln_intf ?st2) ''intelwv2'' then ipmi_lan_thump ?st2 else ?st2"
  have s: "lan_send_packet ?m ?st1 = (True, ?st2)"
    using assms(4) by (simp add: lan_send_packet_def on_lan_ssn_def Let_def)
  have same: "lan_waits sq (rq_cmd req) st'" if "ln_reqs st' = t" "ln_rsp st' = ln_rsp st" for st'
    using b(2) that by (simp add: lan_waits_def)
  have "lan_waits sq (rq_cmd req) ?st3" "ln_net ?st3 = ln_net st" "ln_curr_seq ?st3 = sq" "\<exists>rest. ln_sent ?st3 = ln_sent st @ ?m # rest"
    by (simp_all add: same on_lan_ssn_def ipmi_lan_thump_def lan_send_packet_def Let_def)
  moreover have "lan_kept st ?st2"
    by (simp add: lan_kept_def on_lan_ssn_def)
  then have "lan_kept st ?st3"
    using lan_kept_trans [OF _ lan_thump_kept] by blast
  moreover have "lan_send_rounds (Suc k) md2 req n st = bind_ok (lan_await ?st3) (\<lambda>(got, st3).
       if got then Inr (True, st3)
       else if retry (ssn_params (ln_intf st3)) \<le> n + 1 then Inr (False, st3) else lan_send_rounds k md2 req (n + 1) st3)"
    using b(1) s assms(5) by (simp add: on_lan_ssn_def)
  ultimately show thesis
    using that by blast
qed

lemma lan_rounds_answered:
  assumes "p = lan_answer hdr code (lan_reply nf sq (rq_cmd req) cc d)" "lan_header_for (ln_ssn st) hdr code" "sq < 64" "length p < 1024"
    and "cc \<noteq> 0xCF" "\<forall>x \<in> set (concat nss @ ns). lan_foreign (ln_ssn st) sq (rq_cmd req) x"
    and "lan_ready sq (rq_cmd req) st" "lan_next_seq (0 < n) (ln_curr_seq st) = sq" "lan_bridging (ln_bridge st) (ln_intf st) = 0"
    and "\<forall>j. ln_up st j" "\<not> noanswer (ln_intf st)" "0 \<le> n" "n + int (length nss) < retry (ssn_params (ln_intf st))" "length nss < k"
    and "ln_net st = concat (map (\<lambda>ns. map NetPkt ns @ [NetNone]) nss) @ map NetPkt (ns @ [p]) @ rest"
  shows "\<exists>st'. lan_send_rounds k md2 req n st = Inr (True, st') \<and> lan_got cc d st' \<and> ln_net st' = rest \<and> table_ok (ln_reqs st')
    \<and> ln_curr_seq st' = sq \<and> (\<exists>ms. ln_sent st' = ln_sent st @ lan_packet md2 (ln_bridge st) (ln_intf st) (ln_ssn st) req sq # ms)"
  using assms(2,6-)
proof (induction nss arbitrary: k n st)
  case Nil
  obtain k' where k: "k = Suc k'"
    using Nil by (cases k) simp_all
  obtain st2 where st2: "lan_waits sq (rq_cmd req) st2" "lan_kept st st2" "ln_net st2 = ln_net st" "ln_curr_seq st2 = sq"
    "lan_send_rounds (Suc k') md2 req n st = bind_ok (lan_await st2) (\<lambda>(got, st3).
       if got then Inr (True, st3)
       else if retry (ssn_params (ln_intf st3)) \<le> n + 1 then Inr (False, st3) else lan_send_rounds k' md2 req (n + 1) st3)"
    "\<exists>rest. ln_sent st2 = ln_sent st @ lan_packet md2 (ln_bridge st) (ln_intf st) (ln_ssn st) req sq # rest"
    using lan_attempt [OF Nil.prems(3-7), of k' md2] by blast
  have ssn: "lan_same_ssn (ln_ssn st) (ln_ssn st2)"
    using st2(2) by (simp add: lan_kept_def)
  have pre: "lan_header_for (ln_ssn st2) hdr code" "\<forall>x \<in> set ns. lan_foreign (ln_ssn st2) sq (rq_cmd req) x"
    "ln_net st2 = map NetPkt (ns @ [p]) @ rest"
    using Nil.prems(1,2,11) st2(3) by (simp_all add: lan_same_header [OF ssn] lan_same_foreign [OF ssn])
  obtain r t where r: "lan_poll_recv st2 = Inr (True, st2\<lparr>ln_rsp := r, ln_reqs := t, ln_net := rest\<rparr>)"
    "length (rs_data r) = 1024" "rs_ccode r = cc" "rs_data_len r = int (length d)" "take (length d) (rs_data r) = d" "table_ok t"
    using lan_poll_answer [OF assms(1) pre(1) assms(3,4) pre(2) st2(1) pre(3)] by blast
  then have "lan_send_rounds k md2 req n st = Inr (True, st2\<lparr>ln_rsp := r, ln_reqs := t, ln_net := rest\<rparr>)"
    using st2(5) assms(5) k by (simp add: lan_await_def)
  then show ?case
    using r(2-6) st2(4,6) by (simp add: lan_got_def)
next
  case (Cons xs nss)
  obtain k' where k: "k = Suc k'"
    using Cons.prems by (cases k) simp_all
  obtain st2 where st2: "lan_waits sq (rq_cmd req) st2" "lan_kept st st2" "ln_net st2 = ln_net st" "ln_curr_seq st2 = sq"
    "lan_send_rounds (Suc k') md2 req n st = bind_ok (lan_await st2) (\<lambda>(got, st3).
       if got then Inr (True, st3)
       else if retry (ssn_params (ln_intf st3)) \<le> n + 1 then Inr (False, st3) else lan_send_rounds k' md2 req (n + 1) st3)"
    "\<exists>rest. ln_sent st2 = ln_sent st @ lan_packet md2 (ln_bridge st) (ln_intf st) (ln_ssn st) req sq # rest"
    using lan_attempt [OF Cons.prems(3-7), of k' md2] by blast
  let ?net = "concat (map (\<lambda>ns. map NetPkt ns @ [NetNone]) nss) @ map NetPkt (ns @ [p]) @ rest"
  have ssn: "lan_same_ssn (ln_ssn st) (ln_ssn st2)"
    using st2(2) by (simp add: lan_kept_def)
  have "\<forall>x \<in> set xs. lan_foreign (ln_ssn st2) sq (rq_cmd req) x" "ln_net st2 = map NetPkt xs @ NetNone # ?net"
    using Cons.prems(2,11) st2(3) by (simp_all add: lan_same_foreign [OF ssn])
  then obtain r where r: "lan_poll_recv st2 = Inr (False, st2\<lparr>ln_rsp := r, ln_net := ?net\<rparr>)" "length (rs_data r) = 1024"
    using lan_poll_silent [OF _ st2(1)] by blast
  define st3 where "st3 = st2\<lparr>ln_rsp := r, ln_net := ?net\<rparr>"
  have kept: "ln_intf st3 = ln_intf st" "ln_bridge st3 = ln_bridge st" "ln_up st3 = ln_up st" "ln_ssn st3 = ln_ssn st2" "ln_net st3 = ?net"
    using st2(2) by (simp_all add: lan_kept_def st3_def)
  have eq: "lan_send_rounds k md2 req n st = lan_send_rounds k' md2 req (n + 1) st3"
    using kept(1) Cons.prems(9) unfolding k st2(5) lan_await_def r(1) st3_def [symmetric] by simp
  have seq: "lan_next_seq (0 < n + 1) (ln_curr_seq st3) = sq"
    using st2(4) Cons.prems(8) assms(3) by (simp add: lan_next_seq_def st3_def word_le_nat_alt word_less_nat_alt)
  have ready: "lan_ready sq (rq_cmd req) st3"
    using st2(1) r(2) by (simp add: lan_ready_def lan_waits_def st3_def)
  have "\<exists>st'. lan_send_rounds k' md2 req (n + 1) st3 = Inr (True, st') \<and> lan_got cc d st' \<and> ln_net st' = rest \<and> table_ok (ln_reqs st')
    \<and> ln_curr_seq st' = sq \<and> (\<exists>ms. ln_sent st' = ln_sent st3 @ lan_packet md2 (ln_bridge st3) (ln_intf st3) (ln_ssn st3) req sq # ms)"
    using Cons.prems ready seq kept k
    by (intro Cons.IH) (simp_all add: lan_same_header [OF ssn] lan_same_foreign [OF ssn])
  moreover have "ln_sent st3 = ln_sent st2"
    by (simp add: st3_def)
  ultimately show ?case
    unfolding eq using st2(6) by fastforce
qed

lemma lan_command_answered:
  assumes "table_ok (ln_reqs st)" "pending (ln_reqs st) = []" "length (rs_data (ln_rsp st)) = 1024"
    and "lan_bridging (ln_bridge st) (ln_intf st) = 0" "\<forall>j. ln_up st j" "\<not> noanswer (ln_intf st)"
    and "sq = lan_next_seq False (ln_curr_seq st)" "sq < 64"
    and "\<forall>x \<in> set (concat nss @ ns). lan_foreign (ln_ssn st) sq (rq_cmd req) x"
    and "lan_header_for (ln_ssn st) hdr code" "p = lan_answer hdr code (lan_reply nf sq (rq_cmd req) cc d)" "cc \<noteq> 0xCF" "length d < 900"
    and "ln_net st = concat (map (\<lambda>ns. map NetPkt ns @ [NetNone]) nss) @ map NetPkt (ns @ [p]) @ rest"
    and "int (length nss) < retry (ssn_params (ln_intf st))" "length nss < k"
  shows "\<exists>st'. lan_command k md2 req st = Inr (Some (ln_rsp st'), st') \<and> lan_got cc d st' \<and> ln_net st' = rest
    \<and> table_ok (ln_reqs st') \<and> pending (ln_reqs st') = [] \<and> ln_curr_seq st' = sq
    \<and> (\<exists>ms. ln_sent st' = ln_sent st @ lan_packet md2 (ln_bridge st) (ln_intf st) (ln_ssn st) req sq # ms)"
proof -
  have "length p < 1024"
    using lan_answer_parts(1) [OF assms(10,11)] assms(13) by (simp add: lan_at_def split: if_splits)
  moreover have "lan_ready sq (rq_cmd req) st"
    using assms(1-3) by (simp add: lan_ready_def)
  ultimately obtain st1 where st1: "lan_send_rounds k md2 req 0 st = Inr (True, st1)" "lan_got cc d st1" "ln_net st1 = rest"
    "table_ok (ln_reqs st1)" "ln_curr_seq st1 = sq"
    "\<exists>ms. ln_sent st1 = ln_sent st @ lan_packet md2 (ln_bridge st) (ln_intf st) (ln_ssn st) req sq # ms"
    using lan_rounds_answered [OF assms(11,10,8) _ assms(12,9) _ _ assms(4-6), of 0 k rest md2] assms(7,14-16) by auto
  obtain t where "ipmi_req_clear_entries (ln_reqs st1) = Inr t" "table_ok t" "pending t = []"
    using lp.clear [OF st1(4)] by blast
  then show ?thesis
    using st1 by (intro exI [of _ "st1\<lparr>ln_reqs := t\<rparr>"]) (simp add: lan_command_def lan_got_def)
qed

text \<open>C6: a command gets its answer: after missed attempts, fewer than the session allows, and any number of
  foreign packets, the response with the number and command of the request is returned with its completion
  code and exactly its data, whatever its authentication code is; the packet was sent, and no request is left
  pending.\<close>

theorem lan_cmd_answered:
  assumes "table_ok (ln_reqs st)" "pending (ln_reqs st) = []" "length (rs_data (ln_rsp st)) = 1024"
    and "lan_bridging (ln_bridge st) (ln_intf st) = 0" "\<forall>j. ln_up st j" "\<not> noanswer (ln_intf st)"
    and "sq = lan_next_seq False (ln_curr_seq st)" "sq < 64"
    and "\<forall>x \<in> set (concat nss @ ns). lan_foreign (ln_ssn st) sq (rq_cmd req) x"
    and "lan_header_for (ln_ssn st) hdr code" "p = lan_answer hdr code (lan_reply nf sq (rq_cmd req) cc d)" "cc \<noteq> 0xCF" "length d < 900"
    and "ln_net st = concat (map (\<lambda>ns. map NetPkt ns @ [NetNone]) nss) @ map NetPkt (ns @ [p]) @ rest"
    and "int (length nss) < retry (ssn_params (ln_intf st))" "length nss < k"
  shows "\<exists>st'. lan_command k md2 req st = Inr (Some (ln_rsp st'), st') \<and> lan_got cc d st' \<and> ln_net st' = rest
    \<and> table_ok (ln_reqs st') \<and> pending (ln_reqs st') = [] \<and> ln_curr_seq st' = sq
    \<and> (\<exists>ms. ln_sent st' = ln_sent st @ lan_packet md2 (ln_bridge st) (ln_intf st) (ln_ssn st) req sq # ms)"
  by (rule lan_command_answered [OF assms])

definition sample_lan :: "lan_session \<Rightarrow> net_event list \<Rightarrow> (nat \<Rightarrow> bool) \<Rightarrow> lan_state" where
  "sample_lan s net up = \<lparr>ln_intf = sample_intf, ln_live = True, ln_ssn = s, ln_bridge = True, ln_reqs = empty_table,
     ln_rsp = reply 0 [], ln_curr_seq = 63, ln_sol_seq = 0, ln_sol_count = 0, ln_net = net, ln_sent = [], ln_console = [],
     ln_up = up, ln_sends = 0, ln_rand = []\<rparr>"

lemma sample_lan_simps [simp]:
  "ln_intf (sample_lan s net up) = sample_intf" "ln_ssn (sample_lan s net up) = s" "ln_reqs (sample_lan s net up) = empty_table"
  "length (rs_data (ln_rsp (sample_lan s net up))) = 1024" "lan_next_seq False (ln_curr_seq (sample_lan s net up)) = 0"
  "ln_net (sample_lan s net up) = net" "ln_up (sample_lan s net up) = up" "lan_bridging (ln_bridge (sample_lan s net up)) sample_intf = 0"
  "\<not> noanswer sample_intf" "ln_sol_seq (sample_lan s net up) = 0" "ln_sol_count (sample_lan s net up) = 0"
  by (simp_all add: sample_lan_def lan_next_seq_def lan_bridging_def our_address_def) (simp_all add: sample_intf_def)

theorem lan_cmd_answered_witness:
  "\<exists>st'. lan_command 3 None sample_rq (sample_lan sample_lan_session
      ([NetPkt [6, 0, 0xFF, 8], NetNone, NetPkt (lan_answer [2, 1, 0, 0, 0, 4, 3, 2, 1] (replicate 16 0xEE) (lan_reply 0x1C 0 1 0 [0x51]))])
      (\<lambda>_. True)) = Inr (Some (ln_rsp st'), st') \<and> lan_got 0 [0x51] st' \<and> pending (ln_reqs st') = []"
proof -
  let ?hdr = "[2, 1, 0, 0, 0, 4, 3, 2, 1] :: bytes"
  define p where "p = lan_answer ?hdr (replicate 16 0xEE) (lan_reply 0x1C 0 (rq_cmd sample_rq) 0 [0x51])"
  define st where "st = sample_lan sample_lan_session [NetPkt [6, 0, 0xFF, 8], NetNone, NetPkt p] (\<lambda>_. True)"
  have h: "lan_header_for sample_lan_session ?hdr (replicate 16 0xEE)"
    by (simp add: lan_header_for_def sample_lan_session_def of_le32_def)
  have f: "lan_foreign sample_lan_session 0 (rq_cmd sample_rq) [6, 0, 0xFF, 8]"
    by (simp add: lan_foreign_def RMCP_CLASS_ASF_def RMCP_CLASS_IPMI_def)
  have "\<exists>st'. lan_command 3 None sample_rq st = Inr (Some (ln_rsp st'), st') \<and> lan_got 0 [0x51] st' \<and> ln_net st' = []
    \<and> table_ok (ln_reqs st') \<and> pending (ln_reqs st') = [] \<and> ln_curr_seq st' = 0
    \<and> (\<exists>ms. ln_sent st' = ln_sent st @ lan_packet None (ln_bridge st) (ln_intf st) (ln_ssn st) sample_rq 0 # ms)"
    by (rule lan_cmd_answered [where nss = "[[[6, 0, 0xFF, 8]]]" and ns = "[]" and hdr = ?hdr and code = "replicate 16 0xEE"
          and p = p and nf = "0x1C"])
      (use h f empty_table_ok in \<open>simp_all add: st_def p_def del: List.replicate.replicate_Suc\<close>)
  then show ?thesis
    unfolding st_def p_def by (auto simp: sample_rq_def)
qed

section \<open>A socket that sends nothing\<close>

lemma lan_build_total:
  assumes "table_ok (ln_reqs st)"
  obtains a m t e where "ipmi_lan_build_cmd md2 req isRetry st =
      Inr (a, m, (on_lan_ssn lan_used_seq st)\<lparr>ln_curr_seq := lan_next_seq isRetry (ln_curr_seq st), ln_reqs := t\<rparr>)"
    "table_ok t" "deref t (Some a) = Inr e"
proof -
  let ?t0 = "ln_reqs st" and ?cm = "rq_cmd req" and ?sq = "lan_next_seq isRetry (ln_curr_seq st)"
  obtain a t where at: "bind_ok (ipmi_req_lookup_entry ?sq ?cm ?t0) (\<lambda>found.
      case found of None \<Rightarrow> ipmi_req_add_entry req ?sq ?t0 | Some a \<Rightarrow> Inr (a, ?t0)) = Inr (a, t)"
    "table_ok t" "ipmi_req_lookup_entry ?sq ?cm t = Inr (Some a)"
  proof (cases "ipmi_req_lookup_entry ?sq ?cm ?t0 = Inr None")
    case True
    obtain a t where t: "ipmi_req_add_entry req ?sq ?t0 = Inr (a, t)" "table_ok t"
      using lp.add [OF assms, of req ?sq] by blast
    have "\<not> lp.awaits ?sq ?cm ?t0"
      using True lp.lookup_None_iff [OF assms] by simp
    then have "ipmi_req_lookup_entry ?sq ?cm t = Inr (Some a)"
      using lp.lookup_added [OF assms _ t(1)] by simp
    then show thesis
      using that True t by simp
  next
    case False
    then obtain a where "ipmi_req_lookup_entry ?sq ?cm ?t0 = Inr (Some a)"
      using lp.lookup [OF assms, of ?sq ?cm] by (cases "find (\<lambda>(a, e). matches ?sq ?cm e) (pending ?t0)") auto
    then show thesis
      using that assms by simp
  qed
  obtain e where e: "deref t (Some a) = Inr e"
    by (rule lookup_deref [OF at(2,3)])
  let ?m = "lan_packet md2 (ln_bridge st) (ln_intf st) (ln_ssn st) req ?sq"
  define e' where "e' = (lan_bridge_entry (lan_bridging (ln_bridge st) (ln_intf st)) (e\<lparr>e_msg := None\<rparr>))\<lparr>e_rq_seq := ?sq, e_msg := Some ?m\<rparr>"
  have "e_next e' = e_next e"
    by (simp add: e'_def lan_bridge_entry_def)
  then have "table_ok (set_entry a e' t)"
    using set_entry_refines(1) [OF at(2) e] by blast
  moreover have "deref (set_entry a e' t) (Some a) = Inr e'"
    by (simp add: set_entry_def deref_def)
  moreover have "lan_entry req ?sq ?t0 = Inr (a, e\<lparr>e_msg := None\<rparr>, t)"
    using at(1) e by (auto simp: lan_entry_def bind_ok_Inr_iff)
  ultimately show thesis
    by (intro that [of a ?m "set_entry a e' t" e']) (simp_all add: ipmi_lan_build_cmd_def Let_def e'_def)
qed

lemma lan_rounds_forever:
  "table_ok (ln_reqs st) \<Longrightarrow> \<forall>j. \<not> ln_up st j \<Longrightarrow> lan_send_rounds k md2 req n st = Inl Unfinished"
proof (induction k arbitrary: n st)
  case (Suc k)
  obtain a m t e where b: "ipmi_lan_build_cmd md2 req (0 < n) st =
      Inr (a, m, (on_lan_ssn lan_used_seq st)\<lparr>ln_curr_seq := lan_next_seq (0 < n) (ln_curr_seq st), ln_reqs := t\<rparr>)"
    "table_ok t" "deref t (Some a) = Inr e"
    by (rule lan_build_total [OF Suc.prems(1)])
  obtain t' where "ipmi_req_remove_entry (e_rq_seq e) (rq_target_cmd (e_req e)) t = Inr t'" "table_ok t'"
    using lp.remove [OF b(2)] by blast
  then show ?case
    using b Suc.IH Suc.prems(2) by (simp add: lan_send_packet_def on_lan_ssn_def Let_def)
qed simp

lemma lan_sol_forever: "\<forall>j. \<not> ln_up st j \<Longrightarrow> lan_sol_rounds k sol m tx n got st = Inl Unfinished"
  by (induction k arbitrary: n st) (simp_all add: lan_send_packet_def Let_def)

text \<open>C18: when every call of \<open>send\<close> fails, the number of attempts the user allows does not matter: neither a command
  nor a Serial over LAN packet comes to an end, however many rounds it is given.\<close>

theorem lan_unsent_tried_forever:
  assumes "table_ok (ln_reqs st)" "\<forall>j. \<not> ln_up st j"
  shows "lan_command k md2 req st = Inl Unfinished \<and> lan_send_sol_payload k sol tx st = Inl Unfinished"
  using lan_rounds_forever [OF assms, of k md2 req 0] assms(2)
  by (cases "ipmi_lan_build_sol_msg (ln_ssn st) tx") (simp add: lan_command_def lan_send_sol_payload_def lan_sol_forever)

theorem lan_unsent_tried_forever_witness:
  "retry (ssn_params (ln_intf (sample_lan sample_lan_session [] (\<lambda>_. False)))) = 3
    \<and> (\<forall>k. lan_command k None sample_rq (sample_lan sample_lan_session [] (\<lambda>_. False)) = Inl Unfinished)"
  using lan_unsent_tried_forever [of "sample_lan sample_lan_session [] (\<lambda>_. False)" _ None sample_rq lan_recv_packet "lan_ack 0 0"]
    empty_table_ok(1) by simp

section \<open>Serial over LAN\<close>

text \<open>A Serial over LAN packet: \<open>hdr\<close> as before, number, acknowledged number, accepted characters, flags.\<close>

definition lan_sol_answer :: "bytes \<Rightarrow> byte \<Rightarrow> byte \<Rightarrow> byte \<Rightarrow> byte \<Rightarrow> bytes \<Rightarrow> bytes" where
  "lan_sol_answer hdr sq acked n flags d =
     [0x06, 0x00, 0xFF, RMCP_CLASS_IPMI] @ hdr @ [of_nat (length d + 5), sq, acked, n, flags, 0] @ d"

lemma lan_poll_sol:
  assumes "length (rs_data (ln_rsp st)) = 1024" "p = lan_sol_answer hdr sq acked n flags d" "length d < 900"
    and "length hdr = 9" "of_le32 (drop 5 hdr) = ls_session_id (ln_ssn st) + 0x10000000" "ln_net st = NetPkt p # rest"
  obtains r s where "lan_poll_recv st = Inr (True, st\<lparr>ln_net := rest, ln_rsp := r\<rparr>)" "rs_payloadtype r = IPMI_PAYLOAD_TYPE_SOL"
    "rs_payload r = PSol s" "sp_seq s = sq AND 0x0F" "sp_acked s = acked AND 0x0F" "sp_accepted s = n"
    "rs_data_len r = int (if d = [] then length p else length d)" "take (nat (rs_data_len r)) (rs_data r) = (if d = [] then p else d)"
proof -
  have lp: "length p = 19 + length d" "p \<noteq> []" "length p < 1024"
    using assms(2-4) by (simp_all add: lan_sol_answer_def)
  obtain r0 where r0: "lan_recv_packet st = Inr (True, st\<lparr>ln_net := rest, ln_rsp := r0\<rparr>)" "lan_holds r0 p"
    by (rule lan_recv_pkt [OF assms(1) lp(2,3) assms(6)])
  obtain h hs where h: "hdr = h # hs" "length hs = 8"
    using assms(4) by (cases hdr) auto
  have ns: "rs_data r0 ! 3 = RMCP_CLASS_IPMI" "rs_data r0 ! 14 = sq" "rs_data r0 ! 15 = acked" "rs_data r0 ! 16 = n"
    using lan_holds_nth [OF r0(2)] lp h by (simp_all add: assms(2) lan_sol_answer_def nth_append)
  have "drop 9 p = drop 5 hdr @ [of_nat (length d + 5), sq, acked, n, flags, 0] @ d" "length (drop 5 hdr) = 4"
    using h by (simp_all add: assms(2) lan_sol_answer_def)
  then have "of_le32 (drop 9 p) = of_le32 (drop 5 hdr)"
    by (subst (1 2) of_le32_nth) (simp add: nth_append)
  then have id: "of_le32 (drop 9 (rs_data r0)) = ls_session_id (ln_ssn st) + 0x10000000"
    using lan_holds_le32 [OF r0(2), of 9] lp assms(5) by simp
  define r1 where "r1 = fst (lan_read_sol (lan_session_header r0))"
  have r1: "lan_read_sol (lan_session_header r0) = (r1, 19)" "rs_data r1 = rs_data r0" "rs_data_len r1 = int (length p)"
    "rs_payloadtype r1 = IPMI_PAYLOAD_TYPE_SOL" "\<exists>s. rs_payload r1 = PSol s \<and> sp_seq s = sq AND 0x0F \<and> sp_acked s = acked AND 0x0F \<and> sp_accepted s = n"
    using ns r0(2) by (simp_all add: r1_def lan_read_sol_def read_sol_packet_def Let_def lan_holds_def)
  let ?st = "st\<lparr>ln_net := rest, ln_rsp := r0\<rparr>"
  have "lan_look ?st = Inr (LnTaken 19, st\<lparr>ln_net := rest, ln_rsp := r1\<rparr>)"
    using ns(1) id r1(1) by (simp add: lan_look_def Let_def RMCP_CLASS_ASF_def RMCP_CLASS_IPMI_def)
  then have poll: "lan_poll_recv st = Inr (True, st\<lparr>ln_net := rest, ln_rsp := lan_shift 19 r1\<rparr>)"
    using r0(1) by (simp add: lan_poll_recv_def lan_poll_loop.simps [of ?st])
  have tk: "take (length p) (rs_data r1) = p" "length (rs_data r1) = 1024"
    using r0(2) r1(2) by (simp_all add: lan_holds_def)
  have "rs_data_len (lan_shift 19 r1) = int (if d = [] then length p else length d)
    \<and> take (nat (rs_data_len (lan_shift 19 r1))) (rs_data (lan_shift 19 r1)) = (if d = [] then p else d)"
  proof (cases "d = []")
    case True
    then show ?thesis
      using r1(3) lp(1) tk(1) by (simp add: lan_shift_def)
  next
    case False
    have "region (rs_data r1) 19 (length d) = region (take (length p) (rs_data r1)) 19 (length d)"
      using lp(1) by (simp add: region_def drop_take)
    also have "\<dots> = d"
      using h unfolding tk(1) by (simp add: region_def assms(2) lan_sol_answer_def)
    finally have reg: "region (rs_data r1) 19 (length d) = d" .
    have n: "int 19 < rs_data_len r1" "nat (rs_data_len r1) - 19 - 0 = length d"
      using False lp(1) r1(3) by simp_all
    have "lan_shift 19 r1 = r1\<lparr>rs_data := put_at (move_front (rs_data r1) 19 (length d)) (length d) (replicate (1024 - length d) 0),
        rs_data_len := int (length d)\<rparr>"
      using n r1(4) by (simp add: lan_shift_def IPMI_BUF_SIZE_def payload_types Let_def)
    then show ?thesis
      using False assms(3) tk(2) reg by (simp add: move_front_def take_put_at) (simp add: put_at_def)
  qed
  moreover have "rs_payloadtype (lan_shift 19 r1) = IPMI_PAYLOAD_TYPE_SOL" "rs_payload (lan_shift 19 r1) = rs_payload r1"
    using r1(4) by (simp_all add: lan_shift_def Let_def)
  ultimately show thesis
    using that [OF poll] r1(5) by force
qed

text \<open>C19: a Serial over LAN packet with characters hands on exactly these; one without characters, a mere
  acknowledgement, hands on its own 19 bytes, which the input handler shows as if they were characters.\<close>

theorem lan_sol_header_as_characters:
  assumes "length (rs_data (ln_rsp st)) = 1024" "p = lan_sol_answer hdr 0 acked n flags d" "length d < 900"
    and "length hdr = 9" "of_le32 (drop 5 hdr) = ls_session_id (ln_ssn st) + 0x10000000" "ln_net st = NetPkt p # rest"
    and "ln_sol_seq st \<noteq> 0 \<or> ln_sol_count st = 0"
  shows "\<exists>st'. lan_recv_sol k st = Inr (True, st') \<and> ln_net st' = rest \<and> ln_sent st' = ln_sent st
    \<and> ln_console (lan_sol_input st') = ln_console st @ [if d = [] then p else d]"
proof -
  obtain r s where r: "lan_poll_recv st = Inr (True, st\<lparr>ln_net := rest, ln_rsp := r\<rparr>)" "rs_payloadtype r = IPMI_PAYLOAD_TYPE_SOL"
    "rs_payload r = PSol s" "sp_seq s = 0 AND 0x0F"
    "rs_data_len r = int (if d = [] then length p else length d)" "take (nat (rs_data_len r)) (rs_data r) = (if d = [] then p else d)"
    by (rule lan_poll_sol [OF assms(1-6)])
  let ?st = "st\<lparr>ln_net := rest, ln_rsp := r\<rparr>"
  have ack: "lan_ack_sol_packet k ?st = Inr ?st"
    using r(2-4) by (simp add: lan_ack_sol_packet_def lan_is_sol_packet_def sol_packet_def)
  have "\<exists>x st'. lan_check_sol_packet ?st = Inr (x, st') \<and> ln_net st' = rest \<and> ln_sent st' = ln_sent st \<and> ln_console st' = ln_console st
      \<and> rs_data_len (ln_rsp st') = rs_data_len r \<and> take (nat (rs_data_len r)) (rs_data (ln_rsp st')) = take (nat (rs_data_len r)) (rs_data r)"
  proof (cases "ln_sol_seq st = 0")
    case True
    then have "ln_sol_count st = 0"
      using assms(7) by simp
    then show ?thesis
      using True r(2-4)
      by (simp add: lan_check_sol_packet_def lan_is_sol_packet_def sol_packet_def Let_def move_front_def put_at_def region_def)
        (use nat_le_linear in blast)
  next
    case False
    then show ?thesis
      using r(2-4) by (simp add: lan_check_sol_packet_def lan_is_sol_packet_def sol_packet_def Let_def)
  qed
  then show ?thesis
    using r(1,6) ack by (auto simp: lan_recv_sol_def lan_sol_input_def)
qed

theorem lan_sol_header_as_characters_witness:
  "\<exists>st'. lan_recv_sol 0 (sample_lan sample_lan_session [NetPkt (lan_sol_answer [0, 0, 0, 0, 0, 4, 3, 2, 0x11] 0 1 2 0 [])] (\<lambda>_. True)) = Inr (True, st')
    \<and> ln_console (lan_sol_input st') = [[6, 0, 0xFF, 7, 0, 0, 0, 0, 0, 4, 3, 2, 0x11, 5, 0, 1, 2, 0, 0]]"
proof -
  let ?p = "lan_sol_answer [0, 0, 0, 0, 0, 4, 3, 2, 0x11] 0 1 2 0 []"
  let ?st = "sample_lan sample_lan_session [NetPkt ?p] (\<lambda>_. True)"
  have id: "of_le32 (drop 5 [0, 0, 0, 0, 0, 4, 3, 2, 0x11]) = ls_session_id sample_lan_session + 0x10000000"
    by (simp add: of_le32_def sample_lan_session_def)
  have p: "?p = [6, 0, 0xFF, 7, 0, 0, 0, 0, 0, 4, 3, 2, 0x11, 5, 0, 1, 2, 0, 0]" "ln_console ?st = []"
    by (simp_all add: lan_sol_answer_def RMCP_CLASS_IPMI_def sample_lan_def)
  show ?thesis
    using lan_sol_header_as_characters [of ?st ?p "[0, 0, 0, 0, 0, 4, 3, 2, 0x11]" 1 2 0 "[]" "[]" 0] id p by auto
qed

end
