(* ===== verification/LanOpenProps.thy ===== *)
theory LanOpenProps
  imports LanSendProps
begin

text \<open>
  The properties of the session of the LAN 1.5 transport: what an open interface can rely on, and that opening
  succeeds with a BMC that answers the commands in turn.
\<close>

section \<open>An open session\<close>

lemma lan_kept_ssn: "lan_kept st st' \<Longrightarrow> lan_same_ssn (ln_ssn st) (ln_ssn st')"
  by (simp add: lan_kept_def)

lemma lan_ping_kept:
  assumes "ipmi_lan_ping st = Inr (rc, st')"
  shows "lan_kept st st'"
proof -
  obtain ok st1 where st1: "lan_send_packet lan_ping_packet st = (ok, st1)"
    by fastforce
  have "lan_kept st1 st'"
    using assms st1 by (auto simp: ipmi_lan_ping_def bind_ok_Inr_iff dest!: lan_poll_polled lan_polled_kept split: if_split_asm)
  then show ?thesis
    using lan_send_kept [OF st1] lan_kept_trans by blast
qed

text \<open>What is fixed while the session is set up.\<close>

definition lan_fixed :: "lan_state \<Rightarrow> lan_state \<Rightarrow> bool" where
  "lan_fixed st st' \<longleftrightarrow> ln_intf st' = ln_intf st \<and> ln_live st' = ln_live st \<and> ln_rand st' = ln_rand st
     \<and> (length (rs_data (ln_rsp st)) = 1024 \<longrightarrow> length (rs_data (ln_rsp st')) = 1024)"

lemma lan_kept_fixed: "lan_kept st st' \<Longrightarrow> lan_fixed st st'"
  by (simp add: lan_kept_def lan_fixed_def)

lemma lan_auth_cap_result:
  assumes "lan_auth_capabilities_cmd k md2 st = Inr (rc, st')" "0 \<le> rc"
  obtains s t status where "lan_same_ssn (ln_ssn st) s" "ln_ssn st' = s\<lparr>ls_authstatus := status, ls_authtype := t\<rparr>"
    "\<exists>offered. lan_pick_authtype (ssn_params (ln_intf st)) offered = Some t" "lan_fixed st st'"
proof -
  obtain r st1 where st1: "lan_command k md2 (mk_rq IPMI_NETFN_APP 0x38 [0x0E, privlvl (ssn_params (ln_intf st))]) st = Inr (r, st1)"
    using assms(1) by (auto simp: lan_auth_capabilities_cmd_def bind_ok_Inr_iff)
  have kept: "lan_kept st st1"
    using lan_command_kept [OF st1] by simp
  then have i: "ln_intf st1 = ln_intf st"
    by (simp add: lan_kept_def)
  have "r \<noteq> None"
    using assms st1 by (cases r) (simp_all add: lan_auth_capabilities_cmd_def)
  then obtain rsp where r: "r = Some rsp"
    by auto
  have ok: "rs_ccode rsp = 0"
    using assms st1 r by (auto simp: lan_auth_capabilities_cmd_def split: if_split_asm)
  have "lan_pick_authtype (ssn_params (ln_intf st)) (rs_data rsp ! 1) \<noteq> None"
    using assms st1 r ok i
    by (cases "lan_pick_authtype (ssn_params (ln_intf st)) (rs_data rsp ! 1)")
      (simp_all add: lan_auth_capabilities_cmd_def on_lan_ssn_def Let_def)
  then obtain t where t: "lan_pick_authtype (ssn_params (ln_intf st)) (rs_data rsp ! 1) = Some t"
    by auto
  have "st' = st1\<lparr>ln_ssn := (ln_ssn st1)\<lparr>ls_authstatus := rs_data rsp ! 2, ls_authtype := t\<rparr>\<rparr>"
    using assms st1 r ok i t by (simp add: lan_auth_capabilities_cmd_def on_lan_ssn_def)
  then show thesis
    using that [where s = "ln_ssn st1" and status = "rs_data rsp ! 2" and t = t] lan_kept_ssn [OF kept] lan_kept_fixed [OF kept] t
    by (auto simp: lan_fixed_def)
qed

lemma lan_challenge_result:
  assumes "ipmi_get_session_challenge_cmd k md2 st = Inr (rc, st')" "0 \<le> rc"
  obtains s n c where "lan_same_ssn (ln_ssn st) s" "ln_ssn st' = s\<lparr>ls_session_id := n, ls_challenge := c\<rparr>" "lan_fixed st st'"
proof -
  obtain r st1 where st1: "lan_command k md2 (mk_rq IPMI_NETFN_APP 0x39 (ls_authtype (ln_ssn st) #
      take 16 (username (ssn_params (ln_intf st)) @ replicate 16 0))) st = Inr (r, st1)"
    using assms(1) by (auto simp: ipmi_get_session_challenge_cmd_def Let_def bind_ok_Inr_iff)
  have kept: "lan_kept st st1"
    using lan_command_kept [OF st1] by simp
  have "r \<noteq> None"
    using assms st1 by (cases r) (simp_all add: ipmi_get_session_challenge_cmd_def Let_def)
  then obtain rsp where r: "r = Some rsp"
    by auto
  have "rs_ccode rsp = 0"
    using assms st1 r by (auto simp: ipmi_get_session_challenge_cmd_def split: if_split_asm)
  then have "st' = st1\<lparr>ln_ssn := (ln_ssn st1)\<lparr>ls_session_id := of_le32 (rs_data rsp), ls_challenge := region (rs_data rsp) 4 16\<rparr>\<rparr>"
    using assms st1 r by (simp add: ipmi_get_session_challenge_cmd_def on_lan_ssn_def)
  then show thesis
    using that [OF lan_kept_ssn [OF kept], where n = "of_le32 (rs_data rsp)" and c = "region (rs_data rsp) 4 16"] lan_kept_fixed [OF kept]
    by (auto simp: lan_fixed_def)
qed

lemma lan_activate_result:
  assumes "ipmi_activate_session_cmd k md2 st = Inr (rc, st')" "0 \<le> rc"
  shows "ls_active (ln_ssn st') \<and> ls_in_seq (ln_ssn st') \<noteq> 0
    \<and> (ls_authtype (ln_ssn st') = ls_authtype (ln_ssn st)
      \<or> ls_authtype (ln_ssn st') = 0 \<and> ls_authstatus (ln_ssn st) AND 0x10 \<noteq> 0)
    \<and> ln_intf st' = ln_intf st \<and> ln_live st' = ln_live st
    \<and> (length (rs_data (ln_rsp st)) = 1024 \<longrightarrow> length (rs_data (ln_rsp st')) = 1024)"
proof -
  let ?special = "ipmi_oem_active (ln_intf st) ''supermicro''"
  let ?st1 = "if ?special then on_lan_ssn (\<lambda>s. s\<lparr>ls_authcode := put_at (ls_authcode s) 0 (ipmi_auth_special s)\<rparr>) st else st"
  obtain rnd st2 where st2: "lan_random ?st1 = (rnd, st2)"
    by fastforce
  let ?st2 = "on_lan_ssn (\<lambda>s. s\<lparr>ls_active := True\<rparr>) st2"
  have same: "ln_intf ?st2 = ln_intf st" "ln_live ?st2 = ln_live st" "ln_rsp ?st2 = ln_rsp st" "ls_active (ln_ssn ?st2)"
    "ls_authtype (ln_ssn ?st2) = ls_authtype (ln_ssn st)" "ls_authstatus (ln_ssn ?st2) = ls_authstatus (ln_ssn st)"
    using st2 by (auto simp: lan_random_def on_lan_ssn_def split: if_split_asm)
  obtain data r st3 where st3: "lan_command k md2 data ?st2 = Inr (r, st3)"
    and res: "(case r of
             None \<Rightarrow> Inr (-1, on_lan_ssn (\<lambda>s. s\<lparr>ls_active := False\<rparr>) st3)
           | Some rsp \<Rightarrow>
               if rs_ccode rsp \<noteq> 0 then Inr (-1, st3)
               else let (rc, s') = lan_activated (rs_data rsp) (ln_ssn st3) in Inr (rc, st3\<lparr>ln_ssn := s'\<rparr>)) = (Inr (rc, st') :: (int \<times> lan_state) outcome)"
    using assms(1) st2 unfolding ipmi_activate_session_cmd_def Let_def
    by (auto simp: bind_ok_Inr_iff split: if_split_asm)
  obtain rsp s' where rsp: "r = Some rsp" "lan_activated (rs_data rsp) (ln_ssn st3) = (rc, s')" "st' = st3\<lparr>ln_ssn := s'\<rparr>"
    using res assms(2) by (auto split: option.split_asm if_split_asm prod.split_asm)
  have kept: "lan_kept ?st2 st3"
    using lan_command_kept [OF st3] by simp
  then have s3: "ls_active (ln_ssn st3)" "ls_authtype (ln_ssn st3) = ls_authtype (ln_ssn st)"
    "ls_authstatus (ln_ssn st3) = ls_authstatus (ln_ssn st)"
    using same by (cases "ln_ssn st3"; cases "ln_ssn ?st2"; auto simp: lan_kept_def lan_same_ssn_def)+
  have "ls_active s' \<and> ls_in_seq s' \<noteq> 0
      \<and> (ls_authtype s' = ls_authtype (ln_ssn st3) \<or> ls_authtype s' = 0 \<and> ls_authstatus (ln_ssn st3) AND 0x10 \<noteq> 0)"
    using rsp(2) assms(2) s3(1) by (auto simp: lan_activated_def Let_def IPMI_SESSION_AUTHTYPE_NONE_def split: if_split_asm)
  then show ?thesis
    using s3 rsp(3) kept same by (simp add: lan_kept_def)
qed

lemma lan_privlvl_result:
  assumes "lan_set_session_privlvl_cmd k md2 st = Inr (rc, st')"
  shows "lan_fixed st st' \<and> lan_same_ssn (ln_ssn st) (ln_ssn st')"
proof (cases "privlvl (ssn_params (ln_intf st)) \<le> 2")
  case True
  then show ?thesis
    using assms by (simp add: lan_set_session_privlvl_cmd_def lan_fixed_def)
next
  case False
  then obtain r st1 where st1: "lan_command k md2 (mk_rq IPMI_NETFN_APP 0x3b [privlvl (ssn_params (ln_intf st))]) (st\<lparr>ln_bridge := False\<rparr>) = Inr (r, st1)"
    "st' = st1\<lparr>ln_bridge := ln_bridge st\<rparr>"
    using assms by (auto simp: lan_set_session_privlvl_cmd_def Let_def bind_ok_Inr_iff)
  show ?thesis
    using lan_command_kept [OF st1(1)] by (simp add: st1(2) lan_kept_def lan_fixed_def)
qed

text \<open>The types the user allows, and none when the BMC does without codes.\<close>

definition lan_allowed :: "ipmi_session_params \<Rightarrow> byte \<Rightarrow> bool" where
  "lan_allowed p t \<longleftrightarrow> (\<exists>offered. lan_pick_authtype p offered = Some t)"

lemma lan_pick_authtype_allowed:
  assumes "lan_allowed p t"
  shows "(authtype_set p \<noteq> 0 \<longrightarrow> t = authtype_set p) \<and> (t \<noteq> 0 \<longrightarrow> has_password p)"
  using assms by (auto simp: lan_allowed_def lan_pick_authtype_def Let_def IPMI_SESSION_AUTHTYPE_NONE_def split: if_split_asm)

lemma lan_activation_result:
  assumes "ipmi_lan_activate_session k md2 st = Inr (rc, st')" "0 \<le> rc" "length (rs_data (ln_rsp st)) = 1024"
  obtains t where "ls_active (ln_ssn st')" "ls_in_seq (ln_ssn st') \<noteq> 0" "lan_allowed (ssn_params (ln_intf st)) t"
    "ls_authtype (ln_ssn st') = t \<or> ls_authtype (ln_ssn st') = 0" "ln_intf st' = (ln_intf st)\<lparr>intf_abort := False\<rparr>"
    "ln_live st' = ln_live st" "length (rs_data (ln_rsp st')) = 1024"
proof -
  obtain x st1 where st1: "(if ipmi_oem_active (ln_intf st) ''supermicro'' then Inr (0, st) else ipmi_lan_ping st) = Inr (x, st1)"
    using assms(1) by (auto simp: ipmi_lan_activate_session_def bind_ok_Inr_iff)
  define st2 where "st2 = (if ipmi_oem_active (ln_intf st1) ''intelwv2'' then ipmi_lan_thump_first st1 else st1)"
  have "lan_kept st st1"
    using st1 lan_ping_kept by (auto split: if_split_asm)
  moreover have "lan_kept st1 st2"
    by (simp add: st2_def ipmi_lan_thump_first_def lan_send_packet_def Let_def)
  ultimately have k2: "lan_fixed st st2"
    using lan_kept_trans lan_kept_fixed by blast
  note def = assms(1) [unfolded ipmi_lan_activate_session_def st1 bind_ok_simps prod.case Let_def st2_def [symmetric] lan_then_def]
  obtain r3 st3 where st3: "lan_auth_capabilities_cmd k md2 st2 = Inr (r3, st3)" "0 \<le> r3"
    using def assms(2) by (auto simp: bind_ok_Inr_iff not_less split: if_split_asm)
  obtain r4 st4 where st4: "ipmi_get_session_challenge_cmd k md2 st3 = Inr (r4, st4)" "0 \<le> r4"
    using def assms(2) st3 by (auto simp: bind_ok_Inr_iff not_less split: if_split_asm)
  obtain r5 st5 where st5: "ipmi_activate_session_cmd k md2 st4 = Inr (r5, st5)" "0 \<le> r5"
    using def assms(2) st3 st4 by (auto simp: bind_ok_Inr_iff not_less split: if_split_asm)
  obtain r6 where st6: "lan_set_session_privlvl_cmd k md2 (on_lan_intf (\<lambda>i. i\<lparr>intf_abort := False\<rparr>) st5) = Inr (r6, st')"
    using def assms(2) st3 st4 st5 by (auto simp: bind_ok_Inr_iff split: if_split_asm)
  obtain s3 t status where a3: "ln_ssn st3 = s3\<lparr>ls_authstatus := status, ls_authtype := t\<rparr>"
    "\<exists>offered. lan_pick_authtype (ssn_params (ln_intf st2)) offered = Some t" "lan_fixed st2 st3"
    by (rule lan_auth_cap_result [OF st3])
  obtain s4 n c where a4: "lan_same_ssn (ln_ssn st3) s4" "ln_ssn st4 = s4\<lparr>ls_session_id := n, ls_challenge := c\<rparr>" "lan_fixed st3 st4"
    by (rule lan_challenge_result [OF st4])
  have t4: "ls_authtype (ln_ssn st4) = t"
    using a3(1) a4(1,2) by (cases s4) (simp add: lan_same_ssn_def)
  note a5 = lan_activate_result [OF st5]
  note a6 = lan_privlvl_result [OF st6]
  have s6: "ls_active (ln_ssn st') = ls_active (ln_ssn st5)" "ls_authtype (ln_ssn st') = ls_authtype (ln_ssn st5)"
    "ls_in_seq (ln_ssn st') = 0 \<longleftrightarrow> ls_in_seq (ln_ssn st5) = 0"
    using a6 by (cases "ln_ssn st'"; cases "ln_ssn st5"; simp add: lan_same_ssn_def on_lan_intf_def)+
  show thesis
  proof (rule that [of t])
    show "ls_active (ln_ssn st')" "ls_in_seq (ln_ssn st') \<noteq> 0" "ls_authtype (ln_ssn st') = t \<or> ls_authtype (ln_ssn st') = 0"
      using a5 s6 t4 by auto
    show "lan_allowed (ssn_params (ln_intf st)) t"
      using a3(2) k2 by (simp add: lan_allowed_def lan_fixed_def)
    show "ln_intf st' = (ln_intf st)\<lparr>intf_abort := False\<rparr>" "ln_live st' = ln_live st" "length (rs_data (ln_rsp st')) = 1024"
      using a6 a5 a4(3) a3(3) k2 assms(3) by (simp_all add: lan_fixed_def on_lan_intf_def)
  qed
qed

lemma lan_size_setters:
  "opened (ipmi_intf_set_max_request_data_size (Some ipmi_lan_set_max_rq_data_size) i n) = opened i"
  "intf_abort (ipmi_intf_set_max_request_data_size (Some ipmi_lan_set_max_rq_data_size) i n) = intf_abort i"
  "fd (ipmi_intf_set_max_request_data_size (Some ipmi_lan_set_max_rq_data_size) i n) = fd i"
  "ssn_params (ipmi_intf_set_max_request_data_size (Some ipmi_lan_set_max_rq_data_size) i n) = ssn_params i"
  "opened (ipmi_intf_set_max_response_data_size (Some ipmi_lan_set_max_rp_data_size) i n) = opened i"
  "intf_abort (ipmi_intf_set_max_response_data_size (Some ipmi_lan_set_max_rp_data_size) i n) = intf_abort i"
  "fd (ipmi_intf_set_max_response_data_size (Some ipmi_lan_set_max_rp_data_size) i n) = fd i"
  "ssn_params (ipmi_intf_set_max_response_data_size (Some ipmi_lan_set_max_rp_data_size) i n) = ssn_params i"
  by (simp_all add: ipmi_intf_set_max_request_data_size_def ipmi_intf_set_max_response_data_size_def
      ipmi_lan_set_max_rq_data_size_def ipmi_lan_set_max_rp_data_size_def)

text \<open>The parameters, the descriptor and the flags of the interface while its session is open.\<close>

definition lan_opened :: "ipmi_session_params \<Rightarrow> int \<Rightarrow> ipmi_intf \<Rightarrow> bool \<Rightarrow> bool" where
  "lan_opened p f i live \<longleftrightarrow> opened i \<and> \<not> intf_abort i \<and> fd i = f \<and> ssn_params i = p \<and> live"

text \<open>C11: an interface that was opened has an active session with a sequence number other than 0, and its
  authentication type is one the user allows: the type asked for, or none when the BMC does without codes, and one
  other than none only with a password.\<close>

theorem lan_open_activated:
  assumes "ipmi_lan_open k md2 iana sock named st = Inr (rc, st')" "0 \<le> rc" "length (rs_data (ln_rsp st)) = 1024"
    and "p = lan_default_params (ssn_params (ln_intf st))" "s' = ln_ssn st'"
  shows "lan_opened p rc (ln_intf st') (ln_live st') \<and> ln_bridge st' \<and> ls_active s' \<and> ls_in_seq s' \<noteq> 0
    \<and> (authtype_set p \<noteq> 0 \<longrightarrow> ls_authtype s' \<in> {authtype_set p, 0}) \<and> (ls_authtype s' \<noteq> 0 \<longrightarrow> has_password p)"
proof -
  define st1 where "st1 = on_lan_intf (on_params lan_default_params) st"
  define st2 where "st2 = on_lan_intf (\<lambda>i. i\<lparr>fd := snd sock\<rparr>) st1"
  define st3 where "st3 = (on_lan_intf (\<lambda>i. i\<lparr>opened := True, intf_abort := True\<rparr>) st2)
      \<lparr>ln_live := True, ln_ssn := lan_new_session (ssn_params (ln_intf st2))\<rparr>"
  note def = assms(1) [unfolded ipmi_lan_open_def Let_def st1_def [symmetric] st2_def [symmetric] st3_def [symmetric]]
  have go: "\<not> opened (ln_intf st)" "fst sock"
    using def assms(2) by (auto split: if_split_asm)
  then obtain rc4 st4 where st4: "(if named then ipmi_lan_activate_session k md2 st3 else Inr (-1, st3)) = Inr (rc4, st4)"
    using def assms(2) by (auto simp: bind_ok_Inr_iff split: if_split_asm)
  have rc4: "\<not> rc4 < 0"
    using def assms(2) go st4 by (auto simp: bind_ok_Inr_iff split: if_split_asm)
  then have named: named and act: "ipmi_lan_activate_session k md2 st3 = Inr (rc4, st4)"
    using st4 by (auto split: if_split_asm)
  have p3: "ssn_params (ln_intf st3) = p" "fd (ln_intf st3) = snd sock" "opened (ln_intf st3)" "ln_live st3" "length (rs_data (ln_rsp st3)) = 1024"
    using assms(3,4) by (simp_all add: st3_def st2_def st1_def on_lan_intf_def on_params_def)
  obtain t where t: "ls_active (ln_ssn st4)" "ls_in_seq (ln_ssn st4) \<noteq> 0" "lan_allowed p t"
    "ls_authtype (ln_ssn st4) = t \<or> ls_authtype (ln_ssn st4) = 0" "ln_intf st4 = (ln_intf st3)\<lparr>intf_abort := False\<rparr>"
    "ln_live st4 = ln_live st3" "length (rs_data (ln_rsp st4)) = 1024"
    using lan_activation_result [OF act _ p3(5)] rc4 p3(1) by (metis not_less)
  define I where "I = (\<lambda>st :: lan_state. length (rs_data (ln_rsp st)) = 1024 \<and> lan_opened p (snd sock) (ln_intf st) (ln_live st)
    \<and> lan_same_ssn (ln_ssn st4) (ln_ssn st))"
  have i4: "I st4"
    using t(5-7) p3 by (simp add: I_def lan_opened_def)
  obtain err st5 m st6 where st5: "hpm2_detect_max_payload_size (lan_command k md2)
      (\<lambda>n. on_lan_intf (\<lambda>i. ipmi_intf_set_max_request_data_size (Some ipmi_lan_set_max_rq_data_size) i n))
      (\<lambda>n. on_lan_intf (\<lambda>i. ipmi_intf_set_max_response_data_size (Some ipmi_lan_set_max_rp_data_size) i n)) st4 = Inr (err, st5)"
    and st6: "ipmi_get_oem (lan_command k md2) iana (ln_intf st5) st5 = Inr (m, st6)"
    and st': "rc = fd (ln_intf st6)" "st' = (on_lan_intf (\<lambda>i. i\<lparr>manufacturer_id := m\<rparr>) st6)\<lparr>ln_bridge := True\<rparr>"
    using def go st4 rc4 assms(2) by (auto simp: bind_ok_Inr_iff on_lan_intf_def split: if_split_asm)
  have "I st5"
    unfolding I_def
    by (rule lan.detect_inv [where Q = "lan_opened p (snd sock)" and s = "ln_ssn st4" and st = st4, OF _ st5])
      (use i4 in \<open>simp_all add: I_def on_lan_intf_def lan_opened_def lan_size_setters\<close>)
  then have "I st6"
    unfolding I_def by (rule lan.oem_inv [where Q = "lan_opened p (snd sock)" and s = "ln_ssn st4" and st = st5, OF _ st6])
  then have i: "lan_opened p (snd sock) (ln_intf st6) (ln_live st6)" "lan_same_ssn (ln_ssn st4) (ln_ssn st6)"
    by (simp_all add: I_def)
  have "ls_active (ln_ssn st6) = ls_active (ln_ssn st4)" "ls_authtype (ln_ssn st6) = ls_authtype (ln_ssn st4)"
    "ls_in_seq (ln_ssn st6) = 0 \<longleftrightarrow> ls_in_seq (ln_ssn st4) = 0"
    using i(2) by (cases "ln_ssn st6"; cases "ln_ssn st4"; simp add: lan_same_ssn_def)+
  then show ?thesis
    using i(1) st' t(1,2,4) lan_pick_authtype_allowed [OF t(3)] assms(5)
    by (auto simp: lan_opened_def on_lan_intf_def)
qed

end
