(* ===== verification/LanHonest.thy ===== *)
theory LanHonest
  imports LanOpenProps
begin

text \<open>
  Opening the LAN 1.5 transport with a BMC that answers its commands in turn: each command gets its
  response, and the session ends up active with the numbers the BMC chose.
\<close>

section \<open>A BMC that answers in turn\<close>

text \<open>The responses, each with its header, code, command, completion code and data, under the numbers the commands will have.\<close>

fun lan_script :: "byte \<Rightarrow> (bytes \<times> bytes \<times> byte \<times> byte \<times> bytes) list \<Rightarrow> net_event list" where
  "lan_script q [] = []"
| "lan_script q ((hdr, code, cm, cc, d) # rs) =
     NetPkt (lan_answer hdr code (lan_reply 0x1C (lan_next_seq False q) cm cc d)) # lan_script (lan_next_seq False q) rs"

text \<open>The client is idle, and these are the responses to come.\<close>

definition lan_idle :: "(bytes \<times> bytes \<times> byte \<times> byte \<times> bytes) list \<Rightarrow> net_event list \<Rightarrow> lan_state \<Rightarrow> bool" where
  "lan_idle rs rest st \<longleftrightarrow> table_ok (ln_reqs st) \<and> pending (ln_reqs st) = [] \<and> length (rs_data (ln_rsp st)) = 1024
     \<and> \<not> ln_bridge st \<and> (\<forall>j. ln_up st j) \<and> \<not> noanswer (ln_intf st) \<and> 0 < retry (ssn_params (ln_intf st))
     \<and> ln_net st = lan_script (ln_curr_seq st) rs @ rest"

lemma lan_next_seq_less: "lan_next_seq False q < 64"
  by (simp add: lan_next_seq_def Let_def not_le)

lemma lan_ask:
  assumes "lan_idle ((hdr, code, rq_cmd req, cc, d) # rs) rest st" "lan_header_for (ln_ssn st) hdr code" "cc \<noteq> 0xCF" "length d < 900" "0 < k"
  obtains st' where "lan_command k md2 req st = Inr (Some (ln_rsp st'), st')" "lan_got cc d st'" "lan_idle rs rest st'" "lan_kept st st'"
    "\<exists>q ms. ln_sent st' = ln_sent st @ lan_packet md2 False (ln_intf st) (ln_ssn st) req q # ms"
proof -
  let ?q = "lan_next_seq False (ln_curr_seq st)"
  have i: "table_ok (ln_reqs st)" "pending (ln_reqs st) = []" "length (rs_data (ln_rsp st)) = 1024" "\<forall>j. ln_up st j"
    "\<not> noanswer (ln_intf st)" "\<not> ln_bridge st" "0 < retry (ssn_params (ln_intf st))"
    "ln_net st = NetPkt (lan_answer hdr code (lan_reply 0x1C ?q (rq_cmd req) cc d)) # lan_script ?q rs @ rest"
    using assms(1) by (simp_all add: lan_idle_def)
  have b: "lan_bridging (ln_bridge st) (ln_intf st) = 0"
    using i(6) by (simp add: lan_bridging_def)
  obtain st' where st': "lan_command k md2 req st = Inr (Some (ln_rsp st'), st')" "lan_got cc d st'" "ln_net st' = lan_script ?q rs @ rest"
    "table_ok (ln_reqs st')" "pending (ln_reqs st') = []" "ln_curr_seq st' = ?q"
    "\<exists>ms. ln_sent st' = ln_sent st @ lan_packet md2 (ln_bridge st) (ln_intf st) (ln_ssn st) req ?q # ms"
    using lan_command_answered [OF i(1-3) b i(4,5) refl lan_next_seq_less _ assms(2) refl assms(3,4), where nss = "[]" and ns = "[]" and nf = "0x1C"
        and req = req and rest = "lan_script ?q rs @ rest" and k = k and ?md2.0 = md2]
      i(7,8) assms(5) by auto
  have kept: "lan_kept st st'"
    using lan_command_kept [OF st'(1)] by simp
  then have "lan_idle rs rest st'"
    using st'(2-6) i by (simp add: lan_idle_def lan_kept_def lan_got_def)
  then show thesis
    using that [OF st'(1,2) _ kept] st'(7) i(6) by auto
qed

lemma lan_same_zero: "ls_in_seq s = 0 \<Longrightarrow> lan_same_ssn s s' \<Longrightarrow> s' = s"
  by (cases s; cases s') (simp add: lan_same_ssn_def)

lemma lan_got_nth: "lan_got cc d st \<Longrightarrow> i < length d \<Longrightarrow> rs_data (ln_rsp st) ! i = d ! i"
  unfolding lan_got_def by (metis nth_take)

lemma lan_got_drop:
  assumes "lan_got cc d st" "i + 4 \<le> length d"
  shows "of_le32 (drop i (rs_data (ln_rsp st))) = of_le32 (drop i d)"
proof -
  have "length d \<le> 1024"
    using assms(1) unfolding lan_got_def by (metis length_take min.cobounded1 min_def)
  then have "drop i (rs_data (ln_rsp st)) ! j = drop i d ! j" if "j < 4" for j
    using lan_got_nth [OF assms(1), of "i + j"] assms that by (simp add: lan_got_def)
  then show ?thesis
    by (subst (1 2) of_le32_nth) simp
qed

section \<open>The commands of the opening\<close>

lemma lan_idle_cong:
  "lan_idle rs rest st \<Longrightarrow> ln_reqs st' = ln_reqs st \<Longrightarrow> ln_rsp st' = ln_rsp st \<Longrightarrow> ln_bridge st' = ln_bridge st \<Longrightarrow> ln_up st' = ln_up st
   \<Longrightarrow> noanswer (ln_intf st') = noanswer (ln_intf st) \<Longrightarrow> retry (ssn_params (ln_intf st')) = retry (ssn_params (ln_intf st))
   \<Longrightarrow> ln_net st' = ln_net st \<Longrightarrow> ln_curr_seq st' = ln_curr_seq st \<Longrightarrow> lan_idle rs rest st'"
  by (simp add: lan_idle_def)

lemma lan_capabilities_answered:
  assumes "lan_idle ((hdr, code, 0x38, 0, caps) # rs) rest st" "lan_header_for (ln_ssn st) hdr code" "length caps < 900" "0 < k"
    and "3 \<le> length caps" "lan_pick_authtype (ssn_params (ln_intf st)) (caps ! 1) = Some t" "ls_in_seq (ln_ssn st) = 0"
  obtains st' where "lan_auth_capabilities_cmd k md2 st = Inr (0, st')" "lan_idle rs rest st'" "lan_fixed st st'"
    "ln_ssn st' = (ln_ssn st)\<lparr>ls_authstatus := caps ! 2, ls_authtype := t\<rparr>"
proof -
  let ?rq = "mk_rq IPMI_NETFN_APP 0x38 [0x0E, privlvl (ssn_params (ln_intf st))]"
  obtain st1 where st1: "lan_command k md2 ?rq st = Inr (Some (ln_rsp st1), st1)" "lan_got 0 caps st1" "lan_idle rs rest st1" "lan_kept st st1"
    by (rule lan_ask [of hdr code ?rq 0 caps rs rest st k md2]) (use assms in simp_all)
  have d: "rs_data (ln_rsp st1) ! 1 = caps ! 1" "rs_data (ln_rsp st1) ! 2 = caps ! 2" "rs_ccode (ln_rsp st1) = 0"
    using lan_got_nth [OF st1(2)] assms(5) st1(2) by (simp_all add: lan_got_def)
  have s: "ln_ssn st1 = ln_ssn st" "ln_intf st1 = ln_intf st"
    using lan_same_zero [OF assms(7) lan_kept_ssn [OF st1(4)]] st1(4) by (simp_all add: lan_kept_def)
  let ?st' = "st1\<lparr>ln_ssn := (ln_ssn st)\<lparr>ls_authstatus := caps ! 2, ls_authtype := t\<rparr>\<rparr>"
  have "lan_auth_capabilities_cmd k md2 st = Inr (0, ?st')"
    using st1(1) d s assms(6) by (simp add: lan_auth_capabilities_cmd_def on_lan_ssn_def)
  moreover have "lan_idle rs rest ?st'"
    by (rule lan_idle_cong [OF st1(3)]) simp_all
  moreover have "lan_fixed st ?st'"
    using lan_kept_fixed [OF st1(4)] by (simp add: lan_fixed_def)
  ultimately show thesis
    using that by simp
qed

lemma lan_challenge_answered:
  assumes "lan_idle ((hdr, code, 0x39, 0, le32 n @ c) # rs) rest st" "lan_header_for (ln_ssn st) hdr code" "0 < k"
    and "length c = 16" "ls_in_seq (ln_ssn st) = 0"
  obtains st' where "ipmi_get_session_challenge_cmd k md2 st = Inr (0, st')" "lan_idle rs rest st'" "lan_fixed st st'"
    "ln_ssn st' = (ln_ssn st)\<lparr>ls_session_id := n, ls_challenge := c\<rparr>"
proof -
  let ?rq = "mk_rq IPMI_NETFN_APP 0x39 (ls_authtype (ln_ssn st) # take 16 (username (ssn_params (ln_intf st)) @ replicate 16 0))"
  obtain st1 where st1: "lan_command k md2 ?rq st = Inr (Some (ln_rsp st1), st1)" "lan_got 0 (le32 n @ c) st1" "lan_idle rs rest st1" "lan_kept st st1"
    by (rule lan_ask [of hdr code ?rq 0 "le32 n @ c" rs rest st k md2]) (use assms in simp_all)
  have "take 20 (rs_data (ln_rsp st1)) = le32 n @ c"
    using st1(2) assms(4) by (simp add: lan_got_def)
  moreover have "region (rs_data (ln_rsp st1)) 4 16 = drop 4 (take 20 (rs_data (ln_rsp st1)))"
    by (simp add: region_def drop_take)
  ultimately have "region (rs_data (ln_rsp st1)) 4 16 = drop 4 (le32 n @ c)"
    by simp
  then have d: "of_le32 (rs_data (ln_rsp st1)) = n" "region (rs_data (ln_rsp st1)) 4 16 = c" "rs_ccode (ln_rsp st1) = 0"
    using lan_got_drop [OF st1(2), of 0] assms(4) st1(2) by (simp_all add: lan_got_def)
  have s: "ln_ssn st1 = ln_ssn st"
    using lan_same_zero [OF assms(5) lan_kept_ssn [OF st1(4)]] .
  let ?st' = "st1\<lparr>ln_ssn := (ln_ssn st)\<lparr>ls_session_id := n, ls_challenge := c\<rparr>\<rparr>"
  have "ipmi_get_session_challenge_cmd k md2 st = Inr (0, ?st')"
    using st1(1) d s by (simp add: ipmi_get_session_challenge_cmd_def Let_def on_lan_ssn_def)
  moreover have "lan_idle rs rest ?st'"
    by (rule lan_idle_cong [OF st1(3)]) simp_all
  moreover have "lan_fixed st ?st'"
    using lan_kept_fixed [OF st1(4)] by (simp add: lan_fixed_def)
  ultimately show thesis
    using that by simp
qed

lemma lan_activation_answered:
  assumes "lan_idle ((hdr, code, 0x3a, 0, act) # rs) rest st" "s = (ln_ssn st)\<lparr>ls_active := True\<rparr>" "lan_header_for s hdr code" "0 < k"
    and "10 \<le> length act" "length act < 900" "ls_in_seq (ln_ssn st) = 0" "oem (ln_intf st) = None" "ln_rand st = []"
    and "lan_activated act s = (0, s')"
  obtains st' q ms where "ipmi_activate_session_cmd k md2 st = Inr (0, st')" "lan_idle rs rest st'" "lan_fixed st st'" "ln_ssn st' = s'"
    "ln_sent st' = ln_sent st @ lan_packet md2 False (ln_intf st) s (mk_rq IPMI_NETFN_APP 0x3a
       ([ls_authtype s, privlvl (ssn_params (ln_intf st))] @ ls_challenge s @ replicate 4 0)) q # ms"
proof -
  let ?rq = "mk_rq IPMI_NETFN_APP 0x3a ([ls_authtype s, privlvl (ssn_params (ln_intf st))] @ ls_challenge s @ replicate 4 0)"
  let ?st = "st\<lparr>ln_ssn := s\<rparr>"
  have idle: "lan_idle ((hdr, code, 0x3a, 0, act) # rs) rest ?st"
    by (rule lan_idle_cong [OF assms(1)]) simp_all
  obtain st1 where st1: "lan_command k md2 ?rq ?st = Inr (Some (ln_rsp st1), st1)" "lan_got 0 act st1" "lan_idle rs rest st1" "lan_kept ?st st1"
    "\<exists>q ms. ln_sent st1 = ln_sent ?st @ lan_packet md2 False (ln_intf ?st) (ln_ssn ?st) ?rq q # ms"
    by (rule lan_ask [of hdr code ?rq 0 act rs rest ?st k md2]) (use assms idle in simp_all)
  have z: "ls_in_seq s = 0"
    using assms(2,7) by simp
  have s: "ln_ssn st1 = s"
    using lan_same_zero [OF z] lan_kept_ssn [OF st1(4)] by simp
  have "rs_data (ln_rsp st1) ! 0 = act ! 0" "of_le32 (drop 1 (rs_data (ln_rsp st1))) = of_le32 (drop 1 act)"
    "of_le32 (drop 5 (rs_data (ln_rsp st1))) = of_le32 (drop 5 act)"
    using lan_got_nth [OF st1(2), of 0] lan_got_drop [OF st1(2)] assms(5) by (cases act, simp_all)+
  then have "lan_activated (rs_data (ln_rsp st1)) s = lan_activated act s"
    by (simp only: lan_activated_def Let_def)
  then have a: "lan_activated (rs_data (ln_rsp st1)) s = (0, s')"
    using assms(10) by simp
  let ?st' = "st1\<lparr>ln_ssn := s'\<rparr>"
  have "lan_random st = (replicate 4 0, st)"
    using assms(9) by (simp add: lan_random_def)
  then have "ipmi_activate_session_cmd k md2 st = Inr (0, ?st')"
    using st1(1,2) s a assms(2,8)
    by (simp add: ipmi_activate_session_cmd_def ipmi_oem_active_def on_lan_ssn_def lan_got_def Let_def)
  moreover have "lan_idle rs rest ?st'"
    by (rule lan_idle_cong [OF st1(3)]) simp_all
  moreover have "lan_fixed st ?st'"
    using lan_kept_fixed [OF st1(4)] by (simp add: lan_fixed_def)
  ultimately show thesis
    using that st1(5) by auto
qed

lemma lan_privlvl_answered:
  assumes "lan_idle ((hdr, code, 0x3b, 0, d) # rs) rest st" "lan_header_for (ln_ssn st) hdr code" "0 < k" "length d < 900"
    and "2 < privlvl (ssn_params (ln_intf st))"
  obtains st' where "lan_set_session_privlvl_cmd k md2 st = Inr (0, st')" "lan_idle rs rest st'" "lan_kept st st'"
proof -
  let ?rq = "mk_rq IPMI_NETFN_APP 0x3b [privlvl (ssn_params (ln_intf st))]"
  have b: "st\<lparr>ln_bridge := False\<rparr> = st"
    using assms(1) by (cases st) (simp add: lan_idle_def)
  obtain st1 where st1: "lan_command k md2 ?rq st = Inr (Some (ln_rsp st1), st1)" "lan_got 0 d st1" "lan_idle rs rest st1" "lan_kept st st1"
    by (rule lan_ask [of hdr code ?rq 0 d rs rest st k md2]) (use assms in simp_all)
  have "st1\<lparr>ln_bridge := ln_bridge st\<rparr> = st1"
    using st1(4) by (cases st1) (simp add: lan_kept_def)
  then have "lan_set_session_privlvl_cmd k md2 st = Inr (0, st1)"
    using st1(1,2) assms(5) b by (simp add: lan_set_session_privlvl_cmd_def lan_got_def Let_def not_le)
  then show thesis
    using that st1(3,4) by blast
qed

text \<open>The pong comes first; it says that IPMI is supported.\<close>

lemma lan_ping_answered:
  assumes "\<forall>j. ln_up st j" "length (rs_data (ln_rsp st)) = 1024" "ln_net st = NetPkt p # rest"
    and "21 \<le> length p" "length p < 1024" "p ! 3 = RMCP_CLASS_ASF" "p ! 20 AND 0x80 \<noteq> 0"
  obtains st' where "ipmi_lan_ping st = Inr (1, st')" "ln_net st' = rest" "lan_kept st st'" "ln_reqs st' = ln_reqs st"
    "ln_curr_seq st' = ln_curr_seq st" "\<exists>m. ln_sent st' = ln_sent st @ [m]"
proof -
  let ?st1 = "st\<lparr>ln_sends := ln_sends st + 1, ln_sent := ln_sent st @ [lan_ping_packet]\<rparr>"
  have s: "lan_send_packet lan_ping_packet st = (True, ?st1)"
    using assms(1) by (simp add: lan_send_packet_def Let_def)
  have ne: "p \<noteq> []"
    using assms(4) by auto
  obtain r where r: "lan_recv_packet ?st1 = Inr (True, ?st1\<lparr>ln_net := rest, ln_rsp := r\<rparr>)" "lan_holds r p"
    by (rule lan_recv_pkt [of ?st1 p rest]) (use assms ne in simp_all)
  let ?st' = "?st1\<lparr>ln_net := rest, ln_rsp := r\<rparr>"
  have "lan_look ?st' = Inr (LnPong, ?st')"
    using lan_holds_nth [OF r(2), of 3] lan_holds_nth [OF r(2), of 20] assms(4,6,7) by (simp add: lan_look_def ipmi_handle_pong_def Let_def)
  then have "lan_poll_loop ?st' = Inr (LnPong, ?st')"
    by (subst lan_poll_loop.simps) simp
  then have ping: "ipmi_lan_ping st = Inr (1, ?st')"
    using s r(1) by (simp add: ipmi_lan_ping_def lan_poll_recv_def)
  show thesis
    by (rule that [OF ping _ lan_ping_kept [OF ping]]) simp_all
qed

section \<open>Opening\<close>

text \<open>The responses of an opening: capabilities, challenge, activation, privilege level, no HPM.2, device id.\<close>

definition lan_opening :: "(nat \<Rightarrow> bytes) \<Rightarrow> (nat \<Rightarrow> bytes) \<Rightarrow> bytes \<Rightarrow> u32 \<Rightarrow> bytes \<Rightarrow> bytes \<Rightarrow> bytes \<Rightarrow> bytes
    \<Rightarrow> (bytes \<times> bytes \<times> byte \<times> byte \<times> bytes) list" where
  "lan_opening h c caps n chal act lvl dev =
     [(h 0, c 0, 0x38, 0, caps), (h 1, c 1, 0x39, 0, le32 n @ chal), (h 2, c 2, 0x3a, 0, act), (h 3, c 3, 0x3b, 0, lvl),
      (h 4, c 4, 0x3e, 0xC1, []), (h 5, c 5, 0x01, 0, dev)]"

text \<open>The sessions on the way: after the capabilities, after the challenge (as it is when Activate Session is sent).\<close>

definition lan_chosen :: "ipmi_session_params \<Rightarrow> bytes \<Rightarrow> byte \<Rightarrow> lan_session" where
  "lan_chosen p caps t = (lan_new_session p)\<lparr>ls_authstatus := caps ! 2, ls_authtype := t\<rparr>"

definition lan_challenged :: "ipmi_session_params \<Rightarrow> bytes \<Rightarrow> byte \<Rightarrow> u32 \<Rightarrow> bytes \<Rightarrow> lan_session" where
  "lan_challenged p caps t n chal = (lan_chosen p caps t)\<lparr>ls_session_id := n, ls_challenge := chal, ls_active := True\<rparr>"

lemma lan_activate_answered:
  assumes "\<forall>j. ln_up st j" "lan_idle [] [] (st\<lparr>ln_net := []\<rparr>)" "ln_ssn st = lan_new_session p" "oem (ln_intf st) = None" "ln_rand st = []"
    and "p = ssn_params (ln_intf st)" "2 < privlvl p" "0 < k"
    and "ln_net st = NetPkt pong # lan_script (ln_curr_seq st) (lan_opening h c caps n chal act lvl dev) @ rest"
    and "21 \<le> length pong" "length pong < 1024" "pong ! 3 = RMCP_CLASS_ASF" "pong ! 20 AND 0x80 \<noteq> 0"
    and "3 \<le> length caps" "length caps < 900" "lan_pick_authtype p (caps ! 1) = Some t" "length chal = 16"
    and "10 \<le> length act" "length act < 900" "lan_activated act (lan_challenged p caps t n chal) = (0, s)" "length lvl < 900"
    and "lan_header_for (lan_new_session p) (h 0) (c 0)" "lan_header_for (lan_chosen p caps t) (h 1) (c 1)"
    and "lan_header_for (lan_challenged p caps t n chal) (h 2) (c 2)" "lan_header_for s (h 3) (c 3)"
  obtains st' where "ipmi_lan_activate_session k md2 st = Inr (0, st')" "lan_same_ssn s (ln_ssn st')"
    "lan_idle [(h 4, c 4, 0x3e, 0xC1, []), (h 5, c 5, 0x01, 0, dev)] rest st'"
    "ln_intf st' = (ln_intf st)\<lparr>intf_abort := False\<rparr>" "ln_live st' = ln_live st"
proof -
  have len: "length (rs_data (ln_rsp st)) = 1024" and i0: "table_ok (ln_reqs st)" "pending (ln_reqs st) = []" "\<not> ln_bridge st"
    "\<not> noanswer (ln_intf st)" "0 < retry (ssn_params (ln_intf st))"
    using assms(2) by (simp_all add: lan_idle_def)
  obtain st1 where st1: "ipmi_lan_ping st = Inr (1, st1)" "ln_net st1 = lan_script (ln_curr_seq st) (lan_opening h c caps n chal act lvl dev) @ rest"
    "lan_kept st st1" "ln_reqs st1 = ln_reqs st" "ln_curr_seq st1 = ln_curr_seq st"
    by (rule lan_ping_answered [OF assms(1) len assms(9-13)])
  have s1: "ln_ssn st1 = lan_new_session p" "ln_intf st1 = ln_intf st"
    using lan_same_zero [OF _ lan_kept_ssn [OF st1(3)]] assms(3) st1(3) by (simp_all add: lan_kept_def lan_new_session_def)
  have i1: "lan_idle (lan_opening h c caps n chal act lvl dev) rest st1"
    using st1 i0 len assms(1) by (simp add: lan_idle_def lan_kept_def)
  obtain st2 where st2: "lan_auth_capabilities_cmd k md2 st1 = Inr (0, st2)"
    "lan_idle (tl (lan_opening h c caps n chal act lvl dev)) rest st2" "lan_fixed st1 st2" "ln_ssn st2 = lan_chosen p caps t"
    by (rule lan_capabilities_answered [of "h 0" "c 0" caps _ rest st1 k t md2])
      (use i1 s1 assms in \<open>simp_all add: lan_opening_def lan_chosen_def lan_new_session_def\<close>)
  obtain st3 where st3: "ipmi_get_session_challenge_cmd k md2 st2 = Inr (0, st3)"
    "lan_idle (tl (tl (lan_opening h c caps n chal act lvl dev))) rest st3" "lan_fixed st2 st3"
    "ln_ssn st3 = (lan_chosen p caps t)\<lparr>ls_session_id := n, ls_challenge := chal\<rparr>"
    by (rule lan_challenge_answered [of "h 1" "c 1" n chal _ rest st2 k md2])
      (use st2 assms in \<open>simp_all add: lan_opening_def lan_chosen_def lan_new_session_def\<close>)
  have c3: "lan_challenged p caps t n chal = (ln_ssn st3)\<lparr>ls_active := True\<rparr>" "ln_intf st3 = ln_intf st" "ln_rand st3 = []"
    "ls_in_seq (ln_ssn st3) = 0" "ln_live st3 = ln_live st"
    using st3(3,4) st2(3) st1(3) s1(2) assms(5) by (simp_all add: lan_challenged_def lan_fixed_def lan_kept_def lan_chosen_def lan_new_session_def)
  obtain st4 where st4: "ipmi_activate_session_cmd k md2 st3 = Inr (0, st4)"
    "lan_idle (tl (tl (tl (lan_opening h c caps n chal act lvl dev)))) rest st4" "lan_fixed st3 st4" "ln_ssn st4 = s"
    by (rule lan_activation_answered [of "h 2" "c 2" act _ rest st3 "lan_challenged p caps t n chal" k s md2])
      (use st3 c3 assms in \<open>simp_all add: lan_opening_def\<close>)
  let ?st4 = "on_lan_intf (\<lambda>i. i\<lparr>intf_abort := False\<rparr>) st4"
  have i4: "lan_idle (tl (tl (tl (lan_opening h c caps n chal act lvl dev)))) rest ?st4"
    by (rule lan_idle_cong [OF st4(2)]) (simp_all add: on_lan_intf_def)
  have f4: "ln_intf st4 = ln_intf st" "ln_live st4 = ln_live st" "ln_ssn ?st4 = s" "ln_intf ?st4 = (ln_intf st)\<lparr>intf_abort := False\<rparr>"
    using st4(3,4) c3 by (simp_all add: lan_fixed_def on_lan_intf_def)
  obtain st5 where st5: "lan_set_session_privlvl_cmd k md2 ?st4 = Inr (0, st5)"
    "lan_idle [(h 4, c 4, 0x3e, 0xC1, []), (h 5, c 5, 0x01, 0, dev)] rest st5" "lan_kept ?st4 st5"
    by (rule lan_privlvl_answered [of "h 3" "c 3" lvl _ rest ?st4 k md2])
      (use i4 f4 assms in \<open>simp_all add: lan_opening_def\<close>)
  have "ipmi_lan_activate_session k md2 st = Inr (0, st5)"
    using st1(1) st2(1) st3(1) st4(1) st5(1) s1(2) assms(4)
    by (simp add: ipmi_lan_activate_session_def ipmi_oem_active_def lan_then_def)
  then show thesis
    using that st5 f4 lan_kept_ssn [OF st5(3)] by (simp add: lan_kept_def on_lan_intf_def)
qed

text \<open>The client before the opening: idle, no session, nothing that bridges.\<close>

definition lan_closed :: "ipmi_session_params \<Rightarrow> lan_state \<Rightarrow> bool" where
  "lan_closed p st \<longleftrightarrow> \<not> opened (ln_intf st) \<and> \<not> noanswer (ln_intf st) \<and> oem (ln_intf st) = None \<and> manufacturer_id (ln_intf st) = 0
     \<and> p = lan_default_params (ssn_params (ln_intf st)) \<and> hostname p \<noteq> None \<and> hostname p \<noteq> Some [] \<and> 0 < retry p \<and> 2 < privlvl p
     \<and> table_ok (ln_reqs st) \<and> pending (ln_reqs st) = [] \<and> length (rs_data (ln_rsp st)) = 1024 \<and> \<not> ln_bridge st
     \<and> (\<forall>j. ln_up st j) \<and> ln_rand st = []"

lemma lan_open_answered:
  assumes "lan_closed p st" "fst sock" "snd sock \<noteq> 0" "0 < k"
    and "ln_net st = NetPkt pong # lan_script (ln_curr_seq st) (lan_opening h c caps n chal act lvl dev) @ rest"
    and "21 \<le> length pong" "length pong < 1024" "pong ! 3 = RMCP_CLASS_ASF" "pong ! 20 AND 0x80 \<noteq> 0"
    and "3 \<le> length caps" "length caps < 900" "lan_pick_authtype p (caps ! 1) = Some t" "length chal = 16"
    and "10 \<le> length act" "length act < 900" "lan_activated act (lan_challenged p caps t n chal) = (0, s)" "length lvl < 900" "length dev < 900"
    and "lan_header_for (lan_new_session p) (h 0) (c 0)" "lan_header_for (lan_chosen p caps t) (h 1) (c 1)"
    and "lan_header_for (lan_challenged p caps t n chal) (h 2) (c 2)" "\<forall>j \<in> {3, 4, 5}. lan_header_for s (h j) (c j)"
  shows "\<exists>st'. ipmi_lan_open k md2 iana sock True st = Inr (snd sock, st') \<and> lan_opened p (snd sock) (ln_intf st') (ln_live st')
    \<and> ln_bridge st' \<and> lan_same_ssn s (ln_ssn st') \<and> ln_net st' = rest"
proof -
  define st1 where "st1 = on_lan_intf (on_params lan_default_params) st"
  define st2 where "st2 = on_lan_intf (\<lambda>i. i\<lparr>fd := snd sock\<rparr>) st1"
  define st3 where "st3 = (on_lan_intf (\<lambda>i. i\<lparr>opened := True, intf_abort := True\<rparr>) st2)
      \<lparr>ln_live := True, ln_ssn := lan_new_session (ssn_params (ln_intf st2))\<rparr>"
  note cl = assms(1) [unfolded lan_closed_def]
  have p: "ssn_params (ln_intf st1) = p" "ssn_params (ln_intf st2) = p" "ssn_params (ln_intf st3) = p"
    using cl by (simp_all add: st1_def st2_def st3_def on_lan_intf_def on_params_def)
  have i3: "ln_intf st3 = (ln_intf st)\<lparr>ssn_params := p, fd := snd sock, opened := True, intf_abort := True\<rparr>"
    "ln_net st3 = ln_net st" "ln_curr_seq st3 = ln_curr_seq st" "ln_ssn st3 = lan_new_session p" "ln_rand st3 = []" "\<forall>j. ln_up st3 j"
    "ln_live st3"
    using cl p(2) by (simp_all add: st3_def st2_def st1_def on_lan_intf_def on_params_def)
  have oem0: "oem (ln_intf st) = None" and go: "\<not> opened (ln_intf st)" "hostname p \<noteq> None" "hostname p \<noteq> Some []"
    using cl by blast+
  have pos: "0 < retry (ssn_params (ln_intf st3))" "2 < privlvl p" "oem (ln_intf st3) = None"
    using cl unfolding p(3) by (blast, blast) (simp add: i3(1) oem0)
  have "noanswer (ln_intf st3) = noanswer (ln_intf st)" "ln_reqs st3 = ln_reqs st" "ln_rsp st3 = ln_rsp st" "ln_bridge st3 = ln_bridge st"
    by (simp_all add: i3(1)) (simp_all add: st3_def st2_def st1_def on_lan_intf_def)
  then have idle: "lan_idle [] [] (st3\<lparr>ln_net := []\<rparr>)"
    using cl i3(6) pos(1) by (auto simp: lan_idle_def)
  have net: "ln_net st3 = NetPkt pong # lan_script (ln_curr_seq st3) (lan_opening h c caps n chal act lvl dev) @ rest"
    using assms(5) i3 by simp
  obtain st4 where st4: "ipmi_lan_activate_session k md2 st3 = Inr (0, st4)" "lan_same_ssn s (ln_ssn st4)"
    "lan_idle [(h 4, c 4, 0x3e, 0xC1, []), (h 5, c 5, 0x01, 0, dev)] rest st4"
    "ln_intf st4 = (ln_intf st3)\<lparr>intf_abort := False\<rparr>" "ln_live st4 = ln_live st3"
    by (rule lan_activate_answered [OF i3(6) idle i3(4) pos(3) i3(5) p(3) [symmetric] pos(2) assms(4) net assms(6-17,19-21), where ?md2.0 = md2])
      (use assms(22) in simp_all)
  let ?f = "\<lambda>n. on_lan_intf (\<lambda>i. ipmi_intf_set_max_request_data_size (Some ipmi_lan_set_max_rq_data_size) i n)"
  let ?g = "\<lambda>n. on_lan_intf (\<lambda>i. ipmi_intf_set_max_response_data_size (Some ipmi_lan_set_max_rp_data_size) i n)"
  obtain st5 where st5: "lan_command k md2 (mk_rq IPMI_NETFN_PICMG 0x3E [0, 2]) st4 = Inr (Some (ln_rsp st5), st5)"
    "lan_got 0xC1 [] st5" "lan_idle [(h 5, c 5, 0x01, 0, dev)] rest st5" "lan_kept st4 st5"
    by (rule lan_ask [of "h 4" "c 4" "mk_rq IPMI_NETFN_PICMG 0x3E [0, 2]" "0xC1" "[]" _ rest st4 k md2])
      (use st4 assms(4,22) lan_same_header [OF st4(2)] in simp_all)
  have hpm: "hpm2_detect_max_payload_size (lan_command k md2) ?f ?g st4 = Inr (0xC1, st5)"
    using st5(1,2) by (simp add: hpm2_detect_max_payload_size_def hpm2_get_capabilities_def lan_got_def)
  have s5: "lan_same_ssn s (ln_ssn st5)" "ln_intf st5 = ln_intf st4" "ln_live st5 = ln_live st4"
    using lan_same_ssn_trans [OF st4(2) lan_kept_ssn [OF st5(4)]] st5(4) by (simp_all add: lan_kept_def)
  obtain st6 where st6: "lan_command k md2 (mk_rq IPMI_NETFN_APP 0x01 []) st5 = Inr (Some (ln_rsp st6), st6)"
    "lan_idle [] rest st6" "lan_kept st5 st6"
    by (rule lan_ask [of "h 5" "c 5" "mk_rq IPMI_NETFN_APP 0x01 []" 0 dev "[]" rest st5 k md2])
      (use st5 assms(4,18,22) lan_same_header [OF s5(1)] in simp_all)
  have s6: "lan_same_ssn s (ln_ssn st6)" "ln_intf st6 = ln_intf st4" "ln_live st6 = ln_live st4"
    using lan_same_ssn_trans [OF s5(1) lan_kept_ssn [OF st6(3)]] st6(3) s5 by (simp_all add: lan_kept_def)
  have i5: "fd (ln_intf st5) = snd sock" "manufacturer_id (ln_intf st5) = 0"
    using s5(2) st4(4) i3(1) cl by simp_all
  obtain m where oem: "ipmi_get_oem (lan_command k md2) iana (ln_intf st5) st5 = Inr (m, st6)"
    using st6(1) i5 assms(3) by (simp add: ipmi_get_oem_def IPMI_OEM_UNKNOWN_def)
  let ?st' = "(on_lan_intf (\<lambda>i. i\<lparr>manufacturer_id := m\<rparr>) st6)\<lparr>ln_bridge := True\<rparr>"
  have "ipmi_lan_open k md2 iana sock True st = Inr (fd (ln_intf ?st'), ?st')"
    unfolding ipmi_lan_open_def Let_def st1_def [symmetric] st2_def [symmetric] st3_def [symmetric]
    using go p(1) assms(2) st4(1) hpm oem by auto
  moreover have "fd (ln_intf ?st') = snd sock" "lan_opened p (snd sock) (ln_intf ?st') (ln_live ?st')"
    using s6 st4(4,5) i3 by (simp_all add: lan_opened_def on_lan_intf_def)
  ultimately show ?thesis
    using s6(1) st6(2) by (auto simp: on_lan_intf_def lan_idle_def)
qed

text \<open>C5: opening succeeds with a BMC that answers: after a pong and responses to the commands in turn the interface is
  open, and its session is the one activated, with the id and the sequence number of the BMC, its challenge and the
  authentication type chosen from those it offered.\<close>

theorem lan_open_succeeds:
  assumes "lan_closed p st" "fst sock" "snd sock \<noteq> 0" "0 < k"
    and "ln_net st = NetPkt pong # lan_script (ln_curr_seq st) (lan_opening h c caps n chal act lvl dev) @ rest"
    and "21 \<le> length pong" "length pong < 1024" "pong ! 3 = RMCP_CLASS_ASF" "pong ! 20 AND 0x80 \<noteq> 0"
    and "3 \<le> length caps" "length caps < 900" "lan_pick_authtype p (caps ! 1) = Some t" "length chal = 16"
    and "10 \<le> length act" "length act < 900" "lan_activated act (lan_challenged p caps t n chal) = (0, s)" "length lvl < 900" "length dev < 900"
    and "lan_header_for (lan_new_session p) (h 0) (c 0)" "lan_header_for (lan_chosen p caps t) (h 1) (c 1)"
    and "lan_header_for (lan_challenged p caps t n chal) (h 2) (c 2)" "\<forall>j \<in> {3, 4, 5}. lan_header_for s (h j) (c j)"
  shows "\<exists>st'. ipmi_lan_open k md2 iana sock True st = Inr (snd sock, st') \<and> lan_opened p (snd sock) (ln_intf st') (ln_live st')
    \<and> ln_bridge st' \<and> lan_same_ssn s (ln_ssn st') \<and> ln_net st' = rest"
  by (rule lan_open_answered [OF assms])

text \<open>A client with a password, and a BMC that offers MD5.\<close>

definition sample_lan_params :: ipmi_session_params where
  "sample_lan_params = sample_params\<lparr>hostname := Some ''bmc'', has_password := True, authtype_set := 2, authcode_set := 0x70 # replicate 20 0\<rparr>"

definition sample_lan_act :: bytes where
  "sample_lan_act = [2, 4, 3, 2, 1, 9, 0, 0, 0, 4]"

definition sample_lan_header :: "nat \<Rightarrow> bytes" where
  "sample_lan_header j = [if j < 2 then 0 else 2] @ [0, 0, 0, 0] @ (if j < 2 then [0, 0, 0, 0] else [4, 3, 2, 1])"

definition sample_lan_code :: "nat \<Rightarrow> bytes" where
  "sample_lan_code j = (if j < 2 then [] else replicate 16 0xAA)"

definition sample_lan_closed :: lan_state where
  "sample_lan_closed = (sample_lan (lan_new_session sample_lan_params)
     (NetPkt ([6, 0, 0xFF, 6] @ replicate 16 0 @ [0x81] @ replicate 7 0) #
      lan_script 63 (lan_opening sample_lan_header sample_lan_code [1, 0x34, 0] 0x01020304 (replicate 16 7) sample_lan_act [4] [0x51]))
     (\<lambda>_. True))\<lparr>ln_intf := sample_intf\<lparr>opened := False, ssn_params := sample_lan_params\<rparr>, ln_bridge := False\<rparr>"

lemma sample_lan_params_simps [simp]:
  "lan_default_params sample_lan_params = sample_lan_params" "has_password sample_lan_params" "authtype_set sample_lan_params = 2"
  "hostname sample_lan_params = Some ''bmc''" "retry sample_lan_params = 3" "privlvl sample_lan_params = 4"
  by (simp_all add: sample_lan_params_def sample_params_def lan_default_params_def)

lemma sample_lan_closed_ok: "lan_closed sample_lan_params sample_lan_closed"
  using empty_table_ok by (simp add: lan_closed_def sample_lan_closed_def sample_lan_def) (simp add: sample_intf_def)

definition sample_lan_activated :: lan_session where
  "sample_lan_activated = snd (lan_activated sample_lan_act (lan_challenged sample_lan_params [1, 0x34, 0] 2 0x01020304 (replicate 16 7)))"

lemma sample_lan_act_ok:
  "lan_activated sample_lan_act (lan_challenged sample_lan_params [1, 0x34, 0] 2 0x01020304 (replicate 16 7)) = (0, sample_lan_activated)"
  by (simp add: sample_lan_activated_def lan_activated_def sample_lan_act_def lan_challenged_def lan_chosen_def Let_def)

lemma sample_lan_activated_simps:
  "ls_active sample_lan_activated" "ls_session_id sample_lan_activated = 0x01020304" "ls_in_seq sample_lan_activated = 9"
  "ls_authtype sample_lan_activated = 2"
  by (simp_all add: sample_lan_activated_def lan_activated_def sample_lan_act_def lan_challenged_def lan_chosen_def Let_def of_le32_def)

lemma sample_lan_headers:
  "lan_header_for (lan_new_session sample_lan_params) (sample_lan_header 0) (sample_lan_code 0)"
  "lan_header_for (lan_chosen sample_lan_params [1, 0x34, 0] 2) (sample_lan_header 1) (sample_lan_code 1)"
  "lan_header_for (lan_challenged sample_lan_params [1, 0x34, 0] 2 0x01020304 (replicate 16 7)) (sample_lan_header 2) (sample_lan_code 2)"
  "\<forall>j \<in> {3, 4, 5}. lan_header_for sample_lan_activated (sample_lan_header j) (sample_lan_code j)"
  by (simp_all add: lan_header_for_def lan_challenged_def lan_chosen_def lan_new_session_def sample_lan_header_def sample_lan_code_def
      sample_lan_activated_simps of_le32_def)

lemma sample_lan_pick: "lan_pick_authtype sample_lan_params ([1, 0x34, 0] ! 1) = Some 2"
  by (simp add: lan_pick_authtype_def authtypes Let_def bit_numeral_rec)

lemmas sample_lan_open = sample_lan_closed_ok sample_lan_pick sample_lan_act_ok sample_lan_headers

lemma sample_lan_net:
  "ln_net sample_lan_closed = NetPkt ([6, 0, 0xFF, 6] @ replicate 16 0 @ [0x81] @ replicate 7 0) # lan_script (ln_curr_seq sample_lan_closed)
     (lan_opening sample_lan_header sample_lan_code [1, 0x34, 0] 0x01020304 (replicate 16 7) sample_lan_act [4] [0x51]) @ []"
  "length (rs_data (ln_rsp sample_lan_closed)) = 1024" "ssn_params (ln_intf sample_lan_closed) = sample_lan_params"
  by (simp_all only: sample_lan_closed_def) (simp_all add: sample_lan_def)

theorem lan_open_succeeds_witness:
  "\<exists>st'. ipmi_lan_open 1 None 0 (True, 5) True sample_lan_closed = Inr (5, st') \<and> ls_session_id (ln_ssn st') = 0x01020304
    \<and> ls_authtype (ln_ssn st') = 2 \<and> ls_active (ln_ssn st')"
proof -
  have "\<exists>st'. ipmi_lan_open 1 None 0 (True, 5) True sample_lan_closed = Inr (snd (True, 5), st')
    \<and> lan_opened sample_lan_params (snd (True, 5)) (ln_intf st') (ln_live st')
    \<and> ln_bridge st' \<and> lan_same_ssn sample_lan_activated (ln_ssn st') \<and> ln_net st' = []"
    by (rule lan_open_succeeds [OF sample_lan_open(1) _ _ _ sample_lan_net(1) _ _ _ _ _ _ sample_lan_open(2) _ _ _ sample_lan_open(3) _ _ sample_lan_open(4-7)])
      (simp_all add: RMCP_CLASS_ASF_def sample_lan_act_def nth_append)
  then obtain st' where st': "ipmi_lan_open 1 None 0 (True, 5) True sample_lan_closed = Inr (5, st')" "lan_same_ssn sample_lan_activated (ln_ssn st')"
    by auto
  then have "ls_session_id (ln_ssn st') = 0x01020304 \<and> ls_authtype (ln_ssn st') = 2 \<and> ls_active (ln_ssn st')"
    using sample_lan_activated_simps by (cases "ln_ssn st'"; cases sample_lan_activated) (simp add: lan_same_ssn_def)
  then show ?thesis
    using st'(1) by blast
qed

theorem lan_open_activated_witness:
  "\<exists>st'. ipmi_lan_open 1 None 0 (True, 5) True sample_lan_closed = Inr (5, st') \<and> ls_in_seq (ln_ssn st') \<noteq> 0
    \<and> lan_opened sample_lan_params 5 (ln_intf st') (ln_live st') \<and> ls_authtype (ln_ssn st') \<in> {2, 0}"
proof -
  have "\<exists>st'. ipmi_lan_open 1 None 0 (True, 5) True sample_lan_closed = Inr (snd (True, 5), st')
    \<and> lan_opened sample_lan_params (snd (True, 5)) (ln_intf st') (ln_live st')
    \<and> ln_bridge st' \<and> lan_same_ssn sample_lan_activated (ln_ssn st') \<and> ln_net st' = []"
    by (rule lan_open_answered [OF sample_lan_open(1) _ _ _ sample_lan_net(1) _ _ _ _ _ _ sample_lan_open(2) _ _ _ sample_lan_open(3) _ _ sample_lan_open(4-7)])
      (simp_all add: RMCP_CLASS_ASF_def sample_lan_act_def nth_append)
  then obtain st' where st': "ipmi_lan_open 1 None 0 (True, 5) True sample_lan_closed = Inr (5, st')"
    by auto
  show ?thesis
    using lan_open_activated [OF st' _ sample_lan_net(2) refl refl] st' by (auto simp: sample_lan_net(3))
qed

end
