(* ===== verification/Spec2Isabelle.thy ===== *)
theory Spec2Isabelle
  imports HelperProps SerialTermProps LanplusSendProps LanplusOpenProps FruResize SdrErrors SdrList HpmProps LanHonest
begin

text \<open>
  A verification development for the IPMI client of this repository, \<open>ipmitool\<close> under
  \<open>src/es-diagnose/es-consoled/es-ipmitool/ipmitool\<close>; the paths below are relative to it.

  \<^bold>\<open>The program.\<close> A command line tool that talks to a baseboard management controller (BMC). A
  transport (\<open>src/plugins/*\<close>) gives the interface handle \<open>struct ipmi_intf\<close> its functions
  \<open>open\<close>, \<open>close\<close>, \<open>sendrecv\<close>; the commands (\<open>lib/ipmi_*.c\<close>) build requests, pass them to
  \<open>intf->sendrecv\<close> and read the response from the transport's static buffer; helpers
  (\<open>lib/helper.c\<close>) convert numbers, bytes and text.

  \<^bold>\<open>Which theory models what.\<close>
  \<^item> \<open>Prelude\<close>: bytes, results with faults (\<open>'a outcome\<close>: a fault of the C program or a value),
    regions of buffers, lemmas on lists and words.
  \<^item> \<open>Helper\<close>, \<open>HelperNum\<close>, \<open>HelperProps\<close>: \<open>lib/helper.c\<close>, the checksum, the hex dump and its
    parser, byte orders, text to numbers, value tables.
  \<^item> \<open>Ipmi\<close>, \<open>Ipmb\<close>: the interface handle with its setters (\<open>src/plugins/ipmi_intf.c\<close>), requests,
    and what a valid IPMB message is.
  \<^item> \<open>SeqCounter\<close>: the locale of a request number that counts up and wraps; interpreted for each of
    the three transports.
  \<^item> \<open>SerialBasic\<close>, \<open>SerialBasicFacts\<close>, \<open>SerialBasicProps\<close>: \<open>src/plugins/serial/serial_basic.c\<close>,
    framing, the receive loop over reads of any size, building and matching, retries.
  \<^item> \<open>SerialTerm\<close>, \<open>SerialTermProps\<close>: \<open>src/plugins/serial/serial_terminal.c\<close>, lines of hexadecimal text, requests that
    share their structures with Basic Mode, the message queue and retries.
  \<^item> \<open>ReqTable\<close>: the linked list of pending requests of \<open>lanplus.c\<close> on an explicit heap, refining
    an abstract list (a locale with the list operations as its contract).
  \<^item> \<open>LanplusTypes\<close>, \<open>LanplusCrypt\<close>, \<open>LanplusMsg\<close>, \<open>LanplusPoll\<close>, \<open>LanplusSend\<close>, \<open>LanplusSession\<close>:
    \<open>src/plugins/lanplus/*.c\<close>. The state \<open>lp_state\<close> holds the interface, the session, the list
    of requests, the static response and the static variables of the file; \<open>LanplusCrypt\<close> the codes,
    keys and encryption, \<open>LanplusMsg\<close> the packets, \<open>LanplusPoll\<close> receiving, \<open>LanplusSend\<close> the retry
    loop and Serial over LAN, \<open>LanplusSession\<close> opening, the handshake, closing, keep-alive.
  \<^item> \<open>LanplusTakes\<close>, \<open>LanplusKeep\<close>, \<open>LanplusHandshake\<close>: which calls use up events, what sending and
    receiving leave alone, and the handshake as a protocol machine \<open>ssn_step\<close> with its invariant.
  \<^item> \<open>LanplusCryptProps\<close>, \<open>LanplusMsgProps\<close>, \<open>LanplusPollProps\<close>, \<open>LanplusSendProps\<close>,
    \<open>LanplusSessionProps\<close>, \<open>LanplusHonest\<close>, \<open>LanplusOpenProps\<close>: the properties of these.
  \<^item> \<open>Sendrecv\<close>: \<open>intf->sendrecv\<close> as a function on any transport state, the locale \<open>transport\<close> with
    what commands rely on, interpreted for a device given by a table and, in
    \<open>LanplusSessionProps\<close> and \<open>LanKeep\<close>, for the RMCP+ and LAN 1.5 transports themselves.
  \<^item> \<open>User\<close>, \<open>Channel\<close>, \<open>Hpm2\<close>, \<open>ChannelProps\<close>: \<open>lib/ipmi_user.c\<close>, \<open>lib/ipmi_channel.c\<close>,
    \<open>lib/hpm2.c\<close> and \<open>ipmi_get_oem\<close> of \<open>lib/ipmi_sel.c\<close>; what a command prints from the device's
    data is the value next to its return value.
  \<^item> \<open>Fru\<close>, \<open>FruArea\<close>, \<open>FruEdit\<close>: \<open>lib/ipmi_fru.c\<close>, reading and writing the memory of a device
    in pieces, its blocks and texts, printing the areas, saving and restoring, editing a field.
  \<^item> \<open>FruDevice\<close>, \<open>FruProps\<close>, \<open>FruText\<close>, \<open>FruEditProps\<close>, \<open>FruResize\<close>: what a device of FRU memory promises
    (locales \<open>fru_readable\<close>, \<open>fru_memory\<close>, \<open>fru_refusing\<close>, each interpreted for a device), and the properties.
  \<^item> \<open>Sdr\<close>, \<open>SdrAdd\<close>, \<open>SdrFile\<close>, \<open>SdrCache\<close>: \<open>lib/ipmi_sdr.c\<close> and \<open>lib/ipmi_sdradd.c\<close>, reading the records of a
    sensor data repository in pieces under a reservation, the list in memory and the searches over it, cache files
    and dumps, erasing and filling a repository. The environment \<open>sdr_env\<close> holds the static variables of the files.
  \<^item> \<open>SdrSource\<close>, \<open>SdrHost\<close>, \<open>SdrTransfer\<close>, \<open>SdrBus\<close>: what reading and filling rely on (locales \<open>sdr_source\<close>,
    \<open>sdr_host\<close>, \<open>sdr_sink\<close>, \<open>sdr_frame\<close>), interpreted for controllers on a bus of which some do not answer; \<open>SdrSearch\<close>,
    \<open>SdrFill\<close>, \<open>SdrErrors\<close>, \<open>SdrList\<close>: the properties.
  \<^item> \<open>Md5\<close>, \<open>Md5Props\<close>: \<open>src/plugins/lan/md5.c\<close>, the digest with its state, and that pieces do not matter.
  \<^item> \<open>LanMsg\<close>, \<open>LanPoll\<close>, \<open>LanSend\<close>, \<open>LanSession\<close>: the LAN 1.5 transport, \<open>src/plugins/lan/lan.c\<close> and \<open>auth.c\<close>, in the
    same order: session and packets with their authentication codes, receiving, the retry loop and Serial over LAN, opening
    and closing. The state is \<open>lan_state\<close>; the list of requests and the answers to a ping are those of RMCP+, whose code is the same.
  \<^item> \<open>LanFacts\<close>, \<open>LanKeep\<close>, \<open>LanMsgProps\<close>, \<open>LanSendProps\<close>, \<open>LanOpenProps\<close>, \<open>LanHonest\<close>: which packets are foreign and which
    answer, what polling and sending leave alone, and the properties of this transport.
  \<^item> \<open>HpmCmd\<close>, \<open>HpmImage\<close>, \<open>HpmUpgrade\<close>: \<open>lib/ipmi_hpmfwupg.c\<close>, the commands of a firmware upgrade with their retries and
    waiting, the checks of an image, the stages and the command line. The environment \<open>hpm_env\<close> holds the static variables,
    the clock and the answers of the user.
  \<^item> \<open>HpmTarget\<close>, \<open>HpmActions\<close>, \<open>HpmDeliver\<close>, \<open>HpmProps\<close>: what an upgrade relies on (locales \<open>hpm_receiver\<close> and \<open>hpm_target\<close>, which
    extends it, interpreted for a device), images as lists of actions, and the properties.

  \<^bold>\<open>The environment.\<close> System calls are sequences in the state: what the socket or the serial line
  delivers (datagrams, chunks, silence, errors), which sends fail, whether the timeout has passed,
  the answers of the random number generator. HMAC and AES of OpenSSL are the parameter
  \<open>crypto\<close>; \<open>crypto_ok\<close> states their documented lengths and that decryption inverts encryption, and
  \<open>plain_crypto\<close> shows it can hold; MD2 is a parameter of the LAN 1.5 transport, of which \<open>md2_ok\<close> says
  that it gives 16 bytes. Reading outside a buffer, using freed memory, reading
  indeterminate values and failing assertions are values of type \<open>fault\<close>, so that a theorem that
  gives \<open>Inr\<close> also says that none of them happens.

  \<^bold>\<open>Loops.\<close> Loops over received events are \<open>function\<close>s whose termination is proved by the number of
  events left; retry loops recurse on the attempts (\<open>retry\<close> of the session parameters, 4 for the
  handshake, as in the code); the loop over cipher suites has at most 64 rounds and the one over users 63
  as in the code. The loop that writes a FRU memory may run forever (a word-wise device with requests of a
  single byte); it is given a number of rounds, and \<open>Unfinished\<close> is its value when they do not suffice. So are the
  loops of an upgrade that retry, wait and poll (\<open>send_rounds\<close>, \<open>wait_rounds\<close>, \<open>poll_rounds\<close>, \<open>reopen_rounds\<close>,
  \<open>upload_rounds\<close>) and those of LAN 1.5 that send (\<open>lan_send_rounds\<close>, \<open>lan_sol_rounds\<close>: a call of \<open>send\<close> that fails is repeated
  whatever the number of attempts), and properties say when they never end and how many rounds are enough. For a FRU the
  number of bytes plus 255 always does for a device accessed by bytes. The loops over a repository also
  run as long as the device goes on; for one of \<open>n\<close> records that cancels at most three reservations, more than \<open>n\<close>
  rounds, and 509 for each record (a piece of at least one byte, a shorter one, or a new reservation each), suffice. An
  upload of \<open>n\<close> bytes takes at most \<open>n + 65536\<close> rounds: each sends a byte or makes the blocks smaller.

  \<^bold>\<open>What the lemmas show.\<close> Serial: a request gets exactly the answer of the device, in either mode, whatever noise
  comes before it. Packets: built ones are read back, verify and decrypt to the payload, fit the
  allocated buffer, and carry valid IPMB messages at each bridging level. Receiving: only responses of this
  session, authenticated if flagged, are returned and each removes exactly its request.
  Sending: a command is answered with its answer; request numbers are distinct; SOL characters are
  neither lost nor repeated. Session: an opened, active session has authenticated the BMC; the
  handshake refines the protocol machine and succeeds with an honest BMC. LAN 1.5: packets are valid, commands get their
  answers, and a session is opened with a BMC that answers, with an authentication type the user allows. Commands: lists are read
  completely and in order. FRU: ranges are read and written exactly whatever the device's limit, saving and
  restoring agree, texts are decoded and areas printed as they were packed, an edit changes its field and
  the checksum only. Sensor records: a search answers for the whole repository wherever the reading stands,
  dumps and cache files agree, filling stores the records of the slaves in order. Firmware: an accepted image is one with a right digest and
  header, and an upgrade leaves in each component due for it exactly the firmware of the file. Where the code does not do what it means to do, a theorem says what it
  does.

  \<^bold>\<open>Not modelled.\<close> The kernel and vendor transports (thin
  wrappers around ioctl and drivers); printing of sensors and
  the conversion of their readings (floating point); the remaining commands (event log, the multi-record
  area of a FRU, vendor protocols for firmware, serial over LAN sessions, LAN, chassis, PEF, DCMI and vendor commands); packet dumps,
  logging and the main programs (printing); the kernel probes, shell tools and patches of the rest
  of the repository, which are glue around the tools they start.
\<close>

end
